(* ===== verification/Prelude.thy ===== *)
theory Prelude
  imports Main "HOL-Library.AList" "HOL-Library.Char_ord" "HOL-Library.List_Lexorder"
begin

text \<open>
  Shared vocabulary of the development: Go strings as byte lists with
  \<open>strings.TrimSpace\<close> on UTF-8, the error values the handlers return, Go maps of
  slices, and the generic lemmas the component theories use. A Go \<open>string\<close> is a
  sequence of bytes and so is an Isabelle \<^typ>\<open>string\<close> (a list of 8-bit characters):
  lengths count bytes, comparison is bytewise.
\<close>

section \<open>Collections of facts\<close>

named_theorems str_eval \<open>equations that evaluate the Go string functions on literals\<close>
named_theorems frame \<open>what an operation leaves unchanged\<close>

section \<open>Errors as values\<close>

text \<open>
  The handlers return \<open>*ActionError\<close> values (HTTP status, code, message) or plain errors
  made by \<open>errors.New\<close> and \<open>fmt.Errorf\<close>. Every failing branch of the source is an
  \<open>Inl\<close> of a result of type \<^typ>\<open>'e + 'a\<close>.
\<close>

datatype go_error =
    ActionError nat string string
  | OpaqueError string

fun error_message :: "go_error \<Rightarrow> string" where
  "error_message (ActionError st code msg) = msg"
| "error_message (OpaqueError msg) = msg"

definition is_error :: "'e + 'a \<Rightarrow> bool" where
  "is_error r = (case r of Inl _ \<Rightarrow> True | Inr _ \<Rightarrow> False)"

lemma is_error_simps [simp]: "is_error (Inl e)" "\<not> is_error (Inr a)"
  by (simp_all add: is_error_def)

text \<open>What one call of \<open>json.Decoder.Decode\<close> (on a size-limited body) can return.\<close>

datatype 'a json_read = JsonValue 'a | JsonTooLarge | JsonError string | JsonEOF

section \<open>White space and \<open>strings.TrimSpace\<close>\<close>

text \<open>
  \<open>unicode.IsSpace\<close> holds of six ASCII characters and of the code points U+0085, U+00A0,
  U+1680, U+2000 to U+200A, U+2028, U+2029, U+202F, U+205F and U+3000. In UTF-8 the first
  two have two bytes and the others three. The encoding is self-synchronising, so a string
  starts (ends) with such a code point exactly if its first (last) bytes are its encoding.
\<close>

definition ascii_space :: "char \<Rightarrow> bool" where
  "ascii_space c \<longleftrightarrow> c = CHR '' '' \<or> c = CHR 0x09 \<or> c = CHR 0x0A \<or> c = CHR 0x0B
     \<or> c = CHR 0x0C \<or> c = CHR 0x0D"

definition space2 :: "char \<Rightarrow> char \<Rightarrow> bool" where
  "space2 c d \<longleftrightarrow> c = CHR 0xC2 \<and> (d = CHR 0x85 \<or> d = CHR 0xA0)"

definition space3 :: "char \<Rightarrow> char \<Rightarrow> char \<Rightarrow> bool" where
  "space3 c d e \<longleftrightarrow>
     (c = CHR 0xE1 \<and> d = CHR 0x9A \<and> e = CHR 0x80) \<or>
     (c = CHR 0xE2 \<and> d = CHR 0x80 \<and>
        (of_char e \<ge> (128::nat) \<and> of_char e \<le> (138::nat)
          \<or> e = CHR 0xA8 \<or> e = CHR 0xA9 \<or> e = CHR 0xAF)) \<or>
     (c = CHR 0xE2 \<and> d = CHR 0x81 \<and> e = CHR 0x9F) \<or>
     (c = CHR 0xE3 \<and> d = CHR 0x80 \<and> e = CHR 0x80)"

fun strip_spaces ::
  "(char \<Rightarrow> char \<Rightarrow> bool) \<Rightarrow> (char \<Rightarrow> char \<Rightarrow> char \<Rightarrow> bool) \<Rightarrow> string \<Rightarrow> string" where
  "strip_spaces p q [] = []"
| "strip_spaces p q [c] = (if ascii_space c then [] else [c])"
| "strip_spaces p q [c, d] =
     (if ascii_space c then strip_spaces p q [d] else if p c d then [] else [c, d])"
| "strip_spaces p q (c # d # e # s) =
     (if ascii_space c then strip_spaces p q (d # e # s)
      else if p c d then strip_spaces p q (e # s)
      else if q c d e then strip_spaces p q s
      else c # d # e # s)"

definition trim_left :: "string \<Rightarrow> string" where
  "trim_left s = strip_spaces space2 space3 s"

definition trim_right :: "string \<Rightarrow> string" where
  "trim_right s = rev (strip_spaces (\<lambda>c d. space2 d c) (\<lambda>c d e. space3 e d c) (rev s))"

definition trim_space :: "string \<Rightarrow> string" where
  "trim_space s = trim_right (trim_left s)"

abbreviation blank :: "string \<Rightarrow> bool" where
  "blank s \<equiv> trim_space s = []"

abbreviation trimmed :: "string \<Rightarrow> bool" where
  "trimmed s \<equiv> trim_space s = s"

lemmas trim_defs [str_eval] =
  trim_space_def trim_left_def trim_right_def ascii_space_def space2_def space3_def

lemma strip_spaces_length: "length (strip_spaces p q s) \<le> length s"
  by (induction p q s rule: strip_spaces.induct) auto

lemma strip_spaces_idem: "strip_spaces p q (strip_spaces p q s) = strip_spaces p q s"
  by (induction p q s rule: strip_spaces.induct) auto

lemma strip_spaces_suffix: "\<exists>pre. s = pre @ strip_spaces p q s"
proof (induction p q s rule: strip_spaces.induct)
  case (4 p q c d e s)
  then show ?case
    by (auto split: if_splits) (metis append_Cons append_Nil)+
qed auto

text \<open>A string with nothing to strip has no prefix with something to strip.\<close>

fun unstrippable ::
  "(char \<Rightarrow> char \<Rightarrow> bool) \<Rightarrow> (char \<Rightarrow> char \<Rightarrow> char \<Rightarrow> bool) \<Rightarrow> string \<Rightarrow> bool" where
  "unstrippable p q [] = True"
| "unstrippable p q [c] = (\<not> ascii_space c)"
| "unstrippable p q [c, d] = (\<not> ascii_space c \<and> \<not> p c d)"
| "unstrippable p q (c # d # e # s) = (\<not> ascii_space c \<and> \<not> p c d \<and> \<not> q c d e)"

lemma unstrippable_strip: "unstrippable p q (strip_spaces p q s)"
  by (induction p q s rule: strip_spaces.induct) auto

lemma strip_spaces_fix: "unstrippable p q s \<Longrightarrow> strip_spaces p q s = s"
  by (induction p q s rule: strip_spaces.induct) auto

lemma unstrippable_prefix: "unstrippable p q (t @ u) \<Longrightarrow> unstrippable p q t"
proof (cases t)
  case (Cons c t1)
  assume u: "unstrippable p q (t @ u)"
  then show ?thesis
    using Cons by (cases t1; cases "tl t1"; cases u; cases "tl u") auto
qed simp

lemma strip_spaces_fix_prefix:
  "strip_spaces p q (t @ u) = t @ u \<Longrightarrow> strip_spaces p q t = t"
  by (metis strip_spaces_fix unstrippable_prefix unstrippable_strip)

lemma trim_left_idem [simp]: "trim_left (trim_left s) = trim_left s"
  by (simp add: trim_left_def strip_spaces_idem)

lemma trim_right_idem [simp]: "trim_right (trim_right s) = trim_right s"
  by (simp add: trim_right_def strip_spaces_idem)

lemma trim_right_prefix: "\<exists>suf. s = trim_right s @ suf"
proof -
  obtain pre where "rev s = pre @ rev (trim_right s)"
    using strip_spaces_suffix [of "rev s" "\<lambda>c d. space2 d c" "\<lambda>c d e. space3 e d c"]
    by (auto simp: trim_right_def)
  then have "s = trim_right s @ rev pre"
    by (metis rev_append rev_rev_ident)
  then show ?thesis ..
qed

lemma trim_left_trim_space: "trim_left (trim_space s) = trim_space s"
proof -
  obtain suf where "trim_left s = trim_space s @ suf"
    using trim_right_prefix [of "trim_left s"] by (auto simp: trim_space_def)
  then show ?thesis
    using strip_spaces_fix_prefix [of space2 space3 "trim_space s" suf] strip_spaces_idem
    by (metis trim_left_def)
qed

lemma trim_space_idem [simp]: "trim_space (trim_space s) = trim_space s"
  using trim_left_trim_space [of s] by (metis trim_right_idem trim_space_def)

lemma trim_space_Nil [simp]: "trim_space [] = []"
  by (simp add: trim_defs)

text \<open>A string of printable ASCII characters is left alone.\<close>

definition plain_ascii :: "string \<Rightarrow> bool" where
  "plain_ascii s \<longleftrightarrow> (\<forall>c \<in> set s. (of_char c :: nat) < 128 \<and> \<not> ascii_space c)"

lemma unstrippable_plain:
  assumes "plain_ascii s"
  shows "unstrippable space2 space3 s"
    and "unstrippable (\<lambda>c d. space2 d c) (\<lambda>c d e. space3 e d c) s"
  using assms
  by (cases s; cases "tl s"; cases "tl (tl s)"; auto simp: plain_ascii_def space2_def space3_def)+

lemma trim_space_plain: "plain_ascii s \<Longrightarrow> trim_space s = s"
  using unstrippable_plain [of s] unstrippable_plain [of "rev s"]
  by (simp add: trim_space_def trim_left_def trim_right_def strip_spaces_fix plain_ascii_def)

text \<open>Inside an ASCII string white space does not matter, at its ends it does.\<close>

lemma unstrippable_ascii:
  assumes "\<forall>c \<in> set s. (of_char c :: nat) < 128" "s \<noteq> [] \<Longrightarrow> \<not> ascii_space (hd s)"
  shows "unstrippable space2 space3 s"
    and "unstrippable (\<lambda>c d. space2 d c) (\<lambda>c d e. space3 e d c) s"
  using assms
  by (cases s; cases "tl s"; cases "tl (tl s)"; auto simp: space2_def space3_def)+

lemma trim_space_ascii:
  assumes "\<forall>c \<in> set s. (of_char c :: nat) < 128"
    and "s \<noteq> [] \<Longrightarrow> \<not> ascii_space (hd s)" "s \<noteq> [] \<Longrightarrow> \<not> ascii_space (last s)"
  shows "trim_space s = s"
  using assms unstrippable_ascii(1) [of s] unstrippable_ascii(2) [of "rev s"]
  by (simp add: trim_space_def trim_left_def trim_right_def strip_spaces_fix hd_rev)

lemma trimmed_nonblank: "trimmed s \<Longrightarrow> blank s \<longleftrightarrow> s = []"
  by simp

section \<open>Other string functions of the standard library\<close>

definition has_prefix :: "string \<Rightarrow> string \<Rightarrow> bool" where
  "has_prefix s pre \<longleftrightarrow> take (length pre) s = pre"

definition trim_prefix :: "string \<Rightarrow> string \<Rightarrow> string" where
  "trim_prefix s pre = (if has_prefix s pre then drop (length pre) s else s)"

text \<open>\<open>strings.Split(s, sep)\<close> for a one-byte separator: one piece more than separators.\<close>

fun split_on :: "char \<Rightarrow> string \<Rightarrow> string list" where
  "split_on c [] = [[]]"
| "split_on c (x # xs) =
     (if x = c then [] # split_on c xs
      else (case split_on c xs of [] \<Rightarrow> [[x]] | p # ps \<Rightarrow> (x # p) # ps))"

text \<open>\<open>strings.Join(parts, sep)\<close>.\<close>

fun join_with :: "string \<Rightarrow> string list \<Rightarrow> string" where
  "join_with sep [] = []"
| "join_with sep [p] = p"
| "join_with sep (p # q # ps) = p @ sep @ join_with sep (q # ps)"

text \<open>\<open>strings.Trim(s, c)\<close> for a one-byte cutset.\<close>

definition trim_char :: "char \<Rightarrow> string \<Rightarrow> string" where
  "trim_char c s = rev (dropWhile (\<lambda>x. x = c) (rev (dropWhile (\<lambda>x. x = c) s)))"

lemma split_on_nonempty [simp]: "split_on c s \<noteq> []"
  by (induction s) (auto split: list.splits)

lemma split_on_no_sep: "c \<notin> set s \<Longrightarrow> split_on c s = [s]"
  by (induction s) auto

lemma split_on_append_sep:
  "c \<notin> set s \<Longrightarrow> split_on c (s @ c # t) = s # split_on c t"
  by (induction s) auto

lemma join_split_on: "join_with [c] (split_on c s) = s"
proof (induction s)
  case (Cons x xs)
  then show ?case
    by (cases "split_on c xs"; cases "tl (split_on c xs)")
      (auto split: list.splits)
qed simp

section \<open>Go maps whose values are slices\<close>

text \<open>Reading a missing key of a \<open>map[string][]T\<close> gives the nil slice.\<close>

definition slice_at :: "('k \<rightharpoonup> 'a list) \<Rightarrow> 'k \<Rightarrow> 'a list" where
  "slice_at m k = (case m k of None \<Rightarrow> [] | Some xs \<Rightarrow> xs)"

lemma slice_at_empty [simp]: "slice_at Map.empty k = []"
  by (simp add: slice_at_def)

lemma slice_at_upd: "slice_at (m(k \<mapsto> xs)) k' = (if k' = k then xs else slice_at m k')"
  by (simp add: slice_at_def)

lemma slice_at_del: "slice_at (m(k := None)) k' = (if k' = k then [] else slice_at m k')"
  by (simp add: slice_at_def)

lemmas slice_at_simps [simp] = slice_at_upd slice_at_del

text \<open>
  The idiom \<open>if len(xs) == 0 { delete(m, k) } else { m[k] = xs }\<close>: an empty slice never
  stays in the map.
\<close>

definition put_or_delete :: "('k \<rightharpoonup> 'a list) \<Rightarrow> 'k \<Rightarrow> 'a list \<Rightarrow> ('k \<rightharpoonup> 'a list)" where
  "put_or_delete m k xs = (if xs = [] then m(k := None) else m(k \<mapsto> xs))"

definition no_empty_slice :: "('k \<rightharpoonup> 'a list) \<Rightarrow> bool" where
  "no_empty_slice m \<longleftrightarrow> (\<forall>k. m k \<noteq> Some [])"

lemma slice_at_put [simp]:
  "slice_at (put_or_delete m k xs) k' = (if k' = k then xs else slice_at m k')"
  by (simp add: put_or_delete_def)

lemma no_empty_slice_put [intro]: "no_empty_slice m \<Longrightarrow> no_empty_slice (put_or_delete m k xs)"
  by (simp add: no_empty_slice_def put_or_delete_def)

lemma no_empty_slice_del [intro]: "no_empty_slice m \<Longrightarrow> no_empty_slice (m(k := None))"
  by (simp add: no_empty_slice_def)

lemma no_empty_slice_empty [simp]: "no_empty_slice Map.empty"
  by (simp add: no_empty_slice_def)

section \<open>Removing the first match of a list\<close>

fun remove_first :: "('a \<Rightarrow> bool) \<Rightarrow> 'a list \<Rightarrow> 'a list" where
  "remove_first p [] = []"
| "remove_first p (x # xs) = (if p x then xs else x # remove_first p xs)"

lemma remove_first_eq_remove1: "remove_first (\<lambda>y. y = x) xs = remove1 x xs"
  by (induction xs) auto

lemma set_remove_first_subset: "set (remove_first p xs) \<subseteq> set xs"
  by (induction xs) auto

lemma find_append_None: "find p xs = None \<Longrightarrow> find p (xs @ ys) = find p ys"
  by (induction xs) auto

lemma find_SomeD: "find p xs = Some x \<Longrightarrow> x \<in> set xs \<and> p x"
  by (induction xs) (auto split: if_splits)

lemma find_None_iff2: "find p xs = None \<longleftrightarrow> (\<forall>x \<in> set xs. \<not> p x)"
  by (induction xs) auto

section \<open>Go maps as association lists\<close>

lemma set_AList_update: "set (AList.update k v xs) \<subseteq> insert (k, v) (set xs)"
  by (induction xs) (auto split: if_splits)

section \<open>Decimal numbers\<close>

definition decimal_digit :: "nat \<Rightarrow> char" where
  "decimal_digit n = char_of (48 + n)"

fun dec :: "nat \<Rightarrow> string" where
  "dec n = (if n < 10 then [decimal_digit n] else dec (n div 10) @ [decimal_digit (n mod 10)])"

declare dec.simps [simp del]

definition undec :: "string \<Rightarrow> nat" where
  "undec = foldl (\<lambda>n c. 10 * n + (of_char c - 48)) 0"

lemma undec_snoc: "undec (s @ [c]) = 10 * undec s + (of_char c - 48)"
  by (simp add: undec_def)

lemma digit_value: "n < 10 \<Longrightarrow> of_char (decimal_digit n) - 48 = n"
  by (simp add: decimal_digit_def)

lemma undec_dec [simp]: "undec (dec n) = n"
proof (induction n rule: dec.induct)
  case (1 n)
  show ?case
  proof (cases "n < 10")
    case True
    then show ?thesis
      using undec_snoc [of "[]"] by (subst dec.simps) (simp add: digit_value undec_def)
  next
    case False
    then show ?thesis
      using 1 by (subst dec.simps) (simp add: undec_snoc digit_value)
  qed
qed

lemma dec_inj [simp]: "dec m = dec n \<longleftrightarrow> m = n"
  using undec_dec by metis

definition dec_int :: "int \<Rightarrow> string" where
  "dec_int n = (if n < 0 then ''-'' @ dec (nat (- n)) else dec (nat n))"

end
