(* ===== verification/Base64.thy ===== *)
theory Base64
  imports Prelude
begin

text \<open>
  The part of Go's \<open>encoding/base64\<close> the program uses: \<open>StdEncoding\<close> (padded) and
  \<open>RawURLEncoding\<close> (unpadded, URL-safe alphabet), both in the default lenient mode: the
  decoder skips carriage returns and line feeds and ignores the unused low bits of a final
  partial group. Strings are byte lists.
\<close>

section \<open>Alphabets\<close>

definition std_alphabet :: string where
  "std_alphabet = ''ABCDEFGHIJKLMNOPQRSTUVWXYZabcdefghijklmnopqrstuvwxyz0123456789+/''"

definition url_alphabet :: string where
  "url_alphabet = ''ABCDEFGHIJKLMNOPQRSTUVWXYZabcdefghijklmnopqrstuvwxyz0123456789-_''"

fun index_of :: "char \<Rightarrow> string \<Rightarrow> nat option" where
  "index_of c [] = None"
| "index_of c (x # xs) = (if x = c then Some 0 else map_option Suc (index_of c xs))"

abbreviation byte :: "char \<Rightarrow> nat" where
  "byte c \<equiv> of_char c"

abbreviation of_byte :: "nat \<Rightarrow> char" where
  "of_byte n \<equiv> char_of n"

definition b64_alphabet :: "string \<Rightarrow> bool" where
  "b64_alphabet al \<longleftrightarrow> length al = 64 \<and> distinct al \<and> CHR ''='' \<notin> set al
     \<and> CHR 0x0A \<notin> set al \<and> CHR 0x0D \<notin> set al"

lemma b64_alphabet_std [simp]: "b64_alphabet std_alphabet"
  by (simp add: b64_alphabet_def std_alphabet_def)

lemma b64_alphabet_url [simp]: "b64_alphabet url_alphabet"
  by (simp add: b64_alphabet_def url_alphabet_def)

lemma index_of_nth: "distinct al \<Longrightarrow> n < length al \<Longrightarrow> index_of (al ! n) al = Some n"
  by (induction al arbitrary: n) (auto simp: nth_Cons split: nat.splits)

lemma index_of_less: "index_of c al = Some n \<Longrightarrow> n < length al"
  by (induction al arbitrary: n) (auto split: if_splits)

lemma index_of_notin: "c \<notin> set al \<Longrightarrow> index_of c al = None"
  by (induction al) auto

section \<open>Encoding\<close>

fun b64_enc :: "string \<Rightarrow> bool \<Rightarrow> string \<Rightarrow> string" where
  "b64_enc al pad [] = []"
| "b64_enc al pad [a] =
     (let n = byte a * 16
      in [al ! (n div 64), al ! (n mod 64)] @ (if pad then ''=='' else []))"
| "b64_enc al pad [a, b] =
     (let n = (byte a * 256 + byte b) * 4
      in [al ! (n div 4096), al ! (n div 64 mod 64), al ! (n mod 64)] @ (if pad then ''='' else []))"
| "b64_enc al pad (a # b # c # s) =
     (let n = (byte a * 256 + byte b) * 256 + byte c
      in [al ! (n div 262144), al ! (n div 4096 mod 64), al ! (n div 64 mod 64), al ! (n mod 64)]
         @ b64_enc al pad s)"

section \<open>Decoding\<close>

text \<open>One complete group of four characters gives three bytes.\<close>

definition group4 :: "nat \<Rightarrow> nat \<Rightarrow> nat \<Rightarrow> nat \<Rightarrow> string" where
  "group4 v w x y =
     (let n = ((v * 64 + w) * 64 + x) * 64 + y
      in [of_byte (n div 65536), of_byte (n div 256 mod 256), of_byte (n mod 256)])"

definition group3 :: "nat \<Rightarrow> nat \<Rightarrow> nat \<Rightarrow> string" where
  "group3 v w x =
     (let n = (v * 64 + w) * 64 + x in [of_byte (n div 1024), of_byte (n div 4 mod 256)])"

definition group2 :: "nat \<Rightarrow> nat \<Rightarrow> string" where
  "group2 v w = [of_byte ((v * 64 + w) div 16)]"

fun b64_dec :: "string \<Rightarrow> bool \<Rightarrow> string \<Rightarrow> string option" where
  "b64_dec al pad [] = Some []"
| "b64_dec al pad [a] = None"
| "b64_dec al pad [a, b] =
     (case (index_of a al, index_of b al) of
        (Some v, Some w) \<Rightarrow> if pad then None else Some (group2 v w)
      | _ \<Rightarrow> None)"
| "b64_dec al pad [a, b, c] =
     (case (index_of a al, index_of b al, index_of c al) of
        (Some v, Some w, Some x) \<Rightarrow> if pad then None else Some (group3 v w x)
      | _ \<Rightarrow> None)"
| "b64_dec al pad (a # b # c # d # s) =
     (case (index_of a al, index_of b al) of
        (Some v, Some w) \<Rightarrow>
          (case (index_of c al, index_of d al) of
             (Some x, Some y) \<Rightarrow> map_option (\<lambda>r. group4 v w x y @ r) (b64_dec al pad s)
           | (Some x, None) \<Rightarrow>
               if pad \<and> d = CHR ''='' \<and> s = [] then Some (group3 v w x) else None
           | (None, _) \<Rightarrow>
               if pad \<and> c = CHR ''='' \<and> d = CHR ''='' \<and> s = [] then Some (group2 v w) else None)
      | _ \<Rightarrow> None)"

definition not_newline :: "char \<Rightarrow> bool" where
  "not_newline c \<longleftrightarrow> c \<noteq> CHR 0x0A \<and> c \<noteq> CHR 0x0D"

definition std_encode :: "string \<Rightarrow> string" where
  "std_encode s = b64_enc std_alphabet True s"

definition std_decode :: "string \<Rightarrow> string option" where
  "std_decode s = b64_dec std_alphabet True (filter not_newline s)"

definition raw_url_encode :: "string \<Rightarrow> string" where
  "raw_url_encode s = b64_enc url_alphabet False s"

definition raw_url_decode :: "string \<Rightarrow> string option" where
  "raw_url_decode s = b64_dec url_alphabet False (filter not_newline s)"

section \<open>Round trip\<close>

lemma byte_less [simp]: "byte c < 256"
  by (cases c) (simp add: of_char_def)

lemma byte_le: "byte c \<le> 255"
  using byte_less [of c] by linarith

lemma digit64: "n div (k * 64) * 64 + n div k mod 64 = n div (k::nat)"
  by (metis div_mult2_eq div_mult_mod_eq)

lemma group4_bytes:
  assumes "(a::nat) < 256" "b < 256" "c < 256" and n: "n = (a * 256 + b) * 256 + c"
  shows "group4 (n div 262144) (n div 4096 mod 64) (n div 64 mod 64) (n mod 64)
         = [of_byte a, of_byte b, of_byte c]"
proof -
  have all: "((n div 262144 * 64 + n div 4096 mod 64) * 64 + n div 64 mod 64) * 64 + n mod 64 = n"
    using digit64 [of n 4096] digit64 [of n 64] by simp
  have hi: "n div 256 = a * 256 + b"
    using assms by auto
  have lo: "n mod 256 = c"
    unfolding n using assms(3) by (simp only: mod_mult_self3 mod_less)
  have "n div 65536 = (n div 256) div 256"
    by (simp add: div_mult2_eq [symmetric])
  then have "n div 65536 = a"
    using hi assms by simp
  moreover have "n div 256 mod 256 = b"
    using hi assms by simp
  ultimately show ?thesis
    by (simp only: group4_def Let_def all lo)
qed

lemma group3_bytes:
  assumes "(a::nat) < 256" "b < 256" and n: "n = (a * 256 + b) * 4"
  shows "group3 (n div 4096) (n div 64 mod 64) (n mod 64) = [of_byte a, of_byte b]"
proof -
  have all: "(n div 4096 * 64 + n div 64 mod 64) * 64 + n mod 64 = n"
    using digit64 [of n 64] by simp
  have hi: "n div 4 = a * 256 + b"
    using n by simp
  have "n div 1024 = (n div 4) div 256"
    by (simp add: div_mult2_eq [symmetric])
  then have "n div 1024 = a"
    using hi assms by simp
  moreover have "n div 4 mod 256 = b"
    using hi assms by simp
  ultimately show ?thesis
    by (simp only: group3_def Let_def all)
qed

lemma group2_bytes: "group2 (a * 16 div 64) (a * 16 mod 64) = [of_byte a]"
proof -
  have "a * 16 div 64 * 64 + a * 16 mod 64 = a * 16"
    by (rule div_mult_mod_eq)
  then show ?thesis
    by (simp add: group2_def del: mod_mult_self1 mod_mult_self2)
qed

lemma top_digit:
  assumes "(a::nat) < 256" "b < 256"
  shows "(a * 256 + b) * 4 div 4096 < 64"
proof -
  have "(a * 256 + b) * 4 < 64 * 4096"
    using assms by simp
  then show ?thesis
    by (rule less_mult_imp_div_less)
qed

lemma top_digit3:
  assumes "(a::nat) < 256" "b < 256" "c < 256"
  shows "((a * 256 + b) * 256 + c) div 262144 < 64"
proof -
  have "a \<le> 255" "b \<le> 255" "c \<le> 255"
    using assms by simp_all
  then have "(a * 256 + b) * 256 + c < 64 * 262144"
    by (simp add: algebra_simps)
  then show ?thesis
    by (rule less_mult_imp_div_less)
qed

lemma alphabet_index: "b64_alphabet al \<Longrightarrow> n < 64 \<Longrightarrow> index_of (al ! n) al = Some n"
  by (simp add: b64_alphabet_def index_of_nth)

lemma alphabet_pad: "b64_alphabet al \<Longrightarrow> index_of CHR ''='' al = None"
  by (simp add: b64_alphabet_def index_of_notin)

lemma b64_roundtrip: "b64_alphabet al \<Longrightarrow> b64_dec al pad (b64_enc al pad s) = Some s"
proof (induction al pad s rule: b64_enc.induct)
  case (2 al pad a)
  have "byte a * 16 div 64 < 64"
    using byte_less [of a] by linarith
  then show ?case
    using 2 group2_bytes [of "byte a"]
    by (simp add: Let_def alphabet_index alphabet_pad)
next
  case (3 al pad a b)
  let ?n = "(byte a * 256 + byte b) * 4"
  have "?n div 4096 < 64"
    by (rule top_digit) simp_all
  then show ?case
    using 3 group3_bytes [of "byte a" "byte b" ?n]
    by (simp add: Let_def alphabet_index alphabet_pad)
next
  case (4 al pad a b c s)
  let ?n = "(byte a * 256 + byte b) * 256 + byte c"
  have "?n div 262144 < 64"
    by (rule top_digit3) simp_all
  then show ?case
    using 4 group4_bytes [of "byte a" "byte b" "byte c" ?n]
    by (simp add: Let_def alphabet_index alphabet_pad)
qed simp

lemma set_b64_enc:
  "b64_alphabet al \<Longrightarrow> set (b64_enc al pad s) \<subseteq> insert CHR ''='' (set al)"
proof (induction al pad s rule: b64_enc.induct)
  case (2 al pad a)
  have "byte a * 16 div 64 < 64"
    using byte_less [of a] by linarith
  then show ?case
    using 2 by (auto simp: Let_def b64_alphabet_def)
next
  case (3 al pad a b)
  have "(byte a * 256 + byte b) * 4 div 4096 < 64"
    by (rule top_digit) simp_all
  then show ?case
    using 3 by (auto simp: Let_def b64_alphabet_def)
next
  case (4 al pad a b c s)
  have "((byte a * 256 + byte b) * 256 + byte c) div 262144 < 64"
    by (rule top_digit3) simp_all
  then show ?case
    using 4 by (auto simp: Let_def b64_alphabet_def)
qed simp

lemma b64_enc_no_newline:
  assumes "b64_alphabet al"
  shows "filter not_newline (b64_enc al pad s) = b64_enc al pad s"
  using set_b64_enc [OF assms, of pad s] assms
  by (auto simp: filter_id_conv not_newline_def b64_alphabet_def)

lemma std_roundtrip [simp]: "std_decode (std_encode s) = Some s"
  by (simp add: std_decode_def std_encode_def b64_enc_no_newline b64_roundtrip)

lemma raw_url_roundtrip [simp]: "raw_url_decode (raw_url_encode s) = Some s"
  by (simp add: raw_url_decode_def raw_url_encode_def b64_enc_no_newline b64_roundtrip)

text \<open>The URL-safe output holds no dot and no white space, so it can be split at a dot.\<close>

lemma url_alphabet_plain: "CHR ''.'' \<notin> set url_alphabet"
  by (simp add: url_alphabet_def)

lemma raw_url_encode_no_dot: "CHR ''.'' \<notin> set (raw_url_encode s)"
  using set_b64_enc [of url_alphabet False s] url_alphabet_plain
  by (auto simp: raw_url_encode_def)

lemma url_alphabet_ascii: "\<forall>c \<in> set url_alphabet. byte c < 128 \<and> \<not> ascii_space c"
  by (simp add: url_alphabet_def ascii_space_def)

lemma raw_url_encode_ascii:
  "\<forall>c \<in> set (raw_url_encode s). byte c < 128 \<and> \<not> ascii_space c"
proof -
  have "byte CHR ''='' < 128 \<and> \<not> ascii_space CHR ''=''"
    by (simp add: ascii_space_def)
  then show ?thesis
    using set_b64_enc [of url_alphabet False s] url_alphabet_ascii
    by (auto simp: raw_url_encode_def)
qed

lemma std_alphabet_ascii: "\<forall>c \<in> set std_alphabet. byte c < 128 \<and> \<not> ascii_space c"
  by (simp add: std_alphabet_def ascii_space_def)

lemma std_encode_ascii: "plain_ascii (std_encode s)"
proof -
  have "byte CHR ''='' < 128 \<and> \<not> ascii_space CHR ''=''"
    by (simp add: ascii_space_def)
  then show ?thesis
    using set_b64_enc [of std_alphabet True s] std_alphabet_ascii
    by (auto simp: std_encode_def plain_ascii_def)
qed

lemma std_encode_trimmed [simp]: "trim_space (std_encode s) = std_encode s"
  by (rule trim_space_plain) (rule std_encode_ascii)

lemma b64_enc_Nil_iff: "b64_enc al pad s = [] \<longleftrightarrow> s = []"
  by (cases "(al, pad, s)" rule: b64_enc.cases) (auto simp: Let_def)

lemma raw_url_encode_Nil_iff [simp]: "raw_url_encode s = [] \<longleftrightarrow> s = []"
  by (simp add: raw_url_encode_def b64_enc_Nil_iff)

lemma std_encode_Nil_iff [simp]: "std_encode s = [] \<longleftrightarrow> s = []"
  by (simp add: std_encode_def b64_enc_Nil_iff)

end
