(* ===== verification/RelayAuth.thy ===== *)
theory RelayAuth
  imports Base64 "HOL-Library.AList"
begin

text \<open>
  \<open>internal/relayauth/credential.go\<close>: signing, verifying and configuring the bearer
  credentials of the relay. Times are Go \<open>time.Time\<close> values as nanoseconds since the
  epoch, durations are nanoseconds, both \<open>int64\<close>; the arithmetic that can leave the
  64-bit range is wrapped explicitly. HMAC-SHA256 (\<open>mac key message\<close>) and the JSON codec of
  the payload (\<open>marshal\<close>, \<open>unmarshal\<close>) are arguments of the definitions.
\<close>

section \<open>64-bit arithmetic and durations\<close>

definition wrap64 :: "int \<Rightarrow> int" where
  "wrap64 n = (n + 2 ^ 63) mod 2 ^ 64 - 2 ^ 63"

lemma wrap64_id: "- (2 ^ 63) \<le> n \<Longrightarrow> n < 2 ^ 63 \<Longrightarrow> wrap64 n = n"
  by (simp add: wrap64_def)

lemma wrap64_range: "- (2 ^ 63) \<le> wrap64 n \<and> wrap64 n < 2 ^ 63"
  by (simp add: wrap64_def)

definition second :: int where
  "second = 1000000000"

definition minute :: int where
  "minute = 60 * second"

text \<open>\<open>t.Unix()\<close> rounds down, \<open>int64(d.Seconds())\<close> truncates towards zero.\<close>

definition unix :: "int \<Rightarrow> int" where
  "unix t = t div second"

definition trunc_seconds :: "int \<Rightarrow> int" where
  "trunc_seconds d = (if 0 \<le> d then d div second else - ((- d) div second))"

section \<open>Payload and options\<close>

record credential_payload =
  cp_version :: string
  cp_algorithm :: string
  cp_key_id :: string
  cp_relay_id :: string
  cp_account_id_hash :: string
  cp_issued_at :: int
  cp_expires_at :: int

record verify_options =
  vo_relay_id :: string
  vo_secrets :: "(string \<times> string) list"
  vo_now :: int
  vo_max_ttl :: int
  vo_max_skew :: int

definition credential_version :: string where
  "credential_version = ''astralops-relay-credential-v1''"

definition credential_algorithm :: string where
  "credential_algorithm = ''HS256''"

definition trim_payload :: "credential_payload \<Rightarrow> credential_payload" where
  "trim_payload p = p\<lparr>cp_version := trim_space (cp_version p),
     cp_algorithm := trim_space (cp_algorithm p),
     cp_key_id := trim_space (cp_key_id p),
     cp_relay_id := trim_space (cp_relay_id p),
     cp_account_id_hash := trim_space (cp_account_id_hash p)\<rparr>"

section \<open>SignCredential\<close>

definition default_payload :: "credential_payload \<Rightarrow> credential_payload" where
  "default_payload p =
     (let p1 = trim_payload p;
          p2 = (if cp_version p1 = [] then p1\<lparr>cp_version := credential_version\<rparr> else p1)
      in if cp_algorithm p2 = [] then p2\<lparr>cp_algorithm := credential_algorithm\<rparr> else p2)"

definition sign_credential ::
  "(string \<Rightarrow> string \<Rightarrow> string) \<Rightarrow> (credential_payload \<Rightarrow> string + string) \<Rightarrow>
   credential_payload \<Rightarrow> string \<Rightarrow> string + string" where
  "sign_credential mac marshal payload secret =
     (let p = default_payload payload in
      if cp_version p \<noteq> credential_version then Inl ''relay credential version invalid''
      else if cp_algorithm p \<noteq> credential_algorithm then Inl ''relay credential algorithm invalid''
      else if cp_key_id p = [] then Inl ''relay credential key id required''
      else if cp_relay_id p = [] then Inl ''relay credential relay id required''
      else if cp_account_id_hash p = [] then Inl ''relay credential account id hash required''
      else if cp_issued_at p \<le> 0 \<or> cp_expires_at p \<le> cp_issued_at p
        then Inl ''relay credential lifetime invalid''
      else if length secret < 32 then Inl ''relay credential secret must be at least 32 bytes''
      else (case marshal p of
          Inl err \<Rightarrow> Inl err
        | Inr raw \<Rightarrow>
            (let part = raw_url_encode raw
             in Inr (part @ ''.'' @ raw_url_encode (mac secret part)))))"

section \<open>VerifyCredential\<close>

text \<open>The checks on the time window, in the order of the code, with \<open>int64\<close> wrap-around.\<close>

definition effective_skew :: "verify_options \<Rightarrow> int" where
  "effective_skew opts = (if vo_max_skew opts = 0 then 30 * second else vo_max_skew opts)"

definition check_lifetime :: "verify_options \<Rightarrow> credential_payload \<Rightarrow> string option" where
  "check_lifetime opts p =
     (let skew = effective_skew opts;
          now_unix = unix (vo_now opts)
      in if cp_issued_at p \<le> 0 \<or> cp_expires_at p \<le> cp_issued_at p
           then Some ''relay credential lifetime invalid''
         else if cp_issued_at p > unix (vo_now opts + skew)
           then Some ''relay credential issued in future''
         else if cp_expires_at p \<le> wrap64 (now_unix - trunc_seconds skew)
           then Some ''relay credential expired''
         else if vo_max_ttl opts > 0 \<and>
             wrap64 (wrap64 (cp_expires_at p - cp_issued_at p) * second) > vo_max_ttl opts
           then Some ''relay credential ttl too long''
         else None)"

definition check_signature ::
  "(string \<Rightarrow> string \<Rightarrow> string) \<Rightarrow> string \<Rightarrow> string \<Rightarrow> string \<Rightarrow> string option" where
  "check_signature mac secret part sig =
     (case raw_url_decode sig of
        None \<Rightarrow> Some ''relay credential signature invalid''
      | Some s \<Rightarrow>
          if s \<noteq> mac secret part then Some ''relay credential signature invalid'' else None)"

definition verify_credential ::
  "(string \<Rightarrow> string \<Rightarrow> string) \<Rightarrow> (string \<Rightarrow> credential_payload option) \<Rightarrow>
   string \<Rightarrow> verify_options \<Rightarrow> string + credential_payload" where
  "verify_credential mac unmarshal token0 opts =
     (case split_on (CHR ''.'') (trim_space token0) of
        [part, sig] \<Rightarrow>
          if part = [] \<or> sig = [] then Inl ''relay credential malformed''
          else (case raw_url_decode part of
              None \<Rightarrow> Inl ''relay credential payload invalid''
            | Some raw \<Rightarrow>
                (case unmarshal raw of
                   None \<Rightarrow> Inl ''relay credential payload invalid''
                 | Some p0 \<Rightarrow>
                     (let p = trim_payload p0; relay_id = trim_space (vo_relay_id opts) in
                      if cp_version p \<noteq> credential_version
                        then Inl ''relay credential version invalid''
                      else if cp_algorithm p \<noteq> credential_algorithm
                        then Inl ''relay credential algorithm invalid''
                      else if cp_relay_id p = [] \<or> cp_account_id_hash p = [] \<or> cp_key_id p = []
                        then Inl ''relay credential payload incomplete''
                      else if relay_id = [] \<or> cp_relay_id p \<noteq> relay_id
                        then Inl ''relay credential relay mismatch''
                      else (case map_of (vo_secrets opts) (cp_key_id p) of
                          None \<Rightarrow> Inl ''relay credential key unknown''
                        | Some secret \<Rightarrow>
                            if length secret < 32 then Inl ''relay credential key unknown''
                            else (case check_signature mac secret part sig of
                                Some err \<Rightarrow> Inl err
                              | None \<Rightarrow>
                                  (case check_lifetime opts p of
                                     Some err \<Rightarrow> Inl err
                                   | None \<Rightarrow> Inr p))))))
      | _ \<Rightarrow> Inl ''relay credential malformed'')"

section \<open>ParseSecrets\<close>

definition secret_separator :: "char \<Rightarrow> bool" where
  "secret_separator c \<longleftrightarrow> c = CHR '','' \<or> c = CHR 0x0A \<or> c = CHR 0x09 \<or> c = CHR '' ''"

text \<open>
  A Go map that is ranged over (\<open>map[string][]byte\<close> here) is an association list with
  distinct keys, read with \<^const>\<open>map_of\<close> and written with \<^const>\<open>AList.update\<close>.
\<close>

text \<open>\<open>strings.FieldsFunc\<close>: the maximal runs of bytes that are no separators.\<close>

fun fields_acc :: "(char \<Rightarrow> bool) \<Rightarrow> string \<Rightarrow> string \<Rightarrow> string list" where
  "fields_acc p acc [] = (if acc = [] then [] else [rev acc])"
| "fields_acc p acc (c # cs) =
     (if p c then (if acc = [] then fields_acc p [] cs else rev acc # fields_acc p [] cs)
      else fields_acc p (c # acc) cs)"

definition fields_func :: "(char \<Rightarrow> bool) \<Rightarrow> string \<Rightarrow> string list" where
  "fields_func p s = fields_acc p [] s"

text \<open>\<open>strings.Cut(s, c)\<close>: the parts around the first separator, if there is one.\<close>

fun cut_at :: "char \<Rightarrow> string \<Rightarrow> string \<times> string \<times> bool" where
  "cut_at c [] = ([], [], False)"
| "cut_at c (x # xs) =
     (if x = c then ([], xs, True) else (case cut_at c xs of (a, b, ok) \<Rightarrow> (x # a, b, ok)))"

text \<open>\<open>quote\<close> is the \<open>%q\<close> verb (\<open>strconv.Quote\<close>), used in one error message only.\<close>

fun parse_secret_fields ::
  "(string \<Rightarrow> string) \<Rightarrow> (string \<times> string) list \<Rightarrow> string list \<Rightarrow>
   string + (string \<times> string) list" where
  "parse_secret_fields quote secrets [] = Inr secrets"
| "parse_secret_fields quote secrets (f # fs) =
     (let field = trim_space f in
      if field = [] then parse_secret_fields quote secrets fs
      else (case cut_at (CHR '':'') field of
          (k, v, ok) \<Rightarrow>
            (let kid = trim_space k; secret = trim_space v in
             if \<not> ok \<or> kid = [] \<or> secret = []
               then Inl ''relay credential secret must use kid:secret''
             else if length secret < 32 then Inl (''relay credential secret '' @ quote kid @ '' must be at least 32 bytes'')
             else parse_secret_fields quote (AList.update kid secret secrets) fs)))"

definition parse_secrets :: "(string \<Rightarrow> string) \<Rightarrow> string \<Rightarrow> string + (string \<times> string) list" where
  "parse_secrets quote value =
     (case parse_secret_fields quote [] (fields_func secret_separator value) of
        Inl err \<Rightarrow> Inl err
      | Inr secrets \<Rightarrow>
          if secrets = [] then Inl ''relay credential secrets required'' else Inr secrets)"

section \<open>Properties\<close>

lemma trim_payload_idem [simp]: "trim_payload (trim_payload p) = trim_payload p"
  by (simp add: trim_payload_def)

lemma trim_payload_fields [simp]:
  "cp_issued_at (trim_payload p) = cp_issued_at p"
  "cp_expires_at (trim_payload p) = cp_expires_at p"
  "cp_relay_id (trim_payload p) = trim_space (cp_relay_id p)"
  "cp_account_id_hash (trim_payload p) = trim_space (cp_account_id_hash p)"
  "cp_key_id (trim_payload p) = trim_space (cp_key_id p)"
  by (simp_all add: trim_payload_def)

lemma credential_constants_trimmed [simp]:
  "trim_space credential_version = credential_version"
  "trim_space credential_algorithm = credential_algorithm"
  by (simp_all add: credential_version_def credential_algorithm_def trim_space_plain
      plain_ascii_def ascii_space_def)

lemma trim_default_payload [simp]: "trim_payload (default_payload p) = default_payload p"
  by (simp add: default_payload_def trim_payload_def Let_def)

text \<open>What a successful signature has checked.\<close>

lemma sign_credentialD:
  assumes "sign_credential mac marshal payload secret = Inr token"
  obtains raw where
    "marshal (default_payload payload) = Inr raw"
    "token = raw_url_encode raw @ ''.'' @ raw_url_encode (mac secret (raw_url_encode raw))"
    "cp_version (default_payload payload) = credential_version"
    "cp_algorithm (default_payload payload) = credential_algorithm"
    "cp_key_id (default_payload payload) \<noteq> []" "cp_relay_id (default_payload payload) \<noteq> []"
    "cp_account_id_hash (default_payload payload) \<noteq> []" "32 \<le> length secret"
  using assms by (auto simp: sign_credential_def Let_def split: if_splits sum.splits)

lemma token_trimmed: "trim_space (raw_url_encode a @ ''.'' @ raw_url_encode b)
  = raw_url_encode a @ ''.'' @ raw_url_encode b"
  using raw_url_encode_ascii [of a] raw_url_encode_ascii [of b]
  by (intro trim_space_plain) (auto simp: plain_ascii_def ascii_space_def)

lemma token_split: "split_on (CHR ''.'') (raw_url_encode a @ ''.'' @ raw_url_encode b)
  = [raw_url_encode a, raw_url_encode b]"
  by (simp add: split_on_append_sep raw_url_encode_no_dot split_on_no_sep)

text \<open>
  C5: Round trip of relay credentials. A token made by \<open>SignCredential\<close> is accepted by
  \<open>VerifyCredential\<close> under the same secret, for the relay it names and inside its time
  window, and gives back the payload that was signed (trimmed, with its defaults). The
  codec laws used are that unmarshalling the marshalled payload returns it and that neither
  the JSON text nor the MAC is empty.
\<close>

theorem sign_verify_roundtrip:
  assumes signed: "sign_credential mac marshal payload secret = Inr token"
    and codec: "\<And>raw. marshal (default_payload payload) = Inr raw \<Longrightarrow>
                  raw \<noteq> [] \<and> unmarshal raw = Some (default_payload payload)"
    and mac: "\<And>m. mac secret m \<noteq> []"
    and key: "map_of (vo_secrets opts) (cp_key_id (default_payload payload)) = Some secret"
    and relay: "trim_space (vo_relay_id opts) = cp_relay_id (default_payload payload)"
    and window: "check_lifetime opts (default_payload payload) = None"
  shows "verify_credential mac unmarshal token opts = Inr (default_payload payload)"
  using signed
proof (rule sign_credentialD)
  fix raw
  assume raw: "marshal (default_payload payload) = Inr raw"
    and token: "token = raw_url_encode raw @ ''.'' @ raw_url_encode (mac secret (raw_url_encode raw))"
    and fields: "cp_version (default_payload payload) = credential_version"
    "cp_algorithm (default_payload payload) = credential_algorithm"
    "cp_key_id (default_payload payload) \<noteq> []" "cp_relay_id (default_payload payload) \<noteq> []"
    "cp_account_id_hash (default_payload payload) \<noteq> []" "32 \<le> length secret"
  have "check_signature mac secret (raw_url_encode raw)
      (raw_url_encode (mac secret (raw_url_encode raw))) = None"
    by (simp add: check_signature_def)
  with codec [OF raw] fields window key relay mac show ?thesis
    unfolding verify_credential_def token token_trimmed token_split
    by (simp add: Let_def)
qed

text \<open>
  C4: What an accepted credential guarantees. \<open>VerifyCredential\<close> returns a payload only for
  a two-part token whose second part decodes to the MAC of the first under the configured
  secret of the payload's key id, that secret has at least 32 bytes, the payload is the
  trimmed decoding of the first part, it has the expected version and algorithm, names this
  relay and a non-empty account, and lies in the accepted time window.
\<close>

theorem verify_credential_sound:
  assumes "verify_credential mac unmarshal token opts = Inr p"
  shows "\<exists>part sig raw p0 secret.
      split_on (CHR ''.'') (trim_space token) = [part, sig] \<and>
      raw_url_decode part = Some raw \<and> unmarshal raw = Some p0 \<and> p = trim_payload p0 \<and>
      map_of (vo_secrets opts) (cp_key_id p) = Some secret \<and> 32 \<le> length secret \<and>
      raw_url_decode sig = Some (mac secret part) \<and>
      cp_version p = credential_version \<and> cp_algorithm p = credential_algorithm \<and>
      cp_relay_id p = trim_space (vo_relay_id opts) \<and> cp_relay_id p \<noteq> [] \<and>
      cp_account_id_hash p \<noteq> [] \<and> check_lifetime opts p = None"
  using assms
  by (auto simp: verify_credential_def check_signature_def Let_def
      split: list.splits if_splits option.splits)

lemma check_lifetime_window:
  "check_lifetime opts p = None \<Longrightarrow>
     0 < cp_issued_at p \<and> cp_issued_at p < cp_expires_at p \<and>
     cp_issued_at p \<le> unix (vo_now opts + effective_skew opts) \<and>
     wrap64 (unix (vo_now opts) - trunc_seconds (effective_skew opts)) < cp_expires_at p"
  by (auto simp: check_lifetime_def Let_def split: if_splits)

text \<open>
  The lifetime cap is enforced for every lifetime that fits a \<open>time.Duration\<close> (at most
  9223372036 seconds, about 292 years): an accepted credential lives no longer than the
  configured maximum.
\<close>

theorem max_ttl_enforced:
  assumes "verify_credential mac unmarshal token opts = Inr p"
    and "0 < vo_max_ttl opts" and "cp_expires_at p - cp_issued_at p \<le> 9223372036"
  shows "(cp_expires_at p - cp_issued_at p) * second \<le> vo_max_ttl opts"
proof -
  have none: "check_lifetime opts p = None"
    using verify_credential_sound [OF assms(1)] by blast
  let ?d = "cp_expires_at p - cp_issued_at p"
  have "0 < ?d"
    using check_lifetime_window [OF none] by simp
  then have "wrap64 ?d = ?d" "wrap64 (?d * second) = ?d * second"
    using assms(3) by (simp_all add: wrap64_id second_def)
  then show ?thesis
    using none assms(2) by (auto simp: check_lifetime_def Let_def split: if_splits)
qed

text \<open>
  Beyond that bound the cap can be bypassed: the multiplication by \<open>time.Second\<close> wraps
  around, so a payload that lives 18446744074 seconds (over 584 years) passes the lifetime
  check of every relay whose maximum is at least a third of a second, at any time of
  verification inside the window.
\<close>

theorem max_ttl_overflow:
  assumes "cp_issued_at p = unix (vo_now opts)"
    and "cp_expires_at p = cp_issued_at p + 18446744074"
    and "second \<le> vo_now opts" and "vo_now opts < 2 ^ 62"
    and "290448384 \<le> vo_max_ttl opts" and "vo_max_skew opts = 0"
  shows "check_lifetime opts p = None"
proof -
  have b: "0 < unix (vo_now opts)" "unix (vo_now opts) < 2 ^ 62"
    using assms(3,4) by (simp_all add: unix_def second_def pos_imp_zdiv_pos_iff)
  have skew: "effective_skew opts = 30 * second"
    using assms(6) by (simp add: effective_skew_def)
  have issued: "unix (vo_now opts) \<le> unix (vo_now opts + 30 * second)"
    by (simp add: unix_def second_def zdiv_mono1)
  have secs: "trunc_seconds (30 * second) = 30"
    by (simp add: trunc_seconds_def second_def)
  have "wrap64 (unix (vo_now opts) - 30) = unix (vo_now opts) - 30"
    using b by (intro wrap64_id) auto
  moreover have "wrap64 (wrap64 18446744074 * second) = 290448384"
    by (simp add: wrap64_def second_def)
  ultimately show ?thesis
    using assms b issued by (simp add: check_lifetime_def Let_def skew secs)
qed

subsection \<open>Configured secrets\<close>

definition good_secret :: "string \<times> string \<Rightarrow> bool" where
  "good_secret e \<longleftrightarrow> fst e \<noteq> [] \<and> trimmed (fst e) \<and> trimmed (snd e) \<and> 32 \<le> length (snd e)"

lemma parse_secret_fields_good:
  "parse_secret_fields quote acc fs = Inr out \<Longrightarrow> \<forall>e \<in> set acc. good_secret e \<Longrightarrow> distinct (map fst acc)
     \<Longrightarrow> (\<forall>e \<in> set out. good_secret e) \<and> distinct (map fst out)"
proof (induction fs arbitrary: acc)
  case (Cons f fs)
  obtain k v ok where cut: "cut_at (CHR '':'') (trim_space f) = (k, v, ok)"
    by (cases "cut_at (CHR '':'') (trim_space f)")
  show ?case
  proof (cases "trim_space f = []")
    case True
    then show ?thesis using Cons by simp
  next
    case False
    with Cons.prems(1) cut have new: "good_secret (trim_space k, trim_space v)"
      and rec: "parse_secret_fields quote (AList.update (trim_space k) (trim_space v) acc) fs = Inr out"
      by (auto simp: Let_def good_secret_def split: if_splits)
    have "\<forall>e \<in> set (AList.update (trim_space k) (trim_space v) acc). good_secret e"
      using set_AList_update [of "trim_space k" "trim_space v" acc] new Cons.prems(2) by blast
    then show ?thesis
      using Cons.IH [OF rec] Cons.prems(3) by (simp add: distinct_update)
  qed
qed simp

text \<open>
  \<open>ParseSecrets\<close> accepts a configuration only if it yields at least one secret, under
  distinct, non-empty key ids without surrounding white space, and every secret has at least
  32 bytes.
\<close>

theorem parse_secrets_sound:
  assumes "parse_secrets quote value = Inr secrets"
  shows "secrets \<noteq> [] \<and> distinct (map fst secrets) \<and> (\<forall>e \<in> set secrets. good_secret e)"
  using assms parse_secret_fields_good [of quote "[]" "fields_func secret_separator value" secrets]
  by (auto simp: parse_secrets_def split: sum.splits if_splits)

section \<open>A concrete configuration\<close>

definition sample_secret :: string where
  "sample_secret = ''0123456789abcdef0123456789abcdef''"

definition sample_payload :: credential_payload where
  "sample_payload = \<lparr>cp_version = [], cp_algorithm = '' '', cp_key_id = '' k1'', cp_relay_id = ''relay'',
     cp_account_id_hash = ''acct'', cp_issued_at = 1000, cp_expires_at = 1600\<rparr>"

definition sample_options :: verify_options where
  "sample_options = \<lparr>vo_relay_id = ''relay'', vo_secrets = [(''k1'', sample_secret)],
     vo_now = 1200 * second, vo_max_ttl = 600 * second, vo_max_skew = 0\<rparr>"

definition sample_mac :: "string \<Rightarrow> string \<Rightarrow> string" where
  "sample_mac key m = key @ m"

definition sample_token :: string where
  "sample_token = raw_url_encode ''{}'' @ ''.'' @
     raw_url_encode (sample_mac sample_secret (raw_url_encode ''{}''))"

lemma sample_default: "default_payload sample_payload =
  \<lparr>cp_version = credential_version, cp_algorithm = credential_algorithm, cp_key_id = ''k1'',
   cp_relay_id = ''relay'', cp_account_id_hash = ''acct'', cp_issued_at = 1000, cp_expires_at = 1600\<rparr>"
  by code_simp

lemma sample_fields:
  "cp_version (default_payload sample_payload) = credential_version"
  "cp_algorithm (default_payload sample_payload) = credential_algorithm"
  "cp_relay_id (default_payload sample_payload) \<noteq> []"
  "cp_account_id_hash (default_payload sample_payload) \<noteq> []"
  "cp_key_id (default_payload sample_payload) \<noteq> []"
  by (simp_all add: sample_default)

lemma sample_window:
  "check_lifetime sample_options (default_payload sample_payload) = None"
  "check_lifetime (sample_options\<lparr>vo_max_ttl := 0\<rparr>) (default_payload sample_payload) = None"
  by code_simp+

lemma sample_keys:
  "map_of (vo_secrets sample_options) (cp_key_id (default_payload sample_payload)) = Some sample_secret"
  "trim_space (vo_relay_id sample_options) = cp_relay_id (default_payload sample_payload)"
  by code_simp+

lemma sample_secret_long: "length sample_secret = 32"
  by (simp add: sample_secret_def)

lemma sample_mac_nonempty: "sample_mac sample_secret m \<noteq> []"
  by (simp add: sample_mac_def sample_secret_def)

lemma sample_signed:
  "sign_credential sample_mac (\<lambda>_. Inr ''{}'') sample_payload sample_secret = Inr sample_token"
  by (simp add: sign_credential_def sample_default Let_def sample_token_def sample_secret_long)

lemma sample_verified:
  "verify_credential sample_mac (\<lambda>_. Some (default_payload sample_payload)) sample_token sample_options
     = Inr (default_payload sample_payload)"
  unfolding verify_credential_def sample_token_def token_trimmed token_split
  using sample_window sample_keys sample_fields
  by (simp add: Let_def check_signature_def sample_secret_long sample_mac_nonempty)

lemma sample_verified_uncapped:
  "verify_credential sample_mac (\<lambda>_. Some (default_payload sample_payload)) sample_token
     \<lparr>vo_relay_id = ''relay'', vo_secrets = [(''k1'', sample_secret)], vo_now = 1200 * second,
       vo_max_ttl = 0, vo_max_skew = 0\<rparr> = Inr (default_payload sample_payload)"
  unfolding verify_credential_def sample_token_def token_trimmed token_split
  using sample_window(2) sample_keys sample_fields
  by (simp add: Let_def check_signature_def sample_secret_long sample_mac_nonempty sample_options_def)

lemma sign_verify_roundtrip_witness:
  "verify_credential sample_mac (\<lambda>_. Some (default_payload sample_payload)) sample_token sample_options
     = Inr (default_payload sample_payload)"
  by (rule sign_verify_roundtrip [OF sample_signed])
    (simp_all add: sample_keys sample_window sample_mac_nonempty)

lemma verify_credential_sound_witness:
  "check_lifetime sample_options (default_payload sample_payload) = None \<and>
   cp_account_id_hash (default_payload sample_payload) \<noteq> [] \<and>
   (\<exists>part sig. split_on (CHR ''.'') (trim_space sample_token) = [part, sig] \<and>
      raw_url_decode sig = Some (sample_mac sample_secret part))"
  using verify_credential_sound [OF sample_verified] sample_keys by auto

lemma max_ttl_enforced_witness: "(1600 - 1000) * second \<le> 600 * second"
  using max_ttl_enforced [OF sample_verified]
  by (simp add: sample_options_def sample_default second_def)

lemma max_ttl_overflow_witness:
  "check_lifetime (sample_options\<lparr>vo_now := 1000 * second\<rparr>)
     (sample_payload\<lparr>cp_expires_at := 1000 + 18446744074\<rparr>) = None"
  by (rule max_ttl_overflow)
    (simp_all add: sample_options_def sample_payload_def second_def unix_def)

lemma sample_parsed:
  "parse_secrets id (''k1:'' @ sample_secret @ '','') = Inr [(''k1'', sample_secret)]"
  by (simp add: parse_secrets_def fields_func_def secret_separator_def sample_secret_def Let_def trim_defs)

lemma parse_secrets_sound_witness: "good_secret (''k1'', sample_secret)"
  using parse_secrets_sound [OF sample_parsed] by simp

end
