(* ===== verification/Mailbox.thy ===== *)
theory Mailbox
  imports Prelude "HOL-Library.Sublist"
begin

text \<open>
  The contract of a store-and-forward mailbox, as a client of the relay relies on it: what
  is held for a receiver after a message was put or acknowledged. The lemmas of the locale
  follow from the contract alone, for any interleaving of puts and acknowledgements by all
  accounts and devices.
\<close>

datatype ('a, 'm, 'i, 'd) mailbox_op = Put 'a 'm | Ack 'a 'i 'd

locale mailbox =
  fixes put :: "'a \<Rightarrow> 'm \<Rightarrow> 's \<Rightarrow> 's"
    and ack :: "'a \<Rightarrow> 'i \<Rightarrow> 'd \<Rightarrow> 's \<Rightarrow> 's"
    and held :: "'s \<Rightarrow> 'a \<Rightarrow> 'd \<Rightarrow> 'e list"
    and accepts :: "'m \<Rightarrow> bool"
    and stored :: "'m \<Rightarrow> 'e"
    and dest :: "'e \<Rightarrow> 'd"
    and ident :: "'e \<Rightarrow> 'i"
    and norm_dev :: "'d \<Rightarrow> 'd"
    and norm_id :: "'i \<Rightarrow> 'i"
  assumes held_dest: "e \<in> set (held s a d) \<Longrightarrow> dest e = d"
    and held_put: "held (put a m s) b d
        = held s b d @ (if accepts m \<and> b = a \<and> dest (stored m) = d then [stored m] else [])"
    and held_ack_other: "b \<noteq> a \<or> d' \<noteq> norm_dev d \<Longrightarrow> held (ack a i d s) b d' = held s b d'"
    and held_ack_keeps:
      "e \<in> set (held s a d') \<Longrightarrow> ident e \<noteq> norm_id i \<Longrightarrow> e \<in> set (held (ack a i d s) a d')"
    and held_ack_subseq: "subseq (held (ack a i d s) a d') (held s a d')"
begin

fun step :: "('a, 'm, 'i, 'd) mailbox_op \<Rightarrow> 's \<Rightarrow> 's" where
  "step (Put a m) s = put a m s"
| "step (Ack a i d) s = ack a i d s"

definition run :: "('a, 'm, 'i, 'd) mailbox_op list \<Rightarrow> 's \<Rightarrow> 's" where
  "run ops s = fold step ops s"

fun arrival :: "'a \<Rightarrow> 'd \<Rightarrow> ('a, 'm, 'i, 'd) mailbox_op \<Rightarrow> 'e list" where
  "arrival a d (Put b m) = (if accepts m \<and> a = b \<and> dest (stored m) = d then [stored m] else [])"
| "arrival a d (Ack b i d') = []"

definition arrivals :: "'a \<Rightarrow> 'd \<Rightarrow> ('a, 'm, 'i, 'd) mailbox_op list \<Rightarrow> 'e list" where
  "arrivals a d ops = concat (map (arrival a d) ops)"

lemma run_simps [simp]: "run [] s = s" "run (p # ops) s = run ops (step p s)"
  by (simp_all add: run_def)

lemma arrivals_simps [simp]:
  "arrivals a d [] = []" "arrivals a d (p # ops) = arrival a d p @ arrivals a d ops"
  by (simp_all add: arrivals_def)

lemma step_keeps:
  assumes "e \<in> set (held s a d)"
    and "\<And>i d'. p = Ack a i d' \<Longrightarrow> norm_id i \<noteq> ident e \<or> norm_dev d' \<noteq> d"
  shows "e \<in> set (held (step p s) a d)"
proof (cases p)
  case (Put b m)
  then show ?thesis
    using assms(1) by (simp add: held_put)
next
  case (Ack b i d')
  show ?thesis
  proof (cases "b = a \<and> norm_dev d' = d")
    case True
    then show ?thesis
      using Ack assms held_ack_keeps [of e s a d i d'] by auto
  next
    case False
    then show ?thesis
      using Ack assms(1) held_ack_other [of a b d d' i s] by auto
  qed
qed

text \<open>A held message stays held until its receiver acknowledges its id.\<close>

lemma retained:
  assumes "e \<in> set (held s a d)"
    and "\<And>i d'. Ack a i d' \<in> set ops \<Longrightarrow> norm_id i \<noteq> ident e \<or> norm_dev d' \<noteq> d"
  shows "e \<in> set (held (run ops s) a d)"
  using assms
proof (induction ops arbitrary: s)
  case (Cons p ops)
  have "e \<in> set (held (step p s) a d)"
    using Cons.prems by (intro step_keeps) auto
  then have "e \<in> set (held (run ops (step p s)) a d)"
    using Cons.prems(2) by (intro Cons.IH) auto
  then show ?case by simp
qed simp

text \<open>Nothing is invented, duplicated or reordered.\<close>

lemma step_subseq: "subseq (held (step p s) a d) (held s a d @ arrival a d p)"
proof (cases p)
  case (Put b m)
  then show ?thesis by (simp add: held_put)
next
  case (Ack b i d')
  then show ?thesis
    using held_ack_subseq [of b i d' s d] held_ack_other [of a b d d' i s]
    by (cases "a = b") simp_all
qed

lemma run_subseq: "subseq (held (run ops s) a d) (held s a d @ arrivals a d ops)"
proof (induction ops arbitrary: s)
  case (Cons p ops)
  have "subseq (held (run ops (step p s)) a d) (held (step p s) a d @ arrivals a d ops)"
    by (rule Cons.IH)
  also have "subseq \<dots> ((held s a d @ arrival a d p) @ arrivals a d ops)"
    by (intro list_emb_append_mono step_subseq) simp
  finally show ?case by simp
qed simp

text \<open>Puts alone lose nothing.\<close>

lemma run_puts:
  "\<forall>p \<in> set ops. \<exists>b m. p = Put b m \<Longrightarrow> held (run ops s) a d = held s a d @ arrivals a d ops"
proof (induction ops arbitrary: s)
  case (Cons p ops)
  then obtain b m where "p = Put b m" by auto
  then show ?case
    using Cons by (simp add: held_put)
qed simp

end

end
