(* ===== verification/RelayBroker.thy ===== *)
theory RelayBroker
  imports RelayAuth Mailbox
begin

text \<open>
  \<open>internal/relaybroker/server.go\<close>: the relay's mailbox server. A \<open>Server\<close> is a record;
  every method that holds \<open>mu\<close> is one function on it. Channels and websocket clients are
  pointers, so they are numbers drawn from a counter and looked up in the state: a waiter
  channel is open or closed, a client has a send buffer and a \<open>done\<close> channel. A \<open>listOrWait\<close>
  that blocks is split at its \<open>select\<close>: \<open>list_or_wait\<close> is the part before, the three cases
  of the \<open>select\<close> are steps of their own. Random ids (\<open>rid\<close>) and the formatted clock
  (\<open>now\<close>) are arguments, and so is the choice \<open>pick\<close> Go makes when two cases of a \<open>select\<close>
  are ready.
\<close>

section \<open>Data\<close>

record envelope =
  env_version :: string
  env_id :: string
  env_connection :: string
  env_from :: string
  env_to :: string
  env_kind :: string
  env_payload :: string
  env_created :: string

record ws_frame =
  wf_type :: string
  wf_envelope :: "envelope option"
  wf_code :: string
  wf_error :: string

record ws_client =
  wc_account :: string
  wc_device :: string
  wc_buffer :: "ws_frame list"
  wc_done :: bool

record server =
  sv_relay_id :: string
  sv_secrets :: "(string \<times> string) list"
  sv_max_ttl :: int
  sv_queues :: "string \<rightharpoonup> envelope list"
  sv_waiters :: "string \<rightharpoonup> nat list"
  sv_closed :: "nat set"
  sv_registry :: "string \<rightharpoonup> nat list"
  sv_clients :: "nat \<rightharpoonup> ws_client"
  sv_next :: nat

definition envelope_version :: string where
  "envelope_version = ''astralops-relay-envelope-v1''"

definition kind_hello :: string where
  "kind_hello = ''control.hello''"

definition kind_hello_ack :: string where
  "kind_hello_ack = ''control.hello_ack''"

definition kind_sealed_frame :: string where
  "kind_sealed_frame = ''control.sealed_frame''"

definition ws_send_buffer :: nat where
  "ws_send_buffer = 128"

definition max_body_bytes :: int where
  "max_body_bytes = 1048576"

definition max_envelope_wait :: int where
  "max_envelope_wait = 25 * second"

section \<open>NewServer\<close>

fun clone_secrets_into ::
  "(string \<times> string) list \<Rightarrow> (string \<times> string) list \<Rightarrow> (string \<times> string) list" where
  "clone_secrets_into out [] = out"
| "clone_secrets_into out ((key, secret) # rest) =
     (if trim_space key = [] \<or> secret = [] then clone_secrets_into out rest
      else clone_secrets_into (AList.update (trim_space key) secret out) rest)"

definition clone_secrets :: "(string \<times> string) list \<Rightarrow> (string \<times> string) list" where
  "clone_secrets secrets = clone_secrets_into [] secrets"

definition new_server :: "string \<Rightarrow> (string \<times> string) list \<Rightarrow> int \<Rightarrow> string + server" where
  "new_server relay_id0 secrets max_ttl =
     (let relay_id = trim_space relay_id0 in
      if relay_id = [] then Inl ''relay id required''
      else if secrets = [] then Inl ''relay credential secrets required''
      else Inr \<lparr>sv_relay_id = relay_id, sv_secrets = clone_secrets secrets, sv_max_ttl = max_ttl,
        sv_queues = Map.empty, sv_waiters = Map.empty, sv_closed = {},
        sv_registry = Map.empty, sv_clients = Map.empty, sv_next = 0\<rparr>)"

section \<open>Envelopes\<close>

definition is_allowed_payload_kind :: "string \<Rightarrow> bool" where
  "is_allowed_payload_kind kind \<longleftrightarrow>
     (let k = trim_space kind in k = kind_hello \<or> k = kind_hello_ack \<or> k = kind_sealed_frame)"

definition validate_envelope :: "envelope \<Rightarrow> go_error option" where
  "validate_envelope e =
     (if trim_space (env_version e) \<noteq> envelope_version
        then Some (ActionError 400 ''relay_version_invalid'' ''relay envelope version invalid'')
      else if blank (env_from e)
        then Some (ActionError 400 ''from_device_required'' ''from_device_id required'')
      else if blank (env_to e)
        then Some (ActionError 400 ''to_device_required'' ''to_device_id required'')
      else if \<not> is_allowed_payload_kind (trim_space (env_kind e))
        then Some (ActionError 400 ''relay_payload_kind_invalid'' ''relay payload kind invalid'')
      else if trim_space (env_kind e) \<noteq> kind_hello \<and> blank (env_connection e)
        then Some (ActionError 400 ''relay_connection_id_required'' ''connection_id required'')
      else if blank (env_payload e)
        then Some (ActionError 400 ''relay_payload_required'' ''payload_base64 required'')
      else if std_decode (trim_space (env_payload e)) = None
        then Some (ActionError 400 ''relay_payload_invalid'' ''payload_base64 invalid'')
      else None)"

definition envelope_waiter_key :: "string \<Rightarrow> string \<Rightarrow> string" where
  "envelope_waiter_key account device = trim_space account @ [CHR 0x00] @ trim_space device"

definition stamp_envelope :: "string \<Rightarrow> string \<Rightarrow> envelope \<Rightarrow> envelope" where
  "stamp_envelope now rid e =
     (let ident = trim_space (env_id e)
      in e\<lparr>env_id := if ident = [] then ''env_'' @ rid else ident, env_created := now\<rparr>)"

section \<open>Queues: \<open>enqueue\<close>, \<open>list\<close>, \<open>ack\<close>\<close>

definition notify_waiters :: "string \<Rightarrow> string \<Rightarrow> server \<Rightarrow> server" where
  "notify_waiters account device s =
     (let key = envelope_waiter_key account device
      in s\<lparr>sv_waiters := (sv_waiters s)(key := None),
           sv_closed := sv_closed s \<union> set (slice_at (sv_waiters s) key)\<rparr>)"

definition push_envelope :: "string \<Rightarrow> envelope \<Rightarrow> server \<Rightarrow> server" where
  "push_envelope account e s =
     notify_waiters account (env_to e)
       (s\<lparr>sv_queues := (sv_queues s)(account \<mapsto> slice_at (sv_queues s) account @ [e])\<rparr>)"

definition enqueue ::
  "string \<Rightarrow> string \<Rightarrow> string \<Rightarrow> envelope \<Rightarrow> server \<Rightarrow> (go_error + envelope) \<times> server" where
  "enqueue now rid account e0 s =
     (let e = stamp_envelope now rid e0 in
      case validate_envelope e of
        Some err \<Rightarrow> (Inl err, s)
      | None \<Rightarrow> (Inr e, push_envelope account e s))"

fun list_loop :: "string \<Rightarrow> nat \<Rightarrow> envelope list \<Rightarrow> envelope list \<Rightarrow> envelope list" where
  "list_loop device limit out [] = out"
| "list_loop device limit out (e # es) =
     (if env_to e \<noteq> device then list_loop device limit out es
      else if limit \<le> length (out @ [e]) then out @ [e]
      else list_loop device limit (out @ [e]) es)"

definition list_locked :: "server \<Rightarrow> string \<Rightarrow> string \<Rightarrow> nat \<Rightarrow> envelope list" where
  "list_locked s account device limit = list_loop device limit [] (slice_at (sv_queues s) account)"

definition list_envelopes :: "server \<Rightarrow> string \<Rightarrow> string \<Rightarrow> nat \<Rightarrow> envelope list" where
  "list_envelopes s account device0 limit =
     (let device = trim_space device0
      in if device = [] then [] else list_locked s account device limit)"

text \<open>
  The loop of \<open>ack\<close> stops at the first envelope with the given id: \<open>None\<close> is the 403,
  \<open>Some\<close> the new queue.
\<close>

fun ack_loop :: "string \<Rightarrow> string \<Rightarrow> envelope list \<Rightarrow> envelope list option" where
  "ack_loop ident device [] = Some []"
| "ack_loop ident device (e # es) =
     (if env_id e \<noteq> ident then map_option (\<lambda>r. e # r) (ack_loop ident device es)
      else if env_to e \<noteq> device then None
      else Some es)"

definition ack ::
  "string \<Rightarrow> string \<Rightarrow> string \<Rightarrow> server \<Rightarrow> go_error option \<times> server" where
  "ack account ident0 device0 s =
     (let ident = trim_space ident0; device = trim_space device0 in
      if ident = []
        then (Some (ActionError 400 ''relay_envelope_id_required'' ''relay envelope id required''), s)
      else if device = []
        then (Some (ActionError 400 ''device_id_required'' ''device_id required''), s)
      else (case sv_queues s account of
          None \<Rightarrow> (None, s)
        | Some queue \<Rightarrow>
            (case ack_loop ident device queue of
               None \<Rightarrow>
                 (Some (ActionError 403 ''relay_envelope_receiver_mismatch''
                    ''relay envelope receiver mismatch''), s)
             | Some queue' \<Rightarrow> (None, s\<lparr>sv_queues := (sv_queues s)(account \<mapsto> queue')\<rparr>))))"

section \<open>Long polling: \<open>listOrWait\<close>\<close>

text \<open>
  \<open>Done\<close> is a reply, \<open>Blocked ch\<close> means the request waits in its \<open>select\<close> for the
  context, the timer, or channel \<open>ch\<close>.
\<close>

datatype poll = Done "envelope list" | Blocked nat

definition list_or_wait :: "string \<Rightarrow> string \<Rightarrow> nat \<Rightarrow> int \<Rightarrow> server \<Rightarrow> poll \<times> server" where
  "list_or_wait account device0 limit wait s =
     (let device = trim_space device0 in
      if device = [] then (Done [], s)
      else (let out = list_locked s account device limit in
        if out \<noteq> [] \<or> wait \<le> 0 then (Done out, s)
        else (let key = envelope_waiter_key account device; ch = sv_next s
          in (Blocked ch,
              s\<lparr>sv_waiters := (sv_waiters s)(key \<mapsto> slice_at (sv_waiters s) key @ [ch]),
                sv_next := ch + 1\<rparr>))))"

definition remove_waiter :: "string \<Rightarrow> nat \<Rightarrow> server \<Rightarrow> server" where
  "remove_waiter key ch s =
     s\<lparr>sv_waiters :=
         put_or_delete (sv_waiters s) key (remove_first (\<lambda>c. c = ch) (slice_at (sv_waiters s) key))\<rparr>"

text \<open>
  The three cases of the \<open>select\<close>. The timer's case removes the waiter and lists in two critical
  sections; \<open>other\<close> is what other requests do in between.
\<close>

definition wait_cancelled ::
  "string \<Rightarrow> string \<Rightarrow> nat \<Rightarrow> server \<Rightarrow> envelope list \<times> server" where
  "wait_cancelled account device ch s =
     ([], remove_waiter (envelope_waiter_key account (trim_space device)) ch s)"

definition wait_timeout ::
  "string \<Rightarrow> string \<Rightarrow> nat \<Rightarrow> nat \<Rightarrow> (server \<Rightarrow> server) \<Rightarrow> server \<Rightarrow> envelope list \<times> server" where
  "wait_timeout account device limit ch other s =
     (let s1 = other (remove_waiter (envelope_waiter_key account (trim_space device)) ch s)
      in (list_envelopes s1 account device limit, s1))"

definition wait_notified :: "string \<Rightarrow> string \<Rightarrow> nat \<Rightarrow> server \<Rightarrow> envelope list" where
  "wait_notified account device limit s = list_envelopes s account device limit"

definition envelope_wait_duration :: "(string \<Rightarrow> int option) \<Rightarrow> string \<Rightarrow> go_error + int" where
  "envelope_wait_duration parse_duration value0 =
     (let v = trim_space value0;
          invalid = ActionError 400 ''relay_wait_invalid'' ''wait must be a non-negative duration''
      in if v = [] then Inr 0
         else (case parse_duration v of
             None \<Rightarrow> Inl invalid
           | Some wait \<Rightarrow>
               if wait < 0 then Inl invalid
               else if wait > max_envelope_wait then Inr max_envelope_wait
               else Inr wait))"

section \<open>Websocket clients\<close>

definition register_client :: "nat \<Rightarrow> server \<Rightarrow> server" where
  "register_client c s =
     (case sv_clients s c of
        None \<Rightarrow> s
      | Some w \<Rightarrow>
          (let key = envelope_waiter_key (wc_account w) (wc_device w); cs = slice_at (sv_registry s) key
           in s\<lparr>sv_registry := (sv_registry s)(key \<mapsto> (if c \<in> set cs then cs else cs @ [c]))\<rparr>))"

definition unregister_client :: "nat \<Rightarrow> server \<Rightarrow> server" where
  "unregister_client c s =
     (case sv_clients s c of
        None \<Rightarrow> s
      | Some w \<Rightarrow>
          (let key = envelope_waiter_key (wc_account w) (wc_device w); cs = slice_at (sv_registry s) key
           in if cs = [] then s
              else s\<lparr>sv_registry := put_or_delete (sv_registry s) key (removeAll c cs)\<rparr>))"

definition close_client :: "nat \<Rightarrow> server \<Rightarrow> server" where
  "close_client c s =
     (case sv_clients s c of
        None \<Rightarrow> s
      | Some w \<Rightarrow> s\<lparr>sv_clients := (sv_clients s)(c \<mapsto> w\<lparr>wc_done := True\<rparr>)\<rparr>)"

text \<open>
  \<open>sendFrame\<close>: the \<open>select\<close> over \<open>done\<close> and the buffered channel. When both are ready the
  choice is Go's (\<open>pick\<close>); when neither is, the default case drops the frame.
\<close>

definition send_frame :: "bool \<Rightarrow> nat \<Rightarrow> ws_frame \<Rightarrow> server \<Rightarrow> bool \<times> server" where
  "send_frame pick c f s =
     (case sv_clients s c of
        None \<Rightarrow> (False, s)
      | Some w \<Rightarrow>
          (let room = length (wc_buffer w) < ws_send_buffer
           in if room \<and> (\<not> wc_done w \<or> pick)
              then (True, s\<lparr>sv_clients := (sv_clients s)(c \<mapsto> w\<lparr>wc_buffer := wc_buffer w @ [f]\<rparr>)\<rparr>)
              else (False, s)))"

definition send_error :: "bool \<Rightarrow> nat \<Rightarrow> string \<Rightarrow> string \<Rightarrow> server \<Rightarrow> server" where
  "send_error pick c code msg s =
     snd (send_frame pick c
       \<lparr>wf_type = ''error'', wf_envelope = None,
        wf_code = if code = [] then ''relay_ws_error'' else code, wf_error = msg\<rparr> s)"

definition deliver_one :: "(nat \<Rightarrow> bool) \<Rightarrow> ws_frame \<Rightarrow> nat \<Rightarrow> server \<Rightarrow> server" where
  "deliver_one pick f c s =
     (case send_frame (pick c) c f s of
        (True, s1) \<Rightarrow> s1
      | (False, s1) \<Rightarrow> close_client c (unregister_client c s1))"

definition envelope_frame :: "envelope \<Rightarrow> ws_frame" where
  "envelope_frame e = \<lparr>wf_type = ''envelope'', wf_envelope = Some e, wf_code = [], wf_error = []\<rparr>"

text \<open>
  The clients are those registered when the delivery begins. The code sends to them after it
  has released the lock: that other requests can come in between the sends is not modelled.
\<close>

definition deliver_envelope :: "(nat \<Rightarrow> bool) \<Rightarrow> string \<Rightarrow> envelope \<Rightarrow> server \<Rightarrow> server" where
  "deliver_envelope pick account e s =
     fold (deliver_one pick (envelope_frame e))
       (slice_at (sv_registry s) (envelope_waiter_key account (env_to e))) s"

definition forward_envelope ::
  "(nat \<Rightarrow> bool) \<Rightarrow> string \<Rightarrow> string \<Rightarrow> string \<Rightarrow> string \<Rightarrow> envelope \<Rightarrow> server \<Rightarrow>
   (go_error + envelope) \<times> server" where
  "forward_envelope pick now rid account from0 e0 s =
     (let e1 = stamp_envelope now rid e0;
          from = trim_space from0;
          given = trim_space (env_from e1);
          e = e1\<lparr>env_from := if given = [] then from else given\<rparr>
      in if env_from e \<noteq> from
           then (Inl (ActionError 403 ''from_device_mismatch''
             ''from_device_id does not match relay websocket device''), s)
         else (case validate_envelope e of
             Some err \<Rightarrow> (Inl err, s)
           | None \<Rightarrow> (Inr e, deliver_envelope pick account e s)))"

fun api_error_code :: "go_error \<Rightarrow> string" where
  "api_error_code (ActionError st code msg) = code"
| "api_error_code (OpaqueError msg) = ''relay_ws_error''"

fun api_error_text :: "go_error \<Rightarrow> string" where
  "api_error_text (ActionError st code msg) = (if msg \<noteq> [] then msg else code)"
| "api_error_text (OpaqueError msg) = msg"

text \<open>One turn of the read loop of \<open>handleRelayConnect\<close> on a frame that was read.\<close>

definition ws_read ::
  "(nat \<Rightarrow> bool) \<Rightarrow> string \<Rightarrow> string \<Rightarrow> nat \<Rightarrow> ws_frame \<Rightarrow> server \<Rightarrow> server" where
  "ws_read pick now rid c f s =
     (case sv_clients s c of
        None \<Rightarrow> s
      | Some w \<Rightarrow>
          (case (trim_space (wf_type f) = ''send'', wf_envelope f) of
             (True, Some e) \<Rightarrow>
               (case forward_envelope pick now rid (wc_account w) (wc_device w) e s of
                  (Inl err, s1) \<Rightarrow> send_error (pick c) c (api_error_code err) (api_error_text err) s1
                | (Inr e1, s1) \<Rightarrow> s1)
           | _ \<Rightarrow> send_error (pick c) c ''relay_ws_frame_invalid'' ''relay websocket frame invalid'' s))"

definition ws_connect :: "string \<Rightarrow> string \<Rightarrow> server \<Rightarrow> nat \<times> server" where
  "ws_connect account device s =
     (let c = sv_next s
      in (c, register_client c
            (s\<lparr>sv_clients := (sv_clients s)(c \<mapsto>
                 \<lparr>wc_account = account, wc_device = device, wc_buffer = [], wc_done = False\<rparr>),
               sv_next := c + 1\<rparr>)))"

text \<open>A failed read ends the loop; the deferred calls run.\<close>

definition ws_disconnect :: "nat \<Rightarrow> server \<Rightarrow> server" where
  "ws_disconnect c s = close_client c (unregister_client c s)"

text \<open>
  One turn of \<open>writeLoop\<close> that takes a frame off the channel: \<open>write_ok\<close> is the result of
  the network write. A failed write closes the client; the ping branch does the same.
\<close>

definition ws_write_next :: "bool \<Rightarrow> nat \<Rightarrow> server \<Rightarrow> ws_frame option \<times> server" where
  "ws_write_next write_ok c s =
     (case sv_clients s c of
        None \<Rightarrow> (None, s)
      | Some w \<Rightarrow>
          (case wc_buffer w of
             [] \<Rightarrow> (None, s)
           | f # fs \<Rightarrow>
               (let s1 = s\<lparr>sv_clients := (sv_clients s)(c \<mapsto> w\<lparr>wc_buffer := fs\<rparr>)\<rparr>
                in (Some f, if write_ok then s1 else close_client c s1))))"

definition ws_ping :: "bool \<Rightarrow> nat \<Rightarrow> server \<Rightarrow> server" where
  "ws_ping write_ok c s = (if write_ok then s else close_client c s)"

section \<open>The HTTP surface\<close>

record request =
  rq_method :: string
  rq_path :: string
  rq_authorization :: string
  rq_query :: "(string \<times> string) list"
  rq_content_length :: int
  rq_body :: string

datatype response =
    StatusReply nat
  | ErrorReply nat string string
  | HealthReply
  | EnvelopesReply "envelope list"
  | StoredReply envelope
  | AckReply
  | PollBlocked nat string nat
  | UpgradeFailed
  | Upgraded nat

text \<open>
  The libraries and the environment of a request: the MAC, the JSON decoders (each gives the
  results of the two calls of \<open>Decode\<close>), \<open>time.ParseDuration\<close>, the clock, the random id,
  and whether the websocket upgrade succeeds.
\<close>

record relay_env =
  re_mac :: "string \<Rightarrow> string \<Rightarrow> string"
  re_unmarshal :: "string \<Rightarrow> credential_payload option"
  re_read_envelope :: "string \<Rightarrow> envelope json_read \<times> unit json_read"
  re_read_ack :: "string \<Rightarrow> string json_read \<times> unit json_read"
  re_parse_duration :: "string \<Rightarrow> int option"
  re_clock :: int
  re_now :: string
  re_rid :: string
  re_upgrade_ok :: bool

fun decode_json :: "'a json_read \<times> unit json_read \<Rightarrow> go_error + 'a" where
  "decode_json (JsonTooLarge, e2) =
     Inl (ActionError 413 ''payload_too_large'' ''request body too large'')"
| "decode_json (JsonError m, e2) = Inl (ActionError 400 ''invalid_json'' m)"
| "decode_json (JsonEOF, e2) = Inl (ActionError 400 ''invalid_json'' ''EOF'')"
| "decode_json (JsonValue v, JsonEOF) = Inr v"
| "decode_json (JsonValue v, JsonValue u) =
     Inl (ActionError 400 ''invalid_json'' ''request body must contain a single JSON value'')"
| "decode_json (JsonValue v, JsonTooLarge) =
     Inl (ActionError 413 ''payload_too_large'' ''request body too large'')"
| "decode_json (JsonValue v, JsonError m) = Inl (ActionError 400 ''invalid_json'' m)"

fun write_error :: "go_error \<Rightarrow> response" where
  "write_error (ActionError st code msg) = ErrorReply st code msg"
| "write_error (OpaqueError msg) = ErrorReply 500 ''internal_error'' msg"

definition query_get :: "(string \<times> string) list \<Rightarrow> string \<Rightarrow> string" where
  "query_get q k = (case map_of q k of None \<Rightarrow> [] | Some v \<Rightarrow> v)"

definition path_parts :: "string \<Rightarrow> string list" where
  "path_parts path =
     filter (\<lambda>p. p \<noteq> []) (map trim_space (split_on (CHR ''/'') (trim_char (CHR ''/'') path)))"

text \<open>\<open>strconv.Atoi\<close> with its error ignored: 0 on a syntax error, saturated on overflow.\<close>

fun digits_value :: "nat \<Rightarrow> string \<Rightarrow> nat option" where
  "digits_value acc [] = Some acc"
| "digits_value acc (c # cs) =
     (if CHR ''0'' \<le> c \<and> c \<le> CHR ''9''
      then digits_value (10 * acc + (of_char c - of_char (CHR ''0''))) cs else None)"

definition atoi :: "string \<Rightarrow> int" where
  "atoi s =
     (let neg = has_prefix s ''-'';
          ds = (if has_prefix s ''-'' \<or> has_prefix s ''+'' then drop 1 s else s)
      in if ds = [] then 0
         else (case digits_value 0 ds of
             None \<Rightarrow> 0
           | Some n \<Rightarrow> if neg then max (- int n) (- (2 ^ 63)) else min (int n) (2 ^ 63 - 1)))"

definition list_limit :: "string \<Rightarrow> nat" where
  "list_limit v = (let n = atoi v in if n \<le> 0 \<or> n > 100 then 100 else nat n)"

definition account_from_request :: "relay_env \<Rightarrow> server \<Rightarrow> request \<Rightarrow> go_error + string" where
  "account_from_request env s rq =
     (let header = trim_space (rq_authorization rq);
          missing = ActionError 401 ''unauthorized'' ''missing bearer token''
      in if \<not> has_prefix header ''Bearer '' then Inl missing
         else (let token = trim_space (trim_prefix header ''Bearer '')
           in if token = [] then Inl missing
              else (case verify_credential (re_mac env) (re_unmarshal env) token
                    \<lparr>vo_relay_id = sv_relay_id s, vo_secrets = sv_secrets s, vo_now = re_clock env,
                     vo_max_ttl = sv_max_ttl s, vo_max_skew = 0\<rparr> of
                  Inl err \<Rightarrow> Inl (ActionError 401 ''unauthorized'' ''invalid relay credential'')
                | Inr p \<Rightarrow> Inr (cp_account_id_hash p))))"

definition handle_health :: "request \<Rightarrow> response" where
  "handle_health rq = (if rq_method rq \<noteq> ''GET'' then StatusReply 405 else HealthReply)"

definition handle_envelopes ::
  "relay_env \<Rightarrow> string \<Rightarrow> request \<Rightarrow> server \<Rightarrow> response \<times> server" where
  "handle_envelopes env account rq s =
     (if rq_method rq = ''GET'' then
        (let limit = list_limit (query_get (rq_query rq) ''limit'');
             device = trim_space (query_get (rq_query rq) ''device_id'')
         in (case envelope_wait_duration (re_parse_duration env) (query_get (rq_query rq) ''wait'') of
               Inl err \<Rightarrow> (write_error err, s)
             | Inr wait \<Rightarrow>
                 (case list_or_wait account device limit wait s of
                    (Done out, s1) \<Rightarrow> (EnvelopesReply out, s1)
                  | (Blocked ch, s1) \<Rightarrow> (PollBlocked ch device limit, s1))))
      else if rq_method rq = ''POST'' then
        (case decode_json (re_read_envelope env (rq_body rq)) of
           Inl err \<Rightarrow> (write_error err, s)
         | Inr e \<Rightarrow>
             (case enqueue (re_now env) (re_rid env) account e s of
                (Inl err, s1) \<Rightarrow> (write_error err, s1)
              | (Inr stored, s1) \<Rightarrow> (StoredReply stored, s1)))
      else (StatusReply 405, s))"

definition handle_envelope_action ::
  "relay_env \<Rightarrow> string \<Rightarrow> request \<Rightarrow> server \<Rightarrow> response \<times> server" where
  "handle_envelope_action env account rq s =
     (let parts = path_parts (trim_prefix (rq_path rq) ''/v1/relay/envelopes/'') in
      if length parts \<noteq> 2 \<or> parts ! 1 \<noteq> ''ack'' \<or> rq_method rq \<noteq> ''POST'' then (StatusReply 404, s)
      else (case decode_json (re_read_ack env (rq_body rq)) of
          Inl err \<Rightarrow> (write_error err, s)
        | Inr device \<Rightarrow>
            (case ack account (parts ! 0) device s of
               (Some err, s1) \<Rightarrow> (write_error err, s1)
             | (None, s1) \<Rightarrow> (AckReply, s1))))"

definition handle_relay_connect ::
  "relay_env \<Rightarrow> string \<Rightarrow> request \<Rightarrow> server \<Rightarrow> response \<times> server" where
  "handle_relay_connect env account rq s =
     (if rq_method rq \<noteq> ''GET'' then (StatusReply 405, s)
      else (let device = trim_space (query_get (rq_query rq) ''device_id'') in
        if device = []
          then (write_error (ActionError 400 ''device_id_required'' ''device_id required''), s)
        else if \<not> re_upgrade_ok env then (UpgradeFailed, s)
        else (case ws_connect account device s of (c, s1) \<Rightarrow> (Upgraded c, s1))))"

definition with_account ::
  "(string \<Rightarrow> request \<Rightarrow> server \<Rightarrow> response \<times> server) \<Rightarrow> relay_env \<Rightarrow> request \<Rightarrow> server \<Rightarrow>
   response \<times> server" where
  "with_account next env rq s =
     (case account_from_request env s rq of
        Inl err \<Rightarrow> (write_error err, s)
      | Inr account \<Rightarrow> next account rq s)"

text \<open>The multiplexer on a clean path (it redirects other paths before any handler runs).\<close>

definition route :: "relay_env \<Rightarrow> request \<Rightarrow> server \<Rightarrow> response \<times> server" where
  "route env rq s =
     (if rq_path rq = ''/v1/health'' then (handle_health rq, s)
      else if rq_path rq = ''/v1/relay/connect''
        then with_account (handle_relay_connect env) env rq s
      else if rq_path rq = ''/v1/relay/envelopes''
        then with_account (handle_envelopes env) env rq s
      else if has_prefix (rq_path rq) ''/v1/relay/envelopes/''
        then with_account (handle_envelope_action env) env rq s
      else (StatusReply 404, s))"

definition handle_request :: "relay_env \<Rightarrow> request \<Rightarrow> server \<Rightarrow> response \<times> server" where
  "handle_request env rq s =
     (if rq_content_length rq > max_body_bytes
        then (ErrorReply 413 ''payload_too_large'' ''request body too large'', s)
      else if rq_method rq = ''OPTIONS'' then (StatusReply 204, s)
      else route env rq s)"

section \<open>Lemmas on queues\<close>

lemma list_loop_take:
  "list_loop device (length out + Suc n) out es
     = out @ take (Suc n) (filter (\<lambda>e. env_to e = device) es)"
proof (induction es arbitrary: out n)
  case (Cons e es)
  show ?case
  proof (cases n)
    case (Suc m)
    then show ?thesis
      using Cons.IH [of "out @ [e]" m] Cons.IH [of out n] by simp
  qed (use Cons.IH [of out n] in simp)
qed simp

lemma list_locked_eq:
  "0 < limit \<Longrightarrow> list_locked s account device limit
     = take limit (filter (\<lambda>e. env_to e = device) (slice_at (sv_queues s) account))"
  using list_loop_take [of device "[]" "limit - 1"] by (simp add: list_locked_def)

lemma set_list_loop: "set (list_loop device limit out es) \<subseteq> set out \<union> {e \<in> set es. env_to e = device}"
  by (induction device limit out es rule: list_loop.induct) auto

lemma list_limit_range: "0 < list_limit v \<and> list_limit v \<le> 100"
  by (auto simp: list_limit_def Let_def)

text \<open>\<open>ack_loop\<close> removes the first envelope with the id, if it is addressed to the device.\<close>

lemma ack_loop_absent: "\<forall>e \<in> set q. env_id e \<noteq> ident \<Longrightarrow> ack_loop ident device q = Some q"
  by (induction q) auto

lemma ack_loop_split:
  "\<forall>e \<in> set q1. env_id e \<noteq> ident \<Longrightarrow> env_id e = ident \<Longrightarrow>
     ack_loop ident device (q1 @ e # q2) = (if env_to e = device then Some (q1 @ q2) else None)"
  by (induction q1) auto

lemma ack_loop_SomeD:
  assumes a: "ack_loop ident device q = Some q'"
  shows "q' = q \<and> (\<forall>e \<in> set q. env_id e \<noteq> ident) \<or>
     (\<exists>q1 e q2. q = q1 @ e # q2 \<and> q' = q1 @ q2 \<and> env_id e = ident \<and> env_to e = device
        \<and> (\<forall>x \<in> set q1. env_id x \<noteq> ident))"
proof (cases "\<exists>e \<in> set q. env_id e = ident")
  case True
  then obtain q1 e q2 where q: "q = q1 @ e # q2" "env_id e = ident" "\<forall>x \<in> set q1. env_id x \<noteq> ident"
    using split_list_first_prop [of q "\<lambda>e. env_id e = ident"] by blast
  have "ack_loop ident device q = (if env_to e = device then Some (q1 @ q2) else None)"
    unfolding q(1) by (rule ack_loop_split [OF q(3,2)])
  with a have r: "env_to e = device \<and> q' = q1 @ q2"
    by (cases "env_to e = device") simp_all
  with q show ?thesis
    by (intro disjI2 exI [of _ q1] exI [of _ e] exI [of _ q2]) simp
next
  case False
  then show ?thesis
    using a ack_loop_absent [of q ident device] by simp
qed

lemma ack_loop_subset: "ack_loop ident device q = Some q' \<Longrightarrow> set q' \<subseteq> set q"
  by (induction q arbitrary: q') (auto split: if_splits)

section \<open>The queues are mailboxes\<close>

lemma queues_notify [simp, frame]: "sv_queues (notify_waiters a d s) = sv_queues s"
  by (simp add: notify_waiters_def Let_def)

lemma queues_remove_waiter [simp, frame]: "sv_queues (remove_waiter key ch s) = sv_queues s"
  by (simp add: remove_waiter_def)

lemma slice_push [simp]:
  "slice_at (sv_queues (push_envelope a e s)) b
     = slice_at (sv_queues s) b @ (if b = a then [e] else [])"
  by (simp add: push_envelope_def)

lemma stamp_fields [simp]:
  "env_to (stamp_envelope now rid e) = env_to e"
  "env_from (stamp_envelope now rid e) = env_from e"
  "env_created (stamp_envelope now rid e) = now"
  by (simp_all add: stamp_envelope_def Let_def)

definition held_for :: "server \<Rightarrow> string \<Rightarrow> string \<Rightarrow> envelope list" where
  "held_for s account device = filter (\<lambda>e. env_to e = device) (slice_at (sv_queues s) account)"

text \<open>The operations of the contract on the server: a post of an envelope at a time.\<close>

definition broker_put :: "string \<Rightarrow> string \<times> string \<times> envelope \<Rightarrow> server \<Rightarrow> server" where
  "broker_put account m s = (case m of (now, rid, e) \<Rightarrow> snd (enqueue now rid account e s))"

definition broker_ack :: "string \<Rightarrow> string \<Rightarrow> string \<Rightarrow> server \<Rightarrow> server" where
  "broker_ack account ident device s = snd (ack account ident device s)"

definition broker_stored :: "string \<times> string \<times> envelope \<Rightarrow> envelope" where
  "broker_stored m = (case m of (now, rid, e) \<Rightarrow> stamp_envelope now rid e)"

definition broker_accepts :: "string \<times> string \<times> envelope \<Rightarrow> bool" where
  "broker_accepts m = (validate_envelope (broker_stored m) = None)"

lemma held_put: "held_for (broker_put a m s) b d
  = held_for s b d @ (if broker_accepts m \<and> b = a \<and> env_to (broker_stored m) = d
                      then [broker_stored m] else [])"
  by (cases m) (auto simp: broker_put_def broker_accepts_def broker_stored_def enqueue_def Let_def
      held_for_def split: option.splits)

text \<open>The effect of an acknowledgement on the account's queue.\<close>

lemma ack_queue:
  "slice_at (sv_queues (broker_ack a i d s)) b
     = (if b = a \<and> trim_space i \<noteq> [] \<and> trim_space d \<noteq> []
        then (case ack_loop (trim_space i) (trim_space d) (slice_at (sv_queues s) a) of
                None \<Rightarrow> slice_at (sv_queues s) a | Some q \<Rightarrow> q)
        else slice_at (sv_queues s) b)"
  by (auto simp: broker_ack_def ack_def Let_def slice_at_def split: option.splits)

lemma ack_loop_filter:
  "ack_loop i d q = Some q' \<Longrightarrow> d' \<noteq> d \<Longrightarrow>
     filter (\<lambda>e. env_to e = d') q' = filter (\<lambda>e. env_to e = d') q"
  by (induction q arbitrary: q') (auto split: if_splits)

lemma ack_loop_keeps: "ack_loop i d q = Some q' \<Longrightarrow> e \<in> set q \<Longrightarrow> env_id e \<noteq> i \<Longrightarrow> e \<in> set q'"
  by (induction q arbitrary: q') (auto split: if_splits)

lemma ack_loop_subseq: "ack_loop i d q = Some q' \<Longrightarrow> subseq q' q"
  by (induction q arbitrary: q') (auto split: if_splits)

interpretation broker: mailbox broker_put broker_ack held_for broker_accepts broker_stored
  env_to env_id trim_space trim_space
proof unfold_locales
  fix e s a d
  show "e \<in> set (held_for s a d) \<Longrightarrow> env_to e = d"
    by (simp add: held_for_def)
next
  fix b a d' d i s
  show "b \<noteq> a \<or> d' \<noteq> trim_space d \<Longrightarrow> held_for (broker_ack a i d s) b d' = held_for s b d'"
    by (auto simp: held_for_def ack_queue ack_loop_filter split: option.splits)
next
  fix e s a d' i d
  show "e \<in> set (held_for s a d') \<Longrightarrow> env_id e \<noteq> trim_space i \<Longrightarrow>
      e \<in> set (held_for (broker_ack a i d s) a d')"
    by (auto simp: held_for_def ack_queue split: option.splits dest: ack_loop_keeps)
next
  fix a i d s d'
  show "subseq (held_for (broker_ack a i d s) a d') (held_for s a d')"
    by (auto simp: held_for_def ack_queue split: option.splits
        intro: subseq_filter dest: ack_loop_subseq)
qed (rule held_put)

text \<open>Sequences of posts and acknowledgements, and what arrives for a receiver.\<close>

type_synonym broker_op = "(string, string \<times> string \<times> envelope, string, string) mailbox_op"

fun broker_step :: "broker_op \<Rightarrow> server \<Rightarrow> server" where
  "broker_step (Put account m) s = broker_put account m s"
| "broker_step (Ack account ident device) s = broker_ack account ident device s"

definition broker_run :: "broker_op list \<Rightarrow> server \<Rightarrow> server" where
  "broker_run ops s = fold broker_step ops s"

fun broker_arrival :: "string \<Rightarrow> string \<Rightarrow> broker_op \<Rightarrow> envelope list" where
  "broker_arrival account device (Put b m) =
     (if broker_accepts m \<and> account = b \<and> env_to (broker_stored m) = device then [broker_stored m] else [])"
| "broker_arrival account device (Ack b i d) = []"

definition broker_arrivals :: "string \<Rightarrow> string \<Rightarrow> broker_op list \<Rightarrow> envelope list" where
  "broker_arrivals account device ops = concat (map (broker_arrival account device) ops)"

lemma broker_run_eq: "broker.run ops s = broker_run ops s"
proof -
  have "broker.step = broker_step"
  proof (intro ext)
    fix p s
    show "broker.step p s = broker_step p s"
      by (cases p) simp_all
  qed
  then show ?thesis
    by (simp add: broker.run_def broker_run_def)
qed

lemma broker_arrivals_eq: "broker.arrivals account device ops = broker_arrivals account device ops"
proof -
  have "broker.arrival account device = broker_arrival account device"
  proof
    fix p
    show "broker.arrival account device p = broker_arrival account device p"
      by (cases p) simp_all
  qed
  then show ?thesis
    by (simp add: broker.arrivals_def broker_arrivals_def)
qed

lemmas broker_retained = broker.retained [unfolded broker_run_eq]
lemmas broker_subseq = broker.run_subseq [unfolded broker_run_eq broker_arrivals_eq]

section \<open>Properties of the mailbox\<close>

text \<open>
  \<open>enqueue\<close> on every branch. The envelope is stamped with the server's clock and an id;
  if it does not validate, the error is returned and nothing changes, otherwise it is
  appended to the account's queue, every request waiting for the receiver is notified, and
  no other queue changes.
\<close>

theorem enqueue_spec:
  "enqueue now rid account e s =
     (case validate_envelope (stamp_envelope now rid e) of
        Some err \<Rightarrow> (Inl err, s)
      | None \<Rightarrow> (Inr (stamp_envelope now rid e),
          s\<lparr>sv_queues := (sv_queues s)(account \<mapsto>
               slice_at (sv_queues s) account @ [stamp_envelope now rid e]),
            sv_waiters := (sv_waiters s)(envelope_waiter_key account (env_to e) := None),
            sv_closed := sv_closed s \<union>
               set (slice_at (sv_waiters s) (envelope_waiter_key account (env_to e)))\<rparr>))"
  by (auto simp: enqueue_def push_envelope_def notify_waiters_def Let_def split: option.splits)

text \<open>
  C3: Store and forward. Take any sequence of posts and acknowledgements by any accounts and
  devices. What is held for a device is a subsequence of what was held before followed by
  the valid envelopes posted to it in its account since, in the order they were posted:
  nothing is invented, duplicated, reordered, or taken from another account or device.
\<close>

theorem mailbox_no_invention:
  "subseq (held_for (broker_run ops s) account device)
     (held_for s account device @ broker_arrivals account device ops)"
  by (rule broker_subseq)

text \<open>
  No loss. An envelope that is held for a device stays held through any sequence of posts
  and acknowledgements in which this account never acknowledges that id for that device; in
  particular no other account and no other device can remove it.
\<close>

theorem mailbox_retained:
  assumes "e \<in> set (held_for s account device)"
    and "\<And>i d. Ack account i d \<in> set ops \<Longrightarrow> trim_space i \<noteq> env_id e \<or> trim_space d \<noteq> device"
  shows "e \<in> set (held_for (broker_run ops s) account device)"
  using assms by (rule broker_retained)

text \<open>
  \<open>list\<close> with the limit of a request (1 to 100) returns the oldest envelopes held for
  the device, at most as many as the limit: the loop with its early exit is \<open>take\<close> of
  \<open>filter\<close>.
\<close>

theorem list_refines_mailbox:
  "trim_space device \<noteq> [] \<Longrightarrow>
     list_envelopes s account device (list_limit v)
       = take (list_limit v) (held_for s account (trim_space device))"
  using list_limit_range [of v] by (simp add: list_envelopes_def Let_def list_locked_eq held_for_def)

text \<open>
  \<open>ack\<close> on every branch: an empty id or device is a 400 error, an unknown id is accepted
  without effect, an id whose first envelope is addressed to another device is a 403 error
  without effect, and otherwise exactly that envelope leaves the queue.
\<close>

theorem ack_spec:
  assumes "trim_space ident \<noteq> []" and "trim_space device \<noteq> []"
  shows "(\<forall>e \<in> set (slice_at (sv_queues s) account). env_id e \<noteq> trim_space ident) \<and>
           ack account ident device s = (None, s)
       \<or> (\<exists>q1 e q2. slice_at (sv_queues s) account = q1 @ e # q2 \<and> env_id e = trim_space ident
            \<and> (\<forall>x \<in> set q1. env_id x \<noteq> trim_space ident)
            \<and> ack account ident device s =
               (if env_to e = trim_space device
                then (None, s\<lparr>sv_queues := (sv_queues s)(account \<mapsto> q1 @ q2)\<rparr>)
                else (Some (ActionError 403 ''relay_envelope_receiver_mismatch''
                        ''relay envelope receiver mismatch''), s)))"
proof (cases "\<exists>e \<in> set (slice_at (sv_queues s) account). env_id e = trim_space ident")
  case True
  then obtain q1 e q2 where q: "slice_at (sv_queues s) account = q1 @ e # q2"
    "env_id e = trim_space ident" "\<forall>x \<in> set q1. env_id x \<noteq> trim_space ident"
    using split_list_first_prop [of "slice_at (sv_queues s) account" "\<lambda>e. env_id e = trim_space ident"]
    by blast
  then have "sv_queues s account = Some (q1 @ e # q2)"
    by (auto simp: slice_at_def split: option.splits)
  then have "ack account ident device s =
       (if env_to e = trim_space device
        then (None, s\<lparr>sv_queues := (sv_queues s)(account \<mapsto> q1 @ q2)\<rparr>)
        else (Some (ActionError 403 ''relay_envelope_receiver_mismatch''
                ''relay envelope receiver mismatch''), s))"
    using assms by (simp add: ack_def Let_def ack_loop_split [OF q(3,2)])
  with q show ?thesis by blast
next
  case False
  then have "ack_loop (trim_space ident) (trim_space device) q = Some q"
    if "sv_queues s account = Some q" for q
    using that by (intro ack_loop_absent) (auto simp: slice_at_def)
  moreover have "s\<lparr>sv_queues := (sv_queues s)(account \<mapsto> q)\<rparr> = s" if "sv_queues s account = Some q" for q
    using that by (simp add: fun_upd_idem)
  ultimately show ?thesis
    using False assms by (auto simp: ack_def Let_def split: option.splits)
qed

text \<open>
  The receiver is validated with its white space trimmed but stored as it was sent, while
  \<open>list\<close> and \<open>ack\<close> compare the stored receiver with a trimmed device. An accepted envelope
  whose \<open>to_device_id\<close> has surrounding white space is therefore listed for no device, and
  no acknowledgement removes it: it stays in the queue whatever the account's devices do.
\<close>

theorem padded_receiver_stuck:
  assumes "e \<in> set (slice_at (sv_queues s) account)" and "env_to e \<noteq> trim_space (env_to e)"
  shows "e \<in> set (slice_at (sv_queues (broker_run ops s)) account)
     \<and> e \<notin> set (list_envelopes (broker_run ops s) account device limit)"
proof -
  have ne: "env_to e \<noteq> trim_space d" for d
    using assms(2) by (metis trim_space_idem)
  have "e \<in> set (held_for s account (env_to e))"
    using assms(1) by (simp add: held_for_def)
  then have "e \<in> set (held_for (broker_run ops s) account (env_to e))"
    by (rule broker_retained) (simp add: ne [symmetric])
  moreover have "set (list_envelopes s1 account device limit)
      \<subseteq> {x \<in> set (slice_at (sv_queues s1) account). env_to x = trim_space device}" for s1
    using set_list_loop [of "trim_space device" limit "[]"]
    by (simp add: list_envelopes_def list_locked_def Let_def)
  ultimately show ?thesis
    using ne [of device] by (auto simp: held_for_def)
qed

section \<open>A concrete server\<close>

definition sample_envelope :: envelope where
  "sample_envelope = \<lparr>env_version = envelope_version, env_id = ''e1'', env_connection = [],
     env_from = ''phone'', env_to = ''laptop'', env_kind = kind_hello, env_payload = ''AA=='',
     env_created = ''t0''\<rparr>"

definition sample_server :: server where
  "sample_server = \<lparr>sv_relay_id = ''relay'', sv_secrets = [(''k1'', sample_secret)], sv_max_ttl = 0,
     sv_queues = Map.empty, sv_waiters = Map.empty, sv_closed = {},
     sv_registry = Map.empty, sv_clients = Map.empty, sv_next = 0\<rparr>"

lemma sample_server_new: "new_server '' relay'' [(''k1'', sample_secret)] 0 = Inr sample_server"
proof -
  have "trim_space '' relay'' = ''relay''" "trim_space ''k1'' = ''k1''"
    by code_simp+
  moreover have "sample_secret \<noteq> []"
    by (simp add: sample_secret_def)
  ultimately show ?thesis
    by (simp add: new_server_def clone_secrets_def sample_server_def)
qed

lemma sample_stamped: "stamp_envelope ''t0'' ''r'' sample_envelope = sample_envelope"
  by code_simp

lemma sample_valid: "validate_envelope sample_envelope = None"
  by code_simp

lemma sample_trims [simp]:
  "trim_space ''e1'' = ''e1''" "trim_space ''e2'' = ''e2''" "trim_space ''laptop'' = ''laptop''"
  "trim_space '' laptop'' = ''laptop''" "trim_space ''acct'' = ''acct''" "trim_space ''phone'' = ''phone''"
  by code_simp+

lemma sample_envelope_fields [simp]:
  "env_to sample_envelope = ''laptop''" "env_id sample_envelope = ''e1''"
  by (simp_all add: sample_envelope_def)

definition sample_loaded :: server where
  "sample_loaded = push_envelope ''acct'' sample_envelope sample_server"

lemma sample_loaded_queue: "slice_at (sv_queues sample_loaded) ''acct'' = [sample_envelope]"
  by (simp add: sample_loaded_def sample_server_def slice_at_def push_envelope_def)

lemma sample_loaded_held: "held_for sample_loaded ''acct'' ''laptop'' = [sample_envelope]"
  by (simp add: held_for_def sample_loaded_queue)

lemma mailbox_retained_witness:
  "sample_envelope \<in> set (held_for (broker_run [Ack ''acct'' ''e2'' ''laptop'', Ack ''other'' ''e1'' ''laptop'',
     Ack ''acct'' ''e1'' ''phone''] sample_loaded) ''acct'' ''laptop'')"
  by (rule mailbox_retained) (auto simp: sample_loaded_held)

lemma list_refines_mailbox_witness:
  "list_envelopes sample_loaded ''acct'' '' laptop'' (list_limit ''7'') = [sample_envelope]"
proof -
  have "list_limit ''7'' = 7"
    by code_simp
  then show ?thesis
    using list_refines_mailbox [of "'' laptop''" sample_loaded "''acct''" "''7''"]
    by (simp add: sample_loaded_held)
qed

lemma ack_spec_witness:
  "\<exists>q1 e q2. slice_at (sv_queues sample_loaded) ''acct'' = q1 @ e # q2 \<and> env_id e = ''e1'' \<and>
     ack ''acct'' ''e1'' '' laptop'' sample_loaded
       = (None, sample_loaded\<lparr>sv_queues := (sv_queues sample_loaded)(''acct'' \<mapsto> q1 @ q2)\<rparr>)"
  using ack_spec [of "''e1''" "'' laptop''" sample_loaded "''acct''"]
  by (auto simp: sample_loaded_queue Cons_eq_append_conv)

lemma padded_receiver_stuck_witness:
  "sample_envelope\<lparr>env_to := '' laptop''\<rparr> \<notin> set (list_envelopes (broker_run [Ack ''acct'' ''e1'' '' laptop'']
     (push_envelope ''acct'' (sample_envelope\<lparr>env_to := '' laptop''\<rparr>) sample_server)) ''acct'' '' laptop'' 100)"
proof -
  let ?e = "sample_envelope\<lparr>env_to := '' laptop''\<rparr>"
  have "?e \<in> set (slice_at (sv_queues (push_envelope ''acct'' ?e sample_server)) ''acct'')"
    by simp
  moreover have "env_to ?e \<noteq> trim_space (env_to ?e)"
    by simp
  ultimately show ?thesis
    using padded_receiver_stuck by blast
qed

end
