(* ===== verification/RelayWaiters.thy ===== *)
theory RelayWaiters
  imports RelayBroker
begin

text \<open>
  The relay server as a concurrent system: a world is the server and the long-poll requests
  that are blocked in the \<open>select\<close> of \<open>listOrWait\<close>, a step is one critical section of one
  request. The theory proves the invariants of the waiter table and of the websocket
  registry over all reachable worlds, and what authentication guarantees.
\<close>

section \<open>Worlds and steps\<close>

text \<open>
  A blocked request is known by its channel: account, trimmed device and limit. What a request
  lists after it has left its \<open>select\<close> changes nothing, so leaving by the timer is the removal of
  the waiter alone.
\<close>

record relay_world =
  rw_server :: server
  rw_blocked :: "nat \<rightharpoonup> string \<times> string \<times> nat"

inductive relay_step :: "relay_world \<Rightarrow> relay_world \<Rightarrow> bool" where
  post: "enqueue now rid account e (rw_server w) = (r, s') \<Longrightarrow>
           relay_step w (w\<lparr>rw_server := s'\<rparr>)"
| acked: "ack account ident device (rw_server w) = (r, s') \<Longrightarrow>
           relay_step w (w\<lparr>rw_server := s'\<rparr>)"
| polled: "list_or_wait account device (list_limit v) wait (rw_server w) = (Done out, s') \<Longrightarrow>
           relay_step w (w\<lparr>rw_server := s'\<rparr>)"
| blocked: "list_or_wait account device (list_limit v) wait (rw_server w) = (Blocked ch, s') \<Longrightarrow>
           relay_step w (w\<lparr>rw_server := s',
             rw_blocked := (rw_blocked w)(ch \<mapsto> (account, trim_space device, list_limit v))\<rparr>)"
| cancelled: "rw_blocked w ch = Some (account, device, limit) \<Longrightarrow>
           wait_cancelled account device ch (rw_server w) = (out, s') \<Longrightarrow>
           relay_step w (w\<lparr>rw_server := s', rw_blocked := (rw_blocked w)(ch := None)\<rparr>)"
| timed_out: "rw_blocked w ch = Some (account, device, limit) \<Longrightarrow>
           wait_timeout account device limit ch id (rw_server w) = (out, s') \<Longrightarrow>
           relay_step w (w\<lparr>rw_server := s', rw_blocked := (rw_blocked w)(ch := None)\<rparr>)"
| notified: "rw_blocked w ch = Some (account, device, limit) \<Longrightarrow> ch \<in> sv_closed (rw_server w) \<Longrightarrow>
           relay_step w (w\<lparr>rw_blocked := (rw_blocked w)(ch := None)\<rparr>)"
| connected: "ws_connect account device (rw_server w) = (c, s') \<Longrightarrow>
           relay_step w (w\<lparr>rw_server := s'\<rparr>)"
| ws_frame: "relay_step w (w\<lparr>rw_server := ws_read pick now rid c f (rw_server w)\<rparr>)"
| ws_written: "ws_write_next ok c (rw_server w) = (r, s') \<Longrightarrow>
           relay_step w (w\<lparr>rw_server := s'\<rparr>)"
| ws_pinged: "relay_step w (w\<lparr>rw_server := ws_ping ok c (rw_server w)\<rparr>)"
| disconnected: "relay_step w (w\<lparr>rw_server := ws_disconnect c (rw_server w)\<rparr>)"

inductive_cases relay_stepE: "relay_step w w'"

inductive relay_reachable :: "relay_world \<Rightarrow> bool" where
  start: "new_server relay_id secrets max_ttl = Inr s \<Longrightarrow>
            relay_reachable \<lparr>rw_server = s, rw_blocked = Map.empty\<rparr>"
| later: "relay_reachable w \<Longrightarrow> relay_step w w' \<Longrightarrow> relay_reachable w'"

section \<open>What websocket operations leave alone\<close>

definition mail_part :: "server \<Rightarrow> (string \<rightharpoonup> envelope list) \<times> (string \<rightharpoonup> nat list) \<times> nat set" where
  "mail_part s = (sv_queues s, sv_waiters s, sv_closed s)"

lemma mail_register [simp]: "mail_part (register_client c s) = mail_part s"
  by (simp add: mail_part_def register_client_def Let_def split: option.split)

lemma mail_unregister [simp]: "mail_part (unregister_client c s) = mail_part s"
  by (simp add: mail_part_def unregister_client_def Let_def split: option.split)

lemma mail_close [simp]: "mail_part (close_client c s) = mail_part s"
  by (simp add: mail_part_def close_client_def split: option.split)

lemma mail_send [simp]: "mail_part (snd (send_frame pick c f s)) = mail_part s"
  by (simp add: mail_part_def send_frame_def Let_def split: option.split)

lemma next_ws [simp]:
  "sv_next (register_client c s) = sv_next s"
  "sv_next (unregister_client c s) = sv_next s"
  "sv_next (close_client c s) = sv_next s"
  "sv_next (snd (send_frame pick c f s)) = sv_next s"
  by (simp_all add: register_client_def unregister_client_def close_client_def send_frame_def
      Let_def split: option.split)

lemma deliver_one_eq:
  "deliver_one pick f c s =
     (if fst (send_frame (pick c) c f s) then snd (send_frame (pick c) c f s)
      else close_client c (unregister_client c (snd (send_frame (pick c) c f s))))"
  by (simp add: deliver_one_def split: prod.split bool.split)

lemma mail_deliver_one [simp]:
  "mail_part (deliver_one pick f c s) = mail_part s" "sv_next (deliver_one pick f c s) = sv_next s"
  by (simp_all add: deliver_one_eq)

lemma mail_fold_deliver [simp]:
  "mail_part (fold (deliver_one pick f) cs s) = mail_part s"
  "sv_next (fold (deliver_one pick f) cs s) = sv_next s"
  by (induction cs arbitrary: s) simp_all

lemma mail_deliver [simp]:
  "mail_part (deliver_envelope pick account e s) = mail_part s"
  "sv_next (deliver_envelope pick account e s) = sv_next s"
  by (simp_all add: deliver_envelope_def)

lemma mail_forward [simp]:
  "mail_part (snd (forward_envelope pick now rid account from e s)) = mail_part s"
  "sv_next (snd (forward_envelope pick now rid account from e s)) = sv_next s"
  by (simp_all add: forward_envelope_def Let_def split: option.split)

lemma mail_ws_read [simp]:
  "mail_part (ws_read pick now rid c f s) = mail_part s"
  "sv_next (ws_read pick now rid c f s) = sv_next s"
proof -
  have *: "mail_part s1 = mail_part s \<and> sv_next s1 = sv_next s"
    if "forward_envelope pick now rid a d e s = (r, s1)" for a d e r s1
    using mail_forward [of pick now rid a d e s] that by simp
  show "mail_part (ws_read pick now rid c f s) = mail_part s"
    "sv_next (ws_read pick now rid c f s) = sv_next s"
    using * by (auto simp: ws_read_def send_error_def split: option.split prod.split sum.split bool.split)
qed

lemma mail_ws_write [simp]:
  "mail_part (snd (ws_write_next ok c s)) = mail_part s"
  "sv_next (snd (ws_write_next ok c s)) = sv_next s"
  by (auto simp: ws_write_next_def mail_part_def close_client_def Let_def
      split: option.split list.split)

lemma mail_ws_connect [simp]:
  "mail_part (snd (ws_connect account device s)) = mail_part s"
  "sv_next (snd (ws_connect account device s)) = Suc (sv_next s)"
proof -
  show "mail_part (snd (ws_connect account device s)) = mail_part s"
    unfolding ws_connect_def Let_def snd_conv mail_register by (simp add: mail_part_def)
  show "sv_next (snd (ws_connect account device s)) = Suc (sv_next s)"
    by (simp add: ws_connect_def Let_def)
qed

lemma mail_ws_others [simp]:
  "mail_part (ws_disconnect c s) = mail_part s" "sv_next (ws_disconnect c s) = sv_next s"
  "mail_part (ws_ping ok c s) = mail_part s" "sv_next (ws_ping ok c s) = sv_next s"
  by (simp_all add: ws_disconnect_def ws_ping_def)

section \<open>The waiter table\<close>

text \<open>
  Every waiter in the table is an open channel of exactly one blocked request, under that
  request's key; a blocked request's channel is closed, or it is in the table and nothing is
  held for the request.
\<close>

definition waiter_ok :: "relay_world \<Rightarrow> string \<Rightarrow> nat \<Rightarrow> bool" where
  "waiter_ok w k ch \<longleftrightarrow> ch \<notin> sv_closed (rw_server w) \<and>
     (\<exists>a d l. rw_blocked w ch = Some (a, d, l) \<and> k = envelope_waiter_key a d)"

definition waits_ok :: "server \<Rightarrow> nat \<Rightarrow> string \<Rightarrow> string \<Rightarrow> nat \<Rightarrow> bool" where
  "waits_ok s ch a d l \<longleftrightarrow> ch < sv_next s \<and> trimmed d \<and> d \<noteq> [] \<and> 0 < l \<and>
     (ch \<in> sv_closed s \<or>
      ch \<in> set (slice_at (sv_waiters s) (envelope_waiter_key a d)) \<and> held_for s a d = [])"

definition wake_inv :: "relay_world \<Rightarrow> bool" where
  "wake_inv w \<longleftrightarrow>
     no_empty_slice (sv_waiters (rw_server w)) \<and>
     (\<forall>k. distinct (slice_at (sv_waiters (rw_server w)) k)) \<and>
     (\<forall>k ch. ch \<in> set (slice_at (sv_waiters (rw_server w)) k) \<longrightarrow> waiter_ok w k ch) \<and>
     (\<forall>ch \<in> sv_closed (rw_server w). ch < sv_next (rw_server w)) \<and>
     (\<forall>ch a d l. rw_blocked w ch = Some (a, d, l) \<longrightarrow> waits_ok (rw_server w) ch a d l)"

lemma wake_invI:
  assumes "no_empty_slice (sv_waiters (rw_server w))"
    and "\<And>k. distinct (slice_at (sv_waiters (rw_server w)) k)"
    and "\<And>k ch. ch \<in> set (slice_at (sv_waiters (rw_server w)) k) \<Longrightarrow> waiter_ok w k ch"
    and "\<And>ch. ch \<in> sv_closed (rw_server w) \<Longrightarrow> ch < sv_next (rw_server w)"
    and "\<And>ch a d l. rw_blocked w ch = Some (a, d, l) \<Longrightarrow> waits_ok (rw_server w) ch a d l"
  shows "wake_inv w"
  using assms by (auto simp: wake_inv_def)

lemma wake_invD:
  assumes "wake_inv w"
  shows wake_no_empty: "no_empty_slice (sv_waiters (rw_server w))"
    and wake_distinct: "distinct (slice_at (sv_waiters (rw_server w)) k)"
    and wake_waiter: "ch \<in> set (slice_at (sv_waiters (rw_server w)) k) \<Longrightarrow> waiter_ok w k ch"
    and wake_closed: "ch \<in> sv_closed (rw_server w) \<Longrightarrow> ch < sv_next (rw_server w)"
    and wake_blocked: "rw_blocked w ch = Some (a, d, l) \<Longrightarrow> waits_ok (rw_server w) ch a d l"
  using assms by (auto simp: wake_inv_def)

text \<open>A waiter is in one slice of the table only.\<close>

lemma waiter_key_unique: "waiter_ok w k ch \<Longrightarrow> waiter_ok w k' ch \<Longrightarrow> k = k'"
  by (auto simp: waiter_ok_def)

text \<open>Steps that leave the waiters alone and add no envelope.\<close>

lemma wake_inv_same_waiters:
  assumes w: "wake_inv w" and held: "\<And>a d. held_for (rw_server w) a d = [] \<Longrightarrow> held_for s' a d = []"
    and same: "sv_waiters s' = sv_waiters (rw_server w)" "sv_closed s' = sv_closed (rw_server w)"
    and nxt: "sv_next (rw_server w) \<le> sv_next s'"
  shows "wake_inv (w\<lparr>rw_server := s'\<rparr>)"
proof (rule wake_invI)
  fix ch a d l
  assume "rw_blocked (w\<lparr>rw_server := s'\<rparr>) ch = Some (a, d, l)"
  then have "waits_ok (rw_server w) ch a d l"
    using wake_blocked [OF w] by simp
  then show "waits_ok (rw_server (w\<lparr>rw_server := s'\<rparr>)) ch a d l"
    using held [of a d] nxt by (auto simp: waits_ok_def same)
next
  fix k ch
  assume "ch \<in> set (slice_at (sv_waiters (rw_server (w\<lparr>rw_server := s'\<rparr>))) k)"
  then show "waiter_ok (w\<lparr>rw_server := s'\<rparr>) k ch"
    using wake_waiter [OF w, of ch k] by (simp add: waiter_ok_def same)
next
  fix ch
  assume "ch \<in> sv_closed (rw_server (w\<lparr>rw_server := s'\<rparr>))"
  then show "ch < sv_next (rw_server (w\<lparr>rw_server := s'\<rparr>))"
    using wake_closed [OF w, of ch] nxt by (simp add: same)
qed (use wake_no_empty [OF w] wake_distinct [OF w] in \<open>simp_all add: same\<close>)

lemma wake_inv_mail:
  assumes "wake_inv w" and "mail_part s' = mail_part (rw_server w)"
    and "sv_next (rw_server w) \<le> sv_next s'"
  shows "wake_inv (w\<lparr>rw_server := s'\<rparr>)"
  using assms by (intro wake_inv_same_waiters) (simp_all add: mail_part_def held_for_def)

lemma ack_frame [simp]:
  "sv_waiters (snd (ack a i d s)) = sv_waiters s" "sv_closed (snd (ack a i d s)) = sv_closed s"
  "sv_next (snd (ack a i d s)) = sv_next s"
  by (simp_all add: ack_def Let_def split: option.split)

lemma wake_inv_ack:
  assumes "wake_inv w"
  shows "wake_inv (w\<lparr>rw_server := snd (ack a i d (rw_server w))\<rparr>)"
  using assms
proof (rule wake_inv_same_waiters)
  fix b d'
  assume none: "held_for (rw_server w) b d' = []"
  then show "held_for (snd (ack a i d (rw_server w))) b d' = []"
    using broker.held_ack_other [of b a d' d i "rw_server w"]
      broker.held_ack_subseq [of a i d "rw_server w" d']
    by (cases "b = a") (auto simp: broker_ack_def)
qed simp_all

text \<open>A post closes the waiters of its receiver and removes them from the table.\<close>

lemma push_mail:
  "sv_waiters (push_envelope a e s) = (sv_waiters s)(envelope_waiter_key a (env_to e) := None)"
  "sv_closed (push_envelope a e s)
     = sv_closed s \<union> set (slice_at (sv_waiters s) (envelope_waiter_key a (env_to e)))"
  "sv_next (push_envelope a e s) = sv_next s"
  by (simp_all add: push_envelope_def notify_waiters_def Let_def)

lemma held_push:
  "held_for (push_envelope a e s) b d
     = held_for s b d @ (if b = a \<and> env_to e = d then [e] else [])"
  by (simp add: held_for_def)

lemma wake_inv_push:
  assumes w: "wake_inv w"
  shows "wake_inv (w\<lparr>rw_server := push_envelope a e (rw_server w)\<rparr>)" (is "wake_inv ?w")
proof (rule wake_invI)
  let ?key = "envelope_waiter_key a (env_to e)"
  fix k ch
  assume ch: "ch \<in> set (slice_at (sv_waiters (rw_server ?w)) k)"
  then have k: "k \<noteq> ?key" "ch \<in> set (slice_at (sv_waiters (rw_server w)) k)"
    by (auto simp: push_mail split: if_splits)
  then have "ch \<notin> set (slice_at (sv_waiters (rw_server w)) ?key)"
    using wake_waiter [OF w] waiter_key_unique by blast
  then show "waiter_ok ?w k ch"
    using wake_waiter [OF w k(2)] by (auto simp: waiter_ok_def push_mail)
next
  fix ch
  assume "ch \<in> sv_closed (rw_server ?w)"
  then show "ch < sv_next (rw_server ?w)"
    using wake_closed [OF w, of ch] wake_waiter [OF w, of ch] wake_blocked [OF w, of ch]
    by (auto simp: push_mail waiter_ok_def waits_ok_def)
next
  fix ch b d l
  assume "rw_blocked ?w ch = Some (b, d, l)"
  then show "waits_ok (rw_server ?w) ch b d l"
    using wake_blocked [OF w, of ch b d l] by (auto simp: waits_ok_def push_mail held_push)
qed (use wake_no_empty [OF w] wake_distinct [OF w] in \<open>auto simp: push_mail\<close>)

text \<open>A blocked poll adds a fresh channel.\<close>

lemma list_or_wait_BlockedD:
  assumes "list_or_wait account device limit wait s = (Blocked ch, s')"
  shows "ch = sv_next s" "trim_space device \<noteq> []" "list_locked s account (trim_space device) limit = []"
    "s' = s\<lparr>sv_waiters := (sv_waiters s)(envelope_waiter_key account (trim_space device) \<mapsto>
             slice_at (sv_waiters s) (envelope_waiter_key account (trim_space device)) @ [sv_next s]),
           sv_next := Suc (sv_next s)\<rparr>"
  using assms by (auto simp: list_or_wait_def envelope_waiter_key_def Let_def split: if_splits)

lemma wake_inv_blocked:
  assumes w: "wake_inv w"
    and b: "list_or_wait account device (list_limit v) wait (rw_server w) = (Blocked ch, s')"
  shows "wake_inv (w\<lparr>rw_server := s',
    rw_blocked := (rw_blocked w)(ch \<mapsto> (account, trim_space device, list_limit v))\<rparr>)"
    (is "wake_inv ?w")
proof (rule wake_invI)
  let ?key = "envelope_waiter_key account (trim_space device)"
  note D = list_or_wait_BlockedD [OF b]
  have fresh: "ch' \<noteq> sv_next (rw_server w)"
    if "ch' \<in> set (slice_at (sv_waiters (rw_server w)) k)" for ch' k
    using wake_waiter [OF w that] wake_blocked [OF w] by (auto simp: waiter_ok_def waits_ok_def)
  have closed: "ch' \<noteq> sv_next (rw_server w)" if "ch' \<in> sv_closed (rw_server w)" for ch'
    using wake_closed [OF w that] by simp
  show "no_empty_slice (sv_waiters (rw_server ?w))"
    using wake_no_empty [OF w] by (auto simp: D no_empty_slice_def)
  show "distinct (slice_at (sv_waiters (rw_server ?w)) k)" for k
    using wake_distinct [OF w] fresh by (auto simp: D)
  show "waiter_ok ?w k ch'" if "ch' \<in> set (slice_at (sv_waiters (rw_server ?w)) k)" for k ch'
    using that wake_waiter [OF w, of ch' k] fresh [of ch' k] closed [of ch']
    by (auto simp: D waiter_ok_def split: if_splits)
  show "ch' < sv_next (rw_server ?w)" if "ch' \<in> sv_closed (rw_server ?w)" for ch'
    using that wake_closed [OF w, of ch'] by (simp add: D)
  have none: "held_for (rw_server w) account (trim_space device) = []"
    using D(3) list_limit_range [of v] by (simp add: list_locked_eq held_for_def)
  show "waits_ok (rw_server ?w) ch' a d l" if "rw_blocked ?w ch' = Some (a, d, l)" for ch' a d l
    using that wake_blocked [OF w, of ch' a d l] list_limit_range [of v] none D(2)
    by (auto simp: D(1,4) waits_ok_def held_for_def split: if_splits)
qed

text \<open>A request that leaves its \<open>select\<close> takes its channel with it.\<close>

lemma wake_inv_leave:
  assumes w: "wake_inv w" and b: "rw_blocked w ch = Some (a, d, l)"
  shows "wake_inv (w\<lparr>rw_server := remove_waiter (envelope_waiter_key a d) ch (rw_server w),
    rw_blocked := (rw_blocked w)(ch := None)\<rparr>)" (is "wake_inv ?w")
proof (rule wake_invI)
  let ?key = "envelope_waiter_key a d"
  have slices: "slice_at (sv_waiters (rw_server ?w)) k = remove1 ch (slice_at (sv_waiters (rw_server w)) k)" for k
  proof (cases "k = ?key")
    case False
    then have "ch \<notin> set (slice_at (sv_waiters (rw_server w)) k)"
      using wake_waiter [OF w, of ch k] b by (auto simp: waiter_ok_def)
    then show ?thesis
      using False by (simp add: remove_waiter_def remove1_idem)
  qed (simp add: remove_waiter_def remove_first_eq_remove1)
  have same: "sv_closed (rw_server ?w) = sv_closed (rw_server w)"
    "sv_next (rw_server ?w) = sv_next (rw_server w)" "sv_queues (rw_server ?w) = sv_queues (rw_server w)"
    by (simp_all add: remove_waiter_def)
  show "no_empty_slice (sv_waiters (rw_server ?w))"
    using wake_no_empty [OF w] by (auto simp: remove_waiter_def)
  show "distinct (slice_at (sv_waiters (rw_server ?w)) k)" for k
    unfolding slices using wake_distinct [OF w] by (rule distinct_remove1)
  show "waiter_ok ?w k ch'" if "ch' \<in> set (slice_at (sv_waiters (rw_server ?w)) k)" for k ch'
    using that wake_waiter [OF w, of ch' k] wake_distinct [OF w, of k] unfolding slices
    by (auto simp: waiter_ok_def same remove_waiter_def set_remove1_eq)
  show "ch' < sv_next (rw_server ?w)" if "ch' \<in> sv_closed (rw_server ?w)" for ch'
    using that wake_closed [OF w, of ch'] unfolding same by simp
  show "waits_ok (rw_server ?w) ch' a' d' l'" if "rw_blocked ?w ch' = Some (a', d', l')" for ch' a' d' l'
  proof -
    have "ch' \<noteq> ch" "waits_ok (rw_server w) ch' a' d' l'"
      using that wake_blocked [OF w, of ch'] by (auto split: if_splits)
    then show ?thesis
      unfolding waits_ok_def slices same held_for_def by simp
  qed
qed

lemma wake_inv_notified:
  assumes w: "wake_inv w" and c: "ch \<in> sv_closed (rw_server w)"
  shows "wake_inv (w\<lparr>rw_blocked := (rw_blocked w)(ch := None)\<rparr>)" (is "wake_inv ?w")
proof (rule wake_invI)
  show "waiter_ok ?w k ch'" if "ch' \<in> set (slice_at (sv_waiters (rw_server ?w)) k)" for k ch'
    using that wake_waiter [OF w, of ch' k] c by (auto simp: waiter_ok_def)
  show "waits_ok (rw_server ?w) ch' a d l" if "rw_blocked ?w ch' = Some (a, d, l)" for ch' a d l
    using that wake_blocked [OF w, of ch'] by (auto split: if_splits)
qed (use wake_no_empty [OF w] wake_distinct [OF w] wake_closed [OF w] in simp_all)

lemma wake_inv_step:
  assumes "relay_step w w'" and w: "wake_inv w"
  shows "wake_inv w'"
  using assms(1)
proof cases
  case (post now rid account e r s')
  then have "s' = rw_server w \<or> s' = push_envelope account (stamp_envelope now rid e) (rw_server w)"
    by (auto simp: enqueue_def Let_def split: option.splits)
  then show ?thesis
    using post(1) w wake_inv_push [OF w] by auto
next
  case (acked account ident device r s')
  then show ?thesis
    using wake_inv_ack [OF w, of account ident device] by simp
next
  case (polled account device v wait out s')
  then have "s' = rw_server w"
    by (auto simp: list_or_wait_def Let_def split: if_splits)
  then show ?thesis
    using polled(1) w by simp
next
  case (blocked account device v wait ch s')
  then show ?thesis
    using wake_inv_blocked [OF w] by simp
next
  case (cancelled ch account device limit out s')
  then have "trim_space device = device"
    using wake_blocked [OF w cancelled(2)] by (simp add: waits_ok_def)
  then show ?thesis
    using cancelled wake_inv_leave [OF w cancelled(2)] by (auto simp: wait_cancelled_def)
next
  case (timed_out ch account device limit out s')
  then have "trim_space device = device"
    using wake_blocked [OF w timed_out(2)] by (simp add: waits_ok_def)
  then show ?thesis
    using timed_out wake_inv_leave [OF w timed_out(2)] by (auto simp: wait_timeout_def Let_def)
next
  case (notified ch account device limit)
  then show ?thesis
    using wake_inv_notified [OF w] by simp
next
  case (connected account device c s')
  then show ?thesis
    using wake_inv_mail [OF w, of s'] mail_ws_connect [of account device "rw_server w"] by simp
next
  case (ws_frame pick now rid c f)
  then show ?thesis
    using wake_inv_mail [OF w] by simp
next
  case (ws_written ok c r s')
  then show ?thesis
    using wake_inv_mail [OF w, of s'] mail_ws_write [of ok c "rw_server w"] by simp
next
  case (ws_pinged ok c)
  then show ?thesis
    using wake_inv_mail [OF w] by simp
next
  case (disconnected c)
  then show ?thesis
    using wake_inv_mail [OF w] by simp
qed

lemma reachable_wake_inv: "relay_reachable w \<Longrightarrow> wake_inv w"
proof (induction rule: relay_reachable.induct)
  case (start relay_id secrets max_ttl s)
  then show ?case
    by (auto simp: new_server_def wake_inv_def Let_def split: if_splits)
qed (rule wake_inv_step)

text \<open>
  C1: No lost wake-up. In every reachable world, a long-poll request that is blocked while an
  envelope is held for its device has had its channel closed, so it can leave its \<open>select\<close> at
  once. Leaving by the channel it answers with the oldest held envelopes; leaving by the timer it
  answers with the oldest of those that are held when it lists, whatever other requests did
  since it removed its waiter; only when its context ends does it answer with an empty list, and
  then everything held stays held.
\<close>

theorem no_lost_wakeup:
  assumes "relay_reachable w" and "rw_blocked w ch = Some (account, device, limit)"
    and "held_for (rw_server w) account device \<noteq> []"
  shows "ch \<in> sv_closed (rw_server w)
     \<and> wait_notified account device limit (rw_server w)
         = take limit (held_for (rw_server w) account device)
     \<and> wait_notified account device limit (rw_server w) \<noteq> []
     \<and> (\<forall>other. let (out, s) = wait_timeout account device limit ch other (rw_server w) in
          out = take limit (held_for s account device) \<and> (out = [] \<longleftrightarrow> held_for s account device = []))
     \<and> fst (wait_timeout account device limit ch id (rw_server w))
         = take limit (held_for (rw_server w) account device)
     \<and> fst (wait_cancelled account device ch (rw_server w)) = []
     \<and> held_for (snd (wait_cancelled account device ch (rw_server w))) account device
         = held_for (rw_server w) account device"
proof -
  have "waits_ok (rw_server w) ch account device limit"
    using wake_blocked [OF reachable_wake_inv] assms(1,2) by blast
  then have ok: "ch \<in> sv_closed (rw_server w)" "trim_space device = device" "device \<noteq> []" "0 < limit"
    using assms(3) by (auto simp: waits_ok_def)
  have listed: "list_envelopes s account device limit = take limit (held_for s account device)" for s
    using ok by (simp add: list_envelopes_def list_locked_eq held_for_def Let_def)
  have same: "held_for (remove_waiter k c s) a d = held_for s a d" for k c s a d
    by (simp add: remove_waiter_def held_for_def)
  show ?thesis
    using ok assms(3) by (simp add: listed same wait_notified_def wait_timeout_def wait_cancelled_def Let_def)
qed

text \<open>
  The waiter table holds exactly the requests that still wait. In every reachable world a
  channel in the table is open (so \<open>notifyWaitersLocked\<close> never closes a channel twice, which
  would panic), is listed once, under its request's key, and belongs to a blocked request; no
  key keeps an empty slice, so the table is empty when no request is blocked.
\<close>

theorem waiter_table_exact:
  assumes "relay_reachable w"
  shows "(\<forall>key ch. ch \<in> set (slice_at (sv_waiters (rw_server w)) key) \<longrightarrow>
            ch \<notin> sv_closed (rw_server w) \<and>
            (\<exists>a d l. rw_blocked w ch = Some (a, d, l) \<and> key = envelope_waiter_key a d)) \<and>
         (\<forall>key. distinct (slice_at (sv_waiters (rw_server w)) key)) \<and>
         (rw_blocked w = Map.empty \<longrightarrow> sv_waiters (rw_server w) = Map.empty)"
proof -
  note w = reachable_wake_inv [OF assms]
  have "sv_waiters (rw_server w) k = None" if "rw_blocked w = Map.empty" for k
  proof -
    have "slice_at (sv_waiters (rw_server w)) k = []"
      using wake_waiter [OF w, of _ k] that by (auto simp: waiter_ok_def intro: list.set_cases)
        (metis list.set_intros(1) neq_Nil_conv)
    then show ?thesis
      using wake_no_empty [OF w] by (auto simp: no_empty_slice_def slice_at_def split: option.splits)
  qed
  then show ?thesis
    using wake_waiter [OF w] wake_distinct [OF w] by (auto simp: waiter_ok_def)
qed

section \<open>Authentication\<close>

lemma account_from_requestD:
  assumes "account_from_request env s rq = Inr account"
  obtains token p where "has_prefix (trim_space (rq_authorization rq)) ''Bearer ''"
    "token = trim_space (trim_prefix (trim_space (rq_authorization rq)) ''Bearer '')" "token \<noteq> []"
    "verify_credential (re_mac env) (re_unmarshal env) token
      \<lparr>vo_relay_id = sv_relay_id s, vo_secrets = sv_secrets s, vo_now = re_clock env,
       vo_max_ttl = sv_max_ttl s, vo_max_skew = 0\<rparr> = Inr p"
    "account = cp_account_id_hash p"
  using assms by (auto simp: account_from_request_def Let_def split: if_splits sum.splits)

lemma queues_ws_connect [simp]: "sv_queues (snd (ws_connect account device s)) = sv_queues s"
  using mail_ws_connect(1) [of account device s] by (simp add: mail_part_def)

lemma queues_list_or_wait:
  "list_or_wait account device limit wait s = (r, s') \<Longrightarrow> sv_queues s' = sv_queues s"
  by (auto simp: list_or_wait_def Let_def split: if_splits)

lemma queues_enqueue_other:
  "b \<noteq> account \<Longrightarrow> enqueue now rid account e s = (r, s') \<Longrightarrow> sv_queues s' b = sv_queues s b"
  by (auto simp: enqueue_def push_envelope_def Let_def split: option.splits)

lemma queues_ack_other:
  "b \<noteq> account \<Longrightarrow> ack account i d s = (r, s') \<Longrightarrow> sv_queues s' b = sv_queues s b"
  by (auto simp: ack_def Let_def split: if_splits option.splits)

lemma queues_handle_envelopes:
  "b \<noteq> account \<Longrightarrow> sv_queues (snd (handle_envelopes env account rq s)) b = sv_queues s b"
  using queues_list_or_wait queues_enqueue_other
  by (auto simp: handle_envelopes_def Let_def split: sum.split prod.split poll.split)

lemma queues_handle_envelope_action:
  "b \<noteq> account \<Longrightarrow> sv_queues (snd (handle_envelope_action env account rq s)) b = sv_queues s b"
  using queues_ack_other
  by (auto simp: handle_envelope_action_def Let_def split: sum.split prod.split option.split)

lemma queues_handle_connect [simp]:
  "sv_queues (snd (handle_relay_connect env account rq s)) = sv_queues s"
  by (simp add: handle_relay_connect_def Let_def split_beta)

text \<open>
  C2: Authentication gates every state change. If a request changes the server at all, its own
  authorization header carries a bearer token that \<open>VerifyCredential\<close> accepts for this relay and
  its secrets at the time of the request; and then it can change the queue of that credential's
  account only.
\<close>

theorem authenticated_effects:
  assumes "handle_request env rq s = (resp, s')" and "s' \<noteq> s"
  shows "\<exists>token p. has_prefix (trim_space (rq_authorization rq)) ''Bearer '' \<and>
         token = trim_space (trim_prefix (trim_space (rq_authorization rq)) ''Bearer '') \<and> token \<noteq> [] \<and>
         verify_credential (re_mac env) (re_unmarshal env) token
           \<lparr>vo_relay_id = sv_relay_id s, vo_secrets = sv_secrets s, vo_now = re_clock env,
            vo_max_ttl = sv_max_ttl s, vo_max_skew = 0\<rparr> = Inr p \<and>
         (\<forall>b. b \<noteq> cp_account_id_hash p \<longrightarrow> sv_queues s' b = sv_queues s b)"
proof -
  have *: "\<exists>account. account_from_request env s rq = Inr account \<and>
      (s' = snd (handle_relay_connect env account rq s)
       \<or> s' = snd (handle_envelopes env account rq s)
       \<or> s' = snd (handle_envelope_action env account rq s))"
    using assms
    by (auto simp: handle_request_def route_def with_account_def split: if_splits sum.splits)
  then obtain account where a: "account_from_request env s rq = Inr account"
    and s': "\<And>b. b \<noteq> account \<Longrightarrow> sv_queues s' b = sv_queues s b"
    using queues_handle_envelopes queues_handle_envelope_action queues_handle_connect by metis
  from a show ?thesis
    by (rule account_from_requestD) (use s' in blast)
qed

section \<open>Websocket delivery\<close>

text \<open>
  The registry: every registered client exists and is registered under its own key, once; a
  send buffer never exceeds its capacity.
\<close>

definition registry_inv :: "server \<Rightarrow> bool" where
  "registry_inv s \<longleftrightarrow>
     no_empty_slice (sv_registry s) \<and>
     (\<forall>k c. c \<in> set (slice_at (sv_registry s) k) \<longrightarrow>
        (\<exists>w. sv_clients s c = Some w \<and> k = envelope_waiter_key (wc_account w) (wc_device w))) \<and>
     (\<forall>k. distinct (slice_at (sv_registry s) k)) \<and>
     (\<forall>c w. sv_clients s c = Some w \<longrightarrow> c < sv_next s \<and> length (wc_buffer w) \<le> ws_send_buffer)"

text \<open>Two states whose clients differ in buffers and \<open>done\<close> flags only.\<close>

definition same_clients :: "server \<Rightarrow> server \<Rightarrow> bool" where
  "same_clients s s' \<longleftrightarrow>
     (\<forall>c. map_option (\<lambda>w. (wc_account w, wc_device w)) (sv_clients s' c)
        = map_option (\<lambda>w. (wc_account w, wc_device w)) (sv_clients s c))"

definition buffer_of :: "server \<Rightarrow> nat \<Rightarrow> ws_frame list" where
  "buffer_of s c = (case sv_clients s c of None \<Rightarrow> [] | Some w \<Rightarrow> wc_buffer w)"

lemma close_client_facts [simp]:
  "sv_registry (close_client c s) = sv_registry s"
  "buffer_of (close_client c s) x = buffer_of s x"
  "same_clients s (close_client c s)"
  by (auto simp: close_client_def buffer_of_def same_clients_def split: option.splits)

lemma unregister_facts [simp]:
  "sv_clients (unregister_client c s) = sv_clients s"
  "buffer_of (unregister_client c s) x = buffer_of s x"
  "same_clients s (unregister_client c s)"
  by (auto simp: unregister_client_def buffer_of_def same_clients_def Let_def split: option.splits)

lemma send_frame_facts [simp]:
  "sv_registry (snd (send_frame pick c f s)) = sv_registry s"
  "same_clients s (snd (send_frame pick c f s))"
  by (auto simp: send_frame_def same_clients_def Let_def split: option.splits)

lemma send_frame_buffer:
  "buffer_of (snd (send_frame pick c f s)) x
     = buffer_of s x @ (if x = c \<and> fst (send_frame pick c f s) then [f] else [])"
  by (auto simp: send_frame_def buffer_of_def Let_def split: option.splits)

lemma same_clients_trans: "same_clients s s1 \<Longrightarrow> same_clients s1 s2 \<Longrightarrow> same_clients s s2"
  by (simp add: same_clients_def)

lemma same_clients_refl [simp]: "same_clients s s"
  by (simp add: same_clients_def)

lemma same_clients_deliver_one: "same_clients s (deliver_one pick f c s)"
proof -
  let ?s = "snd (send_frame (pick c) c f s)"
  have "same_clients ?s (close_client c (unregister_client c ?s))"
    by (rule same_clients_trans [OF unregister_facts(3) close_client_facts(3)])
  then show ?thesis
    using same_clients_trans [OF send_frame_facts(2)] by (simp add: deliver_one_eq)
qed

lemma buffer_deliver_one:
  "buffer_of (deliver_one pick f c s) x = buffer_of s x
     \<or> x = c \<and> buffer_of (deliver_one pick f c s) x = buffer_of s x @ [f]"
  by (simp add: deliver_one_eq send_frame_buffer)

lemmas deliver_one_facts = same_clients_deliver_one buffer_deliver_one

lemma fold_deliver_facts:
  "distinct cs \<Longrightarrow> same_clients s (fold (deliver_one pick f) cs s) \<and>
     (buffer_of (fold (deliver_one pick f) cs s) x = buffer_of s x
      \<or> x \<in> set cs \<and> buffer_of (fold (deliver_one pick f) cs s) x = buffer_of s x @ [f])"
proof (induction cs arbitrary: s)
  case (Cons c cs)
  have "same_clients s (fold (deliver_one pick f) (c # cs) s)"
    using Cons.IH [of "deliver_one pick f c s"] Cons.prems deliver_one_facts(1) [of s pick f c]
    by (auto intro: same_clients_trans)
  moreover have "buffer_of (fold (deliver_one pick f) (c # cs) s) x = buffer_of s x
      \<or> x \<in> set (c # cs) \<and> buffer_of (fold (deliver_one pick f) (c # cs) s) x = buffer_of s x @ [f]"
    using Cons.IH [of "deliver_one pick f c s"] Cons.prems deliver_one_facts(2) [of pick f c s x]
    by auto
  ultimately show ?case ..
qed simp

lemma registry_invI:
  assumes "no_empty_slice (sv_registry s)"
    and "\<And>k c. c \<in> set (slice_at (sv_registry s) k) \<Longrightarrow>
        \<exists>w. sv_clients s c = Some w \<and> k = envelope_waiter_key (wc_account w) (wc_device w)"
    and "\<And>k. distinct (slice_at (sv_registry s) k)"
    and "\<And>c w. sv_clients s c = Some w \<Longrightarrow> c < sv_next s \<and> length (wc_buffer w) \<le> ws_send_buffer"
  shows "registry_inv s"
  using assms by (simp add: registry_inv_def)

lemma registry_invD:
  assumes "registry_inv s"
  shows reg_no_empty: "no_empty_slice (sv_registry s)"
    and reg_client: "c \<in> set (slice_at (sv_registry s) k) \<Longrightarrow>
        \<exists>w. sv_clients s c = Some w \<and> k = envelope_waiter_key (wc_account w) (wc_device w)"
    and reg_distinct: "distinct (slice_at (sv_registry s) k)"
    and reg_bound: "sv_clients s c = Some w \<Longrightarrow> c < sv_next s \<and> length (wc_buffer w) \<le> ws_send_buffer"
  using assms by (auto simp: registry_inv_def)

lemma registry_inv_frame:
  assumes "registry_inv s" "sv_registry s' = sv_registry s" "sv_clients s' = sv_clients s"
    "sv_next s \<le> sv_next s'"
  shows "registry_inv s'"
  using assms by (fastforce simp: registry_inv_def)

text \<open>Updating a client without touching its account, its device or overfilling its buffer.\<close>

lemma registry_inv_client:
  assumes s: "registry_inv s" and c: "sv_clients s c = Some w"
    and w': "wc_account w' = wc_account w" "wc_device w' = wc_device w"
      "length (wc_buffer w') \<le> ws_send_buffer"
  shows "registry_inv (s\<lparr>sv_clients := (sv_clients s)(c \<mapsto> w')\<rparr>)" (is "registry_inv ?s")
proof (rule registry_invI)
  show "\<exists>u. sv_clients ?s x = Some u \<and> k = envelope_waiter_key (wc_account u) (wc_device u)"
    if "x \<in> set (slice_at (sv_registry ?s) k)" for k x
    using reg_client [OF s, of x k] that c w' by auto
  show "x < sv_next ?s \<and> length (wc_buffer u) \<le> ws_send_buffer" if "sv_clients ?s x = Some u" for x u
    using reg_bound [OF s, of x] reg_bound [OF s c] that w'(3) by (auto split: if_splits)
qed (use reg_no_empty [OF s] reg_distinct [OF s] in simp_all)

lemma registry_inv_close: "registry_inv s \<Longrightarrow> registry_inv (close_client c s)"
  using reg_bound [of s c] by (auto simp: close_client_def intro!: registry_inv_client split: option.split)

lemma registry_inv_send: "registry_inv s \<Longrightarrow> registry_inv (snd (send_frame pick c f s))"
  by (auto simp: send_frame_def Let_def intro!: registry_inv_client split: option.split)

lemma registry_inv_slices:
  assumes s: "registry_inv s" and e: "no_empty_slice r"
    and sub: "\<And>k. set (slice_at r k) \<subseteq> set (slice_at (sv_registry s) k)" "\<And>k. distinct (slice_at r k)"
  shows "registry_inv (s\<lparr>sv_registry := r\<rparr>)"
proof (rule registry_invI)
  show "\<exists>w. sv_clients (s\<lparr>sv_registry := r\<rparr>) c = Some w
      \<and> k = envelope_waiter_key (wc_account w) (wc_device w)"
    if "c \<in> set (slice_at (sv_registry (s\<lparr>sv_registry := r\<rparr>)) k)" for k c
    using reg_client [OF s, of c k] that sub(1) [of k] by auto
qed (use e sub(2) reg_bound [OF s] in simp_all)

lemma registry_inv_unregister:
  assumes s: "registry_inv s"
  shows "registry_inv (unregister_client c s)"
proof -
  have "registry_inv (s\<lparr>sv_registry := put_or_delete (sv_registry s) k (removeAll c (slice_at (sv_registry s) k))\<rparr>)"
    for k
    using reg_no_empty [OF s] reg_distinct [OF s]
    by (intro registry_inv_slices [OF s]) (auto simp: distinct_removeAll)
  then show ?thesis
    using s by (simp add: unregister_client_def Let_def split: option.split)
qed

lemma registry_inv_connect:
  assumes s: "registry_inv s"
  shows "registry_inv (snd (ws_connect account device s))" (is "registry_inv ?s")
proof (rule registry_invI)
  let ?key = "envelope_waiter_key account device"
  let ?w = "\<lparr>wc_account = account, wc_device = device, wc_buffer = [], wc_done = False\<rparr>"
  have fresh: "sv_next s \<notin> set (slice_at (sv_registry s) k)" for k
    using reg_client [OF s, of "sv_next s" k] reg_bound [OF s, of "sv_next s"] by auto
  then have eq: "sv_registry ?s = (sv_registry s)(?key \<mapsto> slice_at (sv_registry s) ?key @ [sv_next s])"
    "sv_clients ?s = (sv_clients s)(sv_next s \<mapsto> ?w)" "sv_next ?s = Suc (sv_next s)"
    by (simp_all add: ws_connect_def register_client_def Let_def)
  show "no_empty_slice (sv_registry ?s)"
    using reg_no_empty [OF s] by (auto simp: eq no_empty_slice_def)
  show "distinct (slice_at (sv_registry ?s) k)" for k
    using reg_distinct [OF s] fresh by (auto simp: eq)
  show "\<exists>w. sv_clients ?s c = Some w \<and> k = envelope_waiter_key (wc_account w) (wc_device w)"
    if "c \<in> set (slice_at (sv_registry ?s) k)" for k c
    using that reg_client [OF s, of c k] fresh [of k] by (auto simp: eq split: if_splits)
  show "c < sv_next ?s \<and> length (wc_buffer w) \<le> ws_send_buffer" if "sv_clients ?s c = Some w" for c w
    using that reg_bound [OF s, of c w] by (auto simp: eq split: if_splits)
qed

lemma registry_inv_deliver: "registry_inv s \<Longrightarrow> registry_inv (deliver_envelope pick account e s)"
proof -
  assume s: "registry_inv s"
  have one: "registry_inv (deliver_one pick f c s)" if "registry_inv s" for f c s
    using that by (simp add: deliver_one_eq registry_inv_send registry_inv_close registry_inv_unregister)
  have "registry_inv (fold (deliver_one pick f) cs s)" for f cs
    using s by (induction cs arbitrary: s) (simp_all add: one)
  then show ?thesis
    by (simp add: deliver_envelope_def)
qed

lemma registry_inv_forward:
  "registry_inv s \<Longrightarrow> registry_inv (snd (forward_envelope pick now rid account from e s))"
  by (simp add: forward_envelope_def Let_def registry_inv_deliver split: option.split)

lemma registry_inv_read:
  assumes s: "registry_inv s"
  shows "registry_inv (ws_read pick now rid c f s)"
proof -
  have "registry_inv s1" if "forward_envelope pick now rid a d e s = (r, s1)" for a d e r s1
    using registry_inv_forward [OF s, of pick now rid a d e] that by simp
  then show ?thesis
    using s by (auto simp: ws_read_def send_error_def registry_inv_send
        split: option.split prod.split sum.split bool.split)
qed

lemma registry_inv_write:
  assumes s: "registry_inv s"
  shows "registry_inv (snd (ws_write_next ok c s))"
proof (cases "sv_clients s c")
  case (Some w)
  have "registry_inv (s\<lparr>sv_clients := (sv_clients s)(c \<mapsto> w\<lparr>wc_buffer := fs\<rparr>)\<rparr>)"
    if "wc_buffer w = f # fs" for f fs
    using reg_bound [OF s Some] that by (intro registry_inv_client [OF s Some]) simp_all
  then show ?thesis
    using s Some by (auto simp: ws_write_next_def Let_def registry_inv_close split: list.split)
qed (simp add: s ws_write_next_def)

lemma registry_mail_ops [frame]:
  "sv_registry (snd (enqueue now rid a e s)) = sv_registry s"
  "sv_clients (snd (enqueue now rid a e s)) = sv_clients s"
  "sv_next (snd (enqueue now rid a e s)) = sv_next s"
  "sv_registry (snd (ack a i d s)) = sv_registry s"
  "sv_clients (snd (ack a i d s)) = sv_clients s"
  "sv_registry (remove_waiter k ch s) = sv_registry s"
  "sv_clients (remove_waiter k ch s) = sv_clients s"
  "sv_next (remove_waiter k ch s) = sv_next s"
  "sv_registry (snd (list_or_wait a d l wt s)) = sv_registry s"
  "sv_clients (snd (list_or_wait a d l wt s)) = sv_clients s"
  "sv_next s \<le> sv_next (snd (list_or_wait a d l wt s))"
  by (simp_all add: enqueue_def push_envelope_def notify_waiters_def ack_def remove_waiter_def
      list_or_wait_def Let_def split: option.split)

lemma registry_inv_mail_ops:
  assumes "registry_inv s"
  shows "enqueue now rid a e s = (r, s') \<Longrightarrow> registry_inv s'"
    and "ack a i d s = (r2, s') \<Longrightarrow> registry_inv s'"
    and "list_or_wait a d l wt s = (r3, s') \<Longrightarrow> registry_inv s'"
    and "registry_inv (remove_waiter k ch s)"
proof -
  show "enqueue now rid a e s = (r, s') \<Longrightarrow> registry_inv s'"
    using registry_inv_frame [OF assms, of "snd (enqueue now rid a e s)"] registry_mail_ops(1-3) [where a=a and now=now and rid=rid and e=e and s=s]
    by simp
  show "ack a i d s = (r2, s') \<Longrightarrow> registry_inv s'"
    using registry_inv_frame [OF assms, of "snd (ack a i d s)"] registry_mail_ops(4,5) [where a=a and i=i and d=d and s=s]
      ack_frame(3) [of a i d s] by simp
  show "list_or_wait a d l wt s = (r3, s') \<Longrightarrow> registry_inv s'"
    using registry_inv_frame [OF assms, of "snd (list_or_wait a d l wt s)"]
      registry_mail_ops(9-11) [where a=a and d=d and l=l and wt=wt and s=s] by simp
  show "registry_inv (remove_waiter k ch s)"
    by (rule registry_inv_frame [OF assms]) (simp_all add: frame)
qed

lemma registry_inv_step:
  assumes "relay_step w w'" and s: "registry_inv (rw_server w)"
  shows "registry_inv (rw_server w')"
  using assms(1)
proof cases
  case (cancelled ch account device limit out s')
  then show ?thesis
    using registry_inv_mail_ops(4) [OF s] by (auto simp: wait_cancelled_def)
next
  case (timed_out ch account device limit out s')
  then show ?thesis
    using registry_inv_mail_ops(4) [OF s] by (auto simp: wait_timeout_def Let_def)
next
  case (connected account device c s')
  then show ?thesis
    using registry_inv_connect [OF s, of account device] by simp
next
  case (ws_written ok c r s')
  then show ?thesis
    using registry_inv_write [OF s, of ok c] by simp
qed (use registry_inv_mail_ops(1-3) [OF s] registry_inv_read [OF s] registry_inv_close [OF s]
      registry_inv_close [OF registry_inv_unregister [OF s]] s
    in \<open>auto simp: ws_ping_def ws_disconnect_def\<close>)

lemma reachable_registry_inv: "relay_reachable w \<Longrightarrow> registry_inv (rw_server w)"
proof (induction rule: relay_reachable.induct)
  case (start relay_id secrets max_ttl s)
  then show ?case
    by (auto simp: new_server_def registry_inv_def Let_def split: if_splits)
qed (rule registry_inv_step)

text \<open>The key tells accounts apart as long as account hashes hold no NUL byte.\<close>

lemma set_trim_space: "set (trim_space s) \<subseteq> set s"
proof -
  obtain pre where "s = pre @ trim_left s"
    using strip_spaces_suffix by (metis trim_left_def)
  moreover obtain suf where "trim_left s = trim_space s @ suf"
    using trim_right_prefix by (metis trim_space_def)
  ultimately show ?thesis
    by (metis UnCI set_append subsetI)
qed

lemma first_sep_unique:
  "x \<notin> set a \<Longrightarrow> x \<notin> set b \<Longrightarrow> a @ x # d = b @ x # e \<Longrightarrow> a = b \<and> d = e"
proof (induction a arbitrary: b)
  case Nil
  then show ?case by (cases b) auto
next
  case (Cons y a)
  then show ?case by (cases b) auto
qed

lemma envelope_waiter_key_inj:
  assumes "envelope_waiter_key a d = envelope_waiter_key b e"
    and "CHR 0x00 \<notin> set a" "CHR 0x00 \<notin> set b"
  shows "trim_space a = trim_space b \<and> trim_space d = trim_space e"
proof -
  have "CHR 0x00 \<notin> set (trim_space a)" "CHR 0x00 \<notin> set (trim_space b)"
    using set_trim_space assms(2,3) by blast+
  then show ?thesis
    using assms(1) first_sep_unique by (simp add: envelope_waiter_key_def)
qed

text \<open>
  C8: Websocket delivery. When a forward succeeds in a reachable world, the delivered
  envelope is valid and carries the sending connection's own device id as its sender, it is
  appended to the buffers of some clients and no other buffer changes; and, account hashes
  having no NUL byte, every such client is connected under the sender's account as the
  device the envelope is addressed to.
\<close>

theorem ws_delivery_isolated:
  assumes reach: "relay_reachable w"
    and fwd: "forward_envelope pick now rid account from e0 (rw_server w) = (Inr e, s')"
    and nul: "CHR 0x00 \<notin> set account"
    and nuls: "\<And>c cl. sv_clients (rw_server w) c = Some cl \<Longrightarrow> CHR 0x00 \<notin> set (wc_account cl)"
  shows "validate_envelope e = None \<and> env_from e = trim_space from \<and>
    (\<forall>c. buffer_of s' c = buffer_of (rw_server w) c \<or>
       buffer_of s' c = buffer_of (rw_server w) c @ [envelope_frame e] \<and>
       (\<exists>cl. sv_clients (rw_server w) c = Some cl \<and> trim_space (wc_account cl) = trim_space account
          \<and> trim_space (wc_device cl) = trim_space (env_to e)))"
proof -
  note inv = reachable_registry_inv [OF reach]
  let ?cs = "slice_at (sv_registry (rw_server w)) (envelope_waiter_key account (env_to e))"
  have ok: "validate_envelope e = None" "env_from e = trim_space from"
    and s': "s' = deliver_envelope pick account e (rw_server w)"
    using fwd by (auto simp: forward_envelope_def Let_def split: if_splits option.splits)
  have "\<exists>cl. sv_clients (rw_server w) c = Some cl \<and> trim_space (wc_account cl) = trim_space account
      \<and> trim_space (wc_device cl) = trim_space (env_to e)" if "c \<in> set ?cs" for c
    using reg_client [OF inv that] nul nuls by (metis envelope_waiter_key_inj)
  then show ?thesis
    using ok fold_deliver_facts [OF reg_distinct [OF inv]] unfolding s' deliver_envelope_def by metis
qed

text \<open>
  Bounded memory per websocket client. In every reachable world each client's send buffer
  holds at most 128 frames: a slow reader loses its connection, it does not make the relay
  grow.
\<close>

theorem ws_buffer_bounded:
  "relay_reachable w \<Longrightarrow> sv_clients (rw_server w) c = Some cl \<Longrightarrow> length (wc_buffer cl) \<le> 128"
  using reg_bound [OF reachable_registry_inv] by (fastforce simp: ws_send_buffer_def)

section \<open>Concrete worlds\<close>

definition world_idle :: relay_world where
  "world_idle = \<lparr>rw_server = sample_server, rw_blocked = Map.empty\<rparr>"

definition server_waiting :: server where
  "server_waiting = sample_server\<lparr>sv_waiters := [envelope_waiter_key ''acct'' ''laptop'' \<mapsto> [0]], sv_next := 1\<rparr>"

definition world_waiting :: relay_world where
  "world_waiting = \<lparr>rw_server = server_waiting, rw_blocked = [0 \<mapsto> (''acct'', ''laptop'', 100)]\<rparr>"

definition world_woken :: relay_world where
  "world_woken = \<lparr>rw_server = push_envelope ''acct'' sample_envelope server_waiting,
     rw_blocked = [0 \<mapsto> (''acct'', ''laptop'', 100)]\<rparr>"

lemma limit_default: "list_limit [] = 100"
  by code_simp

lemma reach_idle: "relay_reachable world_idle"
  unfolding world_idle_def by (rule relay_reachable.start [OF sample_server_new])

lemma reach_waiting: "relay_reachable world_waiting"
proof (rule relay_reachable.later [OF reach_idle])
  have "list_or_wait ''acct'' ''laptop'' (list_limit []) 1 (rw_server world_idle) = (Blocked 0, server_waiting)"
    by (simp add: list_or_wait_def world_idle_def sample_server_def list_locked_def server_waiting_def Let_def)
  from relay_step.blocked [OF this] show "relay_step world_idle world_waiting"
    by (simp add: limit_default world_waiting_def world_idle_def)
qed

lemma reach_woken: "relay_reachable world_woken"
proof (rule relay_reachable.later [OF reach_waiting])
  have "enqueue ''t0'' ''r'' ''acct'' sample_envelope (rw_server world_waiting)
      = (Inr sample_envelope, push_envelope ''acct'' sample_envelope server_waiting)"
    by (simp add: enqueue_def sample_stamped sample_valid world_waiting_def)
  from relay_step.post [OF this] show "relay_step world_waiting world_woken"
    by (simp add: world_woken_def world_waiting_def)
qed

lemma no_lost_wakeup_witness:
  "0 \<in> sv_closed (rw_server world_woken) \<and>
   wait_notified ''acct'' ''laptop'' 100 (rw_server world_woken) = [sample_envelope]"
proof -
  have "held_for (rw_server world_woken) ''acct'' ''laptop'' = [sample_envelope]"
    by (simp add: world_woken_def held_push server_waiting_def sample_server_def held_for_def)
  then show ?thesis
    using no_lost_wakeup [OF reach_woken, of 0 "''acct''" "''laptop''" 100]
    by (simp add: world_woken_def)
qed

lemma waiter_table_exact_witness: "sv_waiters (rw_server world_idle) = Map.empty"
  using waiter_table_exact [OF reach_idle] by (simp add: world_idle_def)

text \<open>A post that is accepted with the concrete credential.\<close>

definition sample_relay_env :: relay_env where
  "sample_relay_env = \<lparr>re_mac = sample_mac, re_unmarshal = (\<lambda>_. Some (default_payload sample_payload)),
     re_read_envelope = (\<lambda>_. (JsonValue sample_envelope, JsonEOF)), re_read_ack = (\<lambda>_. (JsonEOF, JsonEOF)),
     re_parse_duration = (\<lambda>_. None), re_clock = 1200 * second, re_now = ''t0'', re_rid = ''r'',
     re_upgrade_ok = True\<rparr>"

definition sample_request :: request where
  "sample_request = \<lparr>rq_method = ''POST'', rq_path = ''/v1/relay/envelopes'',
     rq_authorization = ''Bearer '' @ sample_token, rq_query = [], rq_content_length = 10, rq_body = []\<rparr>"

lemma sample_authorized:
  "account_from_request sample_relay_env sample_server sample_request = Inr ''acct''"
proof -
  have plain: "\<forall>c \<in> set sample_token. byte c < 128 \<and> \<not> ascii_space c" "sample_token \<noteq> []"
    using raw_url_encode_ascii by (auto simp: sample_token_def ascii_space_def)
  then have "\<not> ascii_space (last sample_token)"
    by simp
  with plain have "trim_space (''Bearer '' @ sample_token) = ''Bearer '' @ sample_token"
    by (intro trim_space_ascii) (auto simp: ascii_space_def)
  moreover have "trim_space sample_token = sample_token"
    unfolding sample_token_def by (rule token_trimmed)
  moreover have "verify_credential sample_mac (\<lambda>_. Some (default_payload sample_payload)) sample_token
      \<lparr>vo_relay_id = ''relay'', vo_secrets = [(''k1'', sample_secret)], vo_now = 1200 * second,
       vo_max_ttl = 0, vo_max_skew = 0\<rparr> = Inr (default_payload sample_payload)"
    using sample_verified_uncapped by simp
  ultimately show ?thesis
    using plain(2)
    by (simp add: account_from_request_def sample_request_def Let_def has_prefix_def trim_prefix_def
        sample_relay_env_def sample_server_def sample_default)
qed

lemma authenticated_effects_witness:
  "\<exists>p. verify_credential sample_mac (\<lambda>_. Some (default_payload sample_payload)) (trim_space (trim_prefix
       (trim_space (rq_authorization sample_request)) ''Bearer ''))
     \<lparr>vo_relay_id = ''relay'', vo_secrets = [(''k1'', sample_secret)], vo_now = 1200 * second,
      vo_max_ttl = 0, vo_max_skew = 0\<rparr> = Inr p"
proof -
  let ?s = "push_envelope ''acct'' sample_envelope sample_server"
  have "handle_request sample_relay_env sample_request sample_server = (StoredReply sample_envelope, ?s)"
    by (simp add: handle_request_def route_def with_account_def sample_authorized)
      (simp add: sample_request_def max_body_bytes_def handle_envelopes_def sample_relay_env_def
        enqueue_def sample_stamped sample_valid)
  moreover have "?s \<noteq> sample_server"
  proof
    assume "?s = sample_server"
    then have "slice_at (sv_queues ?s) ''acct'' = slice_at (sv_queues sample_server) ''acct''"
      by simp
    then show False by (simp add: slice_at_def sample_server_def push_envelope_def)
  qed
  ultimately show ?thesis
    using authenticated_effects [of sample_relay_env sample_request sample_server]
    by (simp add: sample_relay_env_def sample_server_def) blast
qed

definition server_connected :: server where
  "server_connected = snd (ws_connect ''acct'' ''laptop'' sample_server)"

lemma reach_connected: "relay_reachable \<lparr>rw_server = server_connected, rw_blocked = Map.empty\<rparr>"
proof (rule relay_reachable.later [OF reach_idle])
  have "ws_connect ''acct'' ''laptop'' (rw_server world_idle) = (0, server_connected)"
    by (simp add: server_connected_def world_idle_def ws_connect_def sample_server_def Let_def)
  from relay_step.connected [OF this]
  show "relay_step world_idle \<lparr>rw_server = server_connected, rw_blocked = Map.empty\<rparr>"
    by (simp add: world_idle_def)
qed

lemma connected_client:
  "sv_clients server_connected c = (if c = 0 then Some \<lparr>wc_account = ''acct'', wc_device = ''laptop'',
     wc_buffer = [], wc_done = False\<rparr> else None)"
  by (simp add: server_connected_def ws_connect_def register_client_def sample_server_def Let_def)

lemma sample_from: "env_from sample_envelope = ''phone''" "sample_envelope\<lparr>env_from := ''phone''\<rparr> = sample_envelope"
  by (simp_all add: sample_envelope_def)

lemma ws_delivery_isolated_witness:
  "validate_envelope sample_envelope = None \<and> env_from sample_envelope = trim_space ''phone''"
proof -
  have "forward_envelope (\<lambda>_. True) ''t0'' ''r'' ''acct'' ''phone'' sample_envelope
      (rw_server \<lparr>rw_server = server_connected, rw_blocked = Map.empty\<rparr>)
      = (Inr sample_envelope, deliver_envelope (\<lambda>_. True) ''acct'' sample_envelope server_connected)"
    by (simp add: forward_envelope_def sample_stamped Let_def sample_valid sample_from)
  moreover have "CHR 0x00 \<notin> set (wc_account cl)"
    if "sv_clients (rw_server \<lparr>rw_server = server_connected, rw_blocked = Map.empty\<rparr>) c = Some cl" for c cl
    using that by (auto simp: connected_client split: if_splits)
  ultimately show ?thesis
    using ws_delivery_isolated [OF reach_connected, of "\<lambda>_. True" "''t0''" "''r''" "''acct''" "''phone''"
        sample_envelope] by auto
qed

lemma ws_buffer_bounded_witness:
  "length (wc_buffer \<lparr>wc_account = ''acct'', wc_device = ''laptop'', wc_buffer = [], wc_done = False\<rparr>) \<le> 128"
  by (rule ws_buffer_bounded [OF reach_connected, of 0]) (simp add: connected_client)

end
