(* ===== verification/HostTrust.thy ===== *)
theory HostTrust
  imports Base64 "HOL-Library.AList"
begin

text \<open>
  The host's trust store: \<open>daemon/host_identity.go\<close> (trust grants and capabilities),
  \<open>daemon/known_hosts.go\<close>, \<open>NormalizeCapabilities\<close> of \<open>pkg/cloudmesh/client.go\<close> and the
  public-key helpers of \<open>pkg/deviceidentity\<close>. A Go map is an association list with distinct
  keys (its order stands for one iteration order). Each \<open>*store\<close> method that locks \<open>mu\<close> is
  one function on the record \<open>host_store\<close>; the JSON files are fields of the record, and a
  write of one is given its outcome as an argument (\<open>None\<close>, or the text of the error).
  SHA-256 and the formatted clock are arguments.
\<close>

section \<open>Data\<close>

record trust_grant =
  tg_host :: string
  tg_controller :: string
  tg_name :: string
  tg_public_key :: string
  tg_fingerprint :: string
  tg_scope :: string
  tg_status :: string
  tg_capabilities :: "string list"
  tg_exec_policy :: string
  tg_created_at :: string
  tg_updated_at :: string
  tg_revoked_at :: string

record trust_device_request =
  tr_controller :: string
  tr_name :: string
  tr_public_key :: string
  tr_fingerprint :: string
  tr_scope :: string
  tr_capabilities :: "string list"
  tr_exec_policy :: string

record known_host =
  kh_device :: string
  kh_name :: string
  kh_public_key :: string
  kh_fingerprint :: string
  kh_status :: string
  kh_base_url :: string
  kh_created_at :: string
  kh_updated_at :: string
  kh_revoked_at :: string

record device_identity =
  di_device :: string
  di_name :: string
  di_public_key :: string
  di_fingerprint :: string

record pairing_request =
  pr_id :: string
  pr_source :: string
  pr_cloud_id :: string
  pr_host :: string
  pr_controller :: string
  pr_name :: string
  pr_kind :: string
  pr_public_key :: string
  pr_fingerprint :: string
  pr_scope :: string
  pr_status :: string
  pr_capabilities :: "string list"
  pr_exec_policy :: string
  pr_created_at :: string
  pr_updated_at :: string
  pr_resolved_at :: string

record host_store =
  hs_device :: string
  hs_grants :: "(string \<times> trust_grant) list"
  hs_known :: "(string \<times> known_host) list"
  hs_pairing :: "(string \<times> pairing_request) list"
  hs_grants_file :: "trust_grant list option"
  hs_known_file :: "known_host list option"
  hs_pairing_file :: "pairing_request list option"

definition empty_grant :: trust_grant where
  "empty_grant = \<lparr>tg_host = [], tg_controller = [], tg_name = [], tg_public_key = [],
     tg_fingerprint = [], tg_scope = [], tg_status = [], tg_capabilities = [], tg_exec_policy = [],
     tg_created_at = [], tg_updated_at = [], tg_revoked_at = []\<rparr>"

definition empty_known_host :: known_host where
  "empty_known_host = \<lparr>kh_device = [], kh_name = [], kh_public_key = [], kh_fingerprint = [],
     kh_status = [], kh_base_url = [], kh_created_at = [], kh_updated_at = [], kh_revoked_at = []\<rparr>"

definition status_trusted :: string where "status_trusted = ''trusted''"
definition status_revoked :: string where "status_revoked = ''revoked''"
definition scope_full :: string where "scope_full = ''full''"
definition policy_trusted :: string where "policy_trusted = ''trusted''"

definition bad_request :: "string \<Rightarrow> string \<Rightarrow> go_error" where
  "bad_request code msg = ActionError 400 code msg"

section \<open>Capabilities\<close>

definition default_host_capabilities :: "string list" where
  "default_host_capabilities =
     [''core.read'', ''core.control'', ''interaction.respond'', ''session.edit'',
      ''attachment.ingest'', ''media.read'', ''media.download'', ''media.stream'',
      ''workspace.files.read'', ''workspace.files.write'', ''workspace.exec'',
      ''terminal.open'', ''terminal.input'', ''host.fs.browse'', ''host.manage'']"

fun unique_trimmed :: "string list \<Rightarrow> string list \<Rightarrow> string list" where
  "unique_trimmed out [] = out"
| "unique_trimmed out (c # cs) =
     (let c1 = trim_space c in
      if c1 = [] \<or> c1 \<in> set out then unique_trimmed out cs else unique_trimmed (out @ [c1]) cs)"

definition normalize_capabilities :: "string list \<Rightarrow> string list" where
  "normalize_capabilities cs = sort (unique_trimmed [] cs)"

fun validate_capabilities :: "string list \<Rightarrow> go_error option" where
  "validate_capabilities [] = None"
| "validate_capabilities (c # cs) =
     (if c \<notin> set default_host_capabilities
      then Some (bad_request ''capability_unknown'' (''unknown capability: '' @ c))
      else validate_capabilities cs)"

definition normalize_exec_policy :: "string \<Rightarrow> string" where
  "normalize_exec_policy p = trim_space p"

definition validate_exec_policy :: "string \<Rightarrow> go_error option" where
  "validate_exec_policy p =
     (if normalize_exec_policy p \<in> {[], ''trusted'', ''require_approval'', ''disabled''} then None
      else Some (bad_request ''workspace_exec_policy_invalid'' ''invalid workspace_exec_policy''))"

section \<open>Public keys\<close>

definition hex_digit :: "nat \<Rightarrow> char" where
  "hex_digit n = ''0123456789ABCDEF'' ! n"

definition hex_upper :: "string \<Rightarrow> string" where
  "hex_upper s = concat (map (\<lambda>c. [hex_digit (byte c div 16), hex_digit (byte c mod 16)]) s)"

definition public_key_fingerprint :: "(string \<Rightarrow> string) \<Rightarrow> string \<Rightarrow> string" where
  "public_key_fingerprint sha256 key = ''sha256:'' @ hex_upper (sha256 key)"

definition decode_public_key :: "string \<Rightarrow> string option" where
  "decode_public_key v =
     (case std_decode (trim_space v) of
        None \<Rightarrow> None
      | Some key \<Rightarrow> if length key \<noteq> 32 then None else Some key)"

definition decode_device_public_key :: "string \<Rightarrow> go_error + string" where
  "decode_device_public_key v =
     (case decode_public_key v of
        None \<Rightarrow> Inl (bad_request ''invalid_public_key'' ''invalid device public key'')
      | Some key \<Rightarrow> Inr key)"

lemma decode_std_encode: "length key = 32 \<Longrightarrow> decode_public_key (std_encode key) = Some key"
  by (simp add: decode_public_key_def)

section \<open>Trust grants\<close>

definition default_to :: "string \<Rightarrow> string \<Rightarrow> string" where
  "default_to d s = (if s = [] then d else s)"

definition normalize_trust_grant :: "trust_grant \<Rightarrow> trust_grant" where
  "normalize_trust_grant g = g\<lparr>
     tg_host := trim_space (tg_host g),
     tg_controller := trim_space (tg_controller g),
     tg_name := trim_space (tg_name g),
     tg_public_key := trim_space (tg_public_key g),
     tg_fingerprint := trim_space (tg_fingerprint g),
     tg_scope := default_to scope_full (trim_space (tg_scope g)),
     tg_status := default_to status_trusted (trim_space (tg_status g)),
     tg_capabilities := normalize_capabilities (tg_capabilities g),
     tg_exec_policy := default_to policy_trusted (normalize_exec_policy (tg_exec_policy g))\<rparr>"

fun load_grants :: "(string \<times> trust_grant) list \<Rightarrow> trust_grant list \<Rightarrow> (string \<times> trust_grant) list" where
  "load_grants out [] = out"
| "load_grants out (g # gs) =
     (let n = normalize_trust_grant g in
      if tg_controller n = [] then load_grants out gs
      else load_grants (AList.update (tg_controller n) n out) gs)"

definition load_trust_grants :: "trust_grant list option \<Rightarrow> (string \<times> trust_grant) list" where
  "load_trust_grants file = (case file of None \<Rightarrow> [] | Some gs \<Rightarrow> load_grants [] gs)"

definition write_trust_grants :: "string option \<Rightarrow> host_store \<Rightarrow> go_error option \<times> host_store" where
  "write_trust_grants werr st =
     (case werr of
        Some e \<Rightarrow> (Some (OpaqueError e), st)
      | None \<Rightarrow> (None, st\<lparr>hs_grants_file :=
          Some (sort_key tg_controller (map (\<lambda>e. normalize_trust_grant (snd e)) (hs_grants st)))\<rparr>))"

text \<open>The fields \<open>trustDevice\<close> computes from the request, or the error it returns.\<close>

definition checked_capabilities :: "string list \<Rightarrow> go_error + string list" where
  "checked_capabilities req =
     (let cs0 = normalize_capabilities req;
          cs = (if cs0 = [] then default_host_capabilities else cs0)
      in case validate_capabilities cs of Some e \<Rightarrow> Inl e | None \<Rightarrow> Inr cs)"

definition checked_exec_policy :: "string \<Rightarrow> go_error + string" where
  "checked_exec_policy req =
     (let p = default_to policy_trusted (normalize_exec_policy req)
      in case validate_exec_policy p of Some e \<Rightarrow> Inl e | None \<Rightarrow> Inr p)"

definition checked_fingerprint ::
  "(string \<Rightarrow> string) \<Rightarrow> string \<Rightarrow> string \<Rightarrow> go_error + string" where
  "checked_fingerprint sha256 key fp =
     (case decode_device_public_key key of
        Inl e \<Rightarrow> Inl e
      | Inr k \<Rightarrow>
          (let actual = public_key_fingerprint sha256 k
           in if fp \<noteq> [] \<and> fp \<noteq> actual
              then Inl (bad_request ''fingerprint_mismatch'' ''controller public key fingerprint mismatch'')
              else Inr actual))"

definition find_grant :: "host_store \<Rightarrow> string \<Rightarrow> trust_grant" where
  "find_grant st c = (case map_of (hs_grants st) c of None \<Rightarrow> empty_grant | Some g \<Rightarrow> g)"

definition store_grant ::
  "string option \<Rightarrow> string \<Rightarrow> trust_grant \<Rightarrow> host_store \<Rightarrow> (go_error + trust_grant) \<times> host_store" where
  "store_grant werr c g st =
     (case write_trust_grants werr (st\<lparr>hs_grants := AList.update c g (hs_grants st)\<rparr>) of
        (Some e, st1) \<Rightarrow> (Inl e, st1)
      | (None, st1) \<Rightarrow> (Inr g, st1))"

definition trust_device ::
  "(string \<Rightarrow> string) \<Rightarrow> string \<Rightarrow> string option \<Rightarrow> trust_device_request \<Rightarrow> host_store \<Rightarrow>
   (go_error + trust_grant) \<times> host_store" where
  "trust_device sha256 now werr req st =
     (let c = trim_space (tr_controller req) in
      if c = []
        then (Inl (bad_request ''controller_device_required'' ''controller_device_id required''), st)
      else if c = hs_device st
        then (Inl (bad_request ''self_trust_not_allowed''
                ''cannot add this Host as a trusted Controller''), st)
      else (case checked_capabilities (tr_capabilities req) of
          Inl e \<Rightarrow> (Inl e, st)
        | Inr caps \<Rightarrow>
            (case checked_exec_policy (tr_exec_policy req) of
               Inl e \<Rightarrow> (Inl e, st)
             | Inr policy \<Rightarrow>
                 (let key = trim_space (tr_public_key req); fp = trim_space (tr_fingerprint req) in
                  case (if key = [] then Inr fp else checked_fingerprint sha256 key fp) of
                    Inl e \<Rightarrow> (Inl e, st)
                  | Inr fingerprint \<Rightarrow>
                      (let old = find_grant st c in
                       store_grant werr c
                         (old\<lparr>tg_created_at := default_to now (tg_created_at old),
                            tg_host := hs_device st, tg_controller := c,
                            tg_name := trim_space (tr_name req), tg_public_key := key,
                            tg_fingerprint := fingerprint,
                            tg_scope := default_to scope_full (trim_space (tr_scope req)),
                            tg_status := status_trusted, tg_capabilities := caps,
                            tg_exec_policy := policy, tg_updated_at := now,
                            tg_revoked_at := []\<rparr>) st)))))"

definition revoke_trust_grant ::
  "string \<Rightarrow> string option \<Rightarrow> string \<Rightarrow> host_store \<Rightarrow> (go_error + trust_grant option) \<times> host_store" where
  "revoke_trust_grant now werr controller st =
     (let c = trim_space controller in
      if c = []
        then (Inl (bad_request ''controller_device_required'' ''controller device id required''), st)
      else (case map_of (hs_grants st) c of
          None \<Rightarrow> (Inr None, st)
        | Some g \<Rightarrow>
            if tg_host g \<noteq> hs_device st then (Inr None, st)
            else (case store_grant werr c
                     (g\<lparr>tg_status := status_revoked, tg_updated_at := now, tg_revoked_at := now\<rparr>) st of
                (Inl e, st1) \<Rightarrow> (Inl e, st1)
              | (Inr g1, st1) \<Rightarrow> (Inr (Some g1), st1))))"

definition trusted_control_grant :: "host_store \<Rightarrow> string \<Rightarrow> trust_grant option" where
  "trusted_control_grant st controller =
     (let c = trim_space controller in
      case map_of (hs_grants st) c of
        None \<Rightarrow> None
      | Some g \<Rightarrow>
          if tg_host g \<noteq> hs_device st \<or> tg_controller g \<noteq> c then None
          else if tg_status g \<noteq> status_trusted \<or> tg_revoked_at g \<noteq> [] then None
          else Some g)"

definition trust_grant_allows :: "trust_grant \<Rightarrow> string \<Rightarrow> bool" where
  "trust_grant_allows g cap =
     (if tg_status g \<noteq> status_trusted \<or> tg_revoked_at g \<noteq> [] then False
      else list_ex (\<lambda>item. item = cap) (tg_capabilities g))"

section \<open>Known hosts\<close>

definition trim_right_slash :: "string \<Rightarrow> string" where
  "trim_right_slash s = rev (dropWhile (\<lambda>c. c = CHR ''/'') (rev s))"

definition normalize_known_host :: "known_host \<Rightarrow> known_host" where
  "normalize_known_host h = h\<lparr>
     kh_device := trim_space (kh_device h),
     kh_name := trim_space (kh_name h),
     kh_public_key := trim_space (kh_public_key h),
     kh_fingerprint := trim_space (kh_fingerprint h),
     kh_status := trim_space (kh_status h),
     kh_base_url := trim_right_slash (trim_space (kh_base_url h)),
     kh_revoked_at := trim_space (kh_revoked_at h)\<rparr>"

definition known_host_revoked :: "known_host \<Rightarrow> bool" where
  "known_host_revoked h \<longleftrightarrow> trim_space (kh_status h) = status_revoked \<or> \<not> blank (kh_revoked_at h)"

fun load_hosts :: "(string \<times> known_host) list \<Rightarrow> known_host list \<Rightarrow> (string \<times> known_host) list" where
  "load_hosts out [] = out"
| "load_hosts out (h # hs) =
     (let n = normalize_known_host h in
      if kh_device n = [] \<or> kh_public_key n = [] \<or> kh_fingerprint n = [] then load_hosts out hs
      else load_hosts (AList.update (kh_device n) n out) hs)"

definition load_known_hosts :: "known_host list option \<Rightarrow> (string \<times> known_host) list" where
  "load_known_hosts file = (case file of None \<Rightarrow> [] | Some hs \<Rightarrow> load_hosts [] hs)"

definition write_known_hosts :: "string option \<Rightarrow> host_store \<Rightarrow> go_error option \<times> host_store" where
  "write_known_hosts werr st =
     (case werr of
        Some e \<Rightarrow> (Some (OpaqueError e), st)
      | None \<Rightarrow> (None, st\<lparr>hs_known_file :=
          Some (sort_key kh_device (map (\<lambda>e. normalize_known_host (snd e)) (hs_known st)))\<rparr>))"

definition find_known :: "host_store \<Rightarrow> string \<Rightarrow> known_host" where
  "find_known st d = (case map_of (hs_known st) d of None \<Rightarrow> empty_known_host | Some h \<Rightarrow> h)"

definition remember_known_host ::
  "(string \<Rightarrow> string) \<Rightarrow> string \<Rightarrow> string option \<Rightarrow> device_identity \<Rightarrow> string \<Rightarrow> host_store \<Rightarrow>
   (go_error + known_host) \<times> host_store" where
  "remember_known_host sha256 now werr ident base_url st =
     (if blank (di_device ident) \<or> blank (di_public_key ident)
        then (Inl (bad_request ''host_identity_invalid''
                ''host identity is missing device_id or public_key''), st)
      else (case decode_device_public_key (di_public_key ident) of
          Inl e \<Rightarrow> (Inl e, st)
        | Inr key \<Rightarrow>
            (let fingerprint = public_key_fingerprint sha256 key in
             if di_fingerprint ident \<noteq> [] \<and> di_fingerprint ident \<noteq> fingerprint
               then (Inl (bad_request ''fingerprint_mismatch'' ''host public key fingerprint mismatch''), st)
             else if known_host_revoked (normalize_known_host (find_known st (di_device ident)))
               then (Inl (ActionError 403 ''known_host_revoked''
                       ''known Host has been removed from mesh''), st)
             else (let old = find_known st (di_device ident);
                 h = old\<lparr>kh_created_at := default_to now (kh_created_at old),
                   kh_device := trim_space (di_device ident),
                   kh_name := trim_space (di_name ident),
                   kh_public_key := trim_space (di_public_key ident),
                   kh_fingerprint := fingerprint,
                   kh_base_url := trim_right_slash (trim_space base_url),
                   kh_status := [], kh_revoked_at := [], kh_updated_at := now\<rparr>
               in case write_known_hosts werr
                       (st\<lparr>hs_known := AList.update (kh_device h) h (hs_known st)\<rparr>) of
                    (Some e, st1) \<Rightarrow> (Inl e, st1)
                  | (None, st1) \<Rightarrow> (Inr h, st1)))))"

definition lookup_known_host :: "host_store \<Rightarrow> string \<Rightarrow> known_host option" where
  "lookup_known_host st d = map_of (hs_known st) (trim_space d)"

definition mark_known_host_revoked ::
  "string \<Rightarrow> string option \<Rightarrow> string \<Rightarrow> host_store \<Rightarrow>
   (go_error + known_host option \<times> bool) \<times> host_store" where
  "mark_known_host_revoked now werr device st =
     (let d = trim_space device in
      if d = [] then (Inr (None, False), st)
      else (case map_of (hs_known st) d of
          None \<Rightarrow> (Inr (None, False), st)
        | Some h0 \<Rightarrow>
            (let h = normalize_known_host h0 in
             if known_host_revoked h then (Inr (Some h, False), st)
             else (let h1 = h\<lparr>kh_status := status_revoked, kh_updated_at := now, kh_revoked_at := now\<rparr>
               in case write_known_hosts werr (st\<lparr>hs_known := AList.update d h1 (hs_known st)\<rparr>) of
                    (Some e, st1) \<Rightarrow> (Inl e, st1)
                  | (None, st1) \<Rightarrow> (Inr (Some h1, True), st1)))))"

definition list_known_hosts :: "host_store \<Rightarrow> known_host list" where
  "list_known_hosts st = sort_key kh_device (map snd (hs_known st))"

definition list_trust_grants :: "host_store \<Rightarrow> trust_grant list" where
  "list_trust_grants st = rev (sort_key tg_updated_at (rev (map snd (hs_grants st))))"

section \<open>Lemmas on capabilities\<close>

lemma unique_trimmed_props:
  assumes "distinct out" and "\<forall>c \<in> set out. c \<noteq> [] \<and> trimmed c"
  shows "distinct (unique_trimmed out cs)
    \<and> set (unique_trimmed out cs) = set out \<union> {trim_space c | c. c \<in> set cs \<and> \<not> blank c}"
  using assms
proof (induction cs arbitrary: out)
  case (Cons c cs)
  show ?case
  proof (cases "blank c \<or> trim_space c \<in> set out")
    case True
    then have "unique_trimmed out (c # cs) = unique_trimmed out cs" by (simp add: Let_def)
    then show ?thesis
      using Cons True by auto
  next
    case False
    then have "unique_trimmed out (c # cs) = unique_trimmed (out @ [trim_space c]) cs"
      by (simp add: Let_def)
    then show ?thesis
      using Cons.IH [of "out @ [trim_space c]"] Cons.prems False by auto
  qed
qed simp

lemma unique_trimmed_fix:
  "distinct (out @ cs) \<Longrightarrow> \<forall>c \<in> set cs. c \<noteq> [] \<and> trimmed c \<Longrightarrow> unique_trimmed out cs = out @ cs"
  by (induction cs arbitrary: out) (auto simp: Let_def)

lemma normalize_capabilities_props:
  "sorted (normalize_capabilities cs)" "distinct (normalize_capabilities cs)"
  "set (normalize_capabilities cs) = {trim_space c | c. c \<in> set cs \<and> \<not> blank c}"
  using unique_trimmed_props [of "[]" cs] by (auto simp: normalize_capabilities_def)

lemma normalize_capabilities_idem [simp]:
  "normalize_capabilities (normalize_capabilities cs) = normalize_capabilities cs"
proof -
  have "\<forall>c \<in> set (normalize_capabilities cs). c \<noteq> [] \<and> trimmed c"
    by (auto simp: normalize_capabilities_props(3))
  then have "unique_trimmed [] (normalize_capabilities cs) = normalize_capabilities cs"
    using unique_trimmed_fix [of "[]" "normalize_capabilities cs"] normalize_capabilities_props(2)
    by simp
  then show ?thesis
    using normalize_capabilities_props(1)
    by (simp add: normalize_capabilities_def [of "normalize_capabilities cs"] sorted_sort_id)
qed

lemma validate_capabilities_None: "validate_capabilities cs = None \<longleftrightarrow> set cs \<subseteq> set default_host_capabilities"
  by (induction cs) auto

lemma checked_capabilitiesD:
  assumes "checked_capabilities req = Inr caps"
  shows "set caps \<subseteq> set default_host_capabilities" "caps \<noteq> []"
    "caps = default_host_capabilities \<or> caps = normalize_capabilities req"
  using assms validate_capabilities_None
  by (auto simp: checked_capabilities_def Let_def default_host_capabilities_def
      split: option.splits if_splits)

section \<open>The trust table\<close>

definition grants_inv :: "host_store \<Rightarrow> bool" where
  "grants_inv st \<longleftrightarrow> distinct (map fst (hs_grants st)) \<and> trimmed (hs_device st) \<and>
     (\<forall>(k, g) \<in> set (hs_grants st). k = tg_controller g \<and> k \<noteq> [] \<and> trimmed k
        \<and> trimmed (tg_host g) \<and> trimmed (tg_status g) \<and> tg_status g \<noteq> [])"

lemma default_to_simps [simp]:
  "default_to d s = [] \<longleftrightarrow> d = [] \<and> s = []" "default_to d [] = d"
  by (auto simp: default_to_def)

lemma status_constants [simp]:
  "status_trusted \<noteq> []" "status_revoked \<noteq> []" "scope_full \<noteq> []" "policy_trusted \<noteq> []"
  "trim_space status_trusted = status_trusted" "trim_space status_revoked = status_revoked"
  "trim_space scope_full = scope_full" "trim_space policy_trusted = policy_trusted"
  "status_trusted \<noteq> status_revoked"
  by (simp_all add: status_trusted_def status_revoked_def scope_full_def policy_trusted_def
      trim_space_plain plain_ascii_def ascii_space_def)

lemmas status_constants_sym [simp] = status_constants(1-4,9) [symmetric]

lemma trim_default_to [simp]: "trim_space (default_to d s) = default_to (trim_space d) (trim_space s)"
  if "trim_space s = s"
  using that by (simp add: default_to_def)

lemma normalize_trust_grant_simps [simp]:
  "tg_host (normalize_trust_grant g) = trim_space (tg_host g)"
  "tg_controller (normalize_trust_grant g) = trim_space (tg_controller g)"
  "tg_status (normalize_trust_grant g) = default_to status_trusted (trim_space (tg_status g))"
  "tg_revoked_at (normalize_trust_grant g) = tg_revoked_at g"
  "tg_capabilities (normalize_trust_grant g) = normalize_capabilities (tg_capabilities g)"
  by (simp_all add: normalize_trust_grant_def)

lemma normalize_trust_grant_idem [simp]:
  "normalize_trust_grant (normalize_trust_grant g) = normalize_trust_grant g"
  by (simp add: normalize_trust_grant_def normalize_exec_policy_def default_to_def)

text \<open>What \<open>writeTrustGrantsLocked\<close> and \<open>store_grant\<close> do.\<close>

lemma write_trust_grants_frame [simp, frame]:
  "hs_grants (snd (write_trust_grants werr st)) = hs_grants st"
  "hs_device (snd (write_trust_grants werr st)) = hs_device st"
  "hs_pairing (snd (write_trust_grants werr st)) = hs_pairing st"
  "hs_known (snd (write_trust_grants werr st)) = hs_known st"
  by (simp_all add: write_trust_grants_def split: option.split)

lemma store_grant_frame [simp, frame]:
  "hs_grants (snd (store_grant werr c g st)) = AList.update c g (hs_grants st)"
  "hs_device (snd (store_grant werr c g st)) = hs_device st"
  "hs_pairing (snd (store_grant werr c g st)) = hs_pairing st"
  "hs_known (snd (store_grant werr c g st)) = hs_known st"
  by (simp_all add: store_grant_def write_trust_grants_def split: option.split)

lemma store_grant_fst [simp]:
  "fst (store_grant werr c g st) = (case werr of Some e \<Rightarrow> Inl (OpaqueError e) | None \<Rightarrow> Inr g)"
  by (simp add: store_grant_def write_trust_grants_def split: option.split)

text \<open>The grant \<open>trustDevice\<close> stores, as a relation between request, time and grant.\<close>

definition granted :: "string \<Rightarrow> trust_device_request \<Rightarrow> host_store \<Rightarrow> trust_grant \<Rightarrow> bool" where
  "granted now req st g \<longleftrightarrow>
     tg_controller g = trim_space (tr_controller req) \<and> tg_controller g \<noteq> [] \<and>
     tg_controller g \<noteq> hs_device st \<and> tg_host g = hs_device st \<and>
     tg_status g = status_trusted \<and> tg_revoked_at g = [] \<and> tg_updated_at g = now \<and>
     tg_public_key g = trim_space (tr_public_key req) \<and>
     checked_capabilities (tr_capabilities req) = Inr (tg_capabilities g) \<and>
     tg_created_at g = default_to now (tg_created_at (find_grant st (tg_controller g)))"

lemma trust_device_cases:
  obtains (rejected) e where "trust_device sha256 now werr req st = (Inl e, st)"
  | (stored) g where "granted now req st g"
      "trust_device sha256 now werr req st = store_grant werr (tg_controller g) g st"
proof (cases "trust_device sha256 now werr req st")
  case (Pair r st1)
  show ?thesis
  proof (cases "trim_space (tr_controller req) = [] \<or> trim_space (tr_controller req) = hs_device st
      \<or> (\<exists>e. checked_capabilities (tr_capabilities req) = Inl e)
      \<or> (\<exists>e. checked_exec_policy (tr_exec_policy req) = Inl e)
      \<or> (trim_space (tr_public_key req) \<noteq> [] \<and> (\<exists>e. checked_fingerprint sha256
            (trim_space (tr_public_key req)) (trim_space (tr_fingerprint req)) = Inl e))")
    case True
    then show ?thesis
      by (intro rejected [of "projl (fst (trust_device sha256 now werr req st))"])
        (auto simp: trust_device_def Let_def split: sum.splits)
  next
    case False
    then obtain caps policy where c: "checked_capabilities (tr_capabilities req) = Inr caps"
      and p: "checked_exec_policy (tr_exec_policy req) = Inr policy"
      by (metis obj_sumE)
    from False obtain fp where f: "(if trim_space (tr_public_key req) = [] then Inr (trim_space (tr_fingerprint req))
        else checked_fingerprint sha256 (trim_space (tr_public_key req)) (trim_space (tr_fingerprint req))) = Inr fp"
      by (metis obj_sumE)
    let ?g = "(find_grant st (trim_space (tr_controller req)))\<lparr>tg_created_at := default_to now
        (tg_created_at (find_grant st (trim_space (tr_controller req)))),
      tg_host := hs_device st, tg_controller := trim_space (tr_controller req),
      tg_name := trim_space (tr_name req), tg_public_key := trim_space (tr_public_key req),
      tg_fingerprint := fp, tg_scope := default_to scope_full (trim_space (tr_scope req)),
      tg_status := status_trusted, tg_capabilities := caps, tg_exec_policy := policy,
      tg_updated_at := now, tg_revoked_at := []\<rparr>"
    have "trust_device sha256 now werr req st = store_grant werr (tg_controller ?g) ?g st"
      using False by (simp add: trust_device_def Let_def c p f)
    then show ?thesis
      using False by (intro stored [of ?g]) (auto simp: granted_def c)
  qed
qed

lemma trust_device_okD:
  assumes "trust_device sha256 now werr req st = (Inr g, st1)"
  shows "granted now req st g" "st1 = snd (store_grant werr (tg_controller g) g st)"
proof -
  have "granted now req st g \<and> st1 = snd (store_grant werr (tg_controller g) g st)"
  proof (cases rule: trust_device_cases [of sha256 now werr req st])
    case (stored g1)
    then have s: "store_grant werr (tg_controller g1) g1 st = (Inr g, st1)"
      using assms by simp
    then have "g1 = g"
      using store_grant_fst [of werr "tg_controller g1" g1 st] by (simp split: option.splits)
    then show ?thesis
      using stored(1) s by simp
  qed (use assms in simp)
  then show "granted now req st g" "st1 = snd (store_grant werr (tg_controller g) g st)"
    by simp_all
qed

lemma grants_inv_update:
  assumes "grants_inv st" "k = tg_controller g" "k \<noteq> []" "trimmed k" "trimmed (tg_host g)"
    "trimmed (tg_status g)" "tg_status g \<noteq> []"
  shows "grants_inv (snd (store_grant werr k g st))"
  using assms set_AList_update [of k g "hs_grants st"]
  by (auto simp: grants_inv_def distinct_update)

lemma grants_inv_trust:
  assumes st: "grants_inv st"
  shows "grants_inv (snd (trust_device sha256 now werr req st))"
proof (cases rule: trust_device_cases [of sha256 now werr req st])
  case (stored g)
  have "trimmed (hs_device st)"
    using st by (simp add: grants_inv_def)
  moreover have "trimmed (tg_controller g)" "tg_controller g \<noteq> []" "tg_host g = hs_device st"
    "tg_status g = status_trusted"
    using stored(1) by (auto simp: granted_def)
  ultimately show ?thesis
    unfolding stored(2) by (intro grants_inv_update [OF st]) simp_all
qed (simp add: st)

lemma map_of_inv:
  assumes "grants_inv st" "map_of (hs_grants st) c = Some g"
  shows "c = tg_controller g \<and> c \<noteq> [] \<and> trimmed c \<and> trimmed (tg_host g) \<and> trimmed (tg_status g)
     \<and> tg_status g \<noteq> []"
  using assms map_of_SomeD [OF assms(2)] by (auto simp: grants_inv_def)

lemma revoke_cases:
  obtains (nothing) r where "revoke_trust_grant now werr c st = (r, st)"
      "trim_space c = [] \<or> trusted_control_grant st c = None"
  | (revoked) g where "map_of (hs_grants st) (trim_space c) = Some g" "tg_host g = hs_device st"
      "snd (revoke_trust_grant now werr c st) = snd (store_grant werr (trim_space c)
         (g\<lparr>tg_status := status_revoked, tg_updated_at := now, tg_revoked_at := now\<rparr>) st)"
      "fst (revoke_trust_grant now werr c st) = (case werr of Some e \<Rightarrow> Inl (OpaqueError e)
         | None \<Rightarrow> Inr (Some (g\<lparr>tg_status := status_revoked, tg_updated_at := now, tg_revoked_at := now\<rparr>)))"
proof (cases "trim_space c = [] \<or> map_of (hs_grants st) (trim_space c) = None
    \<or> tg_host (the (map_of (hs_grants st) (trim_space c))) \<noteq> hs_device st")
  case True
  then have "revoke_trust_grant now werr c st = (if trim_space c = []
      then Inl (bad_request ''controller_device_required'' ''controller device id required'')
      else Inr None, st)"
    by (auto simp: revoke_trust_grant_def Let_def split: option.splits)
  moreover have "trim_space c = [] \<or> trusted_control_grant st c = None"
    using True by (auto simp: trusted_control_grant_def Let_def split: option.splits)
  ultimately show ?thesis
    by (rule nothing)
next
  case False
  then obtain g where g: "map_of (hs_grants st) (trim_space c) = Some g" "tg_host g = hs_device st"
    by auto
  let ?g = "g\<lparr>tg_status := status_revoked, tg_updated_at := now, tg_revoked_at := now\<rparr>"
  have "revoke_trust_grant now werr c st = (case store_grant werr (trim_space c) ?g st of
      (Inl e, st1) \<Rightarrow> (Inl e, st1) | (Inr g1, st1) \<Rightarrow> (Inr (Some g1), st1))"
    using False g by (simp add: revoke_trust_grant_def Let_def)
  then show ?thesis
    by (intro revoked [OF g]) (cases werr; simp add: store_grant_def write_trust_grants_def)+
qed

lemma grants_inv_revoke: "grants_inv st \<Longrightarrow> grants_inv (snd (revoke_trust_grant now werr c st))"
proof (rule revoke_cases [of now werr c st])
  fix g
  assume st: "grants_inv st" and g: "map_of (hs_grants st) (trim_space c) = Some g"
    and eq: "snd (revoke_trust_grant now werr c st) = snd (store_grant werr (trim_space c)
       (g\<lparr>tg_status := status_revoked, tg_updated_at := now, tg_revoked_at := now\<rparr>) st)"
  show ?thesis
    unfolding eq using map_of_inv [OF st g] trim_space_idem [of c]
    by (intro grants_inv_update [OF st]) auto
qed simp

section \<open>Who is trusted after an operation\<close>

lemma trusted_store:
  "trusted_control_grant (snd (store_grant werr k g st)) c =
     (if trim_space c = k
      then (if tg_host g = hs_device st \<and> tg_controller g = k \<and> tg_status g = status_trusted
               \<and> tg_revoked_at g = [] then Some g else None)
      else trusted_control_grant st c)"
  by (simp add: trusted_control_grant_def Let_def update_conv' split: option.split)

lemma trusted_frame:
  "hs_grants st' = hs_grants st \<Longrightarrow> hs_device st' = hs_device st \<Longrightarrow>
     trusted_control_grant st' c = trusted_control_grant st c"
  by (simp add: trusted_control_grant_def Let_def split: option.split)

lemma trusted_trim [simp]: "trusted_control_grant st (trim_space c) = trusted_control_grant st c"
  by (simp add: trusted_control_grant_def)

lemma trusted_SomeD:
  assumes "trusted_control_grant st c = Some g"
  shows "map_of (hs_grants st) (trim_space c) = Some g" "tg_host g = hs_device st"
    "tg_controller g = trim_space c" "tg_status g = status_trusted" "tg_revoked_at g = []"
  using assms by (auto simp: trusted_control_grant_def Let_def split: option.splits if_splits)

text \<open>
  What \<open>trustDevice\<close> grants. When it succeeds, the requested controller (never the host
  itself) is trusted with exactly the returned grant: its capabilities are the requested ones
  (trimmed, sorted, without duplicates), or all fifteen if none was requested, and in either
  case known ones only; the creation time of an earlier grant is kept; and no other
  controller's trust changes.
\<close>

theorem trust_device_grants:
  assumes "trust_device sha256 now werr req st = (Inr g, st')"
  shows "trusted_control_grant st' (tr_controller req) = Some g
     \<and> tg_controller g \<noteq> hs_device st
     \<and> set (tg_capabilities g) \<subseteq> set default_host_capabilities
     \<and> (tg_capabilities g = normalize_capabilities (tr_capabilities req)
        \<or> tg_capabilities g = default_host_capabilities \<and> normalize_capabilities (tr_capabilities req) = [])
     \<and> tg_created_at g = default_to now (tg_created_at (find_grant st (tg_controller g)))
     \<and> (\<forall>c. trim_space c \<noteq> tg_controller g \<longrightarrow> trusted_control_grant st' c = trusted_control_grant st c)"
proof -
  note g = trust_device_okD [OF assms]
  then have caps: "checked_capabilities (tr_capabilities req) = Inr (tg_capabilities g)"
    by (simp add: granted_def)
  have "tg_capabilities g = normalize_capabilities (tr_capabilities req)
      \<or> tg_capabilities g = default_host_capabilities \<and> normalize_capabilities (tr_capabilities req) = []"
    using caps by (auto simp: checked_capabilities_def Let_def split: option.splits if_splits)
  then show ?thesis
    using g(1) checked_capabilitiesD(1) [OF caps] unfolding g(2) trusted_store
    by (auto simp: granted_def)
qed

lemma trusted_revoke:
  assumes "trim_space c \<noteq> []"
  shows "trusted_control_grant (snd (revoke_trust_grant now werr c st)) d =
     (if trim_space d = trim_space c then None else trusted_control_grant st d)"
proof (cases rule: revoke_cases [of now werr c st])
  case (nothing r)
  then show ?thesis
    using assms by (metis fst_conv snd_conv trusted_trim)
next
  case (revoked g)
  show ?thesis
    unfolding revoked(3) trusted_store by auto
qed

text \<open>
  C7: Revocation takes effect at once. After \<open>revokeTrustGrant\<close> of a controller (a non-blank
  id), whatever it returned, and even if the file could not be written, that controller is
  not trusted and every other controller's trust is unchanged.
\<close>

theorem revoke_effective:
  assumes "trim_space c \<noteq> []"
  shows "trusted_control_grant (snd (revoke_trust_grant now werr c st)) c = None
     \<and> (\<forall>d. trim_space d \<noteq> trim_space c \<longrightarrow>
          trusted_control_grant (snd (revoke_trust_grant now werr c st)) d = trusted_control_grant st d)"
  using trusted_revoke [OF assms] by simp

text \<open>
  A grant whose write fails is still in force. If \<open>trustDevice\<close> would succeed but the write
  of the grants file fails, it returns the error, yet the controller is trusted in memory with
  the very grant a successful call returns, and the file keeps its old contents.
\<close>

theorem trust_write_failure_grants:
  assumes "trust_device sha256 now None req st = (Inr g, st1)"
  shows "\<exists>st2. trust_device sha256 now (Some e) req st = (Inl (OpaqueError e), st2)
     \<and> trusted_control_grant st2 (tr_controller req) = Some g
     \<and> hs_grants_file st2 = hs_grants_file st"
proof (cases rule: trust_device_cases [of sha256 now None req st])
  case (stored g1)
  then have g: "granted now req st g"
    using assms by (simp add: store_grant_def write_trust_grants_def)
  have "trust_device sha256 now (Some e) req st = store_grant (Some e) (tg_controller g) g st"
    using assms by (auto simp: trust_device_def Let_def store_grant_def write_trust_grants_def
        split: sum.splits if_splits)
  moreover have "fst (store_grant (Some e) (tg_controller g) g st) = Inl (OpaqueError e)"
    by simp
  moreover have "trusted_control_grant (snd (store_grant (Some e) (tg_controller g) g st)) (tr_controller req) = Some g"
    using g by (auto simp: trusted_store granted_def)
  moreover have "hs_grants_file (snd (store_grant (Some e) (tg_controller g) g st)) = hs_grants_file st"
    by (simp add: store_grant_def write_trust_grants_def)
  ultimately show ?thesis
    by (metis prod.collapse)
qed (use assms in simp)

section \<open>Persistence of the trust table\<close>

lemma load_grants_map_of:
  "distinct (map (\<lambda>g. trim_space (tg_controller g)) gs) \<Longrightarrow> \<forall>g \<in> set gs. \<not> blank (tg_controller g) \<Longrightarrow>
     map_of (load_grants out gs)
       = map_of out ++ map_of (map (\<lambda>g. (trim_space (tg_controller g), normalize_trust_grant g)) gs)"
proof (induction gs arbitrary: out)
  case (Cons g gs)
  let ?k = "trim_space (tg_controller g)" and ?n = "normalize_trust_grant g"
  let ?m = "map_of (map (\<lambda>g. (trim_space (tg_controller g), normalize_trust_grant g)) gs)"
  have "?m ?k = None"
    using Cons.prems(1) by (auto simp: map_of_eq_None_iff)
  then have "(map_of out)(?k \<mapsto> ?n) ++ ?m = map_of out ++ (?m(?k \<mapsto> ?n))"
    by (auto simp: map_add_def fun_eq_iff split: option.splits)
  moreover have "load_grants out (g # gs) = load_grants (AList.update ?k ?n out) gs"
    using Cons.prems(2) by (simp add: Let_def)
  moreover have "map_of (load_grants (AList.update ?k ?n out) gs) = (map_of out)(?k \<mapsto> ?n) ++ ?m"
    using Cons.IH [of "AList.update ?k ?n out"] Cons.prems by (simp add: update_conv' del: fun_upd_apply)
  ultimately show ?case
    by (simp only: list.map map_of.simps fst_conv snd_conv)
qed simp

lemma map_of_map_snd: "map_of (map (\<lambda>e. (fst e, f (snd e))) xs) k = map_option f (map_of xs k)"
  by (induction xs) auto

lemma map_of_reload:
  assumes "grants_inv st"
  shows "map_of (load_trust_grants (hs_grants_file (snd (write_trust_grants None st)))) c
       = map_option normalize_trust_grant (map_of (hs_grants st) c)"
proof -
  let ?gs = "sort_key tg_controller (map (\<lambda>e. normalize_trust_grant (snd e)) (hs_grants st))"
  let ?pairs = "map (\<lambda>g. (trim_space (tg_controller g), normalize_trust_grant g)) ?gs"
  let ?orig = "map (\<lambda>e. (fst e, normalize_trust_grant (snd e))) (hs_grants st)"
  have ent: "trim_space (tg_controller (snd e)) = fst e" "fst e \<noteq> []" "trimmed (fst e)"
    if "e \<in> set (hs_grants st)" for e
    using assms that by (auto simp: grants_inv_def)
  have keys: "map (\<lambda>e. trim_space (tg_controller (normalize_trust_grant (snd e)))) (hs_grants st)
      = map fst (hs_grants st)"
    using ent by (auto intro: map_cong)
  have "distinct (map (\<lambda>g. trim_space (tg_controller g)) (map (\<lambda>e. normalize_trust_grant (snd e)) (hs_grants st)))"
    unfolding map_map comp_def keys using assms by (simp add: grants_inv_def)
  then have "distinct (map (\<lambda>g. trim_space (tg_controller g)) ?gs)"
    by (simp only: distinct_map distinct_sort set_sort)
  then have dp: "distinct (map fst ?pairs)"
    by (simp add: comp_def)
  have "set ?pairs = set ?orig"
    using ent by (force simp: image_iff)
  moreover have "distinct (map fst ?orig)"
    using assms by (simp add: grants_inv_def comp_def)
  ultimately have eq: "map_of ?pairs = map_of ?orig"
    using map_of_inject_set dp by blast
  have "map_of (load_grants [] ?gs) = map_of ?pairs"
    using load_grants_map_of [of ?gs "[]"] dp ent
    by (simp add: comp_def)
  then show ?thesis
    unfolding load_trust_grants_def write_trust_grants_def using eq
    by (simp add: map_of_map_snd)
qed

text \<open>
  Trust survives a restart. For a well-formed trust table (which every operation keeps),
  writing the file and loading it again trusts exactly the same controllers, each with its
  normalised grant.
\<close>

theorem trust_reload_roundtrip:
  assumes "grants_inv st" and "write_trust_grants None st = (r, st1)"
  shows "trusted_control_grant (st1\<lparr>hs_grants := load_trust_grants (hs_grants_file st1)\<rparr>) c
     = map_option normalize_trust_grant (trusted_control_grant st c)"
proof -
  have st1: "st1 = snd (write_trust_grants None st)"
    using assms(2) by simp
  show ?thesis
  proof (cases "map_of (hs_grants st) (trim_space c)")
    case (Some g)
    then show ?thesis
      using map_of_inv [OF assms(1) Some] trim_space_idem [of c] unfolding st1 trusted_control_grant_def
      by (auto simp: map_of_reload [OF assms(1)] default_to_def Let_def)
  qed (unfold st1 trusted_control_grant_def, simp add: map_of_reload [OF assms(1)])
qed

section \<open>Known hosts stay revoked\<close>

text \<open>
  A revoked known host cannot be added again under its own id: \<open>rememberKnownHost\<close> with
  that device id, however valid its key, fails and changes nothing.
\<close>

theorem known_host_revocation_sticky:
  assumes "map_of (hs_known st) (di_device ident) = Some h" and "known_host_revoked (normalize_known_host h)"
  shows "\<exists>e. remember_known_host sha256 now werr ident base st = (Inl e, st)"
  using assms by (auto simp: remember_known_host_def find_known_def Let_def split: sum.splits)

text \<open>
  But the check looks the id up as it was received while the entry is stored under the
  trimmed id. A host that announces its id with surrounding white space is looked up under
  another key, and its revoked entry is replaced by a fresh one that is not revoked.
\<close>

theorem known_host_revocation_bypass:
  assumes "map_of (hs_known st) d = Some h" and "known_host_revoked h"
    and "trim_space (di_device ident) = d" and "d \<noteq> []"
    and "map_of (hs_known st) (di_device ident) = None"
    and "decode_public_key (di_public_key ident) = Some key" and "di_fingerprint ident = []"
    and "\<not> blank (di_public_key ident)"
  shows "\<exists>h1 st1. remember_known_host sha256 now None ident base st = (Inr h1, st1)
     \<and> lookup_known_host st1 d = Some h1 \<and> \<not> known_host_revoked h1"
proof -
  have d: "trim_space d = d"
    using assms(3) by (metis trim_space_idem)
  have fresh: "\<not> known_host_revoked (normalize_known_host (find_known st (di_device ident)))"
    using assms(5) by (simp add: known_host_revoked_def normalize_known_host_def find_known_def
        empty_known_host_def)
  show ?thesis
    using assms fresh d
    by (simp add: remember_known_host_def decode_device_public_key_def Let_def write_known_hosts_def
        lookup_known_host_def update_conv' known_host_revoked_def)
qed

section \<open>A concrete store\<close>

definition demo_host :: host_store where
  "demo_host = \<lparr>hs_device = ''host'', hs_grants = [], hs_known = [], hs_pairing = [],
     hs_grants_file = None, hs_known_file = None, hs_pairing_file = None\<rparr>"

definition demo_sha :: "string \<Rightarrow> string" where
  "demo_sha k = ''s''"

definition demo_key :: string where
  "demo_key = std_encode (replicate 32 (CHR 0x00))"

lemma demo_key_facts:
  "decode_public_key demo_key = Some (replicate 32 (CHR 0x00))" "trim_space demo_key = demo_key"
  "demo_key \<noteq> []"
  by (simp_all add: demo_key_def decode_std_encode)

definition demo_trust :: trust_device_request where
  "demo_trust = \<lparr>tr_controller = '' phone'', tr_name = ''Phone'', tr_public_key = demo_key, tr_fingerprint = [],
     tr_scope = [], tr_capabilities = ['' core.read''], tr_exec_policy = []\<rparr>"

definition demo_grant :: trust_grant where
  "demo_grant = \<lparr>tg_host = ''host'', tg_controller = ''phone'', tg_name = ''Phone'', tg_public_key = demo_key,
     tg_fingerprint = ''sha256:73'', tg_scope = ''full'', tg_status = ''trusted'',
     tg_capabilities = [''core.read''], tg_exec_policy = ''trusted'', tg_created_at = ''t1'',
     tg_updated_at = ''t1'', tg_revoked_at = []\<rparr>"

lemma demo_trusted:
  "trust_device demo_sha ''t1'' None demo_trust demo_host
     = (Inr demo_grant, demo_host\<lparr>hs_grants := [(''phone'', demo_grant)], hs_grants_file := Some [demo_grant]\<rparr>)"
proof -
  have caps: "checked_capabilities ['' core.read''] = Inr [''core.read'']"
    "checked_exec_policy [] = Inr ''trusted''"
    by code_simp+
  have fp: "checked_fingerprint demo_sha demo_key [] = Inr ''sha256:73''"
    by (simp add: checked_fingerprint_def decode_device_public_key_def demo_key_facts
        public_key_fingerprint_def demo_sha_def hex_upper_def hex_digit_def)
  have tr: "trim_space '' phone'' = ''phone''" "trim_space ''Phone'' = ''Phone''"
    by code_simp+
  have "normalize_capabilities [''core.read''] = [''core.read'']"
    "trim_space ''host'' = ''host''" "trim_space ''phone'' = ''phone''"
    "trim_space ''sha256:73'' = ''sha256:73''" "trim_space ''full'' = ''full''" "trim_space ''trusted'' = ''trusted''"
    by code_simp+
  then have norm: "normalize_trust_grant demo_grant = demo_grant"
    by (simp add: normalize_trust_grant_def demo_grant_def demo_key_facts tr normalize_exec_policy_def default_to_def)
  have same: "demo_grant\<lparr>tg_revoked_at := []\<rparr> = demo_grant"
    by (simp add: demo_grant_def)
  show ?thesis
    by (simp add: trust_device_def demo_trust_def demo_host_def tr caps fp demo_key_facts Let_def
        find_grant_def empty_grant_def store_grant_def write_trust_grants_def default_to_def
        status_trusted_def scope_full_def demo_grant_def [symmetric] norm same)
qed

lemma trust_device_grants_witness:
  "set (tg_capabilities demo_grant) \<subseteq> set default_host_capabilities \<and>
   trusted_control_grant (demo_host\<lparr>hs_grants := [(''phone'', demo_grant)],
     hs_grants_file := Some [demo_grant]\<rparr>) '' phone'' = Some demo_grant"
  using trust_device_grants [OF demo_trusted] by (simp add: demo_trust_def)

lemma revoke_effective_witness:
  "trusted_control_grant (snd (revoke_trust_grant ''t2'' (Some ''disk full'') ''phone''
     (demo_host\<lparr>hs_grants := [(''phone'', demo_grant)]\<rparr>))) ''phone'' = None"
proof -
  have "trim_space ''phone'' \<noteq> []" by code_simp
  then show ?thesis using revoke_effective by blast
qed

lemma trust_write_failure_grants_witness:
  "\<exists>st2. trust_device demo_sha ''t1'' (Some ''disk full'') demo_trust demo_host
       = (Inl (OpaqueError ''disk full''), st2)
     \<and> trusted_control_grant st2 '' phone'' = Some demo_grant \<and> hs_grants_file st2 = None"
  using trust_write_failure_grants [OF demo_trusted, of "''disk full''"]
  by (simp add: demo_trust_def demo_host_def)

lemma trust_reload_roundtrip_witness:
  "\<exists>st1. hs_grants_file st1 = Some [normalize_trust_grant demo_grant] \<and>
     trusted_control_grant (st1\<lparr>hs_grants := load_trust_grants (hs_grants_file st1)\<rparr>) ''phone''
       = Some (normalize_trust_grant demo_grant)"
proof -
  let ?st = "demo_host\<lparr>hs_grants := [(''phone'', demo_grant)]\<rparr>"
  let ?st1 = "?st\<lparr>hs_grants_file := Some [normalize_trust_grant demo_grant]\<rparr>"
  have trims: "trimmed ''host''" "trim_space ''phone'' = ''phone''" "trimmed ''trusted''"
    by code_simp+
  then have "grants_inv ?st"
    by (simp add: grants_inv_def demo_host_def demo_grant_def)
  moreover have "write_trust_grants None ?st = (None, ?st1)"
    by (simp add: write_trust_grants_def)
  moreover have "trusted_control_grant ?st ''phone'' = Some demo_grant"
    by (simp add: trusted_control_grant_def trims demo_host_def demo_grant_def status_trusted_def)
  ultimately show ?thesis
    using trust_reload_roundtrip [of ?st None ?st1 "''phone''"]
    by (intro exI [of _ ?st1]) simp
qed

definition demo_removed :: known_host where
  "demo_removed = empty_known_host\<lparr>kh_device := ''desk'', kh_status := ''revoked''\<rparr>"

definition demo_identity :: device_identity where
  "demo_identity = \<lparr>di_device = ''desk'', di_name = [], di_public_key = demo_key, di_fingerprint = []\<rparr>"

lemma demo_removed_revoked:
  "known_host_revoked demo_removed" "known_host_revoked (normalize_known_host demo_removed)"
  by code_simp+

lemma known_host_revocation_sticky_witness:
  "\<exists>e. remember_known_host demo_sha ''t2'' None demo_identity []
     (demo_host\<lparr>hs_known := [(''desk'', demo_removed)]\<rparr>)
     = (Inl e, demo_host\<lparr>hs_known := [(''desk'', demo_removed)]\<rparr>)"
  by (rule known_host_revocation_sticky [OF _ demo_removed_revoked(2)]) (simp add: demo_identity_def)

lemma known_host_revocation_bypass_witness:
  "\<exists>h1 st1. remember_known_host demo_sha ''t2'' None (demo_identity\<lparr>di_device := '' desk''\<rparr>) []
      (demo_host\<lparr>hs_known := [(''desk'', demo_removed)]\<rparr>) = (Inr h1, st1)
     \<and> lookup_known_host st1 ''desk'' = Some h1 \<and> \<not> known_host_revoked h1"
proof -
  have "trim_space '' desk'' = ''desk''" by code_simp
  then show ?thesis
    using demo_removed_revoked(1) demo_key_facts
    by (intro known_host_revocation_bypass [where h = demo_removed and key = "replicate 32 (CHR 0x00)"])
      (simp_all add: demo_identity_def)
qed

end
