(* ===== verification/Pairing.thy ===== *)
theory Pairing
  imports HostTrust
begin

text \<open>
  \<open>daemon/pairing_requests.go\<close>: pairing requests, submitted by a controller or signalled by
  the cloud, then approved (which creates a trust grant) or denied. The operations act on
  the \<open>host_store\<close> of \<open>HostTrust\<close>. Where the code locks \<open>mu\<close> more than once in one call
  (\<open>approvePairingRequest\<close>, \<open>denyPairingRequest\<close>), each critical section is a function of its
  own, so that other calls can run in between. \<open>werr\<close> is the outcome of a file write.
\<close>

section \<open>Data\<close>

record pairing_input =
  pi_controller :: string
  pi_name :: string
  pi_kind :: string
  pi_public_key :: string
  pi_fingerprint :: string
  pi_scope :: string
  pi_capabilities :: "string list"
  pi_exec_policy :: string

text \<open>The fields of \<open>cloudmesh.PairingSignal\<close> and \<open>cloudmesh.DeviceRecord\<close> the code reads.\<close>

record cloud_signal =
  cs_request_id :: string
  cs_status :: string
  cs_controller :: string
  cs_fingerprint :: string
  cs_scope :: string
  cs_capabilities :: "string list"
  cs_exec_policy :: string
  cs_created_at :: string
  cs_updated_at :: string

record cloud_device =
  cd_device :: string
  cd_name :: string
  cd_kind :: string
  cd_public_key :: string
  cd_fingerprint :: string
  cd_can_control :: bool

definition pairing_pending :: string where "pairing_pending = ''pending''"
definition pairing_approved :: string where "pairing_approved = ''approved''"
definition pairing_denied :: string where "pairing_denied = ''denied''"
definition pairing_source_cloud :: string where "pairing_source_cloud = ''cloud''"

section \<open>The file\<close>

definition normalize_pairing_request :: "pairing_request \<Rightarrow> pairing_request" where
  "normalize_pairing_request r = r\<lparr>
     pr_id := trim_space (pr_id r),
     pr_source := trim_space (pr_source r),
     pr_cloud_id := trim_space (pr_cloud_id r),
     pr_host := trim_space (pr_host r),
     pr_controller := trim_space (pr_controller r),
     pr_name := trim_space (pr_name r),
     pr_kind := trim_space (pr_kind r),
     pr_public_key := trim_space (pr_public_key r),
     pr_fingerprint := trim_space (pr_fingerprint r),
     pr_scope := default_to scope_full (trim_space (pr_scope r)),
     pr_status := default_to pairing_pending (trim_space (pr_status r)),
     pr_capabilities := normalize_capabilities (pr_capabilities r),
     pr_exec_policy := default_to policy_trusted (normalize_exec_policy (pr_exec_policy r))\<rparr>"

fun load_requests ::
  "(string \<times> pairing_request) list \<Rightarrow> pairing_request list \<Rightarrow> (string \<times> pairing_request) list" where
  "load_requests out [] = out"
| "load_requests out (r # rs) =
     (let n = normalize_pairing_request r in
      if pr_id n = [] then load_requests out rs
      else load_requests (AList.update (pr_id n) n out) rs)"

definition load_pairing_requests :: "pairing_request list option \<Rightarrow> (string \<times> pairing_request) list" where
  "load_pairing_requests file = (case file of None \<Rightarrow> [] | Some rs \<Rightarrow> load_requests [] rs)"

definition write_pairing_requests :: "string option \<Rightarrow> host_store \<Rightarrow> go_error option \<times> host_store" where
  "write_pairing_requests werr st =
     (case werr of
        Some e \<Rightarrow> (Some (OpaqueError e), st)
      | None \<Rightarrow> (None, st\<lparr>hs_pairing_file :=
          Some (sort_key pr_id (map (\<lambda>e. normalize_pairing_request (snd e)) (hs_pairing st)))\<rparr>))"

definition store_request ::
  "string option \<Rightarrow> string \<Rightarrow> pairing_request \<Rightarrow> host_store \<Rightarrow>
   (go_error + pairing_request) \<times> host_store" where
  "store_request werr k r st =
     (case write_pairing_requests werr (st\<lparr>hs_pairing := AList.update k r (hs_pairing st)\<rparr>) of
        (Some e, st1) \<Rightarrow> (Inl e, st1)
      | (None, st1) \<Rightarrow> (Inr r, st1))"

section \<open>Submitting\<close>

definition validated_pairing_request ::
  "(string \<Rightarrow> string) \<Rightarrow> pairing_input \<Rightarrow> host_store \<Rightarrow> go_error + pairing_request" where
  "validated_pairing_request sha256 input st =
     (let c = trim_space (pi_controller input); key = trim_space (pi_public_key input) in
      if c = [] then Inl (bad_request ''controller_device_required'' ''controller_device_id required'')
      else if key = []
        then Inl (bad_request ''controller_public_key_required'' ''controller_public_key required'')
      else (case checked_fingerprint sha256 key (trim_space (pi_fingerprint input)) of
          Inl e \<Rightarrow> Inl e
        | Inr fingerprint \<Rightarrow>
            (case checked_capabilities (pi_capabilities input) of
               Inl e \<Rightarrow> Inl e
             | Inr caps \<Rightarrow>
                 (case checked_exec_policy (pi_exec_policy input) of
                    Inl e \<Rightarrow> Inl e
                  | Inr policy \<Rightarrow>
                      if c = hs_device st
                        then Inl (bad_request ''self_trust_not_allowed''
                                ''cannot add this Host as a trusted Controller'')
                      else Inr \<lparr>pr_id = [], pr_source = [], pr_cloud_id = [], pr_host = hs_device st,
                        pr_controller = c, pr_name = trim_space (pi_name input),
                        pr_kind = trim_space (pi_kind input), pr_public_key = key,
                        pr_fingerprint = fingerprint,
                        pr_scope = default_to scope_full (trim_space (pi_scope input)),
                        pr_status = pairing_pending, pr_capabilities = caps,
                        pr_exec_policy = policy, pr_created_at = [], pr_updated_at = [],
                        pr_resolved_at = []\<rparr>))))"

definition same_pending :: "pairing_request \<Rightarrow> pairing_request \<Rightarrow> bool" where
  "same_pending r existing \<longleftrightarrow> pr_status existing = pairing_pending \<and>
     pr_controller existing = pr_controller r \<and> pr_public_key existing = pr_public_key r"

definition already_trusted :: go_error where
  "already_trusted = ActionError 409 ''controller_already_trusted'' ''controller is already trusted''"

definition submit_pairing_request ::
  "(string \<Rightarrow> string) \<Rightarrow> string \<Rightarrow> string \<Rightarrow> string option \<Rightarrow> pairing_input \<Rightarrow> host_store \<Rightarrow>
   (go_error + pairing_request) \<times> host_store" where
  "submit_pairing_request sha256 now rid werr input st =
     (case validated_pairing_request sha256 input st of
        Inl e \<Rightarrow> (Inl e, st)
      | Inr r \<Rightarrow>
          if trusted_control_grant st (pr_controller r) \<noteq> None then (Inl already_trusted, st)
          else (case find (\<lambda>e. same_pending r (snd e)) (hs_pairing st) of
              Some (k, existing) \<Rightarrow>
                store_request werr (pr_id existing)
                  (r\<lparr>pr_id := pr_id existing, pr_created_at := pr_created_at existing,
                     pr_updated_at := now\<rparr>) st
            | None \<Rightarrow>
                store_request werr (''pair_'' @ rid)
                  (r\<lparr>pr_id := ''pair_'' @ rid, pr_created_at := now, pr_updated_at := now\<rparr>) st))"

definition local_cloud_request_id :: "string \<Rightarrow> string" where
  "local_cloud_request_id cid = ''cloud_'' @ trim_space cid"

definition cloud_request_needs_update :: "pairing_request \<Rightarrow> pairing_request \<Rightarrow> bool" where
  "cloud_request_needs_update existing0 next0 =
     (let existing = normalize_pairing_request existing0; nxt = normalize_pairing_request next0
      in pr_id existing \<noteq> pr_id nxt \<or> pr_source existing \<noteq> pr_source nxt \<or>
         pr_cloud_id existing \<noteq> pr_cloud_id nxt \<or> pr_host existing \<noteq> pr_host nxt \<or>
         pr_controller existing \<noteq> pr_controller nxt \<or> pr_name existing \<noteq> pr_name nxt \<or>
         pr_kind existing \<noteq> pr_kind nxt \<or> pr_public_key existing \<noteq> pr_public_key nxt \<or>
         pr_fingerprint existing \<noteq> pr_fingerprint nxt \<or> pr_scope existing \<noteq> pr_scope nxt \<or>
         pr_status existing \<noteq> pr_status nxt \<or> pr_exec_policy existing \<noteq> pr_exec_policy nxt \<or>
         pr_created_at existing \<noteq> pr_created_at nxt \<or> pr_updated_at existing \<noteq> pr_updated_at nxt \<or>
         pr_capabilities existing \<noteq> pr_capabilities nxt)"

definition check_cloud_signal :: "cloud_signal \<Rightarrow> cloud_device \<Rightarrow> go_error option" where
  "check_cloud_signal sig ctl =
     (if blank (cs_request_id sig)
        then Some (bad_request ''cloud_pairing_request_required'' ''cloud pairing request id required'')
      else if trim_space (cs_status sig) \<noteq> pairing_pending
        then Some (bad_request ''cloud_pairing_status_invalid'' ''cloud pairing request must be pending'')
      else if trim_space (cd_device ctl) \<noteq> trim_space (cs_controller sig)
        then Some (bad_request ''cloud_controller_mismatch'' ''cloud pairing controller device mismatch'')
      else if \<not> cd_can_control ctl
        then Some (bad_request ''cloud_controller_role_required''
               ''cloud controller device cannot control hosts'')
      else if cs_fingerprint sig \<noteq> [] \<and> trim_space (cs_fingerprint sig) \<noteq> trim_space (cd_fingerprint ctl)
        then Some (bad_request ''cloud_controller_fingerprint_mismatch''
               ''cloud controller public key fingerprint mismatch'')
      else None)"

definition cloud_input :: "cloud_signal \<Rightarrow> cloud_device \<Rightarrow> pairing_input" where
  "cloud_input sig ctl = \<lparr>pi_controller = cd_device ctl, pi_name = cd_name ctl, pi_kind = cd_kind ctl,
     pi_public_key = cd_public_key ctl, pi_fingerprint = cd_fingerprint ctl, pi_scope = cs_scope sig,
     pi_capabilities = cs_capabilities sig, pi_exec_policy = cs_exec_policy sig\<rparr>"

text \<open>The part of \<open>upsertCloudPairingRequest\<close> that stores: the flag tells if it was created.\<close>

definition with_flag :: "bool \<Rightarrow> (go_error + pairing_request) \<times> host_store \<Rightarrow>
    (go_error + pairing_request \<times> bool) \<times> host_store" where
  "with_flag created res = (case res of (Inl e, st) \<Rightarrow> (Inl e, st) | (Inr r, st) \<Rightarrow> (Inr (r, created), st))"

definition upsert_cloud_pairing_request ::
  "(string \<Rightarrow> string) \<Rightarrow> string \<Rightarrow> string option \<Rightarrow> cloud_signal \<Rightarrow> cloud_device \<Rightarrow> host_store \<Rightarrow>
   (go_error + pairing_request \<times> bool) \<times> host_store" where
  "upsert_cloud_pairing_request sha256 now werr sig ctl st =
     (case check_cloud_signal sig ctl of
        Some e \<Rightarrow> (Inl e, st)
      | None \<Rightarrow>
          (case validated_pairing_request sha256 (cloud_input sig ctl) st of
             Inl e \<Rightarrow> (Inl e, st)
           | Inr r0 \<Rightarrow>
               if trusted_control_grant st (pr_controller r0) \<noteq> None then (Inl already_trusted, st)
               else (let r = r0\<lparr>pr_id := local_cloud_request_id (trim_space (cs_request_id sig)),
                    pr_source := pairing_source_cloud, pr_cloud_id := trim_space (cs_request_id sig),
                    pr_created_at := default_to now (trim_space (cs_created_at sig)),
                    pr_updated_at := default_to now (trim_space (cs_updated_at sig))\<rparr>
                 in case map_of (hs_pairing st) (pr_id r) of
                      Some existing \<Rightarrow>
                        if pr_cloud_id existing \<noteq> [] \<and> pr_cloud_id existing \<noteq> pr_cloud_id r
                          then (Inl (ActionError 409 ''pairing_request_id_conflict''
                                  ''pairing request id conflict''), st)
                        else if pr_status existing \<noteq> pairing_pending then (Inr (existing, False), st)
                        else (let r1 = r\<lparr>pr_created_at := pr_created_at existing\<rparr>
                          in if \<not> cloud_request_needs_update existing r1 then (Inr (existing, False), st)
                             else with_flag False (store_request werr (pr_id r1) r1 st))
                    | None \<Rightarrow>
                        (case find (\<lambda>e. same_pending r (snd e)) (hs_pairing st) of
                           Some (k, existing) \<Rightarrow>
                             (let r1 = r\<lparr>pr_id := pr_id existing, pr_created_at := pr_created_at existing\<rparr>
                              in if \<not> cloud_request_needs_update existing r1 then (Inr (existing, False), st)
                                 else with_flag False (store_request werr k r1 st))
                         | None \<Rightarrow> with_flag True (store_request werr (pr_id r) r st)))))"

section \<open>Reading\<close>

definition lookup_pairing_request :: "string \<Rightarrow> host_store \<Rightarrow> pairing_request option" where
  "lookup_pairing_request rid st = map_of (hs_pairing st) (trim_space rid)"

definition pairing_request_by_cloud_id :: "string \<Rightarrow> host_store \<Rightarrow> pairing_request option" where
  "pairing_request_by_cloud_id cid st =
     (if blank cid then None
      else map_option snd (find (\<lambda>e. pr_cloud_id (snd e) = trim_space cid) (hs_pairing st)))"

definition listed_before :: "pairing_request \<Rightarrow> pairing_request \<Rightarrow> bool" where
  "listed_before a b \<longleftrightarrow>
     (if pr_status a = pairing_pending \<and> pr_status b \<noteq> pairing_pending then True
      else if pr_status a \<noteq> pairing_pending \<and> pr_status b = pairing_pending then False
      else pr_updated_at a > pr_updated_at b)"

fun insert_listed :: "pairing_request \<Rightarrow> pairing_request list \<Rightarrow> pairing_request list" where
  "insert_listed r [] = [r]"
| "insert_listed r (x # xs) = (if listed_before x r then x # insert_listed r xs else r # x # xs)"

definition list_pairing_requests :: "host_store \<Rightarrow> pairing_request list" where
  "list_pairing_requests st = foldr insert_listed (map snd (hs_pairing st)) []"

section \<open>Resolving\<close>

definition deny_pending_for_device ::
  "string \<Rightarrow> string option \<Rightarrow> string \<Rightarrow> host_store \<Rightarrow> (go_error + pairing_request list) \<times> host_store" where
  "deny_pending_for_device now werr device0 st =
     (let device = trim_space device0;
          hit = (\<lambda>r. pr_status r = pairing_pending \<and> (pr_host r = device \<or> pr_controller r = device));
          deny = (\<lambda>r. r\<lparr>pr_status := pairing_denied, pr_updated_at := now, pr_resolved_at := now\<rparr>);
          resolved = map (\<lambda>e. deny (snd e)) (filter (\<lambda>e. hit (snd e)) (hs_pairing st))
      in if device = [] then (Inr [], st)
         else if resolved = [] then (Inr [], st)
         else (case write_pairing_requests werr
                 (st\<lparr>hs_pairing := map (\<lambda>e. if hit (snd e) then (fst e, deny (snd e)) else e) (hs_pairing st)\<rparr>) of
             (Some e, st1) \<Rightarrow> (Inl e, st1)
           | (None, st1) \<Rightarrow> (Inr resolved, st1)))"

definition pending_pairing_request :: "string \<Rightarrow> host_store \<Rightarrow> go_error + pairing_request" where
  "pending_pairing_request rid0 st =
     (let rid = trim_space rid0 in
      if rid = [] then Inl (bad_request ''pairing_request_required'' ''request_id required'')
      else (case map_of (hs_pairing st) rid of
          None \<Rightarrow> Inl (ActionError 404 ''pairing_request_not_found'' ''pairing request not found'')
        | Some r \<Rightarrow>
            if pr_host r \<noteq> hs_device st
              then Inl (ActionError 404 ''pairing_request_not_found'' ''pairing request not found'')
            else if pr_status r \<noteq> pairing_pending
              then Inl (ActionError 409 ''pairing_request_resolved'' ''pairing request is already resolved'')
            else Inr r))"

definition resolve_pairing_request ::
  "string \<Rightarrow> string option \<Rightarrow> string \<Rightarrow> string \<Rightarrow> host_store \<Rightarrow>
   (go_error + pairing_request) \<times> host_store" where
  "resolve_pairing_request now werr rid status st =
     (case map_of (hs_pairing st) rid of
        None \<Rightarrow> (Inl (ActionError 404 ''pairing_request_not_found'' ''pairing request not found''), st)
      | Some r \<Rightarrow>
          store_request werr rid
            (r\<lparr>pr_status := status, pr_updated_at := now, pr_resolved_at := now\<rparr>) st)"

definition trust_request_of :: "pairing_request \<Rightarrow> trust_device_request" where
  "trust_request_of r = \<lparr>tr_controller = pr_controller r, tr_name = pr_name r,
     tr_public_key = pr_public_key r, tr_fingerprint = pr_fingerprint r, tr_scope = pr_scope r,
     tr_capabilities = pr_capabilities r, tr_exec_policy = pr_exec_policy r\<rparr>"

text \<open>
  \<open>approvePairingRequest\<close> with nothing in between its three critical sections: the check, the
  grant, the resolution (each write has its own outcome).
\<close>

definition approve_pairing_request ::
  "(string \<Rightarrow> string) \<Rightarrow> string \<Rightarrow> string option \<Rightarrow> string option \<Rightarrow> string \<Rightarrow> host_store \<Rightarrow>
   (go_error + pairing_request \<times> trust_grant) \<times> host_store" where
  "approve_pairing_request sha256 now werr1 werr2 rid st =
     (case pending_pairing_request rid st of
        Inl e \<Rightarrow> (Inl e, st)
      | Inr r \<Rightarrow>
          (case trust_device sha256 now werr1 (trust_request_of r) st of
             (Inl e, st1) \<Rightarrow> (Inl e, st1)
           | (Inr g, st1) \<Rightarrow>
               (case resolve_pairing_request now werr2 (pr_id r) pairing_approved st1 of
                  (Inl e, st2) \<Rightarrow> (Inl e, st2)
                | (Inr r2, st2) \<Rightarrow> (Inr (r2, g), st2))))"

definition deny_pairing_request ::
  "string \<Rightarrow> string option \<Rightarrow> string \<Rightarrow> host_store \<Rightarrow> (go_error + pairing_request) \<times> host_store" where
  "deny_pairing_request now werr rid st =
     (case pending_pairing_request rid st of
        Inl e \<Rightarrow> (Inl e, st)
      | Inr r \<Rightarrow> resolve_pairing_request now werr (pr_id r) pairing_denied st)"

section \<open>Frames\<close>

lemma pairing_constants [simp]:
  "pairing_pending \<noteq> pairing_approved" "pairing_pending \<noteq> pairing_denied"
  "pairing_approved \<noteq> pairing_pending" "pairing_denied \<noteq> pairing_pending"
  "pairing_approved \<noteq> pairing_denied" "pairing_denied \<noteq> pairing_approved"
  by (simp_all add: pairing_pending_def pairing_approved_def pairing_denied_def)

lemma write_pairing_frame [simp, frame]:
  "hs_grants (snd (write_pairing_requests werr st)) = hs_grants st"
  "hs_device (snd (write_pairing_requests werr st)) = hs_device st"
  "hs_pairing (snd (write_pairing_requests werr st)) = hs_pairing st"
  by (simp_all add: write_pairing_requests_def split: option.split)

lemma store_request_frame [simp, frame]:
  "hs_pairing (snd (store_request werr k r st)) = AList.update k r (hs_pairing st)"
  "hs_grants (snd (store_request werr k r st)) = hs_grants st"
  "hs_device (snd (store_request werr k r st)) = hs_device st"
  by (simp_all add: store_request_def write_pairing_requests_def split: option.split)

lemma store_request_fst [simp]:
  "fst (store_request werr k r st) = (case werr of Some e \<Rightarrow> Inl (OpaqueError e) | None \<Rightarrow> Inr r)"
  by (simp add: store_request_def write_pairing_requests_def split: option.split)

lemma with_flag_snd [simp]: "snd (with_flag b res) = snd res"
  by (simp add: with_flag_def split: prod.split sum.split)

lemma trust_device_frame [simp, frame]:
  "hs_pairing (snd (trust_device sha256 now werr req st)) = hs_pairing st"
  "hs_device (snd (trust_device sha256 now werr req st)) = hs_device st"
  by (rule trust_device_cases [of sha256 now werr req st]; simp)+

lemma revoke_frame [simp, frame]:
  "hs_pairing (snd (revoke_trust_grant now werr c st)) = hs_pairing st"
  "hs_device (snd (revoke_trust_grant now werr c st)) = hs_device st"
  by (rule revoke_cases [of now werr c st]; simp)+

section \<open>The pairing table\<close>

definition pairing_inv :: "host_store \<Rightarrow> bool" where
  "pairing_inv st \<longleftrightarrow> distinct (map fst (hs_pairing st)) \<and> (\<forall>(k, r) \<in> set (hs_pairing st). k = pr_id r)"

lemma pairing_inv_store:
  "pairing_inv st \<Longrightarrow> pr_id r = k \<Longrightarrow> pairing_inv (snd (store_request werr k r st))"
  using set_AList_update [of k r "hs_pairing st"] by (auto simp: pairing_inv_def distinct_update)

lemma pairing_inv_frame:
  "pairing_inv st \<Longrightarrow> hs_pairing st' = hs_pairing st \<Longrightarrow> pairing_inv st'"
  by (simp add: pairing_inv_def)

lemma find_pairing:
  assumes "pairing_inv st" "find (\<lambda>e. same_pending r (snd e)) (hs_pairing st) = Some (k, x)"
  shows "map_of (hs_pairing st) k = Some x" "k = pr_id x" "same_pending r x"
proof -
  have "(k, x) \<in> set (hs_pairing st)" "same_pending r x"
    using find_SomeD [OF assms(2)] by auto
  then show "map_of (hs_pairing st) k = Some x" "k = pr_id x" "same_pending r x"
    using assms(1) by (auto simp: pairing_inv_def)
qed

lemma map_of_pairing: "pairing_inv st \<Longrightarrow> map_of (hs_pairing st) k = Some r \<Longrightarrow> pr_id r = k"
  using map_of_SomeD by (fastforce simp: pairing_inv_def)

text \<open>
  What a store-and-forget operation can do to the table: nothing, or put a request under its
  own id, which is new, the given one, or that of a pending request.
\<close>

definition table_step :: "string option \<Rightarrow> host_store \<Rightarrow> host_store \<Rightarrow> bool" where
  "table_step new st st' \<longleftrightarrow> hs_grants st' = hs_grants st \<and> hs_device st' = hs_device st \<and>
     (hs_pairing st' = hs_pairing st \<or>
      (\<exists>k r. hs_pairing st' = AList.update k r (hs_pairing st) \<and> pr_id r = k \<and>
         (new = Some k \<or> map_of (hs_pairing st) k = None \<or>
          (\<exists>old. map_of (hs_pairing st) k = Some old \<and> pr_status old = pairing_pending))))"

lemma table_step_refl [simp]: "table_step new st st"
  by (simp add: table_step_def)

lemma table_step_store:
  "pr_id r = k \<Longrightarrow> new = Some k \<or> map_of (hs_pairing st) k = None \<or>
     (\<exists>old. map_of (hs_pairing st) k = Some old \<and> pr_status old = pairing_pending) \<Longrightarrow>
   table_step new st (snd (store_request werr k r st))"
  by (auto simp: table_step_def)

lemma table_step_inv: "pairing_inv st \<Longrightarrow> table_step new st st' \<Longrightarrow> pairing_inv st'"
  using set_AList_update [of _ _ "hs_pairing st"]
  by (fastforce simp: table_step_def pairing_inv_def distinct_update)

lemma submit_table_step:
  assumes "pairing_inv st"
  shows "table_step (Some (''pair_'' @ rid)) st (snd (submit_pairing_request sha256 now rid werr input st))"
proof (cases "validated_pairing_request sha256 input st")
  case (Inr r)
  show ?thesis
  proof (cases "find (\<lambda>e. same_pending r (snd e)) (hs_pairing st)")
    case None
    then show ?thesis
      using Inr by (auto simp: submit_pairing_request_def intro: table_step_store)
  next
    case (Some e)
    obtain k x where e: "e = (k, x)" by (cases e)
    have x: "map_of (hs_pairing st) (pr_id x) = Some x" "pr_status x = pairing_pending"
      using find_pairing [OF assms Some [unfolded e]] by (simp_all add: same_pending_def)
    then show ?thesis
      using Inr Some e by (auto simp: submit_pairing_request_def intro!: table_step_store)
  qed
qed (simp add: submit_pairing_request_def)

lemma upsert_table_step:
  assumes "pairing_inv st"
  shows "table_step None st (snd (upsert_cloud_pairing_request sha256 now werr sig ctl st))"
proof (cases "check_cloud_signal sig ctl")
  case None
  show ?thesis
  proof (cases "validated_pairing_request sha256 (cloud_input sig ctl) st")
    case (Inr r0)
    let ?r = "r0\<lparr>pr_id := local_cloud_request_id (trim_space (cs_request_id sig)),
      pr_source := pairing_source_cloud, pr_cloud_id := trim_space (cs_request_id sig),
      pr_created_at := default_to now (trim_space (cs_created_at sig)),
      pr_updated_at := default_to now (trim_space (cs_updated_at sig))\<rparr>"
    show ?thesis
    proof (cases "map_of (hs_pairing st) (pr_id ?r)")
      case (Some existing)
      then show ?thesis
        using None Inr by (auto simp: upsert_cloud_pairing_request_def Let_def intro!: table_step_store)
    next
      case new: None
      show ?thesis
      proof (cases "find (\<lambda>e. same_pending ?r (snd e)) (hs_pairing st)")
        case (Some e)
        obtain k x where e: "e = (k, x)" by (cases e)
        have x: "map_of (hs_pairing st) k = Some x" "pr_id x = k" "pr_status x = pairing_pending"
          using find_pairing [OF assms Some [unfolded e]] by (simp_all add: same_pending_def)
        then show ?thesis
          using None Inr new Some e
          by (auto simp: upsert_cloud_pairing_request_def Let_def intro!: table_step_store)
      qed (use None Inr new in \<open>auto simp: upsert_cloud_pairing_request_def Let_def intro!: table_step_store\<close>)
    qed
  qed (use None in \<open>simp add: upsert_cloud_pairing_request_def\<close>)
qed (simp add: upsert_cloud_pairing_request_def)

lemma pending_pairing_requestD:
  assumes "pending_pairing_request rid st = Inr r"
  shows "map_of (hs_pairing st) (trim_space rid) = Some r" "pr_host r = hs_device st"
    "pr_status r = pairing_pending"
  using assms by (auto simp: pending_pairing_request_def Let_def split: if_splits option.splits)

lemma deny_table_step:
  assumes "pairing_inv st"
  shows "table_step None st (snd (deny_pairing_request now werr rid st))"
proof (cases "pending_pairing_request rid st")
  case (Inr r)
  note D = pending_pairing_requestD [OF Inr]
  have "pr_id r = trim_space rid"
    using map_of_pairing [OF assms D(1)] .
  then show ?thesis
    using Inr D by (auto simp: deny_pairing_request_def resolve_pairing_request_def intro!: table_step_store)
qed (simp add: deny_pairing_request_def)

text \<open>Approving: the grant is stored, then the request is resolved.\<close>

lemma approve_cases:
  assumes inv: "pairing_inv st"
  obtains (failed) e where "approve_pairing_request sha256 now w1 w2 rid st = (Inl e, st)"
  | (granted) r g t where "pending_pairing_request rid st = Inr r" "pr_id r = trim_space rid"
      "trust_device sha256 now w1 (trust_request_of r) st = (t, g)"
      "snd (approve_pairing_request sha256 now w1 w2 rid st) = g
       \<or> snd (approve_pairing_request sha256 now w1 w2 rid st) = snd (store_request w2 (pr_id r)
            (r\<lparr>pr_status := pairing_approved, pr_updated_at := now, pr_resolved_at := now\<rparr>) g)"
proof (cases "pending_pairing_request rid st")
  case (Inl e)
  then show ?thesis
    using failed by (simp add: approve_pairing_request_def)
next
  case (Inr r)
  note D = pending_pairing_requestD [OF Inr]
  have k: "pr_id r = trim_space rid"
    using map_of_pairing [OF inv D(1)] .
  obtain t st1 where t: "trust_device sha256 now w1 (trust_request_of r) st = (t, st1)"
    by fastforce
  have p: "hs_pairing st1 = hs_pairing st"
    using trust_device_frame(1) [of sha256 now w1 "trust_request_of r" st] t by simp
  show ?thesis
    using granted [OF Inr k t] Inr t D(1) p k
    by (auto simp: approve_pairing_request_def resolve_pairing_request_def
        split: sum.splits prod.splits)
qed

section \<open>Sequences of operations\<close>

datatype host_op =
    TrustOp string "string option" trust_device_request
  | RevokeOp string "string option" string
  | SubmitOp string string "string option" pairing_input
  | UpsertOp string "string option" cloud_signal cloud_device
  | ApproveOp string "string option" "string option" string
  | DenyOp string "string option" string
  | DenyDeviceOp string "string option" string

fun host_step :: "(string \<Rightarrow> string) \<Rightarrow> host_op \<Rightarrow> host_store \<Rightarrow> host_store" where
  "host_step sha (TrustOp now w req) st = snd (trust_device sha now w req st)"
| "host_step sha (RevokeOp now w c) st = snd (revoke_trust_grant now w c st)"
| "host_step sha (SubmitOp now rid w input) st = snd (submit_pairing_request sha now rid w input st)"
| "host_step sha (UpsertOp now w sig ctl) st = snd (upsert_cloud_pairing_request sha now w sig ctl st)"
| "host_step sha (ApproveOp now w1 w2 rid) st = snd (approve_pairing_request sha now w1 w2 rid st)"
| "host_step sha (DenyOp now w rid) st = snd (deny_pairing_request now w rid st)"
| "host_step sha (DenyDeviceOp now w d) st = snd (deny_pending_for_device now w d st)"

definition host_run :: "(string \<Rightarrow> string) \<Rightarrow> host_op list \<Rightarrow> host_store \<Rightarrow> host_store" where
  "host_run sha ops st = fold (host_step sha) ops st"

lemma host_run_simps [simp]:
  "host_run sha [] st = st" "host_run sha (p # ops) st = host_run sha ops (host_step sha p st)"
  by (simp_all add: host_run_def)

lemma deny_device_frame:
  "hs_grants (snd (deny_pending_for_device now w d st)) = hs_grants st"
  "hs_device (snd (deny_pending_for_device now w d st)) = hs_device st"
  by (auto simp: deny_pending_for_device_def write_pairing_requests_def Let_def split: option.splits)

lemma deny_device_pairing:
  "hs_pairing (snd (deny_pending_for_device now w d st)) =
     (if trim_space d = [] then hs_pairing st
      else map (\<lambda>e. if pr_status (snd e) = pairing_pending
                  \<and> (pr_host (snd e) = trim_space d \<or> pr_controller (snd e) = trim_space d)
              then (fst e, (snd e)\<lparr>pr_status := pairing_denied, pr_updated_at := now, pr_resolved_at := now\<rparr>)
              else e) (hs_pairing st))"
proof -
  let ?hit = "\<lambda>r. pr_status r = pairing_pending \<and> (pr_host r = trim_space d \<or> pr_controller r = trim_space d)"
  have none: "map (\<lambda>e. if ?hit (snd e) then (fst e, f (snd e)) else e) xs = xs"
    if "filter (\<lambda>e. ?hit (snd e)) xs = []" for f :: "pairing_request \<Rightarrow> pairing_request" and xs :: "(string \<times> pairing_request) list"
    using that by (induction xs) (auto split: if_splits)
  show ?thesis
    unfolding deny_pending_for_device_def Let_def
    using none [of "hs_pairing st" "\<lambda>r. r\<lparr>pr_status := pairing_denied, pr_updated_at := now,
      pr_resolved_at := now\<rparr>", symmetric]
    by (auto simp: write_pairing_requests_def split: option.splits)
qed

lemma map_of_deny_device:
  "map_of (hs_pairing (snd (deny_pending_for_device now w d st))) k =
     map_option (\<lambda>r. if trim_space d \<noteq> [] \<and> pr_status r = pairing_pending
                  \<and> (pr_host r = trim_space d \<or> pr_controller r = trim_space d)
         then r\<lparr>pr_status := pairing_denied, pr_updated_at := now, pr_resolved_at := now\<rparr> else r)
       (map_of (hs_pairing st) k)"
proof (cases "trim_space d = []")
  case False
  have "map_of (map (\<lambda>e. if p (snd e) then (fst e, f (snd e)) else e) xs) k
      = map_option (\<lambda>r. if p r then f r else r) (map_of xs k)"
    for p and f :: "pairing_request \<Rightarrow> pairing_request" and xs
    by (induction xs) auto
  then show ?thesis
    using False unfolding deny_device_pairing by simp
qed (simp add: deny_device_pairing option.map_ident)

lemma map_fst_update_if: "map fst (map (\<lambda>e. if p e then (fst e, f e) else e) xs) = map fst xs"
  by (induction xs) auto

lemma pairing_inv_deny_device:
  assumes "pairing_inv st"
  shows "pairing_inv (snd (deny_pending_for_device now w d st))"
proof (cases "trim_space d = []")
  case False
  have "distinct (map fst (hs_pairing (snd (deny_pending_for_device now w d st))))"
    using assms False unfolding deny_device_pairing by (simp add: pairing_inv_def map_fst_update_if del: map_map)
  then show ?thesis
    using assms False by (auto simp: pairing_inv_def deny_device_pairing)
qed (use assms in \<open>simp add: pairing_inv_def deny_device_pairing\<close>)

lemma host_step_inv:
  assumes "pairing_inv st"
  shows "pairing_inv (host_step sha p st)"
proof (cases p)
  case (ApproveOp now w1 w2 rid)
  from assms show ?thesis
  proof (cases rule: approve_cases [of st sha now w1 w2 rid])
    case (granted r g t)
    have "hs_pairing g = hs_pairing st"
      using trust_device_frame(1) [of sha now w1 "trust_request_of r" st] granted(3) by simp
    then have g: "pairing_inv g"
      using assms by (rule pairing_inv_frame [rotated])
    have "pairing_inv (snd (store_request w2 (pr_id r)
        (r\<lparr>pr_status := pairing_approved, pr_updated_at := now, pr_resolved_at := now\<rparr>) g))"
      by (rule pairing_inv_store [OF g]) simp
    then show ?thesis
      using granted(4) g ApproveOp by auto
  qed (use assms ApproveOp in simp)
qed (use assms table_step_inv [OF assms submit_table_step [OF assms]]
      table_step_inv [OF assms upsert_table_step [OF assms]]
      table_step_inv [OF assms deny_table_step [OF assms]] pairing_inv_deny_device [OF assms]
      pairing_inv_frame [OF assms] in auto)

lemma host_run_inv: "pairing_inv st \<Longrightarrow> pairing_inv (host_run sha ops st)"
  by (induction ops arbitrary: st) (auto simp: host_step_inv)

text \<open>A resolved request is not touched by any operation.\<close>

lemma table_step_resolved:
  assumes "table_step new st st'" "map_of (hs_pairing st) k = Some r" "pr_status r \<noteq> pairing_pending"
    "new \<noteq> Some k"
  shows "map_of (hs_pairing st') k = Some r"
  using assms by (auto simp: table_step_def update_conv' split: if_splits)

lemma host_step_resolved:
  assumes inv: "pairing_inv st" and k: "map_of (hs_pairing st) k = Some r"
    and resolved: "pr_status r \<noteq> pairing_pending"
    and fresh: "\<And>now rid w input. p = SubmitOp now rid w input \<Longrightarrow> ''pair_'' @ rid \<noteq> k"
  shows "map_of (hs_pairing (host_step sha p st)) k = Some r"
proof (cases p)
  case (ApproveOp now w1 w2 rid)
  from inv show ?thesis
  proof (cases rule: approve_cases [of st sha now w1 w2 rid])
    case (granted r1 g t)
    have g: "hs_pairing g = hs_pairing st"
      using trust_device_frame(1) [of sha now w1 "trust_request_of r1" st] granted(3) by simp
    have "map_of (hs_pairing st) (pr_id r1) = Some r1" "pr_status r1 = pairing_pending"
      using pending_pairing_requestD [OF granted(1)] granted(2) by simp_all
    then have "k \<noteq> pr_id r1"
      using k resolved by auto
    then show ?thesis
      using granted(4) ApproveOp k g by (auto simp: update_conv')
  qed (use k ApproveOp in simp)
next
  case (SubmitOp now rid w input)
  then show ?thesis
    using table_step_resolved [OF submit_table_step [OF inv] k resolved] fresh by simp
next
  case (UpsertOp now w sig ctl)
  then show ?thesis
    using table_step_resolved [OF upsert_table_step [OF inv] k resolved] by simp
next
  case (DenyOp now w rid)
  then show ?thesis
    using table_step_resolved [OF deny_table_step [OF inv] k resolved] by simp
qed (use k resolved in \<open>auto simp: map_of_deny_device\<close>)

section \<open>Properties\<close>

text \<open>
  A resolved pairing request is final. Once a request is approved or denied, no sequence of
  the store's operations (each run to completion) changes it, as long as no submission draws
  its id at random again.
\<close>

theorem resolved_requests_final:
  assumes "pairing_inv st" and "map_of (hs_pairing st) k = Some r" and "pr_status r \<noteq> pairing_pending"
    and "\<And>now rid w input. SubmitOp now rid w input \<in> set ops \<Longrightarrow> ''pair_'' @ rid \<noteq> k"
  shows "map_of (hs_pairing (host_run sha ops st)) k = Some r"
  using assms
proof (induction ops arbitrary: st)
  case (Cons p ops)
  have "map_of (hs_pairing (host_step sha p st)) k = Some r"
    using Cons.prems by (intro host_step_resolved) auto
  then have "map_of (hs_pairing (host_run sha ops (host_step sha p st))) k = Some r"
    using Cons.prems by (intro Cons.IH host_step_inv) auto
  then show ?case by simp
qed simp

text \<open>The operations that can make a controller trusted in a state.\<close>

fun grants_trust :: "string \<Rightarrow> host_op \<Rightarrow> host_store \<Rightarrow> bool" where
  "grants_trust c (TrustOp now w req) st = (trim_space (tr_controller req) = c)"
| "grants_trust c (ApproveOp now w1 w2 rid) st =
     (case pending_pairing_request rid st of Inl e \<Rightarrow> False | Inr r \<Rightarrow> trim_space (pr_controller r) = c)"
| "grants_trust c op st = False"

lemma table_step_trusted: "table_step new st st' \<Longrightarrow> trusted_control_grant st' c = trusted_control_grant st c"
  by (auto simp: table_step_def intro: trusted_frame)

lemma trust_device_others:
  assumes "trim_space (tr_controller req) \<noteq> trim_space c"
  shows "trusted_control_grant (snd (trust_device sha now w req st)) c = trusted_control_grant st c"
proof (cases rule: trust_device_cases [of sha now w req st])
  case (stored g)
  then show ?thesis
    using assms by (auto simp: trusted_store granted_def)
qed simp

lemma trusted_store_request:
  "trusted_control_grant (snd (store_request w k r st)) c = trusted_control_grant st c"
  by (rule trusted_frame) simp_all

lemma revoke_never_trusts:
  "trusted_control_grant st c = None \<Longrightarrow> trusted_control_grant (snd (revoke_trust_grant now w d st)) c = None"
  by (rule revoke_cases [of now w d st]) (auto simp: trusted_store)

lemma host_step_untrusted:
  assumes inv: "pairing_inv st" and c: "trusted_control_grant st c = None"
    and no: "\<not> grants_trust (trim_space c) p st"
  shows "trusted_control_grant (host_step sha p st) c = None"
proof (cases p)
  case (ApproveOp now w1 w2 rid)
  from inv show ?thesis
  proof (cases rule: approve_cases [of st sha now w1 w2 rid])
    case (granted r g t)
    then have "trim_space (tr_controller (trust_request_of r)) \<noteq> trim_space c"
      using no ApproveOp by (simp add: trust_request_of_def)
    then have "trusted_control_grant g c = None"
      using trust_device_others [of "trust_request_of r" c sha now w1 st] granted(3) c by simp
    then show ?thesis
      using granted(4) ApproveOp trusted_store_request by auto
  qed (use c ApproveOp in simp)
next
  case (TrustOp now w req)
  then show ?thesis
    using no c trust_device_others by simp
next
  case (RevokeOp now w d)
  then show ?thesis
    using c revoke_never_trusts by simp
next
  case (SubmitOp now rid w input)
  then show ?thesis
    using c table_step_trusted [OF submit_table_step [OF inv]] by simp
next
  case (UpsertOp now w sig ctl)
  then show ?thesis
    using c table_step_trusted [OF upsert_table_step [OF inv]] by simp
next
  case (DenyOp now w rid)
  then show ?thesis
    using c table_step_trusted [OF deny_table_step [OF inv]] by simp
next
  case (DenyDeviceOp now w d)
  then show ?thesis
    using c trusted_frame [OF deny_device_frame] by simp
qed

text \<open>
  C6: No trust without a decision on the host. If a controller is not trusted now and is
  trusted after a sequence of the store's operations, then that sequence contains a direct
  grant to this controller, or the approval of a request that was pending and named this
  controller at that moment. Submissions, cloud signals, denials and revocations never create
  trust.
\<close>

theorem trust_needs_decision:
  assumes "pairing_inv st" and "trusted_control_grant st c = None"
    and "trusted_control_grant (host_run sha ops st) c \<noteq> None"
  shows "\<exists>ops1 p ops2. ops = ops1 @ p # ops2 \<and> grants_trust (trim_space c) p (host_run sha ops1 st)"
  using assms
proof (induction ops arbitrary: st)
  case (Cons p ops)
  show ?case
  proof (cases "grants_trust (trim_space c) p st")
    case True
    then show ?thesis
      by (intro exI [of _ "[]"] exI [of _ p] exI [of _ ops]) simp
  next
    case False
    then have "trusted_control_grant (host_step sha p st) c = None"
      using Cons.prems by (intro host_step_untrusted)
    then obtain ops1 q ops2 where "ops = ops1 @ q # ops2"
      "grants_trust (trim_space c) q (host_run sha ops1 (host_step sha p st))"
      using Cons.IH [of "host_step sha p st"] Cons.prems host_step_inv by auto
    then show ?thesis
      by (intro exI [of _ "p # ops1"] exI [of _ q] exI [of _ ops2]) simp
  qed
qed simp

text \<open>
  What an approval grants. When \<open>approvePairingRequest\<close> succeeds, the request was pending
  on this host; its controller is now trusted with the request's public key and capabilities
  (normalised, all known); the request is approved, every other request and every other
  controller's trust is unchanged.
\<close>

theorem approve_grants_request:
  assumes inv: "pairing_inv st"
    and ok: "approve_pairing_request sha256 now w1 w2 rid st = (Inr (r2, g), st')"
  shows "\<exists>r. map_of (hs_pairing st) (trim_space rid) = Some r \<and> pr_status r = pairing_pending
     \<and> pr_host r = hs_device st
     \<and> trusted_control_grant st' (pr_controller r) = Some g
     \<and> tg_public_key g = trim_space (pr_public_key r)
     \<and> checked_capabilities (pr_capabilities r) = Inr (tg_capabilities g)
     \<and> r2 = r\<lparr>pr_status := pairing_approved, pr_updated_at := now, pr_resolved_at := now\<rparr>
     \<and> map_of (hs_pairing st') = (map_of (hs_pairing st))(trim_space rid \<mapsto> r2)
     \<and> (\<forall>c. trim_space c \<noteq> tg_controller g \<longrightarrow> trusted_control_grant st' c = trusted_control_grant st c)"
proof -
  obtain r where r: "pending_pairing_request rid st = Inr r"
    using ok by (auto simp: approve_pairing_request_def split: sum.splits)
  note D = pending_pairing_requestD [OF r]
  have k: "pr_id r = trim_space rid"
    using map_of_pairing [OF inv D(1)] .
  obtain st1 where t: "trust_device sha256 now w1 (trust_request_of r) st = (Inr g, st1)"
    and res: "resolve_pairing_request now w2 (trim_space rid) pairing_approved st1 = (Inr r2, st')"
    using ok r k by (auto simp: approve_pairing_request_def split: sum.splits prod.splits)
  have p: "hs_pairing st1 = hs_pairing st"
    using trust_device_frame(1) [of sha256 now w1 "trust_request_of r" st] t by simp
  let ?r = "r\<lparr>pr_status := pairing_approved, pr_updated_at := now, pr_resolved_at := now\<rparr>"
  have s: "store_request w2 (trim_space rid) ?r st1 = (Inr r2, st')"
    using res D(1) p by (simp add: resolve_pairing_request_def)
  then have r2: "r2 = ?r" "st' = snd (store_request w2 (trim_space rid) ?r st1)"
    using store_request_fst [of w2 "trim_space rid" ?r st1] by (auto split: option.splits)
  have trust: "trusted_control_grant st' c = trusted_control_grant st1 c" for c
    unfolding r2(2) by (rule trusted_store_request)
  have "granted now (trust_request_of r) st g" "trusted_control_grant st1 (pr_controller r) = Some g"
    "\<forall>c. trim_space c \<noteq> tg_controller g \<longrightarrow> trusted_control_grant st1 c = trusted_control_grant st c"
    using trust_device_okD [OF t]
    by (auto simp: trusted_store granted_def trust_request_of_def)
  then show ?thesis
    using D r2 trust p by (auto simp: granted_def trust_request_of_def update_conv')
qed

text \<open>
  Approval is not atomic. Between the check of \<open>approvePairingRequest\<close> and its grant another
  call can deny the same request: the denial reports success, and the approval nevertheless
  goes on, trusts the controller and turns the denied request into an approved one.
\<close>

theorem approve_deny_race:
  assumes inv: "pairing_inv st"
    and check: "pending_pairing_request rid st = Inr r"
    and denied: "deny_pairing_request now1 None rid st = (Inr d, st1)"
    and grant: "trust_device sha256 now2 None (trust_request_of r) st1 = (Inr g, st2)"
    and resolve: "resolve_pairing_request now2 None (pr_id r) pairing_approved st2 = (res, st3)"
  shows "pr_status d = pairing_denied \<and> map_of (hs_pairing st1) (pr_id r) = Some d
     \<and> trusted_control_grant st3 (pr_controller r) = Some g
     \<and> (\<exists>r3. map_of (hs_pairing st3) (pr_id r) = Some r3 \<and> pr_status r3 = pairing_approved)"
proof -
  note D = pending_pairing_requestD [OF check]
  have k: "pr_id r = trim_space rid"
    using map_of_pairing [OF inv D(1)] .
  have d: "pr_status d = pairing_denied" "map_of (hs_pairing st1) (pr_id r) = Some d"
    using denied check D(1) k
    by (auto simp: deny_pairing_request_def resolve_pairing_request_def store_request_def
        write_pairing_requests_def update_conv')
  have p: "hs_pairing st2 = hs_pairing st1"
    using trust_device_frame(1) [of sha256 now2 None "trust_request_of r" st1] grant by simp
  have st3: "st3 = snd (store_request None (pr_id r)
      (d\<lparr>pr_status := pairing_approved, pr_updated_at := now2, pr_resolved_at := now2\<rparr>) st2)"
    using resolve d(2) p by (simp add: resolve_pairing_request_def)
  have "trusted_control_grant st2 (pr_controller r) = Some g"
    using trust_device_okD [OF grant]
    by (auto simp: trusted_store granted_def trust_request_of_def)
  then show ?thesis
    using d by (auto simp: st3 trusted_store_request update_conv')
qed

text \<open>
  Repeated submissions do not pile up. While a request of the same controller with the same
  key is pending, a submission updates that request under its id and creation time instead of
  adding one; in no case does a submission change the trust table.
\<close>

theorem submit_reuses_pending:
  assumes inv: "pairing_inv st" and old: "map_of (hs_pairing st) k = Some old"
    and same: "same_pending r0 old" and unique: "\<And>k' x. map_of (hs_pairing st) k' = Some x \<Longrightarrow>
        same_pending r0 x \<Longrightarrow> k' = k"
    and valid: "validated_pairing_request sha256 input st = Inr r0"
    and ok: "submit_pairing_request sha256 now rid w input st = (Inr r, st')"
  shows "pr_id r = k \<and> pr_created_at r = pr_created_at old \<and> same_pending r0 r
     \<and> map_of (hs_pairing st') = (map_of (hs_pairing st))(k \<mapsto> r) \<and> hs_grants st' = hs_grants st"
proof -
  have "find (\<lambda>e. same_pending r0 (snd e)) (hs_pairing st) \<noteq> None"
    using map_of_SomeD [OF old] same find_None_iff2 [of "\<lambda>e. same_pending r0 (snd e)"] by force
  then obtain k1 x where f: "find (\<lambda>e. same_pending r0 (snd e)) (hs_pairing st) = Some (k1, x)"
    by auto
  have x: "k1 = k" "x = old" "pr_id old = k"
    using find_pairing [OF inv f] unique old by auto
  let ?r = "r0\<lparr>pr_id := k, pr_created_at := pr_created_at old, pr_updated_at := now\<rparr>"
  have s: "store_request w k ?r st = (Inr r, st')"
    using ok f valid x by (auto simp: submit_pairing_request_def split: if_splits)
  then have "r = ?r" "st' = snd (store_request w k ?r st)"
    using store_request_fst [of w k ?r st] by (auto split: option.splits)
  moreover have "pr_status r0 = pairing_pending"
    using valid by (auto simp: validated_pairing_request_def Let_def split: if_splits sum.splits)
  ultimately show ?thesis
    by (auto simp: update_conv' same_pending_def)
qed

text \<open>
  Removing a device from the mesh leaves no request of it open: after
  \<open>denyPendingPairingRequestsForDevice\<close>, even if the file could not be written, no request that
  names the device as host or controller is pending, and every other request is unchanged.
\<close>

theorem deny_device_closes:
  assumes "trim_space d \<noteq> []"
    and "map_of (hs_pairing (snd (deny_pending_for_device now w d st))) k = Some r"
  shows "(pr_host r = trim_space d \<or> pr_controller r = trim_space d \<longrightarrow> pr_status r \<noteq> pairing_pending)
     \<and> (pr_host r \<noteq> trim_space d \<and> pr_controller r \<noteq> trim_space d \<longrightarrow>
          map_of (hs_pairing st) k = Some r)"
proof -
  obtain r0 where "map_of (hs_pairing st) k = Some r0"
    and "r = (if pr_status r0 = pairing_pending \<and> (pr_host r0 = trim_space d \<or> pr_controller r0 = trim_space d)
        then r0\<lparr>pr_status := pairing_denied, pr_updated_at := now, pr_resolved_at := now\<rparr> else r0)"
    using assms by (auto simp: map_of_deny_device)
  then show ?thesis
    by (cases "pr_status r0 = pairing_pending \<and> (pr_host r0 = trim_space d \<or> pr_controller r0 = trim_space d)")
      auto
qed

section \<open>A concrete pairing\<close>

definition demo_request :: pairing_request where
  "demo_request = \<lparr>pr_id = ''pair_1'', pr_source = [], pr_cloud_id = [], pr_host = ''host'',
     pr_controller = ''phone'', pr_name = ''Phone'', pr_kind = [], pr_public_key = demo_key,
     pr_fingerprint = ''sha256:73'', pr_scope = ''full'', pr_status = pairing_pending,
     pr_capabilities = [''core.read''], pr_exec_policy = ''trusted'', pr_created_at = ''t0'',
     pr_updated_at = ''t0'', pr_resolved_at = []\<rparr>"

definition demo_asked :: host_store where
  "demo_asked = demo_host\<lparr>hs_pairing := [(''pair_1'', demo_request)]\<rparr>"

definition demo_closed :: host_store where
  "demo_closed = demo_host\<lparr>hs_pairing := [(''pair_1'', demo_request\<lparr>pr_status := pairing_denied\<rparr>)]\<rparr>"

lemma demo_inv: "pairing_inv demo_asked" "pairing_inv demo_closed"
  by (simp_all add: pairing_inv_def demo_asked_def demo_closed_def demo_request_def)

lemma demo_trims [simp]:
  "trim_space ''pair_1'' = ''pair_1''" "trim_space ''phone'' = ''phone''" "trim_space ''Phone'' = ''Phone''"
  "trim_space ''full'' = ''full''" "trim_space ''trusted'' = ''trusted''" "trim_space ''sha256:73'' = ''sha256:73''"
  by code_simp+

lemma demo_pending: "pending_pairing_request '' pair_1'' demo_asked = Inr demo_request"
proof -
  have "trim_space '' pair_1'' = ''pair_1''" by code_simp
  then show ?thesis
    by (simp add: pending_pairing_request_def demo_asked_def demo_host_def demo_request_def)
qed

lemma demo_checks [simp]:
  "checked_capabilities [''core.read''] = Inr [''core.read'']"
  "checked_exec_policy ''trusted'' = Inr ''trusted''" "checked_exec_policy [] = Inr ''trusted''"
  by code_simp+

lemma demo_fingerprint [simp]:
  "checked_fingerprint demo_sha demo_key ''sha256:73'' = Inr ''sha256:73''"
  "checked_fingerprint demo_sha demo_key [] = Inr ''sha256:73''"
  by (simp_all add: checked_fingerprint_def decode_device_public_key_def demo_key_facts
      public_key_fingerprint_def demo_sha_def hex_upper_def hex_digit_def)

text \<open>The grant of the request, in any store of this host without an earlier grant.\<close>

lemma demo_trust_ok:
  assumes "hs_device st = ''host''" "hs_grants st = []"
  shows "\<exists>st1. trust_device demo_sha now None (trust_request_of demo_request) st
     = (Inr (demo_grant\<lparr>tg_created_at := now, tg_updated_at := now\<rparr>), st1)"
  using assms demo_key_facts
  by (simp add: trust_device_def trust_request_of_def demo_request_def Let_def find_grant_def empty_grant_def
      store_grant_def write_trust_grants_def default_to_def status_trusted_def scope_full_def demo_grant_def)

lemma resolved_requests_final_witness:
  "map_of (hs_pairing (host_run demo_sha [DenyOp ''t1'' None ''pair_1'', ApproveOp ''t2'' None None ''pair_1'',
     SubmitOp ''t3'' ''2'' None \<lparr>pi_controller = ''phone'', pi_name = [], pi_kind = [], pi_public_key = demo_key,
       pi_fingerprint = [], pi_scope = [], pi_capabilities = [], pi_exec_policy = []\<rparr>] demo_closed)) ''pair_1''
   = Some (demo_request\<lparr>pr_status := pairing_denied\<rparr>)"
  by (rule resolved_requests_final [OF demo_inv(2)]) (auto simp: demo_closed_def)

lemma demo_request_fields [simp]:
  "pr_id demo_request = ''pair_1''" "pr_controller demo_request = ''phone''"
  "pr_status demo_request = pairing_pending" "pr_host demo_request = ''host''"
  "pr_public_key demo_request = demo_key" "pr_capabilities demo_request = [''core.read'']"
  by (simp_all add: demo_request_def)

lemma demo_asked_fields [simp]:
  "hs_pairing demo_asked = [(''pair_1'', demo_request)]" "hs_device demo_asked = ''host''"
  "hs_grants demo_asked = []"
  by (simp_all add: demo_asked_def demo_host_def)

lemma demo_pending1: "pending_pairing_request ''pair_1'' demo_asked = Inr demo_request"
  by (simp add: pending_pairing_request_def)

lemma demo_untrusted: "trusted_control_grant demo_asked ''phone'' = None"
  by (simp add: trusted_control_grant_def)

lemma demo_approved:
  obtains r2 g st' where "approve_pairing_request demo_sha ''t1'' None None ''pair_1'' demo_asked = (Inr (r2, g), st')"
    "trusted_control_grant st' ''phone'' = Some g"
proof -
  obtain g st1 where t: "trust_device demo_sha ''t1'' None (trust_request_of demo_request) demo_asked = (Inr g, st1)"
    using demo_trust_ok [of demo_asked "''t1''"] by auto
  have q: "hs_pairing st1 = [(''pair_1'', demo_request)]"
    using trust_device_frame(1) [of demo_sha "''t1''" None "trust_request_of demo_request" demo_asked]
    unfolding t by simp
  have "trusted_control_grant st1 ''phone'' = Some g"
    using trust_device_okD [OF t] by (auto simp: trusted_store granted_def trust_request_of_def)
  then have g: "trusted_control_grant (snd (store_request None k r st1)) ''phone'' = Some g" for k r
    by (simp add: trusted_store_request)
  show thesis
    using that t q g [of "''pair_1''" "demo_request\<lparr>pr_status := pairing_approved,
      pr_updated_at := ''t1'', pr_resolved_at := ''t1''\<rparr>"]
    by (simp add: approve_pairing_request_def demo_pending1 resolve_pairing_request_def
        store_request_def write_pairing_requests_def)
qed

lemma trust_needs_decision_witness:
  "\<exists>ops1 p ops2. [ApproveOp ''t1'' None None ''pair_1''] = ops1 @ p # ops2 \<and>
     grants_trust ''phone'' p (host_run demo_sha ops1 demo_asked)"
proof (rule demo_approved)
  fix r2 g st'
  assume "approve_pairing_request demo_sha ''t1'' None None ''pair_1'' demo_asked = (Inr (r2, g), st')"
    and "trusted_control_grant st' ''phone'' = Some g"
  then have "trusted_control_grant (host_run demo_sha [ApproveOp ''t1'' None None ''pair_1''] demo_asked) ''phone'' \<noteq> None"
    by simp
  then show ?thesis
    using trust_needs_decision [OF demo_inv(1) demo_untrusted] by simp
qed

lemma approve_grants_request_witness:
  "\<exists>g st'. trusted_control_grant st' ''phone'' = Some g \<and> tg_capabilities g = [''core.read'']"
proof (rule demo_approved)
  fix r2 g st'
  assume "approve_pairing_request demo_sha ''t1'' None None ''pair_1'' demo_asked = (Inr (r2, g), st')"
  from approve_grants_request [OF demo_inv(1) this] show ?thesis
    by auto
qed

lemma approve_deny_race_witness:
  "\<exists>d g st1 st3. deny_pairing_request ''t1'' None ''pair_1'' demo_asked = (Inr d, st1)
     \<and> pr_status d = pairing_denied \<and> trusted_control_grant st3 ''phone'' = Some g"
proof -
  obtain d st1 where d: "deny_pairing_request ''t1'' None ''pair_1'' demo_asked = (Inr d, st1)"
    and st1: "hs_device st1 = ''host''" "hs_grants st1 = []"
    by (simp add: deny_pairing_request_def demo_pending1 resolve_pairing_request_def
        store_request_def write_pairing_requests_def)
  obtain g st2 where t: "trust_device demo_sha ''t2'' None (trust_request_of demo_request) st1 = (Inr g, st2)"
    using demo_trust_ok [OF st1] by blast
  show ?thesis
    using approve_deny_race [OF demo_inv(1) demo_pending1 d t surjective_pairing] d by auto
qed

definition demo_input :: pairing_input where
  "demo_input = \<lparr>pi_controller = ''phone'', pi_name = ''Phone'', pi_kind = [], pi_public_key = demo_key,
     pi_fingerprint = [], pi_scope = ''full'', pi_capabilities = [''core.read''], pi_exec_policy = []\<rparr>"

lemma demo_valid: "validated_pairing_request demo_sha demo_input demo_asked
  = Inr (demo_request\<lparr>pr_id := [], pr_created_at := [], pr_updated_at := []\<rparr>)"
  using demo_key_facts by (simp add: validated_pairing_request_def demo_input_def demo_request_def
      demo_asked_def demo_host_def Let_def default_to_def)

lemma submit_reuses_pending_witness:
  "\<exists>r st'. submit_pairing_request demo_sha ''t1'' ''9'' None demo_input demo_asked = (Inr r, st') \<and> pr_id r = ''pair_1''"
proof -
  let ?r0 = "demo_request\<lparr>pr_id := [], pr_created_at := [], pr_updated_at := []\<rparr>"
  have same: "same_pending ?r0 demo_request"
    by (simp add: same_pending_def)
  have "submit_pairing_request demo_sha ''t1'' ''9'' None demo_input demo_asked = store_request None ''pair_1''
      (?r0\<lparr>pr_id := ''pair_1'', pr_created_at := pr_created_at demo_request, pr_updated_at := ''t1''\<rparr>) demo_asked"
    using same by (simp add: submit_pairing_request_def demo_valid demo_untrusted)
  then obtain r st' where s: "submit_pairing_request demo_sha ''t1'' ''9'' None demo_input demo_asked = (Inr r, st')"
    by (simp add: store_request_def write_pairing_requests_def)
  have old: "map_of (hs_pairing demo_asked) ''pair_1'' = Some demo_request"
    by simp
  have "k' = ''pair_1''" if "map_of (hs_pairing demo_asked) k' = Some x" for k' x
    using that by (simp split: if_splits)
  then show ?thesis
    using submit_reuses_pending [OF demo_inv(1) old same _ demo_valid s] s by blast
qed

lemma deny_device_closes_witness:
  "\<exists>r. map_of (hs_pairing (snd (deny_pending_for_device ''t1'' None ''phone'' demo_asked))) ''pair_1'' = Some r
     \<and> pr_status r \<noteq> pairing_pending"
proof -
  obtain r where r: "map_of (hs_pairing (snd (deny_pending_for_device ''t1'' None ''phone'' demo_asked))) ''pair_1'' = Some r"
    "pr_controller r = ''phone''"
    by (auto simp: map_of_deny_device)
  then show ?thesis
    using deny_device_closes [OF _ r(1)] by simp
qed

end
