(* ===== verification/ControlProtocol.thy ===== *)
theory ControlProtocol
  imports HostTrust
begin

text \<open>
  \<open>pkg/protocol/control.go\<close>: the vocabulary of the control channel. Capabilities and actions
  are strings in the code (a request can carry any), so the table of actions is a list of
  records; parameters are raw JSON, whose decoder is an argument (it is told the name of the
  Go type it decodes into). The \<open>Details\<close> map of an error is left out: no code sets it.
\<close>

section \<open>Capabilities and actions\<close>

definition control_capabilities :: "string list" where
  "control_capabilities =
     [''core.read'',
      ''core.control'',
      ''interaction.respond'',
      ''session.edit'',
      ''attachment.ingest'',
      ''media.read'',
      ''media.download'',
      ''media.stream'',
      ''workspace.files.read'',
      ''workspace.files.write'',
      ''workspace.exec'',
      ''terminal.open'',
      ''terminal.input'',
      ''host.fs.browse'',
      ''host.manage'']"

text \<open>The declared action constants.\<close>

definition control_actions :: "string list" where
  "control_actions =
     [''core.read.host_snapshot'',
      ''core.read.workbench'',
      ''core.read.ping'',
      ''core.read.session_view'',
      ''core.read.sessions'',
      ''core.read.native_sessions'',
      ''core.read.workspaces'',
      ''core.read.workspace.connection'',
      ''core.read.events'',
      ''core.subscribe.events'',
      ''core.unsubscribe.events'',
      ''core.control.session_input'',
      ''core.control.interrupt'',
      ''core.control.queue.cancel'',
      ''core.control.queue.steer'',
      ''core.control.workspace.create'',
      ''core.control.workspace.connect'',
      ''core.control.workspace.disconnect'',
      ''core.control.workspace.delete'',
      ''core.control.session.create'',
      ''core.control.session.fork'',
      ''core.control.session.delete'',
      ''core.control.native_session.import'',
      ''interaction.respond'',
      ''session.edit'',
      ''attachment.ingest'',
      ''attachment.ingest.start'',
      ''attachment.ingest.chunk'',
      ''attachment.ingest.finish'',
      ''media.read'',
      ''media.download'',
      ''media.stream'',
      ''media.stream.cancel'',
      ''workspace.files.read'',
      ''workspace.files.write'',
      ''workspace.files.apply_patch'',
      ''workspace.files.delete'',
      ''workspace.files.move'',
      ''workspace.files.stream'',
      ''workspace.files.stream.cancel'',
      ''workspace.exec'',
      ''terminal.open'',
      ''terminal.list'',
      ''terminal.attach'',
      ''terminal.detach'',
      ''terminal.heartbeat_ack'',
      ''terminal.input'',
      ''terminal.resize'',
      ''terminal.close'',
      ''host.fs.browse'',
      ''host.trust.list'',
      ''host.trust.revoke'',
      ''host.pairing.list'',
      ''host.pairing.approve'',
      ''host.pairing.deny'']"

record action_spec =
  as_action :: string
  as_capability :: string
  as_params :: string
  as_result :: string

definition spec :: "string \<Rightarrow> string \<Rightarrow> string \<Rightarrow> string \<Rightarrow> action_spec" where
  "spec action capability params result =
     \<lparr>as_action = action, as_capability = capability, as_params = params, as_result = result\<rparr>"

definition control_action_specs :: "action_spec list" where
  "control_action_specs =
     [spec ''core.read.ping'' ''core.read''
        [] ''OkResult'',
      spec ''core.read.host_snapshot'' ''core.read''
        ''HostSnapshotRequest'' ''HostSnapshotResponse'',
      spec ''core.read.workbench'' ''core.read''
        [] ''WorkbenchState'',
      spec ''core.read.session_view'' ''core.read''
        ''SessionReferenceParams'' ''SessionView'',
      spec ''core.read.sessions'' ''core.read''
        ''SessionsReadParams'' ''Session[]'',
      spec ''core.read.native_sessions'' ''core.read''
        ''NativeSessionsReadParams'' ''NativeSessionListResponse'',
      spec ''core.read.workspaces'' ''core.read''
        [] ''Workspace[]'',
      spec ''core.read.workspace.connection'' ''core.read''
        ''WorkspaceReferenceParams'' ''WorkspaceConnection'',
      spec ''core.read.events'' ''core.read''
        ''EventWindowParams'' ''AstralEvent[]'',
      spec ''core.subscribe.events'' ''core.read''
        ''EventSubscriptionParams'' ''EventSubscriptionResult'',
      spec ''core.unsubscribe.events'' ''core.read''
        ''EventSubscriptionCancelParams'' ''EventSubscriptionCancelResult'',
      spec ''core.control.session_input'' ''core.control''
        ''SessionInputControlParams'' ''SessionInputResult'',
      spec ''core.control.interrupt'' ''core.control''
        ''SessionReferenceParams'' ''OkResult'',
      spec ''core.control.queue.cancel'' ''core.control''
        ''QueueControlParams'' ''QueueControlResult'',
      spec ''core.control.queue.steer'' ''core.control''
        ''QueueControlParams'' ''QueueControlResult'',
      spec ''core.control.workspace.create'' ''core.control''
        ''CreateWorkspaceRequest'' ''Workspace'',
      spec ''core.control.workspace.connect'' ''core.control''
        ''WorkspaceReferenceParams'' ''WorkspaceConnection'',
      spec ''core.control.workspace.disconnect'' ''core.control''
        ''WorkspaceReferenceParams'' ''WorkspaceConnection'',
      spec ''core.control.workspace.delete'' ''core.control''
        ''WorkspaceReferenceParams'' ''OkResult'',
      spec ''core.control.session.create'' ''core.control''
        ''CreateSessionRequest'' ''Session'',
      spec ''core.control.session.fork'' ''core.control''
        ''SessionForkControlParams'' ''SessionForkResponse'',
      spec ''core.control.session.delete'' ''core.control''
        ''SessionDeleteParams'' ''SessionDeleteResult'',
      spec ''core.control.native_session.import'' ''core.control''
        ''NativeSessionImportParams'' ''NativeSessionImportResponse'',
      spec ''interaction.respond'' ''interaction.respond''
        ''InteractionRespondParams'' ''OkResult'',
      spec ''session.edit'' ''session.edit''
        ''SessionEditParams'' ''OkResult'',
      spec ''attachment.ingest'' ''attachment.ingest''
        ''AttachmentIngestParams'' ''AttachmentIngestResult'',
      spec ''attachment.ingest.start'' ''attachment.ingest''
        ''AttachmentIngestStartParams'' ''AttachmentIngestStartResult'',
      spec ''attachment.ingest.chunk'' ''attachment.ingest''
        ''AttachmentIngestChunkParams'' ''AttachmentIngestChunkResult'',
      spec ''attachment.ingest.finish'' ''attachment.ingest''
        ''AttachmentIngestFinishParams'' ''AttachmentIngestFinishResult'',
      spec ''media.read'' ''media.read''
        ''MediaReadParams'' ''MediaReadResult'',
      spec ''media.download'' ''media.download''
        ''MediaReadParams'' ''MediaReadResult'',
      spec ''media.stream'' ''media.stream''
        ''MediaStreamParams'' ''MediaStreamResult'',
      spec ''media.stream.cancel'' ''media.stream''
        ''MediaStreamCancelParams'' ''MediaStreamCancelResult'',
      spec ''workspace.files.read'' ''workspace.files.read''
        ''WorkspaceFilesReadParams'' ''WorkspaceFilesReadResult'',
      spec ''workspace.files.write'' ''workspace.files.write''
        ''WorkspaceFilesWriteParams'' ''WorkspaceFilesWriteResult'',
      spec ''workspace.files.apply_patch'' ''workspace.files.write''
        ''WorkspaceFilesApplyPatchParams'' ''WorkspaceFilesApplyPatchResult'',
      spec ''workspace.files.delete'' ''workspace.files.write''
        ''WorkspaceFilesDeleteParams'' ''WorkspaceFilesDeleteResult'',
      spec ''workspace.files.move'' ''workspace.files.write''
        ''WorkspaceFilesMoveParams'' ''WorkspaceFilesMoveResult'',
      spec ''workspace.files.stream'' ''workspace.files.read''
        ''WorkspaceFilesStreamParams'' ''WorkspaceFileStreamResult'',
      spec ''workspace.files.stream.cancel'' ''workspace.files.read''
        ''WorkspaceFileStreamCancelParams'' ''WorkspaceFileStreamCancelResult'',
      spec ''workspace.exec'' ''workspace.exec''
        ''WorkspaceExecParams'' ''WorkspaceExecResult'',
      spec ''terminal.open'' ''terminal.open''
        ''TerminalOpenParams'' ''TerminalOpenResult'',
      spec ''terminal.list'' ''terminal.open''
        [] ''TerminalTab[]'',
      spec ''terminal.attach'' ''terminal.open''
        ''TerminalAttachParams'' ''TerminalAttachResult'',
      spec ''terminal.detach'' ''terminal.open''
        ''TerminalDetachParams'' ''TerminalAttachResult'',
      spec ''terminal.heartbeat_ack'' ''terminal.open''
        ''TerminalHeartbeatAckParams'' ''TerminalAckResult'',
      spec ''terminal.input'' ''terminal.input''
        ''TerminalInputParams'' ''TerminalAckResult'',
      spec ''terminal.resize'' ''terminal.input''
        ''TerminalResizeParams'' ''TerminalAckResult'',
      spec ''terminal.close'' ''terminal.input''
        ''TerminalCloseParams'' ''TerminalAckResult'',
      spec ''host.fs.browse'' ''host.fs.browse''
        ''HostFileSystemBrowseParams'' ''HostFileSystemBrowseResult'',
      spec ''host.trust.list'' ''host.manage''
        [] ''HostTrustListResult'',
      spec ''host.trust.revoke'' ''host.manage''
        ''HostTrustRevokeParams'' ''HostTrustRevokeResult'',
      spec ''host.pairing.list'' ''host.manage''
        [] ''PairingRequestListResult'',
      spec ''host.pairing.approve'' ''host.manage''
        ''PairingRequestResolveParams'' ''PairingRequestResolveResult'',
      spec ''host.pairing.deny'' ''host.manage''
        ''PairingRequestResolveParams'' ''PairingRequestResolveResult'']"

definition find_spec :: "string \<Rightarrow> action_spec option" where
  "find_spec action = find (\<lambda>s. as_action s = action) control_action_specs"

text \<open>\<open>ControlActionSpecs\<close>: the table sorted by action.\<close>

definition sorted_action_specs :: "action_spec list" where
  "sorted_action_specs = sort_key as_action control_action_specs"

definition parse_control_action :: "string \<Rightarrow> string \<times> bool" where
  "parse_control_action v = (trim_space v, find_spec (trim_space v) \<noteq> None)"

definition parse_control_capability :: "string \<Rightarrow> string \<times> bool" where
  "parse_control_capability v = (trim_space v, trim_space v \<in> set control_capabilities)"

definition required_capability :: "string \<Rightarrow> string" where
  "required_capability action = (case find_spec action of Some s \<Rightarrow> as_capability s | None \<Rightarrow> [])"

definition required_capability_string :: "string \<Rightarrow> string" where
  "required_capability_string action = required_capability (trim_space action)"

section \<open>Requests and errors\<close>

record control_request =
  cq_id :: string
  cq_controller :: string
  cq_capability :: string
  cq_action :: string
  cq_params :: string

record control_error =
  ce_status :: nat
  ce_code :: string
  ce_message :: string

record 'r control_response =
  cr_id :: string
  cr_ok :: bool
  cr_result :: "'r option"
  cr_error :: "control_error option"

fun control_error_from_error :: "go_error option \<Rightarrow> control_error option" where
  "control_error_from_error None = None"
| "control_error_from_error (Some (ActionError st code msg)) =
     Some \<lparr>ce_status = st, ce_code = code, ce_message = msg\<rparr>"
| "control_error_from_error (Some (OpaqueError msg)) =
     Some \<lparr>ce_status = 500, ce_code = ''internal_error'', ce_message = msg\<rparr>"

fun action_error_code :: "go_error \<Rightarrow> string" where
  "action_error_code (ActionError st code msg) = code"
| "action_error_code (OpaqueError msg) = []"

fun action_error_status :: "go_error \<Rightarrow> nat" where
  "action_error_status (ActionError st code msg) = st"
| "action_error_status (OpaqueError msg) = 0"

definition invalid_params :: "string \<Rightarrow> go_error" where
  "invalid_params msg = ActionError 400 ''invalid_params'' msg"

definition action_unknown :: go_error where
  "action_unknown = ActionError 404 ''control_action_unknown'' ''control action not found''"

definition capability_mismatch :: go_error where
  "capability_mismatch =
     ActionError 403 ''capability_mismatch'' ''control capability does not match action''"

definition validate_control_request_action :: "control_request \<Rightarrow> go_error option" where
  "validate_control_request_action req =
     (let required = required_capability (cq_action req) in
      if required = [] then Some action_unknown
      else if cq_capability req \<noteq> required then Some capability_mismatch
      else None)"

definition format_control_action_mismatch :: "string \<Rightarrow> string \<Rightarrow> string" where
  "format_control_action_mismatch action capability =
     (let required = required_capability action in
      if required = [] then ''control action not found''
      else ''control action '' @ action @ '' requires capability '' @ required @ '', got '' @ capability)"

section \<open>Parameters\<close>

text \<open>
  The type \<open>controlParamsTarget\<close> allocates for an action, by name; \<open>None\<close> is its default
  case (the caller then decodes into a map).
\<close>

definition control_params_target :: "string \<Rightarrow> string option" where
  "control_params_target action =
     (if action = ''core.read.ping'' \<or> action = ''core.read.workbench'' \<or>
        action = ''core.read.workspaces'' \<or> action = ''terminal.list'' \<or>
        action = ''host.trust.list'' \<or> action = ''host.pairing.list''
        then Some ''struct{}''
      else if action = ''core.read.host_snapshot''
        then Some ''HostSnapshotRequest''
      else if action = ''core.read.session_view'' \<or> action = ''core.control.interrupt''
        then Some ''SessionReferenceParams''
      else if action = ''core.read.sessions''
        then Some ''SessionsReadParams''
      else if action = ''core.read.native_sessions''
        then Some ''NativeSessionsReadParams''
      else if action = ''core.read.workspace.connection'' \<or> action = ''core.control.workspace.connect'' \<or>
        action = ''core.control.workspace.disconnect'' \<or> action = ''core.control.workspace.delete''
        then Some ''WorkspaceReferenceParams''
      else if action = ''core.read.events''
        then Some ''EventWindowParams''
      else if action = ''core.subscribe.events''
        then Some ''EventSubscriptionParams''
      else if action = ''core.unsubscribe.events''
        then Some ''EventSubscriptionCancelParams''
      else if action = ''core.control.session_input''
        then Some ''SessionInputControlParams''
      else if action = ''core.control.queue.cancel'' \<or> action = ''core.control.queue.steer''
        then Some ''QueueControlParams''
      else if action = ''core.control.workspace.create''
        then Some ''CreateWorkspaceRequest''
      else if action = ''core.control.session.create''
        then Some ''CreateSessionRequest''
      else if action = ''core.control.session.fork''
        then Some ''SessionForkControlParams''
      else if action = ''core.control.session.delete''
        then Some ''SessionDeleteParams''
      else if action = ''core.control.native_session.import''
        then Some ''NativeSessionImportParams''
      else if action = ''interaction.respond''
        then Some ''InteractionRespondParams''
      else if action = ''session.edit''
        then Some ''SessionEditParams''
      else if action = ''attachment.ingest''
        then Some ''AttachmentIngestParams''
      else if action = ''attachment.ingest.start''
        then Some ''AttachmentIngestStartParams''
      else if action = ''attachment.ingest.chunk''
        then Some ''AttachmentIngestChunkParams''
      else if action = ''attachment.ingest.finish''
        then Some ''AttachmentIngestFinishParams''
      else if action = ''media.read'' \<or> action = ''media.download''
        then Some ''MediaReadParams''
      else if action = ''media.stream''
        then Some ''MediaStreamParams''
      else if action = ''media.stream.cancel''
        then Some ''MediaStreamCancelParams''
      else if action = ''workspace.files.read''
        then Some ''WorkspaceFilesReadParams''
      else if action = ''workspace.files.write''
        then Some ''WorkspaceFilesWriteParams''
      else if action = ''workspace.files.apply_patch''
        then Some ''WorkspaceFilesApplyPatchParams''
      else if action = ''workspace.files.delete''
        then Some ''WorkspaceFilesDeleteParams''
      else if action = ''workspace.files.move''
        then Some ''WorkspaceFilesMoveParams''
      else if action = ''workspace.files.stream''
        then Some ''WorkspaceFilesStreamParams''
      else if action = ''workspace.files.stream.cancel''
        then Some ''WorkspaceFileStreamCancelParams''
      else if action = ''workspace.exec''
        then Some ''WorkspaceExecParams''
      else if action = ''terminal.open''
        then Some ''TerminalOpenParams''
      else if action = ''terminal.attach''
        then Some ''TerminalAttachParams''
      else if action = ''terminal.detach''
        then Some ''TerminalDetachParams''
      else if action = ''terminal.heartbeat_ack''
        then Some ''TerminalHeartbeatAckParams''
      else if action = ''terminal.input''
        then Some ''TerminalInputParams''
      else if action = ''terminal.resize''
        then Some ''TerminalResizeParams''
      else if action = ''terminal.close''
        then Some ''TerminalCloseParams''
      else if action = ''host.fs.browse''
        then Some ''HostFileSystemBrowseParams''
      else if action = ''host.trust.revoke''
        then Some ''HostTrustRevokeParams''
      else if action = ''host.pairing.approve'' \<or> action = ''host.pairing.deny''
        then Some ''PairingRequestResolveParams''
      else None)"

text \<open>The type of the target for an action without one of its own.\<close>

definition map_type :: string where
  "map_type = ''map[string]any''"

text \<open>The types \<open>dereferenceDecodedControlParams\<close> turns from a pointer into a value.\<close>

definition dereferenced_types :: "string list" where
  "dereferenced_types =
     [''struct{}'',
      map_type,
      ''HostSnapshotRequest'',
      ''SessionReferenceParams'',
      ''SessionsReadParams'',
      ''NativeSessionsReadParams'',
      ''WorkspaceReferenceParams'',
      ''EventWindowParams'',
      ''EventSubscriptionParams'',
      ''EventSubscriptionCancelParams'',
      ''SessionInputControlParams'',
      ''QueueControlParams'',
      ''CreateWorkspaceRequest'',
      ''CreateSessionRequest'',
      ''SessionForkControlParams'',
      ''SessionDeleteParams'',
      ''NativeSessionImportParams'',
      ''InteractionRespondParams'',
      ''SessionEditParams'',
      ''AttachmentIngestParams'',
      ''AttachmentIngestStartParams'',
      ''AttachmentIngestChunkParams'',
      ''AttachmentIngestFinishParams'',
      ''MediaReadParams'',
      ''MediaStreamParams'',
      ''MediaStreamCancelParams'',
      ''WorkspaceFilesReadParams'',
      ''WorkspaceFilesWriteParams'',
      ''WorkspaceFilesApplyPatchParams'',
      ''WorkspaceFilesDeleteParams'',
      ''WorkspaceFilesMoveParams'',
      ''WorkspaceFilesStreamParams'',
      ''WorkspaceFileStreamCancelParams'',
      ''WorkspaceExecParams'',
      ''TerminalOpenParams'',
      ''TerminalAttachParams'',
      ''TerminalDetachParams'',
      ''TerminalHeartbeatAckParams'',
      ''TerminalInputParams'',
      ''TerminalResizeParams'',
      ''TerminalCloseParams'',
      ''HostFileSystemBrowseParams'',
      ''HostTrustRevokeParams'',
      ''PairingRequestResolveParams'']"

text \<open>A decoded parameter: the Go type it has and whether it is a value or still a pointer.\<close>

record 'v decoded_params =
  dp_type :: string
  dp_is_value :: bool
  dp_content :: 'v

definition dereference_decoded :: "string \<Rightarrow> 'v \<Rightarrow> 'v decoded_params" where
  "dereference_decoded ty v =
     \<lparr>dp_type = ty, dp_is_value = ty \<in> set dereferenced_types, dp_content = v\<rparr>"

text \<open>\<open>decode ty body\<close> is what the two calls of \<open>Decode\<close> return on the trimmed body.\<close>

fun single_json_value :: "'v json_read \<times> unit json_read \<Rightarrow> go_error + 'v" where
  "single_json_value (JsonValue v, JsonEOF) = Inr v"
| "single_json_value (JsonValue v, e) = Inl (invalid_params ''invalid trailing params'')"
| "single_json_value (JsonError m, e) = Inl (invalid_params m)"
| "single_json_value (JsonEOF, e) = Inl (invalid_params ''EOF'')"
| "single_json_value (JsonTooLarge, e) = Inl (invalid_params ''http: request body too large'')"

definition decode_control_params_into ::
  "(string \<Rightarrow> string \<Rightarrow> 'v json_read \<times> unit json_read) \<Rightarrow> string \<Rightarrow> string \<Rightarrow> string \<Rightarrow>
   go_error + 'v" where
  "decode_control_params_into decode action params ty =
     (if action \<noteq> [] \<and> required_capability action = [] then Inl action_unknown
      else (let body0 = trim_space params; body = (if body0 = [] then ''{}'' else body0)
        in single_json_value (decode ty body)))"

definition decode_control_params ::
  "(string \<Rightarrow> string \<Rightarrow> 'v json_read \<times> unit json_read) \<Rightarrow> string \<Rightarrow> string \<Rightarrow>
   go_error + 'v decoded_params" where
  "decode_control_params decode action params =
     (let ty = (case control_params_target action of None \<Rightarrow> map_type | Some t \<Rightarrow> t)
      in case decode_control_params_into decode action params ty of
           Inl e \<Rightarrow> Inl e
         | Inr v \<Rightarrow> Inr (dereference_decoded ty v))"

text \<open>
  \<open>normalizeControlParamsRaw\<close> keeps the text of a single JSON value; unlike the decoder above
  it reports the text of a trailing error (\<open>scan\<close> decodes into \<open>any\<close>).
\<close>

definition normalize_control_params_raw ::
  "(string \<Rightarrow> unit json_read \<times> unit json_read) \<Rightarrow> string \<Rightarrow> go_error + string" where
  "normalize_control_params_raw scan raw0 =
     (let raw = trim_space raw0 in
      if raw = [] \<or> raw = ''null'' then Inr []
      else (case scan raw of
          (JsonValue u, JsonEOF) \<Rightarrow> Inr raw
        | (JsonValue u, JsonValue w) \<Rightarrow> Inl (invalid_params ''invalid trailing params'')
        | (JsonValue u, JsonError m) \<Rightarrow> Inl (invalid_params m)
        | (JsonValue u, JsonTooLarge) \<Rightarrow> Inl (invalid_params ''http: request body too large'')
        | (JsonError m, e) \<Rightarrow> Inl (invalid_params m)
        | (JsonEOF, e) \<Rightarrow> Inl (invalid_params ''EOF'')
        | (JsonTooLarge, e) \<Rightarrow> Inl (invalid_params ''http: request body too large'')))"

text \<open>The dynamic type of the \<open>params any\<close> argument; the last case has its marshalled form.\<close>

datatype any_params =
    NilParams
  | RawParams string
  | BytesParams string
  | StringParams string
  | ValueParams "string + string"

fun marshal_control_params ::
  "(string \<Rightarrow> unit json_read \<times> unit json_read) \<Rightarrow> any_params \<Rightarrow> go_error + string" where
  "marshal_control_params scan NilParams = Inr []"
| "marshal_control_params scan (RawParams raw) = normalize_control_params_raw scan raw"
| "marshal_control_params scan (BytesParams raw) = normalize_control_params_raw scan raw"
| "marshal_control_params scan (StringParams s) =
     (if blank s then Inr [] else normalize_control_params_raw scan s)"
| "marshal_control_params scan (ValueParams (Inl err)) = Inl (invalid_params err)"
| "marshal_control_params scan (ValueParams (Inr body)) = normalize_control_params_raw scan body"

definition new_control_request ::
  "(string \<Rightarrow> unit json_read \<times> unit json_read) \<Rightarrow>
   (string \<Rightarrow> string \<Rightarrow> 'v json_read \<times> unit json_read) \<Rightarrow>
   string \<Rightarrow> string \<Rightarrow> any_params \<Rightarrow> go_error + control_request" where
  "new_control_request scan decode capability action params =
     (case marshal_control_params scan params of
        Inl e \<Rightarrow> Inl e
      | Inr raw \<Rightarrow>
          (let req = \<lparr>cq_id = [], cq_controller = [], cq_capability = capability,
                cq_action = action, cq_params = raw\<rparr>
           in case validate_control_request_action req of
                Some e \<Rightarrow> Inl e
              | None \<Rightarrow>
                  (case decode_control_params decode action raw of
                     Inl e \<Rightarrow> Inl e
                   | Inr v \<Rightarrow> Inr req)))"

section \<open>Properties of the table\<close>

text \<open>The type the code decodes the parameters of an action into, from its table entry.\<close>

definition declared_params_type :: "action_spec \<Rightarrow> string" where
  "declared_params_type s = (if as_params s = [] then ''struct{}'' else as_params s)"

lemma capabilities_declared:
  "list_all (\<lambda>s. as_capability s \<in> set control_capabilities) control_action_specs"
  by code_simp

lemma actions_declared: "set (map as_action control_action_specs) = set control_actions"
proof
  have "list_all (\<lambda>s. as_action s \<in> set control_actions) control_action_specs"
    by code_simp
  then show "set (map as_action control_action_specs) \<subseteq> set control_actions"
    by (auto simp: list_all_iff)
  have "list_all (\<lambda>a. a \<in> set (map as_action control_action_specs)) control_actions"
    by code_simp
  then show "set control_actions \<subseteq> set (map as_action control_action_specs)"
    by (auto simp: list_all_iff)
qed

lemma targets_declared:
  "list_all (\<lambda>s. control_params_target (as_action s) = Some (declared_params_type s)) control_action_specs"
  by code_simp

lemma targets_dereferenced:
  "list_all (\<lambda>s. declared_params_type s \<in> set dereferenced_types) control_action_specs"
  by code_simp

text \<open>
  The action table is consistent with the functions around it. Its actions are distinct and
  are exactly the declared constants; each needs one of the declared capabilities, which are exactly those a host can grant; the
  type the decoder allocates for an action is the declared parameter type (an empty struct
  where none is declared), and the decoded value is never left a pointer.
\<close>

theorem control_table_consistent:
  "distinct (map as_action control_action_specs) \<and>
   set (map as_action control_action_specs) = set control_actions \<and>
   set control_capabilities = set default_host_capabilities \<and>
   list_all (\<lambda>s. as_capability s \<in> set control_capabilities \<and>
       control_params_target (as_action s) = Some (declared_params_type s) \<and>
       declared_params_type s \<in> set dereferenced_types) control_action_specs"
proof (intro conjI)
  show "distinct (map as_action control_action_specs)"
    by (simp add: control_action_specs_def spec_def)
  show "set (map as_action control_action_specs) = set control_actions"
    by (rule actions_declared)
  show "set control_capabilities = set default_host_capabilities"
    by (auto simp: control_capabilities_def default_host_capabilities_def)
qed (use capabilities_declared targets_declared targets_dereferenced in \<open>simp add: list_all_iff\<close>)

lemma find_spec_props:
  assumes "find_spec action = Some s"
  shows "as_action s = action" "as_capability s \<in> set control_capabilities" "as_capability s \<noteq> []"
    "control_params_target action = Some (declared_params_type s)"
    "declared_params_type s \<in> set dereferenced_types"
proof -
  have s: "s \<in> set control_action_specs" "as_action s = action"
    using find_SomeD [OF assms [unfolded find_spec_def]] by auto
  then show "as_action s = action" "as_capability s \<in> set control_capabilities"
    "control_params_target action = Some (declared_params_type s)"
    "declared_params_type s \<in> set dereferenced_types"
    using capabilities_declared targets_declared targets_dereferenced by (auto simp: list_all_iff)
  then show "as_capability s \<noteq> []"
    by (auto simp: control_capabilities_def)
qed

text \<open>
  C35: A request that \<open>NewControlRequest\<close> builds is one a host accepts: its action is in the
  table, it carries exactly the capability the table demands, which a host can grant, and its
  parameters are a single JSON value that decodes into the declared type, as a value.
\<close>

theorem new_control_request_wellformed:
  assumes "new_control_request scan decode capability action params = Inr req"
  shows "\<exists>s v. find_spec action = Some s \<and> cq_action req = action \<and> cq_capability req = as_capability s
     \<and> as_capability s \<in> set default_host_capabilities
     \<and> validate_control_request_action req = None
     \<and> decode_control_params decode action (cq_params req)
         = Inr \<lparr>dp_type = declared_params_type s, dp_is_value = True, dp_content = v\<rparr>"
proof -
  obtain raw v where req: "req = \<lparr>cq_id = [], cq_controller = [], cq_capability = capability,
      cq_action = action, cq_params = raw\<rparr>"
    and valid: "validate_control_request_action req = None"
    and dec: "decode_control_params decode action raw = Inr v"
    using assms by (auto simp: new_control_request_def Let_def split: sum.splits option.splits)
  then obtain s where s: "find_spec action = Some s" "capability = as_capability s"
    by (auto simp: validate_control_request_action_def required_capability_def Let_def
        split: option.splits if_splits)
  note p = find_spec_props [OF s(1)]
  have "as_capability s \<in> set default_host_capabilities"
    using p(2) by (auto simp: control_capabilities_def default_host_capabilities_def)
  then show ?thesis
    using req valid dec s p
    by (auto simp: decode_control_params_def dereference_decoded_def Let_def split: sum.splits)
qed

text \<open>
  An action that is not in the table is refused everywhere: it needs no capability, a
  request for it does not validate, and its parameters do not decode (the empty action alone
  is decoded, into a map).
\<close>

theorem unknown_action_refused:
  assumes "find_spec (cq_action req) = None"
  shows "validate_control_request_action req = Some action_unknown
     \<and> (cq_action req = [] \<or>
         decode_control_params decode (cq_action req) params = Inl action_unknown)"
  using assms by (cases "cq_action req = []")
    (simp_all add: validate_control_request_action_def required_capability_def
      decode_control_params_def decode_control_params_into_def Let_def)

section \<open>A concrete request\<close>

definition demo_scan :: "string \<Rightarrow> unit json_read \<times> unit json_read" where
  "demo_scan s = (JsonValue (), JsonEOF)"

definition demo_decode :: "string \<Rightarrow> string \<Rightarrow> string json_read \<times> unit json_read" where
  "demo_decode ty body = (JsonValue body, JsonEOF)"

lemma demo_new_request:
  "new_control_request demo_scan demo_decode ''core.read'' ''core.read.ping'' (StringParams ''{}'')
     = Inr \<lparr>cq_id = [], cq_controller = [], cq_capability = ''core.read'',
         cq_action = ''core.read.ping'', cq_params = ''{}''\<rparr>"
  by code_simp

lemma new_control_request_wellformed_witness:
  "\<exists>s v. find_spec ''core.read.ping'' = Some s \<and> as_capability s = ''core.read'' \<and>
     decode_control_params demo_decode ''core.read.ping'' ''{}''
       = Inr \<lparr>dp_type = declared_params_type s, dp_is_value = True, dp_content = v\<rparr>"
  using new_control_request_wellformed [OF demo_new_request] by auto

definition demo_unknown :: control_request where
  "demo_unknown = \<lparr>cq_id = [], cq_controller = [], cq_capability = [], cq_action = ''core.read.all'',
     cq_params = []\<rparr>"

lemma unknown_action_refused_witness:
  "decode_control_params demo_decode ''core.read.all'' [] = Inl action_unknown"
proof -
  have "find_spec (cq_action demo_unknown) = None"
    by code_simp
  from unknown_action_refused [OF this, of demo_decode "[]"] show ?thesis
    by (simp add: demo_unknown_def)
qed

end
