(* ===== verification/ControlWire.thy ===== *)
theory ControlWire
  imports ControlProtocol RelayAuth "HOL-Library.Word"
begin

text \<open>
  \<open>pkg/controlwire/controlwire.go\<close> and \<open>pkg/cloudmesh/membership.go\<close>: the handshake frames
  of the control channel, the membership leases they carry, and the sealed frames that follow.
  The primitives (Ed25519, X25519, SHA-256, HKDF, AES-GCM) are the fields of the record
  \<open>crypto\<close>; the JSON codecs, the clock and the random bytes are arguments. Sequence numbers
  are \<open>uint64\<close>. A private key is only given to \<open>cx_sign\<close> well formed (\<open>ed25519.Sign\<close> panics
  otherwise); that \<open>AEAD.Open\<close> panics on a nonce of the wrong length is modelled, because the
  nonce comes from the peer.
\<close>

section \<open>Primitives and errors\<close>

record crypto =
  cx_verify :: "string \<Rightarrow> string \<Rightarrow> string \<Rightarrow> bool"
  cx_sign :: "string \<Rightarrow> string \<Rightarrow> string"
  cx_x25519_public :: "string \<Rightarrow> string"
  cx_x25519 :: "string \<Rightarrow> string \<Rightarrow> string option"
  cx_sha256 :: "string \<Rightarrow> string"
  cx_hkdf :: "string \<Rightarrow> string \<Rightarrow> string \<Rightarrow> string"
  cx_seal :: "string \<Rightarrow> string \<Rightarrow> string \<Rightarrow> string \<Rightarrow> string"
  cx_open :: "string \<Rightarrow> string \<Rightarrow> string \<Rightarrow> string \<Rightarrow> string option"

text \<open>Errors whose text comes from the standard library are told apart, not spelled out.\<close>

datatype wire_error =
    WireError string
  | Base64Error
  | KeyError
  | RandomError string
  | DecryptError
  | JsonFailure string

definition newline :: string where
  "newline = [CHR 0x0A]"

definition protocol_version :: string where
  "protocol_version = ''astralops-control-v1''"

definition controller_to_host :: string where
  "controller_to_host = ''controller-to-host''"

definition host_to_controller :: string where
  "host_to_controller = ''host-to-controller''"

section \<open>Membership leases\<close>

record membership_lease =
  ml_version :: string
  ml_algorithm :: string
  ml_key_id :: string
  ml_payload :: string
  ml_signature :: string

record membership_role =
  mr_can_host :: bool
  mr_can_control :: bool

record lease_payload =
  lp_account :: string
  lp_device :: string
  lp_fingerprint :: string
  lp_can_host :: bool
  lp_can_control :: bool
  lp_mesh_epoch :: int
  lp_issued_at :: int
  lp_expires_at :: int

definition lease_version :: string where
  "lease_version = ''astralops-membership-lease-v1''"

definition lease_algorithm :: string where
  "lease_algorithm = ''Ed25519''"

definition zero_lease :: membership_lease where
  "zero_lease = \<lparr>ml_version = [], ml_algorithm = [], ml_key_id = [], ml_payload = [],
     ml_signature = []\<rparr>"

text \<open>\<open>ValidateMembershipLease\<close>, first the signature, then the checks of the payload.\<close>

definition verified_lease_payload ::
  "crypto \<Rightarrow> (string \<Rightarrow> lease_payload option) \<Rightarrow> membership_lease \<Rightarrow> string \<Rightarrow>
   string + lease_payload" where
  "verified_lease_payload cx unmarshal lease signing_key =
     (if trim_space (ml_version lease) \<noteq> lease_version
        then Inl ''membership lease version invalid''
      else if trim_space (ml_algorithm lease) \<noteq> lease_algorithm
        then Inl ''membership lease algorithm invalid''
      else (let part = trim_space (ml_payload lease) in
        if part = [] \<or> blank (ml_signature lease)
          then Inl ''membership lease payload/signature required''
        else (case decode_public_key signing_key of
            None \<Rightarrow> Inl ''membership signing public key invalid''
          | Some key \<Rightarrow>
              (case raw_url_decode (trim_space (ml_signature lease)) of
                 None \<Rightarrow> Inl ''membership lease signature invalid''
               | Some sig \<Rightarrow>
                   if \<not> cx_verify cx key part sig then Inl ''membership lease signature invalid''
                   else (case raw_url_decode part of
                       None \<Rightarrow> Inl ''membership lease payload invalid''
                     | Some body \<Rightarrow>
                         (case unmarshal body of
                            None \<Rightarrow> Inl ''membership lease payload invalid''
                          | Some p \<Rightarrow> Inr p))))))"

definition check_lease_payload ::
  "lease_payload \<Rightarrow> string \<Rightarrow> string \<Rightarrow> string \<Rightarrow> membership_role \<Rightarrow> int \<Rightarrow> string option" where
  "check_lease_payload p account device fingerprint role now =
     (if trim_space (lp_account p) \<noteq> trim_space account
        then Some ''membership lease account mismatch''
      else if trim_space (lp_device p) \<noteq> trim_space device
        then Some ''membership lease device mismatch''
      else if trim_space (lp_fingerprint p) \<noteq> trim_space fingerprint
        then Some ''membership lease fingerprint mismatch''
      else if lp_mesh_epoch p \<le> 0
        then Some ''membership lease mesh epoch invalid''
      else if lp_issued_at p > unix (now + 5 * minute)
        then Some ''membership lease issued in the future''
      else if lp_expires_at p \<le> unix now
        then Some ''membership lease expired''
      else if mr_can_host role \<and> \<not> lp_can_host p
        then Some ''membership lease does not allow host role''
      else if mr_can_control role \<and> \<not> lp_can_control p
        then Some ''membership lease does not allow controller role''
      else None)"

text \<open>\<open>now = None\<close> is the zero time, for which the code reads the clock.\<close>

definition validate_membership_lease ::
  "crypto \<Rightarrow> (string \<Rightarrow> lease_payload option) \<Rightarrow> int \<Rightarrow> membership_lease \<Rightarrow> string \<Rightarrow> string \<Rightarrow>
   string \<Rightarrow> string \<Rightarrow> membership_role \<Rightarrow> int option \<Rightarrow> string option" where
  "validate_membership_lease cx unmarshal clock lease signing_key account device fingerprint role now =
     (case verified_lease_payload cx unmarshal lease signing_key of
        Inl e \<Rightarrow> Some e
      | Inr p \<Rightarrow> check_lease_payload p account device fingerprint role
                  (case now of None \<Rightarrow> clock | Some t \<Rightarrow> t))"

definition lease_signature_part :: "membership_lease option \<Rightarrow> string" where
  "lease_signature_part lease =
     (case lease of
        None \<Rightarrow> []
      | Some l \<Rightarrow> join_with newline
          [trim_space (ml_version l), trim_space (ml_algorithm l), trim_space (ml_key_id l),
           trim_space (ml_payload l), trim_space (ml_signature l)])"

definition first_lease :: "membership_lease option \<Rightarrow> membership_lease" where
  "first_lease lease = (case lease of None \<Rightarrow> zero_lease | Some l \<Rightarrow> l)"

section \<open>Handshake frames\<close>

record hello_frame =
  hf_type :: string
  hf_version :: string
  hf_controller :: string
  hf_public_key :: string
  hf_ephemeral_key :: string
  hf_client_nonce :: string
  hf_signature :: string
  hf_lease :: "membership_lease option"

record hello_ack_frame =
  af_type :: string
  af_version :: string
  af_connection :: string
  af_host :: string
  af_public_key :: string
  af_ephemeral_key :: string
  af_client_nonce :: string
  af_server_nonce :: string
  af_signature :: string
  af_encryption :: string
  af_signature_algorithm :: string
  af_lease :: "membership_lease option"

record membership_state =
  ms_account :: string
  ms_signing_key :: string
  ms_lease :: "membership_lease option"

definition controller_signature_payload :: "string \<Rightarrow> hello_frame \<Rightarrow> string" where
  "controller_signature_payload host hello = join_with newline
     [protocol_version, ''client-hello'', host, hf_controller hello, hf_public_key hello,
      hf_ephemeral_key hello, hf_client_nonce hello, lease_signature_part (hf_lease hello)]"

definition host_signature_payload :: "hello_frame \<Rightarrow> hello_ack_frame \<Rightarrow> string" where
  "host_signature_payload hello ack = join_with newline
     [protocol_version, ''host-hello-ack'', af_connection ack, af_host ack, af_public_key ack,
      hf_controller hello, hf_public_key hello, hf_ephemeral_key hello, af_ephemeral_key ack,
      hf_client_nonce hello, af_server_nonce ack,
      lease_signature_part (hf_lease hello), lease_signature_part (af_lease ack)]"

definition random_base64 :: "string + string \<Rightarrow> wire_error + string" where
  "random_base64 bytes = (case bytes of Inl e \<Rightarrow> Inl (RandomError e) | Inr b \<Rightarrow> Inr (std_encode b))"

text \<open>
  \<open>ephemeral\<close> is the key \<open>GenerateKey\<close> returns, \<open>nonce\<close> the 32 bytes read for the client
  nonce. The result has the frame and the ephemeral private key.
\<close>

definition new_controller_hello ::
  "crypto \<Rightarrow> string + string \<Rightarrow> string + string \<Rightarrow> string \<Rightarrow> device_identity \<Rightarrow> string \<Rightarrow>
   membership_lease option \<Rightarrow> wire_error + (hello_frame \<times> string)" where
  "new_controller_hello cx ephemeral nonce host controller private_key lease =
     (if blank host \<or> blank (di_device controller) \<or> blank (di_public_key controller)
        then Inl (WireError ''control identity is missing'')
      else (case ephemeral of
          Inl e \<Rightarrow> Inl (RandomError e)
        | Inr eph \<Rightarrow>
            (case random_base64 nonce of
               Inl e \<Rightarrow> Inl e
             | Inr client_nonce \<Rightarrow>
                 (let hello = \<lparr>hf_type = ''hello'', hf_version = protocol_version,
                       hf_controller = di_device controller, hf_public_key = di_public_key controller,
                       hf_ephemeral_key = std_encode (cx_x25519_public cx eph),
                       hf_client_nonce = client_nonce, hf_signature = [], hf_lease = lease\<rparr>
                  in Inr (hello\<lparr>hf_signature := std_encode (cx_sign cx private_key
                            (controller_signature_payload host hello))\<rparr>, eph)))))"

definition wire_public_key :: "string \<Rightarrow> wire_error + string" where
  "wire_public_key v =
     (case std_decode (trim_space v) of
        None \<Rightarrow> Inl (WireError ''invalid device public key'')
      | Some key \<Rightarrow>
          if length key \<noteq> 32 then Inl (WireError ''invalid device public key'') else Inr key)"

definition validate_controller_hello_ack ::
  "crypto \<Rightarrow> (string \<Rightarrow> lease_payload option) \<Rightarrow> int \<Rightarrow> device_identity \<Rightarrow> membership_state \<Rightarrow>
   hello_frame \<Rightarrow> hello_ack_frame \<Rightarrow> wire_error option" where
  "validate_controller_hello_ack cx unmarshal clock host membership hello ack =
     (if af_type ack \<noteq> ''hello_ack'' \<or> af_version ack \<noteq> protocol_version
        then Some (WireError ''invalid control hello_ack'')
      else if af_host ack \<noteq> di_device host \<or> af_public_key ack \<noteq> di_public_key host
        then Some (WireError ''remote Host identity changed during handshake'')
      else if af_client_nonce ack \<noteq> hf_client_nonce hello
        then Some (WireError ''invalid control hello_ack client nonce'')
      else (case validate_membership_lease cx unmarshal clock (first_lease (af_lease ack))
                   (ms_signing_key membership) (ms_account membership) (af_host ack)
                   (di_fingerprint host) \<lparr>mr_can_host = True, mr_can_control = False\<rparr> (Some clock) of
          Some e \<Rightarrow> Some (WireError e)
        | None \<Rightarrow>
            (case wire_public_key (af_public_key ack) of
               Inl e \<Rightarrow> Some e
             | Inr key \<Rightarrow>
                 (case std_decode (af_signature ack) of
                    None \<Rightarrow> Some (WireError ''invalid Host hello_ack signature'')
                  | Some sig \<Rightarrow>
                      if cx_verify cx key (host_signature_payload hello ack) sig then None
                      else Some (WireError ''invalid Host hello_ack signature'')))))"

section \<open>The cipher\<close>

record cipher =
  ci_send_key :: string
  ci_recv_key :: string
  ci_connection :: string
  ci_send_direction :: string
  ci_recv_direction :: string
  ci_send_seq :: "64 word"
  ci_recv_seq :: "64 word"

record session_keys =
  sk_controller_to_host :: string
  sk_host_to_controller :: string

definition derive_direction_key :: "crypto \<Rightarrow> string \<Rightarrow> string \<Rightarrow> string \<Rightarrow> string \<Rightarrow> string" where
  "derive_direction_key cx secret salt base_info direction =
     cx_hkdf cx secret salt (base_info @ newline @ direction)"

definition derive_session_keys ::
  "crypto \<Rightarrow> string \<Rightarrow> hello_frame \<Rightarrow> string \<Rightarrow> string \<Rightarrow> string \<Rightarrow> string \<Rightarrow> string \<Rightarrow> session_keys" where
  "derive_session_keys cx secret hello host host_key host_ephemeral server_nonce connection =
     (let salt = cx_sha256 cx (hf_client_nonce hello @ [CHR 0x00] @ server_nonce);
          info = join_with newline
            [protocol_version, ''session-key'', connection, host, host_key, hf_controller hello,
             hf_public_key hello, hf_ephemeral_key hello, host_ephemeral]
      in \<lparr>sk_controller_to_host = derive_direction_key cx secret salt info controller_to_host,
          sk_host_to_controller = derive_direction_key cx secret salt info host_to_controller\<rparr>)"

definition new_aead :: "string \<Rightarrow> wire_error + string" where
  "new_aead key =
     (if length key = 16 \<or> length key = 24 \<or> length key = 32 then Inr key else Inl KeyError)"

definition new_cipher :: "string \<Rightarrow> string \<Rightarrow> string \<Rightarrow> string \<Rightarrow> string \<Rightarrow> wire_error + cipher" where
  "new_cipher send_key recv_key connection send_direction recv_direction =
     (if blank connection \<or> blank send_direction \<or> blank recv_direction
        then Inl (WireError ''control cipher context required'')
      else (case new_aead send_key of
          Inl e \<Rightarrow> Inl e
        | Inr sk \<Rightarrow>
            (case new_aead recv_key of
               Inl e \<Rightarrow> Inl e
             | Inr rk \<Rightarrow> Inr \<lparr>ci_send_key = sk, ci_recv_key = rk, ci_connection = connection,
                  ci_send_direction = send_direction, ci_recv_direction = recv_direction,
                  ci_send_seq = 0, ci_recv_seq = 0\<rparr>)))"

definition new_controller_cipher ::
  "crypto \<Rightarrow> string \<Rightarrow> hello_frame \<Rightarrow> string \<Rightarrow> string \<Rightarrow> string \<Rightarrow> string \<Rightarrow> string \<Rightarrow>
   wire_error + cipher" where
  "new_controller_cipher cx secret hello host host_key host_ephemeral server_nonce connection =
     (let keys = derive_session_keys cx secret hello host host_key host_ephemeral server_nonce connection
      in new_cipher (sk_controller_to_host keys) (sk_host_to_controller keys) connection
           controller_to_host host_to_controller)"

definition new_host_cipher ::
  "crypto \<Rightarrow> string \<Rightarrow> hello_frame \<Rightarrow> string \<Rightarrow> string \<Rightarrow> string \<Rightarrow> string \<Rightarrow> string \<Rightarrow>
   wire_error + cipher" where
  "new_host_cipher cx secret hello host host_key host_ephemeral server_nonce connection =
     (let keys = derive_session_keys cx secret hello host host_key host_ephemeral server_nonce connection
      in new_cipher (sk_host_to_controller keys) (sk_controller_to_host keys) connection
           host_to_controller controller_to_host)"

text \<open>\<open>NewPublicKey\<close> of X25519 takes any 32 bytes; \<open>ECDH\<close> fails on a point of low order.\<close>

definition new_x25519_public :: "string \<Rightarrow> wire_error + string" where
  "new_x25519_public bytes = (if length bytes \<noteq> 32 then Inl KeyError else Inr bytes)"

definition new_controller_cipher_from_ack ::
  "crypto \<Rightarrow> hello_frame \<Rightarrow> hello_ack_frame \<Rightarrow> string \<Rightarrow> wire_error + cipher" where
  "new_controller_cipher_from_ack cx hello ack ephemeral =
     (case std_decode (af_ephemeral_key ack) of
        None \<Rightarrow> Inl Base64Error
      | Some bytes \<Rightarrow>
          (case new_x25519_public bytes of
             Inl e \<Rightarrow> Inl e
           | Inr host_ephemeral \<Rightarrow>
               (case cx_x25519 cx ephemeral host_ephemeral of
                  None \<Rightarrow> Inl KeyError
                | Some secret \<Rightarrow> new_controller_cipher cx secret hello (af_host ack)
                    (af_public_key ack) (af_ephemeral_key ack) (af_server_nonce ack)
                    (af_connection ack))))"

section \<open>Sealed frames\<close>

text \<open>An empty \<open>json.RawMessage\<close> and an absent one are the same on the wire.\<close>

record 'r plain_frame =
  pf_type :: string
  pf_request :: "control_request option"
  pf_response :: "'r control_response option"
  pf_event :: string
  pf_terminal :: string
  pf_media :: string
  pf_workspace_file :: string
  pf_reason :: string
  pf_code :: string

record sealed_frame =
  sf_type :: string
  sf_seq :: "64 word"
  sf_nonce :: string
  sf_ciphertext :: string

definition frame_aad :: "string \<Rightarrow> string \<Rightarrow> 64 word \<Rightarrow> string" where
  "frame_aad connection direction seq = join_with newline
     [protocol_version, ''sealed'', connection, direction, dec (unat seq)]"

text \<open>What \<open>Seal\<close> hands to \<open>AEAD.Seal\<close>: the nonce, the body and the associated data.\<close>

definition seal_inputs ::
  "('r plain_frame \<Rightarrow> string + string) \<Rightarrow> string + string \<Rightarrow> 'r plain_frame \<Rightarrow> cipher \<Rightarrow>
   wire_error + (string \<times> string \<times> string)" where
  "seal_inputs marshal random frame c =
     (case marshal frame of
        Inl e \<Rightarrow> Inl (JsonFailure e)
      | Inr body \<Rightarrow>
          (case random of
             Inl e \<Rightarrow> Inl (RandomError e)
           | Inr nonce \<Rightarrow>
               Inr (nonce, body, frame_aad (ci_connection c) (ci_send_direction c) (ci_send_seq c + 1))))"

definition seal ::
  "crypto \<Rightarrow> ('r plain_frame \<Rightarrow> string + string) \<Rightarrow> string + string \<Rightarrow> 'r plain_frame \<Rightarrow> cipher \<Rightarrow>
   (wire_error + sealed_frame) \<times> cipher" where
  "seal cx marshal random frame c =
     (case seal_inputs marshal random frame c of
        Inl e \<Rightarrow> (Inl e, c)
      | Inr (nonce, body, aad) \<Rightarrow>
          (let c1 = c\<lparr>ci_send_seq := ci_send_seq c + 1\<rparr>
           in (Inr \<lparr>sf_type = ''sealed'', sf_seq = ci_send_seq c1, sf_nonce = std_encode nonce,
                 sf_ciphertext = std_encode (cx_seal cx (ci_send_key c1) nonce body aad)\<rparr>, c1)))"

datatype 'a opened = Opened 'a | Refused wire_error | Panicked

definition nonce_size :: nat where
  "nonce_size = 12"

definition open_frame ::
  "crypto \<Rightarrow> (string \<Rightarrow> string + 'r plain_frame) \<Rightarrow> sealed_frame \<Rightarrow> cipher \<Rightarrow>
   'r plain_frame opened \<times> cipher" where
  "open_frame cx unmarshal frame c =
     (if sf_type frame \<noteq> ''sealed'' \<or> sf_seq frame = 0 \<or> sf_seq frame \<noteq> ci_recv_seq c + 1
        then (Refused (WireError ''invalid sealed frame sequence''), c)
      else (case std_decode (sf_nonce frame) of
          None \<Rightarrow> (Refused Base64Error, c)
        | Some nonce \<Rightarrow>
            (case std_decode (sf_ciphertext frame) of
               None \<Rightarrow> (Refused Base64Error, c)
             | Some ct \<Rightarrow>
                 if length nonce \<noteq> nonce_size then (Panicked, c)
                 else (case cx_open cx (ci_recv_key c) nonce ct
                          (frame_aad (ci_connection c) (ci_recv_direction c) (sf_seq frame)) of
                     None \<Rightarrow> (Refused DecryptError, c)
                   | Some body \<Rightarrow>
                       (case unmarshal body of
                          Inl e \<Rightarrow> (Refused (JsonFailure e), c)
                        | Inr plain \<Rightarrow> (Opened plain, c\<lparr>ci_recv_seq := sf_seq frame\<rparr>))))))"

record close_error =
  cl_code :: string
  cl_reason :: string

definition close_error_text :: "close_error \<Rightarrow> string" where
  "close_error_text e = (if \<not> blank (cl_reason e) then cl_reason e else cl_code e)"

definition parse_close_frame ::
  "(string \<Rightarrow> string + 'r plain_frame) \<Rightarrow> string \<Rightarrow> close_error option" where
  "parse_close_frame unmarshal body =
     (case unmarshal body of
        Inl e \<Rightarrow> None
      | Inr frame \<Rightarrow>
          if pf_type frame \<noteq> ''close'' then None
          else (let reason = trim_space (pf_reason frame);
                    reason1 = (if reason = [] then ''remote control handshake rejected'' else reason)
                in Some \<lparr>cl_code = trim_space (pf_code frame), cl_reason = reason1\<rparr>))"


section \<open>One frame\<close>

lemma frame_aad_inj [simp]:
  "frame_aad connection direction s = frame_aad connection direction t \<longleftrightarrow> s = t"
  by (simp add: frame_aad_def word_unat_eq_iff)

lemma seal_okD:
  assumes "seal cx marshal random frame c = (Inr sealed, c1)"
  obtains body nonce where "marshal frame = Inr body" "random = Inr nonce"
    "c1 = c\<lparr>ci_send_seq := ci_send_seq c + 1\<rparr>"
    "sealed = \<lparr>sf_type = ''sealed'', sf_seq = ci_send_seq c + 1, sf_nonce = std_encode nonce,
       sf_ciphertext = std_encode (cx_seal cx (ci_send_key c) nonce body
         (frame_aad (ci_connection c) (ci_send_direction c) (ci_send_seq c + 1)))\<rparr>"
  using assms that by (auto simp: seal_def seal_inputs_def Let_def split: sum.splits)

lemma open_cases:
  obtains (opened) nonce ct body plain where
      "open_frame cx unmarshal frame c = (Opened plain, c\<lparr>ci_recv_seq := ci_recv_seq c + 1\<rparr>)"
      "sf_type frame = ''sealed''" "sf_seq frame = ci_recv_seq c + 1" "ci_recv_seq c + 1 \<noteq> 0"
      "std_decode (sf_nonce frame) = Some nonce" "std_decode (sf_ciphertext frame) = Some ct"
      "length nonce = nonce_size"
      "cx_open cx (ci_recv_key c) nonce ct
         (frame_aad (ci_connection c) (ci_recv_direction c) (ci_recv_seq c + 1)) = Some body"
      "unmarshal body = Inr plain"
  | (refused) e where "open_frame cx unmarshal frame c = (Refused e, c)"
  | (panicked) "open_frame cx unmarshal frame c = (Panicked, c)"
proof (cases "sf_type frame = ''sealed'' \<and> sf_seq frame \<noteq> 0 \<and> sf_seq frame = ci_recv_seq c + 1")
  case True
  then have head: "sf_type frame = ''sealed''" "sf_seq frame = ci_recv_seq c + 1" "ci_recv_seq c + 1 \<noteq> 0"
    by auto
  let ?aad = "frame_aad (ci_connection c) (ci_recv_direction c) (ci_recv_seq c + 1)"
  show ?thesis
  proof (cases "std_decode (sf_nonce frame)")
    case None
    with head show ?thesis by (intro refused) (simp add: open_frame_def)
  next
    case nonce: (Some nonce)
    show ?thesis
    proof (cases "std_decode (sf_ciphertext frame)")
      case None
      with head nonce show ?thesis by (intro refused) (simp add: open_frame_def)
    next
      case ct: (Some ct)
      show ?thesis
      proof (cases "length nonce = nonce_size")
        case False
        with head nonce ct show ?thesis by (intro panicked) (simp add: open_frame_def)
      next
        case len: True
        show ?thesis
        proof (cases "cx_open cx (ci_recv_key c) nonce ct ?aad")
          case None
          with head nonce ct len show ?thesis by (intro refused) (simp add: open_frame_def)
        next
          case body: (Some body)
          show ?thesis
          proof (cases "unmarshal body")
            case (Inl e)
            with head nonce ct len body show ?thesis by (intro refused) (simp add: open_frame_def)
          next
            case (Inr plain)
            with head nonce ct len body show ?thesis by (intro opened) (simp_all add: open_frame_def)
          qed
        qed
      qed
    qed
  qed
next
  case False
  then have "open_frame cx unmarshal frame c = (Refused (WireError ''invalid sealed frame sequence''), c)"
    by (auto simp: open_frame_def)
  then show ?thesis by (rule refused)
qed


section \<open>A channel\<close>

text \<open>
  One direction of a connection: the sender seals a list of frames (with what the random source
  gives for each), the receiver opens whatever arrives, in any order, changed, repeated or made
  up, and goes on after a refusal. \<open>sent_bodies\<close> are the bodies that were sealed and
  \<open>sealed_calls\<close> the arguments of the calls of \<open>AEAD.Seal\<close> that \<open>Seal\<close> made for them.
\<close>

fun send_all ::
  "crypto \<Rightarrow> ('r plain_frame \<Rightarrow> string + string) \<Rightarrow> ('r plain_frame \<times> (string + string)) list \<Rightarrow>
   cipher \<Rightarrow> sealed_frame list \<times> cipher" where
  "send_all cx marshal [] c = ([], c)"
| "send_all cx marshal ((f, random) # items) c =
     (case seal cx marshal random f c of
        (Inl e, c1) \<Rightarrow> send_all cx marshal items c1
      | (Inr s, c1) \<Rightarrow> (case send_all cx marshal items c1 of (ss, c2) \<Rightarrow> (s # ss, c2)))"

fun sealed_calls ::
  "crypto \<Rightarrow> ('r plain_frame \<Rightarrow> string + string) \<Rightarrow> ('r plain_frame \<times> (string + string)) list \<Rightarrow>
   cipher \<Rightarrow> (string \<times> string \<times> string) list" where
  "sealed_calls cx marshal [] c = []"
| "sealed_calls cx marshal ((f, random) # items) c =
     (case seal_inputs marshal random f c of
        Inl e \<Rightarrow> sealed_calls cx marshal items (snd (seal cx marshal random f c))
      | Inr call \<Rightarrow> call # sealed_calls cx marshal items (snd (seal cx marshal random f c)))"

fun open_all ::
  "crypto \<Rightarrow> (string \<Rightarrow> string + 'r plain_frame) \<Rightarrow> sealed_frame list \<Rightarrow> cipher \<Rightarrow>
   'r plain_frame list \<times> cipher" where
  "open_all cx unmarshal [] c = ([], c)"
| "open_all cx unmarshal (s # ss) c =
     (case open_frame cx unmarshal s c of
        (Opened p, c1) \<Rightarrow> (case open_all cx unmarshal ss c1 of (ps, c2) \<Rightarrow> (p # ps, c2))
      | (Refused e, c1) \<Rightarrow> open_all cx unmarshal ss c1
      | (Panicked, c1) \<Rightarrow> ([], c1))"

fun sent_bodies ::
  "('r plain_frame \<Rightarrow> string + string) \<Rightarrow> ('r plain_frame \<times> (string + string)) list \<Rightarrow> string list" where
  "sent_bodies marshal [] = []"
| "sent_bodies marshal ((f, random) # items) =
     (case (marshal f, random) of
        (Inr body, Inr nonce) \<Rightarrow> body # sent_bodies marshal items
      | _ \<Rightarrow> sent_bodies marshal items)"

text \<open>
  What AES-GCM promises of a run. \<open>opens_own\<close>: what was sealed opens. \<open>unforged\<close>: none of the
  frames that arrive is a forgery, that is, a frame that decrypts at all under the associated
  data of its number is one that the sender asked \<open>AEAD.Seal\<close> for. It speaks of the frames that
  do arrive in the run, not of every ciphertext, so it is compatible with \<open>opens_own\<close>.
\<close>

definition opens_own :: "crypto \<Rightarrow> string \<Rightarrow> bool" where
  "opens_own cx key \<longleftrightarrow> (\<forall>nonce body aad. length nonce = nonce_size \<longrightarrow>
     cx_open cx key nonce (cx_seal cx key nonce body aad) aad = Some body)"

definition frame_unforged ::
  "crypto \<Rightarrow> cipher \<Rightarrow> (string \<times> string \<times> string) list \<Rightarrow> sealed_frame \<Rightarrow> bool" where
  "frame_unforged cx r calls frame =
     (let aad = frame_aad (ci_connection r) (ci_recv_direction r) (sf_seq frame) in
      case (std_decode (sf_nonce frame), std_decode (sf_ciphertext frame)) of
        (Some nonce, Some ct) \<Rightarrow>
          (case cx_open cx (ci_recv_key r) nonce ct aad of
             None \<Rightarrow> True
           | Some body \<Rightarrow> (nonce, body, aad) \<in> set calls)
      | _ \<Rightarrow> True)"

definition unforged ::
  "crypto \<Rightarrow> cipher \<Rightarrow> (string \<times> string \<times> string) list \<Rightarrow> sealed_frame list \<Rightarrow> bool" where
  "unforged cx r calls frames = list_all (frame_unforged cx r calls) frames"

lemma unforgedD:
  assumes "unforged cx r calls frames" and "frame \<in> set frames"
    and "std_decode (sf_nonce frame) = Some nonce" "std_decode (sf_ciphertext frame) = Some ct"
    and "cx_open cx (ci_recv_key r) nonce ct
      (frame_aad (ci_connection r) (ci_recv_direction r) (sf_seq frame)) = Some body"
  shows "(nonce, body, frame_aad (ci_connection r) (ci_recv_direction r) (sf_seq frame)) \<in> set calls"
  using assms by (auto simp: unforged_def frame_unforged_def list_all_iff Let_def)

lemma unforged_cong:
  assumes "ci_recv_key r = ci_recv_key r'" "ci_connection r = ci_connection r'"
    "ci_recv_direction r = ci_recv_direction r'"
  shows "unforged cx r calls frames = unforged cx r' calls frames"
proof -
  have "frame_unforged cx r calls = frame_unforged cx r' calls"
    by (rule ext) (unfold frame_unforged_def assms, rule refl)
  then show ?thesis by (simp add: unforged_def)
qed

lemma unforged_subset: "unforged cx r calls frames \<Longrightarrow> set ss \<subseteq> set frames \<Longrightarrow> unforged cx r calls ss"
  by (auto simp: unforged_def list_all_iff)

lemma of_nat_word64_eq:
  "m < 2 ^ 64 \<Longrightarrow> n < 2 ^ 64 \<Longrightarrow> (of_nat m :: 64 word) = of_nat n \<longleftrightarrow> m = n"
  by (simp add: word_unat_eq_iff unat_of_nat)

lemma seal_unchanged:
  assumes "seal cx marshal random f c = (Inl e, c1)"
  shows "c1 = c \<and> sent_bodies marshal ((f, random) # items) = sent_bodies marshal items"
  using assms by (auto simp: seal_def seal_inputs_def Let_def split: sum.splits)

text \<open>The calls of \<open>AEAD.Seal\<close>: one for each body, under the numbers in order.\<close>

lemma sealed_callsD:
  "(nonce, body, frame_aad (ci_connection c) (ci_send_direction c) t) \<in> set (sealed_calls cx marshal items c) \<Longrightarrow>
   \<exists>i < length (sent_bodies marshal items). t = ci_send_seq c + of_nat (Suc i) \<and> body = sent_bodies marshal items ! i"
proof (induction items arbitrary: c)
  case (Cons item items)
  obtain f random where item: "item = (f, random)" by fastforce
  show ?case
  proof (cases "\<exists>b n. marshal f = Inr b \<and> random = Inr n")
    case False
    then have skip: "sealed_calls cx marshal (item # items) c = sealed_calls cx marshal items c"
      "sent_bodies marshal (item # items) = sent_bodies marshal items"
      by (auto simp: item seal_def seal_inputs_def split: sum.splits)
    show ?thesis using Cons unfolding skip by blast
  next
    case True
    then obtain b n where ok: "marshal f = Inr b" "random = Inr n" by blast
    let ?c = "c\<lparr>ci_send_seq := ci_send_seq c + 1\<rparr>"
    have step: "sealed_calls cx marshal (item # items) c =
        (n, b, frame_aad (ci_connection c) (ci_send_direction c) (ci_send_seq c + 1)) # sealed_calls cx marshal items ?c"
      "sent_bodies marshal (item # items) = b # sent_bodies marshal items"
      by (simp_all add: item ok seal_def seal_inputs_def)
    consider "t = ci_send_seq c + 1" "body = b"
      | "(nonce, body, frame_aad (ci_connection ?c) (ci_send_direction ?c) t) \<in> set (sealed_calls cx marshal items ?c)"
      using Cons.prems unfolding step by auto
    then show ?thesis
    proof cases
      case 1
      then show ?thesis unfolding step by (intro exI [of _ 0]) simp
    next
      case 2
      from Cons.IH [OF this] obtain i where "i < length (sent_bodies marshal items)"
        "t = ci_send_seq c + 1 + of_nat (Suc i)" "body = sent_bodies marshal items ! i"
        by auto
      then show ?thesis unfolding step by (intro exI [of _ "Suc i"]) (simp add: algebra_simps)
    qed
  qed
qed simp

lemma open_all_prefix:
  assumes "unforged cx r (sealed_calls cx marshal items c) ss"
    and "ci_send_seq c = 0" "ci_connection r = ci_connection c" "ci_recv_direction r = ci_send_direction c"
    and "length (sent_bodies marshal items) < 2 ^ 64"
    and "ci_recv_seq r = of_nat j" and "j \<le> length (sent_bodies marshal items)"
  shows "\<exists>n. map Inr (fst (open_all cx unmarshal ss r)) = map unmarshal (take n (drop j (sent_bodies marshal items)))"
  using assms
proof (induction ss arbitrary: r j)
  case (Cons s ss)
  let ?bodies = "sent_bodies marshal items"
  have rest: "unforged cx r (sealed_calls cx marshal items c) ss"
    using Cons.prems(1) by (simp add: unforged_def)
  show ?case
  proof (cases rule: open_cases [of cx unmarshal s r])
    case (opened nonce ct body plain)
    have "(nonce, body, frame_aad (ci_connection c) (ci_send_direction c) (ci_recv_seq r + 1))
        \<in> set (sealed_calls cx marshal items c)"
      using unforgedD [OF Cons.prems(1) list.set_intros(1) opened(5,6)] opened(3,8) Cons.prems(3,4) by simp
    from sealed_callsD [OF this] Cons.prems(2) obtain i where i: "i < length ?bodies"
      "ci_recv_seq r + 1 = of_nat (Suc i)" "body = ?bodies ! i"
      by auto
    have seq: "(of_nat (Suc j) :: 64 word) = of_nat (Suc i)"
      using i(2) Cons.prems(6) by (simp add: add.commute)
    have "Suc j \<noteq> 2 ^ 64"
    proof
      assume "Suc j = 2 ^ 64"
      then have "(of_nat (Suc j) :: 64 word) = 0"
        by (simp only: word_unat_eq_iff unat_of_nat) simp
      then show False
        using opened(4) Cons.prems(6) by (simp add: add.commute)
    qed
    then have "j = i"
      using seq of_nat_word64_eq [of "Suc j" "Suc i"] Cons.prems(5,7) i(1) by simp
    then have body: "drop j ?bodies = body # drop (Suc j) ?bodies"
      using i Cons_nth_drop_Suc by metis
    let ?r = "r\<lparr>ci_recv_seq := ci_recv_seq r + 1\<rparr>"
    have "\<exists>n. map Inr (fst (open_all cx unmarshal ss ?r)) = map unmarshal (take n (drop (Suc j) ?bodies))"
    proof (rule Cons.IH)
      show "unforged cx ?r (sealed_calls cx marshal items c) ss"
        using rest by (subst unforged_cong [of _ r]) simp_all
    qed (use Cons.prems \<open>j = i\<close> i(1) in \<open>simp_all add: add.commute\<close>)
    then obtain n where "map Inr (fst (open_all cx unmarshal ss ?r)) = map unmarshal (take n (drop (Suc j) ?bodies))"
      by blast
    then have "map Inr (fst (open_all cx unmarshal (s # ss) r)) = map unmarshal (take (Suc n) (drop j ?bodies))"
      by (simp add: opened(1) opened(9) body case_prod_unfold)
    then show ?thesis by blast
  next
    case (refused e)
    then show ?thesis using Cons rest by simp
  next
    case panicked
    then show ?thesis by (intro exI [of _ 0]) simp
  qed
qed (simp add: exI [of _ 0])

lemma open_sealed:
  assumes "seal cx marshal random f c = (Inr s, c1)" "marshal f = Inr body"
    and "random = Inr nonce" "length nonce = nonce_size"
    and "opens_own cx (ci_send_key c)" "ci_recv_key r = ci_send_key c"
    and "ci_connection r = ci_connection c" "ci_recv_direction r = ci_send_direction c"
    and "ci_recv_seq r = ci_send_seq c" "ci_send_seq c + 1 \<noteq> 0"
    and "unmarshal body = Inr p"
  shows "open_frame cx unmarshal s r = (Opened p, r\<lparr>ci_recv_seq := ci_recv_seq r + 1\<rparr>)"
  using assms by (auto simp: seal_def seal_inputs_def Let_def open_frame_def opens_own_def split: sum.splits)

text \<open>The first frames of the sender, whatever follows them, are opened one after the other.\<close>

lemma sealed_first_opened:
  assumes "opens_own cx (ci_send_key c)" and "ci_recv_key r = ci_send_key c"
    and "ci_connection r = ci_connection c" "ci_recv_direction r = ci_send_direction c"
    and "ci_recv_seq r = ci_send_seq c"
    and "unat (ci_send_seq c) + length (sent_bodies marshal items) < 2 ^ 64"
    and "\<And>f nonce. (f, Inr nonce) \<in> set items \<Longrightarrow> length nonce = nonce_size"
    and "\<And>body. body \<in> set (take k (sent_bodies marshal items)) \<Longrightarrow> \<exists>p. unmarshal body = Inr p"
  shows "map Inr (fst (open_all cx unmarshal (take k (fst (send_all cx marshal items c))) r))
       = map unmarshal (take k (sent_bodies marshal items))"
  using assms
proof (induction items arbitrary: c r k)
  case (Cons item items)
  obtain f random where item: "item = (f, random)" by fastforce
  obtain res c1 where seal: "seal cx marshal random f c = (res, c1)" by fastforce
  have len: "length n = nonce_size" if "(g, Inr n) \<in> set items" for g n
    using that Cons.prems(7) by (meson list.set_intros(2))
  show ?case
  proof (cases res)
    case (Inl e)
    with seal have same: "c1 = c" "sent_bodies marshal (item # items) = sent_bodies marshal items"
      using seal_unchanged item by metis+
    have "map Inr (fst (open_all cx unmarshal (take k (fst (send_all cx marshal items c))) r))
        = map unmarshal (take k (sent_bodies marshal items))"
      by (rule Cons.IH) (use Cons.prems(1-6,8) same(2) len in simp_all)
    then show ?thesis
      using seal Inl same by (simp add: item)
  next
    case (Inr s)
    then obtain body nonce where ok: "marshal f = Inr body" "random = Inr nonce"
      "c1 = c\<lparr>ci_send_seq := ci_send_seq c + 1\<rparr>"
      using seal by (metis seal_okD)
    then have bodies: "sent_bodies marshal (item # items) = body # sent_bodies marshal items"
      by (simp add: item)
    show ?thesis
    proof (cases k)
      case (Suc k')
      obtain p where p: "unmarshal body = Inr p"
        using Cons.prems(8) [of body] bodies Suc by auto
      have small: "unat (ci_send_seq c) + 1 < 2 ^ 64"
        using Cons.prems(6) bodies by simp
      then have next_seq: "unat (ci_send_seq c + 1) = unat (ci_send_seq c) + 1"
        by (simp add: unat_word_ariths)
      then have nonzero: "ci_send_seq c + 1 \<noteq> 0"
        by (metis add_is_0 one_neq_zero unat_0)
      have n: "length nonce = nonce_size"
        using Cons.prems(7) [of f nonce] item ok(2) by simp
      have opened: "open_frame cx unmarshal s r = (Opened p, r\<lparr>ci_recv_seq := ci_recv_seq r + 1\<rparr>)"
        using open_sealed [where unmarshal = unmarshal and marshal = marshal,
            OF seal [unfolded Inr] ok(1,2) n Cons.prems(1-5) nonzero p] .
      have "map Inr (fst (open_all cx unmarshal (take k' (fst (send_all cx marshal items c1)))
            (r\<lparr>ci_recv_seq := ci_recv_seq r + 1\<rparr>))) = map unmarshal (take k' (sent_bodies marshal items))"
      proof (rule Cons.IH)
        show "\<exists>p. unmarshal b = Inr p" if "b \<in> set (take k' (sent_bodies marshal items))" for b
          using that Cons.prems(8) bodies Suc by simp
      qed (use Cons.prems(1-6) ok(3) next_seq bodies len in simp_all)
      then show ?thesis
        using seal Inr opened p bodies Suc by (simp add: item case_prod_unfold)
    qed simp
  qed
qed simp

lemma open_all_length: "length (fst (open_all cx unmarshal ss c)) \<le> length ss"
  by (induction cx unmarshal ss c rule: open_all.induct) (auto split: opened.splits prod.splits)

lemma open_all_first:
  "length (fst (open_all cx unmarshal ss r)) = length ss \<Longrightarrow>
   take (length ss) (fst (open_all cx unmarshal (ss @ rest) r)) = fst (open_all cx unmarshal ss r)"
proof (induction ss arbitrary: r)
  case (Cons s ss)
  obtain res r1 where o: "open_frame cx unmarshal s r = (res, r1)" by fastforce
  show ?case
  proof (cases res)
    case (Opened p)
    then show ?thesis using Cons.prems o Cons.IH [of r1] by (simp add: case_prod_unfold)
  next
    case (Refused e)
    then show ?thesis using Cons.prems o open_all_length [of cx unmarshal ss r1] by simp
  next
    case Panicked
    then show ?thesis using Cons.prems o by simp
  qed
qed simp

lemma send_all_length: "length (fst (send_all cx marshal items c)) = length (sent_bodies marshal items)"
proof (induction items arbitrary: c)
  case (Cons item items)
  obtain f random where item: "item = (f, random)" by fastforce
  show ?case
    by (cases "marshal f"; cases random) (simp_all add: item seal_def seal_inputs_def Let_def Cons.IH case_prod_unfold)
qed simp

text \<open>
  C12: Nothing forged, replayed, reordered or dropped in the middle is accepted, and nothing
  genuine is lost: whatever frames arrive at the end that shares the sender's key, what it opens
  is a prefix of what \<open>Seal\<close> sealed at the other end, and as far as the frames arrive as they
  were sealed, all of them are opened. The primitive is an AEAD: it opens what was sealed, and
  no frame of the run is a forgery. Fewer than \<open>2^64\<close> frames, nonces of the AEAD's size, and
  bodies that decode.
\<close>

theorem channel_prefix:
  assumes "ci_recv_seq r = 0" and "ci_send_seq c = 0" and "ci_recv_key r = ci_send_key c"
    and "ci_connection r = ci_connection c" "ci_recv_direction r = ci_send_direction c"
    and "opens_own cx (ci_send_key c)"
    and "unforged cx r (sealed_calls cx marshal items c) frames"
    and "length (sent_bodies marshal items) < 2 ^ 64"
    and "\<And>f nonce. (f, Inr nonce) \<in> set items \<Longrightarrow> length nonce = nonce_size"
    and "\<And>body. body \<in> set (sent_bodies marshal items) \<Longrightarrow> \<exists>p. unmarshal body = Inr p"
  shows "\<exists>n. map Inr (fst (open_all cx unmarshal frames r)) = map unmarshal (take n (sent_bodies marshal items)) \<and>
    (\<forall>k \<le> length (fst (send_all cx marshal items c)).
       take k frames = take k (fst (send_all cx marshal items c)) \<longrightarrow> k \<le> n)"
proof -
  let ?bodies = "sent_bodies marshal items" and ?sealed = "fst (send_all cx marshal items c)"
  obtain n where n: "map Inr (fst (open_all cx unmarshal frames r)) = map unmarshal (take n ?bodies)"
    using open_all_prefix [OF assms(7,2,4,5,8), of 0 unmarshal] assms(1) by auto
  have "k \<le> n" if k: "k \<le> length ?sealed" "take k frames = take k ?sealed" for k
  proof -
    have "map Inr (fst (open_all cx unmarshal (take k ?sealed) r)) = map unmarshal (take k ?bodies)"
      by (rule sealed_first_opened) (use assms in_set_takeD in \<open>force+\<close>)
    from arg_cong [OF this, of length]
    have all: "length (fst (open_all cx unmarshal (take k frames) r)) = length (take k frames)"
      using k by (simp add: send_all_length)
    have "length (take k frames) = k"
      using k by (metis length_take min.absorb2)
    then have "k \<le> length (fst (open_all cx unmarshal frames r))"
      using arg_cong [OF open_all_first [OF all, of "drop k frames"], of length] all
      by (simp only: append_take_drop_id length_take)
    also have "\<dots> = length (take n ?bodies)"
      using arg_cong [OF n, of length] by simp
    finally show "k \<le> n" by simp
  qed
  then show ?thesis using n by blast
qed

text \<open>
  What is sealed arrives: delivering the frames of \<open>Seal\<close> in order to the other end opens
  every one of them and gives the peer what the sealed bodies decode to, as long as the counter
  does not wrap; frames that cannot be marshalled or find no randomness do not disturb it.
\<close>

theorem channel_delivers:
  assumes "opens_own cx (ci_send_key c)" and "ci_recv_key r = ci_send_key c"
    and "ci_connection r = ci_connection c" "ci_recv_direction r = ci_send_direction c"
    and "ci_recv_seq r = ci_send_seq c"
    and "unat (ci_send_seq c) + length (sent_bodies marshal items) < 2 ^ 64"
    and "\<And>f nonce. (f, Inr nonce) \<in> set items \<Longrightarrow> length nonce = nonce_size"
    and "\<And>body. body \<in> set (sent_bodies marshal items) \<Longrightarrow> \<exists>p. unmarshal body = Inr p"
  shows "map Inr (fst (open_all cx unmarshal (fst (send_all cx marshal items c)) r))
       = map unmarshal (sent_bodies marshal items)"
  using sealed_first_opened [where k = "length (sent_bodies marshal items)" and unmarshal = unmarshal, OF assms(1-7)] assms(8)
  by (simp add: send_all_length)

text \<open>
  A frame that \<open>Open\<close> does not accept leaves the cipher as it was, and an accepted one is
  the next in sequence and moves the receive counter by one and nothing else; a sequence number
  already accepted is refused, also when the counter wraps.
\<close>

theorem open_monotone:
  assumes "open_frame cx unmarshal frame c = (res, c1)"
  shows "(case res of
      Opened p \<Rightarrow> c1 = c\<lparr>ci_recv_seq := sf_seq frame\<rparr> \<and> unat (sf_seq frame) = unat (ci_recv_seq c) + 1
    | _ \<Rightarrow> c1 = c)"
  using assms
proof (cases rule: open_cases [of cx unmarshal frame c])
  case (opened nonce ct body plain)
  have "unat (ci_recv_seq c + 1) = unat (ci_recv_seq c) + 1"
    using opened(4) by (metis Suc_eq_plus1 unatSuc add.commute)
  then show ?thesis using opened assms by auto
qed (use assms in auto)

text \<open>
  A peer can make \<open>Open\<close> panic: a frame with the next sequence number and a well-formed
  base64 nonce of any length but 12 is handed to \<open>AEAD.Open\<close> unchecked. No key is needed.
\<close>

theorem open_panics_on_nonce:
  assumes "ci_recv_seq c + 1 \<noteq> 0" and "length nonce \<noteq> nonce_size"
  shows "open_frame cx unmarshal \<lparr>sf_type = ''sealed'', sf_seq = ci_recv_seq c + 1,
      sf_nonce = std_encode nonce, sf_ciphertext = std_encode ct\<rparr> c = (Panicked, c)"
  using assms by (simp add: open_frame_def)


section \<open>Concrete channels\<close>

text \<open>
  A toy AEAD that appends what it authenticates; \<open>toy_sender_only\<close> opens only what the sender of
  one frame sealed. Toy codecs: a frame is its reason.
\<close>

definition toy_seal :: "string \<Rightarrow> string \<Rightarrow> string \<Rightarrow> string \<Rightarrow> string" where
  "toy_seal key nonce body aad = aad @ body"

definition toy_open :: "string \<Rightarrow> string \<Rightarrow> string \<Rightarrow> string \<Rightarrow> string option" where
  "toy_open key nonce ct aad =
     (if take (length aad) ct = aad then Some (drop (length aad) ct) else None)"

definition toy_crypto :: crypto where
  "toy_crypto = \<lparr>cx_verify = (\<lambda>key msg sig. sig = msg @ key), cx_sign = (\<lambda>key msg. msg @ key),
     cx_x25519_public = (\<lambda>key. replicate 32 CHR ''p''), cx_x25519 = (\<lambda>key pub. Some []),
     cx_sha256 = demo_sha, cx_hkdf = (\<lambda>s salt info. take 32 (info @ replicate 32 CHR ''k'')),
     cx_seal = toy_seal, cx_open = toy_open\<rparr>"

definition toy_frame :: "string \<Rightarrow> unit plain_frame" where
  "toy_frame reason = \<lparr>pf_type = ''event'', pf_request = None, pf_response = None, pf_event = [],
     pf_terminal = [], pf_media = [], pf_workspace_file = [], pf_reason = reason, pf_code = []\<rparr>"

definition toy_marshal :: "unit plain_frame \<Rightarrow> string + string" where
  "toy_marshal f = Inr (pf_reason f)"

definition toy_unmarshal :: "string \<Rightarrow> string + unit plain_frame" where
  "toy_unmarshal s = Inr (toy_frame s)"

definition toy_sender :: cipher where
  "toy_sender = \<lparr>ci_send_key = ''k1'', ci_recv_key = ''k2'', ci_connection = ''ctrl_1'',
     ci_send_direction = controller_to_host, ci_recv_direction = host_to_controller,
     ci_send_seq = 0, ci_recv_seq = 0\<rparr>"

definition toy_receiver :: cipher where
  "toy_receiver = \<lparr>ci_send_key = ''k2'', ci_recv_key = ''k1'', ci_connection = ''ctrl_1'',
     ci_send_direction = host_to_controller, ci_recv_direction = controller_to_host,
     ci_send_seq = 0, ci_recv_seq = 0\<rparr>"

definition toy_nonce :: string where
  "toy_nonce = replicate 12 CHR ''n''"

definition toy_items :: "(unit plain_frame \<times> (string + string)) list" where
  "toy_items = [(toy_frame ''one'', Inr toy_nonce), (toy_frame ''none'', Inl ''EIO''),
     (toy_frame ''two'', Inr toy_nonce)]"

lemma toy_bodies [simp]: "sent_bodies toy_marshal toy_items = [''one'', ''two'']"
  by (simp add: toy_items_def toy_marshal_def toy_frame_def)

lemma toy_send_all:
  "send_all toy_crypto toy_marshal toy_items toy_sender =
     ([\<lparr>sf_type = ''sealed'', sf_seq = 1, sf_nonce = std_encode toy_nonce,
        sf_ciphertext = std_encode (frame_aad ''ctrl_1'' controller_to_host 1 @ ''one'')\<rparr>,
       \<lparr>sf_type = ''sealed'', sf_seq = 2, sf_nonce = std_encode toy_nonce,
        sf_ciphertext = std_encode (frame_aad ''ctrl_1'' controller_to_host 2 @ ''two'')\<rparr>],
      toy_sender\<lparr>ci_send_seq := 2\<rparr>)"
  by (simp add: toy_items_def seal_def seal_inputs_def toy_marshal_def toy_frame_def toy_crypto_def toy_seal_def
      toy_sender_def Let_def)

lemma toy_calls:
  "sealed_calls toy_crypto toy_marshal toy_items toy_sender =
     [(toy_nonce, ''one'', frame_aad ''ctrl_1'' controller_to_host 1),
      (toy_nonce, ''two'', frame_aad ''ctrl_1'' controller_to_host 2)]"
  by (simp add: toy_items_def seal_def seal_inputs_def toy_marshal_def toy_frame_def toy_crypto_def toy_seal_def
      toy_sender_def Let_def)

text \<open>The first frame, the second with another body, the first again, and the second.\<close>

definition hostile_frames :: "sealed_frame list" where
  "hostile_frames = (let sealed = fst (send_all toy_crypto toy_marshal toy_items toy_sender) in
     [sealed ! 0, (sealed ! 1)\<lparr>sf_ciphertext := std_encode ''evil''\<rparr>, sealed ! 0, sealed ! 1])"

lemma toy_opens: "cx_open toy_crypto = toy_open" "toy_open key nonce (aad @ body) aad = Some body"
  by (simp_all add: toy_crypto_def toy_open_def)

lemma toy_evil: "toy_open key nonce ''evil'' (frame_aad connection direction seq) = None"
  by (simp add: toy_open_def frame_aad_def protocol_version_def)

lemma toy_unforged:
  "unforged toy_crypto toy_receiver (sealed_calls toy_crypto toy_marshal toy_items toy_sender) hostile_frames"
  by (simp add: unforged_def frame_unforged_def hostile_frames_def toy_send_all toy_calls Let_def toy_opens
      toy_evil toy_receiver_def)

lemma toy_nonces: "(f, Inr nonce) \<in> set toy_items \<Longrightarrow> length nonce = nonce_size"
  by (auto simp: toy_items_def toy_nonce_def nonce_size_def)

lemma toy_opens_own: "opens_own toy_crypto key"
  by (simp add: opens_own_def toy_crypto_def toy_seal_def toy_open_def)

lemma channel_prefix_witness:
  "\<exists>n. 1 \<le> n \<and> map Inr (fst (open_all toy_crypto toy_unmarshal hostile_frames toy_receiver))
     = map toy_unmarshal (take n [''one'', ''two''])"
proof -
  have bodies: "\<exists>p. toy_unmarshal body = Inr p" for body
    by (simp add: toy_unmarshal_def)
  have first: "take 1 hostile_frames = take 1 (fst (send_all toy_crypto toy_marshal toy_items toy_sender))"
    "1 \<le> length (fst (send_all toy_crypto toy_marshal toy_items toy_sender))"
    by (simp_all add: hostile_frames_def toy_send_all)
  from channel_prefix [OF _ _ _ _ _ toy_opens_own toy_unforged _ toy_nonces bodies] first
  show ?thesis
    by (fastforce simp: toy_receiver_def toy_sender_def)
qed

lemma channel_delivers_witness:
  "map Inr (fst (open_all toy_crypto toy_unmarshal
        (fst (send_all toy_crypto toy_marshal toy_items toy_sender)) toy_receiver))
     = map toy_unmarshal [''one'', ''two'']"
proof -
  have "length nonce = nonce_size" if "(f, Inr nonce) \<in> set toy_items" for f nonce
    using that by (auto simp: toy_items_def toy_nonce_def nonce_size_def)
  from channel_delivers [where cx = toy_crypto and c = toy_sender and r = toy_receiver and
      marshal = toy_marshal and items = toy_items and unmarshal = toy_unmarshal,
      OF toy_opens_own _ _ _ _ _ this]
  show ?thesis
    by (simp add: toy_sender_def toy_receiver_def toy_unmarshal_def)
qed

lemma open_monotone_witness:
  "snd (open_frame toy_crypto toy_unmarshal \<lparr>sf_type = ''sealed'', sf_seq = 7, sf_nonce = [],
      sf_ciphertext = []\<rparr> toy_receiver) = toy_receiver"
proof -
  have run: "open_frame toy_crypto toy_unmarshal \<lparr>sf_type = ''sealed'', sf_seq = 7, sf_nonce = [],
      sf_ciphertext = []\<rparr> toy_receiver
    = (Refused (WireError ''invalid sealed frame sequence''), toy_receiver)"
    by (simp add: open_frame_def toy_receiver_def)
  from open_monotone [OF this] show ?thesis by (simp add: run)
qed

lemma open_panics_on_nonce_witness:
  "open_frame toy_crypto toy_unmarshal \<lparr>sf_type = ''sealed'', sf_seq = 1, sf_nonce = std_encode [],
      sf_ciphertext = std_encode []\<rparr> toy_receiver = (Panicked, toy_receiver)"
  using open_panics_on_nonce [of toy_receiver "[]" toy_crypto toy_unmarshal "[]"]
  by (simp add: toy_receiver_def nonce_size_def)

end
