(* ===== verification/HostCore.thy ===== *)
theory HostCore
  imports ControlWire
begin

text \<open>
  \<open>pkg/hostcore/core.go\<close>, the gate every remote request passes, and what the daemon plugs into
  it (\<open>daemon/host_core_adapter.go\<close>, the checks of \<open>daemon/control_gateway.go\<close>). The adapters
  are functions of a state \<open>'s\<close>; an adapter that is not configured is \<open>None\<close>. The daemon's
  state pairs its trust store with the rest of its world, on which the action handlers work
  (an argument here). \<open>context.Context\<close> is left out: nothing in these functions reads it.
\<close>

section \<open>Errors\<close>

record core_error =
  he_status :: nat
  he_code :: string
  he_message :: string

datatype host_error = CoreError core_error | HandlerError go_error

definition core_error_text :: "core_error \<Rightarrow> string" where
  "core_error_text e = (if \<not> blank (he_message e) then he_message e else he_code e)"

definition new_core_error :: "nat \<Rightarrow> string \<Rightarrow> string \<Rightarrow> host_error" where
  "new_core_error status code0 message0 =
     (let code = trim_space code0;
          code1 = (if code = [] then ''host_service_unavailable'' else code);
          message = trim_space message0;
          message1 = (if message = [] then code1 else message)
      in CoreError \<lparr>he_status = status, he_code = code1, he_message = message1\<rparr>)"

fun error_status_code :: "host_error option \<Rightarrow> nat" where
  "error_status_code (Some (CoreError e)) = (if he_status e > 0 then he_status e else 500)"
| "error_status_code _ = 500"

fun error_code :: "host_error option \<Rightarrow> string" where
  "error_code (Some (CoreError e)) = he_code e"
| "error_code _ = []"

fun error_reason :: "host_error option \<Rightarrow> string" where
  "error_reason (Some (CoreError e)) = he_message e"
| "error_reason (Some (HandlerError e)) = error_message e"
| "error_reason None = []"

section \<open>Sessions and adapters\<close>

record core_grant =
  cg_host :: string
  cg_controller :: string
  cg_public_key :: string
  cg_fingerprint :: string
  cg_capabilities :: "string list"
  cg_exec_policy :: string
  cg_revoked :: bool

record transport =
  tp_kind :: string
  tp_remote_addr :: string

record 'c session =
  ss_connection_id :: string
  ss_controller :: string
  ss_public_key :: string
  ss_fingerprint :: string
  ss_grant :: core_grant
  ss_transport :: transport
  ss_connection :: "'c option"
  ss_opened_at :: int

type_synonym ('s, 'c, 'r) dispatcher =
  "'s \<Rightarrow> 'c session \<Rightarrow> control_request \<Rightarrow> ('r control_response \<times> host_error option) \<times> 's"

record identity_provider =
  ip_identity :: "string + device_identity"
  ip_sign :: "string \<Rightarrow> string + string"

text \<open>The adapters of a core, as functions of the state.\<close>

record ('s, 'c, 'r) adapters =
  ad_identity :: "('s \<Rightarrow> identity_provider) option"
  ad_membership :: "('s \<Rightarrow> string + membership_state) option"
  ad_trust :: "('s \<Rightarrow> string \<Rightarrow> string + core_grant option) option"
  ad_capability :: "(string \<Rightarrow> string) option"
  ad_dispatcher :: "('s, 'c, 'r) dispatcher option"

section \<open>Checks\<close>

definition core_grant_allows :: "core_grant \<Rightarrow> string \<Rightarrow> bool" where
  "core_grant_allows g capability =
     (if blank capability then False
      else list_ex (\<lambda>item. trim_space item = trim_space capability) (cg_capabilities g))"

definition validate_controller_public_key ::
  "(string \<Rightarrow> string) \<Rightarrow> core_grant \<Rightarrow> string \<Rightarrow> host_error + string" where
  "validate_controller_public_key sha256 grant v =
     (case decode_public_key v of
        None \<Rightarrow> Inl (new_core_error 400 ''invalid_identity'' ''invalid device public key'')
      | Some key \<Rightarrow>
          if \<not> blank (cg_public_key grant) \<and> trim_space (cg_public_key grant) \<noteq> trim_space v
            then Inl (new_core_error 403 ''invalid_identity''
                   ''controller public key does not match trusted grant'')
          else if \<not> blank (cg_fingerprint grant)
              \<and> trim_space (cg_fingerprint grant) \<noteq> public_key_fingerprint sha256 key
            then Inl (new_core_error 403 ''invalid_identity''
                   ''controller public key fingerprint does not match trusted grant'')
          else Inr key)"

definition hex_lower :: "string \<Rightarrow> string" where
  "hex_lower s =
     concat (map (\<lambda>c. [''0123456789abcdef'' ! (byte c div 16), ''0123456789abcdef'' ! (byte c mod 16)]) s)"

definition random_connection_id :: "string + string \<Rightarrow> string + string" where
  "random_connection_id bytes =
     (case bytes of Inl e \<Rightarrow> Inl e | Inr b \<Rightarrow> Inr (''ctrl_'' @ take 16 (hex_lower b)))"

section \<open>Accepting a connection\<close>

text \<open>
  The random source of one handshake: the key \<open>GenerateKey\<close> makes, the 32 bytes of the server
  nonce, the 16 bytes of the connection id.
\<close>

record handshake_random =
  hr_ephemeral :: "string + string"
  hr_server_nonce :: "string + string"
  hr_connection :: "string + string"

definition unavailable :: "string \<Rightarrow> host_error" where
  "unavailable msg = new_core_error 503 ''host_service_unavailable'' msg"

definition handshake_failed :: "string \<Rightarrow> host_error" where
  "handshake_failed msg = new_core_error 500 ''handshake_failed'' msg"

text \<open>The first half of \<open>AcceptHello\<close>: who the peer is. The result is the host, the grant, the
  key, the membership.\<close>

definition authenticate_hello ::
  "crypto \<Rightarrow> (string \<Rightarrow> lease_payload option) \<Rightarrow> int \<Rightarrow> ('s, 'c, 'r) adapters \<Rightarrow> 's \<Rightarrow> hello_frame \<Rightarrow>
   host_error + (identity_provider \<times> device_identity \<times> core_grant \<times> string \<times> membership_state)" where
  "authenticate_hello cx unmarshal now ad st hello =
     (case (ad_identity ad, ad_membership ad, ad_trust ad) of
        (Some identity, Some membership, Some trust) \<Rightarrow>
          (case ip_identity (identity st) of
             Inl e \<Rightarrow> Inl (unavailable e)
           | Inr host \<Rightarrow>
               if blank (di_device host) \<or> blank (di_public_key host)
                 then Inl (unavailable ''host identity is missing'')
               else if hf_type hello \<noteq> ''hello'' \<or> hf_version hello \<noteq> protocol_version
                 then Inl (new_core_error 400 ''invalid_hello'' ''invalid control hello'')
               else (case trust st (hf_controller hello) of
                   Inl e \<Rightarrow> Inl (unavailable e)
                 | Inr None \<Rightarrow>
                     Inl (new_core_error 403 ''control_authorization_required'' ''controller is not trusted'')
                 | Inr (Some grant) \<Rightarrow>
                     if cg_revoked grant
                       then Inl (new_core_error 403 ''control_authorization_required''
                              ''controller is not trusted'')
                     else (case validate_controller_public_key (cx_sha256 cx) grant (hf_public_key hello) of
                         Inl e \<Rightarrow> Inl e
                       | Inr key \<Rightarrow>
                           (case membership st of
                              Inl e \<Rightarrow> Inl (new_core_error 409 ''cloud_inactive'' e)
                            | Inr mem \<Rightarrow>
                                (case validate_membership_lease cx unmarshal now (first_lease (hf_lease hello))
                                       (ms_signing_key mem) (ms_account mem) (hf_controller hello)
                                       (public_key_fingerprint (cx_sha256 cx) key)
                                       \<lparr>mr_can_host = False, mr_can_control = True\<rparr> (Some now) of
                                   Some e \<Rightarrow> Inl (new_core_error 403 ''membership_invalid'' e)
                                 | None \<Rightarrow>
                                     (case std_decode (trim_space (hf_signature hello)) of
                                        None \<Rightarrow> Inl (new_core_error 403 ''invalid_signature''
                                                   ''invalid control hello signature'')
                                      | Some sig \<Rightarrow>
                                          if \<not> cx_verify cx key
                                               (controller_signature_payload (di_device host) hello) sig
                                            then Inl (new_core_error 403 ''invalid_signature''
                                                   ''invalid control hello signature'')
                                          else Inr (identity st, host, grant, key, mem)))))))
      | _ \<Rightarrow> Inl (unavailable ''host core adapters are not configured''))"

text \<open>The second half: the host's keys, the cipher and the signed answer.\<close>

definition shared_secret ::
  "crypto \<Rightarrow> handshake_random \<Rightarrow> hello_frame \<Rightarrow> host_error + (string \<times> string)" where
  "shared_secret cx rnd hello =
     (case hr_ephemeral rnd of
        Inl e \<Rightarrow> Inl (handshake_failed ''failed to create host ephemeral key'')
      | Inr eph \<Rightarrow>
          (case std_decode (trim_space (hf_ephemeral_key hello)) of
             None \<Rightarrow> Inl (new_core_error 400 ''invalid_ephemeral_key'' ''invalid controller ephemeral key'')
           | Some bytes \<Rightarrow>
               (case new_x25519_public bytes of
                  Inl e \<Rightarrow> Inl (new_core_error 400 ''invalid_ephemeral_key''
                            ''invalid controller ephemeral key'')
                | Inr peer \<Rightarrow>
                    (case cx_x25519 cx eph peer of
                       None \<Rightarrow> Inl (handshake_failed ''failed to create shared secret'')
                     | Some secret \<Rightarrow> Inr (eph, secret)))))"

definition host_ack ::
  "hello_frame \<Rightarrow> device_identity \<Rightarrow> membership_state \<Rightarrow> string \<Rightarrow> string \<Rightarrow> string \<Rightarrow> hello_ack_frame" where
  "host_ack hello host mem connection host_ephemeral server_nonce =
     \<lparr>af_type = ''hello_ack'', af_version = protocol_version, af_connection = connection,
      af_host = di_device host, af_public_key = di_public_key host,
      af_ephemeral_key = host_ephemeral, af_client_nonce = hf_client_nonce hello,
      af_server_nonce = server_nonce, af_signature = [], af_encryption = ''x25519-aes-256-gcm'',
      af_signature_algorithm = ''ed25519'', af_lease = ms_lease mem\<rparr>"

text \<open>The clock is read twice: \<open>now\<close> for the lease, \<open>opened\<close> for the session.\<close>

definition accept_hello ::
  "crypto \<Rightarrow> (string \<Rightarrow> lease_payload option) \<Rightarrow> int \<Rightarrow> int \<Rightarrow> handshake_random \<Rightarrow> ('s, 'c, 'r) adapters \<Rightarrow> 's \<Rightarrow>
   hello_frame \<Rightarrow> transport \<Rightarrow> host_error + ('c session \<times> hello_ack_frame \<times> cipher)" where
  "accept_hello cx unmarshal now opened rnd ad st hello transport =
     (case authenticate_hello cx unmarshal now ad st hello of
        Inl e \<Rightarrow> Inl e
      | Inr (identity, host, grant, key, mem) \<Rightarrow>
          (case shared_secret cx rnd hello of
             Inl e \<Rightarrow> Inl e
           | Inr (eph, secret) \<Rightarrow>
               (case random_base64 (hr_server_nonce rnd) of
                  Inl e \<Rightarrow> Inl (handshake_failed ''failed to create server nonce'')
                | Inr server_nonce \<Rightarrow>
                    (case random_connection_id (hr_connection rnd) of
                       Inl e \<Rightarrow> Inl (handshake_failed ''failed to create connection id'')
                     | Inr connection \<Rightarrow>
                         (let host_ephemeral = std_encode (cx_x25519_public cx eph) in
                          case new_host_cipher cx secret hello (di_device host) (di_public_key host)
                                 host_ephemeral server_nonce connection of
                            Inl e \<Rightarrow> Inl (handshake_failed ''failed to create control cipher'')
                          | Inr cipher \<Rightarrow>
                              (let ack = host_ack hello host mem connection host_ephemeral server_nonce in
                               case ip_sign identity (host_signature_payload hello ack) of
                                 Inl e \<Rightarrow> Inl (unavailable e)
                               | Inr sig \<Rightarrow>
                                   Inr (\<lparr>ss_connection_id = connection,
                                         ss_controller = hf_controller hello,
                                         ss_public_key = hf_public_key hello,
                                         ss_fingerprint = public_key_fingerprint (cx_sha256 cx) key,
                                         ss_grant = grant, ss_transport = transport,
                                         ss_connection = None, ss_opened_at = opened\<rparr>,
                                        ack\<lparr>af_signature := std_encode sig\<rparr>, cipher)))))))"

section \<open>Dispatching a request\<close>

definition empty_response :: "string \<Rightarrow> 'r control_response" where
  "empty_response rid = \<lparr>cr_id = rid, cr_ok = False, cr_result = None, cr_error = None\<rparr>"

text \<open>
  \<open>Dispatch\<close> up to the call of the dispatcher: the request as it is passed on and the grant, or
  the error.
\<close>

definition dispatch_check ::
  "('s \<Rightarrow> string \<Rightarrow> string + core_grant option) \<Rightarrow> (string \<Rightarrow> string) \<Rightarrow> 's \<Rightarrow> 'c session \<Rightarrow>
   control_request \<Rightarrow> host_error + (control_request \<times> core_grant)" where
  "dispatch_check trust capability st session req0 =
     (let controller = trim_space (ss_controller session) in
      if \<not> blank (cq_controller req0) \<and> cq_controller req0 \<noteq> controller
        then Inl (new_core_error 403 ''controller_device_mismatch''
               ''request controller_device_id does not match control session'')
      else if controller = []
        then Inl (new_core_error 400 ''controller_device_required'' ''controller_device_id required'')
      else (let req = req0\<lparr>cq_controller := controller\<rparr>; required = capability (cq_action req) in
        if required = []
          then Inl (new_core_error 404 ''control_action_unknown'' ''control action not found'')
        else if cq_capability req \<noteq> required
          then Inl (new_core_error 403 ''capability_mismatch'' ''control capability does not match action'')
        else (case trust st controller of
            Inl e \<Rightarrow> Inl (unavailable e)
          | Inr None \<Rightarrow> Inl (new_core_error 403 ''capability_denied''
                          ''controller is not allowed to use capability'')
          | Inr (Some grant) \<Rightarrow>
              if cg_revoked grant \<or> \<not> core_grant_allows grant required
                then Inl (new_core_error 403 ''capability_denied''
                       ''controller is not allowed to use capability'')
              else Inr (req, grant))))"

text \<open>
  The dispatcher looks the controller up again, in a critical section of its own: \<open>other\<close> is what
  the rest of the daemon does between the two lookups.
\<close>

definition core_dispatch ::
  "('s, 'c, 'r) adapters \<Rightarrow> ('s \<Rightarrow> 's) \<Rightarrow> 's \<Rightarrow> 'c session \<Rightarrow> control_request \<Rightarrow>
   ('r control_response \<times> host_error option) \<times> 's" where
  "core_dispatch ad other st session req =
     (case (ad_trust ad, ad_capability ad, ad_dispatcher ad) of
        (Some trust, Some capability, Some dispatcher) \<Rightarrow>
          (case dispatch_check trust capability st session req of
             Inl e \<Rightarrow> ((empty_response (cq_id req), Some e), st)
           | Inr (req1, grant) \<Rightarrow> dispatcher (other st) (session\<lparr>ss_grant := grant\<rparr>) req1)
      | _ \<Rightarrow> ((empty_response (cq_id req),
              Some (unavailable ''host core adapters are not configured'')), st))"

section \<open>The daemon's adapters\<close>

definition to_core_grant :: "trust_grant \<Rightarrow> core_grant" where
  "to_core_grant g =
     \<lparr>cg_host = tg_host g, cg_controller = tg_controller g, cg_public_key = tg_public_key g,
      cg_fingerprint = tg_fingerprint g, cg_capabilities = tg_capabilities g,
      cg_exec_policy = tg_exec_policy g,
      cg_revoked = (tg_revoked_at g \<noteq> [] \<or> tg_status g = status_revoked)\<rparr>"

definition trusted_controller :: "host_store \<Rightarrow> string \<Rightarrow> string + core_grant option" where
  "trusted_controller store controller =
     (case trusted_control_grant store controller of
        None \<Rightarrow> Inr None
      | Some g \<Rightarrow> Inr (Some (to_core_grant g)))"

text \<open>
  The handler of an action (\<open>dispatchControlAction\<close>) gets the request, the connection and the
  grant, and works on the trust store and the rest of the daemon as it finds them.
\<close>

type_synonym ('w, 'c, 'r) action_handler =
  "control_request \<Rightarrow> 'c option \<Rightarrow> trust_grant \<Rightarrow> host_store \<times> 'w \<Rightarrow> (go_error + 'r) \<times> (host_store \<times> 'w)"

definition dispatch_authorized ::
  "('w, 'c, 'r) action_handler \<Rightarrow> control_request \<Rightarrow> 'c option \<Rightarrow> trust_grant \<Rightarrow> host_store \<times> 'w \<Rightarrow>
   ('r control_response \<times> go_error option) \<times> (host_store \<times> 'w)" where
  "dispatch_authorized handler req conn grant st =
     (case handler req conn grant st of
        (Inl e, st1) \<Rightarrow> ((empty_response (cq_id req), Some e), st1)
      | (Inr r, st1) \<Rightarrow> ((\<lparr>cr_id = cq_id req, cr_ok = True, cr_result = Some r, cr_error = None\<rparr>, None), st1))"

definition dispatch_adapter :: "('w, 'c, 'r) action_handler \<Rightarrow> (host_store \<times> 'w, 'c, 'r) dispatcher" where
  "dispatch_adapter handler st session req =
     (case trusted_control_grant (fst st) (cq_controller req) of
        None \<Rightarrow> ((empty_response (cq_id req), Some (HandlerError
                  (ActionError 403 ''capability_denied'' ''controller is not allowed to use capability''))), st)
      | Some grant \<Rightarrow>
          (case dispatch_authorized handler req (ss_connection session) grant st of
             ((resp, e), st1) \<Rightarrow> ((resp, map_option HandlerError e), st1)))"

text \<open>\<open>hostCoreManager\<close>: there is a core only while the host role is enabled.\<close>

definition host_core_manager ::
  "bool \<Rightarrow> (host_store \<times> 'w \<Rightarrow> identity_provider) \<Rightarrow> (host_store \<times> 'w \<Rightarrow> string + membership_state) \<Rightarrow>
   ('w, 'c, 'r) action_handler \<Rightarrow> (host_store \<times> 'w, 'c, 'r) adapters option" where
  "host_core_manager host_role identity membership handler =
     (if \<not> host_role then None
      else Some \<lparr>ad_identity = Some identity, ad_membership = Some membership,
        ad_trust = Some (\<lambda>st. trusted_controller (fst st)), ad_capability = Some required_capability,
        ad_dispatcher = Some (dispatch_adapter handler)\<rparr>)"

text \<open>The close frame a rejected hello is answered with.\<close>

definition hello_close_frame :: "host_error \<Rightarrow> 'r plain_frame" where
  "hello_close_frame err =
     (let (code0, reason0) = (case err of
            CoreError e \<Rightarrow> (he_code e, he_message e)
          | HandlerError (ActionError st code msg) \<Rightarrow> (code, msg)
          | HandlerError (OpaqueError msg) \<Rightarrow>
              (''handshake_failed'', ''remote control handshake rejected''));
          untrusted = (code0 = ''control_authorization_required'')
      in \<lparr>pf_type = ''close'', pf_request = None, pf_response = None, pf_event = [], pf_terminal = [],
          pf_media = [], pf_workspace_file = [],
          pf_reason = (if untrusted then ''controller is not trusted'' else reason0),
          pf_code = (if untrusted then ''capability_denied'' else code0)\<rparr>)"

text \<open>
  The gate of the daemon for requests that do not come through the core (terminal frames and
  local calls).
\<close>

definition execute_control_request ::
  "('w, 'c, 'r) action_handler \<Rightarrow> control_request \<Rightarrow> 'c option \<Rightarrow> host_store \<times> 'w \<Rightarrow>
   ('r control_response \<times> go_error option) \<times> (host_store \<times> 'w)" where
  "execute_control_request handler req conn st =
     (let required = required_capability (cq_action req);
          refuse = (\<lambda>e. ((empty_response (cq_id req), Some e), st)) in
      if required = [] then refuse action_unknown
      else if blank (cq_controller req)
        then refuse (ActionError 400 ''controller_device_required'' ''controller_device_id required'')
      else if cq_capability req \<noteq> required then refuse capability_mismatch
      else (case trusted_control_grant (fst st) (cq_controller req) of
          None \<Rightarrow> refuse (ActionError 403 ''capability_denied''
                    ''controller is not allowed to use capability'')
        | Some grant \<Rightarrow>
            if \<not> trust_grant_allows grant required
              then refuse (ActionError 403 ''capability_denied''
                     ''controller is not allowed to use capability'')
            else dispatch_authorized handler req conn grant st))"


section \<open>The gate over a trust store\<close>

text \<open>What the gate relies on: lookups are by trimmed id and give live grants, revocation is final.\<close>

locale trust_store =
  fixes lookup :: "'s \<Rightarrow> string \<Rightarrow> string + core_grant option"
    and revoke :: "string \<Rightarrow> 's \<Rightarrow> 's"
  assumes lookup_trim: "lookup s (trim_space c) = lookup s c"
    and lookup_live: "lookup s c = Inr (Some g) \<Longrightarrow> \<not> cg_revoked g \<and> cg_controller g = trim_space c"
    and revoke_gone: "\<not> blank c \<Longrightarrow> lookup (revoke c s) c = Inr None"
    and revoke_other: "\<not> blank c \<Longrightarrow> trim_space d \<noteq> trim_space c \<Longrightarrow> lookup (revoke c s) d = lookup s d"
begin

lemma check_okD:
  assumes "dispatch_check lookup capability s session req = Inr (req1, grant)"
  shows "req1 = req\<lparr>cq_controller := trim_space (ss_controller session)\<rparr>"
    "blank (cq_controller req) \<or> cq_controller req = trim_space (ss_controller session)"
    "trim_space (ss_controller session) \<noteq> []"
    "capability (cq_action req) \<noteq> []" "cq_capability req = capability (cq_action req)"
    "lookup s (ss_controller session) = Inr (Some grant)"
    "core_grant_allows grant (capability (cq_action req))"
    "cg_controller grant = trim_space (ss_controller session)"
proof -
  show facts: "req1 = req\<lparr>cq_controller := trim_space (ss_controller session)\<rparr>"
    "blank (cq_controller req) \<or> cq_controller req = trim_space (ss_controller session)"
    "trim_space (ss_controller session) \<noteq> []"
    "capability (cq_action req) \<noteq> []" "cq_capability req = capability (cq_action req)"
    "lookup s (ss_controller session) = Inr (Some grant)"
    "core_grant_allows grant (capability (cq_action req))"
    using assms lookup_trim by (auto simp: dispatch_check_def Let_def split: if_splits sum.splits option.splits)
  show "cg_controller grant = trim_space (ss_controller session)"
    using facts(6) lookup_live by blast
qed

lemma check_revoked:
  assumes "\<not> blank c" "trim_space (ss_controller session) = trim_space c"
  shows "\<exists>e. dispatch_check lookup capability (revoke c s) session req = Inl (CoreError e)"
proof -
  have "lookup (revoke c s) (trim_space (ss_controller session)) = Inr None"
    using revoke_gone [OF assms(1)] assms(2) lookup_trim by metis
  then show ?thesis
    by (simp add: dispatch_check_def Let_def new_core_error_def)
qed

lemma check_others:
  assumes "\<not> blank c" "trim_space (ss_controller session) \<noteq> trim_space c"
  shows "dispatch_check lookup capability (revoke c s) session req
       = dispatch_check lookup capability s session req"
proof -
  have "lookup (revoke c s) (trim_space (ss_controller session)) = lookup s (trim_space (ss_controller session))"
    using revoke_other assms by simp
  then show ?thesis
    by (simp add: dispatch_check_def Let_def)
qed

end

lemma trusted_controller_Some:
  "trusted_controller store c = Inr (Some cg) \<longleftrightarrow>
     (\<exists>g. trusted_control_grant store c = Some g \<and> cg = to_core_grant g)"
  by (auto simp: trusted_controller_def split: option.splits)

lemma to_core_grant_live:
  assumes "trusted_control_grant store c = Some g"
  shows "\<not> cg_revoked (to_core_grant g) \<and> cg_controller (to_core_grant g) = trim_space c"
  using trusted_SomeD [OF assms] by (simp add: to_core_grant_def)

definition revoke_in_store :: "string \<Rightarrow> string option \<Rightarrow> string \<Rightarrow> host_store \<times> 'w \<Rightarrow> host_store \<times> 'w" where
  "revoke_in_store now werr c st = (snd (revoke_trust_grant now werr c (fst st)), snd st)"

interpretation daemon_trust: trust_store "\<lambda>st. trusted_controller (fst st)" "revoke_in_store now werr"
  for now werr
proof (unfold_locales, goal_cases)
  case (1 s c)
  show ?case by (simp add: trusted_controller_def)
next
  case (2 s c g)
  then show ?case using to_core_grant_live by (auto simp: trusted_controller_Some)
next
  case (3 c s)
  then show ?case
    by (simp add: trusted_controller_def revoke_in_store_def trusted_revoke)
next
  case (4 c d s)
  then show ?case
    by (simp add: trusted_controller_def revoke_in_store_def trusted_revoke)
qed


lemma required_capability_declared:
  "required_capability a = [] \<or> required_capability a \<in> set control_capabilities"
  using capabilities_declared
  by (auto simp: required_capability_def find_spec_def list_all_iff split: option.split dest: find_SomeD)

lemma control_capabilities_trimmed: "list_all (\<lambda>c. trim_space c = c \<and> c \<noteq> []) control_capabilities"
  by code_simp

lemma required_capability_trimmed [simp]: "trim_space (required_capability a) = required_capability a"
  using required_capability_declared [of a] control_capabilities_trimmed
  by (auto simp: list_all_iff)

lemma core_grant_allows_iff:
  "core_grant_allows (to_core_grant g) (required_capability a) \<longleftrightarrow>
     required_capability a \<noteq> [] \<and> required_capability a \<in> set (map trim_space (tg_capabilities g))"
  by (auto simp: core_grant_allows_def to_core_grant_def list_ex_iff) (metis image_eqI)

lemma core_dispatch_daemon:
  assumes "host_core_manager True identity membership handler = Some ad"
  shows "core_dispatch ad other st session req =
     (case dispatch_check (\<lambda>st. trusted_controller (fst st)) required_capability st session req of
        Inl e \<Rightarrow> ((empty_response (cq_id req), Some e), st)
      | Inr (req1, grant) \<Rightarrow> dispatch_adapter handler (other st) (session\<lparr>ss_grant := grant\<rparr>) req1)"
  using assms by (auto simp: host_core_manager_def core_dispatch_def)

text \<open>A handler that keeps a record of its calls, beside the world it works on.\<close>

type_synonym 'c handler_call = "control_request \<times> 'c option \<times> trust_grant"

definition recorded ::
  "('w, 'c, 'r) action_handler \<Rightarrow> ('w \<times> 'c handler_call list, 'c, 'r) action_handler" where
  "recorded handler req conn grant st =
     (case handler req conn grant (fst st, fst (snd st)) of
        (r, (store, w)) \<Rightarrow> (r, (store, (w, snd (snd st) @ [(req, conn, grant)]))))"

lemma recorded_call:
  "\<exists>r store w e. dispatch_authorized (recorded handler) req conn g st
     = ((r, e), (store, (w, snd (snd st) @ [(req, conn, g)])))"
  by (auto simp: dispatch_authorized_def recorded_def split: prod.split sum.split)

text \<open>
  C9: Only authorised requests reach a handler. The core and the daemon's adapter look the
  controller up one after the other; in between others may change anything but the record. If
  the handler is called, it is called once, for the session's own controller. At the first
  lookup that controller was trusted, the request named no other controller and carried the
  capability the table demands for its action, and the grant had that capability. At the second
  lookup the controller was still trusted, and it is that grant the handler gets: the same one,
  unless the controller was granted anew in between. If the handler is not called, the answer is
  an error and the state is what the others made it.
\<close>

theorem dispatch_authorized_only:
  fixes handler :: "('w, 'c, 'r) action_handler"
  assumes "host_core_manager True identity membership (recorded handler) = Some ad"
    and "core_dispatch ad other (store, (w, [])) session req = ((resp, err), (store1, (w1, calls)))"
    and "\<And>st. snd (snd (other st)) = snd (snd st)"
  shows "if calls = [] then resp = empty_response (cq_id req) \<and> err \<noteq> None \<and>
       ((store1, w1) = (store, w) \<or> (store1, (w1, [])) = other (store, (w, [])))
     else (\<exists>g0 g. trusted_control_grant store (ss_controller session) = Some g0
       \<and> tg_controller g0 = trim_space (ss_controller session)
       \<and> (blank (cq_controller req) \<or> cq_controller req = tg_controller g0)
       \<and> required_capability (cq_action req) \<noteq> []
       \<and> cq_capability req = required_capability (cq_action req)
       \<and> cq_capability req \<in> set (map trim_space (tg_capabilities g0))
       \<and> trusted_control_grant (fst (other (store, (w, [])))) (ss_controller session) = Some g
       \<and> tg_controller g = tg_controller g0
       \<and> calls = [(req\<lparr>cq_controller := tg_controller g0\<rparr>, ss_connection session, g)])"
proof (cases "dispatch_check (\<lambda>st. trusted_controller (fst st)) required_capability
    (store, (w, [] :: 'c handler_call list)) session req")
  case (Inl e)
  then have "((empty_response (cq_id req), Some e), (store, (w, []))) = ((resp, err), (store1, (w1, calls)))"
    using assms(2) by (simp add: core_dispatch_daemon [OF assms(1)])
  then show ?thesis by auto
next
  case (Inr pair)
  obtain req1 grant where pair: "pair = (req1, grant)" by fastforce
  note ok = daemon_trust.check_okD [OF Inr [unfolded pair]]
  let ?st = "other (store, (w, []))"
  have run: "dispatch_adapter (recorded handler) ?st (session\<lparr>ss_grant := grant\<rparr>) req1
      = ((resp, err), (store1, (w1, calls)))"
    using assms(2) Inr by (simp add: core_dispatch_daemon [OF assms(1)] pair)
  have log: "snd (snd ?st) = []" using assms(3) by simp
  obtain g0 where g0: "trusted_control_grant store (ss_controller session) = Some g0" "grant = to_core_grant g0"
    using ok(6) by (auto simp: trusted_controller_Some)
  have c0: "tg_controller g0 = trim_space (ss_controller session)"
    by (rule trusted_SomeD [OF g0(1)])
  show ?thesis
  proof (cases "trusted_control_grant (fst ?st) (cq_controller req1)")
    case None
    then have "calls = [] \<and> resp = empty_response (cq_id req) \<and> err \<noteq> None \<and> (store1, (w1, [])) = ?st"
      using run log ok(1) by (auto simp: dispatch_adapter_def)
    then show ?thesis by simp
  next
    case (Some g)
    have g: "trusted_control_grant (fst ?st) (ss_controller session) = Some g"
      using Some ok(1) by simp
    have c: "tg_controller g = trim_space (ss_controller session)"
      by (rule trusted_SomeD [OF g])
    obtain r store2 w2 e where "dispatch_authorized (recorded handler) req1 (ss_connection session) g ?st
        = ((r, e), (store2, (w2, [(req1, ss_connection session, g)])))"
      using recorded_call [of handler req1 "ss_connection session" g ?st] log by auto
    then have calls: "calls = [(req1, ss_connection session, g)]"
      using run Some by (simp add: dispatch_adapter_def)
    show ?thesis
      using ok g0 c0 g c calls by (auto simp: core_grant_allows_iff)
  qed
qed

text \<open>
  Revocation closes the gate. Once \<open>revokeTrustGrant\<close> of a controller has run, whatever it
  returned, every request on every session of that controller is refused by the core without
  any effect, and the requests of other controllers are checked as before.
\<close>

theorem revoked_cannot_dispatch:
  assumes "host_core_manager True identity membership handler = Some ad" and "\<not> blank c"
  shows "(trim_space (ss_controller session) = trim_space c \<longrightarrow>
       (\<exists>e. core_dispatch ad other (revoke_in_store now werr c st) session req
         = ((empty_response (cq_id req), Some (CoreError e)), revoke_in_store now werr c st))) \<and>
     (trim_space (ss_controller session) \<noteq> trim_space c \<longrightarrow>
       dispatch_check (\<lambda>st. trusted_controller (fst st)) required_capability
         (revoke_in_store now werr c st) session req
       = dispatch_check (\<lambda>st. trusted_controller (fst st)) required_capability st session req)"
  using daemon_trust.check_revoked [OF assms(2), of session required_capability now werr st req]
    daemon_trust.check_others [OF assms(2), of session required_capability now werr st req]
  by (auto simp: core_dispatch_daemon [OF assms(1)])

text \<open>
  A session outlives a change of its controller's key. After \<open>trustDevice\<close> has replaced the
  grant of a controller, for instance by one for a new public key, the core runs the requests
  of a session of that controller under the new grant whatever key the session was opened
  with: the key is compared in \<open>AcceptHello\<close> only, and nothing closes the session.
\<close>

theorem session_survives_rekey:
  assumes "host_core_manager True identity membership handler = Some ad"
    and "trust_device sha256 now werr treq st = (Inr g, st1)"
    and "trim_space (ss_controller session) = tg_controller g"
    and "blank (cq_controller req)" and "cq_capability req = required_capability (cq_action req)"
    and "required_capability (cq_action req) \<in> set (tg_capabilities g)"
    and "required_capability (cq_action req) \<noteq> []"
  shows "core_dispatch ad id (st1, w) (session\<lparr>ss_public_key := key\<rparr>) req =
     (case dispatch_authorized handler (req\<lparr>cq_controller := tg_controller g\<rparr>)
             (ss_connection session) g (st1, w) of
        ((resp, e), st2) \<Rightarrow> ((resp, map_option HandlerError e), st2))"
proof -
  have g: "granted now treq st g"
    by (rule trust_device_okD [OF assms(2)])
  then have trusted: "trusted_control_grant st1 (tg_controller g) = Some g"
    using trust_device_okD(2) [OF assms(2)] by (auto simp: trusted_store granted_def)
  have nonempty: "tg_controller g \<noteq> []"
    using g by (auto simp: granted_def)
  have "core_grant_allows (to_core_grant g) (required_capability (cq_action req))"
    using assms(6,7) by (force simp: core_grant_allows_iff image_iff)
  moreover have "trusted_controller st1 (tg_controller g) = Inr (Some (to_core_grant g))"
    using trusted by (simp add: trusted_controller_def)
  ultimately have "dispatch_check (\<lambda>st. trusted_controller (fst st)) required_capability (st1, w)
      (session\<lparr>ss_public_key := key\<rparr>) req
    = Inr (req\<lparr>cq_controller := tg_controller g\<rparr>, to_core_grant g)"
    using assms(3,4,5,7) nonempty to_core_grant_live [OF trusted]
    by (simp add: dispatch_check_def Let_def)
  then show ?thesis
    using trusted by (simp add: core_dispatch_daemon [OF assms(1)] dispatch_adapter_def)
qed

section \<open>The handshake\<close>

lemma authenticate_okD:
  assumes "authenticate_hello cx unmarshal now ad st hello = Inr (ip, host, grant, key, mem)"
  obtains identity membership trust sig where
    "ad_identity ad = Some identity" "ad_membership ad = Some membership" "ad_trust ad = Some trust"
    "ip = identity st" "ip_identity ip = Inr host" "membership st = Inr mem"
    "hf_type hello = ''hello''" "hf_version hello = protocol_version"
    "trust st (hf_controller hello) = Inr (Some grant)" "\<not> cg_revoked grant"
    "validate_controller_public_key (cx_sha256 cx) grant (hf_public_key hello) = Inr key"
    "validate_membership_lease cx unmarshal now (first_lease (hf_lease hello)) (ms_signing_key mem)
       (ms_account mem) (hf_controller hello) (public_key_fingerprint (cx_sha256 cx) key)
       \<lparr>mr_can_host = False, mr_can_control = True\<rparr> (Some now) = None"
    "std_decode (trim_space (hf_signature hello)) = Some sig"
    "cx_verify cx key (controller_signature_payload (di_device host) hello) sig"
  using assms that
  by (auto simp: authenticate_hello_def split: option.splits sum.splits if_splits)

lemma validate_key_okD:
  assumes "validate_controller_public_key sha256 grant v = Inr key"
  shows "decode_public_key v = Some key"
    "blank (cg_public_key grant) \<or> trim_space (cg_public_key grant) = trim_space v"
    "blank (cg_fingerprint grant) \<or> trim_space (cg_fingerprint grant) = public_key_fingerprint sha256 key"
  using assms by (auto simp: validate_controller_public_key_def split: option.splits if_splits)


lemma accept_okD:
  assumes "accept_hello cx unmarshal now opened rnd ad st hello tp = Inr (session, ack, hc)"
  obtains ip host grant key mem eph secret nonce connection sig where
    "authenticate_hello cx unmarshal now ad st hello = Inr (ip, host, grant, key, mem)"
    "shared_secret cx rnd hello = Inr (eph, secret)"
    "new_host_cipher cx secret hello (di_device host) (di_public_key host)
       (std_encode (cx_x25519_public cx eph)) nonce connection = Inr hc"
    "ip_sign ip (host_signature_payload hello
       (host_ack hello host mem connection (std_encode (cx_x25519_public cx eph)) nonce)) = Inr sig"
    "session = \<lparr>ss_connection_id = connection, ss_controller = hf_controller hello,
       ss_public_key = hf_public_key hello, ss_fingerprint = public_key_fingerprint (cx_sha256 cx) key,
       ss_grant = grant, ss_transport = tp, ss_connection = None, ss_opened_at = opened\<rparr>"
    "ack = (host_ack hello host mem connection (std_encode (cx_x25519_public cx eph)) nonce)
       \<lparr>af_signature := std_encode sig\<rparr>"
  using assms that by (auto simp: accept_hello_def Let_def split: sum.splits)

lemma shared_secret_okD:
  assumes "shared_secret cx rnd hello = Inr (eph, secret)"
  obtains peer where "hr_ephemeral rnd = Inr eph" "length peer = 32"
    "std_decode (trim_space (hf_ephemeral_key hello)) = Some peer" "cx_x25519 cx eph peer = Some secret"
  using assms that
  by (auto simp: shared_secret_def new_x25519_public_def split: sum.splits option.splits if_splits)

lemma lease_okD:
  assumes "validate_membership_lease cx unmarshal clock lease k account device fp role (Some now) = None"
  obtains p where "verified_lease_payload cx unmarshal lease k = Inr p"
    "trim_space (lp_account p) = trim_space account" "trim_space (lp_device p) = trim_space device"
    "trim_space (lp_fingerprint p) = trim_space fp" "0 < lp_mesh_epoch p"
    "lp_issued_at p \<le> unix (now + 5 * minute)" "unix now < lp_expires_at p"
    "mr_can_host role \<longrightarrow> lp_can_host p" "mr_can_control role \<longrightarrow> lp_can_control p"
  using assms that
  by (auto simp: validate_membership_lease_def check_lease_payload_def split: sum.splits if_splits)

text \<open>
  C10: Whom a host accepts. \<open>AcceptHello\<close> of the daemon succeeds only for a controller that is
  trusted at that moment, under a membership lease signed for this account, device and key that
  has not expired and allows the control role, and with a signature by that key over the hello
  and this host's id; the session carries exactly these. The key is the one of the grant, and has
  its fingerprint, as far as the grant has a key and a fingerprint: \<open>trustDevice\<close> also makes
  grants without them, and for such a grant any key with a lease for the device is accepted.
\<close>

theorem accept_hello_sound:
  assumes "host_core_manager True identity membership handler = Some ad"
    and "accept_hello cx unmarshal now opened rnd ad st hello tp = Inr (session, ack, hc)"
  shows "\<exists>host g key mem p sig. ip_identity (identity st) = Inr host \<and> membership st = Inr mem
     \<and> trusted_control_grant (fst st) (hf_controller hello) = Some g
     \<and> decode_public_key (hf_public_key hello) = Some key
     \<and> (blank (tg_public_key g) \<or> trim_space (tg_public_key g) = trim_space (hf_public_key hello))
     \<and> (blank (tg_fingerprint g) \<or> trim_space (tg_fingerprint g) = ss_fingerprint session)
     \<and> verified_lease_payload cx unmarshal (first_lease (hf_lease hello)) (ms_signing_key mem) = Inr p
     \<and> trim_space (lp_account p) = trim_space (ms_account mem)
     \<and> trim_space (lp_device p) = trim_space (hf_controller hello)
     \<and> trim_space (lp_fingerprint p) = trim_space (ss_fingerprint session)
     \<and> unix now < lp_expires_at p \<and> lp_can_control p
     \<and> std_decode (trim_space (hf_signature hello)) = Some sig
     \<and> cx_verify cx key (controller_signature_payload (di_device host) hello) sig
     \<and> ss_controller session = hf_controller hello \<and> ss_public_key session = hf_public_key hello
     \<and> ss_fingerprint session = public_key_fingerprint (cx_sha256 cx) key
     \<and> ss_grant session = to_core_grant g \<and> ss_connection_id session = ci_connection hc"
proof -
  have ad: "ad_identity ad = Some identity" "ad_membership ad = Some membership"
    "ad_trust ad = Some (\<lambda>st. trusted_controller (fst st))"
    using assms(1) by (auto simp: host_core_manager_def)
  obtain ip host grant key mem eph secret nonce connection sig0 where acc:
    "authenticate_hello cx unmarshal now ad st hello = Inr (ip, host, grant, key, mem)"
    "new_host_cipher cx secret hello (di_device host) (di_public_key host)
       (std_encode (cx_x25519_public cx eph)) nonce connection = Inr hc"
    "session = \<lparr>ss_connection_id = connection, ss_controller = hf_controller hello,
       ss_public_key = hf_public_key hello, ss_fingerprint = public_key_fingerprint (cx_sha256 cx) key,
       ss_grant = grant, ss_transport = tp, ss_connection = None, ss_opened_at = opened\<rparr>"
    by (rule accept_okD [OF assms(2)])
  obtain trust sig where au: "ip_identity (identity st) = Inr host" "membership st = Inr mem"
    "trusted_controller (fst st) (hf_controller hello) = Inr (Some grant)"
    "validate_controller_public_key (cx_sha256 cx) grant (hf_public_key hello) = Inr key"
    "validate_membership_lease cx unmarshal now (first_lease (hf_lease hello)) (ms_signing_key mem)
       (ms_account mem) (hf_controller hello) (public_key_fingerprint (cx_sha256 cx) key)
       \<lparr>mr_can_host = False, mr_can_control = True\<rparr> (Some now) = None"
    "std_decode (trim_space (hf_signature hello)) = Some sig"
    "cx_verify cx key (controller_signature_payload (di_device host) hello) sig"
    by (rule authenticate_okD [OF acc(1)]) (use ad in auto)
  obtain g where g: "trusted_control_grant (fst st) (hf_controller hello) = Some g" "grant = to_core_grant g"
    using au(3) by (auto simp: trusted_controller_Some)
  obtain p where p: "verified_lease_payload cx unmarshal (first_lease (hf_lease hello)) (ms_signing_key mem) = Inr p"
    "trim_space (lp_account p) = trim_space (ms_account mem)"
    "trim_space (lp_device p) = trim_space (hf_controller hello)"
    "trim_space (lp_fingerprint p) = trim_space (public_key_fingerprint (cx_sha256 cx) key)"
    "unix now < lp_expires_at p" "lp_can_control p"
    by (rule lease_okD [OF au(5)]) auto
  have conn: "ci_connection hc = connection"
    using acc(2) by (auto simp: new_host_cipher_def new_cipher_def Let_def split: sum.splits if_splits)
  have key: "blank (tg_public_key g) \<or> trim_space (tg_public_key g) = trim_space (hf_public_key hello)"
    "blank (tg_fingerprint g) \<or> trim_space (tg_fingerprint g) = public_key_fingerprint (cx_sha256 cx) key"
    using validate_key_okD(2,3) [OF au(4)] g(2) by (simp_all add: to_core_grant_def)
  show ?thesis
    using au(1,2,6,7) g p acc(3) conn key validate_key_okD(1) [OF au(4)]
    by (intro exI [of _ host] exI [of _ g] exI [of _ key] exI [of _ mem] exI [of _ p] exI [of _ sig]) simp
qed


lemma host_payload_unsigned [simp]:
  "host_signature_payload hello (ack\<lparr>af_signature := sig\<rparr>) = host_signature_payload hello ack"
  by (simp add: host_signature_payload_def)

lemma new_cipher_okD:
  assumes "new_cipher send_key recv_key connection send_direction recv_direction = Inr c"
  shows "c = \<lparr>ci_send_key = send_key, ci_recv_key = recv_key, ci_connection = connection,
       ci_send_direction = send_direction, ci_recv_direction = recv_direction,
       ci_send_seq = 0, ci_recv_seq = 0\<rparr>"
    "new_cipher recv_key send_key connection recv_direction send_direction = Inr
       \<lparr>ci_send_key = recv_key, ci_recv_key = send_key, ci_connection = connection,
        ci_send_direction = recv_direction, ci_recv_direction = send_direction,
        ci_send_seq = 0, ci_recv_seq = 0\<rparr>"
  using assms by (auto simp: new_cipher_def new_aead_def split: if_splits)

definition peer_cipher :: "cipher \<Rightarrow> cipher" where
  "peer_cipher c = \<lparr>ci_send_key = ci_recv_key c, ci_recv_key = ci_send_key c,
     ci_connection = ci_connection c, ci_send_direction = ci_recv_direction c,
     ci_recv_direction = ci_send_direction c, ci_send_seq = ci_recv_seq c, ci_recv_seq = ci_send_seq c\<rparr>"

lemma host_cipher_peer:
  assumes "new_host_cipher cx secret hello host host_key host_ephemeral nonce connection = Inr hc"
  shows "new_controller_cipher cx secret hello host host_key host_ephemeral nonce connection
       = Inr (peer_cipher hc) \<and> ci_send_seq hc = 0 \<and> ci_recv_seq hc = 0"
  using new_cipher_okD [OF assms [unfolded new_host_cipher_def Let_def]]
  by (simp add: new_controller_cipher_def Let_def peer_cipher_def)

text \<open>
  C11: The handshake agrees. If a host accepts the hello that \<open>NewControllerHello\<close> made for it,
  then the controller accepts the answer, provided the host's lease is valid for it and the
  host signs with its key, and both ends have the same connection id and crossed keys and
  directions, with fresh counters: the controller's cipher is the peer of the host's.
\<close>

theorem handshake_agrees:
  assumes "new_controller_hello cx (Inr eph) nonce (di_device host) controller private_key lease
      = Inr (hello, eph1)"
    and "accept_hello cx unmarshal now opened rnd ad st hello tp = Inr (session, ack, hc)"
    and "ad_identity ad = Some identity" and "ip_identity (identity st) = Inr host"
    and "ad_membership ad = Some membership" and "membership st = Inr mem"
    and "decode_public_key (di_public_key host) = Some hk"
    and "\<And>msg sig. ip_sign (identity st) msg = Inr sig \<Longrightarrow> cx_verify cx hk msg sig"
    and "validate_membership_lease cx unmarshal clock (first_lease (ms_lease mem)) (ms_signing_key cm)
      (ms_account cm) (di_device host) (di_fingerprint host)
      \<lparr>mr_can_host = True, mr_can_control = False\<rparr> (Some clock) = None"
    and "\<And>a b. cx_x25519 cx a (cx_x25519_public cx b) = cx_x25519 cx b (cx_x25519_public cx a)"
    and "\<And>a. length (cx_x25519_public cx a) = 32"
  shows "validate_controller_hello_ack cx unmarshal clock host cm hello ack = None
     \<and> new_controller_cipher_from_ack cx hello ack eph1 = Inr (peer_cipher hc)
     \<and> ci_send_seq hc = 0 \<and> ci_recv_seq hc = 0 \<and> ci_connection hc = ss_connection_id session"
proof -
  have hello: "eph1 = eph" "hf_ephemeral_key hello = std_encode (cx_x25519_public cx eph)"
    using assms(1) by (auto simp: new_controller_hello_def Let_def split: if_splits sum.splits)
  obtain ip host1 grant key mem1 heph secret snonce connection sig where acc:
    "authenticate_hello cx unmarshal now ad st hello = Inr (ip, host1, grant, key, mem1)"
    "shared_secret cx rnd hello = Inr (heph, secret)"
    "new_host_cipher cx secret hello (di_device host1) (di_public_key host1)
       (std_encode (cx_x25519_public cx heph)) snonce connection = Inr hc"
    "ip_sign ip (host_signature_payload hello
       (host_ack hello host1 mem1 connection (std_encode (cx_x25519_public cx heph)) snonce)) = Inr sig"
    "session = \<lparr>ss_connection_id = connection, ss_controller = hf_controller hello,
       ss_public_key = hf_public_key hello, ss_fingerprint = public_key_fingerprint (cx_sha256 cx) key,
       ss_grant = grant, ss_transport = tp, ss_connection = None, ss_opened_at = opened\<rparr>"
    "ack = (host_ack hello host1 mem1 connection (std_encode (cx_x25519_public cx heph)) snonce)
       \<lparr>af_signature := std_encode sig\<rparr>"
    by (rule accept_okD [OF assms(2)])
  have same: "ip = identity st" "host1 = host" "mem1 = mem"
    by (rule authenticate_okD [OF acc(1)]; use assms(3-6) in simp)+
  have secret: "cx_x25519 cx eph (cx_x25519_public cx heph) = Some secret"
    unfolding assms(10) [of eph heph] by (rule shared_secret_okD [OF acc(2)]) (use hello in simp)
  note hc = host_cipher_peer [OF acc(3) [unfolded same]]
  have proj: "af_type ack = ''hello_ack''" "af_version ack = protocol_version" "af_host ack = di_device host"
    "af_public_key ack = di_public_key host" "af_client_nonce ack = hf_client_nonce hello"
    "af_lease ack = ms_lease mem" "af_signature ack = std_encode sig"
    by (simp_all add: acc(6) host_ack_def same)
  have "cx_verify cx hk (host_signature_payload hello ack) sig"
    using assms(8) acc(4) by (simp add: acc(6) same)
  moreover have "wire_public_key (di_public_key host) = Inr hk"
    using assms(7) by (auto simp: wire_public_key_def decode_public_key_def split: option.splits if_splits)
  ultimately have "validate_controller_hello_ack cx unmarshal clock host cm hello ack = None"
    using assms(9) by (simp add: validate_controller_hello_ack_def proj)
  moreover have "new_controller_cipher_from_ack cx hello ack eph1 = Inr (peer_cipher hc)"
    using secret hc assms(11)
    by (simp add: new_controller_cipher_from_ack_def new_x25519_public_def acc(6) host_ack_def same hello)
  moreover have "ci_connection hc = ss_connection_id session"
    using acc(3,5) by (auto simp: new_host_cipher_def Let_def dest!: new_cipher_okD(1))
  ultimately show ?thesis using hc by blast
qed


section \<open>A concrete handshake\<close>

text \<open>
  The toy primitives of the channel, the trust store of the earlier examples (the phone, with
  its key and \<open>core.read\<close>), and one lease for both devices.
\<close>

definition demo_bytes :: string where
  "demo_bytes = replicate 32 (CHR 0x00)"

definition demo_lease_payload :: "string \<Rightarrow> lease_payload option" where
  "demo_lease_payload body = Some \<lparr>lp_account = ''acct'', lp_device = body, lp_fingerprint = ''sha256:73'',
     lp_can_host = True, lp_can_control = True, lp_mesh_epoch = 1, lp_issued_at = 0, lp_expires_at = 100\<rparr>"

definition demo_lease :: "string \<Rightarrow> membership_lease" where
  "demo_lease device = \<lparr>ml_version = lease_version, ml_algorithm = lease_algorithm, ml_key_id = ''k'',
     ml_payload = raw_url_encode device,
     ml_signature = raw_url_encode (raw_url_encode device @ demo_bytes)\<rparr>"

definition demo_membership :: membership_state where
  "demo_membership = \<lparr>ms_account = ''acct'', ms_signing_key = demo_key, ms_lease = Some (demo_lease ''host'')\<rparr>"

definition demo_host_identity :: device_identity where
  "demo_host_identity = \<lparr>di_device = ''host'', di_name = ''Host'', di_public_key = demo_key,
     di_fingerprint = ''sha256:73''\<rparr>"

definition demo_controller :: device_identity where
  "demo_controller = \<lparr>di_device = ''phone'', di_name = ''Phone'', di_public_key = demo_key,
     di_fingerprint = ''sha256:73''\<rparr>"

definition demo_store :: "host_store \<times> nat" where
  "demo_store = (demo_host\<lparr>hs_grants := [(''phone'', demo_grant)]\<rparr>, 0)"

definition demo_provider :: "host_store \<times> nat \<Rightarrow> identity_provider" where
  "demo_provider st = \<lparr>ip_identity = Inr demo_host_identity, ip_sign = (\<lambda>msg. Inr (msg @ demo_bytes))\<rparr>"

definition demo_handler :: "(nat, unit, string) action_handler" where
  "demo_handler req conn grant st = (Inr (cq_action req), (fst st, Suc (snd st)))"

definition demo_adapters :: "(host_store \<times> nat, unit, string) adapters" where
  "demo_adapters = \<lparr>ad_identity = Some demo_provider, ad_membership = Some (\<lambda>st. Inr demo_membership),
     ad_trust = Some (\<lambda>st. trusted_controller (fst st)), ad_capability = Some required_capability,
     ad_dispatcher = Some (dispatch_adapter demo_handler)\<rparr>"

lemma demo_adapters_daemon:
  "host_core_manager True demo_provider (\<lambda>st. Inr demo_membership) demo_handler = Some demo_adapters"
  by (simp add: host_core_manager_def demo_adapters_def)

definition demo_random :: handshake_random where
  "demo_random = \<lparr>hr_ephemeral = Inr ''h'', hr_server_nonce = Inr ''n'', hr_connection = Inr (replicate 16 CHR ''c'')\<rparr>"

definition demo_hello :: hello_frame where
  "demo_hello =
     (let hello = \<lparr>hf_type = ''hello'', hf_version = protocol_version, hf_controller = ''phone'',
        hf_public_key = demo_key, hf_ephemeral_key = std_encode (replicate 32 CHR ''p''),
        hf_client_nonce = std_encode ''c'', hf_signature = [], hf_lease = Some (demo_lease ''phone'')\<rparr>
      in hello\<lparr>hf_signature := std_encode (controller_signature_payload ''host'' hello @ demo_bytes)\<rparr>)"

lemma demo_core_trims [simp]: "trim_space ''host'' = ''host''" "trim_space ''phone'' = ''phone''"
  "trim_space ''acct'' = ''acct''" "trim_space ''sha256:73'' = ''sha256:73''"
  "trim_space lease_version = lease_version" "trim_space lease_algorithm = lease_algorithm"
  "trim_space controller_to_host = controller_to_host" "trim_space host_to_controller = host_to_controller"
  by code_simp+

lemma demo_key_bytes [simp]: "decode_public_key demo_key = Some demo_bytes" "trim_space demo_key = demo_key"
  "demo_key \<noteq> []" "length demo_bytes = 32"
  by (simp_all add: demo_key_facts demo_bytes_def)

lemma raw_url_encode_trimmed [simp]: "trim_space (raw_url_encode s) = raw_url_encode s"
  by (simp add: trim_space_plain plain_ascii_def raw_url_encode_ascii)

lemma demo_hello_made:
  "new_controller_hello toy_crypto (Inr ''e'') (Inr ''c'') (di_device demo_host_identity) demo_controller
     demo_bytes (Some (demo_lease ''phone'')) = Inr (demo_hello, ''e'')"
  by (simp add: new_controller_hello_def demo_host_identity_def demo_controller_def demo_hello_def Let_def
      random_base64_def toy_crypto_def)

lemma demo_lease_valid:
  assumes "trim_space device = device" "device \<noteq> []" "fp = ''sha256:73''"
  shows "validate_membership_lease toy_crypto demo_lease_payload clock (demo_lease device) demo_key ''acct''
     device fp role (Some (50 * second)) = None"
  using assms
  by (simp add: validate_membership_lease_def verified_lease_payload_def demo_lease_def toy_crypto_def
      demo_lease_payload_def check_lease_payload_def Let_def unix_def second_def minute_def)


lemma demo_hello_proj [simp]:
  "hf_type demo_hello = ''hello''" "hf_version demo_hello = protocol_version"
  "hf_controller demo_hello = ''phone''" "hf_public_key demo_hello = demo_key"
  "hf_ephemeral_key demo_hello = std_encode (replicate 32 CHR ''p'')"
  "hf_lease demo_hello = Some (demo_lease ''phone'')"
  "hf_signature demo_hello = std_encode (controller_signature_payload ''host'' demo_hello @ demo_bytes)"
  by (simp_all add: demo_hello_def Let_def controller_signature_payload_def)

lemma demo_trusted_now [simp]: "trusted_control_grant (fst demo_store) ''phone'' = Some demo_grant"
  by (simp add: trusted_control_grant_def demo_store_def demo_host_def demo_grant_def Let_def
      status_trusted_def)

lemma demo_authenticated:
  "authenticate_hello toy_crypto demo_lease_payload (50 * second) demo_adapters demo_store demo_hello
     = Inr (demo_provider demo_store, demo_host_identity, to_core_grant demo_grant, demo_bytes, demo_membership)"
proof -
  have fp: "public_key_fingerprint (cx_sha256 toy_crypto) demo_bytes = ''sha256:73''"
    by (simp add: public_key_fingerprint_def toy_crypto_def demo_sha_def hex_upper_def hex_digit_def)
  have key: "validate_controller_public_key (cx_sha256 toy_crypto) (to_core_grant demo_grant) demo_key
      = Inr demo_bytes"
    using fp by (simp add: validate_controller_public_key_def to_core_grant_def demo_grant_def)
  have lease: "validate_membership_lease toy_crypto demo_lease_payload (50 * second) (demo_lease ''phone'')
      demo_key ''acct'' ''phone'' (public_key_fingerprint (cx_sha256 toy_crypto) demo_bytes)
      \<lparr>mr_can_host = False, mr_can_control = True\<rparr> (Some (50 * second)) = None"
    by (rule demo_lease_valid) (simp_all add: fp)
  have verify: "cx_verify toy_crypto demo_bytes m (m @ demo_bytes)" for m
    by (simp add: toy_crypto_def)
  have live: "\<not> cg_revoked (to_core_grant demo_grant)"
    by (simp add: to_core_grant_def demo_grant_def status_revoked_def)
  have trust: "trusted_controller (fst demo_store) ''phone'' = Inr (Some (to_core_grant demo_grant))"
    by (simp add: trusted_controller_def)
  show ?thesis
    by (simp add: authenticate_hello_def demo_adapters_def demo_provider_def trust live key verify
        demo_membership_def first_lease_def lease)
      (simp add: demo_host_identity_def verify)
qed

lemma demo_accepted:
  "\<exists>session ack hc. accept_hello toy_crypto demo_lease_payload (50 * second) 51 demo_random demo_adapters
     demo_store demo_hello \<lparr>tp_kind = ''direct'', tp_remote_addr = []\<rparr> = Inr (session, ack, hc)"
proof -
  have secret: "shared_secret toy_crypto demo_random demo_hello = Inr (''h'', [])"
    by (simp add: shared_secret_def demo_random_def new_x25519_public_def) (simp add: toy_crypto_def)
  let ?conn = "''ctrl_'' @ take 16 (hex_lower (replicate 16 CHR ''c''))"
  have rnd: "random_connection_id (hr_connection demo_random) = Inr ?conn"
    "hr_server_nonce demo_random = Inr ''n''"
    by (simp_all add: random_connection_id_def demo_random_def)
  have nonblank: "trim_space (''ctrl_'' @ take 16 (hex_lower (replicate 16 CHR ''c''))) \<noteq> []"
    by code_simp
  have len: "length (cx_hkdf toy_crypto s salt info) = 32" for s salt info
    by (simp add: toy_crypto_def)
  have dirs: "host_to_controller \<noteq> []" "controller_to_host \<noteq> []"
    by (simp_all add: host_to_controller_def controller_to_host_def)
  have "\<exists>hc. new_host_cipher toy_crypto [] demo_hello h hk heph nonce
      (''ctrl_'' @ take 16 (hex_lower (replicate 16 CHR ''c''))) = Inr hc" for h hk heph nonce
    using nonblank dirs
    by (simp add: new_host_cipher_def Let_def new_cipher_def new_aead_def derive_session_keys_def
        derive_direction_key_def len)
  then obtain hc where hc: "new_host_cipher toy_crypto [] demo_hello (di_device demo_host_identity)
      (di_public_key demo_host_identity) (std_encode (cx_x25519_public toy_crypto ''h'')) (std_encode ''n'') ?conn = Inr hc"
    by blast
  have sign: "ip_sign (demo_provider demo_store) msg = Inr (msg @ demo_bytes)" for msg
    by (simp add: demo_provider_def)
  show ?thesis
    using hc by (simp only: accept_hello_def demo_authenticated secret rnd random_base64_def Let_def
        sum.case prod.case sign) blast
qed

lemma accept_hello_sound_witness:
  "\<exists>session :: unit session. ss_controller session = ''phone'' \<and> ss_grant session = to_core_grant demo_grant"
proof -
  obtain session ack hc where "accept_hello toy_crypto demo_lease_payload (50 * second) 51 demo_random
      demo_adapters demo_store demo_hello \<lparr>tp_kind = ''direct'', tp_remote_addr = []\<rparr>
      = Inr (session :: unit session, ack, hc)"
    using demo_accepted by blast
  from accept_hello_sound [OF demo_adapters_daemon this] show ?thesis
    by (intro exI [of _ "session"]) auto
qed

lemma handshake_agrees_witness:
  "\<exists>ack hc. new_controller_cipher_from_ack toy_crypto demo_hello ack ''e'' = Inr (peer_cipher hc)
     \<and> ci_send_seq hc = 0"
proof -
  obtain session ack hc where acc: "accept_hello toy_crypto demo_lease_payload (50 * second) 51 demo_random
      demo_adapters demo_store demo_hello \<lparr>tp_kind = ''direct'', tp_remote_addr = []\<rparr>
      = Inr (session :: unit session, ack, hc)"
    using demo_accepted by blast
  have id: "ad_identity demo_adapters = Some demo_provider" "ip_identity (demo_provider demo_store) = Inr demo_host_identity"
    "ad_membership demo_adapters = Some (\<lambda>st. Inr demo_membership)"
    by (simp_all add: demo_adapters_def demo_provider_def)
  have key: "decode_public_key (di_public_key demo_host_identity) = Some demo_bytes"
    by (simp add: demo_host_identity_def)
  have sig: "ip_sign (demo_provider demo_store) msg = Inr sig \<Longrightarrow> cx_verify toy_crypto demo_bytes msg sig"
    for msg sig
    by (auto simp: demo_provider_def toy_crypto_def)
  have lease: "validate_membership_lease toy_crypto demo_lease_payload (50 * second)
      (first_lease (ms_lease demo_membership)) (ms_signing_key demo_membership) (ms_account demo_membership)
      (di_device demo_host_identity) (di_fingerprint demo_host_identity)
      \<lparr>mr_can_host = True, mr_can_control = False\<rparr> (Some (50 * second)) = None"
    by (simp add: demo_membership_def first_lease_def demo_host_identity_def demo_lease_valid)
  have dh: "cx_x25519 toy_crypto a (cx_x25519_public toy_crypto b) = cx_x25519 toy_crypto b (cx_x25519_public toy_crypto a)"
    "length (cx_x25519_public toy_crypto a) = 32" for a b
    by (simp_all add: toy_crypto_def)
  show ?thesis
    using handshake_agrees [OF demo_hello_made acc id _ key sig lease dh] by blast
qed

definition demo_session :: "unit session" where
  "demo_session = \<lparr>ss_connection_id = ''ctrl_1'', ss_controller = ''phone'', ss_public_key = ''old key'',
     ss_fingerprint = ''sha256:73'', ss_grant = to_core_grant demo_grant,
     ss_transport = \<lparr>tp_kind = ''relay'', tp_remote_addr = []\<rparr>, ss_connection = None, ss_opened_at = 0\<rparr>"

definition demo_ping :: control_request where
  "demo_ping = \<lparr>cq_id = ''r1'', cq_controller = [], cq_capability = ''core.read'',
     cq_action = ''core.read.ping'', cq_params = []\<rparr>"

lemma ping_capability [simp]: "required_capability ''core.read.ping'' = ''core.read''"
  by code_simp

lemma demo_grant_fields [simp]: "tg_controller demo_grant = ''phone''"
  "tg_capabilities demo_grant = [''core.read'']"
  by (simp_all add: demo_grant_def)

definition demo_rekeyed :: host_store where
  "demo_rekeyed = demo_host\<lparr>hs_grants := [(''phone'', demo_grant)], hs_grants_file := Some [demo_grant]\<rparr>"

definition demo_pong :: "string control_response" where
  "demo_pong = \<lparr>cr_id = ''r1'', cr_ok = True, cr_result = Some ''core.read.ping'', cr_error = None\<rparr>"

lemma demo_ping_handled:
  "dispatch_authorized demo_handler (demo_ping\<lparr>cq_controller := ''phone''\<rparr>) conn g st
     = ((demo_pong, None), (fst st, Suc (snd st)))"
  by (simp add: dispatch_authorized_def demo_handler_def demo_ping_def demo_pong_def)

lemma session_survives_rekey_witness:
  "core_dispatch demo_adapters id (demo_rekeyed, 0) (demo_session\<lparr>ss_public_key := ''another key''\<rparr>) demo_ping
     = ((demo_pong, None), (demo_rekeyed, 1))"
proof -
  have "core_dispatch demo_adapters id (demo_rekeyed, 0) (demo_session\<lparr>ss_public_key := ''another key''\<rparr>) demo_ping
    = (case dispatch_authorized demo_handler (demo_ping\<lparr>cq_controller := tg_controller demo_grant\<rparr>)
        (ss_connection demo_session) demo_grant (demo_rekeyed, 0) of
        ((resp, e), st2) \<Rightarrow> ((resp, map_option HandlerError e), st2))"
    by (rule session_survives_rekey [OF demo_adapters_daemon demo_trusted [folded demo_rekeyed_def]])
      (simp_all add: demo_session_def demo_ping_def)
  then show ?thesis
    by (simp add: demo_ping_handled)
qed

text \<open>The demo host with a recording handler; in between, a grant for another capability replaces the phone's.\<close>

definition recording_adapters :: "(host_store \<times> nat \<times> unit handler_call list, unit, string) adapters" where
  "recording_adapters = \<lparr>ad_identity = Some (\<lambda>st. demo_provider demo_store), ad_membership = Some (\<lambda>st. Inr demo_membership),
     ad_trust = Some (\<lambda>st. trusted_controller (fst st)), ad_capability = Some required_capability,
     ad_dispatcher = Some (dispatch_adapter (recorded demo_handler))\<rparr>"

lemma recording_adapters_daemon:
  "host_core_manager True (\<lambda>st. demo_provider demo_store) (\<lambda>st. Inr demo_membership) (recorded demo_handler)
     = Some recording_adapters"
  by (simp add: host_core_manager_def recording_adapters_def)

definition narrow_grant :: trust_grant where
  "narrow_grant = demo_grant\<lparr>tg_capabilities := [''media.read'']\<rparr>"

definition regranted :: "host_store \<times> 'w \<Rightarrow> host_store \<times> 'w" where
  "regranted st = ((fst st)\<lparr>hs_grants := [(''phone'', narrow_grant)]\<rparr>, snd st)"

lemma demo_narrowed: "trusted_control_grant (fst (regranted (fst demo_store, w))) ''phone'' = Some narrow_grant"
  by (simp add: trusted_control_grant_def regranted_def narrow_grant_def demo_store_def demo_host_def demo_grant_def
      Let_def status_trusted_def)

lemma demo_ping_checked:
  "dispatch_check (\<lambda>st. trusted_controller (fst st)) required_capability (fst demo_store, w) demo_session demo_ping
     = Inr (demo_ping\<lparr>cq_controller := ''phone''\<rparr>, to_core_grant demo_grant)"
  using to_core_grant_live [OF demo_trusted_now] core_grant_allows_iff [of demo_grant "''core.read.ping''"]
    required_capability_trimmed [of "''core.read.ping''"]
  by (simp add: dispatch_check_def demo_session_def demo_ping_def trusted_controller_def)

text \<open>
  The handler runs under a grant that lacks the capability of the action, if the controller is
  granted anew between the two lookups.
\<close>

lemma regrant_between_lookups:
  "core_dispatch recording_adapters regranted (fst demo_store, (0, [])) demo_session demo_ping
     = ((demo_pong, None), (fst (regranted demo_store), (1, [(demo_ping\<lparr>cq_controller := ''phone''\<rparr>, None, narrow_grant)])))"
  using demo_narrowed
  by (simp add: core_dispatch_daemon [OF recording_adapters_daemon] demo_ping_checked dispatch_adapter_def)
    (simp add: dispatch_authorized_def recorded_def demo_handler_def regranted_def demo_session_def demo_pong_def demo_ping_def)

lemma dispatch_authorized_only_witness:
  "\<exists>g. trusted_control_grant (fst demo_store) ''phone'' = Some g
     \<and> ''core.read'' \<in> set (map trim_space (tg_capabilities g))"
  using dispatch_authorized_only [OF recording_adapters_daemon regrant_between_lookups]
  by (simp add: regranted_def demo_session_def demo_ping_def)

lemma revoked_cannot_dispatch_witness:
  "\<exists>e. fst (core_dispatch demo_adapters id (revoke_in_store ''t2'' None ''phone'' demo_store) demo_session demo_ping)
     = (empty_response ''r1'', Some (CoreError e))"
proof -
  have "\<not> blank ''phone''" by simp
  from revoked_cannot_dispatch [OF demo_adapters_daemon this, of demo_session id "''t2''" None demo_store demo_ping]
  show ?thesis by (auto simp: demo_session_def demo_ping_def)
qed

end
