(* ===== verification/EventLog.thy ===== *)
theory EventLog
  imports Prelude
begin

text \<open>
  Publishing and streaming events: \<open>daemon/internal/eventlog/service.go\<close>,
  \<open>daemon/event_hub.go\<close>, \<open>daemon/event_subscription.go\<close> and \<open>appendEvent\<close> of
  \<open>daemon/store.go\<close>. Publishers and subscribers are goroutines: a step of the transition
  system below is what one of them does while it holds a lock or a channel operation. In
  between, a publisher holds an event that is saved but not yet broadcast. The session table
  that \<open>appendEvent\<close> also maintains and the projections are a state \<open>'p\<close> with update functions
  given as arguments; the clock, write outcomes and random ids are arguments.
\<close>

section \<open>Events\<close>

text \<open>JSON-like values, as the code builds and decodes them; numbers are integers.\<close>

datatype go_any =
    AnyNil
  | AnyString string
  | AnyBool bool
  | AnyNumber int
  | AnyList "go_any list"
  | AnyMap "(string \<times> go_any) list"

record event =
  ev_seq :: int
  ev_ts :: string
  ev_workspace :: string
  ev_session :: string
  ev_agent :: string
  ev_kind :: string
  ev_normalized :: "(string \<times> go_any) list"
  ev_raw :: go_any

section \<open>The store\<close>

record 'p event_store =
  es_next_seq :: int
  es_events :: "event list"
  es_sessions :: 'p

definition is_overlay_kind :: "string \<Rightarrow> bool" where
  "is_overlay_kind kind \<longleftrightarrow> kind = ''turn.replaced''"

definition is_control_state_kind :: "string \<Rightarrow> bool" where
  "is_control_state_kind kind \<longleftrightarrow>
     has_prefix kind ''queue.'' \<or> has_prefix kind ''approval.'' \<or> has_prefix kind ''ask.'' \<or>
     has_prefix kind ''control.terminal.'' \<or> kind = ''workspace.connection''"

text \<open>
  \<open>touch\<close> is the bookkeeping of the session table and its files; \<open>overlay_err\<close> and
  \<open>state_err\<close> are the outcomes of the two writes.
\<close>

definition append_event ::
  "(event \<Rightarrow> 'p \<Rightarrow> 'p) \<Rightarrow> string \<Rightarrow> string option \<Rightarrow> string option \<Rightarrow> event \<Rightarrow> 'p event_store \<Rightarrow>
   (event \<times> string option) \<times> 'p event_store" where
  "append_event touch now overlay_err state_err ev st =
     (let seq = es_next_seq st + 1;
          ev1 = ev\<lparr>ev_seq := seq, ev_ts := now\<rparr>;
          st1 = st\<lparr>es_next_seq := seq, es_events := es_events st @ [ev1],
                   es_sessions := touch ev1 (es_sessions st)\<rparr>
      in if is_overlay_kind (ev_kind ev) \<and> overlay_err \<noteq> None then ((ev1, overlay_err), st1)
         else if is_control_state_kind (ev_kind ev) \<and> state_err \<noteq> None then ((ev1, state_err), st1)
         else ((ev1, None), st1))"

definition filter_events ::
  "event list \<Rightarrow> string \<Rightarrow> string \<Rightarrow> int \<Rightarrow> int \<Rightarrow> event list" where
  "filter_events events workspace session after_seq before_seq =
     filter (\<lambda>ev. \<not> (after_seq > 0 \<and> ev_seq ev \<le> after_seq) \<and>
       \<not> (before_seq > 0 \<and> ev_seq ev \<ge> before_seq) \<and>
       \<not> (workspace \<noteq> [] \<and> ev_workspace ev \<noteq> workspace) \<and>
       \<not> (session \<noteq> [] \<and> ev_session ev \<noteq> session)) events"

section \<open>The hub\<close>

text \<open>
  A client of the hub is a channel; \<open>eh_clients\<close> is the registered set (\<open>sseClients\<close>), in the
  order of one iteration. A websocket is what was written to it.
\<close>

record sse_channel =
  ch_buffer :: "event list"
  ch_closed :: bool

record event_hub =
  eh_sockets :: "(nat \<times> event list) list"
  eh_clients :: "nat list"
  eh_channels :: "nat \<Rightarrow> sse_channel option"

definition sse_buffer :: nat where
  "sse_buffer = 256"

definition new_event_hub :: event_hub where
  "new_event_hub = \<lparr>eh_sockets = [], eh_clients = [], eh_channels = Map.empty\<rparr>"

definition hub_add :: "nat \<Rightarrow> event_hub \<Rightarrow> event_hub" where
  "hub_add c h = h\<lparr>eh_sockets := (c, []) # filter (\<lambda>s. fst s \<noteq> c) (eh_sockets h)\<rparr>"

definition hub_remove :: "nat \<Rightarrow> event_hub \<Rightarrow> event_hub" where
  "hub_remove c h = h\<lparr>eh_sockets := filter (\<lambda>s. fst s \<noteq> c) (eh_sockets h)\<rparr>"

text \<open>\<open>c\<close> is the fresh client that \<open>addSSE\<close> allocates.\<close>

definition add_sse :: "nat \<Rightarrow> event_hub \<Rightarrow> event_hub" where
  "add_sse c h = h\<lparr>eh_clients := c # eh_clients h,
     eh_channels := (eh_channels h)(c \<mapsto> \<lparr>ch_buffer = [], ch_closed = False\<rparr>)\<rparr>"

definition close_channel :: "nat \<Rightarrow> event_hub \<Rightarrow> event_hub" where
  "close_channel c h = h\<lparr>eh_clients := removeAll c (eh_clients h),
     eh_channels := (eh_channels h)(c := map_option (\<lambda>ch. ch\<lparr>ch_closed := True\<rparr>) (eh_channels h c))\<rparr>"

definition remove_sse :: "nat \<Rightarrow> event_hub \<Rightarrow> event_hub" where
  "remove_sse c h = (if c \<in> set (eh_clients h) then close_channel c h else h)"

text \<open>The \<open>select\<close> of \<open>broadcast\<close>: a full buffer costs the client its registration.\<close>

definition offer :: "event \<Rightarrow> nat \<Rightarrow> event_hub \<Rightarrow> event_hub" where
  "offer ev c h =
     (case eh_channels h c of
        None \<Rightarrow> h
      | Some ch \<Rightarrow>
          if length (ch_buffer ch) < sse_buffer
            then h\<lparr>eh_channels := (eh_channels h)(c \<mapsto> ch\<lparr>ch_buffer := ch_buffer ch @ [ev]\<rparr>)\<rparr>
          else close_channel c h)"

text \<open>\<open>ok c\<close> tells whether the write to websocket \<open>c\<close> succeeds.\<close>

definition broadcast :: "(nat \<Rightarrow> bool) \<Rightarrow> event \<Rightarrow> event_hub \<Rightarrow> event_hub" where
  "broadcast ok ev h =
     fold (offer ev) (eh_clients h)
       (h\<lparr>eh_sockets := map (\<lambda>(c, sent). (c, sent @ [ev])) (filter (\<lambda>(c, sent). ok c) (eh_sockets h))\<rparr>)"

section \<open>Publishing\<close>

text \<open>\<open>apply\<close> feeds the projections, which share the state \<open>'p\<close> here; diagnostics only log.\<close>

definition publish_saved ::
  "(event \<Rightarrow> 'p \<Rightarrow> 'p) \<Rightarrow> (nat \<Rightarrow> bool) \<Rightarrow> event \<Rightarrow> 'p event_store \<times> event_hub \<Rightarrow> 'p event_store \<times> event_hub" where
  "publish_saved project ok ev w =
     ((fst w)\<lparr>es_sessions := project ev (es_sessions (fst w))\<rparr>, broadcast ok ev (snd w))"

text \<open>
  \<open>Publish\<close> when nothing runs in between: \<open>notify\<close> is the notification policy, which sees the
  saved event and the store.
\<close>

record 'p publisher =
  pb_touch :: "event \<Rightarrow> 'p \<Rightarrow> 'p"
  pb_project :: "event \<Rightarrow> 'p \<Rightarrow> 'p"
  pb_notify :: "event \<Rightarrow> 'p event_store \<Rightarrow> event option"

definition publish ::
  "'p publisher \<Rightarrow> string \<Rightarrow> string option \<times> string option \<Rightarrow> string option \<times> string option \<Rightarrow>
   (nat \<Rightarrow> bool) \<Rightarrow> event \<Rightarrow> 'p event_store \<times> event_hub \<Rightarrow>
   (event option \<times> string option) \<times> ('p event_store \<times> event_hub)" where
  "publish p now errs1 errs2 ok ev w =
     (case append_event (pb_touch p) now (fst errs1) (snd errs1) ev (fst w) of
        ((saved, Some e), st1) \<Rightarrow> ((None, Some e), (st1, snd w))
      | ((saved, None), st1) \<Rightarrow>
          (let w1 = publish_saved (pb_project p) ok saved (st1, snd w) in
           case pb_notify p saved (fst w1) of
             None \<Rightarrow> ((Some saved, None), w1)
           | Some note \<Rightarrow>
               (case append_event (pb_touch p) now (fst errs2) (snd errs2) note (fst w1) of
                  ((savedn, Some e), st2) \<Rightarrow> ((Some saved, Some e), (st2, snd w1))
                | ((savedn, None), st2) \<Rightarrow>
                    ((Some saved, None), publish_saved (pb_project p) ok savedn (st2, snd w1)))))"

section \<open>Subscriptions\<close>

record subscription_params =
  sp_workspace :: string
  sp_session :: string
  sp_after :: int
  sp_replay_limit :: int

record subscription_result =
  sr_stream :: string
  sr_workspace :: string
  sr_session :: string
  sr_after :: int
  sr_replay_limit :: int

definition max_replay_limit :: int where
  "max_replay_limit = 500"

text \<open>\<open>has_workspace\<close> and \<open>workspace_of\<close> are the lookups in the store; \<open>rid\<close> is the random id.\<close>

definition prepare_subscription ::
  "(string \<Rightarrow> bool) \<Rightarrow> (string \<Rightarrow> string option) \<Rightarrow> string \<Rightarrow> subscription_params \<Rightarrow>
   go_error + subscription_result" where
  "prepare_subscription has_workspace workspace_of rid params =
     (let ws = trim_space (sp_workspace params); ss = trim_space (sp_session params) in
      if sp_after params < 0
        then Inl (ActionError 400 ''event_after_seq_invalid'' ''after_seq must be non-negative'')
      else if sp_replay_limit params < 0
        then Inl (ActionError 400 ''event_replay_limit_invalid'' ''replay_limit must be non-negative'')
      else if sp_replay_limit params > max_replay_limit
        then Inl (ActionError 400 ''event_replay_limit_too_large'' ''replay_limit is too large'')
      else if ws \<noteq> [] \<and> \<not> has_workspace ws
        then Inl (ActionError 404 ''workspace_not_found'' ''workspace not found'')
      else (let result = Inr \<lparr>sr_stream = ''event_subscription_'' @ rid, sr_workspace = ws, sr_session = ss,
                  sr_after = sp_after params, sr_replay_limit = sp_replay_limit params\<rparr> in
        if ss = [] then result
        else (case workspace_of ss of
            None \<Rightarrow> Inl (ActionError 404 ''session_not_found'' ''session not found'')
          | Some w \<Rightarrow>
              if ws \<noteq> [] \<and> w \<noteq> ws
                then Inl (ActionError 404 ''session_not_found'' ''session not found in workspace'')
              else result)))"

definition subscription_matches :: "subscription_result \<Rightarrow> event \<Rightarrow> bool" where
  "subscription_matches r ev =
     (if sr_workspace r \<noteq> [] \<and> ev_workspace ev \<noteq> sr_workspace r then False
      else if sr_session r \<noteq> [] \<and> ev_session ev \<noteq> sr_session r then False
      else True)"

record stream_frame =
  fr_stream :: string
  fr_request :: string
  fr_seq :: int
  fr_event :: event

definition event_frame :: "(event \<Rightarrow> event) \<Rightarrow> string \<Rightarrow> string \<Rightarrow> event \<Rightarrow> stream_frame" where
  "event_frame sanitize stream request ev =
     \<lparr>fr_stream = stream, fr_request = request, fr_seq = ev_seq ev, fr_event = sanitize ev\<rparr>"

text \<open>
  The goroutine of \<open>streamControlEvents\<close>: it registers a client, replays, then loops. What it
  wrote is kept in two parts, \<open>sb_replayed\<close> and \<open>sb_live\<close>. \<open>sb_since\<close> is a history variable:
  the sequence number last broadcast when the client was registered.
\<close>

datatype phase = Replaying | Streaming | Finished

record subscription =
  sb_result :: subscription_result
  sb_client :: nat
  sb_latest :: int
  sb_replayed :: "event list"
  sb_live :: "event list"
  sb_phase :: phase
  sb_since :: int

fun latest_of :: "int \<Rightarrow> event list \<Rightarrow> int" where
  "latest_of latest [] = latest"
| "latest_of latest (ev # evs) = latest_of (if ev_seq ev > latest then ev_seq ev else latest) evs"

text \<open>\<open>window\<close> is the answer of \<open>QueryEventsWindow\<close>.\<close>

definition replay :: "event list \<Rightarrow> subscription \<Rightarrow> subscription" where
  "replay window s =
     (if sr_replay_limit (sb_result s) > 0
      then s\<lparr>sb_latest := latest_of (sb_latest s) window, sb_replayed := window, sb_phase := Streaming\<rparr>
      else s\<lparr>sb_phase := Streaming\<rparr>)"

definition receive :: "event \<Rightarrow> subscription \<Rightarrow> subscription" where
  "receive ev s =
     (if ev_seq ev \<le> sb_latest s \<or> \<not> subscription_matches (sb_result s) ev then s
      else s\<lparr>sb_latest := ev_seq ev, sb_live := sb_live s @ [ev]\<rparr>)"

section \<open>Publishers and subscribers together\<close>

record 'p event_world =
  ew_store :: "'p event_store"
  ew_hub :: event_hub
  ew_saved :: "event list"
  ew_failed :: "int list"
  ew_sent :: int
  ew_subs :: "subscription list"

text \<open>
  Two history variables: \<open>ew_failed\<close>, the sequence numbers whose write failed, and \<open>ew_sent\<close>,
  the one last broadcast.
\<close>

definition initial_world :: "'p \<Rightarrow> 'p event_world" where
  "initial_world p = \<lparr>ew_store = \<lparr>es_next_seq = 0, es_events = [], es_sessions = p\<rparr>,
     ew_hub = new_event_hub, ew_saved = [], ew_failed = [], ew_sent = 0, ew_subs = []\<rparr>"

definition open_subscription :: "nat \<Rightarrow> subscription_result \<Rightarrow> 'p event_world \<Rightarrow> 'p event_world" where
  "open_subscription c r w = w\<lparr>ew_hub := add_sse c (ew_hub w),
     ew_subs := \<lparr>sb_result = r, sb_client = c, sb_latest = sr_after r, sb_replayed = [], sb_live = [],
       sb_phase = Replaying, sb_since = ew_sent w\<rparr> # ew_subs w\<rparr>"

text \<open>
  One step. \<open>append\<close>: a publisher saves an event and holds it; \<open>append_failed\<close>: the write failed
  and \<open>Publish\<close> gives up. \<open>broadcast\<close>: a publisher that holds an event publishes it, in the
  order they were saved if \<open>serial\<close> (which nothing in the code enforces). \<open>window\<close> is
  arbitrary: the step relation allows any answer of the query.
\<close>

inductive event_step ::
  "bool \<Rightarrow> (event \<Rightarrow> 'p \<Rightarrow> 'p) \<Rightarrow> (event \<Rightarrow> 'p \<Rightarrow> 'p) \<Rightarrow> 'p event_world \<Rightarrow> 'p event_world \<Rightarrow> bool"
  for serial touch project where
  append: "append_event touch now oerr serr ev (ew_store w) = ((saved, None), st) \<Longrightarrow>
     event_step serial touch project w (w\<lparr>ew_store := st, ew_saved := ew_saved w @ [saved]\<rparr>)"
| append_failed: "append_event touch now oerr serr ev (ew_store w) = ((saved, Some e), st) \<Longrightarrow>
     event_step serial touch project w (w\<lparr>ew_store := st, ew_failed := ev_seq saved # ew_failed w\<rparr>)"
| broadcast: "ew_saved w = before @ ev # after \<Longrightarrow> (serial \<longrightarrow> before = []) \<Longrightarrow>
     publish_saved project ok ev (ew_store w, ew_hub w) = (st, h) \<Longrightarrow>
     event_step serial touch project w (w\<lparr>ew_store := st, ew_hub := h,
       ew_saved := before @ after, ew_sent := ev_seq ev\<rparr>)"
| subscribe: "eh_channels (ew_hub w) c = None \<Longrightarrow>
     event_step serial touch project w (open_subscription c r w)"
| replay: "ew_subs w = pre @ s # post \<Longrightarrow> sb_phase s = Replaying \<Longrightarrow>
     event_step serial touch project w (w\<lparr>ew_subs := pre @ replay window s # post\<rparr>)"
| receive: "ew_subs w = pre @ s # post \<Longrightarrow> sb_phase s = Streaming \<Longrightarrow>
     eh_channels (ew_hub w) (sb_client s) = Some ch \<Longrightarrow> ch_buffer ch = ev # rest \<Longrightarrow>
     event_step serial touch project w (w\<lparr>
       ew_hub := (ew_hub w)\<lparr>eh_channels := (eh_channels (ew_hub w))(sb_client s \<mapsto> ch\<lparr>ch_buffer := rest\<rparr>)\<rparr>,
       ew_subs := pre @ receive ev s # post\<rparr>)"
| closed: "ew_subs w = pre @ s # post \<Longrightarrow> sb_phase s = Streaming \<Longrightarrow>
     eh_channels (ew_hub w) (sb_client s) = Some ch \<Longrightarrow> ch_buffer ch = [] \<Longrightarrow> ch_closed ch \<Longrightarrow>
     event_step serial touch project w (w\<lparr>ew_hub := remove_sse (sb_client s) (ew_hub w),
       ew_subs := pre @ s\<lparr>sb_phase := Finished\<rparr> # post\<rparr>)"
| cancelled: "ew_subs w = pre @ s # post \<Longrightarrow> sb_phase s = Streaming \<Longrightarrow>
     event_step serial touch project w (w\<lparr>ew_hub := remove_sse (sb_client s) (ew_hub w),
       ew_subs := pre @ s\<lparr>sb_phase := Finished\<rparr> # post\<rparr>)"

inductive_cases event_stepE: "event_step serial touch project w w'"

inductive event_reachable ::
  "bool \<Rightarrow> (event \<Rightarrow> 'p \<Rightarrow> 'p) \<Rightarrow> (event \<Rightarrow> 'p \<Rightarrow> 'p) \<Rightarrow> 'p event_world \<Rightarrow> bool"
  for serial touch project where
  start: "event_reachable serial touch project (initial_world p)"
| step: "event_reachable serial touch project w \<Longrightarrow> event_step serial touch project w w' \<Longrightarrow>
     event_reachable serial touch project w'"

text \<open>What the subscriber has told its connection so far.\<close>

definition written_frames :: "(event \<Rightarrow> event) \<Rightarrow> string \<Rightarrow> subscription \<Rightarrow> stream_frame list" where
  "written_frames sanitize request s =
     map (event_frame sanitize (sr_stream (sb_result s)) request) (sb_replayed s @ sb_live s)"

definition replay_base :: "subscription \<Rightarrow> int" where
  "replay_base s = latest_of (sr_after (sb_result s)) (sb_replayed s)"

definition wanted :: "subscription \<Rightarrow> event \<Rightarrow> bool" where
  "wanted s ev \<longleftrightarrow> subscription_matches (sb_result s) ev \<and> replay_base s < ev_seq ev"

section \<open>The hub as a table of channels\<close>

lemma close_channel_simps [simp]:
  "eh_channels (close_channel c h) = (eh_channels h)(c := map_option (\<lambda>ch. ch\<lparr>ch_closed := True\<rparr>) (eh_channels h c))"
  "eh_clients (close_channel c h) = removeAll c (eh_clients h)"
  "eh_sockets (close_channel c h) = eh_sockets h"
  by (simp_all add: close_channel_def)

lemma offer_other [simp]: "d \<noteq> c \<Longrightarrow> eh_channels (offer ev c h) d = eh_channels h d"
  by (simp add: offer_def split: option.split)

lemma offer_clients_other [simp]: "d \<noteq> c \<Longrightarrow> d \<in> set (eh_clients (offer ev c h)) \<longleftrightarrow> d \<in> set (eh_clients h)"
  by (simp add: offer_def split: option.split)

text \<open>\<open>offered\<close> is what a broadcast does to the channel of one registered client.\<close>

definition offered :: "event \<Rightarrow> sse_channel \<Rightarrow> sse_channel" where
  "offered ev ch = (if length (ch_buffer ch) < sse_buffer then ch\<lparr>ch_buffer := ch_buffer ch @ [ev]\<rparr>
     else ch\<lparr>ch_closed := True\<rparr>)"

lemma offer_same:
  "eh_channels h c = Some ch \<Longrightarrow> eh_channels (offer ev c h) c = Some (offered ev ch)"
  by (simp add: offer_def offered_def)

lemma offer_same_registered:
  "eh_channels h c = Some ch \<Longrightarrow> c \<in> set (eh_clients h) \<Longrightarrow>
     c \<in> set (eh_clients (offer ev c h)) \<longleftrightarrow> length (ch_buffer ch) < sse_buffer"
  by (simp add: offer_def)

definition hub_inv :: "event_hub \<Rightarrow> bool" where
  "hub_inv h \<longleftrightarrow> distinct (eh_clients h) \<and>
     (\<forall>c. c \<in> set (eh_clients h) \<longleftrightarrow> (\<exists>ch. eh_channels h c = Some ch \<and> \<not> ch_closed ch))"

lemma fold_offer_notin:
  "c \<notin> set cs \<Longrightarrow> eh_channels (fold (offer ev) cs h) c = eh_channels h c \<and>
     (c \<in> set (eh_clients (fold (offer ev) cs h)) \<longleftrightarrow> c \<in> set (eh_clients h))"
  by (induction cs arbitrary: h) auto

lemma fold_offer_in:
  assumes "distinct cs" "c \<in> set cs" "eh_channels h c = Some ch" "c \<in> set (eh_clients h)"
  shows "eh_channels (fold (offer ev) cs h) c = Some (offered ev ch) \<and>
     (c \<in> set (eh_clients (fold (offer ev) cs h)) \<longleftrightarrow> length (ch_buffer ch) < sse_buffer)"
  using assms
proof (induction cs arbitrary: h)
  case (Cons d cs)
  show ?case
  proof (cases "d = c")
    case True
    then show ?thesis
      using Cons.prems fold_offer_notin [of c cs ev "offer ev c h"] offer_same [of h c ch ev]
        offer_same_registered [of h c ch ev] by simp
  next
    case False
    then show ?thesis
      using Cons.prems Cons.IH [of "offer ev d h"] by simp
  qed
qed simp

lemma distinct_offer: "distinct (eh_clients h) \<Longrightarrow> distinct (eh_clients (offer ev c h))"
  by (simp add: offer_def distinct_removeAll split: option.split)

lemma distinct_fold_offer: "distinct (eh_clients h) \<Longrightarrow> distinct (eh_clients (fold (offer ev) cs h))"
  by (induction cs arbitrary: h) (simp_all add: distinct_offer)

lemma broadcast_channel:
  assumes "hub_inv h"
  shows "eh_channels (broadcast ok ev h) c =
     (if c \<in> set (eh_clients h) then map_option (offered ev) (eh_channels h c) else eh_channels h c)"
    and "c \<in> set (eh_clients (broadcast ok ev h)) \<longleftrightarrow>
     c \<in> set (eh_clients h) \<and> length (ch_buffer (the (eh_channels h c))) < sse_buffer"
proof -
  let ?h = "h\<lparr>eh_sockets := map (\<lambda>(c, sent). (c, sent @ [ev])) (filter (\<lambda>(c, sent). ok c) (eh_sockets h))\<rparr>"
  have "eh_channels (broadcast ok ev h) c =
       (if c \<in> set (eh_clients h) then map_option (offered ev) (eh_channels h c) else eh_channels h c)
     \<and> (c \<in> set (eh_clients (broadcast ok ev h)) \<longleftrightarrow>
       c \<in> set (eh_clients h) \<and> length (ch_buffer (the (eh_channels h c))) < sse_buffer)"
  proof (cases "c \<in> set (eh_clients h)")
    case True
    then obtain ch where "eh_channels h c = Some ch"
      using assms by (auto simp: hub_inv_def)
    then show ?thesis
      using True fold_offer_in [of "eh_clients h" c ?h ch ev] assms
      by (simp add: broadcast_def hub_inv_def)
  next
    case False
    then show ?thesis
      using fold_offer_notin [of c "eh_clients h" ev ?h] by (simp add: broadcast_def)
  qed
  then show "eh_channels (broadcast ok ev h) c =
       (if c \<in> set (eh_clients h) then map_option (offered ev) (eh_channels h c) else eh_channels h c)"
    "c \<in> set (eh_clients (broadcast ok ev h)) \<longleftrightarrow>
       c \<in> set (eh_clients h) \<and> length (ch_buffer (the (eh_channels h c))) < sse_buffer"
    by auto
qed

lemma offered_buffer [simp]:
  "ch_buffer (offered ev ch) = (if length (ch_buffer ch) < sse_buffer then ch_buffer ch @ [ev] else ch_buffer ch)"
  by (simp add: offered_def)

lemma offered_closed [simp]:
  "ch_closed (offered ev ch) \<longleftrightarrow> ch_closed ch \<or> sse_buffer \<le> length (ch_buffer ch)"
  by (simp add: offered_def)

lemma hub_inv_broadcast:
  assumes "hub_inv h"
  shows "hub_inv (broadcast ok ev h)"
proof -
  have "distinct (eh_clients (broadcast ok ev h))"
    using assms by (simp add: broadcast_def hub_inv_def distinct_fold_offer)
  moreover have "c \<in> set (eh_clients (broadcast ok ev h)) \<longleftrightarrow>
      (\<exists>ch. eh_channels (broadcast ok ev h) c = Some ch \<and> \<not> ch_closed ch)" for c
    using assms unfolding broadcast_channel [OF assms] hub_inv_def
    by (cases "eh_channels h c") (auto simp: not_le)
  ultimately show ?thesis
    by (simp add: hub_inv_def)
qed

lemma hub_inv_remove [intro]: "hub_inv h \<Longrightarrow> hub_inv (remove_sse c h)"
  by (auto simp: hub_inv_def remove_sse_def distinct_removeAll)

lemma hub_inv_add [intro]: "hub_inv h \<Longrightarrow> eh_channels h c = None \<Longrightarrow> hub_inv (add_sse c h)"
  by (auto simp: hub_inv_def add_sse_def)

lemma hub_inv_pop [intro]:
  "hub_inv h \<Longrightarrow> eh_channels h c = Some ch \<Longrightarrow>
     hub_inv (h\<lparr>eh_channels := (eh_channels h)(c \<mapsto> ch\<lparr>ch_buffer := buf\<rparr>)\<rparr>)"
  by (auto simp: hub_inv_def)

lemma remove_sse_channel:
  "eh_channels (remove_sse c h) d = (if d = c \<and> c \<in> set (eh_clients h)
     then map_option (\<lambda>ch. ch\<lparr>ch_closed := True\<rparr>) (eh_channels h c) else eh_channels h d)"
  by (simp add: remove_sse_def)

lemma remove_sse_buffer:
  "eh_channels (remove_sse c h) d = Some ch \<Longrightarrow>
     \<exists>ch0. eh_channels h d = Some ch0 \<and> ch_buffer ch0 = ch_buffer ch"
  by (auto simp: remove_sse_channel split: if_splits)

section \<open>Invariants\<close>

lemma sorted_le_last:
  fixes f :: "'a \<Rightarrow> int"
  shows "sorted_wrt (<) (map f xs) \<Longrightarrow> x \<in> set xs \<Longrightarrow> f x \<le> f (last xs)"
  by (induction xs rule: rev_induct) (auto simp: sorted_wrt_append less_imp_le)

definition published :: "int \<Rightarrow> 'p event_world \<Rightarrow> event list" where
  "published k w = filter (\<lambda>ev. k < ev_seq ev \<and> ev_seq ev \<notin> set (ew_failed w)) (es_events (ew_store w))"

definition log_inv :: "'p event_world \<Rightarrow> bool" where
  "log_inv w \<longleftrightarrow> sorted_wrt (<) (map ev_seq (es_events (ew_store w))) \<and>
     (\<forall>ev \<in> set (es_events (ew_store w)). ev_seq ev \<le> es_next_seq (ew_store w)) \<and>
     (\<forall>n \<in> set (ew_failed w). n \<le> es_next_seq (ew_store w)) \<and>
     ew_sent w \<le> es_next_seq (ew_store w) \<and> hub_inv (ew_hub w) \<and>
     set (ew_saved w) \<subseteq> set (es_events (ew_store w)) \<and>
     (\<forall>c ch. eh_channels (ew_hub w) c = Some ch \<longrightarrow> set (ch_buffer ch) \<subseteq> set (es_events (ew_store w)))"

definition sub_inv :: "'p event_world \<Rightarrow> subscription \<Rightarrow> bool" where
  "sub_inv w s \<longleftrightarrow> eh_channels (ew_hub w) (sb_client s) \<noteq> None \<and>
     sorted_wrt (<) (map ev_seq (sb_live s)) \<and> (\<forall>ev \<in> set (sb_live s). wanted s ev) \<and>
     set (sb_live s) \<subseteq> set (es_events (ew_store w)) \<and>
     sb_latest s = (if sb_live s = [] then replay_base s else ev_seq (last (sb_live s))) \<and>
     (sb_phase s = Replaying \<longrightarrow> sb_live s = [] \<and> sb_replayed s = [])"

definition event_inv :: "'p event_world \<Rightarrow> bool" where
  "event_inv w \<longleftrightarrow> log_inv w \<and> distinct (map sb_client (ew_subs w)) \<and> (\<forall>s \<in> set (ew_subs w). sub_inv w s)"

lemma append_event_parts:
  assumes "append_event touch now oerr serr ev st = ((saved, err), st1)"
  shows "es_next_seq st1 = es_next_seq st + 1" "ev_seq saved = es_next_seq st + 1"
    "es_events st1 = es_events st @ [saved]"
  using assms by (auto simp: append_event_def Let_def split: if_splits)

lemma sub_inv_mono:
  assumes "sub_inv w s" "set (es_events (ew_store w)) \<subseteq> set (es_events (ew_store w'))"
    "\<And>c. eh_channels (ew_hub w) c \<noteq> None \<Longrightarrow> eh_channels (ew_hub w') c \<noteq> None"
  shows "sub_inv w' s"
  using assms by (auto simp: sub_inv_def)

lemma sub_inv_replay:
  assumes "sub_inv w s" "sb_phase s = Replaying"
  shows "sub_inv w (replay window s)"
  using assms by (auto simp: sub_inv_def replay_def replay_base_def)

lemma wanted_receive [simp]: "wanted (receive ev s) = wanted s"
  by (auto simp: wanted_def receive_def replay_base_def fun_eq_iff)

lemma sub_inv_receive:
  assumes "sub_inv w s" "ev \<in> set (es_events (ew_store w))" "sb_phase s = Streaming"
  shows "sub_inv w (receive ev s)"
proof (cases "ev_seq ev \<le> sb_latest s \<or> \<not> subscription_matches (sb_result s) ev")
  case True
  then show ?thesis using assms by (simp add: receive_def)
next
  case False
  have above: "x < ev_seq ev" if "x \<in> ev_seq ` set (sb_live s)" for x
  proof -
    have "sb_live s \<noteq> []" using that by auto
    then have "x \<le> ev_seq (last (sb_live s))"
      using that assms(1) sorted_le_last by (auto simp: sub_inv_def)
    then show ?thesis
      using False assms(1) \<open>sb_live s \<noteq> []\<close> by (simp add: sub_inv_def)
  qed
  have base: "replay_base s \<le> sb_latest s"
    using assms(1) by (cases "sb_live s = []") (auto simp: sub_inv_def wanted_def less_imp_le)
  have "wanted s ev"
    using False base by (simp add: wanted_def)
  moreover have "replay_base (receive ev s) = replay_base s"
    by (simp add: receive_def replay_base_def)
  ultimately show ?thesis
    using False assms above
    by (auto simp: sub_inv_def receive_def sorted_wrt_append wanted_def replay_base_def)
qed


lemma event_inv_initial: "event_inv (initial_world p)"
  by (simp add: event_inv_def initial_world_def log_inv_def new_event_hub_def hub_inv_def)

lemma log_inv_append:
  assumes "log_inv w" "append_event touch now oerr serr ev (ew_store w) = ((saved, err), st)"
  shows "log_inv (w\<lparr>ew_store := st, ew_saved := ew_saved w @ [saved]\<rparr>)"
    "log_inv (w\<lparr>ew_store := st, ew_failed := ev_seq saved # ew_failed w\<rparr>)"
  using assms(1) append_event_parts [OF assms(2)]
  by (auto simp: log_inv_def sorted_wrt_append) force+

lemma publish_saved_parts:
  assumes "publish_saved project ok ev (ew_store w, ew_hub w) = (st, h)"
  shows "es_events st = es_events (ew_store w)" "es_next_seq st = es_next_seq (ew_store w)"
    "h = broadcast ok ev (ew_hub w)"
  using assms by (auto simp: publish_saved_def)

lemma log_inv_broadcast:
  assumes "log_inv w" "ew_saved w = before @ ev # after"
    "publish_saved project ok ev (ew_store w, ew_hub w) = (st, h)"
  shows "log_inv (w\<lparr>ew_store := st, ew_hub := h, ew_saved := before @ after, ew_sent := ev_seq ev\<rparr>)"
proof -
  have ev: "ev \<in> set (es_events (ew_store w))"
    using assms(1,2) by (auto simp: log_inv_def)
  have hub: "hub_inv (ew_hub w)"
    using assms(1) by (simp add: log_inv_def)
  have "set (ch_buffer ch) \<subseteq> set (es_events (ew_store w))"
    if "eh_channels (broadcast ok ev (ew_hub w)) c = Some ch" for c ch
    using that assms(1) ev unfolding broadcast_channel(1) [OF hub]
    by (fastforce simp: log_inv_def offered_def split: if_splits)
  then show ?thesis
    using assms(1,2) ev publish_saved_parts [OF assms(3)] hub_inv_broadcast [OF hub]
    by (auto simp: log_inv_def)
qed

lemma broadcast_keeps_channels:
  "hub_inv h \<Longrightarrow> eh_channels h c \<noteq> None \<Longrightarrow> eh_channels (broadcast ok ev h) c \<noteq> None"
  by (simp add: broadcast_channel)

lemma sub_inv_finish: "sub_inv w s \<Longrightarrow> sb_phase s = Streaming \<Longrightarrow> sub_inv w (s\<lparr>sb_phase := Finished\<rparr>)"
  by (auto simp: sub_inv_def wanted_def replay_base_def)

lemma receive_client [simp]: "sb_client (receive ev s) = sb_client s"
  by (simp add: receive_def)

lemma receive_frame [simp]: "sb_phase (receive ev s) = sb_phase s" "sb_since (receive ev s) = sb_since s"
  by (simp_all add: receive_def)

lemma replay_client [simp]: "sb_client (replay window s) = sb_client s"
  by (simp add: replay_def)

lemma log_inv_remove:
  assumes "log_inv w"
  shows "log_inv (w\<lparr>ew_hub := remove_sse c (ew_hub w), ew_subs := subs\<rparr>)"
proof -
  have "set (ch_buffer ch) \<subseteq> set (es_events (ew_store w))"
    if "eh_channels (remove_sse c (ew_hub w)) d = Some ch" for d ch
    using remove_sse_buffer [OF that] assms unfolding log_inv_def by metis
  then show ?thesis
    using assms by (auto simp: log_inv_def)
qed

lemma event_inv_step:
  assumes inv: "event_inv w" and step: "event_step serial touch project w w'"
  shows "event_inv w'"
  using step
proof cases
  case (append now oerr serr ev saved st)
  have "sub_inv w' s" if "sub_inv w s" for s
    by (rule sub_inv_mono [OF that]) (use append(1) append_event_parts(3) [OF append(2)] in auto)
  then show ?thesis
    using inv log_inv_append(1) [OF _ append(2)] append(1) by (simp add: event_inv_def)
next
  case (append_failed now oerr serr ev saved e st)
  have "sub_inv w' s" if "sub_inv w s" for s
    by (rule sub_inv_mono [OF that]) (use append_failed(1) append_event_parts(3) [OF append_failed(2)] in auto)
  then show ?thesis
    using inv log_inv_append(2) [OF _ append_failed(2)] append_failed(1) by (simp add: event_inv_def)
next
  case (broadcast before ev after ok st h)
  have hub: "hub_inv (ew_hub w)"
    using inv by (simp add: event_inv_def log_inv_def)
  have "sub_inv w' s" if "sub_inv w s" for s
    by (rule sub_inv_mono [OF that])
      (use broadcast(1) publish_saved_parts [OF broadcast(4)] broadcast_keeps_channels [OF hub] in simp_all)
  then show ?thesis
    using inv log_inv_broadcast [OF _ broadcast(2,4)] broadcast(1) by (simp add: event_inv_def)
next
  case (subscribe c r)
  have old: "sub_inv w' s" if "sub_inv w s" for s
    by (rule sub_inv_mono [OF that]) (use subscribe in \<open>simp_all add: open_subscription_def add_sse_def\<close>)
  have "c \<notin> sb_client ` set (ew_subs w)"
    using inv subscribe(2) by (auto simp: event_inv_def sub_inv_def)
  moreover have "log_inv w'"
    using inv subscribe by (auto simp: event_inv_def log_inv_def open_subscription_def add_sse_def hub_inv_def)
  ultimately show ?thesis
    using inv old subscribe(1)
    by (auto simp: event_inv_def open_subscription_def sub_inv_def add_sse_def replay_base_def)
next
  case (replay pre s post window)
  have same: "sub_inv w' = sub_inv w" "log_inv w' = log_inv w"
    using replay(1) by (auto simp: sub_inv_def log_inv_def fun_eq_iff)
  show ?thesis
    using inv replay sub_inv_replay [of w s window] unfolding event_inv_def same by auto
next
  case (receive pre s post ch ev rest)
  have keep: "sub_inv w' s'" if "sub_inv w s'" for s'
    by (rule sub_inv_mono [OF that]) (use receive(1) in auto)
  have buf: "set (ch_buffer ch) \<subseteq> set (es_events (ew_store w))"
    using inv receive(4) unfolding event_inv_def log_inv_def by blast
  have hub: "hub_inv (ew_hub w')"
    using inv receive(4) unfolding receive(1) by (auto simp: event_inv_def log_inv_def)
  have log: "log_inv w'"
    using inv hub buf receive(5) unfolding receive(1)
    by (simp add: event_inv_def log_inv_def)
  have "ev \<in> set (es_events (ew_store w))"
    using buf receive(5) by simp
  then have "sub_inv w (receive ev s)"
    using inv receive(2,3) by (intro sub_inv_receive) (auto simp: event_inv_def)
  then show ?thesis
    using inv receive(1,2) keep log by (auto simp: event_inv_def)
next
  case (closed pre s post ch)
  have keep: "sub_inv w' s'" if "sub_inv w s'" for s'
    by (rule sub_inv_mono [OF that]) (use closed(1) in \<open>auto simp: remove_sse_channel\<close>)
  have "log_inv w'"
    using inv by (simp add: closed(1) event_inv_def log_inv_remove)
  then show ?thesis
    using inv closed(1,2,3) keep sub_inv_finish [of w s] by (auto simp: event_inv_def)
next
  case (cancelled pre s post)
  have keep: "sub_inv w' s'" if "sub_inv w s'" for s'
    by (rule sub_inv_mono [OF that]) (use cancelled(1) in \<open>auto simp: remove_sse_channel\<close>)
  have "log_inv w'"
    using inv by (simp add: cancelled(1) event_inv_def log_inv_remove)
  then show ?thesis
    using inv cancelled(1,2,3) keep sub_inv_finish [of w s] by (auto simp: event_inv_def)
qed

lemma event_reachable_inv: "event_reachable serial touch project w \<Longrightarrow> event_inv w"
  by (induction rule: event_reachable.induct) (auto intro: event_inv_initial event_inv_step)


text \<open>
  A subscriber is never told anything twice, out of order, made up or meant for another:
  in every reachable world, whatever the publishers do, the events a subscription has streamed
  after its replay have strictly increasing sequence numbers, all above those it replayed,
  match its filter, and are in the event log.
\<close>

theorem stream_increasing:
  assumes "event_reachable serial touch project w" and "s \<in> set (ew_subs w)"
  shows "sorted_wrt (<) (map ev_seq (sb_live s))
     \<and> (\<forall>ev \<in> set (sb_live s). subscription_matches (sb_result s) ev \<and> replay_base s < ev_seq ev
          \<and> ev \<in> set (es_events (ew_store w)))"
  using event_reachable_inv [OF assms(1)] assms(2)
  by (fastforce simp: event_inv_def sub_inv_def wanted_def)

text \<open>A full buffer closes the client instead of growing: no buffer exceeds 256 events.\<close>

lemma buffer_bound_step:
  assumes "event_step serial touch project w w'" and "event_inv w"
    and "\<forall>c ch. eh_channels (ew_hub w) c = Some ch \<longrightarrow> length (ch_buffer ch) \<le> sse_buffer"
  shows "\<forall>c ch. eh_channels (ew_hub w') c = Some ch \<longrightarrow> length (ch_buffer ch) \<le> sse_buffer"
  using assms(1)
proof cases
  case (broadcast before ev after ok st h)
  have hub: "hub_inv (ew_hub w)"
    using assms(2) by (simp add: event_inv_def log_inv_def)
  have "eh_channels (ew_hub w') c = (if c \<in> set (eh_clients (ew_hub w))
      then map_option (offered ev) (eh_channels (ew_hub w) c) else eh_channels (ew_hub w) c)" for c
    using broadcast(1) publish_saved_parts(3) [OF broadcast(4)] broadcast_channel(1) [OF hub] by simp
  then show ?thesis
    using assms(3) by auto
next
  case (receive pre s post ch ev rest)
  have "length (ch_buffer ch) \<le> sse_buffer"
    using assms(3) receive(4) by blast
  then have "length rest \<le> sse_buffer"
    using receive(5) by simp
  then show ?thesis
    using assms(3) receive(1) by simp
next
  case (closed pre s post ch)
  then show ?thesis
    using assms(3) by (auto simp: remove_sse_channel split: if_splits)
next
  case (cancelled pre s post)
  then show ?thesis
    using assms(3) by (auto simp: remove_sse_channel split: if_splits)
qed (use assms(3) in \<open>auto simp: open_subscription_def add_sse_def\<close>)

section \<open>Publishers that keep the order\<close>

definition sub_serial :: "'p event_world \<Rightarrow> subscription \<Rightarrow> bool" where
  "sub_serial w s \<longleftrightarrow> sb_since s \<le> ew_sent w \<and>
     (sb_client s \<in> set (eh_clients (ew_hub w)) \<longrightarrow>
      (\<exists>consumed. consumed @ ch_buffer (the (eh_channels (ew_hub w) (sb_client s))) @ ew_saved w
           = published (sb_since s) w
         \<and> (sb_phase s = Replaying \<longrightarrow> consumed = [])
         \<and> (sb_phase s = Streaming \<longrightarrow> sb_live s = filter (wanted s) consumed)))"

definition serial_inv :: "'p event_world \<Rightarrow> bool" where
  "serial_inv w \<longleftrightarrow> ew_saved w = published (ew_sent w) w \<and> (\<forall>s \<in> set (ew_subs w). sub_serial w s)"

lemma sub_serial_same:
  assumes "sub_serial w s" "ew_sent w' = ew_sent w" "ew_saved w' = ew_saved w"
    "published (sb_since s) w' = published (sb_since s) w"
    "eh_channels (ew_hub w') (sb_client s) = eh_channels (ew_hub w) (sb_client s)"
    "sb_client s \<in> set (eh_clients (ew_hub w')) \<Longrightarrow> sb_client s \<in> set (eh_clients (ew_hub w))"
  shows "sub_serial w' s"
  using assms by (auto simp: sub_serial_def)

lemma published_store_only:
  "es_events (ew_store w') = es_events (ew_store w) \<Longrightarrow> ew_failed w' = ew_failed w \<Longrightarrow>
     published k w' = published k w"
  by (simp add: published_def)

lemma published_append:
  assumes "log_inv w" "append_event touch now oerr serr ev (ew_store w) = ((saved, err), st)"
    "k \<le> es_next_seq (ew_store w)"
  shows "published k (w\<lparr>ew_store := st, ew_saved := sv\<rparr>) = published k w @ [saved]"
    "published k (w\<lparr>ew_store := st, ew_failed := ev_seq saved # ew_failed w\<rparr>) = published k w"
proof -
  note parts = append_event_parts [OF assms(2)]
  have new: "ev_seq saved \<notin> set (ew_failed w)"
    using assms(1) parts(2) by (auto simp: log_inv_def)
  show "published k (w\<lparr>ew_store := st, ew_saved := sv\<rparr>) = published k w @ [saved]"
    using parts assms(3) new by (simp add: published_def)
  have "\<forall>x \<in> set (es_events (ew_store w)). ev_seq x \<noteq> ev_seq saved"
    using assms(1) parts(2) by (auto simp: log_inv_def)
  then show "published k (w\<lparr>ew_store := st, ew_failed := ev_seq saved # ew_failed w\<rparr>) = published k w"
    using parts by (auto simp: published_def intro: filter_cong)
qed

lemma filter_above_head:
  fixes f :: "'a \<Rightarrow> int"
  assumes "sorted_wrt (<) (map f xs)" "filter (\<lambda>x. k < f x \<and> Q x) xs = y # ys"
  shows "filter (\<lambda>x. f y < f x \<and> Q x) xs = ys"
proof -
  have "y \<in> set (filter (\<lambda>x. k < f x \<and> Q x) xs)"
    unfolding assms(2) by simp
  then have y: "k < f y" by simp
  have "sorted_wrt (<) (map f (filter (\<lambda>x. k < f x \<and> Q x) xs))"
    using assms(1) by (simp add: sorted_wrt_map sorted_wrt_filter)
  then have "sorted_wrt (<) (map f (y # ys))"
    unfolding assms(2) .
  then have "filter (\<lambda>x. f y < f x) (y # ys) = ys"
    by (simp add: filter_id_conv)
  moreover have "filter (\<lambda>x. f y < f x \<and> Q x) xs = filter (\<lambda>x. f y < f x) (filter (\<lambda>x. k < f x \<and> Q x) xs)"
    using y by (auto intro: filter_cong)
  ultimately show ?thesis
    by (simp add: assms(2))
qed


lemma published_above_head:
  assumes "log_inv w" "published k w = ev # after"
  shows "published (ev_seq ev) w = after"
  unfolding published_def
proof (rule filter_above_head)
  show "sorted_wrt (<) (map ev_seq (es_events (ew_store w)))"
    using assms(1) by (simp add: log_inv_def)
  show "filter (\<lambda>x. k < ev_seq x \<and> ev_seq x \<notin> set (ew_failed w)) (es_events (ew_store w)) = ev # after"
    using assms(2) by (simp add: published_def)
qed

lemma sub_serial_receive:
  assumes inv: "event_inv w" and s: "s \<in> set (ew_subs w)" "sb_phase s = Streaming" "sub_serial w s"
    and ch: "eh_channels (ew_hub w) (sb_client s) = Some ch" "ch_buffer ch = ev # rest"
    and hub: "h = (ew_hub w)\<lparr>eh_channels := (eh_channels (ew_hub w))(sb_client s \<mapsto> ch\<lparr>ch_buffer := rest\<rparr>)\<rparr>"
  shows "sub_serial (w\<lparr>ew_hub := h, ew_subs := subs\<rparr>) (receive ev s)"
proof (cases "sb_client s \<in> set (eh_clients (ew_hub w))")
  case False
  then show ?thesis
    using s(3) by (auto simp: sub_serial_def hub receive_def)
next
  case True
  then obtain consumed where c: "consumed @ (ev # rest) @ ew_saved w = published (sb_since s) w"
    "sb_live s = filter (wanted s) consumed"
    using s ch by (auto simp: sub_serial_def)
  have "sorted_wrt (<) (map ev_seq (published (sb_since s) w))"
    using inv by (auto simp: published_def event_inv_def log_inv_def sorted_wrt_map sorted_wrt_filter)
  then have below: "ev_seq x < ev_seq ev" if "x \<in> set consumed" for x
    using that unfolding c(1) [symmetric] by (auto simp: sorted_wrt_append)
  have si: "sub_inv w s"
    using inv s(1) by (simp add: event_inv_def)
  have "wanted s ev \<longleftrightarrow> \<not> (ev_seq ev \<le> sb_latest s \<or> \<not> subscription_matches (sb_result s) ev)"
  proof (cases "sb_live s = []")
    case True
    then show ?thesis using si by (auto simp: sub_inv_def wanted_def)
  next
    case False
    then have "last (sb_live s) \<in> set (sb_live s)" by simp
    then have "last (sb_live s) \<in> set consumed" "wanted s (last (sb_live s))"
      using c(2) si by (auto simp: sub_inv_def)
    moreover have "sb_latest s = ev_seq (last (sb_live s))"
      using False si by (simp add: sub_inv_def)
    ultimately have "sb_latest s < ev_seq ev" "replay_base s < ev_seq ev"
      using below by (auto simp: wanted_def intro: less_trans)
    then show ?thesis
      by (simp add: wanted_def)
  qed
  then have live: "sb_live (receive ev s) = filter (wanted s) (consumed @ [ev])"
    using c(2) by (simp add: receive_def)
  show ?thesis
    unfolding sub_serial_def
  proof (intro conjI impI exI [of _ "consumed @ [ev]"])
    show "sb_since (receive ev s) \<le> ew_sent (w\<lparr>ew_hub := h, ew_subs := subs\<rparr>)"
      using s(3) by (simp add: sub_serial_def)
    show "sb_live (receive ev s) = filter (wanted (receive ev s)) (consumed @ [ev])"
      using live by simp
  qed (use c(1) s(2) in \<open>simp_all add: hub published_def\<close>)
qed

lemma sub_serial_replay:
  "sub_inv w s \<Longrightarrow> sb_phase s = Replaying \<Longrightarrow> sub_serial w s \<Longrightarrow> sub_serial w (replay window s)"
  by (auto simp: sub_serial_def replay_def sub_inv_def)

lemma sub_serial_broadcast:
  assumes inv: "hub_inv (ew_hub w)" and s: "sub_serial w s" and saved: "ew_saved w = ev # after"
    and above: "ew_sent w < ev_seq ev" and st: "es_events st = es_events (ew_store w)"
  shows "sub_serial (w\<lparr>ew_store := st, ew_hub := broadcast ok ev (ew_hub w), ew_saved := after,
     ew_sent := ev_seq ev\<rparr>) s"
proof (cases "sb_client s \<in> set (eh_clients (broadcast ok ev (ew_hub w)))")
  case False
  then show ?thesis using s above by (simp add: sub_serial_def)
next
  case True
  then have reg: "sb_client s \<in> set (eh_clients (ew_hub w))"
    and room: "length (ch_buffer (the (eh_channels (ew_hub w) (sb_client s)))) < sse_buffer"
    using broadcast_channel(2) [OF inv] by auto
  then obtain ch where ch: "eh_channels (ew_hub w) (sb_client s) = Some ch"
    using inv by (auto simp: hub_inv_def)
  then have "eh_channels (broadcast ok ev (ew_hub w)) (sb_client s) = Some (offered ev ch)"
    using reg broadcast_channel(1) [OF inv] by simp
  then show ?thesis
    using s above saved reg room ch st by (auto simp: sub_serial_def published_def)
qed


lemma sub_serial_finish:
  assumes "hub_inv (ew_hub w)"
  shows "sub_serial w s \<Longrightarrow> sub_serial (w\<lparr>ew_hub := remove_sse (sb_client s) (ew_hub w), ew_subs := subs\<rparr>)
     (s\<lparr>sb_phase := Finished\<rparr>)"
  by (simp add: sub_serial_def remove_sse_def)

lemma sub_serial_remove_other:
  "sub_serial w s \<Longrightarrow> sb_client s \<noteq> c \<Longrightarrow>
     sub_serial (w\<lparr>ew_hub := remove_sse c (ew_hub w), ew_subs := subs\<rparr>) s"
  by (rule sub_serial_same) (auto simp: published_def remove_sse_def split: if_splits)

lemma others_differ:
  "distinct (map sb_client (pre @ s # post)) \<Longrightarrow> x \<in> set (pre @ post) \<Longrightarrow> sb_client x \<noteq> sb_client s"
  by (auto simp: image_iff)

lemma serial_inv_step:
  assumes inv: "event_inv w" and ser: "serial_inv w" and step: "event_step True touch project w w'"
  shows "serial_inv w'"
proof -
  have log: "log_inv w" and hub: "hub_inv (ew_hub w)" and sent: "ew_sent w \<le> es_next_seq (ew_store w)"
    using inv by (simp_all add: event_inv_def log_inv_def)
  from step show ?thesis
  proof cases
    case (append now oerr serr ev saved st)
    have "published k w' = published k w @ [saved]" if "k \<le> ew_sent w" for k
      unfolding append(1) by (rule published_append(1) [OF log append(2)]) (use that sent in simp)
    then show ?thesis
      using ser append(1) by (fastforce simp: serial_inv_def sub_serial_def)
  next
    case (append_failed now oerr serr ev saved e st)
    have "published k w' = published k w" if "k \<le> ew_sent w" for k
      unfolding append_failed(1) by (rule published_append(2) [OF log append_failed(2)]) (use that sent in simp)
    then show ?thesis
      using ser append_failed(1) by (auto simp: serial_inv_def sub_serial_def)
  next
    case (broadcast before ev after ok st h)
    have saved: "ew_saved w = ev # after" and h: "h = broadcast ok ev (ew_hub w)"
      and st: "es_events st = es_events (ew_store w)"
      using broadcast(2,3) publish_saved_parts [OF broadcast(4)] by auto
    have pub: "published (ew_sent w) w = ev # after"
      using ser saved by (simp add: serial_inv_def)
    then have "ev \<in> set (published (ew_sent w) w)" by simp
    then have above: "ew_sent w < ev_seq ev"
      by (simp add: published_def)
    have "published (ev_seq ev) w = after"
      by (rule published_above_head [OF log pub])
    then show ?thesis
      using ser broadcast(1,3) saved h st above sub_serial_broadcast [OF hub _ saved above st]
      by (auto simp: serial_inv_def published_def)
  next
    case (subscribe c r)
    have "sub_serial w' s" if "s \<in> set (ew_subs w)" for s
    proof (rule sub_serial_same)
      show "sub_serial w s" using ser that by (simp add: serial_inv_def)
      have "sb_client s \<noteq> c"
        using that inv subscribe(2) by (auto simp: event_inv_def sub_inv_def)
      then show "eh_channels (ew_hub w') (sb_client s) = eh_channels (ew_hub w) (sb_client s)"
        by (simp add: subscribe(1) open_subscription_def add_sse_def)
      show "sb_client s \<in> set (eh_clients (ew_hub w))" if "sb_client s \<in> set (eh_clients (ew_hub w'))"
        using that \<open>sb_client s \<noteq> c\<close> by (simp add: subscribe(1) open_subscription_def add_sse_def)
    qed (simp_all add: subscribe(1) open_subscription_def published_def)
    then show ?thesis
      using ser by (auto simp: serial_inv_def subscribe(1) open_subscription_def add_sse_def sub_serial_def
          published_def)
  next
    case (replay pre s post window)
    have "sub_serial w' x = sub_serial w x" for x
      using replay(1) by (simp add: sub_serial_def published_def)
    moreover have "sub_serial w (replay window s)"
      using sub_serial_replay [of w s window] inv ser replay(2,3) by (auto simp: event_inv_def serial_inv_def)
    ultimately show ?thesis
      using ser replay(1,2) by (auto simp: serial_inv_def published_def)
  next
    case (receive pre s post ch ev rest)
    have s: "s \<in> set (ew_subs w)" "sub_serial w s"
      using receive(2) ser by (auto simp: serial_inv_def)
    have self: "sub_serial w' (receive ev s)"
      unfolding receive(1) by (rule sub_serial_receive [OF inv s(1) receive(3) s(2) receive(4,5) refl])
    have "sub_serial w' x" if "x \<in> set (pre @ post)" for x
    proof (rule sub_serial_same)
      show "sub_serial w x" using that ser receive(2) by (auto simp: serial_inv_def)
      show "eh_channels (ew_hub w') (sb_client x) = eh_channels (ew_hub w) (sb_client x)"
        using others_differ [OF _ that] inv receive(1,2) by (simp add: event_inv_def)
    qed (simp_all add: receive(1) published_def)
    then show ?thesis
      using self ser receive(1) by (auto simp: serial_inv_def published_def)
  next
    case (closed pre s post ch)
    have "sub_serial w s" using ser closed(2) by (auto simp: serial_inv_def)
    moreover have "sub_serial w' x" if "x \<in> set (pre @ post)" for x
    proof -
      have "sub_serial w x" using that ser closed(2) by (auto simp: serial_inv_def)
      moreover have "sb_client x \<noteq> sb_client s"
        by (rule others_differ [OF _ that]) (use inv closed(2) in \<open>simp add: event_inv_def\<close>)
      ultimately show ?thesis unfolding closed(1) by (rule sub_serial_remove_other)
    qed
    ultimately show ?thesis
      using ser sub_serial_finish [OF hub] closed(1) by (auto simp: serial_inv_def published_def)
  next
    case (cancelled pre s post)
    have "sub_serial w s" using ser cancelled(2) by (auto simp: serial_inv_def)
    moreover have "sub_serial w' x" if "x \<in> set (pre @ post)" for x
    proof -
      have "sub_serial w x" using that ser cancelled(2) by (auto simp: serial_inv_def)
      moreover have "sb_client x \<noteq> sb_client s"
        by (rule others_differ [OF _ that]) (use inv cancelled(2) in \<open>simp add: event_inv_def\<close>)
      ultimately show ?thesis unfolding cancelled(1) by (rule sub_serial_remove_other)
    qed
    ultimately show ?thesis
      using ser sub_serial_finish [OF hub] cancelled(1) by (auto simp: serial_inv_def published_def)
  qed
qed

lemma serial_inv_initial: "serial_inv (initial_world p)"
  by (simp add: serial_inv_def initial_world_def published_def)

lemma serial_reachable_inv:
  "event_reachable True touch project w \<Longrightarrow> event_inv w \<and> serial_inv w"
  by (induction rule: event_reachable.induct)
    (auto intro: event_inv_initial event_inv_step serial_inv_initial serial_inv_step)


text \<open>
  C14: In-order publishers lose nothing. If events are broadcast in the order they were saved,
  then for every subscription that streams on a registered client, what it has streamed,
  followed by the events for it in its buffer and in the hands of the publishers, is exactly
  the list of the events of the log since it was opened that match its filter and come after
  its replay, without those whose write failed.
\<close>

theorem serial_stream_exact:
  assumes "event_reachable True touch project w" and "s \<in> set (ew_subs w)"
    and "sb_phase s = Streaming" and "sb_client s \<in> set (eh_clients (ew_hub w))"
    and "eh_channels (ew_hub w) (sb_client s) = Some ch"
  shows "sb_live s @ filter (wanted s) (ch_buffer ch) @ filter (wanted s) (ew_saved w)
     = filter (\<lambda>ev. sb_since s < ev_seq ev \<and> ev_seq ev \<notin> set (ew_failed w) \<and>
         replay_base s < ev_seq ev \<and> subscription_matches (sb_result s) ev) (es_events (ew_store w))"
proof -
  obtain consumed where c: "consumed @ ch_buffer ch @ ew_saved w = published (sb_since s) w"
    "sb_live s = filter (wanted s) consumed"
    using serial_reachable_inv [OF assms(1)] assms(2-5) by (auto simp: serial_inv_def sub_serial_def)
  have "sb_live s @ filter (wanted s) (ch_buffer ch) @ filter (wanted s) (ew_saved w)
      = filter (wanted s) (published (sb_since s) w)"
    by (simp add: c(2) c(1) [symmetric])
  also have "\<dots> = filter (\<lambda>ev. sb_since s < ev_seq ev \<and> ev_seq ev \<notin> set (ew_failed w) \<and>
         replay_base s < ev_seq ev \<and> subscription_matches (sb_result s) ev) (es_events (ew_store w))"
    by (auto simp: published_def wanted_def intro: filter_cong)
  finally show ?thesis .
qed

section \<open>Two publishers that overtake each other\<close>

definition demo_event :: "string \<Rightarrow> event" where
  "demo_event ws = \<lparr>ev_seq = 0, ev_ts = [], ev_workspace = ws, ev_session = [], ev_agent = ''codex'',
     ev_kind = ''turn.started'', ev_normalized = [], ev_raw = AnyNil\<rparr>"

definition demo_saved :: "int \<Rightarrow> event" where
  "demo_saved n = (demo_event ''w'')\<lparr>ev_seq := n, ev_ts := ''t''\<rparr>"

definition demo_all :: subscription_result where
  "demo_all = \<lparr>sr_stream = ''s'', sr_workspace = ''w'', sr_session = [], sr_after = 0, sr_replay_limit = 0\<rparr>"

definition demo_sub :: "int \<Rightarrow> event list \<Rightarrow> subscription" where
  "demo_sub latest live = \<lparr>sb_result = demo_all, sb_client = 0, sb_latest = latest, sb_replayed = [],
     sb_live = live, sb_phase = Streaming, sb_since = 0\<rparr>"

definition demo_hub :: "event list \<Rightarrow> event_hub" where
  "demo_hub buf = \<lparr>eh_sockets = [], eh_clients = [0], eh_channels = [0 \<mapsto> \<lparr>ch_buffer = buf, ch_closed = False\<rparr>]\<rparr>"

definition demo_world :: "event list \<Rightarrow> event_hub \<Rightarrow> event list \<Rightarrow> int \<Rightarrow> subscription \<Rightarrow> unit event_world" where
  "demo_world events hub saved sent s =
     \<lparr>ew_store = \<lparr>es_next_seq = int (length events), es_events = events, es_sessions = ()\<rparr>,
      ew_hub = hub, ew_saved = saved, ew_failed = [], ew_sent = sent, ew_subs = [s]\<rparr>"

abbreviation (input) keep :: "event \<Rightarrow> unit \<Rightarrow> unit" where
  "keep \<equiv> \<lambda>ev p. p"

lemma demo_subscribed: "event_reachable serial keep keep (demo_world [] (demo_hub []) [] 0 (demo_sub 0 []))"
proof -
  let ?w = "open_subscription 0 demo_all (initial_world ())"
  have "event_step serial keep keep (initial_world ()) ?w"
    by (rule subscribe) (simp add: initial_world_def new_event_hub_def)
  moreover have "event_step serial keep keep ?w (?w\<lparr>ew_subs := [] @ replay [] (hd (ew_subs ?w)) # []\<rparr>)"
    by (rule event_step.replay) (simp_all add: open_subscription_def initial_world_def)
  moreover have "?w\<lparr>ew_subs := [] @ replay [] (hd (ew_subs ?w)) # []\<rparr>
      = demo_world [] (demo_hub []) [] 0 (demo_sub 0 [])"
    by (simp add: open_subscription_def initial_world_def replay_def demo_world_def demo_hub_def demo_sub_def
        demo_all_def add_sse_def new_event_hub_def)
  ultimately show ?thesis
    by (metis event_reachable.start event_reachable.step)
qed

lemma demo_append:
  "event_step serial keep keep (demo_world evs hub saved sent s)
     (demo_world (evs @ [demo_saved (int (length evs) + 1)]) hub (saved @ [demo_saved (int (length evs) + 1)]) sent s)"
proof -
  have "append_event keep ''t'' None None (demo_event ''w'') (ew_store (demo_world evs hub saved sent s))
     = ((demo_saved (int (length evs) + 1), None), \<lparr>es_next_seq = int (length evs) + 1,
         es_events = evs @ [demo_saved (int (length evs) + 1)], es_sessions = ()\<rparr>)"
    by (simp add: append_event_def demo_world_def demo_saved_def Let_def)
  from append [OF this] show ?thesis
    by (simp add: demo_world_def add.commute)
qed

lemma demo_broadcast:
  assumes "length buf < sse_buffer" "serial \<longrightarrow> before = []"
  shows "event_step serial keep keep (demo_world evs (demo_hub buf) (before @ ev # after) sent s)
     (demo_world evs (demo_hub (buf @ [ev])) (before @ after) (ev_seq ev) s)"
proof -
  let ?w = "demo_world evs (demo_hub buf) (before @ ev # after) sent s"
  have "publish_saved keep (\<lambda>c. True) ev (ew_store ?w, ew_hub ?w) = (ew_store ?w, demo_hub (buf @ [ev]))"
    using assms(1) by (simp add: publish_saved_def demo_world_def broadcast_def demo_hub_def offer_def)
  from event_step.broadcast [OF _ assms(2) this] show ?thesis
    by (simp add: demo_world_def)
qed

lemma demo_receive:
  "event_step serial keep keep (demo_world evs (demo_hub (ev # rest)) saved sent (demo_sub latest live))
     (demo_world evs (demo_hub rest) saved sent (receive ev (demo_sub latest live)))"
proof -
  let ?w = "demo_world evs (demo_hub (ev # rest)) saved sent (demo_sub latest live)"
  have "event_step serial keep keep ?w (?w\<lparr>
       ew_hub := (ew_hub ?w)\<lparr>eh_channels := (eh_channels (ew_hub ?w))
         (sb_client (demo_sub latest live) \<mapsto> \<lparr>ch_buffer = ev # rest, ch_closed = False\<rparr>\<lparr>ch_buffer := rest\<rparr>)\<rparr>,
       ew_subs := [] @ receive ev (demo_sub latest live) # []\<rparr>)"
    by (rule receive [where rest = rest]) (simp_all add: demo_world_def demo_sub_def demo_hub_def)
  then show ?thesis
    by (simp add: demo_world_def demo_hub_def demo_sub_def)
qed

lemma demo_received [simp]:
  "latest < n \<Longrightarrow> receive (demo_saved n) (demo_sub latest live) = demo_sub n (live @ [demo_saved n])"
  "n \<le> latest \<Longrightarrow> receive (demo_saved n) (demo_sub latest live) = demo_sub latest live"
  by (simp_all add: receive_def demo_sub_def demo_saved_def demo_event_def subscription_matches_def demo_all_def)

text \<open>
  Concurrent publishers lose events. Nothing makes two calls of \<open>Publish\<close> broadcast in the
  order in which they saved: there is a reachable world in which two matching events are in the
  log, both were published and nothing is left to deliver, and a live subscription on a
  registered client has streamed the second only. It skipped the first, which came later with
  a smaller sequence number, and will never stream it.
\<close>

theorem concurrent_publish_loses_event:
  "\<exists>(w :: unit event_world) s ev. event_reachable False keep keep w \<and> ew_subs w = [s] \<and>
     sb_phase s = Streaming \<and> sb_client s \<in> set (eh_clients (ew_hub w)) \<and>
     ew_saved w = [] \<and> eh_channels (ew_hub w) (sb_client s) = Some \<lparr>ch_buffer = [], ch_closed = False\<rparr> \<and>
     ev \<in> set (es_events (ew_store w)) \<and> ew_failed w = [] \<and> sb_since s < ev_seq ev \<and> wanted s ev \<and>
     sb_live s \<noteq> [] \<and> ev \<notin> set (sb_replayed s @ sb_live s) \<and> ev_seq ev < sb_latest s"
proof -
  note st = event_reachable.step [rotated]
  let ?e1 = "demo_saved 1" and ?e2 = "demo_saved 2"
  have [simp]: "ev_seq (demo_saved n) = n" for n
    by (simp add: demo_saved_def)
  have room: "length ([] :: event list) < sse_buffer" "length [?e2] < sse_buffer"
    by (simp_all add: sse_buffer_def)
  have 1: "event_reachable False keep keep (demo_world [?e1] (demo_hub []) [?e1] 0 (demo_sub 0 []))"
    using st [OF demo_append demo_subscribed] by simp
  have 2: "event_reachable False keep keep (demo_world [?e1, ?e2] (demo_hub []) [?e1, ?e2] 0 (demo_sub 0 []))"
    using st [OF demo_append 1] by simp
  have 3: "event_reachable False keep keep (demo_world [?e1, ?e2] (demo_hub [?e2]) [?e1] 2 (demo_sub 0 []))"
    using st [OF demo_broadcast [OF room(1), of False "[?e1]"], of "[?e1, ?e2]" ?e2 "[]"] 2 by simp
  have 4: "event_reachable False keep keep (demo_world [?e1, ?e2] (demo_hub [?e2, ?e1]) [] 1 (demo_sub 0 []))"
    using st [OF demo_broadcast [OF room(2), of False "[]"], of "[?e1, ?e2]" ?e1 "[]"] 3 by simp
  have 5: "event_reachable False keep keep (demo_world [?e1, ?e2] (demo_hub [?e1]) [] 1 (demo_sub 2 [?e2]))"
    using st [OF demo_receive 4] by simp
  have 6: "event_reachable False keep keep (demo_world [?e1, ?e2] (demo_hub []) [] 1 (demo_sub 2 [?e2]))"
    using st [OF demo_receive 5] by simp
  have "wanted (demo_sub 2 [?e2]) ?e1"
    by (simp add: wanted_def demo_sub_def replay_base_def demo_all_def subscription_matches_def demo_saved_def
        demo_event_def)
  moreover have "?e1 \<noteq> ?e2"
    by (simp add: demo_saved_def demo_event_def)
  ultimately show ?thesis
    by (intro exI [of _ "demo_world [?e1, ?e2] (demo_hub []) [] 1 (demo_sub 2 [?e2])"]
        exI [of _ "demo_sub 2 [?e2]"] exI [of _ ?e1])
      (use 6 in \<open>simp add: demo_world_def demo_sub_def demo_hub_def\<close>)
qed


lemma demo_delivered:
  "event_reachable True keep keep (demo_world [demo_saved 1] (demo_hub []) [] 1 (demo_sub 1 [demo_saved 1]))"
proof -
  note st = event_reachable.step [rotated]
  have [simp]: "ev_seq (demo_saved n) = n" for n
    by (simp add: demo_saved_def)
  have room: "length ([] :: event list) < sse_buffer"
    by (simp add: sse_buffer_def)
  have 1: "event_reachable True keep keep (demo_world [demo_saved 1] (demo_hub []) [demo_saved 1] 0 (demo_sub 0 []))"
    using st [OF demo_append demo_subscribed] by simp
  have 2: "event_reachable True keep keep (demo_world [demo_saved 1] (demo_hub [demo_saved 1]) [] 1 (demo_sub 0 []))"
    using st [OF demo_broadcast [OF room, of True "[]"], of "[demo_saved 1]" "demo_saved 1" "[]"] 1 by simp
  show ?thesis
    using st [OF demo_receive 2] by simp
qed

lemma demo_delivered_sub:
  "demo_sub 1 [demo_saved 1] \<in> set (ew_subs (demo_world [demo_saved 1] (demo_hub []) [] 1 (demo_sub 1 [demo_saved 1])))"
  "sb_phase (demo_sub 1 [demo_saved 1]) = Streaming"
  "sb_client (demo_sub 1 [demo_saved 1]) \<in> set (eh_clients (ew_hub (demo_world [demo_saved 1] (demo_hub []) [] 1
     (demo_sub 1 [demo_saved 1]))))"
  "eh_channels (ew_hub (demo_world [demo_saved 1] (demo_hub []) [] 1 (demo_sub 1 [demo_saved 1])))
     (sb_client (demo_sub 1 [demo_saved 1])) = Some \<lparr>ch_buffer = [], ch_closed = False\<rparr>"
  by (simp_all add: demo_world_def demo_sub_def demo_hub_def)

lemma stream_increasing_witness:
  "list_all (subscription_matches demo_all) (sb_live (demo_sub 1 [demo_saved 1]))"
proof -
  have "sb_result (demo_sub 1 [demo_saved 1]) = demo_all"
    by (simp add: demo_sub_def)
  then show ?thesis
    using stream_increasing [OF demo_delivered demo_delivered_sub(1)] by (simp add: list_all_iff)
qed

lemma serial_stream_exact_witness:
  "sb_live (demo_sub 1 [demo_saved 1]) = filter (\<lambda>ev. sb_since (demo_sub 1 [demo_saved 1]) < ev_seq ev \<and>
     ev_seq ev \<notin> set (ew_failed (demo_world [demo_saved 1] (demo_hub []) [] 1 (demo_sub 1 [demo_saved 1]))) \<and>
     replay_base (demo_sub 1 [demo_saved 1]) < ev_seq ev \<and>
     subscription_matches (sb_result (demo_sub 1 [demo_saved 1])) ev) [demo_saved 1]"
proof -
  have w: "ew_saved (demo_world es h sv n s) = sv" "es_events (ew_store (demo_world es h sv n s)) = es" for es h sv n s
    by (simp_all add: demo_world_def)
  show ?thesis
    using serial_stream_exact [OF demo_delivered demo_delivered_sub] by (simp only: w filter.simps append_Nil2 sse_channel.select_convs)
qed

end
