(* ===== verification/SessionEvents.thy ===== *)
theory SessionEvents
  imports EventLog
begin

text \<open>
  What \<open>daemon/internal/core/sessions\<close> reads from the events of a session (\<open>helpers.go\<close>, the
  pure parts of \<open>edit.go\<close>, \<open>fork.go\<close> and \<open>interactions.go\<close>): pending interactions, the
  projected status, the editable message, turns and fork anchors, and the texts and permissions
  that an answer to an interaction produces. The payload that \<open>protocol.EventNormalized\<close> wraps is
  the map it is given; \<open>json.MarshalIndent\<close> is an argument.
\<close>

section \<open>Dynamic values\<close>

definition field :: "(string \<times> go_any) list \<Rightarrow> string \<Rightarrow> go_any" where
  "field m k = (case map_of m k of None \<Rightarrow> AnyNil | Some v \<Rightarrow> v)"

fun map_value :: "go_any \<Rightarrow> (string \<times> go_any) list" where
  "map_value (AnyMap m) = m"
| "map_value _ = []"

fun string_value :: "go_any \<Rightarrow> string" where
  "string_value (AnyString s) = s"
| "string_value _ = []"

fun bool_value :: "go_any \<Rightarrow> bool" where
  "bool_value (AnyBool b) = b"
| "bool_value _ = False"

fun number_value :: "go_any \<Rightarrow> int" where
  "number_value (AnyNumber n) = n"
| "number_value _ = 0"

fun first_string :: "go_any list \<Rightarrow> string" where
  "first_string [] = []"
| "first_string (v # vs) = (if string_value v \<noteq> [] then string_value v else first_string vs)"

fun first_non_nil :: "go_any list \<Rightarrow> go_any" where
  "first_non_nil [] = AnyNil"
| "first_non_nil (v # vs) = (if v \<noteq> AnyNil then v else first_non_nil vs)"

definition text_field :: "event \<Rightarrow> string \<Rightarrow> string" where
  "text_field ev k = string_value (field (ev_normalized ev) k)"

definition utf8 :: "nat list \<Rightarrow> string" where
  "utf8 bytes = map char_of bytes"

text \<open>An attachment of an input (\<open>protocol.InputAttachment\<close>).\<close>

record attachment =
  at_id :: string
  at_kind :: string
  at_path :: string
  at_name :: string
  at_mime :: string
  at_size :: int
  at_detail :: string

record ssh_config =
  sh_endpoint :: string
  sh_port :: int
  sh_cwd :: string

record agent_workspace =
  aw_id :: string
  aw_name :: string
  aw_target :: string
  aw_agent :: string
  aw_projection_root :: string
  aw_cwd :: string
  aw_ssh :: "ssh_config option"
  aw_native_session :: string
  aw_native_thread :: string
  aw_created :: string
  aw_updated :: string

section \<open>Replaced turns and status\<close>

definition replaced_range :: "event \<Rightarrow> (int \<times> int) option" where
  "replaced_range ev =
     (if ev_kind ev \<noteq> ''turn.replaced'' then None
      else (let start = number_value (field (ev_normalized ev) ''start_seq'');
                end_seq = number_value (field (ev_normalized ev) ''end_seq'')
            in if start \<le> 0 \<or> end_seq < start then None else Some (start, end_seq)))"

text \<open>The map \<open>replacedTranscriptSeqs\<close> builds, as its lookup.\<close>

definition hidden_seq :: "event list \<Rightarrow> int \<Rightarrow> bool" where
  "hidden_seq events seq =
     list_ex (\<lambda>ev. case replaced_range ev of None \<Rightarrow> False | Some (s, e) \<Rightarrow> s \<le> seq \<and> seq \<le> e) events"

fun status_after :: "string \<Rightarrow> event list \<Rightarrow> string" where
  "status_after status [] = status"
| "status_after status (ev # evs) = status_after
     (if ev_kind ev = ''turn.started'' then ''running''
      else if ev_kind ev = ''turn.completed'' \<or> ev_kind ev = ''turn.cancelled'' then ''idle''
      else if ev_kind ev = ''turn.failed'' then ''failed''
      else status) evs"

definition projected_status :: "string \<Rightarrow> event list \<Rightarrow> bool \<Rightarrow> string" where
  "projected_status status events has_pending =
     (let final = status_after (if status = [] then ''idle'' else status) events
      in if has_pending then ''requires_action'' else final)"

section \<open>Pending interactions\<close>

definition interaction_ids :: "(string \<times> go_any) list \<Rightarrow> string list" where
  "interaction_ids m =
     filter (\<lambda>s. s \<noteq> []) (map (\<lambda>k. string_value (field m k)) [''approval_id'', ''ask_id'', ''request_id''])"

definition first_of :: "string list \<Rightarrow> string" where
  "first_of values = (case values of [] \<Rightarrow> [] | v # vs \<Rightarrow> v)"

definition is_ask_permission_echo :: "event \<Rightarrow> bool" where
  "is_ask_permission_echo ev \<longleftrightarrow> ev_kind ev = ''approval.requested'' \<and>
     text_field ev ''kind'' = ''permission'' \<and> text_field ev ''tool_name'' = ''AskUserQuestion''"

text \<open>
  \<open>supersededClaudeAskIDs\<close>: within a turn of a session a later question of Claude replaces the
  earlier one. The two maps of the code are functions with default \<open>""\<close>.
\<close>

record ask_scan =
  ak_turns :: "string \<Rightarrow> string"
  ak_last :: "string \<Rightarrow> string"
  ak_ids :: "string list"

definition ask_scan_start :: ask_scan where
  "ask_scan_start = \<lparr>ak_turns = (\<lambda>s. []), ak_last = (\<lambda>t. []), ak_ids = []\<rparr>"

definition scan_turn_start :: "event \<Rightarrow> ask_scan \<Rightarrow> ask_scan" where
  "scan_turn_start ev st =
     (if ev_kind ev = ''message.user'' \<or> ev_kind ev = ''turn.started''
      then st\<lparr>ak_turns := (ak_turns st)(ev_session ev := ev_session ev @ '':'' @ dec_int (ev_seq ev))\<rparr>
      else st)"

definition scan_ask :: "event \<Rightarrow> ask_scan \<Rightarrow> ask_scan" where
  "scan_ask ev st =
     (if ev_kind ev = ''ask.requested'' \<and> text_field ev ''source'' = ''claude'' \<and>
         text_field ev ''kind'' = ''AskUserQuestion''
      then (let turn0 = ak_turns st (ev_session ev);
                turn = (if turn0 = [] then ev_session ev @ '':current'' else turn0);
                ask = first_of (interaction_ids (ev_normalized ev))
            in if ask = [] then st
               else st\<lparr>ak_ids := (if ak_last st turn \<noteq> [] then ak_last st turn # ak_ids st else ak_ids st),
                       ak_last := (ak_last st)(turn := ask)\<rparr>)
      else st)"

definition turn_end_kind :: "string \<Rightarrow> bool" where
  "turn_end_kind k \<longleftrightarrow> k = ''turn.completed'' \<or> k = ''turn.failed'' \<or> k = ''turn.cancelled''"

definition scan_turn_end :: "event \<Rightarrow> ask_scan \<Rightarrow> ask_scan" where
  "scan_turn_end ev st =
     (if turn_end_kind (ev_kind ev) then st\<lparr>ak_turns := (ak_turns st)(ev_session ev := [])\<rparr> else st)"

definition superseded_asks :: "event list \<Rightarrow> string list" where
  "superseded_asks events =
     ak_ids (fold (\<lambda>ev st. scan_turn_end ev (scan_ask ev (scan_turn_start ev st))) events ask_scan_start)"

definition resolution_kind :: "string \<Rightarrow> bool" where
  "resolution_kind k \<longleftrightarrow> k = ''approval.resolved'' \<or> k = ''approval.responded'' \<or> k = ''ask.resolved''"

definition resolved_interactions :: "event list \<Rightarrow> string list" where
  "resolved_interactions events =
     concat (map (\<lambda>ev. if resolution_kind (ev_kind ev) then interaction_ids (ev_normalized ev) else []) events)
     @ superseded_asks events"

definition any_resolved :: "string list \<Rightarrow> string list \<Rightarrow> bool" where
  "any_resolved ids resolved = list_ex (\<lambda>i. i \<in> set resolved) ids"

definition request_kind :: "string \<Rightarrow> bool" where
  "request_kind k \<longleftrightarrow> k = ''approval.requested'' \<or> k = ''ask.requested''"

definition pending_request :: "event list \<Rightarrow> event \<Rightarrow> bool" where
  "pending_request events ev \<longleftrightarrow>
     \<not> hidden_seq events (ev_seq ev) \<and> request_kind (ev_kind ev) \<and> \<not> is_ask_permission_echo ev \<and>
     first_of (interaction_ids (ev_normalized ev)) \<noteq> [] \<and>
     \<not> any_resolved (interaction_ids (ev_normalized ev)) (resolved_interactions events)"

definition has_pending_interaction :: "event list \<Rightarrow> bool" where
  "has_pending_interaction events = list_ex (pending_request events) (rev events)"

definition request_matches :: "event \<Rightarrow> string \<Rightarrow> bool" where
  "request_matches ev ident =
     (if \<not> request_kind (ev_kind ev) then False
      else if text_field ev ''approval_id'' = ident \<or> text_field ev ''ask_id'' = ident then True
      else text_field ev ''source'' \<noteq> ''codex'' \<and> text_field ev ''request_id'' = ident)"

definition response_matches :: "event \<Rightarrow> string \<Rightarrow> bool" where
  "response_matches ev ident =
     (if ev_kind ev = ''approval.responded''
        then text_field ev ''approval_id'' = ident \<or> text_field ev ''request_id'' = ident
      else if ev_kind ev = ''ask.resolved''
        then text_field ev ''ask_id'' = ident \<or> text_field ev ''request_id'' = ident
      else False)"

text \<open>The backward loops of \<open>FindInteractionEvent\<close> and \<open>FindPendingInteractionEvent\<close>.\<close>

definition find_interaction :: "event list \<Rightarrow> string \<Rightarrow> event option" where
  "find_interaction events ident = find (\<lambda>ev. request_matches ev ident) (rev events)"

datatype pending_lookup = FoundPending event | NotFound | Stale

fun find_pending_loop :: "(int \<Rightarrow> bool) \<Rightarrow> string \<Rightarrow> event list \<Rightarrow> pending_lookup" where
  "find_pending_loop hidden ident [] = NotFound"
| "find_pending_loop hidden ident (ev # evs) =
     (if response_matches ev ident then Stale
      else if request_matches ev ident
        then (if hidden (ev_seq ev) then Stale else FoundPending ev)
      else find_pending_loop hidden ident evs)"

definition find_pending :: "event list \<Rightarrow> string \<Rightarrow> pending_lookup" where
  "find_pending events ident = find_pending_loop (hidden_seq events) ident (rev events)"

section \<open>The editable message\<close>

fun editable_loop :: "(int \<Rightarrow> bool) \<Rightarrow> event list \<Rightarrow> int option" where
  "editable_loop hidden [] = None"
| "editable_loop hidden (ev # evs) =
     (if ev_kind ev \<noteq> ''message.user'' \<or> hidden (ev_seq ev) then editable_loop hidden evs
      else if blank (text_field ev ''text'') then None
      else Some (ev_seq ev))"

definition editable_message :: "event list \<Rightarrow> int option" where
  "editable_message events = editable_loop (hidden_seq events) (rev events)"

fun turn_range_loop :: "int \<Rightarrow> event list \<Rightarrow> int \<Rightarrow> int \<Rightarrow> int \<times> int" where
  "turn_range_loop user [] start end_seq = (start, end_seq)"
| "turn_range_loop user (ev # evs) start end_seq =
     (if ev_seq ev = user \<and> ev_kind ev = ''message.user''
        then turn_range_loop user evs (ev_seq ev) (ev_seq ev)
      else if start = 0 then turn_range_loop user evs start end_seq
      else if ev_kind ev = ''message.user'' \<and> ev_seq ev \<noteq> user then (start, end_seq)
      else if ev_kind ev = ''turn.replaced'' then turn_range_loop user evs start end_seq
      else turn_range_loop user evs start (ev_seq ev))"

definition user_turn_range :: "event list \<Rightarrow> int \<Rightarrow> int \<times> int" where
  "user_turn_range events user = turn_range_loop user events 0 0"


section \<open>Turns and fork anchors\<close>

record fork_turn =
  ft_user :: "event option"
  ft_start :: "event option"
  ft_end :: "event option"
  ft_status :: string
  ft_turn_id :: string
  ft_assistant :: "event list"

definition new_turn :: fork_turn where
  "new_turn = \<lparr>ft_user = None, ft_start = None, ft_end = None, ft_status = ''running'',
     ft_turn_id = [], ft_assistant = []\<rparr>"

definition turn_id_of :: "event \<Rightarrow> string" where
  "turn_id_of ev = text_field ev ''turn_id''"

text \<open>The pointer \<open>current\<close> of the code always points to the last turn, if there is one.\<close>

definition update_last :: "('a \<Rightarrow> 'a) \<Rightarrow> 'a list \<Rightarrow> 'a list" where
  "update_last f xs = (if xs = [] then [] else butlast xs @ [f (last xs)])"

definition ensure_turn :: "event \<Rightarrow> fork_turn list \<Rightarrow> fork_turn list" where
  "ensure_turn seed turns =
     (let turns1 = (if turns = [] \<or> ft_end (last turns) \<noteq> None then turns @ [new_turn] else turns)
      in update_last (\<lambda>t. if ft_turn_id t = [] then t\<lparr>ft_turn_id := turn_id_of seed\<rparr> else t) turns1)"

definition take_turn_id :: "event \<Rightarrow> fork_turn \<Rightarrow> fork_turn" where
  "take_turn_id ev t = (if turn_id_of ev \<noteq> [] then t\<lparr>ft_turn_id := turn_id_of ev\<rparr> else t)"

definition fork_turn_step :: "event \<Rightarrow> fork_turn list \<Rightarrow> fork_turn list" where
  "fork_turn_step ev turns =
     (if ev_kind ev = ''message.user''
        then (if turns \<noteq> [] \<and> ft_end (last turns) = None \<and> ft_user (last turns) = None \<and>
                 ft_assistant (last turns) = []
              then update_last (\<lambda>t. t\<lparr>ft_user := Some ev\<rparr>) turns
              else turns @ [new_turn\<lparr>ft_user := Some ev\<rparr>])
      else if ev_kind ev = ''turn.started''
        then update_last (\<lambda>t. take_turn_id ev (t\<lparr>ft_start := Some ev, ft_status := ''running''\<rparr>))
               (ensure_turn ev turns)
      else if ev_kind ev = ''message.assistant'' \<or> ev_kind ev = ''message.delta''
        then update_last (\<lambda>t. t\<lparr>ft_assistant := ft_assistant t @ [ev]\<rparr>) (ensure_turn ev turns)
      else if turn_end_kind (ev_kind ev)
        then update_last (\<lambda>t. take_turn_id ev (t\<lparr>ft_end := Some ev,
                 ft_status := (if ev_kind ev = ''turn.completed'' then ''completed''
                   else if ev_kind ev = ''turn.failed'' then ''failed'' else ''cancelled'')\<rparr>))
               (ensure_turn ev turns)
      else turns)"

definition fork_turns :: "event list \<Rightarrow> fork_turn list" where
  "fork_turns events = fold fork_turn_step events []"

text \<open>The turn and event a fork request names: the first assistant event with its number.\<close>

fun find_target :: "int \<Rightarrow> nat \<Rightarrow> fork_turn list \<Rightarrow> (nat \<times> event) option" where
  "find_target seq i [] = None"
| "find_target seq i (t # ts) =
     (case find (\<lambda>ev. ev_seq ev = seq) (ft_assistant t) of
        Some ev \<Rightarrow> Some (i, ev)
      | None \<Rightarrow> find_target seq (Suc i) ts)"

definition last_assistant :: "event list \<Rightarrow> event option" where
  "last_assistant events = find (\<lambda>ev. ev_kind ev = ''message.assistant'') (rev events)"

definition native_message_uuid :: "event \<Rightarrow> string" where
  "native_message_uuid ev =
     (if text_field ev ''native_message_uuid'' \<noteq> [] then text_field ev ''native_message_uuid''
      else string_value (field (map_value (ev_raw ev)) ''uuid''))"

definition later_completed_turns :: "fork_turn list \<Rightarrow> nat \<Rightarrow> nat" where
  "later_completed_turns turns i =
     length (filter (\<lambda>t. ft_user t \<noteq> None \<and> ft_end t \<noteq> None) (drop (Suc i) turns))"

record fork_anchor =
  fa_event_seq :: int
  fa_turn_end_seq :: int
  fa_native_anchor :: string
  fa_source_title :: string
  fa_rollback_turns :: nat

definition native_anchor :: "string \<Rightarrow> event \<Rightarrow> fork_turn list \<Rightarrow> nat \<Rightarrow> string + (string \<times> nat)" where
  "native_anchor agent target turns i =
     (if agent = ''claude''
        then (if native_message_uuid target = [] then Inl ''claude fork target is missing native message uuid''
              else Inr (native_message_uuid target, 0))
      else if agent = ''codex''
        then (if ft_turn_id (turns ! i) = [] then Inl ''codex fork target is missing native turn id''
              else Inr (ft_turn_id (turns ! i), later_completed_turns turns i))
      else Inl ''agent does not support session fork'')"

text \<open>\<open>ResolveForkAnchor\<close> for the session \<open>sid\<close> with its stored status and title.\<close>

definition resolve_fork_anchor ::
  "string \<Rightarrow> string \<Rightarrow> string \<Rightarrow> string \<Rightarrow> string \<Rightarrow> event list \<Rightarrow> int \<Rightarrow> string + fork_anchor" where
  "resolve_fork_anchor sid agent status store_title title events seq =
     (if seq \<le> 0 then Inl ''event_seq is required''
      else (let st = projected_status status events (has_pending_interaction events) in
        if st = ''running'' \<or> st = ''requires_action''
          then Inl (''cannot fork while source session is '' @ st)
        else (let turns = fork_turns events in
          case find_target seq 0 turns of
            None \<Rightarrow> Inl ''fork target must be an assistant reply in the source session''
          | Some (i, target) \<Rightarrow>
              if ev_session target \<noteq> sid
                then Inl ''fork target must belong to the source session''
              else if ev_kind target \<noteq> ''message.assistant''
                then Inl ''fork target must be a completed assistant reply''
              else (case (ft_status (turns ! i) = ''completed'', ft_end (turns ! i)) of
                  (True, Some end_ev) \<Rightarrow>
                    (case last_assistant (ft_assistant (turns ! i)) of
                       None \<Rightarrow> Inl ''fork target must be the final assistant reply of its completed turn''
                     | Some final \<Rightarrow>
                         if ev_seq final \<noteq> seq
                           then Inl ''fork target must be the final assistant reply of its completed turn''
                         else (case native_anchor agent target turns i of
                             Inl e \<Rightarrow> Inl e
                           | Inr (anchor, rollback) \<Rightarrow>
                               Inr \<lparr>fa_event_seq = seq, fa_turn_end_seq = ev_seq end_ev,
                                 fa_native_anchor = anchor,
                                 fa_source_title = first_string [AnyString store_title, AnyString title],
                                 fa_rollback_turns = rollback\<rparr>))
                | _ \<Rightarrow> Inl ''fork target turn must be completed''))))"

section \<open>Answers to interactions\<close>

definition decision_of :: "(string \<times> go_any) list \<Rightarrow> string" where
  "decision_of response = first_string [field response ''decision'', field response ''action'']"

definition is_cancel_response :: "(string \<times> go_any) list \<Rightarrow> bool" where
  "is_cancel_response response \<longleftrightarrow> decision_of response = ''cancel'' \<or> decision_of response = ''abort'' \<or>
     bool_value (field response ''cancel'')"

definition is_decline_response :: "(string \<times> go_any) list \<Rightarrow> bool" where
  "is_decline_response response \<longleftrightarrow>
     decision_of response \<in> set [''reject'', ''decline'', ''deny'', ''cancel'', ''refuse'']"

definition answers_of :: "go_any list \<Rightarrow> go_any" where
  "answers_of items = AnyMap [(''answers'', AnyList items)]"

fun client_answer :: "string \<times> go_any \<Rightarrow> (string \<times> go_any) option" where
  "client_answer (ident, AnyList items) = Some (ident, answers_of items)"
| "client_answer (ident, AnyString s) =
     (if blank s then None else Some (ident, answers_of [AnyString (trim_space s)]))"
| "client_answer (ident, v) = Some (ident, v)"

definition client_answers_payload :: "(string \<times> go_any) list \<Rightarrow> (string \<times> go_any) list" where
  "client_answers_payload req =
     (let out = List.map_filter client_answer (map_value (field req ''answers''));
          text = trim_space (string_value (field req ''text''))
      in if out = [] \<and> text \<noteq> [] then [(''question_0'', answers_of [AnyString text])] else out)"

fun decision_loop :: "string \<Rightarrow> go_any list \<Rightarrow> go_any" where
  "decision_loop action [] = AnyString action"
| "decision_loop action (item # items) =
     (if string_value item = action then AnyString action
      else (case map_value item of
          [(k, v)] \<Rightarrow> if k = action then AnyMap [(k, v)] else decision_loop action items
        | _ \<Rightarrow> decision_loop action items))"

definition client_decision_payload :: "go_any \<Rightarrow> string \<Rightarrow> go_any" where
  "client_decision_payload available action =
     (case available of AnyList items \<Rightarrow> decision_loop action items | _ \<Rightarrow> AnyString action)"

definition elicitation_kind :: string where
  "elicitation_kind = ''mcpServer/elicitation/request''"

definition elicitation_response ::
  "string \<Rightarrow> (string \<times> go_any) list \<Rightarrow> (string \<times> go_any) list \<Rightarrow> (string \<times> go_any) list" where
  "elicitation_response action params req =
     (if action = ''accept''
        then [(''action'', AnyString ''accept''),
              (''content'', if string_value (field params ''mode'') = ''url'' \<or> string_value (field params ''url'') \<noteq> []
                 then AnyMap [] else first_non_nil [field req ''content'', AnyMap []]),
              (''_meta'', field params ''_meta'')]
      else if action = ''decline'' \<or> action = ''cancel''
        then [(''action'', AnyString action), (''content'', AnyNil), (''_meta'', field params ''_meta'')]
      else req)"

definition client_action_response :: "event \<Rightarrow> (string \<times> go_any) list \<Rightarrow> (string \<times> go_any) list" where
  "client_action_response origin req =
     (let action = first_string [field req ''action_id'', field req ''action'']; value = ev_normalized origin in
      if action = [] then req
      else if ev_kind origin = ''ask.requested''
        then (if string_value (field value ''kind'') = elicitation_kind
              then elicitation_response action (map_value (field value ''params'')) req
              else if action = ''submit'' then [(''answers'', AnyMap (client_answers_payload req))]
              else if action = ''skip'' then [(''answers'', AnyMap [])]
              else if action = ''cancel'' then [(''action'', AnyString ''cancel''), (''cancel'', AnyBool True)]
              else req)
      else if action = ''cancel'' then [(''decision'', AnyString ''cancel''), (''cancel'', AnyBool True)]
      else (let feedback = trim_space (string_value (field req ''feedback''));
                decision = (''decision'', client_decision_payload
                  (first_non_nil [field value ''available_decisions'', field value ''availableDecisions'']) action)
            in if feedback \<noteq> [] then [decision, (''feedback'', AnyString feedback)] else [decision]))"

text \<open>The rule given to Claude Code: the command with backslash and parentheses escaped.\<close>

fun escape_rule :: "string \<Rightarrow> string" where
  "escape_rule [] = []"
| "escape_rule (c # s) =
     (if c = CHR 0x5C \<or> c = CHR ''('' \<or> c = CHR '')'' then CHR 0x5C # c # escape_rule s
      else c # escape_rule s)"

definition claude_permission_rule :: "string \<Rightarrow> string \<Rightarrow> string" where
  "claude_permission_rule tool content = tool @ ''('' @ escape_rule content @ '')''"

definition claude_allowed_tools :: "event \<Rightarrow> (string \<times> go_any) list \<Rightarrow> string \<Rightarrow> string list" where
  "claude_allowed_tools origin response target =
     (let value = ev_normalized origin;
          tool = first_string [field value ''tool_name'', AnyString ''Bash''];
          command = trim_space (string_value (field value ''command''))
      in if is_decline_response response then []
         else if string_value (field value ''kind'') \<noteq> ''permission'' then []
         else if tool \<noteq> ''Bash'' then (if tool = ''WebSearch'' \<or> tool = ''Edit'' then [tool] else [])
         else if target = ''ssh'' then []
         else if command = [] then []
         else [claude_permission_rule ''Bash'' command])"

definition lf :: string where
  "lf = [CHR 0x0A]"

definition plan_feedback :: "(string \<times> go_any) list \<Rightarrow> string" where
  "plan_feedback response =
     (let feedback = trim_space (first_string [field response ''feedback''])
      in if feedback \<noteq> [] then ''Plan not approved. Revise it using this feedback:'' @ lf @ feedback
         else ''Plan not approved. Revise the plan or ask what should change.'')"

definition claude_followup_text ::
  "((string \<times> go_any) list \<Rightarrow> string) \<Rightarrow> event \<Rightarrow> (string \<times> go_any) list \<Rightarrow> string" where
  "claude_followup_text preview origin response =
     (let value = ev_normalized origin; kind = string_value (field value ''kind'');
          decision0 = decision_of response;
          decision = (if decision0 = [] then ''responded'' else decision0)
      in if ev_kind origin = ''ask.requested''
           then ''Answer to the previous question:'' @ lf @ preview response
         else if kind = ''plan''
           then (if decision = ''accept'' then ''Plan approved. Continue from the approved plan.''
                 else plan_feedback response)
         else if kind = ''permission''
           then (let tail = lf @ lf @ ''Tool: '' @ string_value (field value ''tool_name'') @ lf @ ''Parameters:'' @ lf
                        @ preview (map_value (field value ''params''))
                 in if decision = ''accept'' \<or> decision = ''acceptForSession''
                    then ''The previous Claude Code tool request was approved. Retry it if it is still needed.'' @ tail
                    else ''The previous Claude Code tool request was declined. Continue without that tool or ask for an alternative.'' @ tail)
         else ''Response to the previous Claude Code request:'' @ lf @ preview response)"

definition text_replied :: string where
  "text_replied = utf8 [229, 183, 178, 229, 155, 158, 229, 164, 141, 233, 151, 174, 233, 162, 152]"

definition text_plan_approved :: string where
  "text_plan_approved = utf8 [232, 174, 161, 229, 136, 146, 229, 183, 178, 230, 137, 185, 229, 135, 134]"

definition text_plan_rejected :: string where
  "text_plan_rejected = utf8 [232, 174, 161, 229, 136, 146, 230, 156, 170, 230, 137, 185, 229, 135, 134]"

definition text_permission_granted :: string where
  "text_permission_granted = utf8 [230, 157, 131, 233, 153, 144, 229, 183, 178, 229, 133, 129, 232, 174, 184]"

definition text_permission_denied :: string where
  "text_permission_denied = utf8 [230, 157, 131, 233, 153, 144, 229, 183, 178, 230, 139, 146, 231, 187, 157]"

definition text_responded :: string where
  "text_responded = utf8 [229, 183, 178, 229, 147, 141, 229, 186, 148, 232, 175, 183, 230, 177, 130]"

definition claude_display_text :: "event \<Rightarrow> (string \<times> go_any) list \<Rightarrow> string" where
  "claude_display_text origin response =
     (let kind = text_field origin ''kind''; decision = decision_of response
      in if ev_kind origin = ''ask.requested'' then text_replied
         else if kind = ''plan'' then (if decision = ''accept'' then text_plan_approved else text_plan_rejected)
         else if kind = ''permission''
           then (if decision = ''accept'' \<or> decision = ''acceptForSession'' then text_permission_granted else text_permission_denied)
         else text_responded)"

definition codex_plan_followup_text :: "(string \<times> go_any) list \<Rightarrow> string" where
  "codex_plan_followup_text response =
     (if decision_of response = ''accept''
      then ''Plan approved. Continue from the approved plan and implement it.''
      else plan_feedback response)"

definition plan_display_text :: "(string \<times> go_any) list \<Rightarrow> string" where
  "plan_display_text response = (if decision_of response = ''accept'' then text_plan_approved else text_plan_rejected)"

definition is_plan_approval :: "event \<Rightarrow> bool" where
  "is_plan_approval ev \<longleftrightarrow> ev_kind ev = ''approval.requested'' \<and> text_field ev ''kind'' = ''plan''"

text \<open>The event \<open>interactionRespondedEvent\<close> builds; the store gives it its number and time.\<close>

definition responded_event :: "string \<Rightarrow> event \<Rightarrow> (string \<times> go_any) list \<Rightarrow> event" where
  "responded_event ident origin req =
     (let ev = \<lparr>ev_seq = 0, ev_ts = [], ev_workspace = ev_workspace origin, ev_session = ev_session origin,
           ev_agent = ev_agent origin, ev_kind = ''approval.responded'',
           ev_normalized = [(''approval_id'', AnyString ident), (''response'', AnyMap req)], ev_raw = AnyNil\<rparr>
      in if ev_kind origin = ''ask.requested''
         then ev\<lparr>ev_kind := ''ask.resolved'', ev_normalized := [(''ask_id'', AnyString ident),
                (''request_id'', AnyString ident), (''response'', AnyMap req)]\<rparr>
         else ev)"


text \<open>The transcript a fork may show: \<open>cloneJSONValue\<close> copies JSON values unchanged.\<close>

definition is_safe_fork_event :: "event \<Rightarrow> bool" where
  "is_safe_fork_event ev \<longleftrightarrow> takeWhile (\<lambda>c. c \<noteq> CHR ''.'') (ev_kind ev) \<notin>
     set [''session'', ''approval'', ''ask'', ''queue'', ''workspace'', ''control'']"

definition fork_event :: "string \<Rightarrow> string \<Rightarrow> string \<Rightarrow> event \<Rightarrow> event" where
  "fork_event workspace session agent ev =
     (let marked = AList.update ''source_seq'' (AnyNumber (ev_seq ev))
            (AList.update ''source_session_id'' (AnyString (ev_session ev))
              (AList.update ''fork_projection'' (AnyBool True) (ev_normalized ev)));
          vals = (if turn_end_kind (ev_kind ev) then AList.update ''suppress_notification'' (AnyBool True) marked else marked)
      in \<lparr>ev_seq = 0, ev_ts = [], ev_workspace = workspace, ev_session = session, ev_agent = agent,
          ev_kind = ev_kind ev, ev_normalized = vals, ev_raw = ev_raw ev\<rparr>)"

definition safe_fork_events :: "event list \<Rightarrow> int \<Rightarrow> string \<Rightarrow> string \<Rightarrow> string \<Rightarrow> event list" where
  "safe_fork_events events end_seq workspace session agent =
     map (fork_event workspace session agent)
       (filter is_safe_fork_event (takeWhile (\<lambda>ev. ev_seq ev \<le> end_seq) events))"

text \<open>The event \<open>EditLastUserMessage\<close> emits for the replaced turn.\<close>

definition replaced_event :: "string \<Rightarrow> string \<Rightarrow> string \<Rightarrow> int \<Rightarrow> int \<times> int \<Rightarrow> event" where
  "replaced_event workspace session agent user bounds =
     \<lparr>ev_seq = 0, ev_ts = [], ev_workspace = workspace, ev_session = session, ev_agent = agent,
      ev_kind = ''turn.replaced'',
      ev_normalized = [(''source'', AnyString ''astralops''), (''user_event_seq'', AnyNumber user),
        (''start_seq'', AnyNumber (fst bounds)), (''end_seq'', AnyNumber (snd bounds)), (''hidden'', AnyBool True)],
      ev_raw = AnyNil\<rparr>"

section \<open>Hidden events and answered interactions\<close>

lemma hidden_seq_snoc:
  "hidden_seq (events @ [r]) seq \<longleftrightarrow> hidden_seq events seq \<or>
     (case replaced_range r of None \<Rightarrow> False | Some (s, e) \<Rightarrow> s \<le> seq \<and> seq \<le> e)"
  by (simp add: hidden_seq_def)

lemma hidden_seq_other [simp]:
  "ev_kind r \<noteq> ''turn.replaced'' \<Longrightarrow> hidden_seq (events @ [r]) = hidden_seq events"
  by (simp add: fun_eq_iff hidden_seq_snoc replaced_range_def)

lemma replaced_range_event:
  "replaced_range (replaced_event ws s ag user bounds\<lparr>ev_seq := n, ev_ts := ts\<rparr>) =
     (if fst bounds \<le> 0 \<or> snd bounds < fst bounds then None else Some bounds)"
  by (simp add: replaced_range_def replaced_event_def field_def)

lemma superseded_other:
  assumes "ev_kind r \<noteq> ''message.user''" "ev_kind r \<noteq> ''turn.started''" "ev_kind r \<noteq> ''ask.requested''"
    "\<not> turn_end_kind (ev_kind r)"
  shows "superseded_asks (events @ [r]) = superseded_asks events"
  using assms by (simp add: superseded_asks_def scan_turn_start_def scan_ask_def scan_turn_end_def)

lemma responded_kind: "ev_kind (responded_event ident origin req) =
    (if ev_kind origin = ''ask.requested'' then ''ask.resolved'' else ''approval.responded'')"
  by (simp add: responded_event_def Let_def)

lemma responded_ids:
  "ident \<noteq> [] \<Longrightarrow> set (interaction_ids (ev_normalized (responded_event ident origin req))) = {ident}"
  by (auto simp: responded_event_def Let_def interaction_ids_def field_def)

lemma responded_matches: "response_matches (responded_event ident origin req) ident"
  by (simp add: responded_event_def response_matches_def text_field_def field_def Let_def)

lemma response_matches_stamp [simp]:
  "response_matches (ev\<lparr>ev_seq := n, ev_ts := ts\<rparr>) ident = response_matches ev ident"
  by (simp add: response_matches_def text_field_def)

lemma resolved_snoc:
  assumes "ident \<noteq> []"
  shows "set (resolved_interactions (events @ [responded_event ident origin req\<lparr>ev_seq := n, ev_ts := ts\<rparr>])) =
    insert ident (set (resolved_interactions events))"
  using assms by (auto simp: resolved_interactions_def superseded_other responded_kind responded_ids
      turn_end_kind_def resolution_kind_def)

lemma any_resolved_iff: "any_resolved ids resolved \<longleftrightarrow> set ids \<inter> set resolved \<noteq> {}"
  by (auto simp: any_resolved_def list_ex_iff)

text \<open>
  Once the event of an answer is in the log, the answered interaction is stale and no longer
  pending under any of its ids, and the answer settles no other request.
\<close>

theorem answer_settles_exactly:
  assumes "ident \<noteq> []" and "r = responded_event ident origin req\<lparr>ev_seq := n, ev_ts := ts\<rparr>"
  shows "find_pending (events @ [r]) ident = Stale \<and>
    pending_request (events @ [r]) ev =
      (pending_request events ev \<and> ident \<notin> set (interaction_ids (ev_normalized ev)))"
proof -
  have "response_matches r ident" using assms by (simp add: responded_matches)
  hence "find_pending (events @ [r]) ident = Stale" by (simp add: find_pending_def)
  moreover have "ev_kind r \<noteq> ''turn.replaced''" using assms by (simp add: responded_kind)
  ultimately show ?thesis
    using assms resolved_snoc[OF assms(1)]
    by (auto simp: pending_request_def any_resolved_iff)
qed

section \<open>The range of a turn\<close>

definition seq_sorted :: "event list \<Rightarrow> bool" where
  "seq_sorted events = sorted_wrt (<) (map ev_seq events)"

lemma turn_range_before:
  "\<lbrakk>\<And>ev. ev \<in> set pre \<Longrightarrow> ev_seq ev \<noteq> user\<rbrakk> \<Longrightarrow>
     turn_range_loop user (pre @ rest) 0 0 = turn_range_loop user rest 0 0"
  by (induction pre) auto

lemma turn_range_stops:
  "\<lbrakk>start \<noteq> 0; rest = [] \<or> (ev_kind (hd rest) = ''message.user'' \<and> ev_seq (hd rest) \<noteq> user)\<rbrakk> \<Longrightarrow>
     turn_range_loop user rest start e = (start, e)"
  by (cases rest) auto

lemma turn_range_mid:
  assumes "start \<noteq> 0" "\<And>ev. ev \<in> set mid \<Longrightarrow> ev_kind ev \<noteq> ''message.user''"
    "rest = [] \<or> (ev_kind (hd rest) = ''message.user'' \<and> ev_seq (hd rest) \<noteq> user)"
  shows "turn_range_loop user (mid @ rest) start e =
    (start, last (e # map ev_seq (filter (\<lambda>ev. ev_kind ev \<noteq> ''turn.replaced'') mid)))"
  using assms
proof (induction mid arbitrary: e)
  case Nil
  thus ?case using turn_range_stops[OF assms(1) assms(3)] by simp
next
  case (Cons ev mid)
  have "ev_kind ev \<noteq> ''message.user''" using Cons.prems by simp
  thus ?case using Cons.IH[of "ev_seq ev"] Cons.IH[of e] Cons.prems by simp
qed

lemma user_turn_range_eq:
  assumes "seq_sorted (pre @ u # mid @ rest)" "0 < ev_seq u" "ev_kind u = ''message.user''"
    "\<And>ev. ev \<in> set mid \<Longrightarrow> ev_kind ev \<noteq> ''message.user''"
    "rest = [] \<or> ev_kind (hd rest) = ''message.user''"
  shows "user_turn_range (pre @ u # mid @ rest) (ev_seq u) =
    (ev_seq u, last (ev_seq u # map ev_seq (filter (\<lambda>ev. ev_kind ev \<noteq> ''turn.replaced'') mid)))"
proof -
  have "ev_seq ev \<noteq> ev_seq u" if "ev \<in> set pre" for ev
    using assms(1) that by (auto simp: seq_sorted_def sorted_wrt_append)
  moreover have "rest = [] \<or> (ev_kind (hd rest) = ''message.user'' \<and> ev_seq (hd rest) \<noteq> ev_seq u)"
    using assms(1,5) by (cases rest) (auto simp: seq_sorted_def sorted_wrt_append)
  ultimately show ?thesis
    unfolding user_turn_range_def
    using assms turn_range_before[of pre "ev_seq u"] turn_range_mid[of "ev_seq u" mid rest "ev_seq u"] by simp
qed

lemma sorted_last_bounds:
  assumes "sorted_wrt (<) (x # ys)" "y \<in> set (x # ys)"
  shows "x \<le> last (x # ys)" "(y::int) \<le> last (x # ys)"
  using assms by (induction ys arbitrary: x y) (force split: if_splits)+

lemma editable_visible: "editable_loop hidden events = Some seq \<Longrightarrow> \<not> hidden seq"
  by (induction events) (auto split: if_splits)

text \<open>
  Editing the user message of a turn hides that message and every event up to the next user
  message, hides nothing before or after it, and takes the message out of the editable ones.
\<close>

theorem edit_hides_turn:
  assumes sorted: "seq_sorted events" and events: "events = pre @ u # mid @ rest"
    and pos: "0 < ev_seq u" and u: "ev_kind u = ''message.user''"
    and mid: "list_all (\<lambda>ev. ev_kind ev \<noteq> ''message.user'') mid"
    and rest: "rest = [] \<or> ev_kind (hd rest) = ''message.user''"
    and r: "r = replaced_event ws s ag (ev_seq u) (user_turn_range events (ev_seq u))\<lparr>ev_seq := n, ev_ts := ts\<rparr>"
  shows "list_all (\<lambda>ev. ev_kind ev = ''turn.replaced'' \<or> hidden_seq (events @ [r]) (ev_seq ev)) (u # mid) \<and>
    list_all (\<lambda>ev. hidden_seq (events @ [r]) (ev_seq ev) = hidden_seq events (ev_seq ev)) (pre @ rest) \<and>
    editable_message (events @ [r]) \<noteq> Some (ev_seq u)"
proof -
  let ?kept = "filter (\<lambda>ev. ev_kind ev \<noteq> ''turn.replaced'') mid"
  define b where "b = last (ev_seq u # map ev_seq ?kept)"
  have rng: "user_turn_range events (ev_seq u) = (ev_seq u, b)"
    unfolding events b_def
    by (rule user_turn_range_eq) (use sorted mid rest pos u in \<open>auto simp: events list_all_iff\<close>)
  have mids: "sorted_wrt (<) (ev_seq u # map ev_seq mid)"
    using sorted by (simp add: events seq_sorted_def sorted_wrt_append)
  hence kept: "sorted_wrt (<) (ev_seq u # map ev_seq ?kept)"
    by (auto simp: sorted_wrt_map sorted_wrt_filter)
  have below: "ev_seq ev \<le> b" if "ev \<in> set (u # ?kept)" for ev
    unfolding b_def using sorted_last_bounds(2)[OF kept] that by auto
  have ub: "ev_seq u \<le> b" using below[of u] by simp
  have hidden: "hidden_seq (events @ [r]) q \<longleftrightarrow> hidden_seq events q \<or> (ev_seq u \<le> q \<and> q \<le> b)" for q
    using ub pos by (simp add: r rng hidden_seq_snoc replaced_range_event)
  have "b \<in> ev_seq ` set (u # mid)"
    using last_in_set[of "ev_seq u # map ev_seq ?kept"] by (auto simp: b_def split: if_splits)
  hence "b < ev_seq ev" if "ev \<in> set rest" for ev
    using sorted that by (auto simp: events seq_sorted_def sorted_wrt_append)
  moreover have "ev_seq ev < ev_seq u" if "ev \<in> set pre" for ev
    using sorted that by (auto simp: events seq_sorted_def sorted_wrt_append)
  ultimately have outer: "list_all (\<lambda>ev. hidden_seq (events @ [r]) (ev_seq ev) = hidden_seq events (ev_seq ev)) (pre @ rest)"
    by (fastforce simp: list_all_iff hidden)
  have inner: "list_all (\<lambda>ev. ev_kind ev = ''turn.replaced'' \<or> hidden_seq (events @ [r]) (ev_seq ev)) (u # mid)"
    using below mids by (auto simp: list_all_iff hidden intro: less_imp_le)
  have "hidden_seq (events @ [r]) (ev_seq u)" using ub by (simp add: hidden)
  hence "editable_message (events @ [r]) \<noteq> Some (ev_seq u)"
    by (auto simp: editable_message_def dest: editable_visible)
  thus ?thesis using inner outer by blast
qed

section \<open>Fork anchors\<close>

text \<open>What holds of every turn that \<open>forkTurnsFromEvents\<close> has built from a log.\<close>

definition turn_ok :: "event list \<Rightarrow> fork_turn \<Rightarrow> bool" where
  "turn_ok events t \<longleftrightarrow>
     set (ft_assistant t) \<subseteq> set events \<and>
     (case ft_end t of
        None \<Rightarrow> ft_status t = ''running''
      | Some e \<Rightarrow> e \<in> set events \<and> turn_end_kind (ev_kind e) \<and>
          (ft_status t = ''completed'' \<longleftrightarrow> ev_kind e = ''turn.completed'') \<and>
          list_all (\<lambda>a. ev_seq a < ev_seq e) (ft_assistant t))"

lemma turn_ok_mono: "turn_ok events t \<Longrightarrow> turn_ok (events @ [ev]) t"
  by (auto simp: turn_ok_def split: option.splits)

lemma turn_ok_id [simp]: "turn_ok events (t\<lparr>ft_turn_id := i\<rparr>) = turn_ok events t"
  by (simp add: turn_ok_def cong: option.case_cong)

lemma turn_ok_new: "turn_ok events new_turn" "turn_ok events (new_turn\<lparr>ft_user := Some ev\<rparr>)"
  by (auto simp: turn_ok_def new_turn_def)

lemma list_all_update_last:
  "list_all P xs \<Longrightarrow> (xs \<noteq> [] \<Longrightarrow> P (last xs) \<Longrightarrow> P (f (last xs))) \<Longrightarrow> list_all P (update_last f xs)"
  by (auto simp: update_last_def list_all_iff dest: in_set_butlastD)

lemma ensure_turn_ok:
  assumes "list_all (turn_ok events) turns"
  shows "list_all (turn_ok events) (ensure_turn ev turns)" and "ensure_turn ev turns \<noteq> []"
    and "ft_end (last (ensure_turn ev turns)) = None"
proof -
  let ?t1 = "if turns = [] \<or> ft_end (last turns) \<noteq> None then turns @ [new_turn] else turns"
  have t1: "list_all (turn_ok events) ?t1" using assms turn_ok_new by auto
  show "list_all (turn_ok events) (ensure_turn ev turns)"
    unfolding ensure_turn_def Let_def
    by (rule list_all_update_last[OF t1]) simp
  show "ensure_turn ev turns \<noteq> []" by (auto simp: ensure_turn_def Let_def update_last_def)
  show "ft_end (last (ensure_turn ev turns)) = None"
    by (auto simp: ensure_turn_def Let_def update_last_def new_turn_def)
qed

lemma take_turn_id_fields [simp]:
  "ft_status (take_turn_id ev t) = ft_status t" "ft_end (take_turn_id ev t) = ft_end t"
  "ft_assistant (take_turn_id ev t) = ft_assistant t"
  by (simp_all add: take_turn_id_def)

lemma fork_turn_step_ok:
  assumes ok: "list_all (turn_ok events) turns" and later: "\<And>a. a \<in> set events \<Longrightarrow> ev_seq a < ev_seq ev"
  shows "list_all (turn_ok (events @ [ev])) (fork_turn_step ev turns)"
proof -
  let ?P = "turn_ok (events @ [ev])" and ?l = "last (ensure_turn ev turns)"
  have mono: "list_all ?P ts" if "list_all (turn_ok events) ts" for ts
    using that by (auto simp: list_all_iff intro: turn_ok_mono)
  note ens = ensure_turn_ok[OF ok, of ev]
  have upd: "list_all ?P (update_last f (ensure_turn ev turns))" if "?P (f ?l)" for f
    using list_all_update_last[OF mono[OF ens(1)]] that by blast
  have "turn_ok events ?l" using ens by (auto simp: list_all_iff)
  hence l: "ft_status ?l = ''running''" "set (ft_assistant ?l) \<subseteq> set events"
    and seqs: "list_all (\<lambda>a. ev_seq a < ev_seq ev) (ft_assistant ?l)"
    using ens(3) later by (auto simp: turn_ok_def list_all_iff)
  consider (user) "ev_kind ev = ''message.user''" | (start) "ev_kind ev = ''turn.started''"
    | (reply) "ev_kind ev = ''message.assistant'' \<or> ev_kind ev = ''message.delta''"
    | (last) "turn_end_kind (ev_kind ev)"
    | (other) "ev_kind ev \<noteq> ''message.user''" "ev_kind ev \<noteq> ''turn.started''" "ev_kind ev \<noteq> ''message.assistant''"
        "ev_kind ev \<noteq> ''message.delta''" "\<not> turn_end_kind (ev_kind ev)"
    by blast
  thus ?thesis
  proof cases
    case user
    have "list_all ?P (update_last (\<lambda>t. t\<lparr>ft_user := Some ev\<rparr>) turns)"
      by (rule list_all_update_last[OF mono[OF ok]]) (simp add: turn_ok_def cong: option.case_cong)
    thus ?thesis using mono[OF ok] turn_ok_new by (simp add: user fork_turn_step_def)
  next
    case start
    thus ?thesis using l ens(3) by (auto simp: fork_turn_step_def turn_ok_def intro!: upd)
  next
    case reply
    have "list_all ?P (update_last (\<lambda>t. t\<lparr>ft_assistant := ft_assistant t @ [ev]\<rparr>) (ensure_turn ev turns))"
      by (rule upd) (use l ens(3) in \<open>auto simp: turn_ok_def\<close>)
    moreover have "ev_kind ev \<noteq> ''message.user''" "ev_kind ev \<noteq> ''turn.started''" using reply by auto
    ultimately show ?thesis using reply by (simp add: fork_turn_step_def)
  next
    case last
    have "list_all ?P (update_last (\<lambda>t. take_turn_id ev (t\<lparr>ft_end := Some ev,
        ft_status := (if ev_kind ev = ''turn.completed'' then ''completed''
          else if ev_kind ev = ''turn.failed'' then ''failed'' else ''cancelled'')\<rparr>)) (ensure_turn ev turns))"
      by (rule upd) (use l seqs last in \<open>auto simp: turn_ok_def\<close>)
    moreover have "ev_kind ev \<notin> {''message.user'', ''turn.started'', ''message.assistant'', ''message.delta''}"
      using last by (auto simp: turn_end_kind_def)
    ultimately show ?thesis using last by (simp add: fork_turn_step_def)
  next
    case other
    thus ?thesis using mono[OF ok] by (simp add: fork_turn_step_def)
  qed
qed

lemma fork_turns_ok:
  "seq_sorted events \<Longrightarrow> list_all (turn_ok events) (fork_turns events)"
proof (induction events rule: rev_induct)
  case (snoc ev events)
  have "list_all (turn_ok events) (fork_turns events)"
    using snoc by (simp add: seq_sorted_def sorted_wrt_append)
  moreover have "ev_seq a < ev_seq ev" if "a \<in> set events" for a
    using snoc.prems that by (simp add: seq_sorted_def sorted_wrt_append)
  ultimately show ?case by (simp add: fork_turns_def fork_turn_step_ok)
qed (simp add: fork_turns_def)

lemma find_target_Some:
  "find_target seq i turns = Some (j, ev) \<Longrightarrow>
     i \<le> j \<and> j - i < length turns \<and> ev \<in> set (ft_assistant (turns ! (j - i))) \<and> ev_seq ev = seq"
proof (induction seq i turns rule: find_target.induct)
  case (2 seq i t ts)
  show ?case
  proof (cases "find (\<lambda>ev. ev_seq ev = seq) (ft_assistant t)")
    case None
    thus ?thesis using 2 by (auto simp: nth_Cons' Suc_diff_le)
  next
    case (Some a)
    thus ?thesis using 2(2) find_SomeD[OF Some] by auto
  qed
qed simp

text \<open>
  An anchor \<open>ResolveForkAnchor\<close> returns names an assistant message of that very session and a
  later \<open>turn.completed\<close> event of the log, and the session was neither running nor waiting.
\<close>

theorem fork_anchor_sound:
  assumes "seq_sorted events"
    and "resolve_fork_anchor sid agent status store_title title events seq = Inr a"
  shows "(\<exists>target \<in> set events. \<exists>final \<in> set events.
      ev_seq target = seq \<and> ev_session target = sid \<and> ev_kind target = ''message.assistant'' \<and>
      ev_kind final = ''turn.completed'' \<and> ev_seq final = fa_turn_end_seq a \<and> seq < fa_turn_end_seq a) \<and>
    fa_event_seq a = seq \<and> 0 < seq \<and> fa_native_anchor a \<noteq> [] \<and>
    projected_status status events (has_pending_interaction events) \<notin> {''running'', ''requires_action''}"
proof -
  obtain i target final where found: "find_target seq 0 (fork_turns events) = Some (i, target)"
    and t: "ev_session target = sid" "ev_kind target = ''message.assistant''"
    and fin: "ft_status (fork_turns events ! i) = ''completed''" "ft_end (fork_turns events ! i) = Some final"
    and a: "fa_event_seq a = seq" "fa_turn_end_seq a = ev_seq final" "0 < seq" "fa_native_anchor a \<noteq> []"
      "projected_status status events (has_pending_interaction events) \<notin> {''running'', ''requires_action''}"
    using assms(2)
    by (auto simp: resolve_fork_anchor_def Let_def native_anchor_def split: option.splits if_splits bool.splits sum.splits)
  have "i < length (fork_turns events)" and target: "target \<in> set (ft_assistant (fork_turns events ! i))"
    "ev_seq target = seq" using find_target_Some[OF found] by auto
  hence "turn_ok events (fork_turns events ! i)" using fork_turns_ok[OF assms(1)] by (simp add: list_all_length)
  hence "target \<in> set events" "final \<in> set events" "ev_kind final = ''turn.completed''" "ev_seq target < ev_seq final"
    using target fin by (auto simp: turn_ok_def list_all_iff)
  thus ?thesis using t a target by auto
qed

section \<open>Rules and decisions\<close>

text \<open>
  How a permission rule \<open>Tool(content)\<close> is read: a backslash takes the next character literally,
  the first other closing parenthesis ends the content.
\<close>

fun rule_content :: "string \<Rightarrow> (string \<times> string) option" where
  "rule_content [] = None"
| "rule_content [c] = (if c = CHR '')'' then Some ([], []) else None)"
| "rule_content (c # d # s) =
     (if c = CHR '')'' then Some ([], d # s)
      else if c = CHR 0x5C then map_option (apfst ((#) d)) (rule_content s)
      else map_option (apfst ((#) c)) (rule_content (d # s)))"

lemma rule_content_plain:
  "c \<noteq> CHR '')'' \<Longrightarrow> c \<noteq> CHR 0x5C \<Longrightarrow> rule_content (c # s) = map_option (apfst ((#) c)) (rule_content s)"
  by (cases s) auto

lemma rule_content_escape: "rule_content (escape_rule content @ CHR '')'' # rest) = Some (content, rest)"
proof (induction content)
  case Nil
  show ?case by (cases rest) auto
next
  case (Cons c content)
  thus ?case by (cases "c = CHR 0x5C \<or> c = CHR ''('' \<or> c = CHR '')''") (auto simp: rule_content_plain)
qed

text \<open>
  A rule that \<open>claudePermissionRule\<close> writes is read back as exactly the command it was made
  for, whatever parentheses and backslashes the command has: the grant covers nothing else.
\<close>

theorem permission_rule_exact:
  "rule_content (drop (Suc (length tool)) (claude_permission_rule tool content)) = Some (content, [])"
  by (simp add: claude_permission_rule_def rule_content_escape)

definition declined_text :: string where
  "declined_text = ''The previous Claude Code tool request was declined. Continue without that tool or ask for an alternative.''"

text \<open>
  A decision that is neither an approval nor one of the five words of \<open>isDeclineResponse\<close>
  is reported to Claude Code and to the user as declined, and grants the tool.
\<close>

theorem unknown_decision_grants:
  assumes "ev_kind origin = ''approval.requested''" "text_field origin ''kind'' = ''permission''"
    "text_field origin ''tool_name'' = ''Bash''" "\<not> blank (text_field origin ''command'')" "target \<noteq> ''ssh''"
    "decision_of response \<notin> {''accept'', ''acceptForSession'', ''reject'', ''decline'', ''deny'', ''cancel'', ''refuse''}"
  shows "claude_allowed_tools origin response target =
      [claude_permission_rule ''Bash'' (trim_space (text_field origin ''command''))] \<and>
    claude_display_text origin response = text_permission_denied \<and>
    take (length declined_text) (claude_followup_text preview origin response) = declined_text"
proof -
  let ?d = "if decision_of response = [] then ''responded'' else decision_of response"
  have "?d \<noteq> ''accept''" "?d \<noteq> ''acceptForSession''" using assms(6) by auto
  hence "claude_followup_text preview origin response = declined_text @ lf @ lf @ ''Tool: '' @
      text_field origin ''tool_name'' @ lf @ ''Parameters:'' @ lf @ preview (map_value (field (ev_normalized origin) ''params''))"
    using assms(1,2) by (simp add: claude_followup_text_def declined_text_def text_field_def Let_def)
  moreover have "claude_allowed_tools origin response target =
      [claude_permission_rule ''Bash'' (trim_space (text_field origin ''command''))]"
    using assms by (auto simp: claude_allowed_tools_def is_decline_response_def text_field_def Let_def)
  moreover have "claude_display_text origin response = text_permission_denied"
    using assms by (simp add: claude_display_text_def Let_def)
  ultimately show ?thesis by simp
qed

section \<open>Witnesses\<close>

definition demo_event :: "int \<Rightarrow> string \<Rightarrow> (string \<times> go_any) list \<Rightarrow> event" where
  "demo_event seq kind vals = \<lparr>ev_seq = seq, ev_ts = [], ev_workspace = ''w'', ev_session = ''s'',
     ev_agent = ''claude'', ev_kind = kind, ev_normalized = vals, ev_raw = AnyNil\<rparr>"

lemma session_demo_trims [simp]: "trim_space ''hi'' = ''hi''" "trim_space ''ls'' = ''ls''"
  by (code_simp)+

lemmas demo_simps = demo_event_def field_def text_field_def

definition demo_ask :: event where
  "demo_ask = demo_event 1 ''ask.requested'' [(''ask_id'', AnyString ''a'')]"

lemma demo_ask_pending: "pending_request [demo_ask] demo_ask"
  by (simp add: demo_ask_def demo_simps pending_request_def hidden_seq_def replaced_range_def request_kind_def
      is_ask_permission_echo_def interaction_ids_def first_of_def any_resolved_def resolved_interactions_def
      resolution_kind_def superseded_asks_def scan_turn_start_def scan_ask_def scan_turn_end_def
      turn_end_kind_def ask_scan_start_def)

theorem answer_settles_exactly_witness:
  "pending_request [demo_ask] demo_ask \<and>
   find_pending ([demo_ask] @ [responded_event ''a'' demo_ask []\<lparr>ev_seq := 2, ev_ts := []\<rparr>]) ''a'' = Stale \<and>
   \<not> pending_request ([demo_ask] @ [responded_event ''a'' demo_ask []\<lparr>ev_seq := 2, ev_ts := []\<rparr>]) demo_ask"
  using answer_settles_exactly[where ident = "''a''" and events = "[demo_ask]" and ev = demo_ask, OF _ refl]
    demo_ask_pending
  by (simp add: demo_ask_def demo_simps interaction_ids_def)

definition demo_user :: event where
  "demo_user = demo_event 1 ''message.user'' [(''text'', AnyString ''hi'')]"

definition demo_reply :: event where
  "demo_reply = demo_event 2 ''message.assistant'' [(''native_message_uuid'', AnyString ''u'')]"

definition demo_completed :: event where
  "demo_completed = demo_event 3 ''turn.completed'' []"

definition demo_log :: "event list" where
  "demo_log = [demo_user, demo_reply, demo_completed]"

lemma demo_log_sorted: "seq_sorted demo_log"
  by (simp add: seq_sorted_def demo_log_def demo_user_def demo_reply_def demo_completed_def demo_simps)

theorem edit_hides_turn_witness:
  "editable_message demo_log = Some 1 \<and>
   hidden_seq (demo_log @ [replaced_event ''w'' ''s'' ''codex'' 1 (user_turn_range demo_log 1)\<lparr>ev_seq := 4, ev_ts := []\<rparr>]) 3"
proof -
  have "ev_seq demo_user = 1" "ev_kind demo_user = ''message.user''" "ev_seq demo_completed = 3"
    "ev_kind demo_completed = ''turn.completed''" "ev_kind demo_reply = ''message.assistant''"
    by (simp_all add: demo_user_def demo_completed_def demo_reply_def demo_event_def)
  hence "hidden_seq (demo_log @ [replaced_event ''w'' ''s'' ''codex'' 1 (user_turn_range demo_log 1)\<lparr>ev_seq := 4, ev_ts := []\<rparr>]) 3"
    using edit_hides_turn[where events = demo_log and pre = "[]" and u = demo_user and rest = "[]"
        and mid = "[demo_reply, demo_completed]", OF demo_log_sorted _ _ _ _ _ refl]
    by (auto simp: demo_log_def)
  moreover have "editable_message demo_log = Some 1"
    by (simp add: demo_log_def demo_user_def demo_reply_def demo_completed_def demo_simps editable_message_def
        hidden_seq_def replaced_range_def)
  ultimately show ?thesis by simp
qed

theorem fork_anchor_sound_witness:
  "\<exists>a. resolve_fork_anchor ''s'' ''claude'' ''idle'' ''t'' [] demo_log 2 = Inr a \<and> 2 < fa_turn_end_seq a"
proof -
  have "resolve_fork_anchor ''s'' ''claude'' ''idle'' ''t'' [] demo_log 2 =
      Inr \<lparr>fa_event_seq = 2, fa_turn_end_seq = 3, fa_native_anchor = ''u'', fa_source_title = ''t'', fa_rollback_turns = 0\<rparr>"
    by code_simp
  thus ?thesis using fork_anchor_sound[OF demo_log_sorted, of "''s''" "''claude''" "''idle''" "''t''" "[]" 2] by auto
qed

definition demo_permission :: event where
  "demo_permission = demo_event 1 ''approval.requested'' [(''kind'', AnyString ''permission''),
     (''tool_name'', AnyString ''Bash''), (''command'', AnyString ''ls'')]"

lemma demo_permission_fields [simp]:
  "ev_kind demo_permission = ''approval.requested''" "text_field demo_permission ''kind'' = ''permission''"
  "text_field demo_permission ''tool_name'' = ''Bash''" "text_field demo_permission ''command'' = ''ls''"
  by (simp_all add: demo_permission_def demo_simps)

theorem unknown_decision_grants_witness:
  "claude_allowed_tools demo_permission [(''decision'', AnyString ''no'')] ''local'' = [''Bash(ls)''] \<and>
   claude_display_text demo_permission [(''decision'', AnyString ''no'')] = text_permission_denied"
  using unknown_decision_grants[where origin = demo_permission and response = "[(''decision'', AnyString ''no'')]"
      and target = "''local''" and preview = "\<lambda>m. []"]
  by (simp add: decision_of_def field_def claude_permission_rule_def)
end
