(* ===== verification/Notifications.thy ===== *)
theory Notifications
  imports SessionEvents
begin

text \<open>
  \<open>daemon/notification_intents.go\<close>: which saved event gives rise to a notification event, its text
  and its target, and \<open>appNotificationPolicy\<close> of \<open>daemon/event_hub.go\<close>. The Chinese texts are
  their UTF-8 bytes; \<open>[]rune\<close> decodes UTF-8 as Go does.
\<close>

section \<open>Runes\<close>

definition byte_in :: "string \<Rightarrow> nat \<Rightarrow> nat \<Rightarrow> nat \<Rightarrow> bool" where
  "byte_in s i lo hi \<longleftrightarrow> i < length s \<and> lo \<le> of_char (s ! i) \<and> of_char (s ! i) \<le> hi"

definition lead1 :: "string \<Rightarrow> bool" where
  "lead1 s \<longleftrightarrow> byte_in s 0 0 127"

definition lead2 :: "string \<Rightarrow> bool" where
  "lead2 s \<longleftrightarrow> byte_in s 0 194 223 \<and> byte_in s 1 128 191"

definition lead3 :: "string \<Rightarrow> bool" where
  "lead3 s \<longleftrightarrow> byte_in s 2 128 191 \<and>
     ((byte_in s 0 224 224 \<and> byte_in s 1 160 191) \<or> (byte_in s 0 225 236 \<and> byte_in s 1 128 191) \<or>
      (byte_in s 0 237 237 \<and> byte_in s 1 128 159) \<or> (byte_in s 0 238 239 \<and> byte_in s 1 128 191))"

definition lead4 :: "string \<Rightarrow> bool" where
  "lead4 s \<longleftrightarrow> byte_in s 2 128 191 \<and> byte_in s 3 128 191 \<and>
     ((byte_in s 0 240 240 \<and> byte_in s 1 144 191) \<or> (byte_in s 0 241 243 \<and> byte_in s 1 128 191) \<or>
      (byte_in s 0 244 244 \<and> byte_in s 1 128 143))"

text \<open>The bytes of the first rune, 0 if they are no valid encoding (or there are none).\<close>

definition rune_width :: "string \<Rightarrow> nat" where
  "rune_width s = (if lead1 s then 1 else if lead2 s then 2 else if lead3 s then 3 else if lead4 s then 4 else 0)"

definition rune_error :: string where
  "rune_error = [CHR 0xEF, CHR 0xBF, CHR 0xBD]"

text \<open>The runes of a string, each as its encoding; a bad byte is U+FFFD.\<close>

function runes :: "string \<Rightarrow> string list" where
  "runes s =
     (if s = [] then []
      else if rune_width s = 0 then rune_error # runes (tl s)
      else take (rune_width s) s # runes (drop (rune_width s) s))"
  by pat_completeness auto

termination runes
  by (relation "measure length") auto

declare runes.simps [simp del]

definition truncate_body :: "string \<Rightarrow> nat \<Rightarrow> string" where
  "truncate_body value n =
     (let rs = runes value in
      if length rs \<le> n then value
      else if n \<le> 3 then concat (take n rs)
      else concat (take (n - 3) rs) @ ''...'')"

section \<open>Texts\<close>

definition note_failed_prefix :: string where
  "note_failed_prefix = utf8 [228, 187, 187, 229, 138, 161, 229, 164, 177, 232, 180, 165, 239, 188, 154]"

definition note_failed :: string where
  "note_failed = utf8 [228, 187, 187, 229, 138, 161, 229, 164, 177, 232, 180, 165]"

definition note_ask_prefix :: string where
  "note_ask_prefix = utf8 [231, 173, 137, 229, 190, 133, 232, 190, 147, 229, 133, 165, 239, 188, 154]"

definition note_ask :: string where
  "note_ask = utf8 [231, 173, 137, 229, 190, 133, 232, 190, 147, 229, 133, 165]"

definition note_colon :: string where
  "note_colon = utf8 [239, 188, 154]"

definition note_pairing :: string where
  "note_pairing = utf8 [230, 156, 137, 232, 174, 190, 229, 164, 135, 232, 175, 183, 230, 177, 130, 230, 142,
    167, 229, 136, 182, 230, 156, 172, 230, 156, 186]"

definition note_pairing_suffix :: string where
  "note_pairing_suffix = utf8 [32, 232, 175, 183, 230, 177, 130, 230, 142, 167, 229, 136, 182, 230, 156, 172, 230, 156,
    186]"

definition note_disconnected :: string where
  "note_disconnected = utf8 [232, 191, 156, 231, 168, 139, 232, 191, 158, 230, 142, 165, 229, 183, 178, 230, 150,
    173, 229, 188, 128]"

definition note_ssh_prefix :: string where
  "note_ssh_prefix = utf8 [83, 83, 72, 32, 232, 191, 158, 230, 142, 165, 229, 183, 178, 230, 150, 173, 229, 188,
    128, 239, 188, 154]"

definition note_plan :: string where
  "note_plan = utf8 [231, 173, 137, 229, 190, 133, 232, 174, 161, 229, 136, 146, 231, 161, 174, 232, 174, 164]"

definition note_command :: string where
  "note_command = utf8 [231, 173, 137, 229, 190, 133, 229, 145, 189, 228, 187, 164, 229, 174, 161, 230, 137, 185]"

definition note_file_change :: string where
  "note_file_change = utf8 [231, 173, 137, 229, 190, 133, 230, 150, 135, 228, 187, 182, 229, 143, 152, 230, 155,
    180, 229, 174, 161, 230, 137, 185]"

definition note_permission :: string where
  "note_permission = utf8 [231, 173, 137, 229, 190, 133, 230, 157, 131, 233, 153, 144, 229, 174, 161, 230, 137, 185]"

definition note_approval :: string where
  "note_approval = utf8 [231, 173, 137, 229, 190, 133, 229, 174, 161, 230, 137, 185]"

text \<open>The reversed deltas of the loop of \<open>latestAssistantFinalMessage\<close> are its accumulator.\<close>

fun final_message_loop :: "event \<Rightarrow> event list \<Rightarrow> string list \<Rightarrow> string" where
  "final_message_loop source [] parts = trim_space (concat parts)"
| "final_message_loop source (ev # evs) parts =
     (if ev_session ev \<noteq> ev_session source \<or> ev_seq ev > ev_seq source then final_message_loop source evs parts
      else if ev_kind ev = ''turn.started'' \<or> ev_kind ev = ''message.user'' then trim_space (concat parts)
      else if ev_kind ev \<noteq> ''message.assistant'' \<and> ev_kind ev \<noteq> ''message.delta'' then final_message_loop source evs parts
      else if text_field ev ''text'' \<noteq> [] \<and> ev_kind ev = ''message.assistant'' then text_field ev ''text''
      else if text_field ev ''text'' \<noteq> [] then final_message_loop source evs (text_field ev ''text'' # parts)
      else final_message_loop source evs parts)"

definition final_message :: "event \<Rightarrow> event list \<Rightarrow> string" where
  "final_message source events = final_message_loop source (rev events) []"

definition approval_title :: "(string \<times> go_any) list \<Rightarrow> string" where
  "approval_title value =
     (let kind = string_value (field value ''kind'') in
      if kind = ''plan'' then note_plan
      else if kind = ''command'' then note_command
      else if kind = ''file_change'' then note_file_change
      else if kind = ''permissions'' \<or> kind = ''permission'' then note_permission
      else note_approval)"

definition approval_body :: "(string \<times> go_any) list \<Rightarrow> string" where
  "approval_body value =
     (let params = map_value (field value ''params'');
          command = first_string [field value ''command'', field params ''command''];
          tool = first_string (map (field value) [''tool_name'', ''toolName'', ''name''] @
                   map (field params) [''tool_name'', ''toolName'', ''name'']);
          reason = first_string [field value ''reason'', field params ''reason''];
          path = first_string (map (field value) [''path'', ''file_path'', ''grant_root'', ''grantRoot''] @
                   map (field params) [''path'', ''file_path'', ''grant_root'', ''grantRoot''])
      in if command \<noteq> [] then command
         else if tool \<noteq> [] \<and> reason \<noteq> [] then tool @ '': '' @ reason
         else if tool \<noteq> [] then tool
         else if path \<noteq> [] then path
         else first_string [field value ''text''])"

definition first_question :: "(string \<times> go_any) list \<Rightarrow> string" where
  "first_question params =
     (case field params ''questions'' of
        AnyList (q # qs) \<Rightarrow>
          first_string (map (field (map_value q)) [''question'', ''header'', ''label'', ''description''])
      | _ \<Rightarrow> [])"

definition ask_body :: "(string \<times> go_any) list \<Rightarrow> string" where
  "ask_body value =
     (let params = map_value (field value ''params'') in
      if first_question params \<noteq> [] then first_question params
      else first_string (map (field params) [''message'', ''prompt'', ''question''] @ [field value ''message'']))"

definition pairing_body :: "(string \<times> go_any) list \<Rightarrow> string" where
  "pairing_body value =
     (let name = first_string [field value ''controller_device_name'', field value ''controller_device_id'']
      in if name = [] then note_pairing else name @ note_pairing_suffix)"

text \<open>Reason and summary, \<^const>\<open>None\<close> when the event notifies of nothing.\<close>

definition intent_text :: "event \<Rightarrow> (string \<times> go_any) list \<Rightarrow> event list \<Rightarrow> (string \<times> string) option" where
  "intent_text source value events =
     (let kind = ev_kind source in
      if kind = ''turn.completed''
        then (if final_message source events \<noteq> [] then Some (''turn_completed'', final_message source events) else None)
      else if kind = ''turn.failed''
        then (let m = first_string [field value ''message'', field value ''error'']
              in Some (''turn_failed'', if m \<noteq> [] then note_failed_prefix @ m else note_failed))
      else if kind = ''ask.requested''
        then Some (''ask_required'', if ask_body value \<noteq> [] then note_ask_prefix @ ask_body value else note_ask)
      else if kind = ''approval.requested''
        then Some (''approval_required'', if approval_body value \<noteq> []
               then approval_title value @ note_colon @ approval_body value else approval_title value)
      else if kind = ''control.pairing.requested''
        then Some (''pairing_requested'', if pairing_body value \<noteq> [] then pairing_body value else note_pairing)
      else if kind = ''workspace.connection''
        then (if string_value (field value ''status'') \<notin> {''degraded'', ''failed''} then None
              else Some (''ssh_disconnected'', note_ssh_prefix @ first_string [field value ''message'', AnyString note_disconnected]))
      else None)"

section \<open>Notification events\<close>

definition notification_kind :: string where
  "notification_kind = ''control.notification''"

definition notification_fields ::
  "event \<Rightarrow> string \<Rightarrow> string \<Rightarrow> string \<Rightarrow> string \<Rightarrow> (string \<times> go_any) list" where
  "notification_fields source reason summary title target =
     [(''source'', AnyString ''astralops''), (''visibility'', AnyString ''debug''),
      (''notification_id'', AnyString (first_string [AnyString target, AnyString (ev_workspace source)]
         @ '':'' @ reason @ '':'' @ dec_int (ev_seq source))),
      (''reason'', AnyString reason),
      (''title'', AnyString (truncate_body (if title = [] then ''AstralOps'' else title) 80)),
      (''body'', AnyString (truncate_body summary 180)),
      (''target'', AnyMap [(''kind'', AnyString (if target \<noteq> [] then ''session'' else ''workspace'')),
         (''session_id'', AnyString target), (''workspace_id'', AnyString (ev_workspace source))]),
      (''source_event'', AnyMap [(''seq'', AnyNumber (ev_seq source)), (''kind'', AnyString (ev_kind source))])]"

definition notification_event :: "event \<Rightarrow> string \<Rightarrow> string \<Rightarrow> event list \<Rightarrow> event option" where
  "notification_event source title target events =
     (let value = ev_normalized source in
      if ev_kind source = notification_kind then None
      else if field value ''hidden'' = AnyBool True \<or> string_value (field value ''visibility'') = ''debug'' then None
      else if field value ''suppress_notification'' = AnyBool True then None
      else (case intent_text source value events of
          None \<Rightarrow> None
        | Some (reason, summary) \<Rightarrow>
            if summary = [] then None
            else Some \<lparr>ev_seq = 0, ev_ts = [], ev_workspace = ev_workspace source, ev_session = target,
                   ev_agent = ev_agent source, ev_kind = notification_kind,
                   ev_normalized = notification_fields source reason summary title target, ev_raw = AnyNil\<rparr>))"

text \<open>The policy the hub gives to \<open>Publish\<close>; \<open>target\<close> and \<open>history\<close> read the store.\<close>

definition notification_policy ::
  "(event \<Rightarrow> 'p event_store \<Rightarrow> string \<times> string) \<Rightarrow> (event \<Rightarrow> string \<Rightarrow> 'p event_store \<Rightarrow> event list) \<Rightarrow>
   event \<Rightarrow> 'p event_store \<Rightarrow> event option" where
  "notification_policy target history ev st =
     (case target ev st of (title, sid) \<Rightarrow> notification_event ev title sid (history ev sid st))"

section \<open>Properties\<close>

lemma byte_inD: "byte_in s i lo hi \<Longrightarrow> Suc i \<le> length s"
  by (simp add: byte_in_def)

lemma rune_width_le: "rune_width s \<le> length s"
  by (auto simp: rune_width_def lead1_def lead2_def lead3_def lead4_def dest!: byte_inD)

text \<open>A width depends on the bytes of the rune only.\<close>

lemma lead_cong:
  assumes "\<And>i lo hi. i < n \<Longrightarrow> byte_in t i lo hi = byte_in s i lo hi"
  shows "1 \<le> n \<Longrightarrow> lead1 t = lead1 s" "2 \<le> n \<Longrightarrow> lead2 t = lead2 s"
    "3 \<le> n \<Longrightarrow> lead3 t = lead3 s" "4 \<le> n \<Longrightarrow> lead4 t = lead4 s"
  using assms by (simp_all add: lead1_def lead2_def lead3_def lead4_def)

lemma rune_width_prefix:
  assumes "rune_width s = n" "n \<noteq> 0" "take n t = take n s" shows "rune_width t = n"
proof -
  have n: "n \<le> length s" using assms rune_width_le by auto
  have len: "n \<le> length t" using arg_cong[OF assms(3), of length] n by simp
  have b: "byte_in t i lo hi = byte_in s i lo hi" if "i < n" for i lo hi
    using that assms(3) len n nth_take[OF that, of t] nth_take[OF that, of s] by (simp add: byte_in_def)
  note cong = lead_cong[of n t s, OF b]
  show ?thesis
    using assms(1,2) cong by (auto simp: rune_width_def split: if_splits)
qed

definition is_rune :: "string \<Rightarrow> bool" where
  "is_rune r \<longleftrightarrow> r \<noteq> [] \<and> rune_width r = length r"

lemma runes_Cons: "is_rune r \<Longrightarrow> runes (r @ s) = r # runes s"
proof -
  assume r: "is_rune r"
  have "rune_width (r @ s) = length r"
    by (rule rune_width_prefix[of r]) (use r in \<open>auto simp: is_rune_def\<close>)
  thus ?thesis by (subst runes.simps) (use r in \<open>simp add: is_rune_def\<close>)
qed

lemma is_rune_error: "is_rune rune_error"
proof -
  have "\<not> lead1 rune_error" by (simp add: rune_error_def lead1_def byte_in_def)
  moreover have "\<not> lead2 rune_error" by (simp add: rune_error_def lead2_def byte_in_def)
  moreover have "lead3 rune_error" by (simp add: rune_error_def lead3_def byte_in_def)
  moreover have "length rune_error = 3" by (simp add: rune_error_def)
  ultimately show ?thesis by (auto simp: is_rune_def rune_width_def)
qed

lemma runes_are_runes: "list_all is_rune (runes s)"
proof (induction s rule: runes.induct)
  case (1 s)
  have "is_rune (take (rune_width s) s)" if "rune_width s \<noteq> 0"
    using that rune_width_le[of s] rune_width_prefix[of s "rune_width s" "take (rune_width s) s"]
    by (auto simp: is_rune_def min_def)
  thus ?case using 1 is_rune_error by (subst runes.simps) simp
qed

lemma runes_concat: "list_all is_rune rs \<Longrightarrow> runes (concat rs @ s) = rs @ runes s"
  by (induction rs) (simp_all add: runes_Cons)

lemma runes_Nil [simp]: "runes [] = []"
  by (simp add: runes.simps)

lemma truncate_cut: "runes (concat (take k (runes value)) @ s) = take k (runes value) @ runes s"
  by (rule runes_concat) (use runes_are_runes[of "value"] in \<open>auto simp: list_all_iff dest: in_set_takeD\<close>)

lemma runes_dots: "runes ''...'' = [''.'', ''.'', ''.'']"
  by code_simp

lemma truncate_bound: "length (runes (truncate_body value n)) \<le> n"
  using truncate_cut[of n "value" "[]"] truncate_cut[of "n - 3" "value" "''...''"]
  by (auto simp: truncate_body_def Let_def runes_dots)

text \<open>
  A notification text has at most the allowed number of runes, is unchanged when it fits, and
  is cut between runes, never inside one.
\<close>

theorem truncate_body_bounds:
  "length (runes (truncate_body value n)) \<le> n \<and>
   (truncate_body value n = value \<or> n < length (runes value)) \<and>
   (\<exists>k suffix. suffix \<in> {[], ''...''} \<and> runes (truncate_body value n) = take k (runes value) @ runes suffix)"
proof -
  have "\<exists>k suffix. suffix \<in> {[], ''...''} \<and> runes (truncate_body value n) = take k (runes value) @ runes suffix"
  proof (cases "length (runes value) \<le> n")
    case True
    thus ?thesis by (intro exI[of _ n] exI[of _ "[]"]) (simp add: truncate_body_def)
  next
    case False
    show ?thesis
    proof (cases "n \<le> 3")
      case True
      thus ?thesis using False truncate_cut[of n "value" "[]"]
        by (intro exI[of _ n] exI[of _ "[]"]) (simp add: truncate_body_def)
    next
      case big: False
      thus ?thesis using False truncate_cut[of "n - 3" "value" "''...''"]
        by (intro exI[of _ "n - 3"] exI[of _ "''...''"]) (simp add: truncate_body_def)
    qed
  qed
  moreover have "truncate_body value n = value \<or> n < length (runes value)"
    by (cases "length (runes value) \<le> n") (auto simp: truncate_body_def)
  ultimately show ?thesis using truncate_bound by blast
qed

text \<open>
  A notification never notifies of itself, comes only from a visible event of the six kinds,
  and carries the workspace, agent and number of that event with bounded texts.
\<close>

theorem notification_event_sound:
  assumes "notification_event source title target events = Some note"
  shows "ev_kind note = notification_kind \<and> notification_event note title' target' events' = None \<and>
    ev_kind source \<in> {''turn.completed'', ''turn.failed'', ''ask.requested'', ''approval.requested'',
      ''control.pairing.requested'', ''workspace.connection''} \<and>
    field (ev_normalized source) ''hidden'' \<noteq> AnyBool True \<and>
    ev_workspace note = ev_workspace source \<and> ev_session note = target \<and> ev_agent note = ev_agent source \<and>
    length (runes (text_field note ''title'')) \<le> 80 \<and> length (runes (text_field note ''body'')) \<le> 180"
proof -
  obtain reason summary where i: "intent_text source (ev_normalized source) events = Some (reason, summary)"
    and n: "note = \<lparr>ev_seq = 0, ev_ts = [], ev_workspace = ev_workspace source, ev_session = target,
      ev_agent = ev_agent source, ev_kind = notification_kind,
      ev_normalized = notification_fields source reason summary title target, ev_raw = AnyNil\<rparr>"
    and h: "field (ev_normalized source) ''hidden'' \<noteq> AnyBool True"
    using assms by (auto simp: notification_event_def Let_def split: if_splits option.splits)
  have "ev_kind source \<in> {''turn.completed'', ''turn.failed'', ''ask.requested'', ''approval.requested'',
      ''control.pairing.requested'', ''workspace.connection''}"
    using i by (auto simp: intent_text_def Let_def split: if_splits)
  moreover have "length (runes (text_field note ''title'')) \<le> 80" "length (runes (text_field note ''body'')) \<le> 180"
    using truncate_bound by (simp_all add: n text_field_def field_def notification_fields_def)
  ultimately show ?thesis using n h by (simp add: notification_event_def)
qed

text \<open>The summary of a completed turn: the last assistant message of that turn, whatever follows it.\<close>

lemma final_message_skips:
  "list_all (\<lambda>ev. ev_session ev \<noteq> ev_session source \<or> ev_seq ev > ev_seq source) later \<Longrightarrow>
     final_message source (events @ later) = final_message source events"
proof -
  have "list_all (\<lambda>ev. ev_session ev \<noteq> ev_session source \<or> ev_seq ev > ev_seq source) xs \<Longrightarrow>
      final_message_loop source (xs @ ys) parts = final_message_loop source ys parts" for xs ys parts
    by (induction xs) auto
  moreover assume "list_all (\<lambda>ev. ev_session ev \<noteq> ev_session source \<or> ev_seq ev > ev_seq source) later"
  ultimately show ?thesis by (simp add: final_message_def list_all_iff)
qed

theorem notification_event_sound_witness:
  "\<exists>note. notification_event (demo_event 3 ''turn.failed'' [(''message'', AnyString ''boom'')]) ''t'' ''s'' [] = Some note \<and>
     ev_kind note = notification_kind \<and> length (runes (text_field note ''body'')) \<le> 180"
proof -
  have "intent_text (demo_event 3 ''turn.failed'' [(''message'', AnyString ''boom'')]) [(''message'', AnyString ''boom'')] [] =
      Some (''turn_failed'', note_failed_prefix @ ''boom'')"
    by (simp add: intent_text_def demo_event_def field_def)
  then obtain nt where "notification_event (demo_event 3 ''turn.failed'' [(''message'', AnyString ''boom'')]) ''t'' ''s'' [] = Some nt"
    by (simp add: notification_event_def demo_event_def field_def notification_kind_def)
  thus ?thesis using notification_event_sound[where title' = "[]" and target' = "[]" and events' = "[]"] by blast
qed


end
