(* ===== verification/SessionService.thy ===== *)
theory SessionService
  imports Notifications "HOL-Library.Multiset"
begin

text \<open>
  The session service of the daemon: \<open>queue.go\<close>, \<open>service.go\<close> and the stateful parts of
  \<open>edit.go\<close>, \<open>fork.go\<close> and \<open>interactions.go\<close> under \<open>daemon/internal/core/sessions\<close>, with
  \<open>stopSessionRuntime\<close> of \<open>daemon/lifecycle.go\<close>. The service owns the queues. What it calls, the
  \<open>Store\<close> interface, \<open>emit\<close> and the agent runtimes, is the record \<open>session_env\<close> of functions on
  a state \<open>'s\<close> of their own. Random ids and times are arguments. \<open>drainRuntimeEvents\<close> runs
  \<open>apply_runtime_event\<close> and \<open>start_next\<close> in goroutines of their own: they are steps of the
  relation below.
\<close>

section \<open>Data\<close>

record turn_options =
  to_model :: string
  to_effort :: string
  to_permission :: string
  to_attachments :: "attachment list"
  to_allowed_tools :: "string list"
  to_internal :: bool
  to_display :: string
  to_suppress :: bool

definition no_options :: turn_options where
  "no_options = \<lparr>to_model = [], to_effort = [], to_permission = [], to_attachments = [],
     to_allowed_tools = [], to_internal = False, to_display = [], to_suppress = False\<rparr>"

record queued_turn =
  qt_id :: string
  qt_input :: string
  qt_options :: turn_options
  qt_created :: string

record native_ref =
  nr_agent :: string
  nr_local_path :: string
  nr_remote_path :: string
  nr_session :: string
  nr_thread :: string
  nr_cwd :: string

record agent_session =
  as_id :: string
  as_workspace :: string
  as_agent :: string
  as_title :: string
  as_status :: string
  as_source :: string
  as_native_ref :: "native_ref option"
  as_managed :: bool
  as_native_session :: string
  as_native_thread :: string
  as_fork_session :: string
  as_fork_seq :: int
  as_fork_anchor :: string
  as_fork_title :: string
  as_created :: string
  as_updated :: string

text \<open>The errors of a runtime: the sentinels the service tests with \<open>errors.Is\<close>, and others.\<close>

datatype run_error =
    SessionRunning
  | SessionIdle
  | SteerUnsupported
  | InteractionUnsupported
  | RunError string

fun run_message :: "run_error \<Rightarrow> string" where
  "run_message SessionRunning = ''session is already running''"
| "run_message SessionIdle = ''session is not running''"
| "run_message SteerUnsupported = ''runtime does not support steering''"
| "run_message InteractionUnsupported = ''runtime interaction response unsupported''"
| "run_message (RunError m) = m"

type_synonym fields = "(string \<times> go_any) list"

type_synonym 's call = "'s \<Rightarrow> run_error option \<times> 's"

text \<open>A runtime; an optional interface it does not implement is \<^const>\<open>None\<close>.\<close>

record 's runtime =
  rt_start :: "agent_session \<Rightarrow> agent_workspace \<Rightarrow> string \<Rightarrow> turn_options \<Rightarrow> 's call"
  rt_interrupt :: "string \<Rightarrow> 's call"
  rt_respond :: "string \<Rightarrow> string \<Rightarrow> fields \<Rightarrow> 's call"
  rt_steer :: "(string \<Rightarrow> string \<Rightarrow> turn_options \<Rightarrow> 's call) option"
  rt_edit :: "(agent_session \<Rightarrow> agent_workspace \<Rightarrow> string \<Rightarrow> turn_options \<Rightarrow> 's call) option"
  rt_fork :: "(agent_session \<Rightarrow> agent_session \<Rightarrow> agent_workspace \<Rightarrow> nat \<Rightarrow> 's call) option"
  rt_stop :: "(string \<Rightarrow> string \<Rightarrow> 's \<Rightarrow> 's) option"

text \<open>\<open>en_order\<close> is the order in which one iteration over the map \<open>s.agents\<close> visits it.\<close>

record 's session_env =
  en_session :: "'s \<Rightarrow> string \<Rightarrow> agent_session option"
  en_workspace :: "'s \<Rightarrow> string \<Rightarrow> agent_workspace option"
  en_create :: "agent_workspace \<Rightarrow> string \<Rightarrow> 's \<Rightarrow> agent_session \<times> 's"
  en_create_fork :: "agent_workspace \<Rightarrow> agent_session \<Rightarrow> fork_anchor \<Rightarrow> 's \<Rightarrow> agent_session \<times> 's"
  en_delete :: "string \<Rightarrow> 's \<Rightarrow> 's"
  en_status :: "string \<Rightarrow> string \<Rightarrow> 's \<Rightarrow> 's"
  en_query :: "'s \<Rightarrow> string \<Rightarrow> string \<Rightarrow> int \<Rightarrow> event list"
  en_title :: "'s \<Rightarrow> string \<Rightarrow> string"
  en_emit :: "event \<Rightarrow> 's \<Rightarrow> 's"
  en_agents :: "string \<Rightarrow> 's runtime option"
  en_order :: "'s runtime list"
  en_preview :: "fields \<Rightarrow> string"

record 's service =
  sv_queues :: "string \<rightharpoonup> queued_turn list"
  sv_env :: 's

definition on_env :: "('s \<Rightarrow> 's) \<Rightarrow> 's service \<Rightarrow> 's service" where
  "on_env f st = st\<lparr>sv_env := f (sv_env st)\<rparr>"

definition call_env :: "'s call \<Rightarrow> 's service \<Rightarrow> run_error option \<times> 's service" where
  "call_env f st = (case f (sv_env st) of (e, s) \<Rightarrow> (e, st\<lparr>sv_env := s\<rparr>))"

definition new_event :: "string \<Rightarrow> string \<Rightarrow> string \<Rightarrow> string \<Rightarrow> fields \<Rightarrow> event" where
  "new_event ws sid agent kind vals = \<lparr>ev_seq = 0, ev_ts = [], ev_workspace = ws, ev_session = sid,
     ev_agent = agent, ev_kind = kind, ev_normalized = vals, ev_raw = AnyNil\<rparr>"

definition session_event :: "agent_session \<Rightarrow> string \<Rightarrow> fields \<Rightarrow> event" where
  "session_event ss kind vals = new_event (as_workspace ss) (as_id ss) (as_agent ss) kind vals"

section \<open>The queues\<close>

definition text_attachment :: string where
  "text_attachment = utf8 [233, 153, 132, 228, 187, 182, 239, 188, 154]"

definition text_attachments :: string where
  "text_attachments = utf8 [32, 228, 184, 170, 233, 153, 132, 228, 187, 182]"

definition turn_display_input :: "string \<Rightarrow> turn_options \<Rightarrow> string" where
  "turn_display_input input opts =
     (if \<not> blank (to_display opts) then trim_space (to_display opts)
      else if to_internal opts then []
      else if \<not> blank input then trim_space input
      else (case to_attachments opts of
          [] \<Rightarrow> []
        | [a] \<Rightarrow> text_attachment @ (if at_name a = [] then at_path a else at_name a)
        | as \<Rightarrow> dec (length as) @ text_attachments))"

text \<open>The two optional fields every queue event gets.\<close>

definition turn_fields :: "string \<Rightarrow> turn_options \<Rightarrow> fields" where
  "turn_fields input opts =
     (if to_internal opts then [(''internal'', AnyBool True)] else []) @
     (if turn_display_input input opts \<noteq> [] then [(''text'', AnyString (turn_display_input input opts))] else [])"

definition push_turn :: "string \<Rightarrow> queued_turn \<Rightarrow> 's service \<Rightarrow> 's service" where
  "push_turn sid turn st = st\<lparr>sv_queues := (sv_queues st)(sid \<mapsto> slice_at (sv_queues st) sid @ [turn])\<rparr>"

definition enqueue_turn ::
  "'s session_env \<Rightarrow> string \<Rightarrow> string \<Rightarrow> agent_session \<Rightarrow> string \<Rightarrow> turn_options \<Rightarrow>
   's service \<Rightarrow> queued_turn \<times> 's service" where
  "enqueue_turn E rid now ss input opts st =
     (let turn = \<lparr>qt_id = ''queue_'' @ rid, qt_input = input, qt_options = opts, qt_created = now\<rparr>;
          st1 = push_turn (as_id ss) turn st;
          position = length (slice_at (sv_queues st1) (as_id ss))
      in (turn, on_env (en_emit E (session_event ss ''queue.queued''
           ([(''queue_id'', AnyString (qt_id turn)), (''position'', AnyNumber (int position))] @ turn_fields input opts))) st1))"

definition drop_turn :: "string \<Rightarrow> queued_turn list \<Rightarrow> queued_turn list" where
  "drop_turn qid queue = filter (\<lambda>t. qt_id t \<noteq> qid) queue"

definition remove_queued_turn :: "string \<Rightarrow> string \<Rightarrow> 's service \<Rightarrow> bool \<times> 's service" where
  "remove_queued_turn sid qid st =
     (let queue = slice_at (sv_queues st) sid
      in (list_ex (\<lambda>t. qt_id t = qid) queue,
          st\<lparr>sv_queues := put_or_delete (sv_queues st) sid (drop_turn qid queue)\<rparr>))"

text \<open>A missing session is the zero value.\<close>

definition zero_session :: agent_session where
  "zero_session = \<lparr>as_id = [], as_workspace = [], as_agent = [], as_title = [], as_status = [], as_source = [],
     as_native_ref = None, as_managed = False, as_native_session = [], as_native_thread = [],
     as_fork_session = [], as_fork_seq = 0, as_fork_anchor = [], as_fork_title = [], as_created = [], as_updated = []\<rparr>"

definition session_or_zero :: "'s session_env \<Rightarrow> string \<Rightarrow> 's service \<Rightarrow> agent_session" where
  "session_or_zero E sid st = (case en_session E (sv_env st) sid of Some ss \<Rightarrow> ss | None \<Rightarrow> zero_session)"

definition cancel_queued_turn :: "'s session_env \<Rightarrow> string \<Rightarrow> string \<Rightarrow> 's service \<Rightarrow> 's service" where
  "cancel_queued_turn E sid qid st =
     (let ss = session_or_zero E sid st in
      case remove_queued_turn sid qid st of (cancelled, st1) \<Rightarrow>
        if cancelled
        then on_env (en_emit E (new_event (as_workspace ss) sid (as_agent ss) ''queue.cancelled''
               [(''queue_id'', AnyString qid)])) st1
        else st1)"

definition clear_session_queue :: "'s session_env \<Rightarrow> string \<Rightarrow> string \<Rightarrow> 's service \<Rightarrow> 's service" where
  "clear_session_queue E sid reason st =
     (let ss = session_or_zero E sid st;
          queue = slice_at (sv_queues st) sid;
          note = (\<lambda>turn. new_event (as_workspace ss) sid (as_agent ss) ''queue.cancelled''
            ([(''queue_id'', AnyString (qt_id turn))] @
             (if reason \<noteq> [] then [(''reason'', AnyString reason)] else []) @
             turn_fields (qt_input turn) (qt_options turn)))
      in on_env (fold (en_emit E) (map note queue)) (st\<lparr>sv_queues := (sv_queues st)(sid := None)\<rparr>))"

definition pop_queued_turn :: "string \<Rightarrow> 's service \<Rightarrow> queued_turn option \<times> 's service" where
  "pop_queued_turn sid st =
     (case slice_at (sv_queues st) sid of
        [] \<Rightarrow> (None, st)
      | turn # rest \<Rightarrow> (Some turn, st\<lparr>sv_queues := put_or_delete (sv_queues st) sid rest\<rparr>))"

definition peek_queued_turn :: "string \<Rightarrow> string \<Rightarrow> 's service \<Rightarrow> queued_turn option" where
  "peek_queued_turn sid qid st = find (\<lambda>t. qt_id t = qid) (slice_at (sv_queues st) sid)"

definition requeue_front :: "string \<Rightarrow> queued_turn \<Rightarrow> 's service \<Rightarrow> 's service" where
  "requeue_front sid turn st = st\<lparr>sv_queues := (sv_queues st)(sid \<mapsto> turn # slice_at (sv_queues st) sid)\<rparr>"

definition queue_snapshot :: "string \<Rightarrow> 's service \<Rightarrow> queued_turn list" where
  "queue_snapshot sid st = slice_at (sv_queues st) sid"

text \<open>\<open>SteerQueuedTurn\<close> up to the call of \<open>Steer\<close>, and after it.\<close>

definition steer_attempt ::
  "'s session_env \<Rightarrow> string \<Rightarrow> string \<Rightarrow> 's service \<Rightarrow> (run_error + agent_session \<times> queued_turn) \<times> 's service" where
  "steer_attempt E sid qid st =
     (case en_session E (sv_env st) sid of
        None \<Rightarrow> (Inl (RunError ''session not found''), st)
      | Some ss \<Rightarrow>
          (case en_agents E (as_agent ss) of
             None \<Rightarrow> (Inl (RunError ''agent runtime is not implemented''), st)
           | Some rt \<Rightarrow>
               (case rt_steer rt of
                  None \<Rightarrow> (Inl SteerUnsupported, st)
                | Some steer \<Rightarrow>
                    (case peek_queued_turn sid qid st of
                       None \<Rightarrow> (Inl (RunError ''queued message not found''), st)
                     | Some turn \<Rightarrow>
                         (case call_env (steer sid (qt_input turn) (qt_options turn)) st of
                            (Some e, st1) \<Rightarrow> (Inl e, st1)
                          | (None, st1) \<Rightarrow> (Inr (ss, turn), st1))))))"

definition steer_remove ::
  "'s session_env \<Rightarrow> string \<Rightarrow> string \<Rightarrow> agent_session \<Rightarrow> queued_turn \<Rightarrow> 's service \<Rightarrow> run_error option \<times> 's service" where
  "steer_remove E sid qid ss turn st =
     (case remove_queued_turn sid qid st of
        (False, st1) \<Rightarrow> (Some (RunError ''queued message not found''), st1)
      | (True, st1) \<Rightarrow>
          (None, on_env (en_emit E (session_event ss ''queue.steered''
             ([(''queue_id'', AnyString qid)] @ turn_fields (qt_input turn) (qt_options turn)))) st1))"

definition steer_queued_turn ::
  "'s session_env \<Rightarrow> string \<Rightarrow> string \<Rightarrow> 's service \<Rightarrow> run_error option \<times> 's service" where
  "steer_queued_turn E sid qid st =
     (case steer_attempt E sid qid st of
        (Inl e, st1) \<Rightarrow> (Some e, st1)
      | (Inr (ss, turn), st1) \<Rightarrow> steer_remove E sid qid ss turn st1)"

section \<open>Running turns\<close>

definition start_turn ::
  "'s session_env \<Rightarrow> agent_session \<Rightarrow> agent_workspace \<Rightarrow> string \<Rightarrow> turn_options \<Rightarrow>
   's service \<Rightarrow> run_error option \<times> 's service" where
  "start_turn E ss ws input opts st =
     (case en_agents E (as_agent ss) of
        None \<Rightarrow> (Some (RunError ''agent runtime is not implemented''), st)
      | Some rt \<Rightarrow> call_env (rt_start rt ss ws input opts) st)"

text \<open>What \<open>StartNextQueuedTurn\<close> does with the turn it popped.\<close>

definition run_queued :: "'s session_env \<Rightarrow> string \<Rightarrow> queued_turn \<Rightarrow> 's service \<Rightarrow> 's service" where
  "run_queued E sid turn st =
     (case en_session E (sv_env st) sid of
        None \<Rightarrow> st
      | Some ss \<Rightarrow>
          (case en_workspace E (sv_env st) (as_workspace ss) of
             None \<Rightarrow> st
           | Some ws \<Rightarrow>
               (case start_turn E ss ws (qt_input turn) (qt_options turn) st of
                  (None, st1) \<Rightarrow> on_env (en_emit E (session_event ss ''queue.dequeued''
                      ([(''queue_id'', AnyString (qt_id turn))] @ turn_fields (qt_input turn) (qt_options turn)))) st1
                | (Some SessionRunning, st1) \<Rightarrow> requeue_front sid turn st1
                | (Some e, st1) \<Rightarrow>
                    on_env (en_emit E (session_event ss ''control.error''
                        [(''message'', AnyString (run_message e)), (''queue_id'', AnyString (qt_id turn))]))
                     (on_env (en_emit E (session_event ss ''queue.failed''
                        ([(''queue_id'', AnyString (qt_id turn)), (''message'', AnyString (run_message e))] @
                         turn_fields (qt_input turn) (qt_options turn)))) st1))))"

definition start_next :: "'s session_env \<Rightarrow> string \<Rightarrow> 's service \<Rightarrow> 's service" where
  "start_next E sid st =
     (case pop_queued_turn sid st of (None, st1) \<Rightarrow> st1 | (Some turn, st1) \<Rightarrow> run_queued E sid turn st1)"

definition ensure_linked :: "agent_session \<Rightarrow> go_error + agent_session" where
  "ensure_linked ss =
     (if as_source ss = ''legacy_unlinked''
        then Inl (ActionError 409 ''native_history_missing'' ''native history is missing for this session'')
      else if as_source ss = ''discovered''
        then Inl (ActionError 409 ''native_session_not_imported'' ''native session must be imported before control'')
      else Inr ss)"

definition emit_control_error :: "'s session_env \<Rightarrow> agent_session \<Rightarrow> string \<Rightarrow> 's service \<Rightarrow> 's service" where
  "emit_control_error E ss m = on_env (en_emit E (session_event ss ''control.error'' [(''message'', AnyString m)]))"

definition mode_result :: "string \<Rightarrow> fields \<Rightarrow> fields" where
  "mode_result mode extra = [(''ok'', AnyBool True), (''mode'', AnyString mode)] @ extra"

text \<open>\<open>tryRunningInput\<close>; \<^const>\<open>None\<close> is \<open>handled = false\<close>.\<close>

definition try_running_input ::
  "'s session_env \<Rightarrow> agent_session \<Rightarrow> agent_workspace \<Rightarrow> 's runtime \<Rightarrow> string \<Rightarrow> turn_options \<Rightarrow>
   's service \<Rightarrow> (go_error + fields) option \<times> 's service" where
  "try_running_input E ss ws rt input opts st =
     (case rt_steer rt of
        None \<Rightarrow> (None, st)
      | Some steer \<Rightarrow>
          (case call_env (steer (as_id ss) input opts) st of
             (None, st1) \<Rightarrow> (Some (Inr (mode_result ''steer'' [(''steered'', AnyBool True)])), st1)
           | (Some SteerUnsupported, st1) \<Rightarrow> (None, st1)
           | (Some SessionIdle, st1) \<Rightarrow>
               (case start_turn E ss ws input opts st1 of
                  (None, st2) \<Rightarrow> (Some (Inr (mode_result ''start'' [])), st2)
                | (Some SessionRunning, st2) \<Rightarrow> (None, st2)
                | (Some e, st2) \<Rightarrow> (Some (Inl (ActionError 400 ''runtime_error'' (run_message e))),
                     emit_control_error E ss (run_message e) st2))
           | (Some e, st1) \<Rightarrow> (Some (Inl (ActionError 409 ''steer_failed'' (run_message e))),
                emit_control_error E ss (run_message e) st1)))"

text \<open>
  \<open>StartSessionInput\<close> in two parts, between which other goroutines run: the attempts to start or
  steer, with either a result or the session and input to queue; and queueing that input.
\<close>

datatype input_result = Answered "go_error + fields" | ToQueue agent_session string

definition attempt_start ::
  "'s session_env \<Rightarrow> agent_session \<Rightarrow> agent_workspace \<Rightarrow> 's runtime \<Rightarrow> string \<Rightarrow> turn_options \<Rightarrow>
   's service \<Rightarrow> input_result \<times> 's service" where
  "attempt_start E ss ws rt input opts st =
     (case start_turn E ss ws input opts st of
        (None, st1) \<Rightarrow> (Answered (Inr (mode_result ''start'' [])), st1)
      | (Some SessionRunning, st1) \<Rightarrow>
          (case try_running_input E ss ws rt input opts st1 of
             (Some result, st2) \<Rightarrow> (Answered result, st2)
           | (None, st2) \<Rightarrow> (ToQueue ss input, st2))
      | (Some e, st1) \<Rightarrow> (Answered (Inl (ActionError 400 ''runtime_error'' (run_message e))),
           emit_control_error E ss (run_message e) st1))"

definition input_attempt ::
  "'s session_env \<Rightarrow> string \<Rightarrow> string \<Rightarrow> turn_options \<Rightarrow> 's service \<Rightarrow> input_result \<times> 's service" where
  "input_attempt E sid input0 opts st =
     (let input = trim_space input0 in
      if input = [] \<and> to_attachments opts = []
        then (Answered (Inl (ActionError 400 ''input_required'' ''input required'')), st)
      else (case en_session E (sv_env st) sid of
          None \<Rightarrow> (Answered (Inl (ActionError 404 ''session_not_found'' ''session not found'')), st)
        | Some ss0 \<Rightarrow>
            (case ensure_linked ss0 of
               Inl e \<Rightarrow> (Answered (Inl e), st)
             | Inr ss \<Rightarrow>
                 (case en_workspace E (sv_env st) (as_workspace ss) of
                    None \<Rightarrow> (Answered (Inl (ActionError 404 ''workspace_not_found'' ''workspace not found'')), st)
                  | Some ws \<Rightarrow>
                      (case en_agents E (as_agent ss) of
                         None \<Rightarrow> (Answered (Inl (ActionError 501 ''runtime_not_implemented'' ''agent runtime is not implemented'')),
                           emit_control_error E ss ''agent runtime is not implemented'' st)
                       | Some rt \<Rightarrow>
                           (case (if as_status ss = ''running'' then try_running_input E ss ws rt input opts st else (None, st)) of
                              (Some result, st1) \<Rightarrow> (Answered result, st1)
                            | (None, st1) \<Rightarrow> attempt_start E ss ws rt input opts st1))))))"

definition queue_input ::
  "'s session_env \<Rightarrow> string \<Rightarrow> string \<Rightarrow> agent_session \<Rightarrow> string \<Rightarrow> turn_options \<Rightarrow>
   's service \<Rightarrow> (go_error + fields) \<times> 's service" where
  "queue_input E rid now ss input opts st =
     (case enqueue_turn E rid now ss input opts st of (turn, st1) \<Rightarrow>
        (Inr (mode_result ''queue'' [(''queued'', AnyBool True), (''queue_id'', AnyString (qt_id turn))]), st1))"

definition start_session_input ::
  "'s session_env \<Rightarrow> string \<Rightarrow> string \<Rightarrow> string \<Rightarrow> string \<Rightarrow> turn_options \<Rightarrow>
   's service \<Rightarrow> (go_error + fields) \<times> 's service" where
  "start_session_input E rid now sid input opts st =
     (case input_attempt E sid input opts st of
        (Answered result, st1) \<Rightarrow> (result, st1)
      | (ToQueue ss input1, st1) \<Rightarrow> queue_input E rid now ss input1 opts st1)"

definition create_session ::
  "'s session_env \<Rightarrow> (agent_session \<Rightarrow> fields) \<Rightarrow> string \<Rightarrow> string \<Rightarrow> 's service \<Rightarrow> (go_error + agent_session) \<times> 's service" where
  "create_session E show_session workspace agent0 st =
     (case en_workspace E (sv_env st) workspace of
        None \<Rightarrow> (Inl (ActionError 404 ''workspace_not_found'' ''workspace not found''), st)
      | Some ws \<Rightarrow>
          (let agent = (if agent0 = [] then aw_agent ws else agent0) in
           if agent \<noteq> ''claude'' \<and> agent \<noteq> ''codex''
             then (Inl (ActionError 400 ''agent_invalid'' ''agent must be claude or codex''), st)
           else (case en_create E ws agent (sv_env st) of (ss, s) \<Rightarrow>
             (Inr ss, on_env (en_emit E (new_event (aw_id ws) (as_id ss) (as_agent ss) ''session.started'' (show_session ss)))
                (st\<lparr>sv_env := s\<rparr>)))))"

definition interrupt_session :: "'s session_env \<Rightarrow> string \<Rightarrow> 's service \<Rightarrow> (go_error + fields) \<times> 's service" where
  "interrupt_session E sid st =
     (case en_session E (sv_env st) sid of
        None \<Rightarrow> (Inl (ActionError 404 ''session_not_found'' ''session not found''), st)
      | Some ss0 \<Rightarrow>
          (case ensure_linked ss0 of
             Inl e \<Rightarrow> (Inl e, st)
           | Inr ss \<Rightarrow>
               (case en_agents E (as_agent ss) of
                  None \<Rightarrow> (Inl (ActionError 501 ''runtime_not_implemented'' ''agent runtime is not implemented''), st)
                | Some rt \<Rightarrow>
                    (case call_env (rt_interrupt rt sid) st of
                       (Some e, st1) \<Rightarrow> (Inl (ActionError 409 ''interrupt_failed'' (run_message e)), st1)
                     | (None, st1) \<Rightarrow> (Inr [(''ok'', AnyBool True)], st1)))))"

section \<open>Events of a runtime\<close>

definition should_start_next :: "'s session_env \<Rightarrow> event \<Rightarrow> 's service \<Rightarrow> bool" where
  "should_start_next E ev st =
     (if ev_kind ev \<noteq> ''turn.completed'' \<and> ev_kind ev \<noteq> ''turn.cancelled'' then False
      else if ev_kind ev = ''turn.completed'' \<and>
          has_pending_interaction (en_query E (sv_env st) (ev_workspace ev) (ev_session ev) 0) then False
      else True)"

definition status_of_kind :: "string \<Rightarrow> string option" where
  "status_of_kind k =
     (if k = ''turn.started'' then Some ''running''
      else if k = ''turn.completed'' \<or> k = ''turn.cancelled'' then Some ''idle''
      else if k = ''turn.failed'' then Some ''failed''
      else None)"

text \<open>
  \<open>applyRuntimeEvent\<close> with the error that may come with the event. The result tells whether it
  starts a goroutine that runs \<open>start_next\<close>.
\<close>

definition failed_event :: "event \<Rightarrow> string option \<Rightarrow> event" where
  "failed_event ev err =
     (case err of
        Some m \<Rightarrow> if ev_kind ev = []
          then ev\<lparr>ev_kind := ''turn.failed'', ev_normalized := [(''status'', AnyString ''failed''), (''message'', AnyString m)]\<rparr>
          else ev
      | None \<Rightarrow> ev)"

definition apply_runtime_event ::
  "'s session_env \<Rightarrow> event \<Rightarrow> string option \<Rightarrow> 's service \<Rightarrow> bool \<times> 's service" where
  "apply_runtime_event E ev0 err st =
     (let ev = failed_event ev0 err in
      if ev_kind ev = [] then (False, st)
      else (let st1 = (case status_of_kind (ev_kind ev) of
                  None \<Rightarrow> st | Some s \<Rightarrow> on_env (en_status E (ev_session ev) s) st);
                st2 = on_env (en_emit E ev) st1
            in (should_start_next E ev st2, st2)))"

section \<open>Stopping, deleting and controlling\<close>

text \<open>\<open>stopSessionRuntime\<close>, which the daemon passes as \<open>stopSession\<close>.\<close>

definition stop_session :: "'s session_env \<Rightarrow> agent_session \<Rightarrow> string \<Rightarrow> 's service \<Rightarrow> 's service" where
  "stop_session E ss reason st =
     (let st1 = clear_session_queue E (as_id ss) reason st in
      case en_agents E (as_agent ss) of
        None \<Rightarrow> on_env (en_status E (as_id ss) ''idle'') st1
      | Some rt \<Rightarrow>
          (case rt_stop rt of
             Some stop \<Rightarrow> on_env (stop (as_id ss) reason) st1
           | None \<Rightarrow>
               (case call_env (rt_interrupt rt (as_id ss)) st1 of
                  (None, st2) \<Rightarrow> st2
                | (Some SessionIdle, st2) \<Rightarrow> st2
                | (Some e, st2) \<Rightarrow> on_env (en_emit E (session_event ss ''control.warning''
                    [(''message'', AnyString (run_message e)), (''reason'', AnyString reason)])) st2)))"

definition delete_session :: "'s session_env \<Rightarrow> string \<Rightarrow> 's service \<Rightarrow> (go_error + string) \<times> 's service" where
  "delete_session E sid0 st =
     (let sid = trim_space sid0 in
      if sid = [] then (Inl (ActionError 400 ''session_id_required'' ''session_id required''), st)
      else (case en_session E (sv_env st) sid of
          None \<Rightarrow> (Inl (ActionError 404 ''session_not_found'' ''session not found''), st)
        | Some ss \<Rightarrow>
            (Inr (as_id ss),
             on_env (en_emit E (session_event ss ''session.deleted'' [(''session_id'', AnyString (as_id ss))]))
               (on_env (en_delete E (as_id ss)) (stop_session E ss ''session deleted'' st)))))"

text \<open>What the two queue controls check first: the trimmed ids and the session.\<close>

definition queue_reference :: "'s session_env \<Rightarrow> string \<Rightarrow> string \<Rightarrow> 's service \<Rightarrow> go_error + string \<times> string" where
  "queue_reference E sid0 qid0 st =
     (let sid = trim_space sid0; qid = trim_space qid0 in
      if sid = [] \<or> qid = []
        then Inl (ActionError 400 ''queue_reference_invalid'' ''session_id and queue_id are required'')
      else (case en_session E (sv_env st) sid of
          None \<Rightarrow> Inl (ActionError 404 ''session_not_found'' ''session not found'')
        | Some ss \<Rightarrow> (case ensure_linked ss of Inl e \<Rightarrow> Inl e | Inr ss1 \<Rightarrow> Inr (sid, qid))))"

definition queue_ok :: "string \<Rightarrow> fields" where
  "queue_ok qid = [(''ok'', AnyBool True), (''queue_id'', AnyString qid)]"

definition cancel_control_turn ::
  "'s session_env \<Rightarrow> string \<Rightarrow> string \<Rightarrow> 's service \<Rightarrow> (go_error + fields) \<times> 's service" where
  "cancel_control_turn E sid0 qid0 st =
     (case queue_reference E sid0 qid0 st of
        Inl e \<Rightarrow> (Inl e, st)
      | Inr (sid, qid) \<Rightarrow>
          (if peek_queued_turn sid qid st = None
             then (Inl (ActionError 404 ''queue_not_found'' ''queued input not found''), st)
           else (Inr (queue_ok qid), cancel_queued_turn E sid qid st)))"

definition steer_error :: "run_error \<Rightarrow> go_error" where
  "steer_error e =
     (if run_message e = ''session not found'' then ActionError 404 ''session_not_found'' (run_message e)
      else if run_message e = ''queued message not found'' then ActionError 404 ''queue_not_found'' (run_message e)
      else if e = SteerUnsupported then ActionError 501 ''steer_unsupported'' (run_message e)
      else ActionError 409 ''steer_failed'' (run_message e))"

definition steer_control_turn ::
  "'s session_env \<Rightarrow> string \<Rightarrow> string \<Rightarrow> 's service \<Rightarrow> (go_error + fields) \<times> 's service" where
  "steer_control_turn E sid0 qid0 st =
     (case queue_reference E sid0 qid0 st of
        Inl e \<Rightarrow> (Inl e, st)
      | Inr (sid, qid) \<Rightarrow>
          (case steer_queued_turn E sid qid st of
             (None, st1) \<Rightarrow> (Inr (queue_ok qid), st1)
           | (Some e, st1) \<Rightarrow> (Inl (steer_error e), st1)))"

section \<open>Editing and forking\<close>

record edit_request =
  ed_event_seq :: int
  ed_input :: string
  ed_model :: string
  ed_effort :: string
  ed_permission :: string

definition edit_last_message ::
  "'s session_env \<Rightarrow> string \<Rightarrow> edit_request \<Rightarrow> 's service \<Rightarrow> (go_error + fields) \<times> 's service" where
  "edit_last_message E sid req st =
     (let input = trim_space (ed_input req);
          stale = Inl (ActionError 409 ''editable_message_stale'' ''editable user message is stale'') in
      if input = [] then (Inl (ActionError 400 ''input_required'' ''input required''), st)
      else (case en_session E (sv_env st) sid of
          None \<Rightarrow> (Inl (ActionError 404 ''session_not_found'' ''session not found''), st)
        | Some ss0 \<Rightarrow>
        (case ensure_linked ss0 of
          Inl e \<Rightarrow> (Inl e, st)
        | Inr ss \<Rightarrow>
        (if as_agent ss \<noteq> ''codex''
          then (Inl (ActionError 501 ''edit_unsupported'' ''Claude Code does not support editing and resending the last user message''), st)
        else (case en_workspace E (sv_env st) (as_workspace ss) of
          None \<Rightarrow> (Inl (ActionError 404 ''workspace_not_found'' ''workspace not found''), st)
        | Some ws \<Rightarrow>
        (let events = en_query E (sv_env st) [] sid 0;
             status = projected_status (as_status ss) events (has_pending_interaction events) in
         if editable_message events \<noteq> Some (ed_event_seq req) then (stale, st)
         else (case en_agents E (as_agent ss) of
          None \<Rightarrow> (Inl (ActionError 501 ''runtime_not_implemented'' ''agent runtime is not implemented''), st)
        | Some rt \<Rightarrow>
        (case rt_edit rt of
          None \<Rightarrow> (Inl (ActionError 501 ''edit_unsupported'' ''agent runtime does not support editing and resending the last user message''), st)
        | Some edit \<Rightarrow>
        (if status \<noteq> ''idle'' \<and> status \<noteq> ''running'' \<and> status \<noteq> ''requires_action'' then (stale, st)
         else (case call_env (edit ss ws input (no_options\<lparr>to_model := ed_model req, to_effort := ed_effort req,
                  to_permission := ed_permission req\<rparr>)) st of
          (Some e, st1) \<Rightarrow> (Inl (ActionError (if e = SessionRunning then 409 else 400) ''edit_failed'' (run_message e)), st1)
        | (None, st1) \<Rightarrow>
            (let bounds = user_turn_range (en_query E (sv_env st1) [] sid 0) (ed_event_seq req) in
             (Inr [(''ok'', AnyBool True)],
              if fst bounds > 0 \<and> snd bounds \<ge> fst bounds
              then on_env (en_emit E (replaced_event (as_workspace ss) (as_id ss) (as_agent ss) (ed_event_seq req) bounds)) st1
              else st1))))))))))))"

definition fork_created ::
  "'s session_env \<Rightarrow> (agent_session \<Rightarrow> fields) \<Rightarrow> agent_workspace \<Rightarrow> agent_session \<Rightarrow> fork_anchor \<Rightarrow>
   's service \<Rightarrow> agent_session \<times> 's service" where
  "fork_created E show_session ws source anchor st =
     (case en_create_fork E ws source anchor (sv_env st) of (fork, s) \<Rightarrow>
        (fork, on_env (en_emit E (new_event (aw_id ws) (as_id fork) (as_agent fork) ''session.started'' (show_session fork)))
           (st\<lparr>sv_env := s\<rparr>)))"

text \<open>The check of the source's runtime, before anything is created.\<close>

definition forker_of :: "'s session_env \<Rightarrow> agent_session \<Rightarrow>
    go_error + (agent_session \<Rightarrow> agent_session \<Rightarrow> agent_workspace \<Rightarrow> nat \<Rightarrow> 's call) option" where
  "forker_of E source =
     (if as_agent source \<noteq> ''codex'' then Inr None
      else if as_native_thread source = []
        then Inl (ActionError 400 ''session_fork_source_missing_native_thread'' ''source codex session is missing native thread id'')
      else (case en_agents E (as_agent source) of
          None \<Rightarrow> Inl (ActionError 501 ''runtime_not_implemented'' ''agent runtime is not implemented'')
        | Some rt \<Rightarrow>
            (case rt_fork rt of
               None \<Rightarrow> Inl (ActionError 501 ''session_fork_unsupported'' ''agent runtime does not support session fork'')
             | Some forker \<Rightarrow> Inr (Some forker))))"

definition fork_session ::
  "'s session_env \<Rightarrow> (agent_session \<Rightarrow> fields) \<Rightarrow> string \<Rightarrow> int \<Rightarrow> 's service \<Rightarrow> (go_error + agent_session) \<times> 's service" where
  "fork_session E show_session sid0 seq st =
     (let sid = trim_space sid0 in
      if sid = [] then (Inl (ActionError 400 ''session_id_required'' ''session_id required''), st)
      else (case en_session E (sv_env st) sid of
          None \<Rightarrow> (Inl (ActionError 404 ''session_not_found'' ''session not found''), st)
        | Some source0 \<Rightarrow>
        (case ensure_linked source0 of
          Inl e \<Rightarrow> (Inl e, st)
        | Inr source \<Rightarrow>
        (case en_workspace E (sv_env st) (as_workspace source) of
          None \<Rightarrow> (Inl (ActionError 404 ''workspace_not_found'' ''workspace not found''), st)
        | Some ws \<Rightarrow>
        (case resolve_fork_anchor (as_id source) (as_agent source) (as_status source)
             (en_title E (sv_env st) (as_id source)) (as_title source)
             (en_query E (sv_env st) [] (as_id source) 0) seq of
          Inl m \<Rightarrow> (Inl (ActionError 400 ''session_fork_invalid'' m), st)
        | Inr anchor \<Rightarrow>
        (case forker_of E source of
          Inl e \<Rightarrow> (Inl e, st)
        | Inr forker \<Rightarrow>
        (case fork_created E show_session ws source anchor st of (fork, st1) \<Rightarrow>
        (case forker of
          None \<Rightarrow> (Inr fork, st1)
        | Some f \<Rightarrow>
        (case call_env (f source fork ws (fa_rollback_turns anchor)) st1 of
          (Some e, st2) \<Rightarrow> (Inl (ActionError 400 ''session_fork_failed'' (run_message e)),
             on_env (en_emit E (session_event fork ''session.deleted'' [(''session_id'', AnyString (as_id fork)),
                 (''reason'', AnyString ''fork_failed''), (''message'', AnyString (run_message e))]))
               (on_env (en_delete E (as_id fork)) st2))
        | (None, st2) \<Rightarrow>
            (Inr (case en_session E (sv_env st2) (as_id fork) of Some updated \<Rightarrow> updated | None \<Rightarrow> fork), st2))))))))))"

section \<open>Answering an interaction\<close>

definition interrupt_interaction :: "'s session_env \<Rightarrow> event \<Rightarrow> 's service \<Rightarrow> run_error option \<times> 's service" where
  "interrupt_interaction E origin st =
     (case en_agents E (ev_agent origin) of
        None \<Rightarrow> (Some (RunError (ev_agent origin @ '' runtime is not available'')), st)
      | Some rt \<Rightarrow>
          (case call_env (rt_interrupt rt (ev_session origin)) st of
             (None, st1) \<Rightarrow> (None, st1)
           | (Some SessionIdle, st1) \<Rightarrow>
               (None, on_env (en_emit E (new_event (ev_workspace origin) (ev_session origin) (ev_agent origin)
                   ''turn.cancelled'' [(''status'', AnyString ''idle'')]))
                 (on_env (en_status E (ev_session origin) ''idle'') st1))
           | (Some e, st1) \<Rightarrow> (Some e, st1)))"

text \<open>\<open>cancelInteraction\<close> decides by agent and kind whether a cancel interrupts the session.\<close>

definition cancel_interrupts :: "event \<Rightarrow> bool" where
  "cancel_interrupts origin =
     (if ev_agent origin = ''codex''
        then (ev_kind origin = ''ask.requested'' \<and> text_field origin ''kind'' \<noteq> elicitation_kind) \<or>
          text_field origin ''kind'' = ''permissions'' \<or> text_field origin ''kind'' = ''plan''
      else ev_agent origin = ''claude'')"

definition cancel_interaction :: "'s session_env \<Rightarrow> event \<Rightarrow> 's service \<Rightarrow> (bool \<times> run_error option) \<times> 's service" where
  "cancel_interaction E origin st =
     (if cancel_interrupts origin
        then (case interrupt_interaction E origin st of (e, st1) \<Rightarrow> ((True, e), st1))
      else ((False, None), st))"

text \<open>The end of both follow-ups: start the turn, or queue it if the session runs.\<close>

definition start_or_queue ::
  "'s session_env \<Rightarrow> string \<Rightarrow> string \<Rightarrow> agent_session \<Rightarrow> agent_workspace \<Rightarrow> string \<Rightarrow> turn_options \<Rightarrow>
   's service \<Rightarrow> run_error option \<times> 's service" where
  "start_or_queue E rid now ss ws input opts st =
     (case start_turn E ss ws input opts st of
        (None, st1) \<Rightarrow> (None, st1)
      | (Some SessionRunning, st1) \<Rightarrow> (None, snd (enqueue_turn E rid now ss input opts st1))
      | (Some e, st1) \<Rightarrow> (Some e, st1))"

text \<open>The session and workspace an interaction came from.\<close>

definition origin_place :: "'s session_env \<Rightarrow> event \<Rightarrow> 's service \<Rightarrow> run_error + agent_session \<times> agent_workspace" where
  "origin_place E origin st =
     (case en_session E (sv_env st) (ev_session origin) of
        None \<Rightarrow> Inl (RunError (''session '' @ ev_session origin @ '' not found''))
      | Some ss \<Rightarrow>
          (case en_workspace E (sv_env st) (as_workspace ss) of
             None \<Rightarrow> Inl (RunError (''workspace '' @ as_workspace ss @ '' not found''))
           | Some ws \<Rightarrow> Inr (ss, ws)))"

definition codex_plan_followup ::
  "'s session_env \<Rightarrow> string \<Rightarrow> string \<Rightarrow> event \<Rightarrow> fields \<Rightarrow> 's service \<Rightarrow> run_error option \<times> 's service" where
  "codex_plan_followup E rid now origin response st =
     (case origin_place E origin st of
        Inl e \<Rightarrow> (Some e, st)
      | Inr (ss, ws) \<Rightarrow> start_or_queue E rid now ss ws (codex_plan_followup_text response)
          (no_options\<lparr>to_internal := True, to_display := plan_display_text response\<rparr>) st)"

definition claude_followup ::
  "'s session_env \<Rightarrow> string \<Rightarrow> string \<Rightarrow> event \<Rightarrow> fields \<Rightarrow> 's service \<Rightarrow> run_error option \<times> 's service" where
  "claude_followup E rid now origin response st =
     (case origin_place E origin st of
        Inl e \<Rightarrow> (Some e, st)
      | Inr (ss, ws) \<Rightarrow>
          (let input = claude_followup_text (en_preview E) origin response in
           if blank input then (None, st)
           else start_or_queue E rid now ss ws input
             (no_options\<lparr>to_internal := True, to_display := claude_display_text origin response,
                to_allowed_tools := claude_allowed_tools origin response (aw_target ws)\<rparr>) st))"

text \<open>The loop over the runtimes; \<open>last\<close> is \<open>lastErr\<close>.\<close>

fun ask_runtimes ::
  "'s runtime list \<Rightarrow> event \<Rightarrow> string \<Rightarrow> fields \<Rightarrow> run_error option \<Rightarrow> 's service \<Rightarrow> run_error option \<times> 's service" where
  "ask_runtimes [] origin ident req last_err st =
     (Some (case last_err of Some e \<Rightarrow> e
        | None \<Rightarrow> RunError (''interaction '' @ ident @ '' is not pending in a runtime'')), st)"
| "ask_runtimes (rt # rts) origin ident req last_err st =
     (case call_env (rt_respond rt (ev_session origin) ident req) st of
        (None, st1) \<Rightarrow> (None, st1)
      | (Some InteractionUnsupported, st1) \<Rightarrow> ask_runtimes rts origin ident req last_err st1
      | (Some e, st1) \<Rightarrow> ask_runtimes rts origin ident req (Some e) st1)"

definition process_response ::
  "'s session_env \<Rightarrow> string \<Rightarrow> string \<Rightarrow> string \<Rightarrow> event \<Rightarrow> fields \<Rightarrow> 's service \<Rightarrow> run_error option \<times> 's service" where
  "process_response E rid now ident origin req st =
     (case (if is_cancel_response req then cancel_interaction E origin st else ((False, None), st)) of
        ((handled, Some e), st1) \<Rightarrow> (Some e, st1)
      | ((True, None), st1) \<Rightarrow> (None, st1)
      | ((False, None), st1) \<Rightarrow>
          (if ev_agent origin = ''claude'' then claude_followup E rid now origin req st1
           else if ev_agent origin = ''codex'' \<and> is_plan_approval origin
             then codex_plan_followup E rid now origin req st1
           else ask_runtimes (en_order E) origin ident req None st1))"

fun contains :: "string \<Rightarrow> string \<Rightarrow> bool" where
  "contains needle [] \<longleftrightarrow> needle = []"
| "contains needle (c # s) \<longleftrightarrow> has_prefix (c # s) needle \<or> contains needle s"

definition interaction_live :: "'s session_env \<Rightarrow> event \<Rightarrow> 's service \<Rightarrow> bool" where
  "interaction_live E origin st =
     (case en_session E (sv_env st) (ev_session origin) of
        None \<Rightarrow> True
      | Some ss \<Rightarrow> as_source ss \<noteq> ''discovered'' \<and> as_source ss \<noteq> ''legacy_unlinked'')"

definition respond_interaction ::
  "'s session_env \<Rightarrow> string \<Rightarrow> string \<Rightarrow> string \<Rightarrow> fields \<Rightarrow> 's service \<Rightarrow> (go_error + fields) \<times> 's service" where
  "respond_interaction E rid now ident req0 st =
     (case find_pending (en_query E (sv_env st) [] [] 0) ident of
        Stale \<Rightarrow> (Inl (ActionError 409 ''interaction_stale'' ''interaction is no longer pending''), st)
      | NotFound \<Rightarrow> (Inl (ActionError 404 ''interaction_not_found'' ''interaction not found''), st)
      | FoundPending origin \<Rightarrow>
          (if \<not> interaction_live E origin st
             then (Inl (ActionError 409 ''interaction_not_live'' ''interaction is from native history and is not pending in a live runtime''), st)
           else (let req = client_action_response origin req0 in
             case process_response E rid now ident origin req st of
               (Some e, st1) \<Rightarrow>
                 (if contains ''not pending in a runtime'' (run_message e)
                    then (Inl (ActionError 409 ''interaction_not_live'' ''interaction is not pending in a live runtime''), st1)
                  else (Inl (ActionError 409 ''interaction_failed'' (run_message e)), st1))
             | (None, st1) \<Rightarrow>
                 (Inr [(''ok'', AnyBool True)], on_env (en_emit E (responded_event ident origin req)) st1))))"

section \<open>The queue as an interface\<close>

text \<open>
  What the service relies on: a queue per key, pushed at the back, popped at the front, with a
  popped element put back at the front and elements with an id taken out.
\<close>

locale turn_queue =
  fixes items :: "'st \<Rightarrow> string \<Rightarrow> 'a list"
    and push :: "string \<Rightarrow> 'a \<Rightarrow> 'st \<Rightarrow> 'st"
    and pop :: "string \<Rightarrow> 'st \<Rightarrow> 'a option \<times> 'st"
    and requeue :: "string \<Rightarrow> 'a \<Rightarrow> 'st \<Rightarrow> 'st"
  assumes push_items: "items (push k x s) k' = (if k' = k then items s k @ [x] else items s k')"
    and pop_empty: "items s k = [] \<Longrightarrow> pop k s = (None, s)"
    and pop_head: "items s k = x # xs \<Longrightarrow>
      \<exists>s'. pop k s = (Some x, s') \<and> (\<forall>k'. items s' k' = (if k' = k then xs else items s k'))"
    and requeue_items: "items (requeue k x s) k' = (if k' = k then x # items s k else items s k')"
begin

lemma push_all: "items (fold (push k) xs s) k' = (if k' = k then items s k @ xs else items s k')"
  by (induction xs arbitrary: s) (simp_all add: push_items)

lemma pop_Some_items:
  "pop k s = (Some x, s') \<Longrightarrow> items s k = x # items s' k \<and> (\<forall>k'. k' \<noteq> k \<longrightarrow> items s' k' = items s k')"
  using pop_empty[of s k] pop_head[of s k] by (cases "items s k") fastforce+

lemma pop_None_iff: "pop k s = (None, s') \<longleftrightarrow> items s k = [] \<and> s' = s"
proof (cases "items s k")
  case Nil
  thus ?thesis using pop_empty[of s k] by auto
next
  case (Cons x xs)
  thus ?thesis using pop_head[OF Cons] by auto
qed

lemma requeue_undoes_pop:
  "pop k s = (Some x, s') \<Longrightarrow> items (requeue k x s') k' = items s k'"
  using pop_Some_items[of k s x s'] by (simp add: requeue_items)

lemma pop_after_requeue: "\<exists>s'. pop k (requeue k x s) = (Some x, s') \<and> items s' k = items s k"
  using pop_head[of "requeue k x s" k x "items s k"] by (auto simp: requeue_items)

end

interpretation turns: turn_queue "\<lambda>st sid. slice_at (sv_queues st) sid" push_turn pop_queued_turn requeue_front
  by unfold_locales (auto simp: push_turn_def pop_queued_turn_def requeue_front_def split: list.splits)

section \<open>What operations leave of the queues\<close>

abbreviation queue_of :: "'s service \<Rightarrow> string \<Rightarrow> queued_turn list" where
  "queue_of st sid \<equiv> slice_at (sv_queues st) sid"

lemma on_env_queues [simp]: "sv_queues (on_env f st) = sv_queues st"
  by (simp add: on_env_def)

lemma call_env_queues: "call_env f st = (e, st') \<Longrightarrow> sv_queues st' = sv_queues st"
  by (auto simp: call_env_def split: prod.splits)

lemma start_turn_queues: "start_turn E ss ws i opts st = (e, st') \<Longrightarrow> sv_queues st' = sv_queues st"
  by (auto simp: start_turn_def split: option.splits dest: call_env_queues)

lemma try_running_queues:
  "try_running_input E ss ws rt i opts st = (r, st') \<Longrightarrow> sv_queues st' = sv_queues st"
  by (auto simp: try_running_input_def emit_control_error_def split: option.splits prod.splits run_error.splits
      dest!: call_env_queues start_turn_queues)

lemma attempt_start_queues:
  "attempt_start E ss ws rt i opts st = (r, st') \<Longrightarrow> sv_queues st' = sv_queues st"
  by (auto simp: attempt_start_def emit_control_error_def split: option.splits prod.splits run_error.splits
      dest!: start_turn_queues try_running_queues)

lemma input_attempt_queues: "input_attempt E sid i opts st = (r, st') \<Longrightarrow> sv_queues st' = sv_queues st"
  by (auto simp: input_attempt_def Let_def emit_control_error_def split: option.splits prod.splits sum.splits if_splits
      dest!: try_running_queues attempt_start_queues)

lemma apply_event_queues: "apply_runtime_event E ev err st = (b, st') \<Longrightarrow> sv_queues st' = sv_queues st"
  by (auto simp: apply_runtime_event_def Let_def split: if_splits option.splits)




lemma remove_queue: "remove_queued_turn sid qid st = (b, st') \<Longrightarrow>
    queue_of st' sid' = (if sid' = sid then drop_turn qid (queue_of st sid) else queue_of st sid')"
  by (auto simp: remove_queued_turn_def Let_def)








section \<open>Interleavings\<close>

text \<open>
  What the goroutines of the service have in hand between two of its critical sections: an input
  or a follow-up to queue after the runtime said it is running, a turn that was popped, a steered
  turn to take out of its queue, and the \<open>StartNextQueuedTurn\<close> of a finished turn.
\<close>

datatype task =
    Queueing agent_session string turn_options
  | Starting string
  | Running string queued_turn
  | Steering string string agent_session queued_turn



definition note_turns :: "string \<Rightarrow> queued_turn list \<Rightarrow> (string \<Rightarrow> queued_turn list) \<Rightarrow> string \<Rightarrow> queued_turn list" where
  "note_turns sid turns h = h(sid := h sid @ turns)"




fun in_hand :: "string \<Rightarrow> task \<Rightarrow> queued_turn list" where
  "in_hand sid (Running sid' turn) = (if sid' = sid then [turn] else [])"
| "in_hand sid task = []"

definition in_hands :: "string \<Rightarrow> task list \<Rightarrow> queued_turn list" where
  "in_hands sid tasks = concat (map (in_hand sid) tasks)"


lemma in_hands_simps [simp]:
  "in_hands sid [] = []" "in_hands sid (t # ts) = in_hand sid t @ in_hands sid ts"
  "in_hands sid (xs @ ys) = in_hands sid xs @ in_hands sid ys"
  by (simp_all add: in_hands_def)

lemma note_turns_simp [simp]: "note_turns sid ts h sid' = (if sid' = sid then h sid @ ts else h sid')"
  by (simp add: note_turns_def)




section \<open>Answering\<close>

lemma respond_okD:
  assumes "respond_interaction E rid now ident req st = (Inr r, st')"
  shows "\<exists>origin req' st1. find_pending (en_query E (sv_env st) [] [] 0) ident = FoundPending origin \<and>
    interaction_live E origin st \<and> process_response E rid now ident origin req' st = (None, st1) \<and>
    st' = on_env (en_emit E (responded_event ident origin req')) st1"
  using assms by (auto simp: respond_interaction_def Let_def split: pending_lookup.splits if_splits option.splits prod.splits)

lemma respond_stale:
  "find_pending (en_query E (sv_env st) [] [] 0) ident = Stale \<Longrightarrow>
     respond_interaction E rid now ident req st =
       (Inl (ActionError 409 ''interaction_stale'' ''interaction is no longer pending''), st)"
  by (simp add: respond_interaction_def)

section \<open>A queued input that nobody starts\<close>

text \<open>
  An input that finds its session running and not steerable is queued after the attempt. If
  the turn completes in between, the goroutine it starts finds the queue empty, and the input
  stays queued for a session whose status is idle, with nothing left to start it.
\<close>

theorem input_stranded:
  assumes attempt: "input_attempt E sid i opts st = (ToQueue ss input, st1)" and "as_id ss = sid"
    and "queue_of st sid = []" and "ev_kind ev = ''turn.completed''" and "ev_session ev = sid"
    and event: "apply_runtime_event E ev None st1 = (True, st2)"
  shows "sv_env st2 = en_emit E ev (en_status E sid ''idle'' (sv_env st1)) \<and> start_next E sid st2 = st2 \<and>
    (\<exists>turn r st3. queue_input E rid now ss input opts (start_next E sid st2) = (Inr r, st3) \<and>
       qt_input turn = input \<and> queue_of st3 sid = [turn] \<and>
       sv_env st3 = en_emit E (session_event ss ''queue.queued'' ([(''queue_id'', AnyString (''queue_'' @ rid)),
         (''position'', AnyNumber 1)] @ turn_fields input opts)) (sv_env st2))"
proof -
  have q: "queue_of st2 sid = []"
    using assms input_attempt_queues[OF attempt] apply_event_queues[OF event] by simp
  have e: "sv_env st2 = en_emit E ev (en_status E sid ''idle'' (sv_env st1))"
    using event assms by (auto simp: apply_runtime_event_def failed_event_def status_of_kind_def on_env_def Let_def)
  have n: "start_next E sid st2 = st2" using q by (simp add: start_next_def turns.pop_empty)
  have "queue_of (push_turn sid t st2) sid = [t]" for t using turns.push_items[of sid t st2 sid] q by simp
  thus ?thesis
    using n e assms(2) by (simp add: queue_input_def enqueue_turn_def Let_def on_env_def push_turn_def)
qed

section \<open>Witnesses\<close>

definition demo_session :: agent_session where
  "demo_session = zero_session\<lparr>as_id := ''s'', as_workspace := ''w'', as_agent := ''codex'', as_status := ''idle''\<rparr>"

definition demo_workspace :: agent_workspace where
  "demo_workspace = \<lparr>aw_id = ''w'', aw_name = [], aw_target = ''local'', aw_agent = ''codex'', aw_projection_root = [],
     aw_cwd = [], aw_ssh = None, aw_native_session = [], aw_native_thread = [], aw_created = [], aw_updated = []\<rparr>"

text \<open>A runtime that is running a turn, cannot be steered and takes every answer.\<close>

definition demo_runtime :: "'s runtime" where
  "demo_runtime = \<lparr>rt_start = (\<lambda>ss ws i opts s. (Some SessionRunning, s)), rt_interrupt = (\<lambda>sid s. (None, s)),
     rt_respond = (\<lambda>sid ident f s. (None, s)), rt_steer = None, rt_edit = None, rt_fork = None, rt_stop = None\<rparr>"

definition demo_env :: "'s session_env" where
  "demo_env = \<lparr>en_session = (\<lambda>s sid. if sid = ''s'' then Some demo_session else None),
     en_workspace = (\<lambda>s wid. Some demo_workspace), en_create = (\<lambda>ws a s. (demo_session, s)),
     en_create_fork = (\<lambda>ws ss a s. (demo_session, s)), en_delete = (\<lambda>sid s. s), en_status = (\<lambda>sid x s. s),
     en_query = (\<lambda>s ws sid n. []), en_title = (\<lambda>s sid. []), en_emit = (\<lambda>ev s. s),
     en_agents = (\<lambda>a. Some demo_runtime), en_order = [demo_runtime], en_preview = (\<lambda>f. [])\<rparr>"

lemma demo_session_fields [simp]:
  "as_id demo_session = ''s''" "as_workspace demo_session = ''w''" "as_agent demo_session = ''codex''"
  "as_status demo_session = ''idle''" "as_source demo_session = []"
  by (simp_all add: demo_session_def zero_session_def)

lemma demo_call: "call_env (\<lambda>s. (e, s)) st = (e, st)"
  by (simp add: call_env_def)

lemma demo_input: "input_attempt demo_env ''s'' ''hi'' no_options st = (ToQueue demo_session ''hi'', st)"
  by (simp add: input_attempt_def demo_env_def ensure_linked_def attempt_start_def start_turn_def
      try_running_input_def demo_runtime_def demo_call)






definition demo_idle :: "unit service" where
  "demo_idle = \<lparr>sv_queues = Map.empty, sv_env = ()\<rparr>"

lemma demo_completes: "apply_runtime_event demo_env demo_completed None st = (True, st)"
  by (simp add: apply_runtime_event_def demo_completed_def demo_simps failed_event_def status_of_kind_def demo_env_def
      on_env_def should_start_next_def has_pending_interaction_def Let_def)

theorem input_stranded_witness:
  "\<exists>r st. queue_input demo_env ''1'' [] demo_session ''hi'' no_options (start_next demo_env ''s'' demo_idle) = (Inr r, st) \<and>
     length (queue_of st ''s'') = 1"
proof -
  have "as_id demo_session = ''s''" "queue_of demo_idle ''s'' = []" "ev_kind demo_completed = ''turn.completed''"
    "ev_session demo_completed = ''s''" by (simp_all add: demo_idle_def demo_completed_def demo_simps)
  from input_stranded[OF demo_input this demo_completes, of "''1''" "[]"]
  show ?thesis by force
qed
end
