(* ===== verification/Paths.thy ===== *)
theory Paths
  imports Prelude "HOL-Library.Sublist"
begin

text \<open>
  Paths of a workspace: \<open>daemon/internal/core/workspace/helpers.go\<close> (\<open>core/terminal/helpers.go\<close>
  has the same functions). \<open>path.Clean\<close>, \<open>path.Join\<close> and \<open>filepath.Rel\<close> are modelled as the Go
  library specifies them on Unix, where \<open>filepath\<close> agrees with \<open>path\<close>, over the list of path
  components.
\<close>

section \<open>Lexical paths\<close>

definition is_abs :: "string \<Rightarrow> bool" where
  "is_abs s \<longleftrightarrow> s \<noteq> [] \<and> hd s = CHR ''/''"

text \<open>One component of \<open>path.Clean\<close>; the accumulator is reversed.\<close>

definition clean_step :: "bool \<Rightarrow> string \<Rightarrow> string list \<Rightarrow> string list" where
  "clean_step rooted c acc =
     (if c = [] \<or> c = ''.'' then acc
      else if c = ''..'' then
        (case acc of
           [] \<Rightarrow> if rooted then [] else [c]
         | d # ds \<Rightarrow> if d = ''..'' then c # acc else ds)
      else c # acc)"

definition clean_comps :: "bool \<Rightarrow> string list \<Rightarrow> string list" where
  "clean_comps rooted cs = rev (fold (clean_step rooted) cs [])"

definition comps :: "string \<Rightarrow> string list" where
  "comps s = clean_comps (is_abs s) (split_on CHR ''/'' s)"

definition path_string :: "bool \<Rightarrow> string list \<Rightarrow> string" where
  "path_string rooted cs =
     (if rooted then CHR ''/'' # join_with ''/'' cs
      else if cs = [] then ''.'' else join_with ''/'' cs)"

definition path_clean :: "string \<Rightarrow> string" where
  "path_clean s = path_string (is_abs s) (comps s)"

definition path_join :: "string list \<Rightarrow> string" where
  "path_join parts =
     (let ps = filter (\<lambda>p. p \<noteq> []) parts in if ps = [] then [] else path_clean (join_with ''/'' ps))"

definition path_base :: "string \<Rightarrow> string" where
  "path_base s =
     (if s = [] then ''.''
      else (let t = rev (dropWhile (\<lambda>c. c = CHR ''/'') (rev s))
            in if t = [] then ''/'' else last (split_on CHR ''/'' t)))"

fun strip_common :: "string list \<Rightarrow> string list \<Rightarrow> string list \<times> string list" where
  "strip_common (b # bs) (t # ts) = (if b = t then strip_common bs ts else (b # bs, t # ts))"
| "strip_common bs ts = (bs, ts)"

definition path_rel :: "string \<Rightarrow> string \<Rightarrow> string + string" where
  "path_rel base targ =
     (let b = path_clean base; t = path_clean targ;
          err = Inl (''Rel: can'' @ [CHR 0x27] @ ''t make '' @ targ @ '' relative to '' @ base) in
      if t = b then Inr ''.''
      else if is_abs b \<noteq> is_abs t then err
      else (case strip_common (comps b) (if t = ''.'' then [t] else comps t) of (br, tr) \<Rightarrow>
        if br \<noteq> [] \<and> tr \<noteq> [] \<and> hd br = ''..'' then err
        else Inr (join_with ''/'' (replicate (length br) ''..'' @ tr))))"

section \<open>Paths of a local workspace\<close>

definition path_escapes :: "string \<Rightarrow> bool" where
  "path_escapes rel \<longleftrightarrow> rel = ''..'' \<or> has_prefix rel ''../'' \<or> has_prefix rel (''..'' @ [CHR 0x5C])"

text \<open>\<open>ToSlash\<close> and \<open>FromSlash\<close> are the identity on Unix.\<close>

definition resolve_workspace_path :: "string \<Rightarrow> string \<Rightarrow> string + string \<times> string" where
  "resolve_workspace_path root0 query =
     (let root = path_clean root0; rel = trim_space query in
      if rel = [] \<or> rel = ''.'' then Inr (root, [])
      else (case (if is_abs rel then path_rel root (path_clean rel) else Inr rel) of
          Inl e \<Rightarrow> Inl e
        | Inr rel1 \<Rightarrow>
            (let target = path_clean (path_join [root, rel1]) in
             case path_rel root target of
               Inl e \<Rightarrow> Inl e
             | Inr rel2 \<Rightarrow>
                 (let resolved = (if rel2 = ''.'' then [] else rel2) in
                  if path_escapes resolved then Inl ''path escapes workspace root''
                  else Inr (target, resolved)))))"

definition same_or_descendant :: "string \<Rightarrow> string \<Rightarrow> bool" where
  "same_or_descendant root target =
     (case path_rel root target of
        Inl e \<Rightarrow> False
      | Inr rel \<Rightarrow> rel = ''.'' \<or> (rel \<noteq> ''..'' \<and> \<not> has_prefix rel ''../''))"

text \<open>\<open>eval\<close> is \<open>filepath.EvalSymlinks\<close>.\<close>

definition ensure_existing_path :: "(string \<Rightarrow> string + string) \<Rightarrow> string \<Rightarrow> string \<Rightarrow> string option" where
  "ensure_existing_path eval root target =
     (case eval root of
        Inl e \<Rightarrow> Some e
      | Inr real_root \<Rightarrow>
          (case eval target of
             Inl e \<Rightarrow> Some e
           | Inr real_target \<Rightarrow>
               if same_or_descendant (path_clean real_root) (path_clean real_target) then None
               else Some ''path escapes workspace through symlink''))"

section \<open>Paths of a remote workspace\<close>

definition remote_clean :: "string \<Rightarrow> string" where
  "remote_clean s = (if path_clean (trim_space s) = ''.'' then [] else path_clean (trim_space s))"

definition split_remote :: "string \<Rightarrow> string list" where
  "split_remote s =
     (let t = trim_char CHR ''/'' (remote_clean s) in if t = [] then [] else split_on CHR ''/'' t)"

definition remote_rel :: "string \<Rightarrow> string \<Rightarrow> string" where
  "remote_rel root0 target0 =
     (let root = (if remote_clean root0 = [] then ''/'' else remote_clean root0);
          target = (if remote_clean target0 = [] then ''/'' else remote_clean target0) in
      if root = target then ''.''
      else (case strip_common (split_remote root) (split_remote target) of (br, tr) \<Rightarrow>
        (let rel = replicate (length br) ''..'' @ tr in if rel = [] then ''.'' else join_with ''/'' rel)))"

definition resolve_remote_path :: "string \<Rightarrow> string \<Rightarrow> string + string \<times> string" where
  "resolve_remote_path root0 query =
     (let rel = trim_space query;
          root = (if remote_clean root0 = [] then ''/'' else remote_clean root0) in
      if rel = [] \<or> rel = ''.'' then Inr (root, [])
      else (let rel1 = (if is_abs (trim_space rel) then remote_rel root (remote_clean rel) else rel);
                target = remote_clean (path_join [root, rel1]);
                rel2 = remote_rel root target;
                resolved = (if rel2 = ''.'' then [] else rel2)
            in if path_escapes resolved then Inl ''path escapes workspace root'' else Inr (target, resolved)))"

section \<open>Cleaned paths\<close>

definition normal :: "string \<Rightarrow> bool" where
  "normal c \<longleftrightarrow> c \<noteq> [] \<and> c \<noteq> ''.'' \<and> c \<noteq> ''..'' \<and> CHR ''/'' \<notin> set c"

lemma fold_clean_normal: "list_all normal cs \<Longrightarrow> fold (clean_step rooted) cs acc = rev cs @ acc"
  by (induction cs arbitrary: acc) (auto simp: clean_step_def normal_def)

lemma clean_step_normal:
  "list_all normal acc \<Longrightarrow> CHR ''/'' \<notin> set c \<Longrightarrow> list_all normal (clean_step True c acc)"
  by (auto simp: clean_step_def normal_def split: list.splits)

lemma fold_clean_rooted:
  "list_all normal acc \<Longrightarrow> list_all (\<lambda>c. CHR ''/'' \<notin> set c) cs \<Longrightarrow> list_all normal (fold (clean_step True) cs acc)"
  by (induction cs arbitrary: acc) (auto intro!: clean_step_normal)

lemma split_no_sep: "list_all (\<lambda>c. x \<notin> set c) (split_on x s)"
  by (induction x s rule: split_on.induct) (auto split: list.splits)

lemma comps_normal: "is_abs s \<Longrightarrow> list_all normal (comps s)"
  using fold_clean_rooted[of "[]" "split_on CHR ''/'' s"] split_no_sep
  by (simp add: comps_def clean_comps_def)

lemma split_join:
  "cs \<noteq> [] \<Longrightarrow> list_all (\<lambda>c. x \<notin> set c) cs \<Longrightarrow> split_on x (join_with [x] cs) = cs"
  by (induction "[x]" cs rule: join_with.induct) (auto simp: split_on_no_sep split_on_append_sep)

lemma comps_path_string [simp]:
  assumes "list_all normal cs" shows "comps (path_string True cs) = cs"
proof (cases "cs = []")
  case True
  thus ?thesis by (simp add: path_string_def comps_def is_abs_def clean_comps_def clean_step_def)
next
  case False
  have "list_all (\<lambda>c. CHR ''/'' \<notin> set c) cs" using assms by (auto simp: list_all_iff normal_def)
  hence "split_on CHR ''/'' (CHR ''/'' # join_with ''/'' cs) = [] # cs"
    using split_join[OF False] split_on_append_sep[of "CHR ''/''" "[]" "join_with ''/'' cs"] by simp
  thus ?thesis
    using fold_clean_normal[OF assms, of True "[]"]
    by (simp add: path_string_def comps_def is_abs_def clean_comps_def clean_step_def)
qed

lemma is_abs_path_string [simp]: "is_abs (path_string True cs)"
  by (simp add: path_string_def is_abs_def)

lemma path_clean_abs: "is_abs s \<Longrightarrow> path_clean s = path_string True (comps s)"
  by (simp add: path_clean_def)

lemma path_clean_string [simp]: "list_all normal cs \<Longrightarrow> path_clean (path_string True cs) = path_string True cs"
  by (simp add: path_clean_def)

lemma is_abs_clean: "is_abs s \<Longrightarrow> is_abs (path_clean s)"
  by (simp add: path_clean_abs)

lemma comps_clean: "is_abs s \<Longrightarrow> comps (path_clean s) = comps s"
  by (simp add: path_clean_abs comps_normal)

section \<open>Relative paths\<close>

lemma strip_common_spec:
  "strip_common bs ts = (br, tr) \<Longrightarrow> \<exists>p. bs = p @ br \<and> ts = p @ tr"
proof (induction bs ts arbitrary: br tr rule: strip_common.induct)
  case (1 b bs t ts)
  show ?case
  proof (cases "b = t")
    case True
    thus ?thesis using 1 by (metis append_Cons strip_common.simps(1))
  next
    case False
    thus ?thesis using 1(2) by simp
  qed
qed simp_all

lemma strip_common_prefix: "strip_common bs (bs @ ts) = ([], ts)"
  by (induction bs) (cases ts; simp)+

text \<open>A relative path that starts by climbing out.\<close>

definition climbs :: "string \<Rightarrow> bool" where
  "climbs rel \<longleftrightarrow> rel = ''..'' \<or> has_prefix rel ''../''"

lemma climbs_up: "climbs (join_with ''/'' (''..'' # cs))"
  by (cases cs) (simp_all add: climbs_def has_prefix_def)

lemma not_dot_up: "join_with ''/'' (''..'' # cs) \<noteq> ''.''"
  by (cases cs) simp_all

lemma join_not_dot: "list_all normal cs \<Longrightarrow> join_with ''/'' cs \<noteq> ''.''"
  by (induction "''/''" cs rule: join_with.induct) (auto simp: normal_def append_eq_Cons_conv)

text \<open>The result of \<open>Rel\<close> between absolute paths does not escape exactly if the target is below.\<close>

lemma rel_inside:
  assumes abs: "is_abs root" "is_abs target" and rel: "path_rel root target = Inr rel"
    and ok: "rel = ''.'' \<or> \<not> climbs rel"
  shows "\<exists>cs. comps target = comps root @ cs \<and> (if rel = ''.'' then [] else rel) = join_with ''/'' cs"
proof (cases "path_clean target = path_clean root")
  case True
  hence "comps target = comps root" using comps_clean abs by metis
  moreover have "rel = ''.''" using rel True by (simp add: path_rel_def)
  ultimately show ?thesis by simp
next
  case False
  obtain br tr where st: "strip_common (comps root) (comps target) = (br, tr)" by fastforce
  have notdot: "path_clean target \<noteq> ''.''" using is_abs_clean[OF abs(2)] by (auto simp: is_abs_def)
  have r: "rel = join_with ''/'' (replicate (length br) ''..'' @ tr)"
    using rel False st notdot by (auto simp: path_rel_def Let_def is_abs_clean comps_clean abs split: if_splits)
  have "br = []"
  proof (rule ccontr)
    assume "br \<noteq> []"
    then obtain b bs where "br = b # bs" by (cases br) auto
    hence "rel = join_with ''/'' (''..'' # replicate (length bs) ''..'' @ tr)" using r by simp
    thus False using ok climbs_up not_dot_up by metis
  qed
  moreover obtain p where "comps root = p @ br" "comps target = p @ tr" using strip_common_spec[OF st] by blast
  ultimately have c: "comps target = comps root @ tr" by simp
  have "list_all normal tr" using comps_normal[OF abs(2)] c by simp
  hence "rel \<noteq> ''.''" using r \<open>br = []\<close> join_not_dot by simp
  thus ?thesis using c r \<open>br = []\<close> by simp
qed

lemma join_abs: "is_abs root \<Longrightarrow> is_abs (path_join (root # parts))"
proof -
  assume r: "is_abs root"
  hence "is_abs (join_with ''/'' (root # ps))" for ps by (cases ps) (auto simp: is_abs_def)
  thus ?thesis using r by (auto simp: path_join_def is_abs_def[of root] intro: is_abs_clean)
qed

lemma resolved_inside:
  assumes "is_abs root" and "resolve_workspace_path root query = Inr (target, rel)"
  shows "\<exists>cs. list_all normal cs \<and> target = path_string True (comps root @ cs) \<and> rel = join_with ''/'' cs"
proof -
  let ?root = "path_clean root"
  have root: "is_abs ?root" "comps ?root = comps root" by (simp_all add: is_abs_clean comps_clean assms(1))
  show ?thesis
  proof (cases "trim_space query = [] \<or> trim_space query = ''.''")
    case True
    hence "target = path_string True (comps root @ [])" "rel = join_with ''/'' []"
      using assms by (auto simp: resolve_workspace_path_def Let_def path_clean_abs)
    thus ?thesis by (intro exI[of _ "[]"]) simp
  next
    case False
    then obtain rel1 rel2 where t: "target = path_clean (path_join [?root, rel1])"
      and r2: "path_rel ?root target = Inr rel2" and r: "rel = (if rel2 = ''.'' then [] else rel2)"
      and "rel2 = ''.'' \<or> \<not> path_escapes rel2"
      using assms(2) by (auto simp: resolve_workspace_path_def Let_def split: sum.splits if_splits)
    hence ok: "rel2 = ''.'' \<or> \<not> climbs rel2" by (auto simp: path_escapes_def climbs_def)
    have j: "is_abs (path_join [?root, rel1])" using join_abs root(1) by blast
    hence ta: "is_abs target" "target = path_string True (comps target)"
      by (simp_all add: t is_abs_clean path_clean_abs comps_clean comps_normal)
    obtain cs where cs: "comps target = comps root @ cs" "rel = join_with ''/'' cs"
      using rel_inside[OF root(1) ta(1) r2 ok] root(2) r by auto
    moreover have "list_all normal cs" using comps_normal[OF ta(1)] cs by simp
    ultimately show ?thesis using ta(2) by auto
  qed
qed

text \<open>
  A path the local resolver accepts is a clean path at or below the workspace root, made of
  the root's components and those of the relative path it returns; the query cannot climb out.
\<close>

theorem local_path_inside:
  assumes "is_abs root" and "resolve_workspace_path root query = Inr (target, rel)"
  shows "\<exists>cs. list_all normal cs \<and> target = path_string True (comps root @ cs) \<and> rel = join_with ''/'' cs"
  by (rule resolved_inside[OF assms])

lemma descendant_prefix:
  assumes "same_or_descendant (path_clean real_root) (path_clean real_target)" "is_abs real_root" "is_abs real_target"
  shows "prefix (comps real_root) (comps real_target)"
proof -
  obtain rel where r: "path_rel (path_clean real_root) (path_clean real_target) = Inr rel"
    and s: "rel = ''.'' \<or> (rel \<noteq> ''..'' \<and> \<not> has_prefix rel ''../'')"
    using assms(1) by (auto simp: same_or_descendant_def split: sum.splits)
  obtain cs where "comps (path_clean real_target) = comps (path_clean real_root) @ cs"
    using rel_inside[OF is_abs_clean[OF assms(2)] is_abs_clean[OF assms(3)] r] s by (auto simp: climbs_def)
  thus ?thesis by (simp add: comps_clean assms prefix_def)
qed

text \<open>
  The symlink check only passes a target whose real path is at or below the real path of the
  workspace root.
\<close>

theorem symlink_check_sound:
  assumes "ensure_existing_path eval root target = None"
    and "eval root = Inr real_root" and "eval target = Inr real_target" and "is_abs real_root" and "is_abs real_target"
  shows "prefix (comps real_root) (comps real_target)"
  by (rule descendant_prefix) (use assms in \<open>auto simp: ensure_existing_path_def split: if_splits\<close>)

section \<open>Paths below the root are accepted\<close>

lemma split_on_append: "split_on x (a @ x # b) = split_on x a @ split_on x b"
  by (induction a) (auto split: list.splits)

lemma comps_append:
  "is_abs a \<Longrightarrow> comps (a @ CHR ''/'' # b) = rev (fold (clean_step True) (split_on CHR ''/'' b) (rev (comps a)))"
  by (simp add: comps_def clean_comps_def split_on_append is_abs_def)

lemma split_join_normal: "cs \<noteq> [] \<Longrightarrow> list_all normal cs \<Longrightarrow> split_on CHR ''/'' (join_with ''/'' cs) = cs"
  by (rule split_join) (auto simp: list_all_iff normal_def)

lemma path_join_normal:
  assumes "is_abs root" "path_clean root = root" "cs \<noteq> []" "list_all normal cs"
  shows "path_join [root, join_with ''/'' cs] = path_string True (comps root @ cs)"
proof -
  have ne: "root \<noteq> []" "join_with ''/'' cs \<noteq> []"
    using assms(1,3,4) by (auto simp: is_abs_def normal_def neq_Nil_conv elim: list.exhaust[of "tl cs"])
      (cases "tl cs"; auto simp: normal_def)+
  have abs: "is_abs (root @ CHR ''/'' # join_with ''/'' cs)" using assms(1) by (simp add: is_abs_def hd_append)
  have "comps (root @ CHR ''/'' # join_with ''/'' cs) = comps root @ cs"
    using comps_append[OF assms(1)] split_join_normal[OF assms(3,4)] fold_clean_normal[OF assms(4)] by simp
  thus ?thesis using ne abs by (simp add: path_join_def path_clean_abs)
qed

lemma normal_hd: "normal p \<Longrightarrow> hd p \<noteq> CHR ''/''"
  unfolding normal_def using hd_in_set by metis

lemma join_normal_rel: "cs \<noteq> [] \<Longrightarrow> list_all normal cs \<Longrightarrow> \<not> is_abs (join_with ''/'' cs) \<and> join_with ''/'' cs \<noteq> []"
proof (induction "''/''" cs rule: join_with.induct)
  case (2 p)
  thus ?case using normal_hd[of p] by (auto simp: is_abs_def normal_def)
next
  case (3 p q ps)
  thus ?case using normal_hd[of p] by (auto simp: is_abs_def normal_def hd_append)
qed simp

text \<open>
  Every path below the root that has no white space at its ends and does not start like a
  Windows climb is accepted, and comes back as itself: the file the client named.
\<close>

theorem local_path_complete:
  assumes "is_abs root" "cs \<noteq> []" "list_all normal cs" "trimmed (join_with ''/'' cs)"
    and "\<not> path_escapes (join_with ''/'' cs)"
  shows "resolve_workspace_path root (join_with ''/'' cs) =
    Inr (path_string True (comps root @ cs), join_with ''/'' cs)"
proof -
  let ?root = "path_clean root" and ?rel = "join_with ''/'' cs"
  let ?target = "path_string True (comps root @ cs)"
  have root: "is_abs ?root" "path_clean ?root = ?root" "comps ?root = comps root"
    using assms(1) by (simp_all add: is_abs_clean comps_clean path_clean_abs comps_normal)
  have n: "list_all normal (comps root @ cs)" using comps_normal[OF assms(1)] assms(3) by simp
  have target: "path_clean (path_join [?root, ?rel]) = ?target"
    using path_join_normal[OF root(1,2) assms(2,3)] root(3) n by simp
  have "?target \<noteq> ?root"
    using comps_path_string[OF n] root(3) assms(2) by (metis append_self_conv)
  moreover have "path_clean ?target = ?target" "is_abs ?target" "comps ?target = comps root @ cs" using n by simp_all
  moreover have "?target \<noteq> ''.''" by (simp add: path_string_def)
  ultimately have "path_rel ?root ?target = Inr ?rel"
    using root strip_common_prefix[of "comps root" cs] by (simp add: path_rel_def)
  thus ?thesis
    using assms(4,5) target join_normal_rel[OF assms(2,3)] join_not_dot[OF assms(3)]
    by (simp add: resolve_workspace_path_def Let_def)
qed

section \<open>Remote paths\<close>

lemma strip_keeps_last:
  assumes "\<not> ascii_space x" "\<And>c. \<not> p c x" "\<And>c d. \<not> q c d x"
  shows "u \<noteq> [] \<Longrightarrow> last u = x \<Longrightarrow> strip_spaces p q u \<noteq> [] \<and> last (strip_spaces p q u) = x"
  using assms by (induction p q u rule: strip_spaces.induct) (auto split: if_splits)

lemma strip_keeps_head:
  "\<not> ascii_space x \<Longrightarrow> (\<And>c. \<not> p x c) \<Longrightarrow> (\<And>c d. \<not> q x c d) \<Longrightarrow> strip_spaces p q (x # u) = x # u"
  by (rule strip_spaces_fix) (cases u; cases "tl u"; auto)

lemma is_abs_trim: "is_abs s \<Longrightarrow> is_abs (trim_space s)"
proof (cases s)
  case (Cons x u)
  assume "is_abs s"
  hence s: "s = CHR ''/'' # u" using Cons by (simp add: is_abs_def)
  have l: "trim_left s = s" by (simp add: s trim_left_def strip_keeps_head ascii_space_def space2_def space3_def)
  have "strip_spaces (\<lambda>c d. space2 d c) (\<lambda>c d e. space3 e d c) (rev s) \<noteq> [] \<and>
      last (strip_spaces (\<lambda>c d. space2 d c) (\<lambda>c d e. space3 e d c) (rev s)) = CHR ''/''"
    by (rule strip_keeps_last) (auto simp: s ascii_space_def space2_def space3_def)
  thus ?thesis using l by (simp add: trim_space_def trim_right_def is_abs_def hd_rev)
qed (simp add: is_abs_def)

lemma is_abs_remote_clean: "is_abs s \<Longrightarrow> is_abs (remote_clean s) \<and> path_clean (remote_clean s) = remote_clean s"
proof -
  assume "is_abs s"
  hence a: "is_abs (trim_space s)" by (rule is_abs_trim)
  hence "path_clean (trim_space s) \<noteq> ''.''" using is_abs_clean by (fastforce simp: is_abs_def)
  thus ?thesis using a by (simp add: remote_clean_def is_abs_clean path_clean_abs comps_normal)
qed

lemma join_normal_last: "cs \<noteq> [] \<Longrightarrow> list_all normal cs \<Longrightarrow> last (join_with ''/'' cs) \<noteq> CHR ''/''"
  by (induction "''/''" cs rule: join_with.induct) (auto simp: normal_def join_normal_rel dest: last_in_set)

lemma trim_slashes:
  assumes "list_all normal cs" shows "trim_char CHR ''/'' (path_string True cs) = join_with ''/'' cs"
proof (cases "cs = []")
  case True
  thus ?thesis by (simp add: path_string_def trim_char_def)
next
  case False
  have j: "join_with ''/'' cs \<noteq> []" "hd (join_with ''/'' cs) \<noteq> CHR ''/''" "last (join_with ''/'' cs) \<noteq> CHR ''/''"
    using join_normal_rel[OF False assms] join_normal_last[OF False assms] by (auto simp: is_abs_def)
  have "dropWhile (\<lambda>x. x = CHR ''/'') (path_string True cs) = join_with ''/'' cs"
    using j(1,2) by (cases "join_with ''/'' cs") (auto simp: path_string_def)
  moreover have "dropWhile (\<lambda>x. x = CHR ''/'') (rev (join_with ''/'' cs)) = rev (join_with ''/'' cs)"
    using j(1,3) by (cases "join_with ''/'' cs" rule: rev_cases) auto
  ultimately show ?thesis by (simp add: trim_char_def)
qed

text \<open>On clean, trimmed absolute paths the remote functions agree with the local ones.\<close>

lemma remote_clean_id: "is_abs s \<Longrightarrow> path_clean s = s \<Longrightarrow> trimmed s \<Longrightarrow> remote_clean s = s"
  by (auto simp: remote_clean_def is_abs_def)

lemma split_remote_id:
  assumes "is_abs s" "path_clean s = s" "trimmed s" shows "split_remote s = comps s"
proof -
  have s: "s = path_string True (comps s)" "list_all normal (comps s)"
    using assms path_clean_abs comps_normal by auto
  hence "trim_char CHR ''/'' s = join_with ''/'' (comps s)" using trim_slashes by metis
  thus ?thesis
    using remote_clean_id[OF assms] split_join_normal[OF _ s(2)] join_normal_rel[OF _ s(2)]
    by (cases "comps s = []") (auto simp: split_remote_def)
qed

lemma remote_rel_inside:
  assumes "is_abs root" "path_clean root = root" "trimmed root"
    and "is_abs target" "path_clean target = target" "trimmed target"
    and "remote_rel root target = ''.'' \<or> \<not> climbs (remote_rel root target)"
  shows "prefix (comps root) (comps target)"
proof (cases "root = target")
  case False
  obtain br tr where st: "strip_common (comps root) (comps target) = (br, tr)" by fastforce
  have ne: "root \<noteq> []" "target \<noteq> []" using assms(1,4) by (auto simp: is_abs_def)
  have r: "remote_rel root target = (if replicate (length br) ''..'' @ tr = [] then ''.''
      else join_with ''/'' (replicate (length br) ''..'' @ tr))"
    using False st ne assms by (simp add: remote_rel_def remote_clean_id split_remote_id Let_def)
  have "br = []"
  proof (rule ccontr)
    assume "br \<noteq> []"
    then obtain b bs where "br = b # bs" by (cases br) auto
    hence "remote_rel root target = join_with ''/'' (''..'' # replicate (length bs) ''..'' @ tr)" using r by simp
    thus False using assms(7) climbs_up not_dot_up by metis
  qed
  thus ?thesis using strip_common_spec[OF st] by auto
qed simp

text \<open>
  A remote path the resolver accepts is at or below the workspace root, if neither has white
  space at its end.
\<close>

theorem remote_path_inside:
  assumes "is_abs root" "trimmed (remote_clean root)"
    and "resolve_remote_path root query = Inr (target, rel)" and "trimmed target"
  shows "is_abs target \<and> prefix (comps (remote_clean root)) (comps target)"
proof -
  let ?root = "remote_clean root"
  have root: "is_abs ?root" "path_clean ?root = ?root" "?root \<noteq> []"
    using is_abs_remote_clean[OF assms(1)] by (auto simp: is_abs_def)
  show ?thesis
  proof (cases "trim_space query = [] \<or> trim_space query = ''.''")
    case True
    thus ?thesis using assms(3) root by (auto simp: resolve_remote_path_def Let_def)
  next
    case False
    then obtain rel1 where t: "target = remote_clean (path_join [?root, rel1])"
      and ok: "remote_rel ?root target = ''.'' \<or> \<not> path_escapes (remote_rel ?root target)"
      using assms(3) root(3) by (auto simp: resolve_remote_path_def Let_def split: if_splits)
    have "is_abs target" "path_clean target = target"
      using is_abs_remote_clean join_abs[OF root(1)] t by auto
    thus ?thesis
      using remote_rel_inside[OF root(1,2) assms(2) _ _ assms(4)] ok by (auto simp: path_escapes_def climbs_def)
  qed
qed

text \<open>
  With white space the remote resolver lets a query out of the root: it cleans a path whose
  trailing white space it has cut off, and the check cuts off white space again. From \<open>/root\<close> a
  query reaches its sibling directory named \<open>root\<close> and a space.
\<close>

theorem remote_path_escapes:
  "resolve_remote_path ''/root'' ''../root /x/.. /'' = Inr (''/root '', []) \<and>
   \<not> prefix (comps ''/root'') (comps ''/root '')"
  by code_simp

section \<open>Witnesses\<close>

lemma demo_resolved: "resolve_workspace_path ''/w'' ''a/../b'' = Inr (''/w/b'', ''b'')"
  by code_simp

theorem local_path_inside_witness:
  "\<exists>cs. resolve_workspace_path ''/w'' ''a/../b'' = Inr (''/w/b'', ''b'') \<and> ''/w/b'' = path_string True (comps ''/w'' @ cs)"
proof -
  have "is_abs ''/w''" by (simp add: is_abs_def)
  from local_path_inside[OF this demo_resolved] show ?thesis using demo_resolved by auto
qed

theorem local_path_complete_witness:
  "resolve_workspace_path ''/w'' (join_with ''/'' [''a'', ''b'']) = Inr (path_string True (comps ''/w'' @ [''a'', ''b'']), ''a/b'')"
proof -
  have "is_abs ''/w''" "[''a'', ''b''] \<noteq> []" "list_all normal [''a'', ''b'']"
    "trimmed (join_with ''/'' [''a'', ''b''])" "\<not> path_escapes (join_with ''/'' [''a'', ''b''])"
    by (simp_all add: is_abs_def) (code_simp)+
  from local_path_complete[OF this] show ?thesis by simp
qed

theorem symlink_check_sound_witness:
  "ensure_existing_path (\<lambda>p. Inr (''/r'' @ p)) ''/w'' ''/w/a'' = None \<and> prefix (comps ''/r/w'') (comps ''/r/w/a'')"
proof -
  have e: "ensure_existing_path (\<lambda>p. Inr (''/r'' @ p)) ''/w'' ''/w/a'' = None" by code_simp
  show ?thesis using symlink_check_sound[OF e, of "''/r/w''" "''/r/w/a''"] e by (simp add: is_abs_def)
qed

lemma demo_remote: "resolve_remote_path ''/w'' ''a/../b'' = Inr (''/w/b'', ''b'')"
  by code_simp

theorem remote_path_inside_witness:
  "resolve_remote_path ''/w'' ''a/../b'' = Inr (''/w/b'', ''b'') \<and> prefix (comps (remote_clean ''/w'')) (comps ''/w/b'')"
proof -
  have "is_abs ''/w''" by (simp add: is_abs_def)
  moreover have "trimmed (remote_clean ''/w'')" "trimmed ''/w/b''" by code_simp+
  ultimately show ?thesis using remote_path_inside[OF _ _ demo_remote] demo_remote by blast
qed

end
