(* ===== verification/Attachments.thy ===== *)
theory Attachments
  imports Notifications Paths Base64
begin

text \<open>
  Attachments of remote inputs: \<open>daemon/internal/media/attachments.go\<close>. An upload is started, gets
  its chunks in order and is finished into a file. The file system is a map from paths to file
  contents; directories are not represented. A JSON file holds the value written to it, since
  \<open>writeJSONFile\<close> replaces a file atomically. Outcomes of system calls, random ids and times are
  arguments; SHA-256, the MIME table and content sniffing are parameters.
\<close>

section \<open>Names\<close>

definition safe_rune :: "string \<Rightarrow> string" where
  "safe_rune r = (if r = ''/'' \<or> r = [CHR 0x5C] \<or> r = [CHR 0x00] then ''_'' else r)"

definition safe_attachment_name :: "string \<Rightarrow> string" where
  "safe_attachment_name name0 =
     (let name = trim_space (path_base name0) in
      if name = ''.'' \<or> name = ''..'' \<or> name = ''/'' \<or> name = [] then ''attachment.bin''
      else (let mapped = concat (map safe_rune (runes name))
            in if mapped = [] then ''attachment.bin'' else mapped))"

definition segment_char :: "char \<Rightarrow> bool" where
  "segment_char c \<longleftrightarrow> (CHR ''a'' \<le> c \<and> c \<le> CHR ''z'') \<or> (CHR ''A'' \<le> c \<and> c \<le> CHR ''Z'') \<or>
     (CHR ''0'' \<le> c \<and> c \<le> CHR ''9'') \<or> c = CHR ''_'' \<or> c = CHR ''-''"

definition segment_rune :: "string \<Rightarrow> string" where
  "segment_rune r = (case r of [c] \<Rightarrow> if segment_char c then r else ''_'' | _ \<Rightarrow> ''_'')"

definition safe_segment :: "string \<Rightarrow> string" where
  "safe_segment s =
     (let v = trim_space s in
      if v = [] then ''unknown''
      else (let b = concat (map segment_rune (runes v)) in if b = [] then ''unknown'' else b))"

section \<open>Data\<close>

definition max_bytes :: int where "max_bytes = 25 * 1024 * 1024"
definition name_max_bytes :: nat where "name_max_bytes = 255"
definition mime_max_bytes :: nat where "mime_max_bytes = 256"
definition detail_max_bytes :: nat where "detail_max_bytes = 128"

definition encoded_len :: "int \<Rightarrow> int" where
  "encoded_len n = (n + 2) div 3 * 4"

record upload =
  up_session :: string
  up_id :: string
  up_attachment :: string
  up_name :: string
  up_kind :: string
  up_mime :: string
  up_detail :: string
  up_expected_size :: int
  up_expected_sha :: string
  up_received :: int
  up_last_seq :: int
  up_created :: string
  up_updated :: string

record stored_attachment =
  sa_session :: string
  sa_attachment :: attachment
  sa_created :: string

record descriptor =
  ds_name :: string
  ds_kind :: string
  ds_mime :: string
  ds_detail :: string

record attachment_handle =
  ah_id :: string
  ah_media_id :: string
  ah_kind :: string
  ah_name :: string
  ah_mime :: string
  ah_size :: int
  ah_detail :: string
  ah_host_owned :: bool

datatype file_content =
    FileBytes string
  | UploadFile upload
  | AttachmentFile stored_attachment

type_synonym media_files = "string \<rightharpoonup> file_content"

text \<open>
  \<open>me_mime\<close> is \<open>mime.TypeByExtension\<close> of the lower-case extension of a name, \<open>me_json_size\<close> the
  size of a JSON file, \<open>me_parse\<close> reads a time in nanoseconds.
\<close>

record media_env =
  me_data_dir :: string
  me_has_session :: "string \<Rightarrow> bool"
  me_mime :: "string \<Rightarrow> string"
  me_detect :: "string \<Rightarrow> string"
  me_sha :: "string \<Rightarrow> string"
  me_parse :: "string \<Rightarrow> int option"
  me_json_size :: "file_content \<Rightarrow> int"

text \<open>
  What the system does in one call: the error of each step, if it fails. A failing write still
  writes the first \<open>fst\<close> bytes.
\<close>

record io_plan =
  ip_id :: string
  ip_now :: int
  ip_stamp :: string
  ip_read :: "string option"
  ip_mkdir :: "string option"
  ip_meta :: "string option"
  ip_open :: "string option"
  ip_seek :: "string option"
  ip_write :: "(nat \<times> string) option"
  ip_close :: "string option"
  ip_hash :: "string option"
  ip_rename :: "string option"

definition file_size :: "media_env \<Rightarrow> file_content \<Rightarrow> int" where
  "file_size E c = (case c of FileBytes b \<Rightarrow> int (length b) | _ \<Rightarrow> me_json_size E c)"

definition attachment_dir :: "media_env \<Rightarrow> string \<Rightarrow> string \<Rightarrow> string" where
  "attachment_dir E sid aid =
     path_join [me_data_dir E, ''runtime'', ''uploads'', safe_segment sid, safe_segment aid]"



definition record_path :: "media_env \<Rightarrow> string \<Rightarrow> string \<Rightarrow> string" where
  "record_path E sid aid = path_join [attachment_dir E sid aid, ''attachment.json'']"

definition file_path :: "media_env \<Rightarrow> string \<Rightarrow> string \<Rightarrow> string \<Rightarrow> string" where
  "file_path E sid aid name = path_join [path_join [attachment_dir E sid aid, ''file''], name]"

section \<open>Descriptors\<close>

text \<open>Lower case of ASCII; no other letter lowers to one of the ASCII letters compared with.\<close>

definition lower_char :: "char \<Rightarrow> char" where
  "lower_char c = (if CHR ''A'' \<le> c \<and> c \<le> CHR ''Z'' then char_of (of_char c + 32 :: nat) else c)"

definition is_native_image :: "string \<Rightarrow> bool" where
  "is_native_image m \<longleftrightarrow> m \<in> set [''image/png'', ''image/jpeg'', ''image/gif'', ''image/webp'']"

definition attachment_mime :: "media_env \<Rightarrow> string \<Rightarrow> string \<Rightarrow> string \<Rightarrow> string" where
  "attachment_mime E name explicit body =
     (if explicit \<noteq> [] then explicit
      else if me_mime E name \<noteq> [] then me_mime E name
      else if body \<noteq> [] then me_detect E body
      else ''application/octet-stream'')"

definition attachment_kind :: "string \<Rightarrow> string \<Rightarrow> string" where
  "attachment_kind explicit mime0 =
     (let m = map lower_char (trim_space (hd (split_on CHR '';'' mime0))) in
      if explicit = ''image'' \<and> is_native_image m then ''image''
      else if explicit = [] \<and> is_native_image m then ''image''
      else ''file'')"

definition too_large :: "string \<Rightarrow> go_error" where
  "too_large what = ActionError 413 ''attachment_metadata_too_large'' (''attachment '' @ what @ '' is too long'')"

definition descriptor_of ::
  "media_env \<Rightarrow> string \<Rightarrow> string \<Rightarrow> string \<Rightarrow> string \<Rightarrow> string \<Rightarrow> go_error + descriptor" where
  "descriptor_of E name kind mime0 detail0 body =
     (let safe = safe_attachment_name name; explicit = trim_space mime0; detail = trim_space detail0 in
      if length safe > name_max_bytes then Inl (too_large ''name'')
      else if length explicit > mime_max_bytes then Inl (too_large ''mime_type'')
      else if length detail > detail_max_bytes then Inl (too_large ''detail'')
      else (let m = attachment_mime E safe explicit body; k = attachment_kind (trim_space kind) m in
        Inr \<lparr>ds_name = safe, ds_kind = k, ds_mime = m,
             ds_detail = (if detail = [] \<and> k = ''image'' then ''high'' else detail)\<rparr>))"

definition handle_of :: "attachment \<Rightarrow> attachment_handle" where
  "handle_of a = \<lparr>ah_id = at_id a, ah_media_id = at_id a, ah_kind = at_kind a, ah_name = at_name a,
     ah_mime = at_mime a, ah_size = at_size a, ah_detail = at_detail a, ah_host_owned = True\<rparr>"

text \<open>\<open>SanitizeInputAttachments\<close>; \<open>stat\<close> is \<open>os.Stat\<close>: whether it is a directory, and the size.\<close>

definition sanitize_one :: "media_env \<Rightarrow> (string \<Rightarrow> (bool \<times> int) option) \<Rightarrow> attachment \<Rightarrow> attachment option" where
  "sanitize_one E stat a0 =
     (let a = a0\<lparr>at_id := trim_space (at_id a0), at_kind := trim_space (at_kind a0), at_path := trim_space (at_path a0),
                at_name := trim_space (at_name a0), at_mime := trim_space (at_mime a0), at_detail := trim_space (at_detail a0)\<rparr> in
      if at_id a = [] \<or> at_path a = [] then None
      else (let name = (if at_name a = [] then path_base (at_path a) else at_name a);
                m = (if at_mime a = [] then me_mime E name else at_mime a);
                size = (if at_size a \<le> 0 then (case stat (at_path a) of Some (False, n) \<Rightarrow> n | _ \<Rightarrow> at_size a) else at_size a)
            in Some (a\<lparr>at_kind := (if at_kind a \<noteq> ''image'' then ''file'' else at_kind a),
                       at_name := name, at_mime := m, at_size := size\<rparr>)))"

definition sanitize_attachments ::
  "media_env \<Rightarrow> (string \<Rightarrow> (bool \<times> int) option) \<Rightarrow> attachment list \<Rightarrow> attachment list" where
  "sanitize_attachments E stat as = List.map_filter (sanitize_one E stat) as"

section \<open>Ingesting in one call\<close>

definition store_failed :: "string \<Rightarrow> go_error" where
  "store_failed m = ActionError 500 ''attachment_store_failed'' m"

definition session_check :: "media_env \<Rightarrow> string \<Rightarrow> go_error + string" where
  "session_check E sid0 =
     (let sid = trim_space sid0 in
      if sid = [] then Inl (ActionError 400 ''session_id_required'' ''session_id required'')
      else if \<not> me_has_session E sid then Inl (ActionError 404 ''session_not_found'' ''session not found'')
      else Inr sid)"

record ingest_params =
  ig_session :: string
  ig_name :: string
  ig_kind :: string
  ig_mime :: string
  ig_detail :: string
  ig_content :: string

definition attachment_too_large :: go_error where
  "attachment_too_large = ActionError 413 ''attachment_too_large'' ''attachment is too large''"

text \<open>\<open>os.WriteFile\<close> truncates first, so a failed write leaves a prefix.\<close>

definition ingest_attachment ::
  "media_env \<Rightarrow> io_plan \<Rightarrow> ingest_params \<Rightarrow> media_files \<Rightarrow> (go_error + string \<times> attachment_handle) \<times> media_files" where
  "ingest_attachment E io p fs =
     (case session_check E (ig_session p) of
        Inl e \<Rightarrow> (Inl e, fs)
      | Inr sid \<Rightarrow>
          (let encoded = trim_space (ig_content p) in
           if int (length encoded) > encoded_len max_bytes then (Inl attachment_too_large, fs)
           else (case std_decode encoded of
              None \<Rightarrow> (Inl (ActionError 400 ''attachment_content_invalid'' ''attachment content_base64 is invalid''), fs)
            | Some body \<Rightarrow>
                (if int (length body) > max_bytes then (Inl attachment_too_large, fs)
                 else (let aid = ''att_'' @ ip_id io in
                   case descriptor_of E (ig_name p) (ig_kind p) (ig_mime p) (ig_detail p) body of
                     Inl e \<Rightarrow> (Inl e, fs)
                   | Inr d \<Rightarrow>
                       (case ip_mkdir io of
                          Some m \<Rightarrow> (Inl (store_failed m), fs)
                        | None \<Rightarrow>
                            (let target = file_path E sid aid (ds_name d) in
                             case ip_write io of
                               Some (k, m) \<Rightarrow> (Inl (store_failed m), fs(target \<mapsto> FileBytes (take k body)))
                             | None \<Rightarrow>
                                 (let fs1 = fs(target \<mapsto> FileBytes body);
                                      a = \<lparr>at_id = aid, at_kind = ds_kind d, at_path = target, at_name = ds_name d,
                                           at_mime = ds_mime d, at_size = int (length body), at_detail = ds_detail d\<rparr>
                                  in case ip_meta io of
                                       Some m \<Rightarrow> (Inl (store_failed m), fs1)
                                     | None \<Rightarrow> (Inr (sid, handle_of a),
                                         fs1(record_path E sid aid \<mapsto> AttachmentFile
                                           \<lparr>sa_session = sid, sa_attachment = a, sa_created = ip_stamp io\<rparr>))))))))))"

section \<open>Uploads\<close>



















section \<open>Using attachments\<close>

definition load_attachment ::
  "media_env \<Rightarrow> io_plan \<Rightarrow> string \<Rightarrow> string \<Rightarrow> media_files \<Rightarrow> go_error + attachment" where
  "load_attachment E io sid aid fs =
     (let missing = ActionError 404 ''attachment_not_found'' ''attachment not found'' in
      case fs (record_path E sid aid) of
        None \<Rightarrow> Inl missing
      | Some content \<Rightarrow>
          (case ip_read io of
             Some m \<Rightarrow> Inl (ActionError 500 ''attachment_read_failed'' m)
           | None \<Rightarrow>
               (case content of
                  AttachmentFile r \<Rightarrow>
                    (let a = sa_attachment r in
                     if sa_session r \<noteq> trim_space sid \<or> at_id a \<noteq> trim_space aid \<or> at_path a = [] then Inl missing
                     else (case fs (at_path a) of
                         None \<Rightarrow> Inl (ActionError 404 ''attachment_file_not_found'' ''attachment file not found'')
                       | Some c \<Rightarrow> Inr (if at_size a \<le> 0 then a\<lparr>at_size := file_size E c\<rparr> else a)))
                | _ \<Rightarrow> Inl (ActionError 500 ''attachment_metadata_invalid'' []))))"

fun resolve_attachments ::
  "media_env \<Rightarrow> io_plan \<Rightarrow> string \<Rightarrow> attachment list \<Rightarrow> media_files \<Rightarrow> go_error + attachment list" where
  "resolve_attachments E io sid [] fs = Inr []"
| "resolve_attachments E io sid (a # as) fs =
     (if \<not> blank (at_path a)
        then Inl (ActionError 400 ''attachment_path_forbidden'' ''remote attachments must use Host-owned attachment handles'')
      else if blank (at_id a) then Inl (ActionError 400 ''attachment_id_required'' ''attachment id required'')
      else (case load_attachment E io sid (trim_space (at_id a)) fs of
          Inl e \<Rightarrow> Inl e
        | Inr stored \<Rightarrow>
            (case resolve_attachments E io sid as fs of Inl e \<Rightarrow> Inl e | Inr out \<Rightarrow> Inr (stored # out))))"

section \<open>Names cannot leave their directory\<close>

lemma is_rune_bytes: "is_rune r \<Longrightarrow> (\<exists>c. r = [c]) \<or> list_all (\<lambda>c. 128 \<le> (of_char c :: nat)) r"
proof -
  assume r: "is_rune r"
  consider "length r = 1" | "lead2 r" "length r = 2" | "lead3 r" "length r = 3" | "lead4 r" "length r = 4"
    using r by (auto simp: is_rune_def rune_width_def split: if_splits)
  thus ?thesis
    by cases (auto simp: length_Suc_conv list_all_length lead2_def lead3_def lead4_def byte_in_def
        less_Suc_eq numeral_2_eq_2 numeral_3_eq_3 eval_nat_numeral)
qed

lemma safe_rune_no_slash: "is_rune r \<Longrightarrow> CHR ''/'' \<notin> set (safe_rune r)"
  using is_rune_bytes[of r] by (auto simp: safe_rune_def list_all_iff)

lemma safe_rune_nonempty: "is_rune r \<Longrightarrow> safe_rune r \<noteq> []"
  by (auto simp: safe_rune_def is_rune_def)

lemma safe_runes_dots:
  "set (concat (map safe_rune (runes s))) \<subseteq> {CHR ''.''} \<Longrightarrow> concat (map safe_rune (runes s)) = s"
proof (induction s rule: runes.induct)
  case (1 s)
  show ?case
  proof (cases "s = [] \<or> rune_width s = 0")
    case True
    show ?thesis
    proof (cases "s = []")
      case False
      hence "runes s = rune_error # runes (tl s)" using True by (subst runes.simps) simp
      thus ?thesis using 1(3) by (simp add: safe_rune_def rune_error_def)
    qed simp
  next
    case False
    let ?w = "rune_width s"
    have rs: "runes s = take ?w s # runes (drop ?w s)" using False by (subst runes.simps) simp
    have "safe_rune (take ?w s) = take ?w s" using 1(3) by (auto simp: rs safe_rune_def)
    moreover have "concat (map safe_rune (runes (drop ?w s))) = drop ?w s"
      using 1(2) 1(3) False by (simp add: rs)
    ultimately show ?thesis by (simp add: rs)
  qed
qed

lemma safe_name_normal: "normal (safe_attachment_name name)"
proof -
  define n where "n = trim_space (path_base name)"
  let ?m = "concat (map safe_rune (runes n))"
  have slash: "CHR ''/'' \<notin> set ?m"
    using runes_are_runes[of n] safe_rune_no_slash by (auto simp: list_all_iff)
  have dots: "?m = n" if "?m = ''.'' \<or> ?m = ''..''"
  proof (rule safe_runes_dots)
    show "set ?m \<subseteq> {CHR ''.''}" using that by (metis empty_set insert_subset list.simps(15) order_refl)
  qed
  show ?thesis
    using slash dots by (auto simp: safe_attachment_name_def normal_def Let_def n_def[symmetric])
qed

lemma segment_rune_chars: "c \<in> set (segment_rune r) \<Longrightarrow> segment_char c"
  by (auto simp: segment_rune_def segment_char_def split: list.splits if_splits)

lemma segment_chars_normal: "s \<noteq> [] \<Longrightarrow> \<forall>c \<in> set s. segment_char c \<Longrightarrow> normal s"
  by (auto simp: normal_def segment_char_def)

lemma safe_segment_normal: "normal (safe_segment s)"
proof -
  have "\<forall>c \<in> set (safe_segment s). segment_char c"
    by (simp add: safe_segment_def Let_def) (auto dest: segment_rune_chars simp: segment_char_def)
  moreover have "safe_segment s \<noteq> []" by (simp add: safe_segment_def Let_def)
  ultimately show ?thesis by (rule segment_chars_normal[rotated])
qed

section \<open>Paths\<close>

lemma path_join_comps:
  assumes "is_abs root" "cs \<noteq> []" "list_all normal cs"
  shows "path_join (root # cs) = path_string True (comps root @ cs)"
proof -
  have "filter (\<lambda>p. p \<noteq> []) (root # cs) = root # cs"
    using assms by (auto simp: is_abs_def filter_id_conv list_all_iff normal_def)
  moreover have "join_with ''/'' (root # cs) = root @ CHR ''/'' # join_with ''/'' cs" using assms(2) by (cases cs) auto
  moreover have "comps (root @ CHR ''/'' # join_with ''/'' cs) = comps root @ cs"
    using comps_append[OF assms(1)] split_join_normal[OF assms(2,3)] fold_clean_normal[OF assms(3)] by simp
  moreover have "is_abs (root @ CHR ''/'' # join_with ''/'' cs)" using assms(1) by (simp add: is_abs_def hd_append)
  ultimately show ?thesis by (simp add: path_join_def path_clean_abs)
qed

lemma normal_names [simp]:
  "normal ''runtime''" "normal ''uploads''" "normal ''upload.json''" "normal ''upload.part''"
  "normal ''attachment.json''" "normal ''file''"
  by (simp_all add: normal_def)

definition dir_comps :: "media_env \<Rightarrow> string \<Rightarrow> string \<Rightarrow> string list" where
  "dir_comps E sid aid = comps (me_data_dir E) @ [''runtime'', ''uploads'', safe_segment sid, safe_segment aid]"

lemma dir_comps_normal: "is_abs (me_data_dir E) \<Longrightarrow> list_all normal (dir_comps E sid aid)"
  by (simp add: dir_comps_def comps_normal safe_segment_normal)

lemma attachment_dir_string: "is_abs (me_data_dir E) \<Longrightarrow> attachment_dir E sid aid = path_string True (dir_comps E sid aid)"
  by (simp add: attachment_dir_def dir_comps_def path_join_comps safe_segment_normal)

lemma in_dir:
  assumes "is_abs (me_data_dir E)" "cs \<noteq> []" "list_all normal cs"
  shows "path_join (attachment_dir E sid aid # cs) = path_string True (dir_comps E sid aid @ cs)"
  using assms path_join_comps[of "attachment_dir E sid aid" cs] dir_comps_normal[OF assms(1)]
  by (simp add: attachment_dir_string)

lemma file_path_string:
  assumes "is_abs (me_data_dir E)" "normal name"
  shows "file_path E sid aid name = path_string True (dir_comps E sid aid @ [''file'', name])"
proof -
  have n: "list_all normal (dir_comps E sid aid @ [''file''])" using dir_comps_normal[OF assms(1)] by simp
  have "path_join [attachment_dir E sid aid, ''file''] = path_string True (dir_comps E sid aid @ [''file''])"
    using in_dir[OF assms(1), of "[''file'']"] by simp
  thus ?thesis using path_join_comps[of "path_string True (dir_comps E sid aid @ [''file''])" "[name]"] n assms(2)
    by (simp add: file_path_def)
qed


text \<open>
  Whatever name, session and attachment id a client sends, the file is written in the
  directory of that attachment below the data directory, under one component of its own.
\<close>

theorem attachment_path_confined:
  assumes "is_abs (me_data_dir E)"
  shows "comps (file_path E sid aid (safe_attachment_name name)) =
      comps (me_data_dir E) @ [''runtime'', ''uploads'', safe_segment sid, safe_segment aid, ''file'', safe_attachment_name name]
    \<and> normal (safe_segment sid) \<and> normal (safe_segment aid) \<and> normal (safe_attachment_name name)"
  using assms dir_comps_normal[OF assms, of sid aid]
  by (simp add: file_path_string safe_name_normal safe_segment_normal) (simp add: dir_comps_def)


section \<open>Assembling an upload\<close>

















text \<open>
  C23: A remote input only gets attachments the host stored for that very session: a path of the
  client's own is refused, and so is the id of another session's attachment.
\<close>

theorem resolved_attachments_owned:
  assumes "resolve_attachments E io sid as fs = Inr out"
  shows "list_all2 (\<lambda>a stored. blank (at_path a) \<and> at_id stored = trim_space (at_id a) \<and>
    (\<exists>r. fs (record_path E sid (trim_space (at_id a))) = Some (AttachmentFile r) \<and> sa_session r = trim_space sid \<and>
       at_path stored = at_path (sa_attachment r) \<and> fs (at_path stored) \<noteq> None)) as out"
  using assms
proof (induction as arbitrary: out)
  case (Cons a as)
  obtain stored rest where a: "blank (at_path a)" "out = stored # rest"
      "load_attachment E io sid (trim_space (at_id a)) fs = Inr stored" "resolve_attachments E io sid as fs = Inr rest"
    using Cons.prems by (auto split: if_splits sum.splits)
  moreover have "at_id stored = trim_space (at_id a) \<and>
    (\<exists>r. fs (record_path E sid (trim_space (at_id a))) = Some (AttachmentFile r) \<and> sa_session r = trim_space sid \<and>
       at_path stored = at_path (sa_attachment r) \<and> fs (at_path stored) \<noteq> None)"
    using a(3) by (auto simp: load_attachment_def Let_def split: option.splits file_content.splits if_splits)
  ultimately show ?case using Cons.IH by simp
qed simp

section \<open>Witnesses\<close>

definition demo_media :: media_env where
  "demo_media = \<lparr>me_data_dir = ''/d'', me_has_session = (\<lambda>s. True), me_mime = (\<lambda>n. []), me_detect = (\<lambda>b. []),
     me_sha = (\<lambda>b. []), me_parse = (\<lambda>t. None), me_json_size = (\<lambda>c. 0)\<rparr>"

definition demo_io :: io_plan where
  "demo_io = \<lparr>ip_id = ''1'', ip_now = 0, ip_stamp = [], ip_read = None, ip_mkdir = None, ip_meta = None, ip_open = None,
     ip_seek = None, ip_write = None, ip_close = None, ip_hash = None, ip_rename = None\<rparr>"











theorem attachment_path_confined_witness:
  "comps (file_path demo_media ''../x'' ''..'' (safe_attachment_name ''../../etc/passwd'')) =
     [''d'', ''runtime'', ''uploads'', ''___x'', ''__'', ''file'', ''passwd'']"
proof -
  have "is_abs (me_data_dir demo_media)" by (simp add: demo_media_def is_abs_def)
  moreover have "comps (me_data_dir demo_media) = [''d'']" "safe_segment ''../x'' = ''___x''" "safe_segment ''..'' = ''__''"
    "safe_attachment_name ''../../etc/passwd'' = ''passwd''" by code_simp+
  ultimately show ?thesis using attachment_path_confined[of demo_media "''../x''" "''..''" "''../../etc/passwd''"] by simp
qed

definition demo_stored :: attachment where
  "demo_stored = \<lparr>at_id = ''i'', at_kind = ''file'', at_path = ''/f'', at_name = ''f'', at_mime = [], at_size = 1, at_detail = []\<rparr>"

definition demo_files :: media_files where
  "demo_files = [record_path demo_media ''s'' ''i'' \<mapsto> AttachmentFile \<lparr>sa_session = ''s'', sa_attachment = demo_stored, sa_created = []\<rparr>,
     ''/f'' \<mapsto> FileBytes ''A'']"

theorem resolved_attachments_owned_witness:
  "resolve_attachments demo_media demo_io ''s'' [demo_stored\<lparr>at_path := []\<rparr>] demo_files = Inr [demo_stored] \<and>
   demo_files (record_path demo_media ''s'' ''i'') \<noteq> None"
proof -
  have r: "resolve_attachments demo_media demo_io ''s'' [demo_stored\<lparr>at_path := []\<rparr>] demo_files = Inr [demo_stored]" by code_simp
  have "trim_space ''i'' = ''i''" by code_simp
  thus ?thesis using resolved_attachments_owned[OF r] r by (auto simp: demo_stored_def)
qed

end
