(* ===== verification/Terminal.thy ===== *)
theory Terminal
  imports SessionEvents Paths "HOL-Library.Word"
begin

text \<open>
  The terminals of a host (\<open>daemon/internal/core/terminal/manager.go\<close>): sessions with a bounded
  output history, viewers attached through control connections, leases for input, and the
  operations of the manager. A viewer is a reference into a heap, as in the code, where a session
  and the goroutines share it. Times are nanoseconds; pseudo terminals, SSH and random ids are
  arguments. What runs at the same time is in \<open>TerminalStreams\<close>.
\<close>

section \<open>Frames and output chunks\<close>

definition terminal_input_max :: nat where "terminal_input_max = 64 * 1024"
definition output_frame_max :: nat where "output_frame_max = 64 * 1024"
definition history_max_frames :: nat where "history_max_frames = 2000"
definition history_max_bytes :: int where "history_max_bytes = 256 * 1024"
definition viewer_buffer :: nat where "viewer_buffer = 4096"
definition default_cols :: "16 word" where "default_cols = 100"
definition default_rows :: "16 word" where "default_rows = 28"

record term_frame =
  tf_type :: string
  tf_terminal :: string
  tf_workspace :: string
  tf_target :: string
  tf_status :: string
  tf_seq :: int
  tf_viewer :: string
  tf_lease :: string
  tf_heartbeat :: int
  tf_data :: string
  tf_reason :: string
  tf_can_input :: bool

definition terminal_size :: "16 word \<Rightarrow> 16 word \<Rightarrow> 16 word \<times> 16 word" where
  "terminal_size cols rows = (if cols = 0 then default_cols else cols, if rows = 0 then default_rows else rows)"

function chunk_loop :: "string \<Rightarrow> string list" where
  "chunk_loop data =
     (if length data > output_frame_max then take output_frame_max data # chunk_loop (drop output_frame_max data)
      else if data \<noteq> [] then [data] else [])"
  by pat_completeness auto
termination by (relation "measure length") (auto simp: output_frame_max_def)

declare chunk_loop.simps [simp del]

definition output_chunks :: "string \<Rightarrow> string list" where
  "output_chunks data = (if length data \<le> output_frame_max then [data] else chunk_loop data)"

section \<open>Sessions and viewers\<close>

text \<open>
  \<open>ts_local\<close>: the command and the pseudo terminal are there; \<open>ts_ssh\<close>: the SSH workspace is set;
  \<open>ts_once\<close>: \<open>closeOnce\<close> has run; \<open>ts_retention\<close>: \<open>retentionUntil\<close>, with the timer running.
\<close>

record tsession =
  ts_id :: string
  ts_workspace :: string
  ts_agent :: string
  ts_target :: string
  ts_cwd :: string
  ts_shell :: string
  ts_writer :: string
  ts_status :: string
  ts_output_seq :: int
  ts_history :: "term_frame list"
  ts_history_bytes :: int
  ts_created :: int
  ts_updated :: int
  ts_viewers :: "(string \<times> nat) list"
  ts_retention :: "int option"
  ts_local :: bool
  ts_ssh :: bool
  ts_unsubscribe :: bool
  ts_ssh_open :: bool
  ts_once :: bool

record tviewer =
  vw_conn :: string
  vw_controller :: string
  vw_id :: string
  vw_lease :: string
  vw_terminal :: string
  vw_workspace :: string
  vw_target :: string
  vw_status :: string
  vw_output_seq :: int
  vw_delivered :: int
  vw_rendered :: int
  vw_heartbeat :: int
  vw_last_ack :: int
  vw_last_ack_at :: int
  vw_frames :: "term_frame list"
  vw_closed :: bool

definition new_terminal_session ::
  "string \<Rightarrow> int \<Rightarrow> string \<Rightarrow> string \<Rightarrow> string \<Rightarrow> string \<Rightarrow> string \<Rightarrow> tsession" where
  "new_terminal_session rnd now ws agent target cwd shell =
     \<lparr>ts_id = ''term_'' @ rnd, ts_workspace = ws, ts_agent = agent, ts_target = target, ts_cwd = cwd,
      ts_shell = shell, ts_writer = [], ts_status = ''open'', ts_output_seq = 0, ts_history = [],
      ts_history_bytes = 0, ts_created = now, ts_updated = now, ts_viewers = [], ts_retention = None,
      ts_local = False, ts_ssh = False, ts_unsubscribe = False, ts_ssh_open = False, ts_once = False\<rparr>"

definition new_viewer :: "string \<Rightarrow> string \<Rightarrow> int \<Rightarrow> string \<Rightarrow> string \<Rightarrow> tviewer" where
  "new_viewer rnd1 rnd2 now conn controller =
     \<lparr>vw_conn = conn, vw_controller = controller, vw_id = ''viewer_'' @ rnd1, vw_lease = ''lease_'' @ rnd2,
      vw_terminal = [], vw_workspace = [], vw_target = [], vw_status = [], vw_output_seq = 0, vw_delivered = 0,
      vw_rendered = 0, vw_heartbeat = 0, vw_last_ack = 0, vw_last_ack_at = now, vw_frames = [], vw_closed = False\<rparr>"

text \<open>The argument \<open>now\<close> of \<open>canInputLocked\<close> is not used.\<close>

definition can_input :: "tviewer \<Rightarrow> bool" where
  "can_input v \<longleftrightarrow> \<not> (vw_closed v \<or> vw_id v = [] \<or> vw_lease v = [])"

definition bind_terminal :: "tsession \<Rightarrow> int \<Rightarrow> tviewer \<Rightarrow> tviewer" where
  "bind_terminal s after v = v\<lparr>vw_terminal := ts_id s, vw_workspace := ts_workspace s, vw_target := ts_target s,
     vw_status := ts_status s, vw_output_seq := ts_output_seq s,
     vw_rendered := (if after > vw_rendered v then after else vw_rendered v),
     vw_delivered := (if after > vw_delivered v then after else vw_delivered v)\<rparr>"

definition session_frame :: "string \<Rightarrow> string \<Rightarrow> string \<Rightarrow> tsession \<Rightarrow> term_frame" where
  "session_frame type data reason s =
     \<lparr>tf_type = type, tf_terminal = ts_id s, tf_workspace = ts_workspace s, tf_target = ts_target s,
      tf_status = ts_status s, tf_seq = ts_output_seq s, tf_viewer = [], tf_lease = [], tf_heartbeat = 0,
      tf_data = data, tf_reason = reason, tf_can_input = False\<rparr>"

text \<open>What \<open>enqueue\<close> notes in the viewer, and the frame it sends.\<close>

definition note_frame :: "term_frame \<Rightarrow> tviewer \<Rightarrow> tviewer" where
  "note_frame f v =
     (if tf_terminal f = [] then v
      else v\<lparr>vw_terminal := tf_terminal f, vw_workspace := tf_workspace f, vw_target := tf_target f,
             vw_status := tf_status f,
             vw_output_seq := (if tf_seq f > vw_output_seq v then tf_seq f else vw_output_seq v),
             vw_delivered := (if tf_type f = ''terminal.output'' \<and> tf_seq f > vw_delivered v then tf_seq f
                              else vw_delivered v)\<rparr>)"

definition stamped :: "term_frame \<Rightarrow> tviewer \<Rightarrow> term_frame" where
  "stamped f v = (if tf_terminal f = [] then f else f\<lparr>tf_can_input := can_input v\<rparr>)"

text \<open>
  \<open>enqueue\<close>: the first argument is the number of frames the viewer's goroutine takes while the call
  waits for room in a full channel; the wait ends after five seconds or with the connection.
\<close>

definition enqueue_frame :: "nat \<Rightarrow> term_frame \<Rightarrow> tviewer \<Rightarrow> bool \<times> tviewer" where
  "enqueue_frame drained f v =
     (if vw_closed v then (False, v)
      else (let v1 = note_frame f v; g = stamped f v1 in
        if length (vw_frames v1) < viewer_buffer then (True, v1\<lparr>vw_frames := vw_frames v1 @ [g]\<rparr>)
        else (let rest = drop drained (vw_frames v1) in
          if length rest < viewer_buffer then (True, v1\<lparr>vw_frames := rest @ [g]\<rparr>) else (False, v1))))"

definition close_viewer :: "tviewer \<Rightarrow> tviewer" where
  "close_viewer v = v\<lparr>vw_closed := True\<rparr>"

definition heartbeat_frame :: "tviewer \<Rightarrow> (term_frame \<times> tviewer) option" where
  "heartbeat_frame v =
     (if vw_closed v \<or> vw_terminal v = [] then None
      else (let v1 = v\<lparr>vw_heartbeat := vw_heartbeat v + 1\<rparr> in
        Some (\<lparr>tf_type = ''terminal.heartbeat'', tf_terminal = vw_terminal v1, tf_workspace = vw_workspace v1,
               tf_target = vw_target v1, tf_status = vw_status v1, tf_seq = vw_output_seq v1, tf_viewer = vw_id v1,
               tf_lease = vw_lease v1, tf_heartbeat = vw_heartbeat v1, tf_data = [], tf_reason = [],
               tf_can_input = can_input v1\<rparr>, v1)))"

section \<open>The output history\<close>

fun trim_history :: "term_frame list \<Rightarrow> int \<Rightarrow> term_frame list \<times> int" where
  "trim_history [] bytes = ([], if bytes > history_max_bytes then 0 else bytes)"
| "trim_history (f # fs) bytes =
     (if length (f # fs) > history_max_frames \<or> bytes > history_max_bytes
      then trim_history fs (max 0 (bytes - int (length (tf_data f))))
      else (f # fs, bytes))"

definition remember_output :: "term_frame \<Rightarrow> tsession \<Rightarrow> tsession" where
  "remember_output f s =
     (if tf_type f \<noteq> ''terminal.output'' \<or> tf_data f = [] then s
      else (case trim_history (ts_history s @ [f]) (ts_history_bytes s + int (length (tf_data f))) of
          (fs, bytes) \<Rightarrow> s\<lparr>ts_history := fs, ts_history_bytes := bytes\<rparr>))"

definition history_after :: "int \<Rightarrow> tsession \<Rightarrow> term_frame list" where
  "history_after after s = filter (\<lambda>f. tf_seq f > after) (ts_history s)"

fun append_chunks_locked :: "string list \<Rightarrow> tsession \<Rightarrow> tsession \<times> term_frame list" where
  "append_chunks_locked [] s = (s, [])"
| "append_chunks_locked (c # cs) s =
     (let s1 = s\<lparr>ts_output_seq := ts_output_seq s + 1\<rparr>; f = session_frame ''terminal.output'' c [] s1 in
      case append_chunks_locked cs (remember_output f s1) of (s2, fs) \<Rightarrow> (s2, f # fs))"

text \<open>The critical section of \<open>appendOutput\<close>; the frames are sent to the viewers after it.\<close>

definition append_output :: "int \<Rightarrow> string \<Rightarrow> tsession \<Rightarrow> tsession \<times> term_frame list \<times> nat list" where
  "append_output now data s =
     (if data = [] then (s, [], [])
      else (case append_chunks_locked (output_chunks data) (s\<lparr>ts_updated := now\<rparr>) of
          (s1, fs) \<Rightarrow> (s1, fs, map snd (ts_viewers s1))))"

section \<open>Operations of a session\<close>

record attach_result =
  ar_terminal :: string
  ar_workspace :: string
  ar_target :: string
  ar_status :: string
  ar_viewer_device :: string
  ar_viewer :: string
  ar_lease :: string
  ar_conn :: string
  ar_writer :: string
  ar_seq :: int
  ar_can_input :: bool

record ack_result =
  ak_terminal :: string
  ak_status :: string
  ak_seq :: int
  ak_writer :: string
  ak_can_input :: bool

record open_result =
  op_terminal :: string
  op_workspace :: string
  op_target :: string
  op_shell :: string
  op_cwd :: string
  op_status :: string
  op_writer :: string
  op_seq :: int

record terminal_tab =
  tb_terminal :: string
  tb_workspace :: string
  tb_agent :: string
  tb_target :: string
  tb_shell :: string
  tb_cwd :: string
  tb_status :: string
  tb_writer :: string
  tb_seq :: int
  tb_created :: string
  tb_updated :: string

type_synonym viewers = "nat \<Rightarrow> tviewer option"

definition terminal_closed :: go_error where
  "terminal_closed = ActionError 410 ''terminal_closed'' ''terminal is closed''"

definition terminal_not_found :: go_error where
  "terminal_not_found = ActionError 404 ''terminal_not_found'' ''terminal not found''"

definition viewer_not_ready :: go_error where
  "viewer_not_ready = ActionError 409 ''terminal_viewer_not_ready'' ''terminal viewer is not attached''"

definition viewer_mismatch :: go_error where
  "viewer_mismatch = ActionError 403 ''terminal_viewer_mismatch'' ''terminal viewer lease does not match controller''"

definition ack_of :: "tsession \<Rightarrow> ack_result" where
  "ack_of s = \<lparr>ak_terminal = ts_id s, ak_status = ts_status s, ak_seq = ts_output_seq s, ak_writer = ts_writer s,
     ak_can_input = False\<rparr>"

definition open_result_of :: "tsession \<Rightarrow> open_result" where
  "open_result_of s = \<lparr>op_terminal = ts_id s, op_workspace = ts_workspace s, op_target = ts_target s,
     op_shell = ts_shell s, op_cwd = ts_cwd s, op_status = ts_status s, op_writer = ts_writer s, op_seq = ts_output_seq s\<rparr>"

definition tab_of :: "(int \<Rightarrow> string) \<Rightarrow> tsession \<Rightarrow> terminal_tab" where
  "tab_of fmt s = \<lparr>tb_terminal = ts_id s, tb_workspace = ts_workspace s, tb_agent = ts_agent s, tb_target = ts_target s,
     tb_shell = ts_shell s, tb_cwd = ts_cwd s, tb_status = ts_status s, tb_writer = ts_writer s, tb_seq = ts_output_seq s,
     tb_created = fmt (ts_created s), tb_updated = fmt (ts_updated s)\<rparr>"

definition attach_result_of :: "viewers \<Rightarrow> string \<Rightarrow> string \<Rightarrow> tsession \<Rightarrow> attach_result" where
  "attach_result_of H conn device s =
     (let v = (case map_of (ts_viewers s) conn of None \<Rightarrow> None | Some r \<Rightarrow> H r) in
      \<lparr>ar_terminal = ts_id s, ar_workspace = ts_workspace s, ar_target = ts_target s, ar_status = ts_status s,
       ar_viewer_device = device,
       ar_viewer = (case v of None \<Rightarrow> [] | Some w \<Rightarrow> vw_id w), ar_lease = (case v of None \<Rightarrow> [] | Some w \<Rightarrow> vw_lease w),
       ar_conn = conn, ar_writer = ts_writer s, ar_seq = ts_output_seq s,
       ar_can_input = (case v of None \<Rightarrow> False | Some w \<Rightarrow> can_input w)\<rparr>)"

definition cancel_retention :: "tsession \<Rightarrow> tsession" where
  "cancel_retention s = s\<lparr>ts_retention := None\<rparr>"

definition schedule_retention :: "int \<Rightarrow> int \<Rightarrow> tsession \<Rightarrow> tsession" where
  "schedule_retention now timeout s =
     (if timeout \<le> 0 \<or> ts_status s \<noteq> ''open'' \<or> ts_viewers s \<noteq> [] then s
      else (cancel_retention s)\<lparr>ts_retention := Some (now + timeout)\<rparr>)"

definition retention_expired :: "int \<Rightarrow> tsession \<Rightarrow> bool" where
  "retention_expired now s \<longleftrightarrow> ts_status s = ''open'' \<and> ts_viewers s = [] \<and>
     (case ts_retention s of None \<Rightarrow> False | Some t \<Rightarrow> now \<ge> t)"

text \<open>The viewer map is a list of pairs with distinct keys, updated in place.\<close>

definition attach_viewer ::
  "nat \<Rightarrow> tviewer \<Rightarrow> int \<Rightarrow> viewers \<Rightarrow> tsession \<Rightarrow>
     (go_error + attach_result \<times> nat option \<times> term_frame list) \<times> viewers \<times> tsession" where
  "attach_viewer r v after H s =
     (if ts_status s \<noteq> ''open'' then (Inl terminal_closed, H(r \<mapsto> v), s)
      else (let s1 = cancel_retention s; v1 = bind_terminal s1 after v; H1 = H(r \<mapsto> v1);
                s2 = s1\<lparr>ts_viewers := AList.update (vw_conn v1) r (ts_viewers s1)\<rparr> in
        (Inr (attach_result_of H1 (vw_conn v1) (vw_controller v1) s2, map_of (ts_viewers s1) (vw_conn v1),
              history_after after s2), H1, s2)))"

definition detach_viewer :: "viewers \<Rightarrow> string \<Rightarrow> tsession \<Rightarrow> (attach_result \<times> nat option) \<times> tsession" where
  "detach_viewer H conn s =
     (case map_of (ts_viewers s) conn of
        None \<Rightarrow> ((attach_result_of H conn [] s, None), s)
      | Some r \<Rightarrow>
          (let device = (case H r of None \<Rightarrow> [] | Some v \<Rightarrow> vw_controller v);
               s1 = s\<lparr>ts_viewers := AList.delete conn (ts_viewers s)\<rparr>
           in ((attach_result_of H conn device s1, Some r), s1)))"

definition viewer_by_id :: "viewers \<Rightarrow> string \<Rightarrow> tsession \<Rightarrow> nat option" where
  "viewer_by_id H vid s =
     List.find (\<lambda>r. case H r of None \<Rightarrow> False | Some v \<Rightarrow> vw_id v = vid) (map snd (ts_viewers s))"

text \<open>
  \<open>validateViewerLease\<close> holds the session's lock to find the viewer and then the viewer's: \<open>H'\<close> is
  the heap at the second moment.
\<close>

definition check_lease :: "string \<Rightarrow> string \<Rightarrow> tviewer \<Rightarrow> go_error option" where
  "check_lease controller lease v =
     (if vw_closed v then Some viewer_not_ready
      else if vw_controller v \<noteq> controller \<or> vw_lease v \<noteq> lease then Some viewer_mismatch else None)"

definition validate_lease ::
  "viewers \<Rightarrow> viewers \<Rightarrow> string \<Rightarrow> string \<Rightarrow> string \<Rightarrow> tsession \<Rightarrow> go_error option" where
  "validate_lease H H' controller vid0 lease0 s =
     (let vid = trim_space vid0; lease = trim_space lease0 in
      if vid = [] \<or> lease = []
        then Some (ActionError 409 ''terminal_viewer_required'' ''terminal input requires an attached healthy viewer'')
      else if ts_status s \<noteq> ''open'' then Some terminal_closed
      else (case viewer_by_id H vid s of
          None \<Rightarrow> Some viewer_not_ready
        | Some r \<Rightarrow> (case H' r of None \<Rightarrow> Some viewer_not_ready | Some v \<Rightarrow> check_lease controller lease v)))"

definition ack_viewer :: "int \<Rightarrow> int \<Rightarrow> int \<Rightarrow> tviewer \<Rightarrow> tviewer" where
  "ack_viewer now hb rendered v = v\<lparr>
     vw_last_ack := (if hb > 0 \<and> hb \<ge> vw_last_ack v then hb else vw_last_ack v),
     vw_rendered := (if rendered > vw_rendered v then rendered else vw_rendered v),
     vw_last_ack_at := now\<rparr>"

definition heartbeat_ack ::
  "int \<Rightarrow> viewers \<Rightarrow> viewers \<Rightarrow> string \<Rightarrow> string \<Rightarrow> string \<Rightarrow> int \<Rightarrow> int \<Rightarrow> tsession \<Rightarrow> (go_error + ack_result) \<times> viewers" where
  "heartbeat_ack now H H' controller vid0 lease0 hb rendered s =
     (let vid = trim_space vid0; lease = trim_space lease0 in
      if vid = [] \<or> lease = []
        then (Inl (ActionError 400 ''terminal_viewer_required'' ''terminal heartbeat ack requires viewer lease''), H')
      else if ts_status s \<noteq> ''open'' then (Inl terminal_closed, H')
      else (case viewer_by_id H vid s of
          None \<Rightarrow> (Inl viewer_not_ready, H')
        | Some r \<Rightarrow>
            (case H' r of
               None \<Rightarrow> (Inl viewer_not_ready, H')
             | Some v \<Rightarrow>
                 (case check_lease controller lease v of
                    Some e \<Rightarrow> (Inl e, H')
                  | None \<Rightarrow> (let v1 = ack_viewer now hb rendered v in
                      (Inr ((ack_of s)\<lparr>ak_can_input := can_input v1\<rparr>), H'(r \<mapsto> v1)))))))"

text \<open>The critical section that \<open>close\<close> and \<open>markClosed\<close> share: the closing frame and the viewers taken.\<close>

definition close_locked :: "bool \<Rightarrow> int \<Rightarrow> string \<Rightarrow> tsession \<Rightarrow> tsession \<times> term_frame \<times> nat list" where
  "close_locked exited now reason s =
     (let s1 = (cancel_retention s)\<lparr>ts_local := False, ts_ssh_open := False, ts_status := ''closed'', ts_updated := now,
                ts_unsubscribe := (if exited then False else ts_unsubscribe s), ts_once := True\<rparr>
      in (s1\<lparr>ts_viewers := []\<rparr>, session_frame ''terminal.closed'' [] reason s1, map snd (ts_viewers s)))"

definition close_viewer_after :: "term_frame \<Rightarrow> nat \<Rightarrow> viewers \<Rightarrow> viewers" where
  "close_viewer_after f r H = (case H r of None \<Rightarrow> H | Some v \<Rightarrow> H(r \<mapsto> close_viewer (snd (enqueue_frame 0 f v))))"

definition close_viewers_after :: "term_frame \<Rightarrow> nat list \<Rightarrow> viewers \<Rightarrow> viewers" where
  "close_viewers_after f rs H = fold (close_viewer_after f) rs H"

definition terminal_lifecycle :: "(int \<Rightarrow> string) \<Rightarrow> string \<Rightarrow> tsession \<Rightarrow> (string \<times> go_any) list" where
  "terminal_lifecycle fmt reason s =
     [(''terminal_id'', AnyString (ts_id s)), (''workspace_id'', AnyString (ts_workspace s)),
      (''agent'', AnyString (ts_agent s)), (''target'', AnyString (ts_target s)), (''cwd'', AnyString (ts_cwd s)),
      (''status'', AnyString (ts_status s)), (''writer_device_id'', AnyString (ts_writer s)), (''reason'', AnyString reason)] @
     (case ts_retention s of None \<Rightarrow> [] | Some t \<Rightarrow> [(''retention_until'', AnyString (fmt t))])"

definition viewer_lifecycle ::
  "(int \<Rightarrow> string) \<Rightarrow> string \<Rightarrow> string \<Rightarrow> string \<Rightarrow> tsession \<Rightarrow> (string \<times> go_any) list" where
  "viewer_lifecycle fmt device conn reason s =
     [(''terminal_id'', AnyString (ts_id s)), (''workspace_id'', AnyString (ts_workspace s)),
      (''agent'', AnyString (ts_agent s)), (''target'', AnyString (ts_target s)), (''cwd'', AnyString (ts_cwd s)),
      (''status'', AnyString (ts_status s)), (''writer_device_id'', AnyString (ts_writer s)),
      (''viewer_device_id'', AnyString device), (''connection_id'', AnyString conn),
      (''output_seq'', AnyNumber (ts_output_seq s)), (''reason'', AnyString reason)] @
     (case ts_retention s of None \<Rightarrow> [] | Some t \<Rightarrow> [(''retention_until'', AnyString (fmt t))])"

section \<open>The manager\<close>

datatype term_effect =
    Emitted event
  | ConnError string string string
  | ConnTerminated string string string
  | PtyStarted string string "16 word" "16 word"
  | PtyWritten string string
  | PtyResized string "16 word" "16 word"
  | PtyClosed string
  | GroupKilled string
  | SshStarted string string "16 word" "16 word"
  | SshWritten string string
  | SshResized string "16 word" "16 word"
  | SshKilled string
  | SshUnsubscribed string

record tmanager =
  mg_sessions :: "(string \<times> tsession) list"
  mg_viewers :: viewers
  mg_effects :: "term_effect list"

text \<open>\<open>te_eval\<close> is \<open>filepath.EvalSymlinks\<close>, \<open>te_shell\<close> the variable \<open>SHELL\<close>, \<open>te_format\<close> prints a time.\<close>

record term_env =
  te_available :: bool
  te_workspace :: "string \<Rightarrow> agent_workspace option"
  te_has_ssh :: bool
  te_timeout :: int
  te_shell :: string
  te_eval :: "string \<Rightarrow> string + string"
  te_format :: "int \<Rightarrow> string"

text \<open>What one call meets: the time, random ids, a fresh reference, and the error of the outside call.\<close>

record term_io =
  ti_now :: int
  ti_rnd :: string
  ti_lease :: string
  ti_ref :: nat
  ti_error :: "string option"
  ti_ssh_shell :: string

definition term_event :: "string \<Rightarrow> string \<Rightarrow> string \<Rightarrow> (string \<times> go_any) list \<Rightarrow> term_effect" where
  "term_event ws agent kind payload = Emitted \<lparr>ev_seq = 0, ev_ts = [], ev_workspace = ws, ev_session = [], ev_agent = agent,
     ev_kind = kind, ev_normalized = payload, ev_raw = AnyNil\<rparr>"

definition put_session :: "tsession \<Rightarrow> tmanager \<Rightarrow> tmanager" where
  "put_session s m = m\<lparr>mg_sessions := AList.update (ts_id s) s (mg_sessions m)\<rparr>"

definition log_effects :: "term_effect list \<Rightarrow> tmanager \<Rightarrow> tmanager" where
  "log_effects es m = m\<lparr>mg_effects := mg_effects m @ es\<rparr>"

definition open_session :: "string \<Rightarrow> tmanager \<Rightarrow> go_error + tsession" where
  "open_session tid m =
     (case map_of (mg_sessions m) tid of
        None \<Rightarrow> Inl terminal_not_found
      | Some s \<Rightarrow> if ts_status s \<noteq> ''open'' then Inl terminal_closed else Inr s)"

definition workspace_path_invalid :: "string \<Rightarrow> go_error" where
  "workspace_path_invalid e = ActionError 400 ''workspace_path_invalid'' e"

definition local_terminal_cwd :: "(string \<Rightarrow> string + string) \<Rightarrow> string \<Rightarrow> string \<Rightarrow> go_error + string \<times> string" where
  "local_terminal_cwd eval cwd requested =
     (let root = path_clean cwd in
      if root = [] \<or> root = ''.'' then Inl (ActionError 400 ''workspace_cwd_empty'' ''workspace local cwd is empty'')
      else if requested = []
        then (case ensure_existing_path eval root root of Some e \<Rightarrow> Inl (workspace_path_invalid e) | None \<Rightarrow> Inr (root, []))
      else (case resolve_workspace_path root requested of
          Inl e \<Rightarrow> Inl (workspace_path_invalid e)
        | Inr (target, rel) \<Rightarrow>
            (case ensure_existing_path eval root target of
               Some e \<Rightarrow> Inl (workspace_path_invalid e) | None \<Rightarrow> Inr (target, rel))))"

definition start_session :: "term_env \<Rightarrow> term_io \<Rightarrow> tsession \<Rightarrow> term_effect \<Rightarrow> tmanager \<Rightarrow> (go_error + open_result) \<times> tmanager" where
  "start_session E io s started m =
     (let s1 = schedule_retention (ti_now io) (te_timeout E) s in
      (Inr (open_result_of s1),
       log_effects [started, term_event (ts_workspace s1) (ts_agent s1) ''control.terminal.opened''
           (terminal_lifecycle (te_format E) ''opened'' s1)] (put_session s1 m)))"

definition open_local ::
  "term_env \<Rightarrow> term_io \<Rightarrow> agent_workspace \<Rightarrow> string \<Rightarrow> 16 word \<Rightarrow> 16 word \<Rightarrow> tmanager \<Rightarrow> (go_error + open_result) \<times> tmanager" where
  "open_local E io ws requested cols rows m =
     (case local_terminal_cwd (te_eval E) (aw_cwd ws) requested of
        Inl e \<Rightarrow> (Inl e, m)
      | Inr (cwd, display) \<Rightarrow>
          (let shell = (if te_shell E = [] then ''/bin/zsh'' else te_shell E) in
           case ti_error io of
             Some e \<Rightarrow> (Inl (OpaqueError e), m)
           | None \<Rightarrow> start_session E io
               ((new_terminal_session (ti_rnd io) (ti_now io) (aw_id ws) (aw_agent ws) (aw_target ws) display
                   (path_base shell))\<lparr>ts_local := True\<rparr>) (PtyStarted cwd shell cols rows) m))"

definition open_ssh ::
  "term_env \<Rightarrow> term_io \<Rightarrow> agent_workspace \<Rightarrow> string \<Rightarrow> 16 word \<Rightarrow> 16 word \<Rightarrow> tmanager \<Rightarrow> (go_error + open_result) \<times> tmanager" where
  "open_ssh E io ws requested cols rows m =
     (if \<not> te_has_ssh E then (Inl (ActionError 503 ''ssh_unavailable'' ''SSH manager is not available''), m)
      else (case aw_ssh ws of
          None \<Rightarrow> (Inl (ActionError 400 ''workspace_ssh_missing'' ''workspace SSH config is missing''), m)
        | Some cfg \<Rightarrow>
            (case (if requested = [] then Inr (sh_cwd cfg, []) else resolve_remote_path (sh_cwd cfg) requested) of
               Inl e \<Rightarrow> (Inl (ActionError 400 ''path_invalid'' e), m)
             | Inr (cwd, display) \<Rightarrow>
                 (case ti_error io of
                    Some e \<Rightarrow> (Inl (OpaqueError e), m)
                  | None \<Rightarrow>
                      (let s = new_terminal_session (ti_rnd io) (ti_now io) (aw_id ws) (aw_agent ws) (aw_target ws) display [] in
                       start_session E io (s\<lparr>ts_ssh := True, ts_unsubscribe := True, ts_ssh_open := True, ts_shell := ti_ssh_shell io\<rparr>)
                         (SshStarted (ts_id s) cwd cols rows) m)))))"

definition terminal_open ::
  "term_env \<Rightarrow> term_io \<Rightarrow> string \<Rightarrow> string \<Rightarrow> 16 word \<Rightarrow> 16 word \<Rightarrow> tmanager \<Rightarrow> (go_error + open_result) \<times> tmanager" where
  "terminal_open E io wid requested cols0 rows0 m =
     (if \<not> te_available E
        then (Inl (ActionError 400 ''windows_terminal_disabled'' ''terminal is not available on this Host''), m)
      else (case te_workspace E wid of
          None \<Rightarrow> (Inl (ActionError 404 ''workspace_not_found'' ''workspace not found''), m)
        | Some ws \<Rightarrow>
            (case terminal_size cols0 rows0 of
               (cols, rows) \<Rightarrow>
                 if aw_target ws = ''local'' then open_local E io ws requested cols rows m
                 else if aw_target ws = ''ssh'' then open_ssh E io ws requested cols rows m
                 else (Inl (ActionError 400 ''workspace_target_unsupported'' ''workspace target does not support terminal''), m))))"

definition connection_required :: "string \<Rightarrow> go_error" where
  "connection_required op = ActionError 400 ''control_connection_required'' (op @ '' requires an encrypted control connection'')"

definition close_replaced :: "nat option \<Rightarrow> viewers \<Rightarrow> viewers" where
  "close_replaced old H = (case old of None \<Rightarrow> H | Some r \<Rightarrow> H(r := map_option close_viewer (H r)))"

fun replay_history :: "term_frame list \<Rightarrow> tviewer \<Rightarrow> tviewer" where
  "replay_history [] v = v"
| "replay_history (f # fs) v = (case enqueue_frame 0 f v of (ok, v1) \<Rightarrow> if ok then replay_history fs v1 else v1)"

text \<open>
  \<open>Attach\<close> when nothing else runs. \<open>conn\<close> and \<open>controller\<close> are the ids the connection reports; an
  empty \<open>conn\<close> also stands for no connection. The history is shorter than a viewer's channel.
\<close>

definition terminal_attach ::
  "term_env \<Rightarrow> term_io \<Rightarrow> string \<Rightarrow> string \<Rightarrow> string \<Rightarrow> string \<Rightarrow> int \<Rightarrow> tmanager \<Rightarrow> (go_error + attach_result) \<times> tmanager" where
  "terminal_attach E io device conn controller tid after m =
     (if conn = [] then (Inl (connection_required ''terminal.attach''), m)
      else (case map_of (mg_sessions m) tid of
          None \<Rightarrow> (Inl terminal_not_found, m)
        | Some s \<Rightarrow>
            (case attach_viewer (ti_ref io) (new_viewer (ti_rnd io) (ti_lease io) (ti_now io) conn controller) after
                (mg_viewers m) s of
               (Inl e, H, s1) \<Rightarrow> (Inl e, m\<lparr>mg_viewers := close_replaced (Some (ti_ref io)) H\<rparr>)
             | (Inr (res, old, history), H, s1) \<Rightarrow>
                 (let H1 = close_replaced old H;
                      H2 = H1(ti_ref io := map_option (replay_history history) (H1 (ti_ref io)))
                  in (Inr res, log_effects [term_event (ts_workspace s1) (ts_agent s1) ''control.terminal.attached''
                        (viewer_lifecycle (te_format E) device conn ''attached'' s1)]
                        (put_session s1 (m\<lparr>mg_viewers := H2\<rparr>)))))))"

text \<open>What \<open>Detach\<close> and \<open>DetachConnection\<close> do for one session; \<open>device\<close> is the one the event names.\<close>

definition detach_from ::
  "term_env \<Rightarrow> int \<Rightarrow> string option \<Rightarrow> string \<Rightarrow> string \<Rightarrow> tsession \<Rightarrow> tmanager \<Rightarrow> attach_result \<times> tmanager" where
  "detach_from E now device conn reason s m =
     (case detach_viewer (mg_viewers m) conn s of
        ((res, None), s1) \<Rightarrow> (res, m)
      | ((res, Some r), s1) \<Rightarrow>
          (let s2 = schedule_retention now (te_timeout E) s1;
               dev = (case device of None \<Rightarrow> ar_viewer_device res | Some d \<Rightarrow> d)
           in (res, log_effects [term_event (ts_workspace s2) (ts_agent s2) ''control.terminal.detached''
                 (viewer_lifecycle (te_format E) dev conn reason s2)]
                 (put_session s2 (m\<lparr>mg_viewers := close_replaced (Some r) (mg_viewers m)\<rparr>)))))"

definition terminal_detach ::
  "term_env \<Rightarrow> int \<Rightarrow> string \<Rightarrow> string \<Rightarrow> string \<Rightarrow> tmanager \<Rightarrow> (go_error + attach_result) \<times> tmanager" where
  "terminal_detach E now device conn tid m =
     (if conn = [] then (Inl (connection_required ''terminal.detach''), m)
      else (case map_of (mg_sessions m) tid of
          None \<Rightarrow> (Inl terminal_not_found, m)
        | Some s \<Rightarrow> (case detach_from E now (Some device) conn ''detached'' s m of (res, m1) \<Rightarrow> (Inr res, m1))))"

definition detach_connection :: "term_env \<Rightarrow> int \<Rightarrow> string \<Rightarrow> string \<Rightarrow> tmanager \<Rightarrow> tmanager" where
  "detach_connection E now conn reason m =
     fold (\<lambda>(tid, s) m1. snd (detach_from E now None conn reason s m1)) (mg_sessions m) m"

text \<open>
  \<open>Input\<close> and \<open>Resize\<close> look at the terminal several times: to find it open, to find the viewer, to check
  its lease, and to write. \<open>at\<close> gives the manager at each of these moments.
\<close>

definition ssh_unavailable :: go_error where
  "ssh_unavailable = ActionError 503 ''ssh_unavailable'' ''SSH manager is not available''"

definition lease_at :: "(nat \<Rightarrow> tmanager) \<Rightarrow> string \<Rightarrow> string \<Rightarrow> string \<Rightarrow> string \<Rightarrow> go_error option" where
  "lease_at at controller tid vid lease =
     (case map_of (mg_sessions (at 1)) tid of
        None \<Rightarrow> Some terminal_not_found
      | Some s \<Rightarrow> validate_lease (mg_viewers (at 1)) (mg_viewers (at 2)) controller vid lease s)"

definition drive_terminal ::
  "term_env \<Rightarrow> term_io \<Rightarrow> (nat \<Rightarrow> tmanager) \<Rightarrow> string \<Rightarrow> term_effect \<Rightarrow> term_effect \<Rightarrow>
     (go_error + ack_result) \<times> term_effect list" where
  "drive_terminal E io at tid local_effect ssh_effect =
     (case map_of (mg_sessions (at 3)) tid of
        None \<Rightarrow> (Inl terminal_not_found, [])
      | Some s \<Rightarrow>
          (if ts_ssh_open s
           then (if \<not> ts_ssh s \<or> \<not> te_has_ssh E then (Inl ssh_unavailable, [])
                 else (case ti_error io of Some e \<Rightarrow> (Inl (OpaqueError e), [ssh_effect]) | None \<Rightarrow> (Inr (ack_of s), [ssh_effect])))
           else if \<not> ts_local s then (Inl terminal_closed, [])
           else (case ti_error io of Some e \<Rightarrow> (Inl (OpaqueError e), [local_effect]) | None \<Rightarrow> (Inr (ack_of s), [local_effect]))))"

definition terminal_input ::
  "term_env \<Rightarrow> term_io \<Rightarrow> (nat \<Rightarrow> tmanager) \<Rightarrow> string \<Rightarrow> string \<Rightarrow> string \<Rightarrow> string \<Rightarrow> string \<Rightarrow>
     (go_error + ack_result) \<times> term_effect list" where
  "terminal_input E io at controller tid vid lease data =
     (if length data > terminal_input_max
        then (Inl (ActionError 413 ''terminal_input_too_large'' ''terminal input is too large''), [])
      else (case open_session tid (at 0) of
          Inl e \<Rightarrow> (Inl e, [])
        | Inr s0 \<Rightarrow>
            (case lease_at at controller tid vid lease of
               Some e \<Rightarrow> (Inl e, [])
             | None \<Rightarrow>
                 if data = []
                 then (case map_of (mg_sessions (at 3)) tid of None \<Rightarrow> (Inl terminal_not_found, []) | Some s \<Rightarrow> (Inr (ack_of s), []))
                 else drive_terminal E io at tid (PtyWritten tid data) (SshWritten tid data))))"

definition terminal_resize ::
  "term_env \<Rightarrow> term_io \<Rightarrow> (nat \<Rightarrow> tmanager) \<Rightarrow> string \<Rightarrow> string \<Rightarrow> string \<Rightarrow> string \<Rightarrow> 16 word \<Rightarrow> 16 word \<Rightarrow>
     (go_error + ack_result) \<times> term_effect list" where
  "terminal_resize E io at controller tid vid lease cols rows =
     (case open_session tid (at 0) of
        Inl e \<Rightarrow> (Inl e, [])
      | Inr s0 \<Rightarrow>
          (if cols = 0 \<or> rows = 0
             then (Inl (ActionError 400 ''terminal_size_invalid'' ''terminal cols and rows are required''), [])
           else (case lease_at at controller tid vid lease of
               Some e \<Rightarrow> (Inl e, [])
             | None \<Rightarrow> drive_terminal E io at tid (PtyResized tid cols rows) (SshResized tid cols rows))))"

definition terminal_heartbeat ::
  "int \<Rightarrow> string \<Rightarrow> string \<Rightarrow> string \<Rightarrow> string \<Rightarrow> int \<Rightarrow> int \<Rightarrow> tmanager \<Rightarrow> (go_error + ack_result) \<times> tmanager" where
  "terminal_heartbeat now controller tid vid lease hb rendered m =
     (case open_session tid m of
        Inl e \<Rightarrow> (Inl e, m)
      | Inr s \<Rightarrow>
          (case heartbeat_ack now (mg_viewers m) (mg_viewers m) controller vid lease hb rendered s of
             (r, H) \<Rightarrow> (r, m\<lparr>mg_viewers := H\<rparr>)))"

text \<open>\<open>close\<close> (\<open>exited = False\<close>) and \<open>markClosed\<close> of a session, once.\<close>

definition close_effects :: "term_env \<Rightarrow> bool \<Rightarrow> tsession \<Rightarrow> term_effect list" where
  "close_effects E exited s =
     (if \<not> exited \<and> ts_ssh_open s \<and> ts_ssh s \<and> te_has_ssh E then [SshKilled (ts_id s)] else []) @
     (if ts_unsubscribe s then [SshUnsubscribed (ts_id s)] else []) @
     (if \<not> exited \<and> ts_local s then [GroupKilled (ts_id s)] else []) @
     (if ts_local s then [PtyClosed (ts_id s)] else [])"

definition close_session :: "term_env \<Rightarrow> bool \<Rightarrow> int \<Rightarrow> string \<Rightarrow> string \<Rightarrow> tmanager \<Rightarrow> tmanager" where
  "close_session E exited now reason tid m =
     (case map_of (mg_sessions m) tid of
        None \<Rightarrow> m
      | Some s \<Rightarrow>
          (if ts_once s then m
           else (case close_locked exited now reason s of
               (s1, f, rs) \<Rightarrow>
                 log_effects (close_effects E exited s @ [term_event (ts_workspace s1) (ts_agent s1) ''control.terminal.closed''
                     (terminal_lifecycle (te_format E) reason s1)])
                   (put_session s1 (m\<lparr>mg_viewers := close_viewers_after f rs (mg_viewers m)\<rparr>)))))"

definition terminal_close :: "term_env \<Rightarrow> int \<Rightarrow> string \<Rightarrow> tmanager \<Rightarrow> (go_error + ack_result) \<times> tmanager" where
  "terminal_close E now tid m =
     (case open_session tid m of
        Inl e \<Rightarrow> (Inl e, m)
      | Inr s \<Rightarrow>
          (let m1 = close_session E False now ''closed'' tid m in
           (case map_of (mg_sessions m1) tid of None \<Rightarrow> Inl terminal_not_found | Some s1 \<Rightarrow> Inr (ack_of s1), m1)))"

definition close_workspace :: "term_env \<Rightarrow> int \<Rightarrow> string \<Rightarrow> string \<Rightarrow> tmanager \<Rightarrow> tmanager" where
  "close_workspace E now wid0 reason0 m =
     (let wid = trim_space wid0; reason = (if reason0 = [] then ''workspace_deleted'' else reason0) in
      if wid = [] then m
      else fold (\<lambda>(tid, s) m1. close_session E False now reason tid m1)
             (filter (\<lambda>(tid, s). ts_workspace s = wid) (mg_sessions m)) m)"

definition close_if_expired :: "term_env \<Rightarrow> int \<Rightarrow> string \<Rightarrow> tmanager \<Rightarrow> tmanager" where
  "close_if_expired E now tid m =
     (case map_of (mg_sessions m) tid of
        None \<Rightarrow> m
      | Some s \<Rightarrow>
          (if retention_expired now s
           then close_session E False now ''retention_timeout'' tid (put_session (cancel_retention s) m) else m))"

definition list_tabs :: "term_env \<Rightarrow> tmanager \<Rightarrow> terminal_tab list" where
  "list_tabs E m = filter (\<lambda>t. tb_status t = ''open'') (map (\<lambda>(tid, s). tab_of (te_format E) s) (mg_sessions m))"

definition open_terminal_result :: "string \<Rightarrow> tmanager \<Rightarrow> open_result option" where
  "open_terminal_result tid m =
     (if blank tid then None
      else (case map_of (mg_sessions m) (trim_space tid) of
          None \<Rightarrow> None
        | Some s \<Rightarrow> if ts_status s \<noteq> ''open'' then None else Some (open_result_of s)))"

section \<open>Writing to a viewer\<close>

text \<open>
  The goroutine of a viewer sees, one select at a time, a frame of its channel, the closed channel,
  the end of the coalescing window, or a heartbeat tick with the viewer at that moment.
\<close>

datatype viewer_input = Received term_frame | ChannelClosed | WindowOver | Tick tviewer

definition merge_frame :: "term_frame \<Rightarrow> term_frame \<Rightarrow> term_frame" where
  "merge_frame batch next = batch\<lparr>tf_data := tf_data batch @ tf_data next, tf_seq := tf_seq next,
     tf_status := tf_status next, tf_reason := tf_reason next\<rparr>"

fun coalesce :: "term_frame \<Rightarrow> viewer_input list \<Rightarrow> term_frame \<times> term_frame option \<times> viewer_input list" where
  "coalesce batch [] = (batch, None, [])"
| "coalesce batch (i # is) =
     (if length (tf_data batch) \<ge> output_frame_max then (batch, None, i # is)
      else (case i of
          Received next \<Rightarrow>
            (if tf_type next \<noteq> ''terminal.output'' \<or> tf_terminal next \<noteq> tf_terminal batch \<or>
                length (tf_data batch) + length (tf_data next) > output_frame_max
             then (batch, Some next, is) else coalesce (merge_frame batch next) is)
        | ChannelClosed \<Rightarrow> (batch, None, i # is)
        | WindowOver \<Rightarrow> (batch, None, is)
        | Tick v \<Rightarrow> coalesce batch is))"

lemma coalesce_consumes:
  "coalesce batch is = (b, nxt, rest) \<Longrightarrow> length rest \<le> length is \<and> (nxt \<noteq> None \<longrightarrow> length rest < length is)"
  by (induction batch "is" rule: coalesce.induct) (fastforce split: if_splits viewer_input.splits)+

text \<open>\<open>run\<close>: the frames written to the connection; the goroutine ends with the channel.\<close>

function run_viewer :: "term_frame option \<Rightarrow> viewer_input list \<Rightarrow> term_frame list" where
  "run_viewer (Some f) is =
     (if tf_type f \<noteq> ''terminal.output'' then f # run_viewer None is
      else (case coalesce f is of (batch, nxt, rest) \<Rightarrow> batch # run_viewer nxt rest))"
| "run_viewer None [] = []"
| "run_viewer None (i # is) =
     (case i of
        Received f \<Rightarrow> run_viewer (Some f) is
      | ChannelClosed \<Rightarrow> []
      | WindowOver \<Rightarrow> run_viewer None is
      | Tick v \<Rightarrow> (case heartbeat_frame v of None \<Rightarrow> run_viewer None is | Some (f, v1) \<Rightarrow> f # run_viewer None is))"
  by pat_completeness auto
termination
  by (relation "measure (\<lambda>(p, is). 2 * length is + (if p = None then 0 else 1))")
    (auto dest!: coalesce_consumes[OF sym] split: if_splits)

section \<open>Chunks and history\<close>

lemma chunk_loop_sound: "concat (chunk_loop d) = d \<and> list_all (\<lambda>c. c \<noteq> [] \<and> length c \<le> output_frame_max) (chunk_loop d)"
proof (induction d rule: chunk_loop.induct)
  case (1 d)
  have "output_frame_max > 0" by (simp add: output_frame_max_def)
  thus ?case using 1 by (subst (1 2) chunk_loop.simps) auto
qed

lemma output_chunks_sound:
  "concat (output_chunks d) = d"
  "d \<noteq> [] \<Longrightarrow> list_all (\<lambda>c. c \<noteq> [] \<and> length c \<le> output_frame_max) (output_chunks d)"
  using chunk_loop_sound[of d] by (auto simp: output_chunks_def)

text \<open>Reference: the longest part of the end of the output that keeps both limits.\<close>

definition frames_bytes :: "term_frame list \<Rightarrow> int" where
  "frames_bytes fs = (\<Sum>f\<leftarrow>fs. int (length (tf_data f)))"

definition history_fits :: "term_frame list \<Rightarrow> bool" where
  "history_fits fs \<longleftrightarrow> length fs \<le> history_max_frames \<and> frames_bytes fs \<le> history_max_bytes"

fun longest_fit :: "term_frame list \<Rightarrow> term_frame list" where
  "longest_fit [] = []"
| "longest_fit (f # fs) = (if history_fits (f # fs) then f # fs else longest_fit fs)"

lemma frames_bytes_simps [simp]:
  "frames_bytes [] = 0" "frames_bytes (f # fs) = int (length (tf_data f)) + frames_bytes fs"
  "frames_bytes (fs @ gs) = frames_bytes fs + frames_bytes gs"
  by (simp_all add: frames_bytes_def)

lemma frames_bytes_nonneg: "frames_bytes fs \<ge> 0"
  by (induction fs) auto

lemma longest_fit_fits: "history_fits (longest_fit fs)"
  by (induction fs) (simp_all add: history_fits_def history_max_bytes_def)

lemma longest_fit_id: "history_fits fs \<Longrightarrow> longest_fit fs = fs"
  by (cases fs) auto

lemma longest_fit_suffix: "\<exists>pre. fs = pre @ longest_fit fs"
  by (induction fs) (auto intro: exI[of _ "[]"] exI[of _ "_ # _"])

lemma longest_fit_snoc: "longest_fit (longest_fit fs @ [f]) = longest_fit (fs @ [f])"
proof (induction fs)
  case (Cons x xs)
  have "\<not> history_fits (x # xs) \<Longrightarrow> \<not> history_fits (x # xs @ [f])" by (auto simp: history_fits_def)
  thus ?case using Cons by auto
qed simp

lemma trim_history_longest: "trim_history fs (frames_bytes fs) = (longest_fit fs, frames_bytes (longest_fit fs))"
proof (induction fs)
  case (Cons f fs)
  have "max 0 (frames_bytes (f # fs) - int (length (tf_data f))) = frames_bytes fs"
    using frames_bytes_nonneg[of fs] by simp
  thus ?case using Cons by (auto simp: history_fits_def simp del: frames_bytes_simps)
qed (simp add: history_max_bytes_def)

text \<open>\<open>out\<close> are all output frames of the terminal so far.\<close>

definition output_inv :: "term_frame list \<Rightarrow> tsession \<Rightarrow> bool" where
  "output_inv out s \<longleftrightarrow> ts_output_seq s = int (length out) \<and> map tf_seq out = map int [1..<Suc (length out)] \<and>
     list_all (\<lambda>f. tf_type f = ''terminal.output'' \<and> tf_terminal f = ts_id s \<and> \<not> tf_can_input f \<and> tf_data f \<noteq> [] \<and>
       length (tf_data f) \<le> output_frame_max) out \<and>
     ts_history s = longest_fit out \<and> ts_history_bytes s = frames_bytes (longest_fit out)"

lemma new_session_output: "output_inv [] (new_terminal_session rnd now ws agent target cwd shell)"
  by (simp add: output_inv_def new_terminal_session_def)

lemma remember_output_inv:
  assumes "output_inv out s" "c \<noteq> []" "length c \<le> output_frame_max"
  shows "output_inv (out @ [session_frame ''terminal.output'' c [] (s\<lparr>ts_output_seq := ts_output_seq s + 1\<rparr>)])
    (remember_output (session_frame ''terminal.output'' c [] (s\<lparr>ts_output_seq := ts_output_seq s + 1\<rparr>))
      (s\<lparr>ts_output_seq := ts_output_seq s + 1\<rparr>))"
proof -
  let ?s = "s\<lparr>ts_output_seq := ts_output_seq s + 1\<rparr>"
  let ?f = "session_frame ''terminal.output'' c [] ?s"
  have f: "tf_type ?f = ''terminal.output''" "tf_data ?f = c" "tf_seq ?f = ts_output_seq s + 1" "tf_terminal ?f = ts_id s"
      "\<not> tf_can_input ?f"
    by (simp_all add: session_frame_def)
  have "trim_history (longest_fit out @ [?f]) (frames_bytes (longest_fit out) + int (length c)) =
      (longest_fit (out @ [?f]), frames_bytes (longest_fit (out @ [?f])))"
    using trim_history_longest[of "longest_fit out @ [?f]"] f(2) by (simp add: longest_fit_snoc)
  thus ?thesis using assms f by (simp add: output_inv_def remember_output_def)
qed

lemma append_chunks_locked_inv:
  assumes "output_inv out s" "list_all (\<lambda>c. c \<noteq> [] \<and> length c \<le> output_frame_max) cs"
    and "append_chunks_locked cs s = (s', fs)"
  shows "output_inv (out @ fs) s' \<and> map tf_data fs = cs \<and> ts_viewers s' = ts_viewers s \<and> ts_status s' = ts_status s \<and>
    ts_id s' = ts_id s"
  using assms
proof (induction cs arbitrary: out s s' fs)
  case (Cons c cs)
  let ?s = "s\<lparr>ts_output_seq := ts_output_seq s + 1\<rparr>"
  let ?f = "session_frame ''terminal.output'' c [] ?s"
  obtain s2 gs where r: "append_chunks_locked cs (remember_output ?f ?s) = (s2, gs)" by fastforce
  have e: "s' = s2" "fs = ?f # gs" using Cons.prems(3) r by (simp_all add: Let_def)
  have keep: "ts_viewers (remember_output ?f ?s) = ts_viewers s" "ts_status (remember_output ?f ?s) = ts_status s"
      "ts_id (remember_output ?f ?s) = ts_id s"
    by (simp_all add: remember_output_def split: prod.splits)
  have "output_inv ((out @ [?f]) @ gs) s2 \<and> map tf_data gs = cs \<and> ts_viewers s2 = ts_viewers (remember_output ?f ?s) \<and>
      ts_status s2 = ts_status (remember_output ?f ?s) \<and> ts_id s2 = ts_id (remember_output ?f ?s)"
    by (rule Cons.IH[OF _ _ r]) (use Cons.prems(1,2) in \<open>auto intro: remember_output_inv\<close>)
  thus ?case using e keep by (simp add: session_frame_def)
qed simp

lemma append_output_inv:
  assumes inv: "output_inv out s" and step: "append_output now d s = (s', fs, rs)"
  shows "output_inv (out @ fs) s' \<and> concat (map tf_data fs) = d \<and> ts_viewers s' = ts_viewers s \<and> ts_status s' = ts_status s \<and>
    ts_id s' = ts_id s \<and> (d \<noteq> [] \<longrightarrow> rs = map snd (ts_viewers s))"
proof (cases "d = []")
  case True
  thus ?thesis using assms by (simp add: append_output_def)
next
  case False
  obtain s1 gs where a: "append_chunks_locked (output_chunks d) (s\<lparr>ts_updated := now\<rparr>) = (s1, gs)" by fastforce
  have e: "s' = s1" "fs = gs" "rs = map snd (ts_viewers s1)" using step False a by (auto simp: append_output_def)
  have "output_inv out (s\<lparr>ts_updated := now\<rparr>)" using inv by (simp add: output_inv_def)
  from append_chunks_locked_inv[OF this output_chunks_sound(2)[OF False] a]
  show ?thesis using e output_chunks_sound(1)[of d] by simp
qed

fun append_outputs :: "(int \<times> string) list \<Rightarrow> tsession \<Rightarrow> tsession \<times> term_frame list" where
  "append_outputs [] s = (s, [])"
| "append_outputs ((now, d) # ds) s =
     (case append_output now d s of (s1, fs, rs) \<Rightarrow> case append_outputs ds s1 of (s2, gs) \<Rightarrow> (s2, fs @ gs))"

lemma append_outputs_inv:
  "output_inv out s \<Longrightarrow> append_outputs ds s = (s', fs) \<Longrightarrow>
     output_inv (out @ fs) s' \<and> concat (map tf_data fs) = concat (map snd ds)"
proof (induction ds arbitrary: out s s' fs)
  case (Cons x ds)
  obtain now d s1 gs rs s2 hs where x: "x = (now, d)" "append_output now d s = (s1, gs, rs)" "append_outputs ds s1 = (s2, hs)"
    by (metis prod_cases3 surj_pair)
  have e: "s' = s2" "fs = gs @ hs" using Cons.prems(2) x by simp_all
  note a = append_output_inv[OF Cons.prems(1) x(2)]
  have "output_inv ((out @ gs) @ hs) s2 \<and> concat (map tf_data hs) = concat (map snd ds)"
    by (rule Cons.IH[OF _ x(3)]) (use a in blast)
  thus ?case using a e x by simp
qed simp

text \<open>
  C26: The frames of a terminal carry its output exactly, are numbered from 1 without a gap, and the
  history, trimmed frame by frame, is the longest end of the output that keeps both limits.
\<close>

theorem history_exact:
  assumes "append_outputs ds (new_terminal_session rnd now ws agent target cwd shell) = (s, out)"
  shows "concat (map tf_data out) = concat (map snd ds) \<and> map tf_seq out = map int [1..<Suc (length out)] \<and>
    list_all (\<lambda>f. tf_data f \<noteq> [] \<and> length (tf_data f) \<le> output_frame_max) out \<and>
    ts_output_seq s = int (length out) \<and> ts_history s = longest_fit out \<and> history_fits (ts_history s)"
  using append_outputs_inv[OF new_session_output assms] longest_fit_fits[of out]
  by (auto simp: output_inv_def list_all_iff)

section \<open>What a viewer writes\<close>

fun received :: "viewer_input list \<Rightarrow> term_frame list" where
  "received [] = []"
| "received (Received f # is) = f # received is"
| "received (ChannelClosed # is) = []"
| "received (_ # is) = received is"

definition output_of :: "term_frame list \<Rightarrow> string" where
  "output_of fs = concat (map tf_data (filter (\<lambda>f. tf_type f = ''terminal.output'') fs))"

text \<open>The frames other than output and heartbeats, which must pass as they are.\<close>

definition others :: "term_frame list \<Rightarrow> term_frame list" where
  "others fs = filter (\<lambda>f. tf_type f \<noteq> ''terminal.output'' \<and> tf_type f \<noteq> ''terminal.heartbeat'') fs"

definition frame_fits :: "term_frame \<Rightarrow> bool" where
  "frame_fits f \<longleftrightarrow> length (tf_data f) \<le> output_frame_max"

lemma merge_frame_simps [simp]:
  "tf_type (merge_frame b n) = tf_type b" "tf_terminal (merge_frame b n) = tf_terminal b"
  "tf_data (merge_frame b n) = tf_data b @ tf_data n"
  by (simp_all add: merge_frame_def)

lemma output_of_simps [simp]:
  "output_of [] = []" "output_of (f # fs) = (if tf_type f = ''terminal.output'' then tf_data f else []) @ output_of fs"
  by (simp_all add: output_of_def)

lemma others_simps [simp]:
  "others [] = []"
  "others (f # fs) = (if tf_type f \<noteq> ''terminal.output'' \<and> tf_type f \<noteq> ''terminal.heartbeat'' then [f] else []) @ others fs"
  by (simp_all add: others_def)

lemma coalesce_received:
  assumes "coalesce batch is = (b, nxt, rest)" "tf_type batch = ''terminal.output''"
  shows "tf_type b = ''terminal.output'' \<and>
    tf_data b @ output_of ((case nxt of None \<Rightarrow> [] | Some n \<Rightarrow> [n]) @ received rest) = tf_data batch @ output_of (received is) \<and>
    others ((case nxt of None \<Rightarrow> [] | Some n \<Rightarrow> [n]) @ received rest) = others (received is)"
  using assms
proof (induction batch "is" rule: coalesce.induct)
  case (2 batch i "is")
  show ?case
  proof (cases i)
    case (Received n)
    thus ?thesis using 2 by (auto split: if_splits)
  qed (use 2 in \<open>auto split: if_splits\<close>)
qed auto

lemma coalesce_fits:
  assumes "coalesce batch is = (b, nxt, rest)" "frame_fits batch" "list_all frame_fits (received is)"
  shows "frame_fits b \<and> list_all frame_fits ((case nxt of None \<Rightarrow> [] | Some n \<Rightarrow> [n]) @ received rest)"
  using assms
proof (induction batch "is" rule: coalesce.induct)
  case (2 batch i "is")
  show ?case
  proof (cases i)
    case (Received n)
    thus ?thesis using 2 by (auto simp: frame_fits_def split: if_splits)
  qed (use 2 in \<open>auto split: if_splits\<close>)
qed auto

lemma heartbeat_frame_type: "heartbeat_frame v = Some (f, v') \<Longrightarrow> tf_type f = ''terminal.heartbeat'' \<and> tf_data f = []"
  by (auto simp: heartbeat_frame_def Let_def split: if_splits)

lemma run_viewer_writes:
  "output_of (run_viewer pending is) = output_of ((case pending of None \<Rightarrow> [] | Some f \<Rightarrow> [f]) @ received is) \<and>
   others (run_viewer pending is) = others ((case pending of None \<Rightarrow> [] | Some f \<Rightarrow> [f]) @ received is) \<and>
   (list_ex (\<lambda>f. \<not> frame_fits f) ((case pending of None \<Rightarrow> [] | Some f \<Rightarrow> [f]) @ received is) \<or>
    list_all frame_fits (run_viewer pending is))"
proof (induction pending "is" rule: run_viewer.induct)
  case (1 f "is")
  show ?case
  proof (cases "tf_type f = ''terminal.output''")
    case True
    obtain b n r where c: "coalesce f is = (b, n, r)" by (metis prod_cases3)
    note ih = 1(2)[OF _ c[symmetric] refl]
    have e: "run_viewer (Some f) is = b # run_viewer n r" using True c by simp
    show ?thesis
      unfolding e using True ih coalesce_received[OF c True] coalesce_fits[OF c]
      by (auto simp: list_ex_iff list_all_iff simp del: run_viewer.simps split: option.splits)
  qed (use 1(1) in \<open>auto simp: list_ex_iff list_all_iff\<close>)
next
  case (3 i "is")
  show ?case
  proof (cases i)
    case (Tick v)
    thus ?thesis using 3
      by (auto simp: list_ex_iff list_all_iff frame_fits_def dest: heartbeat_frame_type split: option.splits)
  qed (use 3 in \<open>auto simp: list_ex_iff list_all_iff\<close>)
qed auto

text \<open>
  However frames, heartbeats and the coalescing window interleave, a viewer writes the output it
  received byte by byte, every other frame unchanged and in order, and no frame above 64 KiB.
\<close>

theorem viewer_writes_faithful:
  assumes "list_all frame_fits (received is)"
  shows "output_of (run_viewer None is) = output_of (received is) \<and> others (run_viewer None is) = others (received is) \<and>
    list_all frame_fits (run_viewer None is)"
  using run_viewer_writes[of None "is"] assms by (auto simp: list_ex_iff list_all_iff)

section \<open>Input\<close>

lemma viewer_by_idD:
  assumes "viewer_by_id H vid s = Some r"
  shows "r \<in> snd ` set (ts_viewers s) \<and> (\<exists>v. H r = Some v \<and> vw_id v = vid)"
  using assms by (auto simp: viewer_by_id_def find_Some_iff split: option.splits dest: nth_mem)

lemma validate_lease_okD:
  assumes "validate_lease H H' controller vid lease s = None"
  shows "ts_status s = ''open'' \<and> (\<exists>r v v'. r \<in> snd ` set (ts_viewers s) \<and> H r = Some v \<and> vw_id v = trim_space vid \<and>
    H' r = Some v' \<and> \<not> vw_closed v' \<and> vw_controller v' = controller \<and> vw_lease v' = trim_space lease)"
  using assms viewer_by_idD[of H "trim_space vid" s]
  by (auto simp: validate_lease_def check_lease_def Let_def split: if_splits option.splits)

lemma drive_terminal_effects:
  "drive_terminal E io at tid le se = (res, effs) \<Longrightarrow> effs = [] \<or> effs = [le] \<or> effs = [se]"
  by (auto simp: drive_terminal_def split: option.splits if_splits)

lemma terminal_input_effects:
  assumes "terminal_input E io at controller tid vid lease data = (res, effs)" "effs \<noteq> []"
  shows "length data \<le> terminal_input_max \<and> lease_at at controller tid vid lease = None \<and>
    (effs = [PtyWritten tid data] \<or> effs = [SshWritten tid data])"
proof (cases "length data > terminal_input_max \<or> is_error (open_session tid (at 0)) \<or> lease_at at controller tid vid lease \<noteq> None")
  case True
  hence "snd (terminal_input E io at controller tid vid lease data) = []"
    unfolding terminal_input_def by (auto split: sum.splits option.splits)
  thus ?thesis using assms by simp
next
  case False
  then obtain s0 where "open_session tid (at 0) = Inr s0" by (cases "open_session tid (at 0)") auto
  hence "effs = [] \<or> drive_terminal E io at tid (PtyWritten tid data) (SshWritten tid data) = (res, effs)"
    using assms(1) False unfolding terminal_input_def by (auto split: if_splits option.splits)
  thus ?thesis using assms(2) False drive_terminal_effects by (metis not_less)
qed

text \<open>
  C25: Input reaches a terminal only for a controller that holds the lease of a live viewer: the terminal
  was open, the viewer was attached under the given id, and it belonged to that very controller.
\<close>

theorem input_needs_lease:
  assumes "terminal_input E io at controller tid vid lease data = (res, effs)" "effs \<noteq> []"
  shows "\<exists>s r v v'. map_of (mg_sessions (at 1)) tid = Some s \<and> ts_status s = ''open'' \<and> r \<in> snd ` set (ts_viewers s) \<and>
    mg_viewers (at 1) r = Some v \<and> vw_id v = trim_space vid \<and> mg_viewers (at 2) r = Some v' \<and> \<not> vw_closed v' \<and>
    vw_controller v' = controller \<and> vw_lease v' = trim_space lease \<and> length data \<le> terminal_input_max \<and>
    (effs = [PtyWritten tid data] \<or> effs = [SshWritten tid data])"
proof -
  have l: "length data \<le> terminal_input_max" "lease_at at controller tid vid lease = None"
    and w: "effs = [PtyWritten tid data] \<or> effs = [SshWritten tid data]"
    using terminal_input_effects[OF assms] by blast+
  obtain s where s: "map_of (mg_sessions (at 1)) tid = Some s"
      "validate_lease (mg_viewers (at 1)) (mg_viewers (at 2)) controller vid lease s = None"
    using l(2) unfolding lease_at_def by (cases "map_of (mg_sessions (at 1)) tid") simp_all
  show ?thesis using validate_lease_okD[OF s(2)] s(1) l(1) w by metis
qed

section \<open>The lock of a viewer\<close>

text \<open>
  \<open>enqueue\<close> holds the viewer's lock while it waits for room in the channel, and \<open>run\<close> takes that lock to
  make a heartbeat. The state of one call of \<open>enqueue\<close> and of the goroutine, and the frames in the channel.
\<close>

datatype sender = NotStarted | WaitingForRoom | FrameSent | GaveUp
datatype runner = Selecting | WantsLock

record viewer_lock =
  vl_frames :: nat
  vl_sender :: sender
  vl_runner :: runner

inductive lock_step :: "viewer_lock \<Rightarrow> viewer_lock \<Rightarrow> bool" where
  send: "vl_sender s = NotStarted \<Longrightarrow> vl_frames s < viewer_buffer \<Longrightarrow>
    lock_step s (s\<lparr>vl_sender := FrameSent, vl_frames := vl_frames s + 1\<rparr>)"
| full: "vl_sender s = NotStarted \<Longrightarrow> \<not> vl_frames s < viewer_buffer \<Longrightarrow> lock_step s (s\<lparr>vl_sender := WaitingForRoom\<rparr>)"
| room: "vl_sender s = WaitingForRoom \<Longrightarrow> vl_frames s < viewer_buffer \<Longrightarrow>
    lock_step s (s\<lparr>vl_sender := FrameSent, vl_frames := vl_frames s + 1\<rparr>)"
| timeout: "vl_sender s = WaitingForRoom \<Longrightarrow> lock_step s (s\<lparr>vl_sender := GaveUp\<rparr>)"
| receive: "vl_runner s = Selecting \<Longrightarrow> vl_frames s > 0 \<Longrightarrow> lock_step s (s\<lparr>vl_frames := vl_frames s - 1\<rparr>)"
| tick: "vl_runner s = Selecting \<Longrightarrow> lock_step s (s\<lparr>vl_runner := WantsLock\<rparr>)"
| heartbeat: "vl_runner s = WantsLock \<Longrightarrow> vl_sender s \<noteq> WaitingForRoom \<Longrightarrow> lock_step s (s\<lparr>vl_runner := Selecting\<rparr>)"

inductive_cases lock_stepE: "lock_step s s'"

text \<open>
  Once a heartbeat is due while a send waits for room, the send can only give up, although the
  viewer's goroutine is alive and would make room: neither lets the other go on.
\<close>

theorem heartbeat_blocks_send:
  assumes "lock_step\<^sup>*\<^sup>* s s'" "vl_sender s = WaitingForRoom" "vl_runner s = WantsLock" "\<not> vl_frames s < viewer_buffer"
  shows "s' = s \<or> vl_sender s' = GaveUp"
  using assms(1)
proof (induction rule: rtranclp_induct)
  case (step t u)
  thus ?case using assms(2-4) by (auto elim!: lock_stepE)
qed simp

section \<open>Witnesses\<close>

theorem heartbeat_blocks_send_witness:
  "\<exists>s s'. lock_step\<^sup>*\<^sup>* \<lparr>vl_frames = viewer_buffer, vl_sender = NotStarted, vl_runner = Selecting\<rparr> s \<and>
     vl_sender s = WaitingForRoom \<and> lock_step s s' \<and> vl_sender s' = GaveUp"
proof -
  let ?a = "\<lparr>vl_frames = viewer_buffer, vl_sender = NotStarted, vl_runner = Selecting\<rparr>"
  let ?b = "?a\<lparr>vl_sender := WaitingForRoom\<rparr>"
  let ?c = "?b\<lparr>vl_runner := WantsLock\<rparr>"
  have ab: "lock_step ?a ?b" by (rule lock_step.full) simp_all
  have bc: "lock_step ?b ?c" by (rule lock_step.tick) simp
  have cd: "lock_step ?c (?c\<lparr>vl_sender := GaveUp\<rparr>)" by (rule lock_step.timeout) simp
  have "lock_step\<^sup>*\<^sup>* ?a ?c" by (rule rtranclp.rtrancl_into_rtrancl[OF r_into_rtranclp[of lock_step, OF ab] bc])
  moreover have "?c\<lparr>vl_sender := GaveUp\<rparr> = ?c \<or> vl_sender (?c\<lparr>vl_sender := GaveUp\<rparr>) = GaveUp"
    by (rule heartbeat_blocks_send[OF r_into_rtranclp[of lock_step, OF cd]]) simp_all
  ultimately show ?thesis using cd by (intro exI[of _ ?c] exI[of _ "?c\<lparr>vl_sender := GaveUp\<rparr>"]) simp
qed

definition demo_term :: tsession where
  "demo_term = new_terminal_session ''x'' 0 ''w'' ''codex'' ''local'' [] ''sh''"

definition demo_outputs :: "(int \<times> string) list" where
  "demo_outputs = [(1, ''A''), (2, []), (3, ''BC'')]"

theorem history_exact_witness:
  "concat (map tf_data (snd (append_outputs demo_outputs demo_term))) = ''ABC'' \<and>
   length (ts_history (fst (append_outputs demo_outputs demo_term))) = 2"
proof -
  obtain s out where r: "append_outputs demo_outputs demo_term = (s, out)" by fastforce
  have "length (ts_history s) = 2"
    using r by (auto simp: demo_outputs_def demo_term_def new_terminal_session_def append_output_def output_chunks_def
        output_frame_max_def session_frame_def remember_output_def history_max_frames_def history_max_bytes_def Let_def)
  thus ?thesis using history_exact[OF r[unfolded demo_term_def]] r by (simp add: demo_outputs_def)
qed

definition demo_frame :: "string \<Rightarrow> int \<Rightarrow> term_frame" where
  "demo_frame d n = session_frame ''terminal.output'' d [] (demo_term\<lparr>ts_output_seq := n\<rparr>)"

theorem viewer_writes_faithful_witness:
  "output_of (run_viewer None [Received (demo_frame ''A'' 1), Received (demo_frame ''B'' 2), WindowOver,
     Received (session_frame ''terminal.closed'' [] ''exited'' demo_term), ChannelClosed]) = ''AB''"
proof -
  let ?is = "[Received (demo_frame ''A'' 1), Received (demo_frame ''B'' 2), WindowOver,
     Received (session_frame ''terminal.closed'' [] ''exited'' demo_term), ChannelClosed]"
  have "list_all frame_fits (received ?is)"
    by (simp add: demo_frame_def session_frame_def frame_fits_def output_frame_max_def)
  from conjunct1[OF viewer_writes_faithful[OF this]] show ?thesis by (simp add: demo_frame_def session_frame_def)
qed

definition demo_lease_viewer :: tviewer where
  "demo_lease_viewer = new_viewer ''v'' ''l'' 0 ''c'' ''phone''"

definition demo_manager :: tmanager where
  "demo_manager = \<lparr>mg_sessions = [(''term_x'', demo_term\<lparr>ts_local := True, ts_viewers := [(''c'', 0)]\<rparr>)],
     mg_viewers = [0 \<mapsto> demo_lease_viewer], mg_effects = []\<rparr>"

definition demo_term_env :: term_env where
  "demo_term_env = \<lparr>te_available = True, te_workspace = (\<lambda>_. None), te_has_ssh = False, te_timeout = 0, te_shell = [],
     te_eval = Inr, te_format = (\<lambda>_. [])\<rparr>"

definition demo_term_io :: term_io where
  "demo_term_io = \<lparr>ti_now = 0, ti_rnd = [], ti_lease = [], ti_ref = 1, ti_error = None, ti_ssh_shell = []\<rparr>"

theorem input_needs_lease_witness:
  "snd (terminal_input demo_term_env demo_term_io (\<lambda>_. demo_manager) ''phone'' ''term_x'' '' viewer_v'' ''lease_l'' ''ls'') =
     [PtyWritten ''term_x'' ''ls''] \<and> vw_controller demo_lease_viewer = ''phone''"
proof -
  let ?r = "terminal_input demo_term_env demo_term_io (\<lambda>_. demo_manager) ''phone'' ''term_x'' '' viewer_v'' ''lease_l'' ''ls''"
  have e: "trim_space '' viewer_v'' = ''viewer_v''" "trim_space ''lease_l'' = ''lease_l''" by code_simp+
  have s: "snd ?r = [PtyWritten ''term_x'' ''ls'']"
    by (simp add: terminal_input_def terminal_input_max_def open_session_def demo_manager_def demo_term_def
        new_terminal_session_def lease_at_def validate_lease_def viewer_by_id_def demo_lease_viewer_def new_viewer_def
        check_lease_def drive_terminal_def demo_term_io_def e Let_def)
  obtain res effs where r: "?r = (res, effs)" by fastforce
  have "effs \<noteq> []" using s r by simp
  from input_needs_lease[OF r this] show ?thesis
    using s by (auto simp: demo_manager_def split: if_splits)
qed

end
