(* ===== verification/TerminalStreams.thy ===== *)
theory TerminalStreams
  imports Terminal "HOL-Library.Multiset"
begin

text \<open>
  One terminal while everything runs at once: the goroutine that reads its output and sends it to the
  viewers, calls of \<open>Attach\<close> and \<open>Detach\<close>, its end, and the goroutines of the viewers. Each step is a
  critical section or one send of \<open>daemon/internal/core/terminal/manager.go\<close>; what a goroutine has
  still to do is a list of tasks. A send to a full channel may give up at any moment, which covers the
  five seconds the code waits.
\<close>

section \<open>Tasks\<close>

datatype stream_task =
    SendFrame term_frame nat
  | DropConn string
  | FailViewer nat
  | Replay nat "term_frame list"
  | LastFrame term_frame nat
  | CloseViewer nat

text \<open>
  \<open>sw_taken\<close>, \<open>sw_output\<close>, \<open>sw_missed\<close>, \<open>sw_cut\<close>, \<open>sw_after\<close> and \<open>sw_base\<close> only record what happened: the frames each
  viewer's goroutine received, all output, the viewers to which a send or the replay gave up, and the
  position asked for and the length of the output when a viewer was attached.
\<close>

record stream_world =
  sw_session :: tsession
  sw_heap :: viewers
  sw_reader :: "stream_task list"
  sw_threads :: "stream_task list list"
  sw_terminated :: "string list"
  sw_taken :: "nat \<Rightarrow> term_frame list"
  sw_output :: "term_frame list"
  sw_missed :: "nat set"
  sw_cut :: "nat set"
  sw_after :: "nat \<Rightarrow> int"
  sw_base :: "nat \<Rightarrow> nat"

definition initial_world :: "tsession \<Rightarrow> stream_world" where
  "initial_world s = \<lparr>sw_session = s, sw_heap = Map.empty, sw_reader = [], sw_threads = [], sw_terminated = [],
     sw_taken = (\<lambda>_. []), sw_output = [], sw_missed = {}, sw_cut = {}, sw_after = (\<lambda>_. 0), sw_base = (\<lambda>_. 0)\<rparr>"

definition send_frame :: "term_frame \<Rightarrow> nat \<Rightarrow> stream_world \<Rightarrow> bool \<times> stream_world" where
  "send_frame f r w =
     (case sw_heap w r of
        None \<Rightarrow> (False, w)
      | Some v \<Rightarrow> (case enqueue_frame 0 f v of (ok, v1) \<Rightarrow> (ok, w\<lparr>sw_heap := (sw_heap w)(r \<mapsto> v1)\<rparr>)))"

definition shut_viewer :: "nat \<Rightarrow> stream_world \<Rightarrow> stream_world" where
  "shut_viewer r w = w\<lparr>sw_heap := (sw_heap w)(r := map_option close_viewer (sw_heap w r))\<rparr>"

definition conn_of :: "nat \<Rightarrow> stream_world \<Rightarrow> string" where
  "conn_of r w = (case sw_heap w r of None \<Rightarrow> [] | Some v \<Rightarrow> vw_conn v)"

text \<open>One task, and the tasks that come before the rest of its goroutine.\<close>

fun exec_task :: "stream_task \<Rightarrow> stream_world \<Rightarrow> stream_world \<times> stream_task list" where
  "exec_task (SendFrame f r) w =
     (case send_frame f r w of
        (True, w1) \<Rightarrow> (w1, [])
      | (False, w1) \<Rightarrow> (w1\<lparr>sw_missed := insert r (sw_missed w1)\<rparr>, [DropConn (conn_of r w)]))"
| "exec_task (DropConn c) w =
     (case detach_viewer (sw_heap w) c (sw_session w) of
        ((res, None), s1) \<Rightarrow> (w, [])
      | ((res, Some r), s1) \<Rightarrow> (w\<lparr>sw_session := s1\<rparr>, [FailViewer r]))"
| "exec_task (FailViewer r) w = (shut_viewer r (w\<lparr>sw_terminated := conn_of r w # sw_terminated w\<rparr>), [])"
| "exec_task (Replay r []) w = (w, [])"
| "exec_task (Replay r (f # fs)) w =
     (case send_frame f r w of
        (True, w1) \<Rightarrow> (w1, [Replay r fs])
      | (False, w1) \<Rightarrow> (w1\<lparr>sw_cut := insert r (sw_cut w1)\<rparr>, []))"
| "exec_task (LastFrame f r) w = (snd (send_frame f r w), [])"
| "exec_task (CloseViewer r) w = (shut_viewer r w, [])"

section \<open>Steps\<close>

text \<open>\<open>appendOutput\<close>; \<open>rs\<close> is the snapshot of the viewers in the order the map was walked.\<close>

definition do_read :: "int \<Rightarrow> string \<Rightarrow> nat list \<Rightarrow> stream_world \<Rightarrow> stream_world" where
  "do_read now data rs w =
     (case append_output now data (sw_session w) of
        (s1, fs, _) \<Rightarrow> w\<lparr>sw_session := s1, sw_output := sw_output w @ fs,
            sw_reader := concat (map (\<lambda>f. map (SendFrame f) rs) fs)\<rparr>)"

definition do_attach :: "nat \<Rightarrow> tviewer \<Rightarrow> int \<Rightarrow> stream_world \<Rightarrow> stream_world" where
  "do_attach r v after w =
     (case attach_viewer r v after (sw_heap w) (sw_session w) of
        (Inl e, H, s1) \<Rightarrow> w\<lparr>sw_heap := H, sw_threads := sw_threads w @ [[CloseViewer r]]\<rparr>
      | (Inr (res, old, history), H, s1) \<Rightarrow>
          w\<lparr>sw_heap := H, sw_session := s1,
            sw_threads := sw_threads w @ [(case old of None \<Rightarrow> [] | Some o1 \<Rightarrow> [CloseViewer o1]) @ [Replay r history]],
            sw_after := (sw_after w)(r := after), sw_base := (sw_base w)(r := length (sw_output w))\<rparr>)"

definition do_detach :: "string \<Rightarrow> stream_world \<Rightarrow> stream_world" where
  "do_detach conn w =
     (case detach_viewer (sw_heap w) conn (sw_session w) of
        ((res, None), s1) \<Rightarrow> w
      | ((res, Some r), s1) \<Rightarrow> w\<lparr>sw_session := s1, sw_threads := sw_threads w @ [[CloseViewer r]]\<rparr>)"

definition do_close :: "bool \<Rightarrow> int \<Rightarrow> string \<Rightarrow> nat list \<Rightarrow> stream_world \<Rightarrow> stream_world" where
  "do_close exited now reason rs w =
     (if ts_once (sw_session w) then w
      else (case close_locked exited now reason (sw_session w) of
          (s1, f, _) \<Rightarrow> w\<lparr>sw_session := s1,
              sw_threads := sw_threads w @ [concat (map (\<lambda>r. [LastFrame f r, CloseViewer r]) rs)]\<rparr>))"

definition take_frame :: "nat \<Rightarrow> tviewer \<Rightarrow> term_frame \<Rightarrow> term_frame list \<Rightarrow> stream_world \<Rightarrow> stream_world" where
  "take_frame r v f fs w = w\<lparr>sw_heap := (sw_heap w)(r \<mapsto> v\<lparr>vw_frames := fs\<rparr>),
     sw_taken := (sw_taken w)(r := sw_taken w r @ [f])\<rparr>"

fun replaying :: "stream_task list \<Rightarrow> bool" where
  "replaying [] = False"
| "replaying (Replay r fs # ts) = (fs \<noteq> [] \<or> replaying ts)"
| "replaying (_ # ts) = replaying ts"

text \<open>
  The steps; with \<open>serial\<close> the terminal produces output only while no call of \<open>Attach\<close> is between
  attaching its viewer and replaying the history to it.
\<close>

inductive stream_step :: "bool \<Rightarrow> stream_world \<Rightarrow> stream_world \<Rightarrow> bool" for serial :: bool where
  read: "sw_reader w = [] \<Longrightarrow> \<not> serial \<or> \<not> list_ex replaying (sw_threads w) \<Longrightarrow>
    mset rs = mset (map snd (ts_viewers (sw_session w))) \<Longrightarrow> stream_step serial w (do_read now data rs w)"
| reader: "sw_reader w = t # ts \<Longrightarrow> exec_task t w = (w1, new) \<Longrightarrow> stream_step serial w (w1\<lparr>sw_reader := new @ ts\<rparr>)"
| attach: "sw_heap w r = None \<Longrightarrow> conn \<noteq> [] \<Longrightarrow> stream_step serial w (do_attach r (new_viewer a b now conn controller) after w)"
| detach: "stream_step serial w (do_detach conn w)"
| close: "mset rs = mset (map snd (ts_viewers (sw_session w))) \<Longrightarrow> stream_step serial w (do_close exited now reason rs w)"
| thread: "sw_threads w = pre @ (t # ts) # post \<Longrightarrow> exec_task t w = (w1, new) \<Longrightarrow>
    stream_step serial w (w1\<lparr>sw_threads := pre @ (new @ ts) # post\<rparr>)"
| "take": "sw_heap w r = Some v \<Longrightarrow> vw_frames v = f # fs \<Longrightarrow> stream_step serial w (take_frame r v f fs w)"

inductive stream_reach :: "bool \<Rightarrow> stream_world \<Rightarrow> bool" for serial :: bool where
  start: "stream_reach serial (initial_world (new_terminal_session rnd now ws agent target cwd shell))"
| step: "stream_reach serial w \<Longrightarrow> stream_step serial w w' \<Longrightarrow> stream_reach serial w'"

section \<open>What a viewer has got and will get\<close>

definition attached :: "nat \<Rightarrow> stream_world \<Rightarrow> bool" where
  "attached r w \<longleftrightarrow> r \<in> snd ` set (ts_viewers (sw_session w))"

definition plain :: "term_frame \<Rightarrow> term_frame" where
  "plain f = f\<lparr>tf_can_input := False\<rparr>"

definition got :: "stream_world \<Rightarrow> nat \<Rightarrow> term_frame list" where
  "got w r = map plain (sw_taken w r @ (case sw_heap w r of None \<Rightarrow> [] | Some v \<Rightarrow> vw_frames v))"

fun sends :: "nat \<Rightarrow> stream_task list \<Rightarrow> term_frame list" where
  "sends r [] = []"
| "sends r (SendFrame f q # ts) = (if q = r then [f] else []) @ sends r ts"
| "sends r (_ # ts) = sends r ts"

fun replays :: "nat \<Rightarrow> stream_task list \<Rightarrow> term_frame list" where
  "replays r [] = []"
| "replays r (Replay q fs # ts) = (if q = r then fs else []) @ replays r ts"
| "replays r (_ # ts) = replays r ts"

definition to_replay :: "stream_world \<Rightarrow> nat \<Rightarrow> term_frame list" where
  "to_replay w r = concat (map (replays r) (sw_threads w))"

text \<open>
  What a viewer should get: of the history at its attachment the frames after the position asked for,
  and all output since.
\<close>

definition owed :: "stream_world \<Rightarrow> nat \<Rightarrow> term_frame list" where
  "owed w r = filter (\<lambda>f. tf_seq f > sw_after w r) (longest_fit (take (sw_base w r) (sw_output w))) @
     drop (sw_base w r) (sw_output w)"

definition sound_stream :: "bool \<Rightarrow> stream_world \<Rightarrow> nat \<Rightarrow> bool" where
  "sound_stream serial w r \<longleftrightarrow>
     mset (got w r) + mset (sends r (sw_reader w)) + mset (to_replay w r) = mset (owed w r) \<and>
     (serial \<longrightarrow> got w r @ to_replay w r @ sends r (sw_reader w) = owed w r)"

section \<open>Helper lemmas\<close>

lemma sends_append [simp]: "sends r (a @ b) = sends r a @ sends r b"
  by (induction a rule: sends.induct) auto

lemma replays_append [simp]: "replays r (a @ b) = replays r a @ replays r b"
  by (induction a rule: replays.induct) auto

lemma sends_one: "sends r (map (SendFrame f) rs) = replicate (count (mset rs) r) f"
  by (induction rs) auto

lemma sends_broadcast:
  "distinct rs \<Longrightarrow> sends r (concat (map (\<lambda>f. map (SendFrame f) rs) fs)) = (if r \<in> set rs then fs else [])"
  by (induction fs) (auto simp: sends_one distinct_count_atmost_1)

lemma not_replaying: "\<not> replaying ts \<Longrightarrow> replays r ts = []"
  by (induction ts rule: replaying.induct) auto

lemma no_replay: "\<not> list_ex replaying tss \<Longrightarrow> concat (map (replays r) tss) = []"
  by (induction tss) (auto simp: not_replaying)

lemma plain_stamped [simp]: "plain (stamped f v) = plain f"
  by (simp add: plain_def stamped_def)

lemma plain_id [simp]: "\<not> tf_can_input f \<Longrightarrow> plain f = f"
  by (simp add: plain_def)

lemma enqueue_frame_effect:
  assumes "enqueue_frame 0 f v = (ok, v1)"
  shows "vw_conn v1 = vw_conn v \<and> vw_closed v1 = vw_closed v \<and>
    map plain (vw_frames v1) = map plain (vw_frames v) @ (if ok then [plain f] else [])"
  using assms by (auto simp: enqueue_frame_def note_frame_def Let_def split: if_splits)

text \<open>\<open>touch r w w'\<close>: only the viewer \<open>r\<close> changed, and neither its connection nor whether it exists.\<close>

definition touch :: "nat \<Rightarrow> stream_world \<Rightarrow> stream_world \<Rightarrow> bool" where
  "touch r w w' \<longleftrightarrow> w' = w\<lparr>sw_heap := sw_heap w'\<rparr> \<and> (\<forall>q. q \<noteq> r \<longrightarrow> sw_heap w' q = sw_heap w q) \<and>
     map_option vw_conn (sw_heap w' r) = map_option vw_conn (sw_heap w r)"

lemma send_frame_effect:
  assumes "send_frame f r w = (ok, w1)" "sw_heap w r \<noteq> None"
  shows "touch r w w1 \<and> map_option vw_closed (sw_heap w1 r) = map_option vw_closed (sw_heap w r) \<and>
    got w1 r = got w r @ (if ok then [plain f] else [])"
proof -
  obtain v where v: "sw_heap w r = Some v" using assms(2) by auto
  obtain ok' v1 where e: "enqueue_frame 0 f v = (ok', v1)" by fastforce
  have "ok' = ok" "w1 = w\<lparr>sw_heap := (sw_heap w)(r \<mapsto> v1)\<rparr>" using assms(1) v e by (simp_all add: send_frame_def)
  thus ?thesis using v enqueue_frame_effect[OF e] by (auto simp: touch_def got_def)
qed

lemma shut_viewer_touch: "touch r w (shut_viewer r w)"
  by (auto simp: touch_def shut_viewer_def close_viewer_def option.map_comp comp_def)

lemma touch_got: "touch r w w' \<Longrightarrow> q \<noteq> r \<Longrightarrow> got w' q = got w q"
  by (auto simp: touch_def got_def dest: arg_cong[where f = sw_taken])

lemma touch_same:
  assumes "touch r w w'"
  shows "sw_session w' = sw_session w" "sw_reader w' = sw_reader w" "sw_threads w' = sw_threads w"
    "sw_terminated w' = sw_terminated w" "sw_taken w' = sw_taken w" "sw_output w' = sw_output w"
    "sw_missed w' = sw_missed w" "sw_cut w' = sw_cut w" "sw_after w' = sw_after w" "sw_base w' = sw_base w"
  using assms by (metis touch_def stream_world.select_convs stream_world.update_convs stream_world.surjective)+

lemma touch_conn: "touch r w w' \<Longrightarrow> map_option vw_conn (sw_heap w' q) = map_option vw_conn (sw_heap w q)"
  by (cases "q = r") (auto simp: touch_def)

lemma touch_known: "touch r w w' \<Longrightarrow> sw_heap w' q = None \<longleftrightarrow> sw_heap w q = None"
  using touch_conn[of r w w' q] by (metis option.map_disc_iff)

section \<open>The invariant\<close>

definition viewers_ok :: "stream_world \<Rightarrow> bool" where
  "viewers_ok w \<longleftrightarrow> distinct (map fst (ts_viewers (sw_session w))) \<and>
     (\<forall>(c, r) \<in> set (ts_viewers (sw_session w)). \<exists>v. sw_heap w r = Some v \<and> vw_conn v = c \<and> \<not> vw_closed v)"

fun reader_task :: "stream_world \<Rightarrow> stream_task \<Rightarrow> bool" where
  "reader_task w (SendFrame f r) = (sw_heap w r \<noteq> None \<and> \<not> tf_can_input f)"
| "reader_task w (DropConn c) = True"
| "reader_task w (FailViewer r) = (sw_heap w r \<noteq> None \<and> \<not> attached r w)"
| "reader_task w _ = False"

fun thread_task :: "stream_world \<Rightarrow> stream_task \<Rightarrow> bool" where
  "thread_task w (Replay r fs) = (sw_heap w r \<noteq> None \<and> list_all (\<lambda>f. \<not> tf_can_input f) fs)"
| "thread_task w (LastFrame f r) = (sw_heap w r \<noteq> None \<and> \<not> attached r w)"
| "thread_task w (CloseViewer r) = (sw_heap w r \<noteq> None \<and> \<not> attached r w)"
| "thread_task w _ = False"

fun replay_of :: "nat \<Rightarrow> stream_task \<Rightarrow> bool" where
  "replay_of r (Replay q fs) = (q = r)"
| "replay_of r _ = False"

definition tasks_ok :: "stream_world \<Rightarrow> bool" where
  "tasks_ok w \<longleftrightarrow> list_all (reader_task w) (sw_reader w) \<and> list_all (list_all (thread_task w)) (sw_threads w) \<and>
     (\<forall>r. length (filter (replay_of r) (concat (sw_threads w))) \<le> 1) \<and>
     (\<forall>r. sw_heap w r = None \<longrightarrow> sw_taken w r = [] \<and> r \<notin> sw_missed w \<and> r \<notin> sw_cut w)"

definition streams_ok :: "bool \<Rightarrow> stream_world \<Rightarrow> bool" where
  "streams_ok serial w \<longleftrightarrow>
     (\<forall>r. attached r w \<and> r \<notin> sw_missed w \<and> r \<notin> sw_cut w \<longrightarrow> sound_stream serial w r \<and>
        sw_base w r \<le> length (sw_output w) \<and> (serial \<longrightarrow> sends r (sw_reader w) = [] \<or> to_replay w r = [])) \<and>
     (\<forall>r. attached r w \<and> r \<in> sw_missed w \<longrightarrow> DropConn (conn_of r w) \<in> set (sw_reader w))"

definition stream_inv :: "bool \<Rightarrow> stream_world \<Rightarrow> bool" where
  "stream_inv serial w \<longleftrightarrow> output_inv (sw_output w) (sw_session w) \<and> viewers_ok w \<and> tasks_ok w \<and> streams_ok serial w"

lemma task_mono:
  assumes "\<And>q. sw_heap w q \<noteq> None \<Longrightarrow> sw_heap w' q \<noteq> None \<and> (attached q w' \<longrightarrow> attached q w)"
  shows "reader_task w t \<Longrightarrow> reader_task w' t" "thread_task w t \<Longrightarrow> thread_task w' t"
  using assms by (cases t; auto)+

lemma tasks_mono:
  assumes "\<And>q. sw_heap w q \<noteq> None \<Longrightarrow> sw_heap w' q \<noteq> None \<and> (attached q w' \<longrightarrow> attached q w)"
  shows "list_all (reader_task w) ts \<Longrightarrow> list_all (reader_task w') ts"
    "list_all (list_all (thread_task w)) tss \<Longrightarrow> list_all (list_all (thread_task w')) tss"
  using task_mono[OF assms] by (auto simp: list_all_iff)

lemma attached_live:
  assumes "viewers_ok w" "attached r w"
  shows "\<exists>v. sw_heap w r = Some v \<and> \<not> vw_closed v \<and> (vw_conn v, r) \<in> set (ts_viewers (sw_session w))"
  using assms by (fastforce simp: viewers_ok_def attached_def)

lemma viewer_entry:
  assumes "viewers_ok w" "(c, r) \<in> set (ts_viewers (sw_session w))"
  shows "conn_of r w = c \<and> attached r w \<and> (\<exists>v. sw_heap w r = Some v \<and> vw_conn v = c \<and> \<not> vw_closed v)"
  using assms by (force simp: viewers_ok_def conn_of_def attached_def)

lemma viewers_distinct: "viewers_ok w \<Longrightarrow> distinct (map snd (ts_viewers (sw_session w)))"
proof -
  assume v: "viewers_ok w"
  have "inj_on snd (set (ts_viewers (sw_session w)))"
  proof (rule inj_onI)
    fix x y
    assume "x \<in> set (ts_viewers (sw_session w))" "y \<in> set (ts_viewers (sw_session w))" "snd x = snd y"
    thus "x = y" using viewer_entry[OF v] by (metis prod.collapse)
  qed
  moreover have "distinct (ts_viewers (sw_session w))" using v by (simp add: viewers_ok_def distinct_map)
  ultimately show ?thesis by (simp add: distinct_map)
qed

lemma viewers_ok_cong:
  assumes "ts_viewers (sw_session w') = ts_viewers (sw_session w)" "viewers_ok w"
    "\<And>r v. attached r w \<Longrightarrow> sw_heap w r = Some v \<Longrightarrow> \<exists>v'. sw_heap w' r = Some v' \<and> vw_conn v' = vw_conn v \<and> (vw_closed v' \<longrightarrow> vw_closed v)"
  shows "viewers_ok w'"
proof -
  have "\<exists>v'. sw_heap w' r = Some v' \<and> vw_conn v' = c \<and> \<not> vw_closed v'" if m: "(c, r) \<in> set (ts_viewers (sw_session w))" for c r
  proof -
    obtain v where v: "sw_heap w r = Some v" "vw_conn v = c" "\<not> vw_closed v" using assms(2) m by (fastforce simp: viewers_ok_def)
    moreover have "attached r w" using m by (force simp: attached_def)
    ultimately show ?thesis using assms(3)[of r v] by blast
  qed
  thus ?thesis using assms(1,2) by (auto simp: viewers_ok_def)
qed

text \<open>How \<open>detachViewer\<close> changes the session.\<close>

lemma detach_viewer_cases:
  assumes "viewers_ok w" "detach_viewer (sw_heap w) c (sw_session w) = ((res, old), s1)"
  shows "(case old of
      None \<Rightarrow> s1 = sw_session w \<and> (\<forall>r. attached r w \<longrightarrow> conn_of r w \<noteq> c)
    | Some r \<Rightarrow> attached r w \<and> conn_of r w = c \<and> (\<forall>q. attached q w \<and> conn_of q w = c \<longrightarrow> q = r) \<and>
        s1 = (sw_session w)\<lparr>ts_viewers := AList.delete c (ts_viewers (sw_session w))\<rparr> \<and>
        (\<forall>q. q \<in> snd ` set (AList.delete c (ts_viewers (sw_session w))) \<longleftrightarrow> attached q w \<and> q \<noteq> r))"
proof -
  have conn: "attached q w \<Longrightarrow> (conn_of q w, q) \<in> set (ts_viewers (sw_session w))" for q
    using attached_live[OF assms(1)] by (force simp: conn_of_def)
  have det: "(c1, q) \<in> set (ts_viewers (sw_session w)) \<Longrightarrow> conn_of q w = c1 \<and> attached q w" for c1 q
    using viewer_entry[OF assms(1)] by blast
  have dist: "distinct (map fst (ts_viewers (sw_session w)))" using assms(1) by (simp add: viewers_ok_def)
  show ?thesis
  proof (cases "map_of (ts_viewers (sw_session w)) c")
    case None
    hence "old = None" "s1 = sw_session w" using assms(2) by (simp_all add: detach_viewer_def)
    moreover have "attached r w \<Longrightarrow> conn_of r w \<noteq> c" for r
      using conn[of r] None dist by (metis map_of_eq_Some_iff option.distinct(1))
    ultimately show ?thesis by simp
  next
    case (Some r)
    have e: "old = Some r" "s1 = (sw_session w)\<lparr>ts_viewers := AList.delete c (ts_viewers (sw_session w))\<rparr>"
      using assms(2) Some by (simp_all add: detach_viewer_def Let_def)
    have r: "attached r w" "conn_of r w = c" using det[OF map_of_SomeD[OF Some]] by simp_all
    have u: "attached q w \<Longrightarrow> conn_of q w = c \<Longrightarrow> q = r" for q
      using conn[of q] Some dist by (metis map_of_eq_Some_iff option.inject)
    have all: "\<forall>q. q \<in> snd ` set (AList.delete c (ts_viewers (sw_session w))) \<longleftrightarrow> attached q w \<and> q \<noteq> r"
    proof (intro allI iffI)
      fix q
      assume "q \<in> snd ` set (AList.delete c (ts_viewers (sw_session w)))"
      then obtain c1 where "(c1, q) \<in> set (ts_viewers (sw_session w))" "c1 \<noteq> c" by (auto simp: AList.delete_eq)
      thus "attached q w \<and> q \<noteq> r" using det r by blast
    next
      fix q
      assume q: "attached q w \<and> q \<noteq> r"
      hence "(conn_of q w, q) \<in> set (AList.delete c (ts_viewers (sw_session w)))"
        using conn[of q] u[of q] by (auto simp: AList.delete_eq)
      thus "q \<in> snd ` set (AList.delete c (ts_viewers (sw_session w)))" by force
    qed
    have uq: "\<forall>q. attached q w \<and> conn_of q w = c \<longrightarrow> q = r" using u by blast
    show ?thesis unfolding e option.case using r uq all by (intro conjI refl) assumption+
  qed
qed

lemma viewers_ok_delete:
  assumes "viewers_ok w" "ts_viewers (sw_session w') = AList.delete c (ts_viewers (sw_session w))" "sw_heap w' = sw_heap w"
  shows "viewers_ok w'"
  using assms by (auto simp: viewers_ok_def AList.delete_eq distinct_map inj_on_def)

lemma output_inv_cong:
  "output_inv out s \<Longrightarrow> ts_output_seq s' = ts_output_seq s \<Longrightarrow> ts_id s' = ts_id s \<Longrightarrow> ts_history s' = ts_history s \<Longrightarrow>
    ts_history_bytes s' = ts_history_bytes s \<Longrightarrow> output_inv out s'"
  by (simp add: output_inv_def)

section \<open>Every step keeps the invariant\<close>

lemma conn_of_option: "conn_of r w = (case map_option vw_conn (sw_heap w r) of None \<Rightarrow> [] | Some c \<Rightarrow> c)"
  by (cases "sw_heap w r") (simp_all add: conn_of_def)

lemma touch_conn_of: "touch r w w' \<Longrightarrow> conn_of q w' = conn_of q w"
  by (simp add: conn_of_option touch_conn)

lemma got_update [simp]:
  "got (w\<lparr>sw_reader := x\<rparr>) r = got w r" "got (w\<lparr>sw_threads := y\<rparr>) r = got w r" "got (w\<lparr>sw_missed := m\<rparr>) r = got w r"
  "got (w\<lparr>sw_cut := m\<rparr>) r = got w r" "got (w\<lparr>sw_session := s\<rparr>) r = got w r" "got (w\<lparr>sw_terminated := z\<rparr>) r = got w r"
  by (simp_all add: got_def)

lemma attached_update [simp]:
  "attached r (w\<lparr>sw_reader := x\<rparr>) = attached r w" "attached r (w\<lparr>sw_threads := y\<rparr>) = attached r w"
  "attached r (w\<lparr>sw_missed := m\<rparr>) = attached r w" "attached r (w\<lparr>sw_cut := m\<rparr>) = attached r w"
  "attached r (w\<lparr>sw_terminated := z\<rparr>) = attached r w" "attached r (w\<lparr>sw_heap := h\<rparr>) = attached r w"
  by (simp_all add: attached_def)

lemma conn_of_update [simp]:
  "conn_of r (w\<lparr>sw_reader := x\<rparr>) = conn_of r w" "conn_of r (w\<lparr>sw_threads := y\<rparr>) = conn_of r w"
  "conn_of r (w\<lparr>sw_missed := m\<rparr>) = conn_of r w" "conn_of r (w\<lparr>sw_cut := m\<rparr>) = conn_of r w"
  "conn_of r (w\<lparr>sw_terminated := z\<rparr>) = conn_of r w" "conn_of r (w\<lparr>sw_session := s\<rparr>) = conn_of r w"
  by (simp_all add: conn_of_def)

lemma touch_attached: "touch r w w' \<Longrightarrow> attached q w' = attached q w"
  by (simp add: attached_def touch_same)

lemma touch_owed: "touch r w w' \<Longrightarrow> owed w' q = owed w q"
  by (simp add: owed_def touch_same)

lemma touch_to_replay: "touch r w w' \<Longrightarrow> to_replay w' q = to_replay w q"
  by (simp add: to_replay_def touch_same)

lemma owed_update [simp]:
  "owed (w\<lparr>sw_reader := x\<rparr>) r = owed w r" "owed (w\<lparr>sw_threads := y\<rparr>) r = owed w r" "owed (w\<lparr>sw_missed := m\<rparr>) r = owed w r"
  "owed (w\<lparr>sw_cut := m\<rparr>) r = owed w r" "owed (w\<lparr>sw_session := s\<rparr>) r = owed w r" "owed (w\<lparr>sw_terminated := z\<rparr>) r = owed w r"
  by (simp_all add: owed_def)

lemma to_replay_update [simp]:
  "to_replay (w\<lparr>sw_reader := x\<rparr>) r = to_replay w r" "to_replay (w\<lparr>sw_missed := m\<rparr>) r = to_replay w r"
  "to_replay (w\<lparr>sw_session := s\<rparr>) r = to_replay w r" "to_replay (w\<lparr>sw_terminated := z\<rparr>) r = to_replay w r"
  "to_replay (w\<lparr>sw_cut := m\<rparr>) r = to_replay w r"
  by (simp_all add: to_replay_def)

lemma touch_viewers_ok:
  assumes "touch r w w'" "viewers_ok w" "attached r w \<Longrightarrow> map_option vw_closed (sw_heap w' r) = map_option vw_closed (sw_heap w r)"
  shows "viewers_ok w'"
proof (rule viewers_ok_cong[OF _ assms(2)])
  fix q v
  assume q: "attached q w" "sw_heap w q = Some v"
  have "map_option vw_conn (sw_heap w' q) = Some (vw_conn v)" using touch_conn[OF assms(1), of q] q by simp
  moreover have "map_option vw_closed (sw_heap w' q) = Some (vw_closed v)"
    using assms(1,3) q by (cases "q = r") (auto simp: touch_def)
  ultimately show "\<exists>v'. sw_heap w' q = Some v' \<and> vw_conn v' = vw_conn v \<and> (vw_closed v' \<longrightarrow> vw_closed v)" by auto
qed (simp add: touch_same[OF assms(1)])

lemma touch_mono:
  assumes "touch r w w'"
  shows "sw_heap w q \<noteq> None \<Longrightarrow> sw_heap w' q \<noteq> None \<and> (attached q w' \<longrightarrow> attached q w)"
  using touch_known[OF assms] touch_attached[OF assms] by simp

lemma viewers_ok_update [simp]:
  "viewers_ok (w\<lparr>sw_reader := x\<rparr>) = viewers_ok w" "viewers_ok (w\<lparr>sw_threads := y\<rparr>) = viewers_ok w"
  "viewers_ok (w\<lparr>sw_missed := m\<rparr>) = viewers_ok w" "viewers_ok (w\<lparr>sw_cut := m\<rparr>) = viewers_ok w"
  "viewers_ok (w\<lparr>sw_terminated := z\<rparr>) = viewers_ok w"
  by (simp_all add: viewers_ok_def)

lemma task_update [simp]:
  "reader_task (w\<lparr>sw_reader := x\<rparr>) = reader_task w" "thread_task (w\<lparr>sw_reader := x\<rparr>) = thread_task w"
  "reader_task (w\<lparr>sw_threads := y\<rparr>) = reader_task w" "thread_task (w\<lparr>sw_threads := y\<rparr>) = thread_task w"
  "reader_task (w\<lparr>sw_missed := m\<rparr>) = reader_task w" "thread_task (w\<lparr>sw_missed := m\<rparr>) = thread_task w"
  "reader_task (w\<lparr>sw_cut := m\<rparr>) = reader_task w" "thread_task (w\<lparr>sw_cut := m\<rparr>) = thread_task w"
proof -
  show "reader_task (w\<lparr>sw_reader := x\<rparr>) = reader_task w" by (rule ext, case_tac xa) simp_all
  show "thread_task (w\<lparr>sw_reader := x\<rparr>) = thread_task w" by (rule ext, case_tac xa) simp_all
  show "reader_task (w\<lparr>sw_threads := y\<rparr>) = reader_task w" by (rule ext, case_tac x) simp_all
  show "thread_task (w\<lparr>sw_threads := y\<rparr>) = thread_task w" by (rule ext, case_tac x) simp_all
  show "reader_task (w\<lparr>sw_missed := m\<rparr>) = reader_task w" by (rule ext, case_tac x) simp_all
  show "thread_task (w\<lparr>sw_missed := m\<rparr>) = thread_task w" by (rule ext, case_tac x) simp_all
  show "reader_task (w\<lparr>sw_cut := m\<rparr>) = reader_task w" by (rule ext, case_tac x) simp_all
  show "thread_task (w\<lparr>sw_cut := m\<rparr>) = thread_task w" by (rule ext, case_tac x) simp_all
qed

lemma inv_send:
  assumes inv: "stream_inv serial w" and rd: "sw_reader w = SendFrame f r # ts"
    and ex: "exec_task (SendFrame f r) w = (w1, new)"
  shows "stream_inv serial (w1\<lparr>sw_reader := new @ ts\<rparr>)"
proof -
  have known: "sw_heap w r \<noteq> None" "\<not> tf_can_input f" using inv rd by (simp_all add: stream_inv_def tasks_ok_def)
  obtain ok w0 where s: "send_frame f r w = (ok, w0)" by fastforce
  have t: "touch r w w0" and cl: "map_option vw_closed (sw_heap w0 r) = map_option vw_closed (sw_heap w r)"
    and g: "got w0 r = got w r @ (if ok then [f] else [])"
    using send_frame_effect[OF s known(1)] known(2) by auto
  have w1: "w1 = (if ok then w0 else w0\<lparr>sw_missed := insert r (sw_missed w0)\<rparr>)" "new = (if ok then [] else [DropConn (conn_of r w)])"
    using ex s by (simp_all split: if_splits bool.splits)
  let ?w = "w1\<lparr>sw_reader := new @ ts\<rparr>"
  have v: "viewers_ok w0" by (rule touch_viewers_ok[OF t]) (use inv cl in \<open>simp_all add: stream_inv_def\<close>)
  have m: "list_all (reader_task w0) (sw_reader w)" "list_all (list_all (thread_task w0)) (sw_threads w)"
    using tasks_mono[OF touch_mono[OF t]] inv by (simp_all add: stream_inv_def tasks_ok_def)
  have k: "tasks_ok ?w"
    using inv m known rd touch_same[OF t] touch_known[OF t] w1 by (auto simp: stream_inv_def tasks_ok_def)
  have "streams_ok serial ?w"
    unfolding streams_ok_def
  proof (intro conjI allI impI)
    fix q
    assume q: "attached q ?w \<and> q \<notin> sw_missed ?w \<and> q \<notin> sw_cut ?w"
    have q': "attached q w" "q \<notin> sw_missed w" "q \<notin> sw_cut w" "\<not> ok \<Longrightarrow> q \<noteq> r"
      using q w1 touch_attached[OF t] touch_same[OF t] by (auto split: if_splits)
    hence o: "sound_stream serial w q" "sw_base w q \<le> length (sw_output w)" "serial \<longrightarrow> sends q (sw_reader w) = [] \<or> to_replay w q = []"
      using inv by (auto simp: stream_inv_def streams_ok_def)
    have e: "owed ?w q = owed w q" "to_replay ?w q = to_replay w q" "sends q (sw_reader ?w) = sends q ts"
        "got ?w q = got w0 q"
      using w1 touch_owed[OF t] touch_to_replay[OF t] by (auto split: if_splits)
    show "sound_stream serial ?w q"
    proof (cases "q = r")
      case True
      hence ok: ok using q' by auto
      have "serial \<longrightarrow> to_replay w q = []" using o(3) rd True by auto
      thus ?thesis using o(1) e g ok True rd by (auto simp: sound_stream_def ac_simps)
    next
      case False
      thus ?thesis using o(1) e touch_got[OF t False] rd by (auto simp: sound_stream_def)
    qed
    show "sw_base ?w q \<le> length (sw_output ?w)" using o(2) w1 touch_same[OF t] by (auto split: if_splits)
    show "sends q (sw_reader ?w) = [] \<or> to_replay ?w q = []" if serial using o(3) that e rd by (auto split: if_splits)
  next
    fix q
    assume q: "attached q ?w \<and> q \<in> sw_missed ?w"
    have c: "conn_of q ?w = conn_of q w" using w1 touch_conn_of[OF t] by auto
    have "(q \<in> sw_missed w \<and> attached q w) \<or> (\<not> ok \<and> q = r)"
      using q w1 touch_attached[OF t] touch_same[OF t] by (auto split: if_splits)
    moreover have "q \<in> sw_missed w \<Longrightarrow> attached q w \<Longrightarrow> DropConn (conn_of q w) \<in> set ts"
      using inv rd by (auto simp: stream_inv_def streams_ok_def)
    ultimately show "DropConn (conn_of q ?w) \<in> set (sw_reader ?w)" unfolding c using w1 by auto
  qed
  moreover have "output_inv (sw_output ?w) (sw_session ?w)" using inv w1 touch_same[OF t] by (auto simp: stream_inv_def)
  moreover have "viewers_ok ?w" using v w1 by auto
  ultimately show ?thesis using k by (simp add: stream_inv_def)
qed

text \<open>A session change that only detaches viewers.\<close>

lemma sound_stream_cong:
  assumes "got w' q = got w q" "sends q (sw_reader w') = sends q (sw_reader w)" "to_replay w' q = to_replay w q"
    "owed w' q = owed w q"
  shows "sound_stream serial w' q = sound_stream serial w q"
  using assms by (simp add: sound_stream_def)

lemma streams_ok_cong:
  assumes s: "streams_ok serial w"
    and a: "\<And>q. attached q w' \<Longrightarrow> attached q w \<and> got w' q = got w q \<and> conn_of q w' = conn_of q w \<and>
      sends q (sw_reader w') = sends q (sw_reader w) \<and> to_replay w' q = to_replay w q \<and>
      (DropConn (conn_of q w) \<in> set (sw_reader w) \<longrightarrow> DropConn (conn_of q w) \<in> set (sw_reader w'))"
    and f: "sw_output w' = sw_output w" "sw_missed w' = sw_missed w" "sw_cut w' = sw_cut w" "sw_after w' = sw_after w"
      "sw_base w' = sw_base w"
  shows "streams_ok serial w'"
proof -
  have o: "owed w' q = owed w q" for q by (simp add: owed_def f)
  show ?thesis
    unfolding streams_ok_def
  proof (intro conjI allI impI)
    fix q
    assume q: "attached q w' \<and> q \<notin> sw_missed w' \<and> q \<notin> sw_cut w'"
    hence k: "sound_stream serial w q" "sw_base w q \<le> length (sw_output w)"
        "serial \<longrightarrow> sends q (sw_reader w) = [] \<or> to_replay w q = []"
      using s a[of q] by (simp_all add: streams_ok_def f)
    show "sound_stream serial w' q" using k(1) sound_stream_cong[of w' q w] a[of q] q o by simp
    show "sw_base w' q \<le> length (sw_output w')" using k(2) by (simp add: f)
    show "sends q (sw_reader w') = [] \<or> to_replay w' q = []" if serial using k(3) a[of q] q that by simp
  next
    fix q
    assume "attached q w' \<and> q \<in> sw_missed w'"
    thus "DropConn (conn_of q w') \<in> set (sw_reader w')" using s a[of q] by (simp add: streams_ok_def f)
  qed
qed

lemma inv_drop:
  assumes inv: "stream_inv serial w" and rd: "sw_reader w = DropConn c # ts"
    and ex: "exec_task (DropConn c) w = (w1, new)"
  shows "stream_inv serial (w1\<lparr>sw_reader := new @ ts\<rparr>)"
proof -
  have v: "viewers_ok w" using inv by (simp add: stream_inv_def)
  obtain res old s1 where d: "detach_viewer (sw_heap w) c (sw_session w) = ((res, old), s1)" by (metis surj_pair)
  note cs = detach_viewer_cases[OF v d]
  show ?thesis
  proof (cases old)
    case None
    have w1: "w1 = w" "new = []" using ex d None by simp_all
    have "streams_ok serial (w\<lparr>sw_reader := ts\<rparr>)"
      by (rule streams_ok_cong[of serial w]) (use inv rd cs None in \<open>auto simp: stream_inv_def\<close>)
    thus ?thesis using inv rd w1 by (auto simp: stream_inv_def tasks_ok_def)
  next
    case (Some r)
    let ?w = "w\<lparr>sw_session := s1, sw_reader := FailViewer r # ts\<rparr>"
    have e: "w1\<lparr>sw_reader := new @ ts\<rparr> = ?w" using ex d Some by simp
    have r: "attached r w" "conn_of r w = c" "\<And>q. attached q w \<Longrightarrow> conn_of q w = c \<Longrightarrow> q = r"
      and s1: "s1 = (sw_session w)\<lparr>ts_viewers := AList.delete c (ts_viewers (sw_session w))\<rparr>"
      using cs Some by auto
    have at: "attached q ?w \<longleftrightarrow> attached q w \<and> q \<noteq> r" for q using cs Some s1 by (simp add: attached_def)
    have cq: "attached q ?w \<Longrightarrow> attached q w \<and> conn_of q w \<noteq> c" for q using at[of q] r(3)[of q] by blast
    have known: "sw_heap w r \<noteq> None" using attached_live[OF v r(1)] by auto
    have m: "list_all (reader_task ?w) (sw_reader w)" "list_all (list_all (thread_task ?w)) (sw_threads w)"
      by (rule tasks_mono[of w]; use inv at in \<open>auto simp: stream_inv_def tasks_ok_def\<close>)+
    have "streams_ok serial ?w"
    proof (rule streams_ok_cong[of serial w])
      show "streams_ok serial w" using inv by (simp add: stream_inv_def)
      fix q
      assume "attached q ?w"
      from cq[OF this] show "attached q w \<and> got ?w q = got w q \<and> conn_of q ?w = conn_of q w \<and>
          sends q (sw_reader ?w) = sends q (sw_reader w) \<and> to_replay ?w q = to_replay w q \<and>
          (DropConn (conn_of q w) \<in> set (sw_reader w) \<longrightarrow> DropConn (conn_of q w) \<in> set (sw_reader ?w))"
        using rd by simp
    qed simp_all
    moreover have "tasks_ok ?w" using inv m known at rd by (auto simp: stream_inv_def tasks_ok_def)
    moreover have "viewers_ok ?w" by (rule viewers_ok_delete[OF v, of _ c]) (simp_all add: s1)
    moreover have "output_inv (sw_output ?w) (sw_session ?w)"
      by (rule output_inv_cong[of _ "sw_session w"]) (use inv s1 in \<open>auto simp: stream_inv_def\<close>)
    ultimately show ?thesis unfolding e by (simp add: stream_inv_def)
  qed
qed

text \<open>A task of the reader or of another goroutine that closes a viewer which is not attached.\<close>

lemma shut_inv:
  assumes inv: "stream_inv serial w" and r: "\<not> attached r w"
  shows "stream_inv serial (shut_viewer r w)"
proof -
  let ?w = "shut_viewer r w"
  have t: "touch r w ?w" by (rule shut_viewer_touch)
  have g: "got ?w q = got w q" for q
    by (simp add: got_def shut_viewer_def close_viewer_def split: option.split)
  have "streams_ok serial ?w"
    by (rule streams_ok_cong[of serial w])
      (use inv r touch_attached[OF t] g touch_conn_of[OF t] touch_to_replay[OF t] touch_same[OF t] in
        \<open>auto simp: stream_inv_def\<close>)
  moreover have "viewers_ok ?w" by (rule touch_viewers_ok[OF t]) (use inv r in \<open>auto simp: stream_inv_def\<close>)
  moreover have "tasks_ok ?w"
    using inv tasks_mono[OF touch_mono[OF t]] touch_same[OF t] touch_known[OF t] by (auto simp: stream_inv_def tasks_ok_def)
  ultimately show ?thesis using inv touch_same[OF t] by (simp add: stream_inv_def)
qed

lemma inv_fail:
  assumes inv: "stream_inv serial w" and rd: "sw_reader w = FailViewer r # ts"
    and ex: "exec_task (FailViewer r) w = (w1, new)"
  shows "stream_inv serial (w1\<lparr>sw_reader := new @ ts\<rparr>)"
proof -
  let ?w = "w\<lparr>sw_reader := ts, sw_terminated := conn_of r w # sw_terminated w\<rparr>"
  have r: "\<not> attached r w" using inv rd by (simp add: stream_inv_def tasks_ok_def)
  have "tasks_ok ?w"
    using inv rd tasks_mono[of w ?w] by (auto simp: stream_inv_def tasks_ok_def)
  moreover have "streams_ok serial ?w" by (rule streams_ok_cong[of serial w]) (use inv rd in \<open>auto simp: stream_inv_def\<close>)
  ultimately have "stream_inv serial ?w" using inv by (simp add: stream_inv_def)
  hence "stream_inv serial (shut_viewer r ?w)" using r by (intro shut_inv) simp_all
  moreover have "w1\<lparr>sw_reader := new @ ts\<rparr> = shut_viewer r ?w" using ex by (auto simp: shut_viewer_def)
  ultimately show ?thesis by simp
qed

lemma inv_read:
  assumes inv: "stream_inv serial w" and rd: "sw_reader w = []" "\<not> serial \<or> \<not> list_ex replaying (sw_threads w)"
    and rs: "mset rs = mset (map snd (ts_viewers (sw_session w)))"
  shows "stream_inv serial (do_read now data rs w)"
proof -
  obtain s1 fs x where a: "append_output now data (sw_session w) = (s1, fs, x)" by (metis prod_cases3)
  have o: "output_inv (sw_output w) (sw_session w)" and v: "viewers_ok w" using inv by (simp_all add: stream_inv_def)
  have s1: "output_inv (sw_output w @ fs) s1" "ts_viewers s1 = ts_viewers (sw_session w)"
    using append_output_inv[OF o a] by simp_all
  let ?w = "do_read now data rs w"
  have w: "?w = w\<lparr>sw_session := s1, sw_output := sw_output w @ fs, sw_reader := concat (map (\<lambda>f. map (SendFrame f) rs) fs)\<rparr>"
    using a by (simp add: do_read_def)
  have d: "distinct rs" "set rs = snd ` set (ts_viewers (sw_session w))"
    using viewers_distinct[OF v] mset_eq_imp_distinct_iff[OF rs] mset_eq_setD[OF rs] by simp_all
  have at: "attached q ?w = attached q w" for q by (simp add: w attached_def s1)
  have plain: "list_all (\<lambda>f. \<not> tf_can_input f) fs" using s1(1) by (auto simp: output_inv_def list_all_iff)
  have snd: "attached q w \<Longrightarrow> sends q (sw_reader ?w) = fs" for q
    using sends_broadcast[OF d(1), of q fs] d(2) by (simp add: w attached_def)
  have missed: "attached q w \<Longrightarrow> q \<notin> sw_missed w" for q
    using inv rd(1) by (auto simp: stream_inv_def streams_ok_def)
  have "streams_ok serial ?w"
    unfolding streams_ok_def at
  proof (intro conjI allI impI)
    fix q
    assume q: "attached q w \<and> q \<notin> sw_missed ?w \<and> q \<notin> sw_cut ?w"
    hence k: "sound_stream serial w q" "sw_base w q \<le> length (sw_output w)"
      using inv by (simp_all add: stream_inv_def streams_ok_def w)
    have e: "got ?w q = got w q" "to_replay ?w q = to_replay w q" "owed ?w q = owed w q @ fs"
      using k(2) by (simp_all add: w got_def to_replay_def owed_def)
    have z: "serial \<Longrightarrow> to_replay w q = []" using rd(2) no_replay by (auto simp: to_replay_def)
    show "sound_stream serial ?w q" using k(1) e snd[of q] q z rd(1) by (auto simp: sound_stream_def ac_simps)
    show "sw_base ?w q \<le> length (sw_output ?w)" using k(2) by (simp add: w)
    show "sends q (sw_reader ?w) = [] \<or> to_replay ?w q = []" if serial using z e that by simp
  next
    fix q
    assume "attached q w \<and> q \<in> sw_missed ?w"
    thus "DropConn (conn_of q ?w) \<in> set (sw_reader ?w)" using missed[of q] by (simp add: w)
  qed
  moreover have "viewers_ok ?w" by (rule viewers_ok_cong[OF _ v]) (simp_all add: w s1)
  moreover have "tasks_ok ?w"
  proof -
    have kn: "r \<in> set rs \<Longrightarrow> sw_heap w r \<noteq> None" for r using attached_live[OF v] d(2) by (fastforce simp: attached_def)
    have "list_all (list_all (thread_task ?w)) (sw_threads w)"
      by (rule tasks_mono(2)[of w]) (use inv at in \<open>auto simp: stream_inv_def tasks_ok_def w\<close>)
    moreover have "list_all (reader_task ?w) (sw_reader ?w)" using kn plain by (auto simp: w list_all_iff)
    ultimately show ?thesis using inv by (simp add: stream_inv_def tasks_ok_def w)
  qed
  ultimately show ?thesis using s1(1) by (simp add: stream_inv_def w)
qed

lemma no_replay_of: "filter (replay_of r) ts = [] \<Longrightarrow> replays r ts = []"
  by (induction r ts rule: replays.induct) (auto split: if_splits)

lemma no_replay_in: "filter (replay_of r) (concat tss) = [] \<Longrightarrow> concat (map (replays r) tss) = []"
  by (induction tss) (auto simp: no_replay_of filter_empty_conv)

text \<open>Another goroutine drops a task that changes nothing, or replaces it.\<close>

lemma inv_thread_skip:
  assumes inv: "stream_inv serial w" and th: "sw_threads w = pre @ (t # ts) # post"
    and nil: "\<And>q. replays q [t] = []"
  shows "stream_inv serial (w\<lparr>sw_threads := pre @ ts # post\<rparr>)"
proof -
  let ?w = "w\<lparr>sw_threads := pre @ ts # post\<rparr>"
  have tr: "to_replay ?w q = to_replay w q" for q
    using nil[of q] replays_append[of q "[t]" ts] by (simp add: to_replay_def th)
  have "streams_ok serial ?w" by (rule streams_ok_cong[of serial w]) (use inv tr in \<open>auto simp: stream_inv_def\<close>)
  moreover have "tasks_ok ?w"
  proof -
    have "length (filter (replay_of q) (concat (pre @ ts # post))) \<le> length (filter (replay_of q) (concat (sw_threads w)))" for q
      by (simp add: th)
    moreover have "length (filter (replay_of q) (concat (sw_threads w))) \<le> 1" for q using inv by (simp add: stream_inv_def tasks_ok_def)
    ultimately have c: "length (filter (replay_of q) (concat (pre @ ts # post))) \<le> 1" for q by (meson le_trans)
    thus ?thesis using inv th by (simp add: stream_inv_def tasks_ok_def)
  qed
  ultimately show ?thesis using inv by (simp add: stream_inv_def)
qed

lemma inv_replay:
  assumes inv: "stream_inv serial w" and th: "sw_threads w = pre @ (Replay r (f # fs) # ts) # post"
    and ex: "exec_task (Replay r (f # fs)) w = (w1, new)"
  shows "stream_inv serial (w1\<lparr>sw_threads := pre @ (new @ ts) # post\<rparr>)"
proof -
  have known: "sw_heap w r \<noteq> None" "\<not> tf_can_input f" "list_all (\<lambda>f. \<not> tf_can_input f) fs"
    using inv th by (simp_all add: stream_inv_def tasks_ok_def)
  have uniq: "length (filter (replay_of q) (concat (sw_threads w))) \<le> 1" for q using inv by (simp add: stream_inv_def tasks_ok_def)
  hence only: "filter (replay_of r) (concat pre) = []" "filter (replay_of r) (ts @ concat post) = []"
    using uniq[of r] by (simp_all add: th)
  obtain ok w0 where s: "send_frame f r w = (ok, w0)" by fastforce
  have t: "touch r w w0" and cl: "map_option vw_closed (sw_heap w0 r) = map_option vw_closed (sw_heap w r)"
    and g: "got w0 r = got w r @ (if ok then [f] else [])"
    using send_frame_effect[OF s known(1)] known(2) by auto
  have w1: "w1 = (if ok then w0 else w0\<lparr>sw_cut := insert r (sw_cut w0)\<rparr>)" "new = (if ok then [Replay r fs] else [])"
    using ex s by (simp_all split: if_splits bool.splits)
  let ?w = "w1\<lparr>sw_threads := pre @ (new @ ts) # post\<rparr>"
  have trq: "to_replay ?w q = to_replay w q" if "q \<noteq> r" for q
    using that w1 by (auto simp: to_replay_def th)
  have n: "concat (map (replays r) pre) = []" "replays r ts = []" "concat (map (replays r) post) = []"
    using no_replay_in[OF only(1)] no_replay_of[of r ts] no_replay_in[of r post] only(2) by simp_all
  have trr: "to_replay w r = f # fs" "ok \<Longrightarrow> to_replay ?w r = fs"
    by (simp_all add: to_replay_def th w1 n del: concat_eq_Nil_conv)
  have v: "viewers_ok w0" by (rule touch_viewers_ok[OF t]) (use inv cl in \<open>simp_all add: stream_inv_def\<close>)
  have m: "list_all (reader_task w0) (sw_reader w)" "list_all (list_all (thread_task w0)) (sw_threads w)"
    using tasks_mono[OF touch_mono[OF t]] inv by (simp_all add: stream_inv_def tasks_ok_def)
  have "streams_ok serial ?w"
    unfolding streams_ok_def
  proof (intro conjI allI impI)
    fix q
    assume q: "attached q ?w \<and> q \<notin> sw_missed ?w \<and> q \<notin> sw_cut ?w"
    have q': "attached q w" "q \<notin> sw_missed w" "q \<notin> sw_cut w" "\<not> ok \<Longrightarrow> q \<noteq> r"
      using q w1 touch_attached[OF t] touch_same[OF t] by (auto split: if_splits)
    hence o: "sound_stream serial w q" "sw_base w q \<le> length (sw_output w)" "serial \<longrightarrow> sends q (sw_reader w) = [] \<or> to_replay w q = []"
      using inv by (auto simp: stream_inv_def streams_ok_def)
    have e: "owed ?w q = owed w q" "sends q (sw_reader ?w) = sends q (sw_reader w)" "got ?w q = got w0 q"
      using w1 touch_owed[OF t] touch_same[OF t] by (auto split: if_splits)
    show "sound_stream serial ?w q"
    proof (cases "q = r")
      case True
      thus ?thesis using o(1) e g q'(4) trr by (auto simp: sound_stream_def ac_simps)
    next
      case False
      thus ?thesis using o(1) e touch_got[OF t False] trq by (auto simp: sound_stream_def)
    qed
    show "sw_base ?w q \<le> length (sw_output ?w)" using o(2) w1 touch_same[OF t] by (auto split: if_splits)
    show "sends q (sw_reader ?w) = [] \<or> to_replay ?w q = []" if serial
      using o(3) that e trq trr(1) by (cases "q = r") auto
  next
    fix q
    assume q: "attached q ?w \<and> q \<in> sw_missed ?w"
    have "conn_of q ?w = conn_of q w" "sw_reader ?w = sw_reader w" using w1 touch_conn_of[OF t] touch_same[OF t] by auto
    moreover have "q \<in> sw_missed w \<and> attached q w"
      using q w1 touch_attached[OF t] touch_same[OF t] by (auto split: if_splits)
    ultimately show "DropConn (conn_of q ?w) \<in> set (sw_reader ?w)" using inv by (simp add: stream_inv_def streams_ok_def)
  qed
  moreover have "tasks_ok ?w"
  proof -
    have "length (filter (replay_of q) (concat (pre @ (new @ ts) # post))) \<le> length (filter (replay_of q) (concat (sw_threads w)))" for q
      using w1 by (auto simp: th)
    hence "length (filter (replay_of q) (concat (pre @ (new @ ts) # post))) \<le> 1" for q using uniq[of q] le_trans by blast
    moreover have "list_all (thread_task w0) (new @ ts)" using m(2) w1 known(3) touch_known[OF t] known(1) by (auto simp: th)
    ultimately show ?thesis
      using inv m known w1 touch_same[OF t] touch_known[OF t] by (auto simp: stream_inv_def tasks_ok_def th)
  qed
  moreover have "output_inv (sw_output ?w) (sw_session ?w)" using inv w1 touch_same[OF t] by (auto simp: stream_inv_def)
  moreover have "viewers_ok ?w" using v w1 by auto
  ultimately show ?thesis by (simp add: stream_inv_def)
qed

lemma touch_detached_inv:
  assumes inv: "stream_inv serial w" and t: "touch r w w'" and r: "\<not> attached r w"
  shows "stream_inv serial w'"
proof -
  have "streams_ok serial w'"
  proof (rule streams_ok_cong[of serial w])
    show "streams_ok serial w" using inv by (simp add: stream_inv_def)
    fix q
    assume "attached q w'"
    hence "attached q w" "q \<noteq> r" using touch_attached[OF t] r by auto
    thus "attached q w \<and> got w' q = got w q \<and> conn_of q w' = conn_of q w \<and> sends q (sw_reader w') = sends q (sw_reader w) \<and>
        to_replay w' q = to_replay w q \<and> (DropConn (conn_of q w) \<in> set (sw_reader w) \<longrightarrow> DropConn (conn_of q w) \<in> set (sw_reader w'))"
      using touch_got[OF t] touch_conn_of[OF t] touch_to_replay[OF t] touch_same[OF t] by simp
  qed (simp_all add: touch_same[OF t])
  moreover have "viewers_ok w'" by (rule touch_viewers_ok[OF t]) (use inv r in \<open>auto simp: stream_inv_def\<close>)
  moreover have "tasks_ok w'"
    using inv tasks_mono[OF touch_mono[OF t]] touch_same[OF t] touch_known[OF t] by (auto simp: stream_inv_def tasks_ok_def)
  ultimately show ?thesis using inv touch_same[OF t] by (simp add: stream_inv_def)
qed

lemma inv_thread:
  assumes inv: "stream_inv serial w" and th: "sw_threads w = pre @ (t # ts) # post" and ex: "exec_task t w = (w1, new)"
  shows "stream_inv serial (w1\<lparr>sw_threads := pre @ (new @ ts) # post\<rparr>)"
proof -
  have ok: "thread_task w t" using inv th by (simp add: stream_inv_def tasks_ok_def)
  show ?thesis
  proof (cases t)
    case (Replay r fs)
    show ?thesis
    proof (cases fs)
      case Nil
      hence "w1 = w" "new = []" using ex Replay by simp_all
      thus ?thesis using inv_thread_skip[OF inv th] Replay Nil by simp
    next
      case (Cons f gs)
      thus ?thesis using inv_replay[OF inv, of pre r f gs ts post w1 new] th ex Replay by simp
    qed
  next
    case (LastFrame f r)
    have r: "sw_heap w r \<noteq> None" "\<not> attached r w" using ok LastFrame by simp_all
    obtain b w0 where s: "send_frame f r w = (b, w0)" by fastforce
    have w1: "w1 = w0" "new = []" using ex s LastFrame by simp_all
    have tt: "touch r w w0" using send_frame_effect[OF s r(1)] by simp
    have i0: "stream_inv serial w0" by (rule touch_detached_inv[OF inv tt r(2)])
    have th0: "sw_threads w0 = pre @ (t # ts) # post" using th touch_same[OF tt] by simp
    show ?thesis unfolding w1 append_Nil by (rule inv_thread_skip[OF i0 th0]) (simp add: LastFrame)
  next
    case (CloseViewer r)
    have w1: "w1 = shut_viewer r w" "new = []" using ex CloseViewer by simp_all
    have i0: "stream_inv serial w1" unfolding w1 by (rule shut_inv[OF inv]) (use ok CloseViewer in simp)
    have th0: "sw_threads w1 = pre @ (t # ts) # post" using th w1 by (simp add: shut_viewer_def)
    show ?thesis unfolding w1(2) append_Nil by (rule inv_thread_skip[OF i0 th0]) (simp add: CloseViewer)
  qed (use ok in simp_all)
qed

lemma inv_detach:
  assumes inv: "stream_inv serial w"
  shows "stream_inv serial (do_detach c w)"
proof -
  have v: "viewers_ok w" using inv by (simp add: stream_inv_def)
  obtain res old s1 where d: "detach_viewer (sw_heap w) c (sw_session w) = ((res, old), s1)" by (metis surj_pair)
  note cs = detach_viewer_cases[OF v d]
  show ?thesis
  proof (cases old)
    case None
    thus ?thesis using inv d by (simp add: do_detach_def)
  next
    case (Some r)
    let ?w = "w\<lparr>sw_session := s1, sw_threads := sw_threads w @ [[CloseViewer r]]\<rparr>"
    have e: "do_detach c w = ?w" using d Some by (simp add: do_detach_def)
    have r: "attached r w"
      and s1: "s1 = (sw_session w)\<lparr>ts_viewers := AList.delete c (ts_viewers (sw_session w))\<rparr>"
      using cs Some by auto
    have at: "attached q ?w \<longleftrightarrow> attached q w \<and> q \<noteq> r" for q using cs Some s1 by (simp add: attached_def)
    have tr: "to_replay ?w q = to_replay w q" for q by (simp add: to_replay_def)
    have known: "sw_heap w r \<noteq> None" using attached_live[OF v r] by auto
    have m: "list_all (reader_task ?w) (sw_reader w)" "list_all (list_all (thread_task ?w)) (sw_threads w)"
      by (rule tasks_mono[of w]; use inv at in \<open>auto simp: stream_inv_def tasks_ok_def\<close>)+
    have "streams_ok serial ?w"
      by (rule streams_ok_cong[of serial w]) (use inv at tr in \<open>auto simp: stream_inv_def\<close>)
    moreover have "tasks_ok ?w" using inv m known at by (auto simp: stream_inv_def tasks_ok_def)
    moreover have "viewers_ok ?w" by (rule viewers_ok_delete[OF v, of _ c]) (simp_all add: s1)
    moreover have "output_inv (sw_output ?w) (sw_session ?w)"
      by (rule output_inv_cong[of _ "sw_session w"]) (use inv s1 in \<open>auto simp: stream_inv_def\<close>)
    ultimately show ?thesis unfolding e by (simp add: stream_inv_def)
  qed
qed

lemma inv_close:
  assumes inv: "stream_inv serial w" and rs: "mset rs = mset (map snd (ts_viewers (sw_session w)))"
  shows "stream_inv serial (do_close exited now reason rs w)"
proof (cases "ts_once (sw_session w)")
  case False
  have v: "viewers_ok w" using inv by (simp add: stream_inv_def)
  obtain s1 f x where c: "close_locked exited now reason (sw_session w) = (s1, f, x)" by (metis prod_cases3)
  let ?new = "concat (map (\<lambda>r. [LastFrame f r, CloseViewer r]) rs)"
  let ?w = "w\<lparr>sw_session := s1, sw_threads := sw_threads w @ [?new]\<rparr>"
  have e: "do_close exited now reason rs w = ?w" using False c by (simp add: do_close_def)
  have s1: "ts_viewers s1 = []" "output_inv (sw_output w) s1"
    using c inv by (auto simp: close_locked_def cancel_retention_def Let_def stream_inv_def elim!: output_inv_cong)
  have at: "\<not> attached q ?w" for q by (simp add: attached_def s1)
  have known: "r \<in> set rs \<Longrightarrow> sw_heap w r \<noteq> None" for r
    using attached_live[OF v] mset_eq_setD[OF rs] by (fastforce simp: attached_def)
  have m: "list_all (reader_task ?w) (sw_reader w)" "list_all (list_all (thread_task ?w)) (sw_threads w)"
    by (rule tasks_mono[of w]; use inv at in \<open>auto simp: stream_inv_def tasks_ok_def\<close>)+
  have nr: "filter (replay_of q) ?new = []" for q by (auto simp: filter_empty_conv)
  have "tasks_ok ?w" using inv m known at nr by (simp add: stream_inv_def tasks_ok_def list_all_iff)
  moreover have "streams_ok serial ?w" unfolding streams_ok_def using at by blast
  moreover have "viewers_ok ?w" by (simp add: viewers_ok_def s1)
  ultimately show ?thesis using s1(2) unfolding e by (simp add: stream_inv_def)
qed (use inv in \<open>simp add: do_close_def\<close>)

lemma inv_take:
  assumes inv: "stream_inv serial w" and h: "sw_heap w r = Some v" "vw_frames v = f # fs"
  shows "stream_inv serial (take_frame r v f fs w)"
proof -
  let ?w = "take_frame r v f fs w"
  have g: "got ?w q = got w q" for q using h by (simp add: got_def take_frame_def)
  have at: "attached q ?w = attached q w" for q by (simp add: attached_def take_frame_def)
  have cn: "conn_of q ?w = conn_of q w" for q using h by (simp add: conn_of_def take_frame_def)
  have tr: "to_replay ?w q = to_replay w q" for q by (simp add: to_replay_def take_frame_def)
  have m: "list_all (reader_task ?w) (sw_reader w)" "list_all (list_all (thread_task ?w)) (sw_threads w)"
    by (rule tasks_mono[of w]; use inv at h in \<open>auto simp: stream_inv_def tasks_ok_def take_frame_def\<close>)+
  have "streams_ok serial ?w"
    by (rule streams_ok_cong[of serial w]) (use inv g at cn tr in \<open>auto simp: stream_inv_def take_frame_def\<close>)
  moreover have "tasks_ok ?w" using inv m h by (auto simp: stream_inv_def tasks_ok_def take_frame_def)
  moreover have "viewers_ok ?w" by (rule viewers_ok_cong[of _ w]) (use inv h in \<open>auto simp: stream_inv_def take_frame_def\<close>)
  ultimately show ?thesis using inv by (simp add: stream_inv_def take_frame_def)
qed

lemma fresh_task:
  "sw_heap w r = None \<Longrightarrow> list_all (reader_task w) ts \<Longrightarrow> sends r ts = []"
  "sw_heap w r = None \<Longrightarrow> list_all (thread_task w) ts \<Longrightarrow> filter (replay_of r) ts = []"
proof (induction ts)
  case (Cons t ts)
  { case 1 thus ?case using Cons by (cases t) auto }
  { case 2 thus ?case using Cons by (cases t) auto }
qed simp_all

lemma fresh_threads:
  "sw_heap w r = None \<Longrightarrow> list_all (list_all (thread_task w)) tss \<Longrightarrow> filter (replay_of r) (concat tss) = []"
  by (induction tss) (simp_all add: fresh_task(2))

lemma set_alist_update:
  "distinct (map fst al) \<Longrightarrow> set (AList.update k x al) = insert (k, x) {p \<in> set al. fst p \<noteq> k}"
  by (induction al) (auto simp: image_iff)

lemma inv_attach_closed:
  assumes inv: "stream_inv serial w" and fresh: "sw_heap w r = None"
  shows "stream_inv serial (w\<lparr>sw_heap := (sw_heap w)(r \<mapsto> v), sw_threads := sw_threads w @ [[CloseViewer r]]\<rparr>)"
    (is "stream_inv serial ?w")
proof -
  have v: "viewers_ok w" using inv by (simp add: stream_inv_def)
  have na: "attached q w \<Longrightarrow> q \<noteq> r" for q using attached_live[OF v] fresh by fastforce
  have m: "list_all (reader_task ?w) (sw_reader w)" "list_all (list_all (thread_task ?w)) (sw_threads w)"
    by (rule tasks_mono[of w]; use inv in \<open>auto simp: stream_inv_def tasks_ok_def\<close>)+
  have tr: "to_replay ?w q = to_replay w q" for q by (simp add: to_replay_def)
  have "streams_ok serial ?w"
    by (rule streams_ok_cong[of serial w])
      (use inv na tr in \<open>auto simp: stream_inv_def got_def conn_of_def dest!: na\<close>)
  moreover have "tasks_ok ?w" using inv m na by (auto simp: stream_inv_def tasks_ok_def)
  moreover have "viewers_ok ?w" by (rule viewers_ok_cong[of _ w]) (use v na in auto)
  ultimately show ?thesis using inv by (simp add: stream_inv_def)
qed

lemma inv_attach_open:
  assumes inv: "stream_inv serial w" and fresh: "sw_heap w r = None"
    and v1: "vw_conn v1 = c" "\<not> vw_closed v1" "vw_frames v1 = []"
    and s: "ts_output_seq s = ts_output_seq (sw_session w)" "ts_id s = ts_id (sw_session w)"
      "ts_history s = ts_history (sw_session w)" "ts_history_bytes s = ts_history_bytes (sw_session w)"
      "ts_viewers s = AList.update c r (ts_viewers (sw_session w))"
    and w': "w' = w\<lparr>sw_heap := (sw_heap w)(r \<mapsto> v1), sw_session := s,
      sw_threads := sw_threads w @ [(case map_of (ts_viewers (sw_session w)) c of None \<Rightarrow> [] | Some o1 \<Rightarrow> [CloseViewer o1]) @
        [Replay r (history_after after (sw_session w))]],
      sw_after := (sw_after w)(r := after), sw_base := (sw_base w)(r := length (sw_output w))\<rparr>"
  shows "stream_inv serial w'"
proof -
  have v: "viewers_ok w" and o: "output_inv (sw_output w) (sw_session w)" and k: "tasks_ok w" and st: "streams_ok serial w"
    using inv by (simp_all add: stream_inv_def)
  have dist: "distinct (map fst (ts_viewers (sw_session w)))" using v by (simp add: viewers_ok_def)
  have na: "\<not> attached r w" using attached_live[OF v, of r] fresh by auto
  have at: "attached q w' \<longleftrightarrow> q = r \<or> (attached q w \<and> conn_of q w \<noteq> c)" for q
  proof -
    have "attached q w' \<longleftrightarrow> q \<in> snd ` set (AList.update c r (ts_viewers (sw_session w)))" by (simp add: w' attached_def s)
    also have "\<dots> \<longleftrightarrow> q = r \<or> (\<exists>c1. (c1, q) \<in> set (ts_viewers (sw_session w)) \<and> c1 \<noteq> c)"
      using dist by (force simp: image_iff set_alist_update)
    also have "\<dots> \<longleftrightarrow> q = r \<or> (attached q w \<and> conn_of q w \<noteq> c)"
      using viewer_entry[OF v] attached_live[OF v, of q] by (metis conn_of_def option.simps(5))
    finally show ?thesis .
  qed
  have old: "\<not> attached o1 w' \<and> sw_heap w o1 \<noteq> None" if "map_of (ts_viewers (sw_session w)) c = Some o1" for o1
    using viewer_entry[OF v map_of_SomeD[OF that]] na fresh by (auto simp: at)
  have hist: "list_all (\<lambda>f. \<not> tf_can_input f) (history_after after (sw_session w))"
    and own: "history_after after (sw_session w) = filter (\<lambda>f. tf_seq f > after) (longest_fit (sw_output w))"
  proof -
    show "history_after after (sw_session w) = filter (\<lambda>f. tf_seq f > after) (longest_fit (sw_output w))"
      using o by (simp add: history_after_def output_inv_def)
    obtain pre where "sw_output w = pre @ longest_fit (sw_output w)" using longest_fit_suffix by blast
    hence "set (longest_fit (sw_output w)) \<subseteq> set (sw_output w)" by (metis set_append sup_ge2)
    thus "list_all (\<lambda>f. \<not> tf_can_input f) (history_after after (sw_session w))"
      using o by (auto simp: history_after_def output_inv_def list_all_iff)
  qed
  have no: "sends r (sw_reader w) = []" "filter (replay_of r) (concat (sw_threads w)) = []"
    using fresh_task(1)[OF fresh] fresh_threads[OF fresh] k by (simp_all add: tasks_ok_def)
  have tr: "to_replay w' q = to_replay w q @ (if q = r then history_after after (sw_session w) else [])" for q
    by (simp add: to_replay_def w' split: option.split)
  have "streams_ok serial w'"
    unfolding streams_ok_def
  proof (intro conjI allI impI)
    fix q
    assume q: "attached q w' \<and> q \<notin> sw_missed w' \<and> q \<notin> sw_cut w'"
    have g: "sound_stream serial w' q \<and> sw_base w' q \<le> length (sw_output w') \<and>
        (serial \<longrightarrow> sends q (sw_reader w') = [] \<or> to_replay w' q = [])"
    proof (cases "q = r")
      case True
      have "got w' r = []" using k fresh v1 by (simp add: got_def w' tasks_ok_def)
      moreover have "to_replay w' r = history_after after (sw_session w)"
        using tr[of r] no_replay_in[OF no(2)] by (simp add: to_replay_def)
      moreover have "owed w' r = history_after after (sw_session w)" by (simp add: owed_def w' own)
      ultimately show ?thesis using True no(1) by (simp add: sound_stream_def w')
    next
      case False
      hence a: "attached q w" "q \<notin> sw_missed w" "q \<notin> sw_cut w" using q at by (auto simp: w')
      have e: "got w' q = got w q" "owed w' q = owed w q" "to_replay w' q = to_replay w q" "sw_reader w' = sw_reader w"
          "sw_base w' q = sw_base w q" "sw_output w' = sw_output w"
        using False tr[of q] by (simp_all add: w' got_def owed_def)
      show ?thesis using st a e by (simp add: streams_ok_def sound_stream_def)
    qed
    show "sound_stream serial w' q" "sw_base w' q \<le> length (sw_output w')" using g by auto
    show "sends q (sw_reader w') = [] \<or> to_replay w' q = []" if serial using g that by auto
  next
    fix q
    assume q: "attached q w' \<and> q \<in> sw_missed w'"
    hence "q \<noteq> r" using k fresh by (auto simp: w' tasks_ok_def)
    hence "attached q w" "q \<in> sw_missed w" "conn_of q w' = conn_of q w" using q at by (auto simp: w' conn_of_def)
    thus "DropConn (conn_of q w') \<in> set (sw_reader w')" using st by (simp add: streams_ok_def w')
  qed
  moreover have "tasks_ok w'"
  proof -
    have m: "list_all (reader_task w') (sw_reader w)" "list_all (list_all (thread_task w')) (sw_threads w)"
      by (rule tasks_mono[of w]; use k at fresh in \<open>auto simp: tasks_ok_def w'\<close>)+
    have "length (filter (replay_of q) (concat (sw_threads w'))) \<le> 1" for q
      using k no(2) by (cases "q = r") (auto simp: w' tasks_ok_def split: option.split)
    moreover have "list_all (list_all (thread_task w')) (sw_threads w')"
      using m(2) old hist by (auto simp: w' split: option.split)
    ultimately show ?thesis using k m(1) by (simp add: tasks_ok_def w')
  qed
  moreover have "viewers_ok w'"
    using v dist v1 fresh
    by (auto simp: viewers_ok_def w' s set_alist_update distinct_update)
  moreover have "output_inv (sw_output w') (sw_session w')" using output_inv_cong[OF o] s by (simp add: w')
  ultimately show ?thesis by (simp add: stream_inv_def)
qed

lemma inv_attach:
  assumes inv: "stream_inv serial w" and fresh: "sw_heap w r = None"
  shows "stream_inv serial (do_attach r (new_viewer a b now c controller) after w)"
proof (cases "ts_status (sw_session w) = ''open''")
  case False
  thus ?thesis using inv_attach_closed[OF inv fresh] by (simp add: do_attach_def attach_viewer_def)
next
  case True
  let ?v = "bind_terminal (cancel_retention (sw_session w)) after (new_viewer a b now c controller)"
  let ?s = "(cancel_retention (sw_session w))\<lparr>ts_viewers := AList.update c r (ts_viewers (sw_session w))\<rparr>"
  have v: "vw_conn ?v = c" "\<not> vw_closed ?v" "vw_frames ?v = []" by (simp_all add: bind_terminal_def new_viewer_def)
  show ?thesis
    by (rule inv_attach_open[OF inv fresh v, of ?s _ after])
      (simp_all add: do_attach_def attach_viewer_def True Let_def cancel_retention_def v(1)[unfolded cancel_retention_def] history_after_def)
qed

lemma stream_step_inv:
  assumes "stream_step serial w w'" "stream_inv serial w"
  shows "stream_inv serial w'"
  using assms
proof (induction rule: stream_step.induct)
  case (reader w t ts w1 new)
  have ok: "reader_task w t" using reader by (simp add: stream_inv_def tasks_ok_def)
  show ?case
    using ok reader inv_send[OF reader(3)] inv_drop[OF reader(3)] inv_fail[OF reader(3)] by (cases t) simp_all
qed (simp_all add: inv_read inv_attach inv_detach inv_close inv_thread inv_take)

lemma stream_reach_inv: "stream_reach serial w \<Longrightarrow> stream_inv serial w"
proof (induction rule: stream_reach.induct)
  case (start rnd now ws agent target cwd shell)
  have "ts_viewers (new_terminal_session rnd now ws agent target cwd shell) = []" by (simp add: new_terminal_session_def)
  thus ?case
    using new_session_output[of rnd now ws agent target cwd shell]
    by (simp add: stream_inv_def initial_world_def viewers_ok_def tasks_ok_def streams_ok_def attached_def)
qed (rule stream_step_inv)

section \<open>Properties of the streams\<close>

text \<open>
  C24: Whatever runs at the same time: when the reader has sent its output, every attached viewer whose
  replay was not cut short has got, or is being replayed, the history it asked for and all output
  since, each frame once. A viewer that missed a frame is no longer attached.
\<close>

theorem viewer_stream_complete:
  assumes "stream_reach serial w" "attached r w" "sw_reader w = []" "r \<notin> sw_cut w"
  shows "mset (got w r) + mset (to_replay w r) = mset (owed w r) \<and> r \<notin> sw_missed w"
proof -
  have inv: "streams_ok serial w" using stream_reach_inv[OF assms(1)] by (simp add: stream_inv_def)
  have "r \<notin> sw_missed w" using inv assms(2,3) by (auto simp: streams_ok_def)
  thus ?thesis using inv assms(2-4) by (auto simp: streams_ok_def sound_stream_def)
qed

text \<open>
  If no output is appended between an attachment and the end of its replay, a viewer that missed
  nothing gets its frames in order: what it got, then the rest of the replay, then what is being sent.
\<close>

theorem viewer_stream_ordered:
  assumes "stream_reach True w" "attached r w" "r \<notin> sw_missed w" "r \<notin> sw_cut w"
  shows "owed w r = got w r @ to_replay w r @ sends r (sw_reader w)"
  using stream_reach_inv[OF assms(1)] assms(2-4) by (auto simp: stream_inv_def streams_ok_def sound_stream_def)

section \<open>Two races\<close>

definition reader_turn :: "stream_world \<Rightarrow> stream_world" where
  "reader_turn w = (case sw_reader w of
      [] \<Rightarrow> w | t # ts \<Rightarrow> (case exec_task t w of (w1, new) \<Rightarrow> w1\<lparr>sw_reader := new @ ts\<rparr>))"

definition thread_turn :: "nat \<Rightarrow> stream_world \<Rightarrow> stream_world" where
  "thread_turn i w = (if i < length (sw_threads w) then (case sw_threads w ! i of
      [] \<Rightarrow> w | t # ts \<Rightarrow> (case exec_task t w of (w1, new) \<Rightarrow> w1\<lparr>sw_threads := (sw_threads w)[i := new @ ts]\<rparr>)) else w)"

lemma reader_turn_reach: "stream_reach serial w \<Longrightarrow> stream_reach serial (reader_turn w)"
proof (cases "sw_reader w")
  case (Cons t ts)
  assume r: "stream_reach serial w"
  obtain w1 new where e: "exec_task t w = (w1, new)" by fastforce
  show ?thesis using stream_reach.step[OF r stream_step.reader[OF Cons e]] Cons e by (simp add: reader_turn_def)
qed (simp add: reader_turn_def)

lemma thread_turn_reach: "stream_reach serial w \<Longrightarrow> stream_reach serial (thread_turn i w)"
proof (cases "i < length (sw_threads w) \<and> sw_threads w ! i \<noteq> []")
  case True
  assume r: "stream_reach serial w"
  then obtain t ts where t: "sw_threads w ! i = t # ts" using True by (meson neq_Nil_conv)
  obtain w1 new where e: "exec_task t w = (w1, new)" by fastforce
  have "sw_threads w = take i (sw_threads w) @ (t # ts) # drop (Suc i) (sw_threads w)"
    using True t id_take_nth_drop[of i "sw_threads w"] by simp
  from stream_reach.step[OF r stream_step.thread[OF this e]]
  show ?thesis using True t e by (simp add: thread_turn_def upd_conv_take_nth_drop)
qed (auto simp: thread_turn_def)

definition demo_terminal :: stream_world where
  "demo_terminal = initial_world (new_terminal_session ''t'' 0 ''w'' ''codex'' ''local'' [] ''sh'')"

definition demo_viewer :: tviewer where
  "demo_viewer = new_viewer ''a'' ''b'' 0 ''c'' ''d''"

lemma demo_terminal_reach: "stream_reach serial demo_terminal"
  unfolding demo_terminal_def by (rule stream_reach.start)

lemma demo_read: "stream_reach serial w \<Longrightarrow> sw_reader w = [] \<Longrightarrow> \<not> serial \<or> \<not> list_ex replaying (sw_threads w) \<Longrightarrow>
    mset rs = mset (map snd (ts_viewers (sw_session w))) \<Longrightarrow> stream_reach serial (do_read 0 d rs w)"
  using stream_reach.step[OF _ stream_step.read] by blast

lemma demo_attach: "stream_reach serial w \<Longrightarrow> sw_heap w r = None \<Longrightarrow> stream_reach serial (do_attach r demo_viewer 0 w)"
  unfolding demo_viewer_def using stream_reach.step[OF _ stream_step.attach] by blast

lemmas run_terminal = demo_terminal_def initial_world_def new_terminal_session_def demo_viewer_def new_viewer_def do_attach_def
  attach_viewer_def cancel_retention_def bind_terminal_def attach_result_of_def history_after_def do_read_def append_output_def
  output_chunks_def session_frame_def remember_output_def reader_turn_def thread_turn_def send_frame_def enqueue_frame_def
  note_frame_def stamped_def can_input_def detach_viewer_def shut_viewer_def close_viewer_def conn_of_def
  output_frame_max_def history_max_frames_def history_max_bytes_def viewer_buffer_def Let_def

lemmas read_terminal = attached_def got_def plain_def to_replay_def owed_def history_fits_def

definition race1 :: stream_world where "race1 = do_attach 0 demo_viewer 0 (do_read 0 ''A'' [] demo_terminal)"
definition race2 :: stream_world where "race2 = thread_turn 0 (reader_turn (do_read 0 ''B'' [0] race1))"

lemmas eval_race = race2_def race1_def run_terminal read_terminal

lemma race2_reach: "stream_reach False race2"
proof -
  have "stream_reach False (do_read 0 ''A'' [] demo_terminal)"
    by (rule demo_read[OF demo_terminal_reach]) (simp_all add: run_terminal)
  moreover have "sw_heap (do_read 0 ''A'' [] demo_terminal) 0 = None" by (simp add: run_terminal)
  ultimately have r1: "stream_reach False race1" unfolding race1_def by (rule demo_attach)
  have "sw_reader race1 = []" "map snd (ts_viewers (sw_session race1)) = [0]"
    by (simp_all add: race1_def run_terminal)
  hence "stream_reach False (do_read 0 ''B'' [0] race1)" using r1 by (intro demo_read) simp_all
  thus ?thesis unfolding race2_def by (intro thread_turn_reach reader_turn_reach)
qed

text \<open>
  Output appended between the attachment of a viewer and the replay of the history to it reaches the
  viewer first: frame 2 stands before frame 1, and nothing is left to send.
\<close>

theorem attach_race_reorders:
  "\<exists>w. stream_reach False w \<and> attached 0 w \<and> sw_reader w = [] \<and> to_replay w 0 = [] \<and> 0 \<notin> sw_cut w \<and>
     map tf_seq (got w 0) = [2, 1] \<and> map tf_data (got w 0) = [''B'', ''A'']"
proof (intro exI conjI)
  show "stream_reach False race2" by (rule race2_reach)
  show "attached 0 race2" by (simp add: eval_race)
  show "sw_reader race2 = []" by (simp add: eval_race)
  show "to_replay race2 0 = []" by (simp add: eval_race)
  show "0 \<notin> sw_cut race2" by (simp add: eval_race)
  show "map tf_seq (got race2 0) = [2, 1]" by (simp add: eval_race)
  show "map tf_data (got race2 0) = [''B'', ''A'']" by (simp add: eval_race)
qed

definition again1 :: stream_world where "again1 = do_read 0 ''A'' [0] (do_attach 0 demo_viewer 0 demo_terminal)"
definition again2 :: stream_world where "again2 = thread_turn 1 (do_attach 1 demo_viewer 0 again1)"
definition again3 :: stream_world where "again3 = reader_turn (reader_turn (reader_turn again2))"

lemmas eval_again = again3_def again2_def again1_def run_terminal read_terminal

lemma again3_reach: "stream_reach True again3"
proof -
  let ?w = "do_attach 0 demo_viewer 0 demo_terminal"
  have r: "stream_reach True ?w" by (rule demo_attach[OF demo_terminal_reach]) (simp add: run_terminal)
  have "sw_reader ?w = []" "\<not> list_ex replaying (sw_threads ?w)" "map snd (ts_viewers (sw_session ?w)) = [0]"
    by (simp_all add: run_terminal)
  hence "stream_reach True again1" unfolding again1_def using r by (intro demo_read) simp_all
  hence "stream_reach True (do_attach 1 demo_viewer 0 again1)" by (rule demo_attach) (simp add: again1_def run_terminal)
  thus ?thesis unfolding again3_def again2_def by (intro reader_turn_reach thread_turn_reach)
qed

text \<open>
  A client that attaches again on the same connection while output is being sent loses its new viewer
  and the connection: the send to the replaced viewer fails and the reader detaches by connection.
  The new viewer missed nothing and no channel was full.
\<close>

theorem reattach_drops_new_viewer:
  "\<exists>w v. stream_reach True w \<and> ts_status (sw_session w) = ''open'' \<and> sw_terminated w = [''c''] \<and> \<not> attached 1 w \<and>
     sw_heap w 1 = Some v \<and> vw_closed v \<and> length (vw_frames v) < viewer_buffer \<and> 1 \<notin> sw_missed w \<and> 1 \<notin> sw_cut w"
proof -
  obtain v where v: "sw_heap again3 1 = Some v" "vw_closed v" "length (vw_frames v) < viewer_buffer"
  proof -
    have "case sw_heap again3 1 of None \<Rightarrow> False | Some v \<Rightarrow> vw_closed v \<and> length (vw_frames v) < viewer_buffer"
      by (simp add: eval_again)
    thus thesis using that by (auto split: option.splits)
  qed
  moreover have "ts_status (sw_session again3) = ''open''" "sw_terminated again3 = [''c'']" "\<not> attached 1 again3"
    "1 \<notin> sw_missed again3" "1 \<notin> sw_cut again3" by (simp_all add: eval_again)
  ultimately show ?thesis using again3_reach by blast
qed

theorem viewer_stream_complete_witness:
  "mset (got race2 0) + mset (to_replay race2 0) = mset (owed race2 0) \<and> 0 \<notin> sw_missed race2"
proof -
  have "attached 0 race2" "sw_reader race2 = []" "0 \<notin> sw_cut race2" by (simp_all add: eval_race)
  thus ?thesis by (rule viewer_stream_complete[OF race2_reach])
qed

theorem viewer_stream_ordered_witness:
  "owed again1 0 = got again1 0 @ to_replay again1 0 @ sends 0 (sw_reader again1) \<and> map tf_data (owed again1 0) = [''A'']"
proof -
  let ?w = "do_attach 0 demo_viewer 0 demo_terminal"
  have r: "stream_reach True ?w" by (rule demo_attach[OF demo_terminal_reach]) (simp add: run_terminal)
  have "sw_reader ?w = []" "\<not> list_ex replaying (sw_threads ?w)" "map snd (ts_viewers (sw_session ?w)) = [0]"
    by (simp_all add: run_terminal)
  hence a: "stream_reach True again1" unfolding again1_def using r by (intro demo_read) simp_all
  have "attached 0 again1" "0 \<notin> sw_missed again1" "0 \<notin> sw_cut again1" by (simp_all add: eval_again)
  from viewer_stream_ordered[OF a this] have "owed again1 0 = got again1 0 @ to_replay again1 0 @ sends 0 (sw_reader again1)" .
  moreover have "map tf_data (owed again1 0) = [''A'']" by (simp add: eval_again)
  ultimately show ?thesis by simp
qed

end
