(* ===== verification/WorkspaceEdits.thy ===== *)
theory WorkspaceEdits
  imports Attachments "HOL-Library.Word" "HOL-Library.Multiset"
begin

text \<open>
  The parts of \<open>daemon/internal/core/workspace/control.go\<close> that do not touch files: text edits, the
  limits of reads and writes, directory listings, and the policy, time limit and output buffers of
  commands.
\<close>

section \<open>Limits\<close>

definition file_default_max :: int where "file_default_max = 10 * 1024 * 1024"
definition file_hard_max :: int where "file_hard_max = 25 * 1024 * 1024"
definition file_write_max :: int where "file_write_max = file_hard_max"
definition exec_output_max :: int where "exec_output_max = 1024 * 1024"

definition read_max_bytes :: "int \<Rightarrow> int" where
  "read_max_bytes requested =
     (if requested \<le> 0 then file_default_max else if requested > file_hard_max then file_hard_max else requested)"

definition file_too_large :: "string \<Rightarrow> go_error" where
  "file_too_large what = ActionError 413 ''workspace_file_too_large'' (''workspace file is too large for '' @ what)"

text \<open>\<open>workspaceWriteBody\<close> of the parameters \<open>content_base64\<close> and \<open>content\<close>.\<close>

definition write_body :: "string \<Rightarrow> string \<Rightarrow> go_error + string" where
  "write_body content64 content =
     (let large = file_too_large ''workspace.files.write'' in
      if content64 \<noteq> []
      then (let encoded = trim_space content64 in
        if int (length encoded) > encoded_len file_write_max then Inl large
        else (case std_decode encoded of
            None \<Rightarrow> Inl (ActionError 400 ''workspace_file_content_invalid'' ''content_base64 is invalid'')
          | Some body \<Rightarrow> if int (length body) > file_write_max then Inl large else Inr body))
      else if int (length content) > file_write_max then Inl large
      else Inr content)"

section \<open>Text edits\<close>

text \<open>\<open>strings.Count\<close>, \<open>strings.ReplaceAll\<close> and \<open>strings.Replace\<close> with one replacement, for a nonempty old string.\<close>

function count_sub :: "string \<Rightarrow> string \<Rightarrow> nat" where
  "count_sub old s =
     (if s = [] \<or> old = [] then 0
      else if has_prefix s old then 1 + count_sub old (drop (length old) s)
      else count_sub old (tl s))"
  by pat_completeness auto
termination by (relation "measure (\<lambda>(old, s). length s)") auto

function replace_all :: "string \<Rightarrow> string \<Rightarrow> string \<Rightarrow> string" where
  "replace_all old new s =
     (if s = [] \<or> old = [] then s
      else if has_prefix s old then new @ replace_all old new (drop (length old) s)
      else hd s # replace_all old new (tl s))"
  by pat_completeness auto
termination by (relation "measure (\<lambda>(old, new, s). length s)") auto

declare count_sub.simps [simp del] replace_all.simps [simp del]

fun replace_first :: "string \<Rightarrow> string \<Rightarrow> string \<Rightarrow> string" where
  "replace_first old new [] = []"
| "replace_first old new (c # cs) =
     (if has_prefix (c # cs) old then new @ drop (length old) (c # cs) else c # replace_first old new cs)"

record text_edit =
  te_old :: string
  te_new :: string
  te_all :: bool

definition contains_nul :: "string \<Rightarrow> bool" where
  "contains_nul s \<longleftrightarrow> CHR 0x00 \<in> set s"

definition edit_too_large :: "string \<Rightarrow> go_error" where
  "edit_too_large what = ActionError 413 ''workspace_file_too_large'' (''workspace.files.apply_patch '' @ what @ '' is too large'')"

text \<open>One edit of the text, after its payload was counted.\<close>

definition apply_edit :: "text_edit \<Rightarrow> string \<Rightarrow> go_error + string \<times> nat" where
  "apply_edit e text =
     (let count = count_sub (te_old e) text in
      if count = 0 then Inl (ActionError 409 ''workspace_patch_old_string_not_found'' ''old_string not found'')
      else if \<not> te_all e \<and> count \<noteq> 1
        then Inl (ActionError 409 ''workspace_patch_old_string_ambiguous'' ''old_string is not unique'')
      else (let replacements = (if te_all e then count else 1);
                next_size = int (length text) + int replacements * (int (length (te_new e)) - int (length (te_old e)));
                next = (if te_all e then replace_all (te_old e) (te_new e) text
                        else replace_first (te_old e) (te_new e) text) in
        if next_size > file_write_max then Inl (edit_too_large ''result'')
        else if contains_nul next
          then Inl (ActionError 400 ''workspace_patch_binary_result'' ''workspace.files.apply_patch produced binary content'')
        else if int (length next) > file_write_max then Inl (edit_too_large ''result'')
        else Inr (next, replacements)))"

fun edit_loop :: "text_edit list \<Rightarrow> string \<Rightarrow> int \<Rightarrow> nat \<Rightarrow> go_error + string \<times> nat" where
  "edit_loop [] text payload applied = Inr (text, applied)"
| "edit_loop (e # es) text payload applied =
     (if te_old e = [] then Inl (ActionError 400 ''workspace_patch_old_string_required'' ''edits[].old_string required'')
      else (let payload1 = payload + int (length (te_old e)) + int (length (te_new e)) in
        if payload1 > file_write_max then Inl (edit_too_large ''payload'')
        else (case apply_edit e text of
            Inl err \<Rightarrow> Inl err
          | Inr (next, n) \<Rightarrow> edit_loop es next payload1 (applied + n))))"

definition apply_text_edits :: "string \<Rightarrow> text_edit list \<Rightarrow> go_error + string \<times> nat" where
  "apply_text_edits content edits =
     (if contains_nul content
        then Inl (ActionError 400 ''workspace_patch_binary_file'' ''workspace.files.apply_patch only supports text files'')
      else edit_loop edits content 0 0)"

text \<open>\<open>simpleStructuredPatch\<close>: the old and new lines with their marks.\<close>

definition content_lines :: "string \<Rightarrow> string list" where
  "content_lines s = (if s = [] then [] else split_on (CHR 0x0A) (rev (dropWhile (\<lambda>c. c = CHR 0x0A) (rev s))))"

definition structured_patch :: "string \<Rightarrow> string \<Rightarrow> (string \<times> go_any) list" where
  "structured_patch old new =
     [(''oldStart'', AnyNumber 1), (''oldLines'', AnyNumber (int (length (content_lines old)))),
      (''newStart'', AnyNumber 1), (''newLines'', AnyNumber (int (length (content_lines new)))),
      (''lines'', AnyList (map (\<lambda>l. AnyString (CHR ''-'' # l)) (content_lines old) @
                         map (\<lambda>l. AnyString (CHR ''+'' # l)) (content_lines new)))]"

section \<open>Listings\<close>

record ws_entry =
  en_name :: string
  en_path :: string
  en_kind :: string
  en_size :: int
  en_mod :: string

definition entry_limit :: nat where "entry_limit = 300"

text \<open>
  A stable sort by kind, directories first, then by the name in lower case; \<open>lower\<close> is
  \<open>strings.ToLower\<close>.
\<close>

definition sort_entries :: "(string \<Rightarrow> string) \<Rightarrow> ws_entry list \<Rightarrow> ws_entry list" where
  "sort_entries lower es =
     (let s = sort_key (\<lambda>e. lower (en_name e)) es in
      filter (\<lambda>e. en_kind e = ''dir'') s @ filter (\<lambda>e. en_kind e \<noteq> ''dir'') s)"

definition limit_entries :: "(string \<Rightarrow> string) \<Rightarrow> ws_entry list \<Rightarrow> ws_entry list \<times> bool" where
  "limit_entries lower es =
     (let s = sort_entries lower es in if length s > entry_limit then (take entry_limit s, True) else (s, False))"

section \<open>Commands\<close>

definition enforce_exec_policy :: "string \<Rightarrow> string \<Rightarrow> string \<Rightarrow> go_error option" where
  "enforce_exec_policy policy command cwd0 =
     (let cwd = (if blank cwd0 then ''.'' else trim_space cwd0);
          msg = (\<lambda>prefix. prefix @ '': '' @ command @ '' (cwd '' @ cwd @ '')'') in
      if policy = ''trusted'' then None
      else if policy = ''require_approval''
        then Some (ActionError 409 ''workspace_exec_approval_required'' (msg ''workspace.exec requires Host approval before executing''))
      else if policy = ''disabled''
        then Some (ActionError 403 ''workspace_exec_disabled'' (msg ''workspace.exec is disabled by Host policy''))
      else Some (ActionError 400 ''workspace_exec_policy_invalid'' ''invalid workspace_exec_policy''))"

text \<open>Durations are nanoseconds in 64 bits; the product with a millisecond wraps.\<close>

definition exec_max_timeout :: "64 word" where "exec_max_timeout = 120 * 1000000000"
definition exec_default_timeout :: "64 word" where "exec_default_timeout = 60 * 1000000000"

definition exec_timeout :: "64 word \<Rightarrow> 64 word" where
  "exec_timeout ms =
     (if ms \<le>s 0 then exec_default_timeout
      else (let t = ms * 1000000 in if exec_max_timeout <s t then exec_max_timeout else t))"

record exec_buffer =
  xb_bytes :: string
  xb_limit :: int
  xb_truncated :: bool

definition buffer_write :: "string \<Rightarrow> exec_buffer \<Rightarrow> exec_buffer" where
  "buffer_write chunk b =
     (if xb_limit b \<le> 0 then b
      else (let remaining = xb_limit b - int (length (xb_bytes b)) in
        if remaining \<le> 0 then (if chunk \<noteq> [] then b\<lparr>xb_truncated := True\<rparr> else b)
        else if int (length chunk) > remaining
          then b\<lparr>xb_bytes := xb_bytes b @ take (nat remaining) chunk, xb_truncated := True\<rparr>
        else b\<lparr>xb_bytes := xb_bytes b @ chunk\<rparr>))"

definition truncate_output :: "string \<Rightarrow> string \<times> bool" where
  "truncate_output s =
     (if int (length s) \<le> exec_output_max then (s, False) else (take (nat exec_output_max) s, True))"

definition stream_chunk_size :: "int \<Rightarrow> int" where
  "stream_chunk_size requested =
     (if requested \<le> 0 then 64 * 1024 else if requested > 256 * 1024 then 256 * 1024 else requested)"

definition stream_read_size :: "int \<Rightarrow> int \<Rightarrow> int" where
  "stream_read_size chunk remaining =
     (if remaining \<le> 0 then 0 else if chunk \<le> 0 \<or> chunk > remaining then remaining else chunk)"

section \<open>Edits replace what they name\<close>

lemma has_prefix_append: "has_prefix s p \<longleftrightarrow> (\<exists>r. s = p @ r)"
  by (auto simp: has_prefix_def) (metis append_take_drop_id)

text \<open>
  The text between the occurrences that \<open>strings.Count\<close> and \<open>strings.ReplaceAll\<close> see, from the left.
\<close>

function between :: "string \<Rightarrow> string \<Rightarrow> string list" where
  "between old s =
     (if s = [] \<or> old = [] then [s]
      else if has_prefix s old then [] # between old (drop (length old) s)
      else (case between old (tl s) of [] \<Rightarrow> [[hd s]] | p # ps \<Rightarrow> (hd s # p) # ps))"
  by pat_completeness auto
termination by (relation "measure (\<lambda>(old, s). length s)") auto

declare between.simps [simp del]

lemma between_nonempty: "between old s \<noteq> []"
  by (subst between.simps) (simp split: list.split)

lemma join_cons: "join_with x ((c # p) # ps) = c # join_with x (p # ps)"
  by (cases ps) simp_all

lemma between_join: "old \<noteq> [] \<Longrightarrow> join_with old (between old s) = s"
proof (induction old s rule: between.induct)
  case (1 old s)
  show ?case
  proof (cases "s = []")
    case False
    show ?thesis
    proof (cases "has_prefix s old")
      case True
      then obtain r where r: "s = old @ r" using has_prefix_append by blast
      have "between old s = [] # between old r" using False True 1(3) r by (subst between.simps) simp
      moreover have "join_with old (between old r) = r" using 1(1) False True 1(3) r by simp
      ultimately show ?thesis using r between_nonempty[of old r] by (cases "between old r") simp_all
    next
      case np: False
      obtain p ps where p: "between old (tl s) = p # ps" using between_nonempty by (meson neq_Nil_conv)
      have "between old s = (hd s # p) # ps" using False np 1(3) p by (subst between.simps) simp
      moreover have "join_with old (p # ps) = tl s" using 1(2) False np 1(3) p by simp
      ultimately show ?thesis using False by (simp add: join_cons)
    qed
  qed (simp add: between.simps)
qed

lemma between_count: "old \<noteq> [] \<Longrightarrow> length (between old s) = count_sub old s + 1"
proof (induction old s rule: between.induct)
  case (1 old s)
  obtain p ps where p: "between old (tl s) = p # ps" using between_nonempty by (meson neq_Nil_conv)
  show ?case using 1 p by (subst between.simps, subst count_sub.simps) (auto split: list.splits)
qed

lemma between_replace: "old \<noteq> [] \<Longrightarrow> join_with new (between old s) = replace_all old new s"
proof (induction old s rule: between.induct)
  case (1 old s)
  show ?case
  proof (cases "s = [] \<or> \<not> has_prefix s old")
    case True
    obtain p ps where p: "between old (tl s) = p # ps" using between_nonempty by (meson neq_Nil_conv)
    show ?thesis using 1 True p by (subst between.simps, subst replace_all.simps) (auto simp: join_cons)
  next
    case False
    obtain q qs where q: "between old (drop (length old) s) = q # qs" using between_nonempty by (meson neq_Nil_conv)
    show ?thesis using 1 False q by (subst between.simps, subst replace_all.simps) auto
  qed
qed

lemma between_free: "old \<noteq> [] \<Longrightarrow> list_all (\<lambda>p. \<not> sublist old p) (between old s)"
proof (induction old s rule: between.induct)
  case (1 old s)
  show ?case
  proof (cases "s = [] \<or> has_prefix s old")
    case True
    thus ?thesis using 1 by (subst between.simps) auto
  next
    case False
    obtain p ps where p: "between old (tl s) = p # ps" using between_nonempty by (meson neq_Nil_conv)
    have b: "between old s = (hd s # p) # ps" using False 1(3) p by (subst between.simps) simp
    have ih: "\<not> sublist old p" "list_all (\<lambda>p. \<not> sublist old p) ps" using 1(2) False 1(3) p by simp_all
    have "\<not> sublist old (hd s # p)"
    proof
      assume "sublist old (hd s # p)"
      hence "prefix old (hd s # p)" using ih(1) by (simp add: sublist_Cons_right)
      then obtain r where r: "hd s # p = old @ r" by (auto simp: prefix_def)
      have j: "s = join_with old ((hd s # p) # ps)" using between_join[OF 1(3), of s] b by simp
      obtain r2 where r2: "join_with old ((hd s # p) # ps) = (hd s # p) @ r2" by (cases ps) simp_all
      have "s = old @ (r @ r2)" by (metis j r r2 append.assoc)
      hence "has_prefix s old" using has_prefix_append by blast
      thus False using False by simp
    qed
    thus ?thesis using b ih by simp
  qed
qed

lemma replace_first_once: "old \<noteq> [] \<Longrightarrow> count_sub old s = 1 \<Longrightarrow> replace_first old new s = replace_all old new s"
proof (induction old s rule: count_sub.induct)
  case (1 old s)
  have z: "count_sub old r = 0 \<Longrightarrow> replace_all old new r = r" for r
    using between_count[OF 1(3), of r] between_join[OF 1(3), of r] between_replace[OF 1(3), of new r]
    by (cases "between old r") auto
  have ne: "s \<noteq> []" using 1(4) by (subst (asm) count_sub.simps) (auto split: if_splits)
  then obtain c cs where s: "s = c # cs" by (cases s) auto
  show ?case
  proof (cases "has_prefix s old")
    case True
    hence "count_sub old (drop (length old) s) = 0" using 1(3,4) ne by (subst (asm) count_sub.simps) simp
    thus ?thesis using True s 1(3) z by (subst replace_all.simps) simp
  next
    case False
    hence "count_sub old (tl s) = 1" using 1(3,4) ne by (subst (asm) count_sub.simps) simp
    thus ?thesis using False s 1(2,3) by (subst replace_all.simps) simp
  qed
qed

text \<open>
  C31: An edit that is accepted cuts the text at the occurrences of the old string, as many as it reports,
  keeps everything between them, which has no further occurrence, and puts the new string there.
\<close>

theorem edit_replaces_occurrences:
  assumes "te_old e \<noteq> []" "apply_edit e text = Inr (next, n)"
  shows "\<exists>parts. length parts = n + 1 \<and> text = join_with (te_old e) parts \<and> next = join_with (te_new e) parts \<and>
    list_all (\<lambda>p. \<not> sublist (te_old e) p) parts \<and> n \<ge> 1 \<and> (te_all e \<or> n = 1)"
proof -
  let ?parts = "between (te_old e) text"
  have n: "n = count_sub (te_old e) text" "n \<ge> 1" "te_all e \<or> n = 1"
    and nx: "next = (if te_all e then replace_all (te_old e) (te_new e) text else replace_first (te_old e) (te_new e) text)"
    using assms(2) by (auto simp: apply_edit_def Let_def split: if_splits)
  have "next = replace_all (te_old e) (te_new e) text" using nx n replace_first_once[OF assms(1)] by auto
  thus ?thesis
    using between_join[OF assms(1)] between_replace[OF assms(1)] between_count[OF assms(1)] between_free[OF assms(1)] n
    by (intro exI[of _ ?parts]) simp
qed

lemma replace_all_length:
  "old \<noteq> [] \<Longrightarrow> int (length (replace_all old new s)) = int (length s) + int (count_sub old s) * (int (length new) - int (length old))"
proof (induction old new s rule: replace_all.induct)
  case (1 old new s)
  show ?case
  proof (cases "s = []")
    case True
    thus ?thesis by (simp add: replace_all.simps count_sub.simps)
  next
    case False
    show ?thesis
    proof (cases "has_prefix s old")
      case True
      then obtain r where r: "s = old @ r" using has_prefix_append by blast
      have "int (length (replace_all old new r)) = int (length r) + int (count_sub old r) * (int (length new) - int (length old))"
        using 1(1) False True 1(3) r by simp
      thus ?thesis using False True 1(3) r by (subst replace_all.simps, subst count_sub.simps) (simp add: algebra_simps)
    next
      case np: False
      have "int (length (replace_all old new (tl s))) = int (length (tl s)) + int (count_sub old (tl s)) * (int (length new) - int (length old))"
        using 1(2) False np 1(3) by simp
      thus ?thesis using False np 1(3) by (subst replace_all.simps, subst count_sub.simps) (cases s; simp)
    qed
  qed
qed

lemma contains_nul_simp: "contains_nul s = (CHR 0x00 \<in> set s)"
  by (simp add: contains_nul_def)

lemma apply_edit_size:
  assumes "te_old e \<noteq> []" "apply_edit e text = Inr (next, n)"
  shows "int (length next) = int (length text) + int n * (int (length (te_new e)) - int (length (te_old e))) \<and>
    int (length next) \<le> file_write_max \<and> \<not> contains_nul next \<and> n \<ge> 1"
proof -
  have n: "n = count_sub (te_old e) text" "te_all e \<or> n = 1" "n \<ge> 1"
    and nx: "next = (if te_all e then replace_all (te_old e) (te_new e) text else replace_first (te_old e) (te_new e) text)"
    and ok: "int (length next) \<le> file_write_max" "\<not> contains_nul next"
    using assms(2) by (auto simp: apply_edit_def Let_def split: if_splits)
  have "next = replace_all (te_old e) (te_new e) text" using nx n replace_first_once[OF assms(1)] by auto
  thus ?thesis using replace_all_length[OF assms(1)] n ok by simp
qed

lemma edit_loop_ok:
  "edit_loop es s payload applied = Inr (next, n) \<Longrightarrow> int (length s) \<le> file_write_max \<or> es \<noteq> [] \<Longrightarrow> \<not> contains_nul s \<Longrightarrow>
    int (length next) \<le> file_write_max \<and> \<not> contains_nul next \<and> n \<ge> applied + length es"
proof (induction es s payload applied rule: edit_loop.induct)
  case (2 e es s payload applied)
  then obtain t k where k: "te_old e \<noteq> []" "apply_edit e s = Inr (t, k)"
      "edit_loop es t (payload + int (length (te_old e)) + int (length (te_new e))) (applied + k) = Inr (next, n)"
      "payload + int (length (te_old e)) + int (length (te_new e)) \<le> file_write_max"
    by (auto simp: Let_def split: if_splits sum.splits)
  have a: "int (length t) \<le> file_write_max" "\<not> contains_nul t" "k \<ge> 1" using apply_edit_size[OF k(1,2)] by simp_all
  have "int (length next) \<le> file_write_max \<and> \<not> contains_nul next \<and> n \<ge> (applied + k) + length es"
    by (rule "2.IH"[OF k(1) refl _ k(2) refl k(3)]) (use k a in auto)
  thus ?case using a by simp
qed simp

lemma edits_bounded:
  assumes "apply_text_edits content edits = Inr (next, n)" "edits \<noteq> []"
  shows "int (length next) \<le> 25 * 1024 * 1024 \<and> \<not> contains_nul next \<and> length edits \<le> n"
  using assms edit_loop_ok[of edits content 0 0 "next" n]
  by (auto simp: apply_text_edits_def file_write_max_def file_hard_max_def split: if_splits)

text \<open>
  A patch that is accepted makes at least one replacement for each edit, and its result is text of
  at most 25 MiB, however long the file was.
\<close>

theorem patch_bounded:
  assumes "apply_text_edits content edits = Inr (next, n)" "edits \<noteq> []"
  shows "int (length next) \<le> 25 * 1024 * 1024 \<and> \<not> contains_nul next \<and> length edits \<le> n"
  by (rule edits_bounded[OF assms])

text \<open>
  \<open>strings.Count\<close> counts occurrences that do not overlap: an old string that occurs at two places of
  the text is accepted as unique, and the first place is edited.
\<close>

theorem ambiguous_edit_accepted:
  "apply_text_edits ''ababa'' [\<lparr>te_old = ''aba'', te_new = ''x'', te_all = False\<rparr>] = Inr (''xba'', 1) \<and>
   ''ababa'' = [] @ ''aba'' @ ''ba'' \<and> ''ababa'' = ''ab'' @ ''aba'' @ []"
  by (simp add: apply_text_edits_def apply_edit_def contains_nul_def file_write_max_def file_hard_max_def
      count_sub.simps has_prefix_def Let_def)

section \<open>Listings, time limits and output\<close>

lemma sort_entries_mset: "mset (sort_entries lower es) = mset es"
proof -
  have "mset (sort_entries lower es) = filter_mset (\<lambda>e. en_kind e = ''dir'') (mset es) + filter_mset (\<lambda>e. en_kind e \<noteq> ''dir'') (mset es)"
    by (simp add: sort_entries_def Let_def)
  thus ?thesis by (simp add: multiset_partition[symmetric])
qed

text \<open>
  A listing is a permutation of the entries with the directories first and names in order, cut after
  300 entries, and says so exactly if it was cut.
\<close>

theorem listing_exact:
  assumes "limit_entries lower es = (out, truncated)"
  shows "\<exists>rest. mset (out @ rest) = mset es \<and> (truncated \<longleftrightarrow> length es > 300) \<and> length out = min 300 (length es) \<and>
    sorted_wrt (\<lambda>a b. (en_kind b = ''dir'' \<longrightarrow> en_kind a = ''dir'') \<and>
      (((en_kind a = ''dir'') = (en_kind b = ''dir'')) \<longrightarrow> lower (en_name a) \<le> lower (en_name b))) (out @ rest)"
proof -
  let ?s = "sort_entries lower es"
  have m: "mset ?s = mset es" by (rule sort_entries_mset)
  have l: "length ?s = length es" using m by (metis size_mset)
  let ?k = "\<lambda>e. lower (en_name e)"
  have so: "sorted_wrt (\<lambda>a b. ?k a \<le> ?k b) (sort_key ?k es)" using sorted_sort_key[of ?k es] by (simp only: sorted_map)
  have srt: "sorted_wrt (\<lambda>a b. (en_kind b = ''dir'' \<longrightarrow> en_kind a = ''dir'') \<and>
      (((en_kind a = ''dir'') = (en_kind b = ''dir'')) \<longrightarrow> ?k a \<le> ?k b)) ?s"
    unfolding sort_entries_def Let_def sorted_wrt_append
    using sorted_wrt_filter[OF so] by (auto intro: sorted_wrt_mono_rel[of _ "\<lambda>a b. ?k a \<le> ?k b"])
  have "out = take 300 ?s" "truncated \<longleftrightarrow> length ?s > 300"
    using assms by (auto simp: limit_entries_def entry_limit_def Let_def split: if_splits)
  thus ?thesis using m l srt by (intro exI[of _ "drop 300 ?s"]) simp
qed

lemma exec_timeout_sint:
  assumes "0 < sint ms" "sint ms * 1000000 < 2 ^ 63"
  shows "sint (exec_timeout ms) = min (sint ms * 1000000) (120 * 1000000000)"
proof -
  have "sint (ms * 1000000) = signed_take_bit 63 (sint ms * 1000000)"
    by (simp add: sint_word_ariths signed_take_bit_eq)
  hence t: "sint (ms * 1000000) = sint ms * 1000000" using assms by (simp add: signed_take_bit_int_eq_self)
  have x: "sint exec_max_timeout = 120 * 1000000000" by (simp add: exec_max_timeout_def)
  show ?thesis
    using assms t x by (auto simp: exec_timeout_def Let_def word_sle_eq word_sless_alt min_def)
qed

section \<open>Witnesses\<close>

definition demo_edit :: text_edit where
  "demo_edit = \<lparr>te_old = ''ab'', te_new = ''x'', te_all = True\<rparr>"

lemma demo_edited: "te_old demo_edit \<noteq> []" "apply_edit demo_edit ''abcab'' = Inr (''xcx'', 2)"
  by (simp_all add: demo_edit_def apply_edit_def contains_nul_def file_write_max_def file_hard_max_def
      count_sub.simps replace_all.simps has_prefix_def Let_def)

theorem edit_replaces_occurrences_witness:
  "\<exists>parts. length parts = 3 \<and> ''abcab'' = join_with ''ab'' parts \<and> ''xcx'' = join_with ''x'' parts"
  using edit_replaces_occurrences[OF demo_edited] by (auto simp: demo_edit_def)

theorem patch_bounded_witness:
  "apply_text_edits ''abcab'' [demo_edit] = Inr (''xcx'', 2) \<and> \<not> contains_nul ''xcx''"
proof -
  have e: "apply_text_edits ''abcab'' [demo_edit] = Inr (''xcx'', 2)"
    using demo_edited by (simp add: apply_text_edits_def contains_nul_def) (simp add: demo_edit_def file_write_max_def file_hard_max_def)
  show ?thesis using patch_bounded[OF e] e by simp
qed

end
