(* ===== verification/WorkspaceFiles.thy ===== *)
theory WorkspaceFiles
  imports WorkspaceEdits HostTrust
begin

text \<open>
  The workspace actions of a remote controller: \<open>daemon/internal/core/workspace/control.go\<close> and the
  workspace branches of \<open>daemon/control_gateway.go\<close>. The file system, the SSH manager and the shell
  are the outside world: every call to them is appended to a list of calls, and its answer is a
  function of the calls made so far, so that answers may change at any time, also between a check
  and the operation it guards. An operation is a program over that list.
\<close>

section \<open>Calls to the world\<close>

datatype os_call =
    OsStat string
  | OsLstat string
  | OsEval string
  | OsReadFile string
  | OsReadDir string
  | OsMkdirAll string
  | OsWriteFile string string
  | OsRemove string
  | OsRemoveAll string
  | OsRename string string
  | OsShell string string "64 word"
  | SshCall string "(string \<times> go_any) list"
  | SshExec string string int

text \<open>An error of the \<open>os\<close> package, and whether \<open>os.IsNotExist\<close> holds of it.\<close>

record os_error =
  oe_message :: string
  oe_absent :: bool

record file_info =
  fi_dir :: bool
  fi_size :: int
  fi_time :: string

text \<open>
  What a shell command did: the chunks it wrote to its outputs, its exit code if \<open>Run\<close> failed
  (\<open>Some None\<close> if the error is no \<open>ExitError\<close>), whether the deadline had passed, and its duration.
\<close>

record shell_run =
  xr_stdout :: "string list"
  xr_stderr :: "string list"
  xr_failed :: "int option option"
  xr_deadline :: bool
  xr_duration :: int

type_synonym 'r answer = "os_call list \<Rightarrow> 'r"

text \<open>
  \<open>we_mime\<close> is \<open>mime.TypeByExtension\<close> of the lower-case extension of a path, \<open>we_detect\<close> is
  \<open>http.DetectContentType\<close>, \<open>we_lower\<close> is \<open>strings.ToLower\<close>, \<open>we_random\<close> is what \<open>randomID(16)\<close> returns. An
  entry of a directory has its name, \<open>IsDir\<close> and the result of \<open>Info\<close>.
\<close>

record ws_env =
  we_workspace :: "string \<Rightarrow> agent_workspace option"
  we_has_ssh :: bool
  we_has_exec :: bool
  we_stat :: "(string \<Rightarrow> os_error + file_info) answer"
  we_lstat :: "(string \<Rightarrow> os_error + file_info) answer"
  we_eval :: "(string \<Rightarrow> string + string) answer"
  we_read_file :: "(string \<Rightarrow> string + string) answer"
  we_read_dir :: "(string \<Rightarrow> string + (string \<times> bool \<times> file_info option) list) answer"
  we_effect :: "(os_call \<Rightarrow> string option) answer"
  we_shell :: "(os_call \<Rightarrow> shell_run) answer"
  we_ssh :: "(os_call \<Rightarrow> string + go_any) answer"
  we_mime :: "string \<Rightarrow> string"
  we_detect :: "string \<Rightarrow> string"
  we_lower :: "string \<Rightarrow> string"
  we_random :: string

section \<open>Programs\<close>

type_synonym 'a prog = "os_call list \<Rightarrow> (go_error + 'a) \<times> os_call list"

definition give :: "'a \<Rightarrow> 'a prog" where
  "give x calls = (Inr x, calls)"

definition refuse :: "go_error \<Rightarrow> 'a prog" where
  "refuse e calls = (Inl e, calls)"

definition chain :: "'a prog \<Rightarrow> ('a \<Rightarrow> 'b prog) \<Rightarrow> 'b prog" where
  "chain p f calls = (case p calls of (Inl e, calls1) \<Rightarrow> (Inl e, calls1) | (Inr x, calls1) \<Rightarrow> f x calls1)"

definition ask :: "'r answer \<Rightarrow> os_call \<Rightarrow> 'r prog" where
  "ask answer call calls = (Inr (answer calls), calls @ [call])"

definition sys_stat :: "ws_env \<Rightarrow> string \<Rightarrow> (os_error + file_info) prog" where
  "sys_stat E p = ask (\<lambda>c. we_stat E c p) (OsStat p)"

definition sys_lstat :: "ws_env \<Rightarrow> string \<Rightarrow> (os_error + file_info) prog" where
  "sys_lstat E p = ask (\<lambda>c. we_lstat E c p) (OsLstat p)"

definition sys_eval :: "ws_env \<Rightarrow> string \<Rightarrow> (string + string) prog" where
  "sys_eval E p = ask (\<lambda>c. we_eval E c p) (OsEval p)"

text \<open>A call for its effect; a failure becomes an error with the given code.\<close>

definition sys_effect :: "ws_env \<Rightarrow> string \<Rightarrow> os_call \<Rightarrow> unit prog" where
  "sys_effect E code call =
     chain (ask (\<lambda>c. we_effect E c call) call)
       (\<lambda>r. case r of None \<Rightarrow> give () | Some e \<Rightarrow> refuse (ActionError 400 code e))"

text \<open>\<open>s.ssh.Call\<close> with its method and parameters.\<close>

definition ssh_call :: "ws_env \<Rightarrow> nat \<Rightarrow> string \<Rightarrow> string \<Rightarrow> (string \<times> go_any) list \<Rightarrow> go_any prog" where
  "ssh_call E status code method params =
     chain (ask (\<lambda>c. we_ssh E c (SshCall method params)) (SshCall method params))
       (\<lambda>r. case r of Inl e \<Rightarrow> refuse (ActionError status code e) | Inr v \<Rightarrow> give v)"

definition bad :: "string \<Rightarrow> string \<Rightarrow> go_error" where
  "bad code msg = ActionError 400 code msg"

definition bad_path :: "string \<Rightarrow> go_error" where
  "bad_path msg = bad ''workspace_path_invalid'' msg"

definition file_not_found :: go_error where
  "file_not_found = ActionError 404 ''workspace_file_not_found'' ''workspace file not found''"

definition of_sum :: "('e \<Rightarrow> go_error) \<Rightarrow> 'e + 'a \<Rightarrow> 'a prog" where
  "of_sum err r = (case r of Inl e \<Rightarrow> refuse (err e) | Inr x \<Rightarrow> give x)"

section \<open>Path checks\<close>

definition path_dir :: "string \<Rightarrow> string" where
  "path_dir s = path_clean (rev (dropWhile (\<lambda>c. c \<noteq> CHR ''/'') (rev s)))"

definition ensure_existing :: "ws_env \<Rightarrow> string \<Rightarrow> string \<Rightarrow> unit prog" where
  "ensure_existing E root target =
     chain (chain (sys_eval E root) (of_sum bad_path)) (\<lambda>real_root.
     chain (chain (sys_eval E target) (of_sum bad_path)) (\<lambda>real_target.
       if same_or_descendant (path_clean real_root) (path_clean real_target) then give ()
       else refuse (bad_path ''path escapes workspace through symlink'')))"

definition remote_same_or_descendant :: "string \<Rightarrow> string \<Rightarrow> bool" where
  "remote_same_or_descendant root target =
     (let rel = remote_rel root target in rel = ''.'' \<or> (rel \<noteq> ''..'' \<and> \<not> has_prefix rel ''../''))"

section \<open>The search for an existing ancestor ends\<close>

definition path_cost :: "string list \<Rightarrow> nat" where
  "path_cost cs = sum_list (map (\<lambda>c. length c + 1) cs)"

lemma clean_step_cost: "path_cost (clean_step rooted c acc) \<le> path_cost (c # acc)"
  by (auto simp: clean_step_def path_cost_def split: list.splits)

lemma fold_clean_cost: "path_cost (fold (clean_step rooted) cs acc) \<le> path_cost cs + path_cost acc"
proof (induction cs arbitrary: acc)
  case (Cons c cs)
  show ?case using Cons[of "clean_step rooted c acc"] clean_step_cost[of rooted c acc] by (simp add: path_cost_def)
qed (simp add: path_cost_def)

lemma clean_comps_cost: "path_cost (clean_comps rooted cs) \<le> path_cost cs"
  using fold_clean_cost[of rooted cs "[]"] by (simp add: clean_comps_def path_cost_def rev_map[symmetric])

lemma split_cost: "path_cost (split_on x s) = length s + 1"
  by (induction s) (auto simp: path_cost_def split: list.splits)

lemma join_cost: "cs \<noteq> [] \<Longrightarrow> length (join_with ''/'' cs) + 1 = path_cost cs"
  by (induction "''/''" cs rule: join_with.induct) (auto simp: path_cost_def)

lemma path_clean_length: "s \<noteq> [] \<Longrightarrow> length (path_clean s) \<le> length s"
proof (cases "is_abs s")
  case True
  then obtain t where s: "s = CHR ''/'' # t" by (cases s) (auto simp: is_abs_def)
  have "comps s = clean_comps True (split_on CHR ''/'' t)"
    using s by (simp add: comps_def is_abs_def clean_comps_def clean_step_def)
  hence "path_cost (comps s) \<le> length s" using clean_comps_cost[of True "split_on CHR ''/'' t"] s by (simp add: split_cost)
  thus ?thesis using True s join_cost[of "comps s"]
    by (cases "comps s = []") (auto simp: path_clean_def path_string_def)
next
  case False
  assume "s \<noteq> []"
  moreover have "path_cost (comps s) \<le> length s + 1"
    using clean_comps_cost[of "is_abs s" "split_on CHR ''/'' s"] by (simp add: comps_def split_cost)
  ultimately show ?thesis using False join_cost[of "comps s"]
    by (cases "comps s = []") (auto simp: path_clean_def path_string_def Suc_le_eq)
qed

lemma path_clean_slash: "q \<noteq> [] \<Longrightarrow> path_clean (q @ ''/'') = path_clean q"
proof -
  assume q: "q \<noteq> []"
  have "split_on CHR ''/'' (q @ [CHR ''/'']) = split_on CHR ''/'' q @ [[]]"
    using split_on_append[of "CHR ''/''" q "[]"] by simp
  moreover have "is_abs (q @ ''/'') = is_abs q" using q by (simp add: is_abs_def)
  ultimately show ?thesis by (simp add: path_clean_def comps_def clean_comps_def clean_step_def)
qed

text \<open>The part of a path up to its last slash.\<close>

lemma dir_part:
  obtains "CHR ''/'' \<notin> set s" "rev (dropWhile (\<lambda>c. c \<noteq> CHR ''/'') (rev s)) = []"
  | q b where "s = q @ ''/'' @ b" "CHR ''/'' \<notin> set b" "rev (dropWhile (\<lambda>c. c \<noteq> CHR ''/'') (rev s)) = q @ ''/''"
proof (cases "CHR ''/'' \<in> set s")
  case True
  then obtain q b where s: "s = q @ CHR ''/'' # b" "CHR ''/'' \<notin> set b"
    using split_list_last by metis
  hence "rev (dropWhile (\<lambda>c. c \<noteq> CHR ''/'') (rev s)) = q @ ''/''"
    by (simp add: dropWhile_append3 dropWhile_append)
  thus ?thesis using that(2)[of q b] s by simp
next
  case False
  hence "dropWhile (\<lambda>c. c \<noteq> CHR ''/'') (rev s) = []" by (auto simp: dropWhile_eq_Nil_conv)
  thus ?thesis using that(1) False by simp
qed

definition search_measure :: "string \<Rightarrow> nat" where
  "search_measure s = (if s = ''.'' then 0 else length s + 1)"

lemma path_dir_smaller: "path_dir s \<noteq> s \<Longrightarrow> search_measure (path_dir s) < search_measure s"
proof (cases rule: dir_part[of s])
  case 1
  assume "path_dir s \<noteq> s"
  moreover have "path_clean [] = ''.''" by (simp add: path_clean_def comps_def is_abs_def clean_comps_def clean_step_def path_string_def)
  hence "path_dir s = ''.''" using 1 by (simp only: path_dir_def)
  ultimately show ?thesis by (simp add: search_measure_def)
next
  case (2 q b)
  assume ne: "path_dir s \<noteq> s"
  have d: "path_dir s = path_clean (q @ ''/'')" using 2 by (simp add: path_dir_def)
  have "length (path_dir s) < length s"
  proof (cases "q = []")
    case True
    hence "path_dir s = ''/''" using d by (simp add: path_clean_def comps_def is_abs_def clean_comps_def clean_step_def path_string_def)
    thus ?thesis using ne 2 True by (cases b) auto
  next
    case False
    hence "length (path_dir s) \<le> length q" using d path_clean_slash path_clean_length by metis
    thus ?thesis using 2 by simp
  qed
  thus ?thesis using 2 by (auto simp: search_measure_def append_eq_Cons_conv)
qed

text \<open>
  \<open>ensureLocalControlWorkspaceAncestorPath\<close>, from the cleaned path upwards.
\<close>

function ensure_ancestor :: "ws_env \<Rightarrow> string \<Rightarrow> string \<Rightarrow> unit prog" where
  "ensure_ancestor E root candidate =
     chain (sys_lstat E candidate) (\<lambda>r. case r of
         Inr info \<Rightarrow> ensure_existing E root candidate
       | Inl e \<Rightarrow>
           if \<not> oe_absent e then refuse (bad_path (oe_message e))
           else if path_dir candidate = candidate then refuse (bad_path ''workspace ancestor does not exist'')
           else ensure_ancestor E root (path_dir candidate))"
  by pat_completeness auto
termination by (relation "measure (\<lambda>(E, root, candidate). search_measure candidate)") (auto intro: path_dir_smaller)

declare ensure_ancestor.simps [simp del]

definition ensure_parent :: "ws_env \<Rightarrow> string \<Rightarrow> string \<Rightarrow> unit prog" where
  "ensure_parent E root target = ensure_ancestor E root (path_clean (path_dir target))"

definition ensure_write_path :: "ws_env \<Rightarrow> string \<Rightarrow> string \<Rightarrow> unit prog" where
  "ensure_write_path E root target =
     chain (ensure_parent E root target) (\<lambda>_.
     chain (sys_lstat E target) (\<lambda>r. case r of
         Inr info \<Rightarrow> ensure_existing E root target
       | Inl e \<Rightarrow> if \<not> oe_absent e then refuse (bad_path (oe_message e)) else give ()))"

section \<open>Parameters and results\<close>

record read_params =
  rq_workspace :: string
  rq_path :: string
  rq_mode :: string
  rq_max_bytes :: int

record write_params =
  wq_workspace :: string
  wq_path :: string
  wq_content :: string
  wq_base64 :: string
  wq_parents :: "bool option"

record patch_params =
  pq_workspace :: string
  pq_path :: string
  pq_edits :: "text_edit list"

record delete_params =
  dq_workspace :: string
  dq_path :: string
  dq_recursive :: bool
  dq_force :: bool

record move_params =
  mq_workspace :: string
  mq_path :: string
  mq_destination :: string
  mq_overwrite :: bool
  mq_parents :: "bool option"

record stream_params =
  sq_workspace :: string
  sq_path :: string
  sq_offset :: int
  sq_chunk :: int

record exec_params =
  xq_workspace :: string
  xq_command :: string
  xq_cwd :: string
  xq_timeout :: "64 word"

record read_result =
  rr_workspace :: string
  rr_target :: string
  rr_path :: string
  rr_kind :: string
  rr_name :: string
  rr_size :: int
  rr_time :: string
  rr_mime :: string
  rr_base64 :: string
  rr_entries :: "ws_entry list"
  rr_truncated :: bool

record write_result =
  wr_workspace :: string
  wr_target :: string
  wr_path :: string
  wr_kind :: string
  wr_size :: int

record patch_result =
  pr_workspace :: string
  pr_target :: string
  pr_path :: string
  pr_kind :: string
  pr_size :: int
  pr_applied :: nat
  pr_patch :: "(string \<times> go_any) list list"

record delete_result =
  dr_workspace :: string
  dr_target :: string
  dr_path :: string
  dr_kind :: string
  dr_removed :: bool

record move_result =
  mr_workspace :: string
  mr_target :: string
  mr_from :: string
  mr_to :: string
  mr_kind :: string
  mr_size :: int

record stream_result =
  fs_stream :: string
  fs_workspace :: string
  fs_target :: string
  fs_path :: string
  fs_kind :: string
  fs_name :: string
  fs_mime :: string
  fs_size :: int
  fs_offset :: int
  fs_chunk :: int

record exec_result =
  xe_workspace :: string
  xe_target :: string
  xe_command :: string
  xe_cwd :: string
  xe_policy :: string
  xe_exit :: int
  xe_stdout :: string
  xe_stderr :: string
  xe_output :: string
  xe_stdout_truncated :: bool
  xe_stderr_truncated :: bool
  xe_output_truncated :: bool
  xe_limit :: int
  xe_duration :: int
  xe_failure :: string

section \<open>Shared steps\<close>

definition allow_parents :: "bool option \<Rightarrow> bool" where
  "allow_parents p = (case p of None \<Rightarrow> True | Some b \<Rightarrow> b)"

definition local_root :: "agent_workspace \<Rightarrow> string" where
  "local_root ws = path_clean (aw_cwd ws)"

definition resolve_local :: "agent_workspace \<Rightarrow> string \<Rightarrow> (string \<times> string) prog" where
  "resolve_local ws path = of_sum bad_path (resolve_workspace_path (local_root ws) path)"

text \<open>\<open>ws.SSH\<close> is dereferenced without a test, after the test for the SSH manager.\<close>

definition ssh_unavailable :: go_error where
  "ssh_unavailable = ActionError 501 ''ssh_unavailable'' ''ssh manager unavailable''"

definition remote_root :: "ws_env \<Rightarrow> agent_workspace \<Rightarrow> string prog" where
  "remote_root E ws =
     (if \<not> we_has_ssh E then refuse ssh_unavailable
      else (case aw_ssh ws of
          None \<Rightarrow> refuse (OpaqueError ''nil pointer dereference'')
        | Some cfg \<Rightarrow> give (remote_clean (sh_cwd cfg))))"

definition resolve_remote :: "ws_env \<Rightarrow> agent_workspace \<Rightarrow> string \<Rightarrow> (string \<times> string) prog" where
  "resolve_remote E ws path =
     chain (remote_root E ws) (\<lambda>root. of_sum bad_path (resolve_remote_path root path))"

definition remote_read_bytes :: "(string \<times> go_any) list \<Rightarrow> string + string" where
  "remote_read_bytes out =
     (let data = string_value (field out ''dataBase64'') in
      if data \<noteq> [] then (case std_decode data of None \<Rightarrow> Inl ''illegal base64 data'' | Some b \<Rightarrow> Inr b)
      else Inr (string_value (field out ''content'')))"

definition remote_write_params :: "string \<Rightarrow> string \<Rightarrow> (string \<times> go_any) list" where
  "remote_write_params path body = [(''path'', AnyString path), (''dataBase64'', AnyString (std_encode body))]"

definition remote_kind :: "(string \<times> go_any) list \<Rightarrow> string" where
  "remote_kind stat = (if bool_value (field stat ''is_dir'') then ''dir'' else ''file'')"

definition file_kind :: "file_info \<Rightarrow> string" where
  "file_kind info = (if fi_dir info then ''dir'' else ''file'')"

definition file_mime :: "ws_env \<Rightarrow> string \<Rightarrow> string \<Rightarrow> string" where
  "file_mime E path body =
     (if we_mime E path \<noteq> [] then we_mime E path
      else if body \<noteq> [] then we_detect E body
      else ''application/octet-stream'')"

definition path_arg :: "string \<Rightarrow> (string \<times> go_any) list" where
  "path_arg p = [(''path'', AnyString p)]"

definition control_workspace :: "ws_env \<Rightarrow> string \<Rightarrow> agent_workspace prog" where
  "control_workspace E wid =
     (if blank wid then refuse (bad ''workspace_id_required'' ''workspace_id required'')
      else (case we_workspace E (trim_space wid) of
          None \<Rightarrow> refuse (ActionError 404 ''workspace_not_found'' ''workspace not found'')
        | Some ws \<Rightarrow> give ws))"

definition need_path :: "string \<Rightarrow> unit prog" where
  "need_path p = (if blank p then refuse (bad ''workspace_file_path_required'' ''path required'') else give ())"

definition stat_file :: "ws_env \<Rightarrow> string \<Rightarrow> file_info prog" where
  "stat_file E target = chain (sys_stat E target) (of_sum (\<lambda>_. file_not_found))"

text \<open>\<open>readWorkspaceFileBytes\<close>: the size is checked before and after the file is read.\<close>

definition read_file_bytes :: "ws_env \<Rightarrow> string \<Rightarrow> file_info \<Rightarrow> int \<Rightarrow> string prog" where
  "read_file_bytes E path info requested =
     (let limit = read_max_bytes requested; large = file_too_large ''workspace.files.read'' in
      if fi_size info > limit then refuse large
      else chain (chain (ask (\<lambda>c. we_read_file E c path) (OsReadFile path)) (of_sum (bad ''workspace_file_read_failed''))) (\<lambda>body.
        if int (length body) > limit then refuse large else give body))"

section \<open>Reading\<close>

definition local_entry :: "string \<Rightarrow> string \<times> bool \<times> file_info option \<Rightarrow> ws_entry option" where
  "local_entry rel entry =
     (case entry of (name, dir, info0) \<Rightarrow>
        map_option (\<lambda>info. \<lparr>en_name = name, en_path = (if rel = [] then name else path_join [rel, name]),
          en_kind = (if dir then ''dir'' else ''file''), en_size = fi_size info, en_mod = fi_time info\<rparr>) info0)"

definition local_entries :: "ws_env \<Rightarrow> string \<Rightarrow> string \<Rightarrow> (ws_entry list \<times> bool) prog" where
  "local_entries E target rel =
     chain (chain (ask (\<lambda>c. we_read_dir E c target) (OsReadDir target)) (of_sum (bad ''workspace_list_failed''))) (\<lambda>entries.
       give (limit_entries (we_lower E) (List.map_filter (local_entry rel) entries)))"

definition remote_entry :: "string \<Rightarrow> go_any \<Rightarrow> ws_entry" where
  "remote_entry root v =
     (let m = map_value v; path = string_value (field m ''path''); rel = remote_rel root path in
      \<lparr>en_name = string_value (field m ''name''), en_path = (if path_escapes rel then path_base path else rel),
       en_kind = remote_kind m, en_size = number_value (field m ''size''), en_mod = string_value (field m ''modified'')\<rparr>)"

fun any_list :: "go_any \<Rightarrow> go_any list" where
  "any_list (AnyList vs) = vs"
| "any_list _ = []"

definition remote_entries :: "ws_env \<Rightarrow> string \<Rightarrow> string \<Rightarrow> (ws_entry list \<times> bool) prog" where
  "remote_entries E root target =
     chain (ssh_call E 400 ''workspace_list_failed'' ''list'' (path_arg target)) (\<lambda>raw.
       give (limit_entries (we_lower E) (map (remote_entry root) (any_list raw))))"

definition read_local :: "ws_env \<Rightarrow> agent_workspace \<Rightarrow> read_params \<Rightarrow> read_result prog" where
  "read_local E ws q =
     chain (resolve_local ws (rq_path q)) (\<lambda>(target, rel).
     chain (ensure_existing E (local_root ws) target) (\<lambda>_.
     chain (stat_file E target) (\<lambda>info.
       let mode = trim_space (rq_mode q) in
       if fi_dir info then
         (if mode = ''file'' then refuse (bad ''workspace_path_is_directory'' ''workspace path is a directory'')
          else chain (local_entries E target rel) (\<lambda>(entries, truncated).
            give \<lparr>rr_workspace = aw_id ws, rr_target = aw_target ws, rr_path = rel, rr_kind = ''dir'',
              rr_name = path_base target, rr_size = 0, rr_time = fi_time info, rr_mime = [], rr_base64 = [],
              rr_entries = entries, rr_truncated = truncated\<rparr>))
       else if mode = ''list'' then refuse (bad ''workspace_path_is_file'' ''workspace path is a file'')
       else chain (read_file_bytes E target info (rq_max_bytes q)) (\<lambda>body.
         give \<lparr>rr_workspace = aw_id ws, rr_target = aw_target ws, rr_path = rel, rr_kind = ''file'',
           rr_name = path_base target, rr_size = fi_size info, rr_time = fi_time info,
           rr_mime = file_mime E target body, rr_base64 = std_encode body, rr_entries = [], rr_truncated = False\<rparr>))))"

definition read_remote :: "ws_env \<Rightarrow> agent_workspace \<Rightarrow> read_params \<Rightarrow> read_result prog" where
  "read_remote E ws q =
     chain (remote_root E ws) (\<lambda>root.
     chain (of_sum bad_path (resolve_remote_path root (rq_path q))) (\<lambda>(target, rel).
       let mode = trim_space (rq_mode q);
           listing = (\<lambda>name size time. chain (remote_entries E root target) (\<lambda>(entries, truncated).
             give \<lparr>rr_workspace = aw_id ws, rr_target = aw_target ws, rr_path = rel, rr_kind = ''dir'',
               rr_name = name, rr_size = size, rr_time = time, rr_mime = [], rr_base64 = [],
               rr_entries = entries, rr_truncated = truncated\<rparr>)) in
       if mode = ''list'' then listing (path_base target) 0 []
       else chain (ssh_call E 404 ''workspace_file_not_found'' ''stat'' (path_arg target)) (\<lambda>v.
         let stat = map_value v;
             name = first_string [field stat ''name'', AnyString (path_base target)];
             size = number_value (field stat ''size'');
             time = string_value (field stat ''modified'');
             limit = read_max_bytes (rq_max_bytes q) in
         if bool_value (field stat ''is_dir'') then
           (if mode = ''file'' then refuse (bad ''workspace_path_is_directory'' ''workspace path is a directory'')
            else listing name size time)
         else if size > limit then refuse (file_too_large ''workspace.files.read'')
         else chain (ssh_call E 400 ''workspace_file_read_failed'' ''read'' (path_arg target)) (\<lambda>out.
           chain (of_sum (bad ''workspace_file_read_failed'') (remote_read_bytes (map_value out))) (\<lambda>body.
           if int (length body) > limit then refuse (file_too_large ''workspace.files.read'')
           else give \<lparr>rr_workspace = aw_id ws, rr_target = aw_target ws, rr_path = rel, rr_kind = ''file'',
             rr_name = name, rr_size = size, rr_time = time, rr_mime = file_mime E target body,
             rr_base64 = std_encode body, rr_entries = [], rr_truncated = False\<rparr>)))))"

definition read_files :: "ws_env \<Rightarrow> read_params \<Rightarrow> read_result prog" where
  "read_files E q =
     chain (control_workspace E (rq_workspace q)) (\<lambda>ws.
       if aw_target ws = ''ssh'' then read_remote E ws q else read_local E ws q)"

section \<open>Writing and patching\<close>

definition write_local :: "ws_env \<Rightarrow> agent_workspace \<Rightarrow> write_params \<Rightarrow> string \<Rightarrow> write_result prog" where
  "write_local E ws q body =
     chain (resolve_local ws (wq_path q)) (\<lambda>(target, rel).
     chain (ensure_write_path E (local_root ws) target) (\<lambda>_.
     chain (if allow_parents (wq_parents q)
            then sys_effect E ''workspace_file_write_failed'' (OsMkdirAll (path_dir target)) else give ()) (\<lambda>_.
     chain (sys_effect E ''workspace_file_write_failed'' (OsWriteFile target body)) (\<lambda>_.
       give \<lparr>wr_workspace = aw_id ws, wr_target = aw_target ws, wr_path = rel, wr_kind = ''file'',
         wr_size = int (length body)\<rparr>))))"

definition write_remote :: "ws_env \<Rightarrow> agent_workspace \<Rightarrow> write_params \<Rightarrow> string \<Rightarrow> write_result prog" where
  "write_remote E ws q body =
     chain (resolve_remote E ws (wq_path q)) (\<lambda>(target, rel).
     chain (ssh_call E 400 ''workspace_file_write_failed'' ''write'' (remote_write_params target body)) (\<lambda>_.
       give \<lparr>wr_workspace = aw_id ws, wr_target = aw_target ws, wr_path = rel, wr_kind = ''file'',
         wr_size = int (length body)\<rparr>))"

definition write_file :: "ws_env \<Rightarrow> write_params \<Rightarrow> write_result prog" where
  "write_file E q =
     chain (control_workspace E (wq_workspace q)) (\<lambda>ws.
     chain (need_path (wq_path q)) (\<lambda>_.
     chain (of_sum id (write_body (wq_base64 q) (wq_content q))) (\<lambda>body.
       if aw_target ws = ''ssh'' then write_remote E ws q body else write_local E ws q body)))"

definition patch_local :: "ws_env \<Rightarrow> agent_workspace \<Rightarrow> patch_params \<Rightarrow> patch_result prog" where
  "patch_local E ws q =
     chain (resolve_local ws (pq_path q)) (\<lambda>(target, rel).
     chain (ensure_existing E (local_root ws) target) (\<lambda>_.
     chain (stat_file E target) (\<lambda>info.
       if fi_dir info then refuse file_not_found
       else chain (read_file_bytes E target info 0) (\<lambda>body.
         chain (of_sum id (apply_text_edits body (pq_edits q))) (\<lambda>(next, applied).
         chain (sys_effect E ''workspace_file_write_failed'' (OsWriteFile target next)) (\<lambda>_.
           give \<lparr>pr_workspace = aw_id ws, pr_target = aw_target ws, pr_path = rel, pr_kind = ''file'',
             pr_size = int (length next), pr_applied = applied, pr_patch = [structured_patch body next]\<rparr>))))))"

definition patch_remote :: "ws_env \<Rightarrow> agent_workspace \<Rightarrow> patch_params \<Rightarrow> patch_result prog" where
  "patch_remote E ws q =
     chain (resolve_remote E ws (pq_path q)) (\<lambda>(target, rel).
     chain (ssh_call E 400 ''workspace_file_read_failed'' ''read'' (path_arg target)) (\<lambda>out.
     chain (of_sum (bad ''workspace_file_read_failed'') (remote_read_bytes (map_value out))) (\<lambda>body.
       if int (length body) > file_hard_max then refuse (file_too_large ''workspace.files.apply_patch'')
       else chain (of_sum id (apply_text_edits body (pq_edits q))) (\<lambda>(next, applied).
         chain (ssh_call E 400 ''workspace_file_write_failed'' ''write'' (remote_write_params target next)) (\<lambda>_.
           give \<lparr>pr_workspace = aw_id ws, pr_target = aw_target ws, pr_path = rel, pr_kind = ''file'',
             pr_size = int (length next), pr_applied = applied, pr_patch = [structured_patch body next]\<rparr>)))))"

definition apply_patch :: "ws_env \<Rightarrow> patch_params \<Rightarrow> patch_result prog" where
  "apply_patch E q =
     chain (control_workspace E (pq_workspace q)) (\<lambda>ws.
     chain (need_path (pq_path q)) (\<lambda>_.
       if pq_edits q = [] then refuse (bad ''workspace_patch_required'' ''edits required'')
       else if aw_target ws = ''ssh'' then patch_remote E ws q else patch_local E ws q))"

section \<open>Deleting and moving\<close>

definition root_forbidden :: "string \<Rightarrow> go_error" where
  "root_forbidden what = bad ''workspace_root_path_forbidden'' (''workspace root cannot be '' @ what)"

definition recursive_required :: go_error where
  "recursive_required = bad ''workspace_delete_recursive_required'' ''recursive=true required to delete a directory''"

definition remove_path :: "ws_env \<Rightarrow> string \<Rightarrow> file_info \<Rightarrow> unit prog" where
  "remove_path E target info =
     sys_effect E ''workspace_file_delete_failed'' (if fi_dir info then OsRemoveAll target else OsRemove target)"

definition delete_local :: "ws_env \<Rightarrow> agent_workspace \<Rightarrow> delete_params \<Rightarrow> delete_result prog" where
  "delete_local E ws q =
     chain (resolve_local ws (dq_path q)) (\<lambda>(target, rel).
       let answer = (\<lambda>kind removed. give \<lparr>dr_workspace = aw_id ws, dr_target = aw_target ws, dr_path = rel,
             dr_kind = kind, dr_removed = removed\<rparr>) in
       if rel = [] then refuse (root_forbidden ''deleted'')
       else chain (ensure_parent E (local_root ws) target) (\<lambda>_.
         chain (sys_lstat E target) (\<lambda>r. case r of
             Inl e \<Rightarrow> if oe_absent e \<and> dq_force q then answer ''missing'' False else refuse file_not_found
           | Inr info \<Rightarrow>
               if fi_dir info \<and> \<not> dq_recursive q then refuse recursive_required
               else chain (remove_path E target info) (\<lambda>_. answer (file_kind info) True))))"

definition remove_args :: "string \<Rightarrow> bool \<Rightarrow> bool \<Rightarrow> (string \<times> go_any) list" where
  "remove_args p recursive force =
     [(''path'', AnyString p), (''recursive'', AnyBool recursive), (''force'', AnyBool force)]"

definition delete_remote :: "ws_env \<Rightarrow> agent_workspace \<Rightarrow> delete_params \<Rightarrow> delete_result prog" where
  "delete_remote E ws q =
     chain (resolve_remote E ws (dq_path q)) (\<lambda>(target, rel).
       let answer = (\<lambda>kind removed. give \<lparr>dr_workspace = aw_id ws, dr_target = aw_target ws, dr_path = rel,
             dr_kind = kind, dr_removed = removed\<rparr>);
           stat_call = SshCall ''stat'' (path_arg target) in
       if rel = [] then refuse (root_forbidden ''deleted'')
       else chain (ask (\<lambda>c. we_ssh E c stat_call) stat_call) (\<lambda>r. case r of
           Inl e \<Rightarrow>
             if dq_force q
             then chain (ssh_call E 400 ''workspace_file_delete_failed'' ''remove'' (remove_args target (dq_recursive q) True)) (\<lambda>_.
                    answer ''missing'' False)
             else refuse (ActionError 404 ''workspace_file_not_found'' e)
         | Inr v \<Rightarrow>
             (let kind = remote_kind (map_value v) in
              if kind = ''dir'' \<and> \<not> dq_recursive q then refuse recursive_required
              else chain (ssh_call E 400 ''workspace_file_delete_failed'' ''remove'' (remove_args target (dq_recursive q) (dq_force q))) (\<lambda>_.
                answer kind True))))"

definition delete_path :: "ws_env \<Rightarrow> delete_params \<Rightarrow> delete_result prog" where
  "delete_path E q =
     chain (control_workspace E (dq_workspace q)) (\<lambda>ws.
     chain (need_path (dq_path q)) (\<lambda>_.
       if aw_target ws = ''ssh'' then delete_remote E ws q else delete_local E ws q))"

definition prepare_destination :: "ws_env \<Rightarrow> string \<Rightarrow> bool \<Rightarrow> unit prog" where
  "prepare_destination E destination overwrite =
     chain (sys_lstat E destination) (\<lambda>r. case r of
         Inl e \<Rightarrow> if oe_absent e then give () else refuse (bad ''workspace_file_move_failed'' (oe_message e))
       | Inr info \<Rightarrow>
           if \<not> overwrite then refuse (ActionError 409 ''workspace_destination_exists'' ''destination already exists'')
           else if fi_dir info
             then refuse (ActionError 409 ''workspace_destination_exists'' ''destination already exists and is a directory'')
           else sys_effect E ''workspace_file_move_failed'' (OsRemove destination))"

definition same_path :: go_error where
  "same_path = ActionError 409 ''workspace_move_same_path'' ''source and destination are the same path''"

definition into_itself :: go_error where
  "into_itself = bad ''workspace_move_descendant_forbidden'' ''cannot move a directory into itself or a descendant''"

definition move_local :: "ws_env \<Rightarrow> agent_workspace \<Rightarrow> move_params \<Rightarrow> move_result prog" where
  "move_local E ws q =
     chain (resolve_local ws (mq_path q)) (\<lambda>(source, from_rel).
     chain (resolve_local ws (mq_destination q)) (\<lambda>(destination, to_rel).
       if from_rel = [] \<or> to_rel = [] then refuse (root_forbidden ''moved'')
       else chain (ensure_parent E (local_root ws) source) (\<lambda>_.
         chain (ensure_parent E (local_root ws) destination) (\<lambda>_.
         if source = destination then refuse same_path
         else chain (chain (sys_lstat E source) (of_sum (\<lambda>_. file_not_found))) (\<lambda>info.
           if fi_dir info \<and> same_or_descendant source destination then refuse into_itself
           else chain (if allow_parents (mq_parents q)
                       then sys_effect E ''workspace_file_move_failed'' (OsMkdirAll (path_dir destination)) else give ()) (\<lambda>_.
             chain (prepare_destination E destination (mq_overwrite q)) (\<lambda>_.
             chain (sys_effect E ''workspace_file_move_failed'' (OsRename source destination)) (\<lambda>_.
               give \<lparr>mr_workspace = aw_id ws, mr_target = aw_target ws, mr_from = from_rel, mr_to = to_rel,
                 mr_kind = file_kind info, mr_size = fi_size info\<rparr>))))))))"

definition move_remote :: "ws_env \<Rightarrow> agent_workspace \<Rightarrow> move_params \<Rightarrow> move_result prog" where
  "move_remote E ws q =
     chain (resolve_remote E ws (mq_path q)) (\<lambda>(source, from_rel).
     chain (resolve_remote E ws (mq_destination q)) (\<lambda>(destination, to_rel).
       if from_rel = [] \<or> to_rel = [] then refuse (root_forbidden ''moved'')
       else if source = destination then refuse same_path
       else chain (ssh_call E 404 ''workspace_file_not_found'' ''stat'' (path_arg source)) (\<lambda>v.
         let kind = remote_kind (map_value v) in
         if kind = ''dir'' \<and> remote_same_or_descendant source destination then refuse into_itself
         else chain (ssh_call E 400 ''workspace_file_move_failed'' ''move''
                [(''source'', AnyString source), (''destination'', AnyString destination),
                 (''overwrite'', AnyBool (mq_overwrite q)), (''create_parents'', AnyBool (allow_parents (mq_parents q)))]) (\<lambda>_.
           give \<lparr>mr_workspace = aw_id ws, mr_target = aw_target ws, mr_from = from_rel, mr_to = to_rel,
             mr_kind = kind, mr_size = number_value (field (map_value v) ''size'')\<rparr>))))"

definition move_path :: "ws_env \<Rightarrow> move_params \<Rightarrow> move_result prog" where
  "move_path E q =
     chain (control_workspace E (mq_workspace q)) (\<lambda>ws.
     chain (need_path (mq_path q)) (\<lambda>_.
       if blank (mq_destination q) then refuse (bad ''workspace_destination_path_required'' ''destination_path required'')
       else if aw_target ws = ''ssh'' then move_remote E ws q else move_local E ws q))"

section \<open>Preparing a stream\<close>

definition offset_invalid :: go_error where
  "offset_invalid = bad ''workspace_file_stream_offset_invalid'' ''workspace file stream offset is invalid''"

definition prepared_stream :: "ws_env \<Rightarrow> agent_workspace \<Rightarrow> stream_params \<Rightarrow> string \<Rightarrow> string \<Rightarrow> string \<Rightarrow> int \<Rightarrow> stream_result" where
  "prepared_stream E ws q target rel name bytes =
     \<lparr>fs_stream = ''workspace_file_'' @ we_random E, fs_workspace = aw_id ws, fs_target = aw_target ws, fs_path = rel,
      fs_kind = ''file'', fs_name = name, fs_mime = file_mime E target [], fs_size = bytes, fs_offset = sq_offset q,
      fs_chunk = stream_chunk_size (sq_chunk q)\<rparr>"

definition prepare_stream_local :: "ws_env \<Rightarrow> agent_workspace \<Rightarrow> stream_params \<Rightarrow> stream_result prog" where
  "prepare_stream_local E ws q =
     chain (resolve_local ws (sq_path q)) (\<lambda>(target, rel).
     chain (ensure_existing E (local_root ws) target) (\<lambda>_.
     chain (stat_file E target) (\<lambda>info.
       if fi_dir info then refuse (bad ''workspace_path_is_directory'' ''workspace path is a directory'')
       else if sq_offset q > fi_size info then refuse offset_invalid
       else give (prepared_stream E ws q target rel (path_base target) (fi_size info)))))"

definition prepare_stream_remote :: "ws_env \<Rightarrow> agent_workspace \<Rightarrow> stream_params \<Rightarrow> stream_result prog" where
  "prepare_stream_remote E ws q =
     chain (resolve_remote E ws (sq_path q)) (\<lambda>(target, rel).
     chain (ssh_call E 404 ''workspace_file_not_found'' ''stat'' (path_arg target)) (\<lambda>v.
       let stat = map_value v; size = number_value (field stat ''size'') in
       if bool_value (field stat ''is_dir'') then refuse (bad ''workspace_path_is_directory'' ''workspace path is a directory'')
       else if sq_offset q > size then refuse offset_invalid
       else give (prepared_stream E ws q target rel (first_string [field stat ''name'', AnyString (path_base target)]) size)))"

definition prepare_stream :: "ws_env \<Rightarrow> stream_params \<Rightarrow> stream_result prog" where
  "prepare_stream E q =
     chain (control_workspace E (sq_workspace q)) (\<lambda>ws.
     chain (need_path (sq_path q)) (\<lambda>_.
       if sq_offset q < 0 then refuse offset_invalid
       else if aw_target ws = ''ssh'' then prepare_stream_remote E ws q else prepare_stream_local E ws q))"

section \<open>Running commands\<close>

definition shell_exit :: "shell_run \<Rightarrow> int" where
  "shell_exit x =
     (case xr_failed x of
        None \<Rightarrow> 0
      | Some code \<Rightarrow> if xr_deadline x then 124 else (case code of None \<Rightarrow> 1 | Some n \<Rightarrow> n))"

definition collect :: "string list \<Rightarrow> exec_buffer" where
  "collect chunks = fold buffer_write chunks \<lparr>xb_bytes = [], xb_limit = exec_output_max, xb_truncated = False\<rparr>"

definition exec_local :: "ws_env \<Rightarrow> agent_workspace \<Rightarrow> string \<Rightarrow> string \<Rightarrow> 64 word \<Rightarrow> string \<Rightarrow> exec_result prog" where
  "exec_local E ws command cwd0 timeout policy =
     chain (resolve_local ws cwd0) (\<lambda>(cwd, rel).
     chain (ensure_existing E (local_root ws) cwd) (\<lambda>_.
     chain (ask (\<lambda>c. we_shell E c (OsShell cwd command timeout)) (OsShell cwd command timeout)) (\<lambda>x.
       let out = collect (xr_stdout x); err = collect (xr_stderr x) in
       give \<lparr>xe_workspace = aw_id ws, xe_target = aw_target ws, xe_command = command, xe_cwd = rel,
         xe_policy = policy, xe_exit = shell_exit x, xe_stdout = xb_bytes out, xe_stderr = xb_bytes err, xe_output = [],
         xe_stdout_truncated = xb_truncated out, xe_stderr_truncated = xb_truncated err, xe_output_truncated = False,
         xe_limit = exec_output_max, xe_duration = xr_duration x, xe_failure = []\<rparr>)))"

text \<open>\<open>timeout.Milliseconds()\<close> divides towards zero.\<close>

definition timeout_ms :: "64 word \<Rightarrow> int" where
  "timeout_ms t = (if sint t < 0 then - ((- sint t) div 1000000) else sint t div 1000000)"

definition exec_remote :: "ws_env \<Rightarrow> agent_workspace \<Rightarrow> string \<Rightarrow> string \<Rightarrow> 64 word \<Rightarrow> string \<Rightarrow> exec_result prog" where
  "exec_remote E ws command cwd0 timeout policy =
     chain (resolve_remote E ws cwd0) (\<lambda>(cwd, rel).
       let call = SshExec command cwd (timeout_ms timeout) in
       if \<not> we_has_exec E
         then refuse (ActionError 503 ''workspace_exec_unavailable'' ''remote workspace exec is not available'')
       else chain (chain (ask (\<lambda>c. we_ssh E c call) call) (of_sum (bad ''workspace_exec_failed''))) (\<lambda>v.
         let m = map_value v;
             out = truncate_output (string_value (field m ''stdout''));
             err = truncate_output (string_value (field m ''stderr''));
             both = truncate_output (string_value (field m ''output'')) in
         give \<lparr>xe_workspace = aw_id ws, xe_target = aw_target ws,
           xe_command = first_string [field m ''command'', AnyString command], xe_cwd = rel, xe_policy = policy,
           xe_exit = number_value (field m ''exit_code''), xe_stdout = fst out, xe_stderr = fst err, xe_output = fst both,
           xe_stdout_truncated = snd out, xe_stderr_truncated = snd err, xe_output_truncated = snd both,
           xe_limit = exec_output_max, xe_duration = number_value (field m ''duration_ms''),
           xe_failure = string_value (field m ''failure'')\<rparr>))"

definition effective_policy :: "string \<Rightarrow> string" where
  "effective_policy p = (if blank p then ''trusted'' else trim_space p)"

definition execute_command :: "ws_env \<Rightarrow> string \<Rightarrow> exec_params \<Rightarrow> exec_result prog" where
  "execute_command E policy0 q =
     chain (control_workspace E (xq_workspace q)) (\<lambda>ws.
       let command = trim_space (xq_command q); policy = effective_policy policy0; timeout = exec_timeout (xq_timeout q) in
       if command = [] then refuse (bad ''command_required'' ''command required'')
       else (case enforce_exec_policy policy command (xq_cwd q) of
           Some e \<Rightarrow> refuse e
         | None \<Rightarrow> if aw_target ws = ''ssh'' then exec_remote E ws command (xq_cwd q) timeout policy
                   else exec_local E ws command (xq_cwd q) timeout policy))"

section \<open>The workspace branches of the gateway\<close>

datatype workspace_params =
    ParamsRead read_params
  | ParamsWrite write_params
  | ParamsPatch patch_params
  | ParamsDelete delete_params
  | ParamsMove move_params
  | ParamsStream stream_params
  | ParamsExec exec_params

datatype workspace_value =
    ValueRead read_result
  | ValueWrite write_result
  | ValuePatch patch_result
  | ValueDelete delete_result
  | ValueMove move_result
  | ValueStream stream_result
  | ValueExec exec_result

definition as_value :: "('a \<Rightarrow> workspace_value) \<Rightarrow> 'a prog \<Rightarrow> workspace_value prog" where
  "as_value v p = chain p (\<lambda>x. give (v x))"

text \<open>
  The decoded parameters of a request, whether it came over an encrypted connection, and the grant of
  the controller.
\<close>

definition handle_workspace :: "ws_env \<Rightarrow> bool \<Rightarrow> trust_grant \<Rightarrow> workspace_params \<Rightarrow> workspace_value prog" where
  "handle_workspace E has_conn grant req = (case req of
       ParamsRead q \<Rightarrow> as_value ValueRead (read_files E q)
     | ParamsWrite q \<Rightarrow> as_value ValueWrite (write_file E q)
     | ParamsPatch q \<Rightarrow> as_value ValuePatch (apply_patch E q)
     | ParamsDelete q \<Rightarrow> as_value ValueDelete (delete_path E q)
     | ParamsMove q \<Rightarrow> as_value ValueMove (move_path E q)
     | ParamsStream q \<Rightarrow>
         if \<not> has_conn
           then refuse (bad ''control_connection_required'' ''workspace.files.stream requires an encrypted control connection'')
         else as_value ValueStream (prepare_stream E q)
     | ParamsExec q \<Rightarrow> as_value ValueExec (execute_command E (tg_exec_policy grant) q))"

section \<open>What a program may call\<close>

named_theorems emits \<open>what calls a program makes\<close>

definition emits :: "(os_call \<Rightarrow> bool) \<Rightarrow> 'a prog \<Rightarrow> bool" where
  "emits P p \<longleftrightarrow> (\<forall>calls. \<exists>new. snd (p calls) = calls @ new \<and> list_all P new)"

lemma emits_give [emits]: "emits P (give x)"
  by (auto simp: emits_def give_def)

lemma emits_refuse [emits]: "emits P (refuse e)"
  by (auto simp: emits_def refuse_def)

lemma emits_ask [emits]: "P call \<Longrightarrow> emits P (ask a call)"
  by (auto simp: emits_def ask_def)

text \<open>The continuation runs only with values the first program can return.\<close>

definition yields :: "('a \<Rightarrow> bool) \<Rightarrow> 'a prog \<Rightarrow> bool" where
  "yields Q p \<longleftrightarrow> (\<forall>calls x. fst (p calls) = Inr x \<longrightarrow> Q x)"

lemma emits_chain_value:
  assumes "emits P p" "yields Q p" "\<And>x. Q x \<Longrightarrow> emits P (f x)" shows "emits P (chain p f)"
  unfolding emits_def
proof
  fix calls
  obtain r calls1 new1 where p: "p calls = (r, calls1)" "calls1 = calls @ new1" "list_all P new1"
    using assms(1) unfolding emits_def by (metis prod.collapse)
  show "\<exists>new. snd (chain p f calls) = calls @ new \<and> list_all P new"
  proof (cases r)
    case (Inr x)
    hence "Q x" using assms(2) p(1) unfolding yields_def by (metis fst_conv)
    then obtain new2 where "snd (f x calls1) = calls1 @ new2" "list_all P new2"
      using assms(3) unfolding emits_def by blast
    thus ?thesis using p Inr by (intro exI[of _ "new1 @ new2"]) (simp add: chain_def)
  qed (use p in \<open>simp add: chain_def\<close>)
qed

lemma emits_chain [emits]: "emits P p \<Longrightarrow> (\<And>x. emits P (f x)) \<Longrightarrow> emits P (chain p f)"
  by (rule emits_chain_value[where Q = "\<lambda>_. True"]) (simp_all add: yields_def)

lemma yields_mono: "yields Q p \<Longrightarrow> (\<And>x. Q x \<Longrightarrow> R x) \<Longrightarrow> yields R p"
  by (simp add: yields_def)

lemma yields_of_sum: "yields (\<lambda>x. r = Inr x) (of_sum err r)"
  by (simp add: yields_def of_sum_def give_def refuse_def split: sum.splits)

lemma emits_of_sum [emits]: "emits P (of_sum err r)"
  by (auto simp: of_sum_def intro: emits split: sum.splits)

lemma emits_sys [emits]:
  "P (OsStat p) \<Longrightarrow> emits P (sys_stat E p)" "P (OsLstat p) \<Longrightarrow> emits P (sys_lstat E p)"
  "P (OsEval p) \<Longrightarrow> emits P (sys_eval E p)" "P call \<Longrightarrow> emits P (sys_effect E code call)"
  "P (SshCall m a) \<Longrightarrow> emits P (ssh_call E st code m a)"
  by (auto simp: sys_stat_def sys_lstat_def sys_eval_def sys_effect_def ssh_call_def intro!: emits
      split: option.splits sum.splits)

lemma emits_mono: "emits P p \<Longrightarrow> (\<And>c. P c \<Longrightarrow> Q c) \<Longrightarrow> emits Q p"
  unfolding emits_def using list.pred_mono_strong by metis

lemma emitsD: "emits P p \<Longrightarrow> p calls = (r, calls1) \<Longrightarrow> \<exists>new. calls1 = calls @ new \<and> list_all P new"
  unfolding emits_def by (metis snd_conv)

lemma emits_if [emits]: "(c \<Longrightarrow> emits P a) \<Longrightarrow> (\<not> c \<Longrightarrow> emits P b) \<Longrightarrow> emits P (if c then a else b)"
  by simp

section \<open>A local workspace\<close>

text \<open>At or below the root, and below it.\<close>

definition within :: "string \<Rightarrow> string \<Rightarrow> bool" where
  "within root p \<longleftrightarrow> is_abs p \<and> prefix (comps root) (comps p)"

definition below :: "string \<Rightarrow> string \<Rightarrow> bool" where
  "below root p \<longleftrightarrow> is_abs p \<and> strict_prefix (comps root) (comps p)"

fun confined :: "string \<Rightarrow> os_call \<Rightarrow> bool" where
  "confined root (OsStat p) = within root p"
| "confined root (OsReadFile p) = within root p"
| "confined root (OsReadDir p) = within root p"
| "confined root (OsWriteFile p body) = within root p"
| "confined root (OsMkdirAll p) = (\<exists>t. within root t \<and> p = path_dir t)"
| "confined root (OsRemove p) = below root p"
| "confined root (OsRemoveAll p) = below root p"
| "confined root (OsRename p q) = (below root p \<and> below root q)"
| "confined root (OsShell cwd command t) = within root cwd"
| "confined root (SshCall m a) = False"
| "confined root (SshExec command cwd t) = False"
| "confined root call = True"

lemma resolve_local_yields:
  assumes "is_abs (aw_cwd ws)"
  shows "yields (\<lambda>(target, rel). within (aw_cwd ws) target \<and> (rel \<noteq> [] \<longrightarrow> below (aw_cwd ws) target)) (resolve_local ws path)"
proof -
  have root: "is_abs (local_root ws)" "comps (local_root ws) = comps (aw_cwd ws)"
    using assms by (simp_all add: local_root_def is_abs_clean comps_clean)
  have "within (aw_cwd ws) t \<and> (rel \<noteq> [] \<longrightarrow> below (aw_cwd ws) t)"
    if r: "resolve_workspace_path (local_root ws) path = Inr (t, rel)" for t rel
  proof -
    obtain cs where cs: "list_all normal cs" "t = path_string True (comps (aw_cwd ws) @ cs)" "rel = join_with ''/'' cs"
      using resolved_inside[OF root(1) r] root(2) by auto
    hence "comps t = comps (aw_cwd ws) @ cs" "is_abs t" using comps_normal[OF assms] by simp_all
    thus ?thesis using cs(3) by (auto simp: within_def below_def strict_prefix_def)
  qed
  thus ?thesis unfolding resolve_local_def by (intro yields_mono[OF yields_of_sum]) auto
qed

definition lets_check :: "(os_call \<Rightarrow> bool) \<Rightarrow> bool" where
  "lets_check P \<longleftrightarrow> (\<forall>p. P (OsLstat p) \<and> P (OsEval p))"

lemma lets_check_confined [emits]: "lets_check (confined root)"
  by (simp add: lets_check_def)

lemma emits_ensure [emits]: "lets_check P \<Longrightarrow> emits P (ensure_existing E r t)"
  by (auto simp: ensure_existing_def lets_check_def intro!: emits)

lemma emits_ancestor [emits]: "lets_check P \<Longrightarrow> emits P (ensure_ancestor E r candidate)"
proof (induction E r candidate rule: ensure_ancestor.induct)
  case (1 E r candidate)
  have "P (OsLstat candidate)" using 1(2) by (simp add: lets_check_def)
  thus ?case by (subst ensure_ancestor.simps) (auto intro!: emits 1 split: sum.splits)
qed

lemma emits_parent [emits]: "lets_check P \<Longrightarrow> emits P (ensure_parent E r t)"
  by (simp add: ensure_parent_def emits)

lemma emits_write_path [emits]: "lets_check P \<Longrightarrow> emits P (ensure_write_path E r t)"
  by (auto simp: ensure_write_path_def lets_check_def intro!: emits split: sum.splits)

lemma emits_resolve [emits]: "emits P (resolve_local ws path)"
  by (simp add: resolve_local_def emits)

lemma emits_stat_file [emits]: "P (OsStat t) \<Longrightarrow> emits P (stat_file E t)"
  by (simp add: stat_file_def emits)

lemma emits_read_bytes [emits]: "P (OsReadFile t) \<Longrightarrow> emits P (read_file_bytes E t info n)"
  by (auto simp: read_file_bytes_def Let_def intro!: emits)

lemma emits_local_entries [emits]: "P (OsReadDir t) \<Longrightarrow> emits P (local_entries E t rel)"
  by (auto simp: local_entries_def intro!: emits)

lemma emits_resolved:
  assumes "is_abs (aw_cwd ws)"
    and "\<And>t rel. within (aw_cwd ws) t \<Longrightarrow> (rel \<noteq> [] \<Longrightarrow> below (aw_cwd ws) t) \<Longrightarrow> emits P (f (t, rel))"
  shows "emits P (chain (resolve_local ws path) f)"
  by (rule emits_chain_value[OF emits_resolve resolve_local_yields[OF assms(1)]]) (use assms(2) in auto)

lemma emits_prepare_destination [emits]:
  "P (OsLstat d) \<Longrightarrow> P (OsRemove d) \<Longrightarrow> emits P (prepare_destination E d ow)"
  by (auto simp: prepare_destination_def intro!: emits split: sum.splits)

lemma emits_remove_path [emits]: "P (OsRemove d) \<Longrightarrow> P (OsRemoveAll d) \<Longrightarrow> emits P (remove_path E d info)"
  by (auto simp: remove_path_def intro!: emits)

lemma emits_local:
  assumes "is_abs (aw_cwd ws)"
  shows "emits (confined (aw_cwd ws)) (read_local E ws rq)" "emits (confined (aw_cwd ws)) (write_local E ws wq body)"
    "emits (confined (aw_cwd ws)) (patch_local E ws pq)" "emits (confined (aw_cwd ws)) (delete_local E ws dq)"
    "emits (confined (aw_cwd ws)) (move_local E ws mq)" "emits (confined (aw_cwd ws)) (prepare_stream_local E ws sq)"
    "emits (confined (aw_cwd ws)) (exec_local E ws command cwd0 t policy)"
  unfolding read_local_def write_local_def patch_local_def delete_local_def move_local_def prepare_stream_local_def
    exec_local_def Let_def
  by (auto intro!: emits_resolved[OF assms] emits split: sum.splits prod.splits)

fun request_workspace :: "workspace_params \<Rightarrow> string" where
  "request_workspace (ParamsRead q) = rq_workspace q"
| "request_workspace (ParamsWrite q) = wq_workspace q"
| "request_workspace (ParamsPatch q) = pq_workspace q"
| "request_workspace (ParamsDelete q) = dq_workspace q"
| "request_workspace (ParamsMove q) = mq_workspace q"
| "request_workspace (ParamsStream q) = sq_workspace q"
| "request_workspace (ParamsExec q) = xq_workspace q"

text \<open>A request is about one workspace, and nothing is called before that is found.\<close>

lemma yields_workspace: "yields (\<lambda>ws. we_workspace E (trim_space wid) = Some ws) (control_workspace E wid)"
  by (auto simp: yields_def control_workspace_def give_def refuse_def split: option.splits)

lemma emits_workspace [emits]: "emits P (control_workspace E wid)"
  by (auto simp: control_workspace_def intro: emits split: option.splits)

lemma emits_need_path [emits]: "emits P (need_path p)"
  by (simp add: need_path_def emits)

lemma emits_in_workspace:
  "(\<And>ws. we_workspace E (trim_space wid) = Some ws \<Longrightarrow> emits P (f ws)) \<Longrightarrow> emits P (chain (control_workspace E wid) f)"
  by (rule emits_chain_value[OF emits_workspace yields_workspace])

lemma emits_as_value [emits]: "emits P p \<Longrightarrow> emits P (as_value v p)"
  by (simp add: as_value_def emits)

lemma emits_handle:
  assumes "\<And>ws. we_workspace E (trim_space (request_workspace req)) = Some ws \<Longrightarrow> aw_target ws \<noteq> ''ssh'' \<Longrightarrow>
      (\<forall>q. emits P (read_local E ws q)) \<and> (\<forall>q body. emits P (write_local E ws q body)) \<and>
      (\<forall>q. emits P (patch_local E ws q)) \<and> (\<forall>q. emits P (delete_local E ws q)) \<and> (\<forall>q. emits P (move_local E ws q)) \<and>
      (\<forall>q. emits P (prepare_stream_local E ws q))"
    and "\<And>ws. we_workspace E (trim_space (request_workspace req)) = Some ws \<Longrightarrow> aw_target ws = ''ssh'' \<Longrightarrow>
      (\<forall>q. emits P (read_remote E ws q)) \<and> (\<forall>q body. emits P (write_remote E ws q body)) \<and>
      (\<forall>q. emits P (patch_remote E ws q)) \<and> (\<forall>q. emits P (delete_remote E ws q)) \<and> (\<forall>q. emits P (move_remote E ws q)) \<and>
      (\<forall>q. emits P (prepare_stream_remote E ws q))"
    and "\<And>q. req = ParamsExec q \<Longrightarrow> emits P (execute_command E (tg_exec_policy grant) q)"
  shows "emits P (handle_workspace E conn grant req)"
  by (cases req)
    (use assms in \<open>auto simp: handle_workspace_def read_files_def write_file_def apply_patch_def delete_path_def move_path_def
      prepare_stream_def intro!: emits emits_in_workspace\<close>)

text \<open>
  C27: Whatever a controller asks of a local workspace and whatever the file system answers, files are
  read and written only at paths below the root, nothing but things below the root is removed or
  renamed, and nothing goes over SSH.
\<close>

theorem local_actions_confined:
  assumes "we_workspace E (trim_space (request_workspace req)) = Some ws" and "aw_target ws \<noteq> ''ssh''" and "is_abs (aw_cwd ws)"
    and "handle_workspace E conn grant req calls = (r, calls')"
  shows "\<exists>new. calls' = calls @ new \<and> list_all (confined (aw_cwd ws)) new"
proof -
  have "emits (confined (aw_cwd ws)) (execute_command E (tg_exec_policy grant) q)" if "req = ParamsExec q" for q
    unfolding execute_command_def Let_def
    using that assms(1,2) emits_local(7)[OF assms(3)]
    by (auto intro!: emits emits_in_workspace split: option.splits)
  hence e: "emits (confined (aw_cwd ws)) (handle_workspace E conn grant req)"
    by (intro emits_handle) (use assms(1,2) emits_local[OF assms(3)] in auto)
  thus ?thesis using emitsD[OF e assms(4)] by blast
qed

section \<open>A remote workspace\<close>

fun over_ssh :: "os_call \<Rightarrow> bool" where
  "over_ssh (SshCall m a) = True"
| "over_ssh (SshExec command cwd t) = True"
| "over_ssh call = False"

lemma emits_remote_root [emits]: "emits P (remote_root E ws)"
  by (auto simp: remote_root_def intro: emits split: option.splits)

lemma emits_resolve_remote [emits]: "emits P (resolve_remote E ws path)"
  by (auto simp: resolve_remote_def intro!: emits)

lemma emits_remote_entries [emits]: "(\<And>m a. P (SshCall m a)) \<Longrightarrow> emits P (remote_entries E root t)"
  by (auto simp: remote_entries_def intro!: emits)

lemma emits_remote:
  assumes "\<And>m a. P (SshCall m a)"
  shows "emits P (read_remote E ws rq)" "emits P (write_remote E ws wq body)" "emits P (patch_remote E ws pq)"
    "emits P (delete_remote E ws dq)" "emits P (move_remote E ws mq)" "emits P (prepare_stream_remote E ws sq)"
  unfolding read_remote_def write_remote_def patch_remote_def delete_remote_def move_remote_def prepare_stream_remote_def Let_def
  by (auto intro!: emits assms split: sum.splits prod.splits)

text \<open>A request about a workspace on another machine never touches a file of the host.\<close>

theorem remote_actions_remote:
  assumes "we_workspace E (trim_space (request_workspace req)) = Some ws" and "aw_target ws = ''ssh''"
    and "handle_workspace E conn grant req calls = (r, calls')"
  shows "\<exists>new. calls' = calls @ new \<and> list_all over_ssh new"
proof -
  have "emits over_ssh (execute_command E (tg_exec_policy grant) q)" if "req = ParamsExec q" for q
    unfolding execute_command_def exec_remote_def Let_def
    using that assms(1,2) by (auto intro!: emits emits_in_workspace split: option.splits)
  hence e: "emits over_ssh (handle_workspace E conn grant req)"
    by (intro emits_handle) (use assms(1,2) emits_remote[of over_ssh] in auto)
  thus ?thesis using emitsD[OF e assms(3)] by blast
qed

section \<open>Commands\<close>

fun runs_command :: "os_call \<Rightarrow> bool" where
  "runs_command (OsShell cwd command t) = True"
| "runs_command (SshExec command cwd t) = True"
| "runs_command call = False"

fun command_of :: "os_call \<Rightarrow> string" where
  "command_of (OsShell cwd command t) = command"
| "command_of (SshExec command cwd t) = command"
| "command_of call = []"

fun time_limit :: "os_call \<Rightarrow> int" where
  "time_limit (OsShell cwd command t) = sint t div 1000000"
| "time_limit (SshExec command cwd t) = t"
| "time_limit call = 0"

lemma emits_file_actions:
  assumes "\<And>c. \<not> runs_command c \<Longrightarrow> P c"
  shows "emits P (read_local E ws rq)" "emits P (write_local E ws wq body)"
    "emits P (patch_local E ws pq)" "emits P (delete_local E ws dq)"
    "emits P (move_local E ws mq)" "emits P (prepare_stream_local E ws sq)"
proof -
  have "lets_check P" using assms by (simp add: lets_check_def)
  thus "emits P (read_local E ws rq)" "emits P (write_local E ws wq body)"
    "emits P (patch_local E ws pq)" "emits P (delete_local E ws dq)"
    "emits P (move_local E ws mq)" "emits P (prepare_stream_local E ws sq)"
    unfolding read_local_def write_local_def patch_local_def delete_local_def move_local_def prepare_stream_local_def Let_def
    by (auto intro!: emits assms split: sum.splits prod.splits)
qed

lemma exec_timeout_bounds:
  "sint (exec_timeout ms) \<le> 120 * 1000000000"
proof -
  have "sint exec_max_timeout = 120 * 1000000000" "sint exec_default_timeout = 60 * 1000000000"
    by (simp_all add: exec_max_timeout_def exec_default_timeout_def)
  thus ?thesis by (auto simp: exec_timeout_def Let_def word_sle_eq word_sless_alt)
qed

lemma trusted_policy: "enforce_exec_policy policy command cwd = None \<longleftrightarrow> policy = ''trusted''"
  by (simp add: enforce_exec_policy_def Let_def)

text \<open>
  C29: A command runs only for a request to run exactly that command, only if the policy of the
  controller's grant is blank or \<open>trusted\<close>, and with a time limit of at most two minutes. No other
  workspace action runs one.
\<close>

theorem commands_need_policy:
  assumes "handle_workspace E conn grant req calls = (r, calls')" and "c \<in> set (drop (length calls) calls')" and "runs_command c"
  shows "\<exists>q. req = ParamsExec q \<and> effective_policy (tg_exec_policy grant) = ''trusted'' \<and>
    command_of c = trim_space (xq_command q) \<and> command_of c \<noteq> [] \<and> time_limit c \<le> 120000"
proof -
  define P where "P c \<longleftrightarrow> (runs_command c \<longrightarrow> (\<exists>q. req = ParamsExec q \<and> effective_policy (tg_exec_policy grant) = ''trusted'' \<and>
    command_of c = trim_space (xq_command q) \<and> command_of c \<noteq> [] \<and> time_limit c \<le> 120000))" for c
  have quiet: "\<And>c. \<not> runs_command c \<Longrightarrow> P c" by (simp add: P_def)
  have check: "lets_check P" by (simp add: lets_check_def P_def)
  have "emits P (execute_command E (tg_exec_policy grant) q)" if req: "req = ParamsExec q" for q
  proof -
    have bound: "sint (exec_timeout (xq_timeout q)) div 1000000 \<le> 120000" "timeout_ms (exec_timeout (xq_timeout q)) \<le> 120000"
      using exec_timeout_bounds[of "xq_timeout q"] by (auto simp: timeout_ms_def)
    show ?thesis
      unfolding execute_command_def exec_local_def exec_remote_def Let_def
      using check bound req
      by (auto simp: trusted_policy P_def intro!: emits split: option.splits prod.splits)
  qed
  hence e: "emits P (handle_workspace E conn grant req)"
    by (intro emits_handle) (use emits_file_actions[of P] emits_remote[of P] quiet in auto)
  show ?thesis using emitsD[OF e assms(1)] assms(2,3) by (auto simp: P_def list_all_iff)
qed

section \<open>Symbolic links\<close>

text \<open>
  While a request is served the links of the file system do not change: \<open>L\<close> is \<open>Lstat\<close> and \<open>V\<close> is
  \<open>EvalSymlinks\<close>.
\<close>

definition static_links :: "ws_env \<Rightarrow> (string \<Rightarrow> os_error + file_info) \<Rightarrow> (string \<Rightarrow> string + string) \<Rightarrow> bool" where
  "static_links E L V \<longleftrightarrow> we_lstat E = (\<lambda>_. L) \<and> we_eval E = (\<lambda>_. V)"

definition really_inside :: "(string \<Rightarrow> string + string) \<Rightarrow> string \<Rightarrow> string \<Rightarrow> bool" where
  "really_inside V root p \<longleftrightarrow> ensure_existing_path V root p = None"

definition absent :: "(string \<Rightarrow> os_error + file_info) \<Rightarrow> string \<Rightarrow> bool" where
  "absent L p = (case L p of Inl e \<Rightarrow> oe_absent e | Inr info \<Rightarrow> False)"

text \<open>The deepest existing directory above the last component of a path is really inside the root.\<close>

definition deepest_inside ::
  "(string \<Rightarrow> os_error + file_info) \<Rightarrow> (string \<Rightarrow> string + string) \<Rightarrow> string \<Rightarrow> string list \<Rightarrow> bool" where
  "deepest_inside L V root cs \<longleftrightarrow>
     (\<exists>as bs. cs = as @ bs \<and> \<not> is_error (L (path_string True as)) \<and> really_inside V root (path_string True as) \<and>
        (\<forall>i < length bs. absent L (path_string True (as @ take (Suc i) bs))))"

lemma ensure_existing_static:
  assumes "static_links E L V" shows "yields (\<lambda>_. really_inside V root p) (ensure_existing E root p)"
  using assms
  by (auto simp: yields_def ensure_existing_def chain_def sys_eval_def ask_def of_sum_def give_def refuse_def
      static_links_def really_inside_def ensure_existing_path_def split: sum.splits if_splits)

lemma yields_chain: "(\<And>x. yields Q (f x)) \<Longrightarrow> yields Q (chain p f)"
  by (auto simp: yields_def chain_def split: prod.splits sum.splits)

lemma yields_chain_value: "yields R p \<Longrightarrow> (\<And>x. R x \<Longrightarrow> yields Q (f x)) \<Longrightarrow> yields Q (chain p f)"
  by (auto simp: yields_def chain_def split: prod.splits sum.splits) (metis fst_conv)

lemma yields_give: "Q x \<Longrightarrow> yields Q (give x)"
  by (simp add: yields_def give_def)

lemma yields_refuse: "yields Q (refuse e)"
  by (simp add: yields_def refuse_def)

lemma yields_conj: "yields P p \<Longrightarrow> yields Q p \<Longrightarrow> yields (\<lambda>x. P x \<and> Q x) p"
  by (simp add: yields_def)

lemma lstat_static: "static_links E L V \<Longrightarrow> yields (\<lambda>r. r = L p) (sys_lstat E p)"
  by (simp add: yields_def sys_lstat_def ask_def static_links_def)

lemma join_snoc: "cs \<noteq> [] \<Longrightarrow> join_with sep (cs @ [c]) = join_with sep cs @ sep @ c"
  by (induction sep cs rule: join_with.induct) simp_all

lemma path_dir_snoc:
  assumes "list_all normal (cs @ [c])" shows "path_dir (path_string True (cs @ [c])) = path_string True cs"
proof -
  let ?q = "if cs = [] then [] else path_string True cs"
  have s: "path_string True (cs @ [c]) = ?q @ CHR ''/'' # c"
    by (simp add: path_string_def join_snoc)
  have "CHR ''/'' \<notin> set c" using assms by (simp add: normal_def)
  hence d: "rev (dropWhile (\<lambda>c. c \<noteq> CHR ''/'') (rev (?q @ CHR ''/'' # c))) = ?q @ ''/''"
    by (simp add: dropWhile_append3 dropWhile_append)
  have "path_clean (?q @ ''/'') = path_string True cs"
  proof (cases "cs = []")
    case True
    thus ?thesis using path_clean_string[of "[]"] by (simp add: path_string_def)
  next
    case False
    moreover have "path_string True cs \<noteq> []" by (simp add: path_string_def)
    ultimately show ?thesis using assms path_clean_slash by simp
  qed
  thus ?thesis unfolding path_dir_def s d .
qed

lemma path_dir_root: "path_dir ''/'' = ''/''"
  using path_clean_string[of "[]"] by (simp add: path_dir_def path_string_def)

lemma path_dir_string: "list_all normal cs \<Longrightarrow> path_dir (path_string True cs) = path_string True (butlast cs)"
proof (cases cs rule: rev_cases)
  case Nil
  have "path_string True [] = ''/''" by (simp add: path_string_def)
  thus ?thesis using Nil path_dir_root by simp
qed (simp add: path_dir_snoc)

lemma ensure_ancestor_static:
  assumes st: "static_links E L V"
  shows "list_all normal cs \<Longrightarrow> yields (\<lambda>_. deepest_inside L V root cs) (ensure_ancestor E root (path_string True cs))"
proof (induction cs rule: rev_induct)
  case Nil
  have d: "path_dir (path_string True []) = path_string True []" by (simp add: path_string_def path_dir_root)
  have "really_inside V root (path_string True []) \<Longrightarrow> L (path_string True []) = Inr info \<Longrightarrow> deepest_inside L V root []" for info
    by (auto simp: deepest_inside_def)
  thus ?case
    using ensure_existing_static[OF st, of root "path_string True []"]
    by (subst ensure_ancestor.simps)
      (auto simp: d intro!: yields_chain_value[OF lstat_static[OF st]] yields_refuse elim!: yields_mono split: sum.splits)
next
  case (snoc c cs)
  let ?p = "path_string True (cs @ [c])"
  have d: "path_dir ?p = path_string True cs" using path_dir_snoc[OF snoc(2)] .
  have here: "deepest_inside L V root (cs @ [c])" if "really_inside V root ?p" "L ?p = Inr info" for info
    using that unfolding deepest_inside_def by (intro exI[of _ "cs @ [c]"] exI[of _ "[]"]) simp
  have up: "deepest_inside L V root (cs @ [c])" if up: "deepest_inside L V root cs" "L ?p = Inl e" "oe_absent e" for e
  proof -
    obtain as bs where a: "cs = as @ bs" "\<not> is_error (L (path_string True as))" "really_inside V root (path_string True as)"
        "\<forall>i < length bs. absent L (path_string True (as @ take (Suc i) bs))"
      using up(1) unfolding deepest_inside_def by blast
    have "absent L (path_string True (as @ take (Suc i) (bs @ [c])))" if "i < Suc (length bs)" for i
      using a(1,4) up(2,3) that by (cases "i = length bs") (auto simp: absent_def)
    thus ?thesis using a unfolding deepest_inside_def by (intro exI[of _ as] exI[of _ "bs @ [c]"]) auto
  qed
  have ih: "yields (\<lambda>_. deepest_inside L V root cs) (ensure_ancestor E root (path_string True cs))" using snoc by simp
  show ?case
    using ensure_existing_static[OF st, of root ?p] ih
    by (subst ensure_ancestor.simps)
      (auto simp: d intro: here up intro!: yields_chain_value[OF lstat_static[OF st]] yields_refuse elim!: yields_mono split: sum.splits)
qed

text \<open>What a change of the file system is checked for.\<close>

definition parent_inside :: "(string \<Rightarrow> os_error + file_info) \<Rightarrow> (string \<Rightarrow> string + string) \<Rightarrow> string \<Rightarrow> string \<Rightarrow> bool" where
  "parent_inside L V root p \<longleftrightarrow> deepest_inside L V root (butlast (comps p))"

fun link_safe :: "(string \<Rightarrow> os_error + file_info) \<Rightarrow> (string \<Rightarrow> string + string) \<Rightarrow> string \<Rightarrow> os_call \<Rightarrow> bool" where
  "link_safe L V root (OsWriteFile p body) = (really_inside V root p \<or> (parent_inside L V root p \<and> absent L p))"
| "link_safe L V root (OsRemove p) = parent_inside L V root p"
| "link_safe L V root (OsRemoveAll p) = parent_inside L V root p"
| "link_safe L V root (OsRename p q) = (parent_inside L V root p \<and> parent_inside L V root q)"
| "link_safe L V root (OsMkdirAll p) = deepest_inside L V root (comps p)"
| "link_safe L V root (OsStat p) = really_inside V root p"
| "link_safe L V root (OsReadFile p) = really_inside V root p"
| "link_safe L V root (OsReadDir p) = really_inside V root p"
| "link_safe L V root (OsShell cwd command t) = really_inside V root cwd"
| "link_safe L V root call = True"

lemma resolve_local_clean:
  assumes "is_abs (aw_cwd ws)"
  shows "yields (\<lambda>(target, rel). \<exists>cs. list_all normal cs \<and> target = path_string True cs) (resolve_local ws path)"
proof -
  have "\<exists>cs. list_all normal cs \<and> t = path_string True cs"
    if r: "resolve_workspace_path (local_root ws) path = Inr (t, rel)" for t rel
  proof -
    have root: "is_abs (local_root ws)" using assms by (simp add: local_root_def is_abs_clean)
    obtain cs where "list_all normal cs" "t = path_string True (comps (local_root ws) @ cs)"
      using resolved_inside[OF root r] by blast
    thus ?thesis using comps_normal[OF root] by (intro exI[of _ "comps (local_root ws) @ cs"]) simp
  qed
  thus ?thesis unfolding resolve_local_def by (intro yields_mono[OF yields_of_sum]) auto
qed

lemma ensure_parent_static:
  assumes "static_links E L V" "list_all normal cs"
  shows "yields (\<lambda>_. parent_inside L V root (path_string True cs)) (ensure_parent E root (path_string True cs))"
proof -
  have "list_all normal (butlast cs)" using assms(2) by (auto simp: list_all_iff dest: in_set_butlastD)
  thus ?thesis using ensure_ancestor_static[OF assms(1), of "butlast cs" root] assms(2)
    by (simp add: ensure_parent_def path_dir_string parent_inside_def)
qed

lemma parent_comps: "list_all normal cs \<Longrightarrow> comps (path_dir (path_string True cs)) = butlast cs"
proof -
  assume cs: "list_all normal cs"
  then have "list_all normal (butlast cs)" by (auto simp: list_all_iff dest: in_set_butlastD)
  then show ?thesis using cs by (simp add: path_dir_string)
qed

lemma parents_made_inside:
  "parent_inside L V root (path_string True cs) \<Longrightarrow> list_all normal cs \<Longrightarrow>
     link_safe L V root (OsMkdirAll (path_dir (path_string True cs)))"
  by (simp add: parent_inside_def parent_comps)

lemma ensure_write_static:
  assumes st: "static_links E L V" "list_all normal cs"
  shows "yields (\<lambda>_. link_safe L V root (OsWriteFile (path_string True cs) body) \<and>
      parent_inside L V root (path_string True cs)) (ensure_write_path E root (path_string True cs))"
proof -
  let ?p = "path_string True cs"
  show ?thesis unfolding ensure_write_path_def
    by (rule yields_chain_value[OF ensure_parent_static[OF st]], rule yields_chain_value[OF lstat_static[OF st(1)]])
      (auto simp: absent_def intro!: yields_give yields_refuse yields_mono[OF ensure_existing_static[OF st(1)]] split: sum.splits)
qed

lemma lets_check_link_safe [emits]: "lets_check (link_safe L V root)"
  by (simp add: lets_check_def)

lemma emits_resolved_clean:
  assumes "is_abs (aw_cwd ws)"
    and "\<And>cs rel. list_all normal cs \<Longrightarrow> emits P (f (path_string True cs, rel))"
  shows "emits P (chain (resolve_local ws path) f)"
  by (rule emits_chain_value[OF emits_resolve resolve_local_clean[OF assms(1)]]) (use assms(2) in auto)

lemma link_safe_local:
  assumes st: "static_links E L V" and root: "is_abs (aw_cwd ws)"
  shows "emits (link_safe L V (local_root ws)) (read_local E ws rq)" "emits (link_safe L V (local_root ws)) (write_local E ws wq body)"
    "emits (link_safe L V (local_root ws)) (patch_local E ws pq)" "emits (link_safe L V (local_root ws)) (delete_local E ws dq)"
    "emits (link_safe L V (local_root ws)) (move_local E ws mq)" "emits (link_safe L V (local_root ws)) (prepare_stream_local E ws sq)"
    "emits (link_safe L V (local_root ws)) (exec_local E ws command cwd0 t policy)"
  unfolding read_local_def write_local_def patch_local_def delete_local_def move_local_def prepare_stream_local_def
    exec_local_def Let_def
  by (auto simp: parents_made_inside simp del: link_safe.simps(5) intro!: emits emits_resolved_clean[OF root]
      emits_chain_value[OF emits_ensure[OF lets_check_link_safe] ensure_existing_static[OF st]]
      emits_chain_value[OF emits_parent[OF lets_check_link_safe] ensure_parent_static[OF st]]
      emits_chain_value[OF emits_write_path[OF lets_check_link_safe] ensure_write_static[OF st]]
      split: sum.splits prod.splits)

text \<open>
  C28: In a local workspace (SSH workspaces have no such checks: links on the remote side are followed), if what
  \<open>Lstat\<close> and \<open>EvalSymlinks\<close> answer does not change while a request is served, then every path that is read, listed
  or used as a command's directory really lies inside the real root; so does every file that is
  written, unless it does not exist yet; and for a new file, for new directories and for whatever is
  removed or renamed, the deepest existing directory on the way really lies inside, and
  everything below it on the way does not exist yet.
\<close>

theorem links_stay_inside:
  assumes "we_workspace E (trim_space (request_workspace req)) = Some ws" and "aw_target ws \<noteq> ''ssh''" and "is_abs (aw_cwd ws)"
    and "static_links E L V" and "handle_workspace E conn grant req calls = (r, calls')"
  shows "\<exists>new. calls' = calls @ new \<and> list_all (link_safe L V (path_clean (aw_cwd ws))) new"
proof -
  have "emits (link_safe L V (local_root ws)) (execute_command E (tg_exec_policy grant) q)" if "req = ParamsExec q" for q
    unfolding execute_command_def Let_def
    using that assms(1,2) link_safe_local(7)[OF assms(4,3)]
    by (auto intro!: emits emits_in_workspace split: option.splits)
  hence e: "emits (link_safe L V (local_root ws)) (handle_workspace E conn grant req)"
    by (intro emits_handle) (use assms(1,2) link_safe_local[OF assms(4,3)] in auto)
  thus ?thesis using emitsD[OF e assms(5)] by (simp add: local_root_def)
qed

section \<open>The length of the search\<close>

definition costs :: "nat \<Rightarrow> 'a prog \<Rightarrow> bool" where
  "costs n p \<longleftrightarrow> (\<forall>calls. length (snd (p calls)) \<le> length calls + n)"

lemma costs_chain:
  assumes "costs m p" "\<And>x. costs n (f x)" shows "costs (m + n) (chain p f)"
  unfolding costs_def
proof
  fix calls
  obtain r calls1 where p: "p calls = (r, calls1)" by fastforce
  hence l: "length calls1 \<le> length calls + m" using assms(1) unfolding costs_def by (metis snd_conv)
  show "length (snd (chain p f calls)) \<le> length calls + (m + n)"
  proof (cases r)
    case (Inr x)
    have "length (snd (f x calls1)) \<le> length calls1 + n" using assms(2) by (simp add: costs_def)
    hence "length (snd (f x calls1)) \<le> length calls + (m + n)" using l by linarith
    thus ?thesis using p Inr by (simp add: chain_def)
  qed (use p l in \<open>simp add: chain_def\<close>)
qed

lemma costs_simple: "costs 0 (give x)" "costs 0 (refuse e)" "costs (Suc 0) (ask a c)" "costs 0 (of_sum err r)"
  by (auto simp: costs_def give_def refuse_def ask_def of_sum_def split: sum.splits)

lemma costs_mono: "costs m p \<Longrightarrow> m \<le> n \<Longrightarrow> costs n p"
  unfolding costs_def by (meson add_left_mono le_trans)

lemma costs_existing: "costs 2 (ensure_existing E root p)"
  unfolding ensure_existing_def sys_eval_def
  by (rule costs_mono[OF costs_chain[where m = "Suc 0" and n = 1]])
    (auto intro!: costs_mono[OF costs_chain[where m = "Suc 0" and n = 0]] costs_simple)

lemma costs_ancestor: "list_all normal cs \<Longrightarrow> costs (length cs + 3) (ensure_ancestor E root (path_string True cs))"
proof (induction cs rule: rev_induct)
  case Nil
  have d: "path_dir (path_string True []) = path_string True []" by (simp add: path_string_def path_dir_root)
  show ?case
    by (subst ensure_ancestor.simps, rule costs_mono[OF costs_chain[where m = "Suc 0" and n = 2]])
      (auto simp: d sys_lstat_def intro: costs_simple costs_existing costs_mono[OF costs_simple(2)] split: sum.splits)
next
  case (snoc c cs)
  show ?case
    by (subst ensure_ancestor.simps, rule costs_mono[OF costs_chain[where m = "Suc 0" and n = "length cs + 3"]])
      (use snoc path_dir_snoc[OF snoc(2)] in \<open>auto simp: sys_lstat_def intro: costs_simple costs_mono[OF costs_existing]
        costs_mono[OF costs_simple(2)] split: sum.splits\<close>)
qed

text \<open>
  The search for an existing ancestor ends whatever the file system answers, after at most one call
  for each directory above the path and two to resolve links.
\<close>

theorem ancestor_search_ends:
  assumes "is_abs (aw_cwd ws)" and "resolve_workspace_path (aw_cwd ws) query = Inr (target, rel)"
  shows "length (snd (ensure_parent E root target calls)) \<le> length calls + length (comps target) + 3"
proof -
  obtain ds where ds: "list_all normal ds" "target = path_string True (comps (aw_cwd ws) @ ds)"
    using resolved_inside[OF assms] by blast
  define cs where "cs = comps (aw_cwd ws) @ ds"
  have cs: "list_all normal cs" "target = path_string True cs"
    using ds comps_normal[OF assms(1)] by (simp_all add: cs_def)
  have "list_all normal (butlast cs)" using cs(1) by (auto simp: list_all_iff dest: in_set_butlastD)
  thus ?thesis using costs_ancestor[of "butlast cs" E root] cs
    by (auto simp: costs_def ensure_parent_def path_dir_string intro: le_trans)
qed

section \<open>What is read and written\<close>

lemma yields_if: "(c \<Longrightarrow> yields Q a) \<Longrightarrow> (\<not> c \<Longrightarrow> yields Q b) \<Longrightarrow> yields Q (if c then a else b)"
  by simp

lemmas yields_rules = yields_chain yields_give yields_refuse yields_if

lemma yields_bytes: "yields (\<lambda>body. int (length body) \<le> read_max_bytes n) (read_file_bytes E p info n)"
  by (auto simp: read_file_bytes_def Let_def intro!: yields_rules)

lemma limit_entries_length: "limit_entries lower es = (out, truncated) \<Longrightarrow> length out \<le> 300"
  by (auto simp: limit_entries_def entry_limit_def Let_def split: if_splits)

lemma yields_entries:
  "yields (\<lambda>(out, truncated). length out \<le> 300) (local_entries E t rel)"
  "yields (\<lambda>(out, truncated). length out \<le> 300) (remote_entries E root t)"
  unfolding local_entries_def remote_entries_def
  by (auto intro!: yields_rules split: prod.splits dest: limit_entries_length)

definition bounded_result :: "int \<Rightarrow> read_result \<Rightarrow> bool" where
  "bounded_result limit r \<longleftrightarrow> (\<exists>body. std_decode (rr_base64 r) = Some body \<and> int (length body) \<le> limit) \<and> length (rr_entries r) \<le> 300"

lemma bounded_body: "int (length body) \<le> limit \<Longrightarrow> rr_base64 r = std_encode body \<Longrightarrow> rr_entries r = [] \<Longrightarrow> bounded_result limit r"
  by (simp add: bounded_result_def std_roundtrip)

lemma bounded_listing: "length (rr_entries r) \<le> 300 \<Longrightarrow> 0 \<le> limit \<Longrightarrow> rr_base64 r = [] \<Longrightarrow> bounded_result limit r"
proof -
  have "std_decode [] = Some []" by (metis std_roundtrip std_encode_Nil_iff)
  thus "length (rr_entries r) \<le> 300 \<Longrightarrow> 0 \<le> limit \<Longrightarrow> rr_base64 r = [] \<Longrightarrow> bounded_result limit r"
    by (simp add: bounded_result_def)
qed

lemma read_max_bounds: "0 \<le> read_max_bytes n" "read_max_bytes n \<le> 25 * 1024 * 1024"
  by (simp_all add: read_max_bytes_def file_default_max_def file_hard_max_def)

lemma read_bounded_local: "yields (bounded_result (read_max_bytes (rq_max_bytes q))) (read_local E ws q)"
  unfolding read_local_def Let_def
  by (auto intro!: yields_chain yields_refuse yields_if yields_give yields_chain_value[OF yields_entries(1)]
      yields_chain_value[OF yields_bytes] intro: bounded_body bounded_listing read_max_bounds simp: not_less split: prod.splits)

lemma read_bounded_remote: "yields (bounded_result (read_max_bytes (rq_max_bytes q))) (read_remote E ws q)"
  unfolding read_remote_def Let_def
  by (auto intro!: yields_chain yields_refuse yields_if yields_give yields_chain_value[OF yields_entries(2)]
      intro: bounded_body bounded_listing read_max_bounds simp: not_less split: prod.splits)

text \<open>
  C32: A read never returns more than it was asked for, nor more than 25 MiB, and a listing at most 300
  entries, whatever the file grows to and whatever a remote host sends.
\<close>

theorem read_bounded:
  assumes "read_files E q calls = (Inr r, calls')"
  shows "\<exists>body. std_decode (rr_base64 r) = Some body \<and> int (length body) \<le> read_max_bytes (rq_max_bytes q) \<and>
    int (length body) \<le> 25 * 1024 * 1024 \<and> length (rr_entries r) \<le> 300"
proof -
  have "yields (bounded_result (read_max_bytes (rq_max_bytes q))) (read_files E q)"
    unfolding read_files_def by (auto intro!: yields_chain yields_if read_bounded_local read_bounded_remote)
  hence "bounded_result (read_max_bytes (rq_max_bytes q)) r" using assms unfolding yields_def by (metis fst_conv)
  thus ?thesis using read_max_bounds(2)[of "rq_max_bytes q"] by (force simp: bounded_result_def)
qed

lemma chain_Inr: "fst (chain p f calls) = Inr y \<Longrightarrow> \<exists>x calls1. p calls = (Inr x, calls1) \<and> chain p f calls = f x calls1"
  by (auto simp: chain_def split: prod.splits sum.splits)

section \<open>What a patch writes\<close>

text \<open>Calls that change nothing; \<open>edited\<close> is the outcome of the edits of a request on what was read.\<close>

fun looks :: "os_call \<Rightarrow> bool" where
  "looks (OsStat p) = True"
| "looks (OsLstat p) = True"
| "looks (OsEval p) = True"
| "looks (OsReadFile p) = True"
| "looks (SshCall method args) = (method = ''read'')"
| "looks call = False"

definition edited :: "patch_params \<Rightarrow> string \<Rightarrow> string \<Rightarrow> bool" where
  "edited q body result \<longleftrightarrow> (\<exists>n. apply_text_edits body (pq_edits q) = Inr (result, n) \<and> length (pq_edits q) \<le> n)"

definition patched_local :: "ws_env \<Rightarrow> patch_params \<Rightarrow> os_call list \<Rightarrow> os_call list \<Rightarrow> bool" where
  "patched_local E q calls calls' \<longleftrightarrow> (\<exists>seen target body result.
     we_read_file E (calls @ seen) target = Inr body \<and> edited q body result \<and> list_all looks seen \<and>
     calls' = calls @ seen @ [OsReadFile target, OsWriteFile target result])"

definition patched_remote :: "ws_env \<Rightarrow> patch_params \<Rightarrow> os_call list \<Rightarrow> os_call list \<Rightarrow> bool" where
  "patched_remote E q calls calls' \<longleftrightarrow> (\<exists>target out body result.
     we_ssh E calls (SshCall ''read'' (path_arg target)) = Inr out \<and> remote_read_bytes (map_value out) = Inr body \<and>
     edited q body result \<and>
     calls' = calls @ [SshCall ''read'' (path_arg target), SshCall ''write'' (remote_write_params target result)])"

definition patch_outcome :: "ws_env \<Rightarrow> patch_params \<Rightarrow> os_call list \<Rightarrow> (go_error + 'a) \<times> os_call list \<Rightarrow> bool" where
  "patch_outcome E q calls out \<longleftrightarrow>
     (\<exists>seen. snd out = calls @ seen \<and> list_all looks seen \<and> is_error (fst out)) \<or>
     patched_local E q calls (snd out) \<or> patched_remote E q calls (snd out)"

text \<open>A program that patches, whatever was only looked at before it runs.\<close>

definition patches :: "ws_env \<Rightarrow> patch_params \<Rightarrow> 'a prog \<Rightarrow> bool" where
  "patches E q p \<longleftrightarrow> (\<forall>calls seen. list_all looks seen \<longrightarrow> patch_outcome E q calls (p (calls @ seen)))"

lemma lets_check_looks [emits]: "lets_check looks"
  by (simp add: lets_check_def)

lemma patches_chain:
  assumes "emits looks p" "\<And>x. patches E q (f x)" shows "patches E q (chain p f)"
  unfolding patches_def
proof (intro allI impI)
  fix calls seen assume seen: "list_all looks seen"
  obtain r new where p: "p (calls @ seen) = (r, calls @ seen @ new)" "list_all looks new"
    using assms(1) unfolding emits_def by (metis append.assoc prod.collapse)
  then show "patch_outcome E q calls (chain p f (calls @ seen))"
  proof (cases r)
    case (Inl e)
    then show ?thesis using p seen by (auto simp: chain_def patch_outcome_def is_error_def)
  next
    case (Inr x)
    have "list_all looks (seen @ new)" using p seen by simp
    then have "patch_outcome E q calls (f x (calls @ seen @ new))"
      using assms(2)[of x] unfolding patches_def by blast
    then show ?thesis using p Inr by (simp add: chain_def)
  qed
qed

lemma patches_refuse: "patches E q (refuse e)"
  by (auto simp: patches_def patch_outcome_def refuse_def is_error_def)

lemma looked: "list_all looks seen \<Longrightarrow> patch_outcome E q calls (Inl e, calls @ seen)"
  by (auto simp: patch_outcome_def is_error_def)

text \<open>Reading, editing and writing, on both sides.\<close>

lemma read_edit_write_local:
  assumes "pq_edits q \<noteq> []"
  shows "patches E q (chain (read_file_bytes E target info k) (\<lambda>body.
    chain (of_sum id (apply_text_edits body (pq_edits q))) (\<lambda>(next, applied).
    chain (sys_effect E code (OsWriteFile target next)) (\<lambda>_. give (f body next applied)))))" (is "patches E q ?p")
  unfolding patches_def
proof (intro allI impI)
  fix calls seen assume seen: "list_all looks seen"
  note ev = chain_def ask_def of_sum_def give_def refuse_def sys_effect_def read_file_bytes_def Let_def
  let ?read = "we_read_file E (calls @ seen) target"
  have read: "list_all looks (seen @ [OsReadFile target])" using seen by simp
  show "patch_outcome E q calls (?p (calls @ seen))"
  proof (cases "\<exists>body next n. ?read = Inr body \<and> apply_text_edits body (pq_edits q) = Inr (next, n)
      \<and> \<not> fi_size info > read_max_bytes k \<and> \<not> int (length body) > read_max_bytes k")
    case True
    then obtain body "next" n where ok: "?read = Inr body" "apply_text_edits body (pq_edits q) = Inr (next, n)"
      "\<not> fi_size info > read_max_bytes k" "\<not> int (length body) > read_max_bytes k" by blast
    have "edited q body next" using ok(2) edits_bounded[OF ok(2) assms] by (auto simp: edited_def)
    moreover have "snd (?p (calls @ seen)) = calls @ seen @ [OsReadFile target, OsWriteFile target next]"
      using ok by (simp add: ev split: option.split)
    ultimately show ?thesis
      using ok(1) seen unfolding patch_outcome_def patched_local_def by blast
  next
    case False
    then have "\<exists>e. ?p (calls @ seen) = (Inl e, calls @ seen) \<or> ?p (calls @ seen) = (Inl e, calls @ seen @ [OsReadFile target])"
      by (auto simp: ev split: sum.splits)
    then show ?thesis using looked[OF seen] looked[OF read] by auto
  qed
qed

lemma read_edit_write_remote:
  assumes "pq_edits q \<noteq> []"
  shows "patch_outcome E q calls (chain (ssh_call E st1 code1 ''read'' (path_arg target)) (\<lambda>out.
    chain (of_sum err (remote_read_bytes (map_value out))) (\<lambda>body.
    if int (length body) > limit then refuse large
    else chain (of_sum id (apply_text_edits body (pq_edits q))) (\<lambda>(next, applied).
    chain (ssh_call E st2 code2 ''write'' (remote_write_params target next)) (\<lambda>_. give (f body next applied))))) calls)"
    (is "patch_outcome E q calls (?p calls)")
proof -
  note ev = chain_def ask_def of_sum_def give_def refuse_def ssh_call_def
  let ?call = "SshCall ''read'' (path_arg target)"
  show ?thesis
  proof (cases "\<exists>out body next n. we_ssh E calls ?call = Inr out \<and> remote_read_bytes (map_value out) = Inr body
      \<and> \<not> int (length body) > limit \<and> apply_text_edits body (pq_edits q) = Inr (next, n)")
    case True
    then obtain out body "next" n where ok: "we_ssh E calls ?call = Inr out" "remote_read_bytes (map_value out) = Inr body"
      "\<not> int (length body) > limit" "apply_text_edits body (pq_edits q) = Inr (next, n)" by blast
    have "edited q body next" using ok(4) edits_bounded[OF ok(4) assms] by (auto simp: edited_def)
    moreover have "snd (?p calls) = calls @ [?call, SshCall ''write'' (remote_write_params target next)]"
      using ok by (simp add: ev split: sum.split)
    ultimately show ?thesis
      using ok(1,2) unfolding patch_outcome_def patched_remote_def by blast
  next
    case False
    then have "\<exists>e. ?p calls = (Inl e, calls @ [?call])"
      by (auto simp: ev split: sum.splits)
    then show ?thesis using looked[of "[?call]"] by auto
  qed
qed

lemma outcome_silent:
  assumes "snd (p calls) = calls" "\<And>x. patch_outcome E q calls (f x calls)"
  shows "patch_outcome E q calls (chain p f calls)"
proof -
  obtain r where p: "p calls = (r, calls)" using assms(1) by (metis prod.collapse)
  show ?thesis
    using p assms(2) looked[of "[]" E q calls] by (cases r) (auto simp: chain_def)
qed

lemma silent:
  "snd (of_sum err r calls) = calls" "snd (control_workspace E wid calls) = calls" "snd (need_path path calls) = calls"
  "snd (remote_root E ws calls) = calls" "snd (resolve_remote E ws path calls) = calls"
  by (auto simp: of_sum_def control_workspace_def need_path_def remote_root_def resolve_remote_def chain_def give_def
      refuse_def split: sum.split option.split)

lemma patch_local_outcome: "pq_edits q \<noteq> [] \<Longrightarrow> patch_outcome E q calls (patch_local E ws q calls)"
proof -
  assume edits: "pq_edits q \<noteq> []"
  have "patches E q (patch_local E ws q)"
    unfolding patch_local_def
    by (auto intro!: patches_chain emits patches_refuse read_edit_write_local[OF edits] split: prod.splits)
  then show ?thesis unfolding patches_def by (metis append_Nil2 list.pred_inject(1))
qed

lemma patch_remote_outcome: "pq_edits q \<noteq> [] \<Longrightarrow> patch_outcome E q calls (patch_remote E ws q calls)"
  unfolding patch_remote_def
  by (rule outcome_silent[OF silent(5)]) (auto simp only: split_paired_All split: prod.splits intro: read_edit_write_remote)

text \<open>
  C30: What a patch does, in a local workspace and over SSH, whatever the outside answers and however it changes:
  either it only looks and fails, or it ends by reading one file and then writing that same file once,
  with exactly the requested edits applied to what that read returned, all of which fit; it calls nothing
  else that could change anything. So a patch that succeeds has written, and one with an edit that does not
  fit has written nothing.
\<close>

theorem patch_writes_edited:
  assumes "apply_patch E q calls = (r, calls')"
  shows "(is_error r \<and> (\<exists>seen. calls' = calls @ seen \<and> list_all looks seen)) \<or>
    (\<exists>seen target body result n. list_all looks seen \<and>
       apply_text_edits body (pq_edits q) = Inr (result, n) \<and> length (pq_edits q) \<le> n \<and>
       (we_read_file E (calls @ seen) target = Inr body \<and>
          calls' = calls @ seen @ [OsReadFile target, OsWriteFile target result] \<or>
        seen = [] \<and> (\<exists>out. we_ssh E calls (SshCall ''read'' (path_arg target)) = Inr out \<and>
          remote_read_bytes (map_value out) = Inr body \<and>
          calls' = calls @ [SshCall ''read'' (path_arg target), SshCall ''write'' (remote_write_params target result)])))"
proof -
  have "patch_outcome E q calls (apply_patch E q calls)"
    unfolding apply_patch_def
    using patch_local_outcome[of q E] patch_remote_outcome[of q E] looked[of "[]" E q calls]
    by (intro outcome_silent silent) (auto simp: refuse_def)
  then consider "is_error r" "\<exists>seen. calls' = calls @ seen \<and> list_all looks seen"
    | "patched_local E q calls calls'" | "patched_remote E q calls calls'"
    by (auto simp: assms patch_outcome_def)
  then show ?thesis
  proof cases
    case 2
    then show ?thesis unfolding patched_local_def edited_def by blast
  next
    case 3
    then show ?thesis unfolding patched_remote_def edited_def by (metis list.pred_inject(1))
  qed blast
qed

section \<open>What a command's output becomes\<close>

lemma buffer_write_prefix:
  assumes "xb_limit b = L" "0 < L" "xb_bytes b = take (nat L) acc" "xb_truncated b \<longleftrightarrow> int (length acc) > L"
  shows "xb_limit (buffer_write c b) = L \<and> xb_bytes (buffer_write c b) = take (nat L) (acc @ c) \<and>
    (xb_truncated (buffer_write c b) \<longleftrightarrow> int (length (acc @ c)) > L)"
  using assms by (auto simp: buffer_write_def Let_def min_def nat_le_iff le_nat_iff split: if_splits) (simp_all add: nat_diff_distrib')

lemma collect_prefix:
  "xb_limit b = L \<Longrightarrow> 0 < L \<Longrightarrow> xb_bytes b = take (nat L) acc \<Longrightarrow> xb_truncated b = (int (length acc) > L) \<Longrightarrow>
    xb_bytes (fold buffer_write cs b) = take (nat L) (acc @ concat cs) \<and>
    (xb_truncated (fold buffer_write cs b) \<longleftrightarrow> int (length (acc @ concat cs)) > L)"
proof (induction cs arbitrary: b acc)
  case (Cons c cs)
  show ?case using Cons.IH[of "buffer_write c b" "acc @ c"] buffer_write_prefix[OF Cons.prems, of c] Cons.prems(2) by simp
qed simp

text \<open>
  However a local command's output is cut into writes, the result holds its first MiB and says
  exactly if there was more: what \<open>truncateWorkspaceExecOutput\<close> makes of a remote command's output.
\<close>

theorem exec_output_exact:
  "(xb_bytes (collect chunks), xb_truncated (collect chunks)) = truncate_output (concat chunks)"
  using collect_prefix[of "\<lparr>xb_bytes = [], xb_limit = exec_output_max, xb_truncated = False\<rparr>" exec_output_max "[]" chunks]
  by (auto simp: collect_def truncate_output_def exec_output_max_def)

text \<open>A time limit above 2\<open>^63\<close> nanoseconds wraps to a negative one, so the command is killed at once.\<close>

theorem exec_timeout_wraps: "exec_timeout 9223372036855 <s 0"
  by (simp add: exec_timeout_def exec_max_timeout_def word_sless_alt word_sle_eq)

section \<open>Witnesses\<close>

definition demo_local :: agent_workspace where
  "demo_local = \<lparr>aw_id = ''w1'', aw_name = ''w'', aw_target = ''local'', aw_agent = [], aw_projection_root = [], aw_cwd = ''/w'',
     aw_ssh = None, aw_native_session = [], aw_native_thread = [], aw_created = [], aw_updated = []\<rparr>"

definition demo_ssh :: agent_workspace where
  "demo_ssh = demo_local\<lparr>aw_id := ''w2'', aw_target := ''ssh'', aw_ssh := Some \<lparr>sh_endpoint = ''h'', sh_port = 22, sh_cwd = ''/r''\<rparr>\<rparr>"

definition demo_lstat :: "string \<Rightarrow> os_error + file_info" where
  "demo_lstat p =
     (if p = ''/w'' then Inr \<lparr>fi_dir = True, fi_size = 0, fi_time = []\<rparr>
      else if p = ''/w/a'' \<or> p = ''/w/b'' then Inr \<lparr>fi_dir = False, fi_size = 5, fi_time = []\<rparr>
      else Inl \<lparr>oe_message = ''absent'', oe_absent = True\<rparr>)"

definition demo_env :: ws_env where
  "demo_env =
     \<lparr>we_workspace = (\<lambda>wid. if wid = ''w1'' then Some demo_local else if wid = ''w2'' then Some demo_ssh else None),
      we_has_ssh = True, we_has_exec = True, we_stat = (\<lambda>_. demo_lstat), we_lstat = (\<lambda>_. demo_lstat), we_eval = (\<lambda>_. Inr),
      we_read_file = (\<lambda>_ p. Inr ''hello''), we_read_dir = (\<lambda>_ p. Inr []),
      we_effect = (\<lambda>_ call. if call = OsRename ''/w/a'' ''/w/b'' then Some ''refused'' else None),
      we_shell = (\<lambda>_ call. \<lparr>xr_stdout = [''o'', ''k''], xr_stderr = [], xr_failed = None, xr_deadline = False, xr_duration = 1\<rparr>),
      we_ssh = (\<lambda>_ call. Inr AnyNil), we_mime = (\<lambda>p. []), we_detect = (\<lambda>b. ''text/plain''), we_lower = map lower_char, we_random = ''0''\<rparr>"

definition demo_exec_grant :: trust_grant where
  "demo_exec_grant = \<lparr>tg_host = [], tg_controller = ''c'', tg_name = [], tg_public_key = [], tg_fingerprint = [], tg_scope = [],
     tg_status = [], tg_capabilities = [], tg_exec_policy = ''trusted'', tg_created_at = [], tg_updated_at = [], tg_revoked_at = []\<rparr>"

text \<open>
  A move that may overwrite removes the destination before it renames: when the rename fails, the
  destination is gone and the source still where it was.
\<close>

definition demo_move :: move_params where
  "demo_move = \<lparr>mq_workspace = ''w1'', mq_path = ''a'', mq_destination = ''b'', mq_overwrite = True, mq_parents = Some False\<rparr>"

theorem failed_move_loses_destination:
  "fst (move_path demo_env demo_move []) = Inl (ActionError 400 ''workspace_file_move_failed'' ''refused'') \<and>
   drop 7 (snd (move_path demo_env demo_move [])) = [OsLstat ''/w/b'', OsRemove ''/w/b'', OsRename ''/w/a'' ''/w/b'']"
  by code_simp

definition demo_write :: write_params where
  "demo_write = \<lparr>wq_workspace = ''w1'', wq_path = ''d/c'', wq_content = ''x'', wq_base64 = [], wq_parents = None\<rparr>"

definition demo_patch :: patch_params where
  "demo_patch = \<lparr>pq_workspace = ''w1'', pq_path = ''a'', pq_edits = [\<lparr>te_old = ''ell'', te_new = ''o'', te_all = False\<rparr>]\<rparr>"

definition demo_exec :: exec_params where
  "demo_exec = \<lparr>xq_workspace = ''w1'', xq_command = ''ls'', xq_cwd = [], xq_timeout = 0\<rparr>"

definition demo_read :: read_params where
  "demo_read = \<lparr>rq_workspace = ''w1'', rq_path = ''a'', rq_mode = [], rq_max_bytes = 0\<rparr>"

definition demo_remote_delete :: delete_params where
  "demo_remote_delete = \<lparr>dq_workspace = ''w2'', dq_path = ''a'', dq_recursive = False, dq_force = True\<rparr>"

lemma demo_workspaces:
  "we_workspace demo_env (trim_space (request_workspace (ParamsWrite demo_write))) = Some demo_local"
  "we_workspace demo_env (trim_space (request_workspace (ParamsDelete demo_remote_delete))) = Some demo_ssh"
  "we_workspace demo_env (trim_space (pq_workspace demo_patch)) = Some demo_local"
  "aw_target demo_local \<noteq> ''ssh''" "aw_target demo_ssh = ''ssh''" "is_abs (aw_cwd demo_local)"
  by code_simp+

lemma demo_writes:
  "snd (handle_workspace demo_env True demo_exec_grant (ParamsWrite demo_write) []) =
     [OsLstat ''/w/d'', OsLstat ''/w'', OsEval ''/w'', OsEval ''/w'', OsLstat ''/w/d/c'', OsMkdirAll ''/w/d'', OsWriteFile ''/w/d/c'' ''x'']"
  by code_simp

lemmas prog_eval = chain_def ask_def give_def refuse_def of_sum_def sys_eval_def sys_stat_def sys_effect_def stat_file_def

lemma demo_checked:
  "ensure_existing demo_env (local_root demo_local) ''/w'' calls = (Inr (), calls @ [OsEval ''/w'', OsEval ''/w''])"
  "ensure_existing demo_env (local_root demo_local) ''/w/a'' calls = (Inr (), calls @ [OsEval ''/w'', OsEval ''/w/a''])"
proof -
  have d: "same_or_descendant (path_clean ''/w'') (path_clean ''/w'')" "same_or_descendant (path_clean ''/w'') (path_clean ''/w/a'')"
    and r: "local_root demo_local = ''/w''" and e: "we_eval demo_env = (\<lambda>_. Inr)"
    by (code_simp, code_simp, code_simp) (simp add: demo_env_def)
  show "ensure_existing demo_env (local_root demo_local) ''/w'' calls = (Inr (), calls @ [OsEval ''/w'', OsEval ''/w''])"
    "ensure_existing demo_env (local_root demo_local) ''/w/a'' calls = (Inr (), calls @ [OsEval ''/w'', OsEval ''/w/a''])"
    by (simp_all only: r ensure_existing_def) (simp_all add: prog_eval e d)
qed

lemma demo_found:
  "control_workspace demo_env ''w1'' = give demo_local" "resolve_local demo_local ''a'' = give (''/w/a'', ''a'')"
  "resolve_local demo_local [] = give (''/w'', [])" "aw_target demo_local = ''local''" "need_path ''a'' = give ()"
  "stat_file demo_env ''/w/a'' calls = (Inr \<lparr>fi_dir = False, fi_size = 5, fi_time = []\<rparr>, calls @ [OsStat ''/w/a''])"
  "read_file_bytes demo_env ''/w/a'' \<lparr>fi_dir = False, fi_size = 5, fi_time = []\<rparr> 0 calls = (Inr ''hello'', calls @ [OsReadFile ''/w/a''])"
proof -
  have "trim_space ''w1'' = ''w1''" "we_workspace demo_env ''w1'' = Some demo_local" "trim_space ''a'' = ''a''"
    and r: "resolve_workspace_path (local_root demo_local) ''a'' = Inr (''/w/a'', ''a'')"
      "resolve_workspace_path (local_root demo_local) [] = Inr (''/w'', [])"
    by code_simp+
  thus "control_workspace demo_env ''w1'' = give demo_local" "need_path ''a'' = give ()"
    by (simp_all add: control_workspace_def need_path_def)
  show "resolve_local demo_local ''a'' = give (''/w/a'', ''a'')" "resolve_local demo_local [] = give (''/w'', [])"
    by (simp_all add: resolve_local_def of_sum_def r)
  show "aw_target demo_local = ''local''" by (simp add: demo_local_def)
  show "stat_file demo_env ''/w/a'' calls = (Inr \<lparr>fi_dir = False, fi_size = 5, fi_time = []\<rparr>, calls @ [OsStat ''/w/a''])"
    by (simp add: prog_eval demo_env_def demo_lstat_def)
  show "read_file_bytes demo_env ''/w/a'' \<lparr>fi_dir = False, fi_size = 5, fi_time = []\<rparr> 0 calls = (Inr ''hello'', calls @ [OsReadFile ''/w/a''])"
    by (simp add: read_file_bytes_def read_max_bytes_def file_default_max_def demo_env_def prog_eval)
qed

theorem local_actions_confined_witness:
  "confined ''/w'' (OsWriteFile ''/w/d/c'' ''x'') \<and>
   OsWriteFile ''/w/d/c'' ''x'' \<in> set (snd (handle_workspace demo_env True demo_exec_grant (ParamsWrite demo_write) []))"
proof -
  have "aw_cwd demo_local = ''/w''" by (simp add: demo_local_def)
  thus ?thesis
    using local_actions_confined[OF demo_workspaces(1,4,6) prod.collapse[symmetric], of True demo_exec_grant "[]"] demo_writes by auto
qed

theorem links_stay_inside_witness:
  "link_safe demo_lstat Inr ''/w'' (OsWriteFile ''/w/d/c'' ''x'') \<and>
   OsWriteFile ''/w/d/c'' ''x'' \<in> set (snd (handle_workspace demo_env True demo_exec_grant (ParamsWrite demo_write) []))"
proof -
  have s: "static_links demo_env demo_lstat Inr" by (simp add: static_links_def demo_env_def)
  have "path_clean (aw_cwd demo_local) = ''/w''" by code_simp
  thus ?thesis
    using links_stay_inside[OF demo_workspaces(1,4,6) s prod.collapse[symmetric], of True demo_exec_grant "[]"] demo_writes by auto
qed

theorem remote_actions_remote_witness:
  "list_all over_ssh (snd (handle_workspace demo_env True demo_exec_grant (ParamsDelete demo_remote_delete) [])) \<and>
   snd (handle_workspace demo_env True demo_exec_grant (ParamsDelete demo_remote_delete) []) \<noteq> []"
proof -
  have "control_workspace demo_env ''w2'' = give demo_ssh" "resolve_remote demo_env demo_ssh ''a'' = give (''/r/a'', ''a'')"
    and "aw_target demo_ssh = ''ssh''" "we_ssh demo_env = (\<lambda>_ call. Inr AnyNil)"
  proof -
    have r: "trim_space ''w2'' = ''w2''" "we_workspace demo_env ''w2'' = Some demo_ssh" "resolve_remote_path ''/r'' ''a'' = Inr (''/r/a'', ''a'')"
      "remote_clean ''/r'' = ''/r''"
      by code_simp+
    thus "control_workspace demo_env ''w2'' = give demo_ssh" by (simp add: control_workspace_def)
    show "resolve_remote demo_env demo_ssh ''a'' = give (''/r/a'', ''a'')"
      using r by (intro ext) (simp add: resolve_remote_def remote_root_def demo_env_def demo_ssh_def demo_local_def chain_def give_def of_sum_def)
  qed (simp_all add: demo_ssh_def demo_env_def)
  hence "snd (handle_workspace demo_env True demo_exec_grant (ParamsDelete demo_remote_delete) []) \<noteq> []"
    by (simp add: handle_workspace_def as_value_def delete_path_def delete_remote_def demo_remote_delete_def demo_found(5)
        chain_def give_def ask_def ssh_call_def remote_kind_def field_def Let_def)
  thus ?thesis
    using remote_actions_remote[OF demo_workspaces(2,5) prod.collapse[symmetric], of True demo_exec_grant "[]"] by auto
qed

lemma demo_runs:
  "snd (handle_workspace demo_env True demo_exec_grant (ParamsExec demo_exec) []) =
     [OsEval ''/w'', OsEval ''/w'', OsShell ''/w'' ''ls'' exec_default_timeout]"
proof -
  have w: "trim_space ''ls'' = ''ls''" "effective_policy (tg_exec_policy demo_exec_grant) = ''trusted''"
    "enforce_exec_policy ''trusted'' command cwd = None" for command cwd
    by (code_simp, code_simp) (simp add: trusted_policy)
  have t: "exec_timeout 0 = exec_default_timeout" by (simp add: exec_timeout_def)
  show ?thesis
    by (simp add: handle_workspace_def as_value_def execute_command_def exec_local_def demo_exec_def w t chain_def give_def ask_def demo_found demo_checked Let_def)
qed

theorem commands_need_policy_witness:
  "OsShell ''/w'' ''ls'' exec_default_timeout \<in> set (snd (handle_workspace demo_env True demo_exec_grant (ParamsExec demo_exec) [])) \<and>
   effective_policy (tg_exec_policy demo_exec_grant) = ''trusted''"
proof -
  have c: "OsShell ''/w'' ''ls'' exec_default_timeout \<in>
      set (drop (length []) (snd (handle_workspace demo_env True demo_exec_grant (ParamsExec demo_exec) [])))"
    by (simp add: demo_runs)
  show ?thesis using commands_need_policy[OF prod.collapse[symmetric] c] demo_runs by auto
qed

theorem read_bounded_witness:
  "\<exists>body. std_decode (case fst (read_files demo_env demo_read []) of Inl e \<Rightarrow> [] | Inr r \<Rightarrow> rr_base64 r) = Some body \<and>
    int (length body) \<le> 25 * 1024 * 1024"
proof -
  have "trim_space [] = []" by code_simp
  hence "\<not> is_error (fst (read_files demo_env demo_read []))"
    by (simp add: demo_read_def read_files_def read_local_def demo_found demo_checked chain_def give_def Let_def)
  then obtain r where r: "fst (read_files demo_env demo_read []) = Inr r" by (auto simp: is_error_def split: sum.splits)
  hence "read_files demo_env demo_read [] = (Inr r, snd (read_files demo_env demo_read []))" by (metis prod.collapse)
  from read_bounded[OF this] show ?thesis using r by auto
qed

lemma demo_patched:
  "snd (apply_patch demo_env demo_patch []) = [OsEval ''/w'', OsEval ''/w/a'', OsStat ''/w/a'', OsReadFile ''/w/a'', OsWriteFile ''/w/a'' ''hoo'']"
proof -
  have w: "we_effect demo_env calls (OsWriteFile ''/w/a'' ''hoo'') = None" for calls
    by (simp add: demo_env_def)
  have e: "apply_text_edits ''hello'' [\<lparr>te_old = ''ell'', te_new = ''o'', te_all = False\<rparr>] = Inr (''hoo'', 1)"
    by (simp add: apply_text_edits_def apply_edit_def contains_nul_def file_write_max_def file_hard_max_def
        count_sub.simps has_prefix_def Let_def)
  show ?thesis
    by (simp add: apply_patch_def patch_local_def demo_patch_def w e demo_found demo_checked chain_def give_def of_sum_def sys_effect_def ask_def Let_def)
qed

theorem patch_writes_edited_witness:
  "\<exists>n. apply_text_edits ''hello'' (pq_edits demo_patch) = Inr (''hoo'', n)"
  using patch_writes_edited[OF prod.collapse[symmetric], of demo_env demo_patch "[]"]
  unfolding demo_patched by (auto simp: demo_env_def Cons_eq_append_conv)

theorem ancestor_search_ends_witness:
  "length (snd (ensure_parent demo_env ''/w'' ''/w/b'' [])) \<le> 5"
proof -
  have "is_abs (aw_cwd demo_local)" "resolve_workspace_path (aw_cwd demo_local) ''a/../b'' = Inr (''/w/b'', ''b'')"
    "comps ''/w/b'' = [''w'', ''b'']"
    by code_simp+
  thus ?thesis using ancestor_search_ends[of demo_local "''a/../b''" "''/w/b''" "''b''" demo_env "''/w''" "[]"] by simp
qed

end
