(* ===== verification/WorkspaceStreams.thy ===== *)
theory WorkspaceStreams
  imports WorkspaceFiles
begin

text \<open>
  Streaming a workspace file over a control connection: \<open>StreamControlWorkspaceFile\<close> and the frames of
  \<open>daemon/internal/core/workspace/control.go\<close>. What the outside does while a stream runs is a script: one
  entry for each read, with what it returned and whether the context was cancelled at each of the places where
  the code looks. A stream whose script is used up waits for its read.
\<close>

section \<open>Frames\<close>

record stream_frame =
  wf_stream :: string
  wf_request :: string
  wf_workspace :: string
  wf_target :: string
  wf_path :: string
  wf_kind :: string
  wf_name :: string
  wf_mime :: string
  wf_size :: int
  wf_seq :: int
  wf_offset :: int
  wf_data :: string
  wf_final :: bool
  wf_code :: string
  wf_message :: string

definition base_frame :: "stream_result \<Rightarrow> string \<Rightarrow> stream_frame" where
  "base_frame R req =
     \<lparr>wf_stream = fs_stream R, wf_request = req, wf_workspace = fs_workspace R, wf_target = fs_target R,
      wf_path = fs_path R, wf_kind = fs_kind R, wf_name = fs_name R, wf_mime = fs_mime R, wf_size = fs_size R,
      wf_seq = 0, wf_offset = 0, wf_data = [], wf_final = False, wf_code = [], wf_message = []\<rparr>"

text \<open>A frame goes to the connection with its type.\<close>

type_synonym typed_frame = "string \<times> stream_frame"

definition chunk_frame :: "stream_result \<Rightarrow> string \<Rightarrow> int \<Rightarrow> int \<Rightarrow> string \<Rightarrow> typed_frame" where
  "chunk_frame R req seq offset body =
     (''workspace_file.chunk'', (base_frame R req)\<lparr>wf_seq := seq, wf_offset := offset, wf_data := std_encode body\<rparr>)"

definition complete_frame :: "stream_result \<Rightarrow> string \<Rightarrow> int \<Rightarrow> int \<Rightarrow> typed_frame" where
  "complete_frame R req seq offset =
     (''workspace_file.completed'', (base_frame R req)\<lparr>wf_seq := seq, wf_offset := offset, wf_final := True\<rparr>)"

definition offset_error_frame :: "stream_result \<Rightarrow> string \<Rightarrow> string \<Rightarrow> string \<Rightarrow> int \<Rightarrow> typed_frame" where
  "offset_error_frame R req code message offset =
     (''workspace_file.error'', (base_frame R req)\<lparr>wf_offset := offset, wf_code := code, wf_message := message\<rparr>)"

definition error_frame :: "stream_result \<Rightarrow> string \<Rightarrow> string \<Rightarrow> string \<Rightarrow> typed_frame" where
  "error_frame R req code message = offset_error_frame R req code message (fs_offset R)"

definition truncated_frame :: "stream_result \<Rightarrow> string \<Rightarrow> int \<Rightarrow> typed_frame" where
  "truncated_frame R req offset =
     offset_error_frame R req ''workspace_file_stream_truncated'' ''workspace file changed during stream'' offset"

section \<open>The reads of a local file\<close>

datatype read_error = ReadEof | ReadFailed string

text \<open>
  One turn of the loop: what the file has from a position on when it is read, the error the read returned,
  and whether the context was cancelled before the read, after it and after the frame.
\<close>

record local_read =
  lr_at :: "nat \<Rightarrow> string"
  lr_error :: "read_error option"
  lr_stop_before :: bool
  lr_stop_read :: bool
  lr_stop_after :: bool

text \<open>
  How the loop ended: past the last byte with its sequence number and offset, with a return, or not yet.
\<close>

datatype stream_end = LoopDone int int | LoopReturned | LoopReading

fun local_loop :: "stream_result \<Rightarrow> string \<Rightarrow> int \<Rightarrow> int \<Rightarrow> local_read list \<Rightarrow> typed_frame list \<times> stream_end" where
  "local_loop R req seq offset reads =
     (if offset \<ge> fs_size R then ([], LoopDone seq offset)
      else (case reads of
          [] \<Rightarrow> ([], LoopReading)
        | x # xs \<Rightarrow>
            if lr_stop_before x then ([], LoopReturned)
            else (let n = stream_read_size (fs_chunk R) (fs_size R - offset);
                      body = take (nat n) (lr_at x (nat offset)) in
              if body \<noteq> [] \<and> lr_stop_read x then ([], LoopReturned)
              else (let frames = (if body = [] then [] else [chunk_frame R req (seq + 1) offset body]);
                        seq1 = (if body = [] then seq else seq + 1);
                        offset1 = offset + int (length body) in
                if lr_stop_after x then (frames, LoopReturned)
                else (case lr_error x of
                    None \<Rightarrow> (case local_loop R req seq1 offset1 xs of (fs, e) \<Rightarrow> (frames @ fs, e))
                  | Some ReadEof \<Rightarrow> (frames @ [truncated_frame R req offset1], LoopReturned)
                  | Some (ReadFailed m) \<Rightarrow> (frames @ [error_frame R req ''workspace_file_stream_read_failed'' m], LoopReturned))))))"

declare local_loop.simps [simp del]

text \<open>The rest of a stream: opening and seeking, the script, and what is found at the end.\<close>

record local_io =
  li_calls :: "os_call list"
  li_open :: bool
  li_seek :: "string option"
  li_reads :: "local_read list"
  li_stop :: bool
  li_stat :: "os_error + file_info"

definition stat_matches :: "os_error + file_info \<Rightarrow> int \<Rightarrow> bool" where
  "stat_matches s bytes = (case s of Inl e \<Rightarrow> False | Inr info \<Rightarrow> \<not> fi_dir info \<and> fi_size info = bytes)"

text \<open>After the loop, for both kinds of workspace.\<close>

definition stream_tail :: "stream_result \<Rightarrow> string \<Rightarrow> bool \<Rightarrow> bool \<Rightarrow> stream_end \<Rightarrow> typed_frame list" where
  "stream_tail R req stop unchanged e = (case e of
       LoopDone seq offset \<Rightarrow>
         if stop then []
         else if \<not> unchanged then [truncated_frame R req offset]
         else [complete_frame R req (seq + 1) offset]
     | LoopReturned \<Rightarrow> []
     | LoopReading \<Rightarrow> [])"

definition stream_local :: "ws_env \<Rightarrow> local_io \<Rightarrow> agent_workspace \<Rightarrow> stream_result \<Rightarrow> string \<Rightarrow> typed_frame list" where
  "stream_local E io ws R req =
     (case resolve_workspace_path (local_root ws) (fs_path R) of
        Inl m \<Rightarrow> [error_frame R req ''workspace_path_invalid'' m]
      | Inr (target, rel) \<Rightarrow> (case fst (ensure_existing E (local_root ws) target (li_calls io)) of
          Inl err \<Rightarrow> [error_frame R req ''workspace_path_invalid'' (error_message err)]
        | Inr u \<Rightarrow>
            if \<not> li_open io then [error_frame R req ''workspace_file_not_found'' ''workspace file not found'']
            else if fs_offset R > 0 \<and> li_seek io \<noteq> None
              then [error_frame R req ''workspace_file_stream_seek_failed'' (the (li_seek io))]
            else (case local_loop R req 0 (fs_offset R) (li_reads io) of (frames, e) \<Rightarrow>
              frames @ stream_tail R req (li_stop io) (stat_matches (li_stat io) (fs_size R)) e)))"

section \<open>The reads of a remote file\<close>

text \<open>
  A turn of the remote loop: the answer of \<open>read_range\<close> for a range, and whether the context was cancelled before
  the call, when it had failed, and after it.
\<close>

record remote_read =
  mr_answer :: "int \<Rightarrow> int \<Rightarrow> string + (string \<times> go_any) list"
  mr_stop_before :: bool
  mr_stop_failed :: bool
  mr_stop_after :: bool

fun remote_loop :: "stream_result \<Rightarrow> string \<Rightarrow> int \<Rightarrow> int \<Rightarrow> remote_read list \<Rightarrow> typed_frame list \<times> stream_end" where
  "remote_loop R req seq offset reads =
     (if offset \<ge> fs_size R then ([], LoopDone seq offset)
      else (case reads of
          [] \<Rightarrow> ([], LoopReading)
        | x # xs \<Rightarrow>
            if mr_stop_before x then ([], LoopReturned)
            else (case mr_answer x offset (stream_read_size (fs_chunk R) (fs_size R - offset)) of
                Inl m \<Rightarrow>
                  if mr_stop_failed x then ([], LoopReturned)
                  else ([error_frame R req ''workspace_file_stream_read_failed'' m], LoopReturned)
              | Inr out \<Rightarrow> (case remote_read_bytes out of
                  Inl m \<Rightarrow> ([error_frame R req ''workspace_file_stream_read_failed'' m], LoopReturned)
                | Inr body \<Rightarrow>
                    if body = [] then ([truncated_frame R req offset], LoopReturned)
                    else if mr_stop_after x then ([], LoopReturned)
                    else if int (length body) > fs_size R - offset then ([truncated_frame R req offset], LoopReturned)
                    else (case remote_loop R req (seq + 1) (offset + int (length body)) xs of (fs, e) \<Rightarrow>
                      (chunk_frame R req (seq + 1) offset body # fs, e))))))"

declare remote_loop.simps [simp del]

text \<open>A workspace without SSH settings makes the code panic when it reads them; the model ends in an error frame there.\<close>

record remote_io =
  mi_reads :: "remote_read list"
  mi_stop :: bool
  mi_stat :: "string + (string \<times> go_any) list"

definition remote_matches :: "string + (string \<times> go_any) list \<Rightarrow> int \<Rightarrow> bool" where
  "remote_matches s bytes = (case s of
       Inl e \<Rightarrow> False
     | Inr stat \<Rightarrow> \<not> bool_value (field stat ''is_dir'') \<and> number_value (field stat ''size'') = bytes)"

definition stream_remote :: "ws_env \<Rightarrow> remote_io \<Rightarrow> agent_workspace \<Rightarrow> stream_result \<Rightarrow> string \<Rightarrow> typed_frame list" where
  "stream_remote E io ws R req =
     (if \<not> we_has_ssh E then [error_frame R req ''ssh_unavailable'' ''ssh manager unavailable'']
      else (case fst (resolve_remote E ws (fs_path R) []) of
          Inl err \<Rightarrow> [error_frame R req ''workspace_path_invalid'' (error_message err)]
        | Inr u \<Rightarrow> (case remote_loop R req 0 (fs_offset R) (mi_reads io) of (frames, e) \<Rightarrow>
            frames @ stream_tail R req (mi_stop io) (remote_matches (mi_stat io) (fs_size R)) e)))"

definition stream_file ::
  "ws_env \<Rightarrow> local_io \<Rightarrow> remote_io \<Rightarrow> stream_params \<Rightarrow> stream_result \<Rightarrow> string \<Rightarrow> typed_frame list" where
  "stream_file E lio rio q R req =
     (case fst (control_workspace E (sq_workspace q) []) of
        Inl err \<Rightarrow> [error_frame R req ''workspace_not_found'' (error_message err)]
      | Inr ws \<Rightarrow> if aw_target ws = ''ssh'' then stream_remote E rio ws R req else stream_local E lio ws R req)"

section \<open>The shape of a stream\<close>

fun chunk_frames :: "stream_result \<Rightarrow> string \<Rightarrow> int \<Rightarrow> int \<Rightarrow> string list \<Rightarrow> typed_frame list" where
  "chunk_frames R req seq offset [] = []"
| "chunk_frames R req seq offset (d # ds) =
     chunk_frame R req (seq + 1) offset d # chunk_frames R req (seq + 1) (offset + int (length d)) ds"

text \<open>What a client puts together from the chunks.\<close>

definition is_chunk :: "typed_frame \<Rightarrow> bool" where
  "is_chunk f \<longleftrightarrow> fst f = ''workspace_file.chunk''"

definition frame_bytes :: "typed_frame \<Rightarrow> string" where
  "frame_bytes f = (case std_decode (wf_data (snd f)) of None \<Rightarrow> [] | Some d \<Rightarrow> d)"

definition assembled :: "typed_frame list \<Rightarrow> string" where
  "assembled frames = concat (map frame_bytes (filter is_chunk frames))"

lemma chunk_frame_facts [simp]: "is_chunk (chunk_frame R req seq off d)" "frame_bytes (chunk_frame R req seq off d) = d"
  by (simp_all add: chunk_frame_def is_chunk_def frame_bytes_def)

lemma other_frame_facts [simp]:
  "\<not> is_chunk (offset_error_frame R req code m off)" "\<not> is_chunk (complete_frame R req seq off)"
  by (simp_all add: offset_error_frame_def complete_frame_def is_chunk_def)

lemma error_frames: "truncated_frame R req off = offset_error_frame R req ''workspace_file_stream_truncated'' ''workspace file changed during stream'' off"
  "error_frame R req code m = offset_error_frame R req code m (fs_offset R)"
  by (simp_all add: truncated_frame_def error_frame_def)

lemma assembled_chunks: "assembled (chunk_frames R req seq off ds) = concat ds"
  by (induction ds arbitrary: seq off) (auto simp: assembled_def)

lemma assembled_append: "assembled (a @ b) = assembled a @ assembled b"
  by (simp add: assembled_def)

text \<open>What ends a stream after its chunks: nothing more, an error, or the loop is done.\<close>

definition ending :: "stream_result \<Rightarrow> string \<Rightarrow> stream_end \<Rightarrow> int \<Rightarrow> int \<Rightarrow> typed_frame list \<Rightarrow> bool" where
  "ending R req e seq offset rest \<longleftrightarrow> (case e of
       LoopDone s o' \<Rightarrow> rest = [] \<and> s = seq \<and> o' = offset \<and> offset \<ge> fs_size R
     | LoopReading \<Rightarrow> rest = []
     | LoopReturned \<Rightarrow> rest = [] \<or> (\<exists>code m off. rest = [offset_error_frame R req code m off]))"

text \<open>
  The chunks a loop sends from an offset: none is empty, they stay below the announced size, and if every
  read gives what the file \<open>F\<close> has at its position, they are the file from there.
\<close>

definition sends ::
  "stream_result \<Rightarrow> string \<Rightarrow> bool \<Rightarrow> string \<Rightarrow> int \<Rightarrow> int \<Rightarrow> typed_frame list \<times> stream_end \<Rightarrow> bool" where
  "sends R req honest F seq offset out \<longleftrightarrow>
     (\<exists>ds rest. fst out = chunk_frames R req seq offset ds @ rest \<and>
        list_all (\<lambda>d. d \<noteq> []) ds \<and> (offset \<le> fs_size R \<longrightarrow> offset + int (length (concat ds)) \<le> fs_size R) \<and>
        ending R req (snd out) (seq + int (length ds)) (offset + int (length (concat ds))) rest \<and>
        (honest \<longrightarrow> prefix (concat ds) (drop (nat offset) F)))"

lemma ending_returned: "ending R req LoopReturned seq off []" "ending R req LoopReturned seq off [offset_error_frame R req code m o']"
  unfolding ending_def by auto

lemma sends_over: "ending R req e seq offset rest \<Longrightarrow> sends R req honest F seq offset (rest, e)"
  unfolding sends_def by (intro exI[of _ "[]"] exI[of _ rest]) simp

lemma sends_chunk:
  assumes "d \<noteq> []" "offset + int (length d) \<le> fs_size R" "honest \<longrightarrow> prefix d (drop (nat offset) F)" "0 \<le> offset"
    and "sends R req honest F (seq + 1) (offset + int (length d)) (fs, e)"
  shows "sends R req honest F seq offset (chunk_frame R req (seq + 1) offset d # fs, e)"
proof -
  obtain ds rest where o: "fs = chunk_frames R req (seq + 1) (offset + int (length d)) ds @ rest"
      "list_all (\<lambda>d. d \<noteq> []) ds" "offset + int (length d) + int (length (concat ds)) \<le> fs_size R"
      "ending R req e (seq + 1 + int (length ds)) (offset + int (length d) + int (length (concat ds))) rest"
      "honest \<longrightarrow> prefix (concat ds) (drop (nat (offset + int (length d))) F)"
    using assms(2,5) by (auto simp: sends_def)
  have "honest \<longrightarrow> prefix (d @ concat ds) (drop (nat offset) F)"
  proof
    assume h: honest
    obtain r where r: "drop (nat offset) F = d @ r" using assms(3) h by (auto simp: prefix_def)
    have "nat (offset + int (length d)) = length d + nat offset" using assms(4) by simp
    hence "drop (nat (offset + int (length d))) F = r" using r by (metis append_eq_conv_conj drop_drop)
    thus "prefix (d @ concat ds) (drop (nat offset) F)" using o(5) h r by simp
  qed
  thus ?thesis
    unfolding sends_def using o assms(1) by (intro exI[of _ "d # ds"] exI[of _ rest]) (simp add: add.assoc)
qed

lemma read_size_bounds: "offset < bytes \<Longrightarrow> stream_read_size chunk (bytes - offset) \<le> bytes - offset"
  by (simp add: stream_read_size_def)

lemma sends_weaken: "sends R req h F seq offset out \<Longrightarrow> (h' \<longrightarrow> h) \<Longrightarrow> sends R req h' F seq offset out"
  unfolding sends_def by blast

text \<open>One turn of the local loop.\<close>

lemma local_loop_step:
  assumes "\<not> offset \<ge> fs_size R" "body = take (nat (stream_read_size (fs_chunk R) (fs_size R - offset))) (lr_at x (nat offset))"
  shows "local_loop R req seq offset (x # xs) =
     (if lr_stop_before x \<or> (body \<noteq> [] \<and> lr_stop_read x) then ([], LoopReturned)
      else (let frames = (if body = [] then [] else [chunk_frame R req (seq + 1) offset body]);
                next = local_loop R req (if body = [] then seq else seq + 1) (offset + int (length body)) xs in
        if lr_stop_after x then (frames, LoopReturned)
        else (case lr_error x of
            None \<Rightarrow> (frames @ fst next, snd next)
          | Some ReadEof \<Rightarrow> (frames @ [truncated_frame R req (offset + int (length body))], LoopReturned)
          | Some (ReadFailed m) \<Rightarrow> (frames @ [error_frame R req ''workspace_file_stream_read_failed'' m], LoopReturned))))"
proof -
  have key: "take (nat (stream_read_size (fs_chunk R) (fs_size R - offset))) (lr_at x (nat offset)) = body" using assms(2) by simp
  show ?thesis using assms(1) by (subst local_loop.simps) (simp add: Let_def key case_prod_beta split: option.splits read_error.splits del: take_eq_Nil take_eq_Nil2)
qed

lemma local_sends:
  "0 \<le> offset \<Longrightarrow> sends R req (list_all (\<lambda>x. \<forall>p. prefix (lr_at x p) (drop p F)) reads) F seq offset (local_loop R req seq offset reads)"
proof (induction R req seq offset reads rule: local_loop.induct)
  case (1 R req seq offset reads)
  show ?case
  proof (cases "offset \<ge> fs_size R \<or> reads = []")
    case True
    have "sends R req h F seq offset ([], LoopReading)" "fs_size R \<le> offset \<Longrightarrow> sends R req h F seq offset ([], LoopDone seq offset)" for h
      by (rule sends_over, simp add: ending_def)+
    thus ?thesis using True by (subst local_loop.simps) auto
  next
    case False
    then obtain x xs where x: "reads = x # xs" and lt: "\<not> offset \<ge> fs_size R" by (cases reads) auto
    let ?h = "list_all (\<lambda>x. \<forall>p. prefix (lr_at x p) (drop p F))"
    define n where "n = stream_read_size (fs_chunk R) (fs_size R - offset)"
    define body where "body = take (nat n) (lr_at x (nat offset))"
    define e1 where "e1 = offset + int (length body)"
    have len: "offset + int (length body) \<le> fs_size R"
      using read_size_bounds[of offset "fs_size R" "fs_chunk R"] lt by (auto simp: body_def n_def min_def)
    have pre: "?h reads \<longrightarrow> prefix body (drop (nat offset) F)"
      using x by (auto simp: body_def intro: prefix_order.trans[OF take_is_prefix])
    have over: "sends R req (?h reads) F seq offset ((if body = [] then [] else [chunk_frame R req (seq + 1) offset body]) @ rest, LoopReturned)"
      if "rest = [] \<or> (\<exists>code m off. rest = [offset_error_frame R req code m off])" for rest
    proof (cases "body = []")
      case True
      thus ?thesis using that by (auto intro: sends_over ending_returned)
    next
      case False
      have "sends R req (?h reads) F (seq + 1) (offset + int (length body)) (rest, LoopReturned)"
        using that by (auto intro: sends_over ending_returned)
      thus ?thesis using sends_chunk[OF False len pre 1(2)] False by simp
    qed
    have more: "sends R req (?h reads) F seq offset
        ((if body = [] then [] else [chunk_frame R req (seq + 1) offset body]) @ fst next, snd next)"
      if l: "next = local_loop R req (if body = [] then seq else seq + 1) (offset + int (length body)) xs"
        and "\<not> lr_stop_before x" "\<not> (body \<noteq> [] \<and> lr_stop_read x)" "\<not> lr_stop_after x" "lr_error x = None" for "next"
    proof -
      have ih: "sends R req (?h xs) F (if body = [] then seq else seq + 1) (offset + int (length body)) next"
        using 1(1)[OF lt x that(2) n_def body_def that(3) refl refl e1_def that(4) that(5)] 1(2) l by (simp add: e1_def)
      have "?h reads \<longrightarrow> ?h xs" using x by simp
      hence "sends R req (?h reads) F (if body = [] then seq else seq + 1) (offset + int (length body)) (fst next, snd next)"
        using sends_weaken[OF ih] by simp
      thus ?thesis using sends_chunk[OF _ len pre 1(2)] by (cases "body = []") simp_all
    qed
    define h where "h = ?h reads"
    let ?f = "if body = [] then [] else [chunk_frame R req (seq + 1) offset body]"
    have quiet: "sends R req h F seq offset ([], LoopReturned)" by (rule sends_over[OF ending_returned(1)])
    have stop: "sends R req h F seq offset (?f, LoopReturned)" using over[of "[]"] by (simp add: h_def)
    have err: "sends R req h F seq offset (?f @ [offset_error_frame R req code m off], LoopReturned)" for code m off
      using over[of "[offset_error_frame R req code m off]"] unfolding h_def by blast
    note step = local_loop_step[OF lt body_def[unfolded n_def], unfolded Let_def error_frames]
    have "sends R req h F seq offset (local_loop R req seq offset (x # xs))"
    proof (cases "lr_stop_before x \<or> (body \<noteq> [] \<and> lr_stop_read x)")
      case True
      thus ?thesis unfolding step using quiet by simp
    next
      case go: False
      show ?thesis
      proof (cases "lr_stop_after x \<or> lr_error x \<noteq> None")
        case True
        thus ?thesis unfolding step if_not_P[OF go] using stop err by (auto simp del: append.simps split: read_error.splits if_splits)
      next
        case False
        thus ?thesis unfolding step if_not_P[OF go] using more[OF refl] go by (simp add: h_def)
      qed
    qed
    thus ?thesis by (simp only: x h_def)
  qed
qed

lemma remote_sends:
  "0 \<le> offset \<Longrightarrow>
    sends R req (list_all (\<lambda>x. \<forall>p n out b. mr_answer x p n = Inr out \<longrightarrow> remote_read_bytes out = Inr b \<longrightarrow> prefix b (drop (nat p) F)) reads)
      F seq offset (remote_loop R req seq offset reads)"
proof (induction R req seq offset reads rule: remote_loop.induct)
  case (1 R req seq offset reads)
  let ?h = "list_all (\<lambda>x. \<forall>p n out b. mr_answer x p n = Inr out \<longrightarrow> remote_read_bytes out = Inr b \<longrightarrow> prefix b (drop (nat p) F))"
  have stop: "sends R req h F seq offset ([], LoopReading)" "sends R req h F seq offset ([], LoopReturned)"
    "fs_size R \<le> offset \<Longrightarrow> sends R req h F seq offset ([], LoopDone seq offset)" for h
    by (rule sends_over, simp add: ending_def)+
  have err: "sends R req h F seq offset ([offset_error_frame R req code m off], LoopReturned)" for h code m off
    by (rule sends_over[OF ending_returned(2)])
  show ?case
  proof (cases "offset \<ge> fs_size R \<or> reads = []")
    case True
    thus ?thesis using stop by (subst remote_loop.simps) auto
  next
    case False
    then obtain x xs where x: "reads = x # xs" and lt: "\<not> offset \<ge> fs_size R" by (cases reads) auto
    have more: "sends R req (?h reads) F seq offset (chunk_frame R req (seq + 1) offset body # fs, e)"
      if a: "\<not> mr_stop_before x" "mr_answer x offset (stream_read_size (fs_chunk R) (fs_size R - offset)) = Inr out"
        "remote_read_bytes out = Inr body" "body \<noteq> []" "\<not> mr_stop_after x" "\<not> int (length body) > fs_size R - offset"
        and l: "remote_loop R req (seq + 1) (offset + int (length body)) xs = (fs, e)" for out body fs e
    proof -
      have ih: "sends R req (?h xs) F (seq + 1) (offset + int (length body)) (fs, e)"
        using 1(1)[OF lt x a(1) a(2) a(3) a(4) a(5) a(6)] 1(2) l by simp
      have "?h reads \<longrightarrow> ?h xs" using x by simp
      hence s: "sends R req (?h reads) F (seq + 1) (offset + int (length body)) (fs, e)"
        using sends_weaken[OF ih] by blast
      have "?h reads \<longrightarrow> prefix body (drop (nat offset) F)" using x a(2,3) by simp
      thus ?thesis using sends_chunk[OF a(4) _ _ 1(2) s] a(6) by simp
    qed
    show ?thesis
      using lt x more stop err
      by (subst remote_loop.simps) (simp add: error_frames split: prod.splits sum.splits)
  qed
qed

section \<open>What a client can rely on\<close>

text \<open>Every read of the file gives what it has at that position, cut short or not.\<close>

definition faithful_reads :: "string \<Rightarrow> local_io \<Rightarrow> remote_io \<Rightarrow> bool" where
  "faithful_reads F lio rio \<longleftrightarrow>
     list_all (\<lambda>x. \<forall>p. prefix (lr_at x p) (drop p F)) (li_reads lio) \<and>
     list_all (\<lambda>x. \<forall>p n out b. mr_answer x p n = Inr out \<longrightarrow> remote_read_bytes out = Inr b \<longrightarrow> prefix b (drop (nat p) F)) (mi_reads rio)"

definition stream_shape :: "stream_result \<Rightarrow> string \<Rightarrow> bool \<Rightarrow> string \<Rightarrow> typed_frame list \<Rightarrow> bool" where
  "stream_shape R req honest F frames \<longleftrightarrow>
     (\<exists>ds rest. frames = chunk_frames R req 0 (fs_offset R) ds @ rest \<and> list_all (\<lambda>d. d \<noteq> []) ds \<and>
        fs_offset R + int (length (concat ds)) \<le> fs_size R \<and> (honest \<longrightarrow> prefix (concat ds) (drop (nat (fs_offset R)) F)) \<and>
        (rest = [] \<or> (\<exists>code m off. rest = [offset_error_frame R req code m off]) \<or>
          rest = [complete_frame R req (int (length ds) + 1) (fs_size R)] \<and> fs_offset R + int (length (concat ds)) = fs_size R))"

lemma shape_error: "fs_offset R \<le> fs_size R \<Longrightarrow> stream_shape R req honest F [error_frame R req code m]"
  unfolding stream_shape_def error_frames by (intro exI[of _ "[]"] exI[of _ "[offset_error_frame R req code m (fs_offset R)]"]) auto

lemma shape_loop:
  assumes "sends R req honest F 0 (fs_offset R) (frames, e)" "fs_offset R \<le> fs_size R"
  shows "stream_shape R req honest F (frames @ stream_tail R req stop unchanged e)"
proof -
  obtain ds rest where o: "frames = chunk_frames R req 0 (fs_offset R) ds @ rest" "list_all (\<lambda>d. d \<noteq> []) ds"
      "fs_offset R + int (length (concat ds)) \<le> fs_size R"
      "ending R req e (int (length ds)) (fs_offset R + int (length (concat ds))) rest"
      "honest \<longrightarrow> prefix (concat ds) (drop (nat (fs_offset R)) F)"
    using assms by (auto simp: sends_def)
  show ?thesis
    unfolding stream_shape_def
    by (intro exI[of _ ds] exI[of _ "rest @ stream_tail R req stop unchanged e"])
      (use o in \<open>auto simp: ending_def stream_tail_def truncated_frame_def split: stream_end.splits\<close>)
qed

lemma stream_has_shape:
  assumes "0 \<le> fs_offset R" "fs_offset R \<le> fs_size R"
  shows "stream_shape R req (faithful_reads F lio rio) F (stream_file E lio rio q R req)"
proof -
  let ?h = "faithful_reads F lio rio"
  have l: "sends R req ?h F 0 (fs_offset R) (local_loop R req 0 (fs_offset R) (li_reads lio))"
    using local_sends[OF assms(1), of R req F "li_reads lio" 0] unfolding sends_def faithful_reads_def by blast
  have r: "sends R req ?h F 0 (fs_offset R) (remote_loop R req 0 (fs_offset R) (mi_reads rio))"
    using remote_sends[OF assms(1), of R req F "mi_reads rio" 0] unfolding sends_def faithful_reads_def by blast
  show ?thesis
    using l r shape_loop[OF _ assms(2)] shape_error[OF assms(2)]
    by (auto simp: stream_file_def stream_local_def stream_remote_def split: sum.splits prod.splits)
qed

text \<open>
  Whatever the file system, the remote host and the client do: a stream is a run of nonempty chunks numbered
  from 1, each at the offset where the one before ended and none past the announced size, followed by nothing,
  one error, or a completed frame, which comes only if the chunks reach exactly the announced size.
\<close>

theorem stream_contiguous:
  assumes "0 \<le> fs_offset R" "fs_offset R \<le> fs_size R"
  shows "\<exists>ds rest. stream_file E lio rio q R req = chunk_frames R req 0 (fs_offset R) ds @ rest \<and> list_all (\<lambda>d. d \<noteq> []) ds \<and>
    fs_offset R + int (length (concat ds)) \<le> fs_size R \<and>
    (rest \<in> {[]} \<union> {[offset_error_frame R req code m off] | code m off. True} \<union>
       (if fs_offset R + int (length (concat ds)) = fs_size R then {[complete_frame R req (int (length ds) + 1) (fs_size R)]} else {}))"
proof -
  obtain ds rest where "stream_file E lio rio q R req = chunk_frames R req 0 (fs_offset R) ds @ rest" "list_all (\<lambda>d. d \<noteq> []) ds"
      "fs_offset R + int (length (concat ds)) \<le> fs_size R"
      "rest = [] \<or> (\<exists>code m off. rest = [offset_error_frame R req code m off]) \<or>
        rest = [complete_frame R req (int (length ds) + 1) (fs_size R)] \<and> fs_offset R + int (length (concat ds)) = fs_size R"
    using stream_has_shape[OF assms, of req "[]" lio rio E q] unfolding stream_shape_def by blast
  thus ?thesis by (intro exI[of _ ds] exI[of _ rest]) auto
qed

text \<open>
  C33: A client that gets the completed frame and puts the chunks together has the file from the offset to the
  announced size, if the reads saw one file; without it, it has a beginning of that.
\<close>

theorem completed_stream_exact:
  assumes "0 \<le> fs_offset R" "fs_offset R \<le> fs_size R" and "faithful_reads F lio rio"
    and "complete_frame R req seq off \<in> set (stream_file E lio rio q R req)"
  shows "assembled (stream_file E lio rio q R req) = take (nat (fs_size R - fs_offset R)) (drop (nat (fs_offset R)) F) \<and>
    off = fs_size R"
proof -
  obtain ds rest where f: "stream_file E lio rio q R req = chunk_frames R req 0 (fs_offset R) ds @ rest"
      and p: "prefix (concat ds) (drop (nat (fs_offset R)) F)"
      and r: "rest = [] \<or> (\<exists>code m off. rest = [offset_error_frame R req code m off]) \<or>
        rest = [complete_frame R req (int (length ds) + 1) (fs_size R)] \<and> fs_offset R + int (length (concat ds)) = fs_size R"
    using stream_has_shape[OF assms(1,2), of req F lio rio E q] assms(3) unfolding stream_shape_def by blast
  have "complete_frame R req seq off \<notin> set (chunk_frames R req s o' ds)" for s o'
    by (induction ds arbitrary: s o') (auto simp: chunk_frame_def complete_frame_def)
  moreover have "complete_frame R req seq off \<noteq> offset_error_frame R req code m o'" for code m o'
    by (simp add: complete_frame_def offset_error_frame_def)
  ultimately have rest: "rest = [complete_frame R req (int (length ds) + 1) (fs_size R)]" "fs_offset R + int (length (concat ds)) = fs_size R"
      "complete_frame R req seq off = complete_frame R req (int (length ds) + 1) (fs_size R)"
    using f r assms(4) by auto
  have "off = fs_size R" using rest(3) by (simp add: complete_frame_def base_frame_def)
  moreover have "assembled (stream_file E lio rio q R req) = concat ds"
    using f rest(1) by (simp add: assembled_append assembled_chunks) (simp add: assembled_def)
  moreover obtain t where t: "drop (nat (fs_offset R)) F = concat ds @ t" using p by (auto simp: prefix_def)
  moreover have "nat (fs_size R - fs_offset R) = length (concat ds)" using rest(2) by linarith
  ultimately show ?thesis by simp
qed

section \<open>A stream ends\<close>

text \<open>A read that returns no error has at least one byte before the end of the file.\<close>

definition progresses :: "int \<Rightarrow> local_read \<Rightarrow> bool" where
  "progresses bytes x \<longleftrightarrow> (\<forall>p. int p < bytes \<longrightarrow> lr_error x \<noteq> None \<or> lr_at x p \<noteq> [])"

lemma local_loop_ends:
  "0 \<le> offset \<Longrightarrow> list_all (progresses (fs_size R)) reads \<Longrightarrow> fs_size R - offset \<le> int (length reads) \<Longrightarrow>
    snd (local_loop R req seq offset reads) \<noteq> LoopReading"
proof (induction R req seq offset reads rule: local_loop.induct)
  case (1 R req seq offset reads)
  show ?case
  proof (cases "offset \<ge> fs_size R")
    case True
    thus ?thesis by (subst local_loop.simps) simp
  next
    case False
    then obtain x xs where x: "reads = x # xs" using 1(4) by (cases reads) auto
    define n where "n = stream_read_size (fs_chunk R) (fs_size R - offset)"
    define body where "body = take (nat n) (lr_at x (nat offset))"
    define e1 where "e1 = offset + int (length body)"
    have n: "n > 0" using False by (auto simp: n_def stream_read_size_def)
    have ne: "body \<noteq> []" if "lr_error x = None"
      using 1(2,3) x False n that by (auto simp: progresses_def body_def)
    have more: "snd (local_loop R req (seq + 1) e1 xs) \<noteq> LoopReading"
      if "\<not> lr_stop_before x" "\<not> (body \<noteq> [] \<and> lr_stop_read x)" "\<not> lr_stop_after x" "lr_error x = None"
    proof -
      have "1 \<le> int (length body)" using ne[OF that(4)] by (simp add: Suc_leI)
      hence "0 \<le> e1" "fs_size R - e1 \<le> int (length xs)" using 1(2,4) x by (simp_all add: e1_def)
      thus ?thesis
        using 1(1)[OF False x that(1) n_def body_def that(2) refl refl e1_def that(3) that(4)] ne[OF that(4)] 1(3) x by simp
    qed
    show ?thesis
      unfolding x local_loop_step[OF False body_def[unfolded n_def]] Let_def
      using more ne unfolding e1_def by (auto split: option.splits read_error.splits)
  qed
qed

lemma remote_loop_ends:
  "fs_size R - offset \<le> int (length reads) \<Longrightarrow> snd (remote_loop R req seq offset reads) \<noteq> LoopReading"
proof (induction R req seq offset reads rule: remote_loop.induct)
  case (1 R req seq offset reads)
  show ?case
  proof (cases "offset \<ge> fs_size R")
    case True
    thus ?thesis by (subst remote_loop.simps) simp
  next
    case False
    then obtain x xs where x: "reads = x # xs" using 1(2) by (cases reads) auto
    have more: "snd (remote_loop R req (seq + 1) (offset + int (length body)) xs) \<noteq> LoopReading"
      if a: "\<not> mr_stop_before x" "mr_answer x offset (stream_read_size (fs_chunk R) (fs_size R - offset)) = Inr out"
        "remote_read_bytes out = Inr body" "body \<noteq> []" "\<not> mr_stop_after x" "\<not> int (length body) > fs_size R - offset" for out body
    proof -
      have "1 \<le> int (length body)" using a(4) by (simp add: Suc_leI)
      hence "fs_size R - (offset + int (length body)) \<le> int (length xs)" using 1(2) x by simp
      thus ?thesis using 1(1)[OF False x a(1) a(2) a(3) a(4) a(5) a(6)] by simp
    qed
    show ?thesis
      using False x more
      by (subst remote_loop.simps) (simp split: prod.splits sum.splits, metis snd_conv)
  qed
qed

text \<open>
  C34: A stream ends: it makes at most as many reads as bytes were announced, if a read of the file that returns no
  error gives at least one byte. The remote loop needs nothing of the other side: it stops at an empty answer.
\<close>

theorem stream_terminates:
  assumes "0 \<le> fs_offset R" "list_all (progresses (fs_size R)) (li_reads lio)"
    and "fs_size R - fs_offset R \<le> int (length (li_reads lio))" "fs_size R - fs_offset R \<le> int (length (mi_reads rio))"
  shows "snd (local_loop R req 0 (fs_offset R) (li_reads lio)) \<noteq> LoopReading \<and>
    snd (remote_loop R req 0 (fs_offset R) (mi_reads rio)) \<noteq> LoopReading"
  using local_loop_ends[OF assms(1,2,3)] remote_loop_ends[OF assms(4)] by blast

section \<open>Witnesses\<close>

definition demo_result :: stream_result where
  "demo_result = \<lparr>fs_stream = ''s'', fs_workspace = ''w1'', fs_target = ''local'', fs_path = ''a'', fs_kind = ''file'', fs_name = ''a'',
     fs_mime = [], fs_size = 5, fs_offset = 1, fs_chunk = 2\<rparr>"

definition demo_stream :: stream_params where
  "demo_stream = \<lparr>sq_workspace = ''w1'', sq_path = ''a'', sq_offset = 1, sq_chunk = 2\<rparr>"

definition demo_file_read :: local_read where
  "demo_file_read = \<lparr>lr_at = (\<lambda>p. drop p ''hello''), lr_error = None, lr_stop_before = False, lr_stop_read = False, lr_stop_after = False\<rparr>"

definition demo_io :: local_io where
  "demo_io = \<lparr>li_calls = [], li_open = True, li_seek = None, li_reads = replicate 4 demo_file_read, li_stop = False,
     li_stat = Inr \<lparr>fi_dir = False, fi_size = 5, fi_time = []\<rparr>\<rparr>"

definition demo_remote_io :: remote_io where
  "demo_remote_io = \<lparr>mi_reads = [], mi_stop = False, mi_stat = Inl []\<rparr>"

lemma demo_result_fields [simp]: "fs_offset demo_result = 1" "fs_size demo_result = 5"
  by (simp_all add: demo_result_def)

lemma demo_streamed:
  "stream_file demo_env demo_io demo_remote_io demo_stream demo_result ''q'' =
     chunk_frames demo_result ''q'' 0 1 [''el'', ''lo''] @ [complete_frame demo_result ''q'' 3 5]"
proof -
  have r: "resolve_workspace_path (local_root demo_local) ''a'' = Inr (''/w/a'', ''a'')" by code_simp
  have l: "local_loop demo_result ''q'' 0 1 [demo_file_read, demo_file_read, demo_file_read, demo_file_read] =
      (chunk_frames demo_result ''q'' 0 1 [''el'', ''lo''], LoopDone 2 5)"
    by (simp add: local_loop.simps demo_result_def demo_file_read_def stream_read_size_def)
  have io: "li_reads demo_io = [demo_file_read, demo_file_read, demo_file_read, demo_file_read]"
    by (simp add: demo_io_def numeral_eq_Suc)
  have f: "fs_path demo_result = ''a''" "li_open demo_io" "li_seek demo_io = None" "\<not> li_stop demo_io"
    "li_stat demo_io = Inr \<lparr>fi_dir = False, fi_size = 5, fi_time = []\<rparr>" "sq_workspace demo_stream = ''w1''"
    by (simp_all add: demo_result_def demo_io_def demo_stream_def)
  show ?thesis
    by (simp add: stream_file_def stream_local_def demo_found(1,4) demo_checked io f l r stream_tail_def stat_matches_def give_def)
qed

lemma demo_faithful: "faithful_reads ''hello'' demo_io demo_remote_io"
  by (simp add: faithful_reads_def demo_io_def demo_remote_io_def demo_file_read_def numeral_eq_Suc)

theorem stream_contiguous_witness:
  "\<exists>ds rest. chunk_frames demo_result ''q'' 0 1 [''el'', ''lo''] @ [complete_frame demo_result ''q'' 3 5] =
     chunk_frames demo_result ''q'' 0 1 ds @ rest \<and> 1 + int (length (concat ds)) \<le> 5"
  using stream_contiguous[of demo_result demo_env demo_io demo_remote_io demo_stream "''q''"] demo_streamed by auto

theorem completed_stream_exact_witness:
  "assembled (chunk_frames demo_result ''q'' 0 1 [''el'', ''lo''] @ [complete_frame demo_result ''q'' 3 5]) = ''ello''"
  using completed_stream_exact[of demo_result "''hello''" demo_io demo_remote_io "''q''" 3 5 demo_env demo_stream] demo_faithful
  by (simp add: demo_streamed)

theorem stream_terminates_witness:
  "snd (local_loop demo_result ''q'' 0 1 (li_reads demo_io)) \<noteq> LoopReading"
proof -
  have "list_all (progresses 5) (li_reads demo_io)"
    by (simp add: demo_io_def numeral_eq_Suc progresses_def demo_file_read_def)
  thus ?thesis
    using stream_terminates[of demo_result demo_io "\<lparr>mi_reads = replicate 4 x, mi_stop = False, mi_stat = Inl []\<rparr>" "''q''" for x]
    by (simp add: demo_io_def)
qed

end
