(* ===== verification/ControllerTransport.thy ===== *)
theory ControllerTransport
  imports ControlWire SessionEvents
begin

text \<open>
  The connection manager of a controller: \<open>pkg/controllercore/managed_transport.go\<close>. Each operation that holds
  a lock is one function here; what happens between the locks is in \<open>ControllerStreams\<close> (one session) and
  \<open>ControllerRoutes\<close> (the manager). Channels are lists with a capacity; times are nanoseconds.
\<close>

section \<open>Control states\<close>

definition state_idle :: string where "state_idle = ''idle''"
definition state_connecting :: string where "state_connecting = ''connecting''"
definition state_live :: string where "state_live = ''live''"
definition state_reconnecting :: string where "state_reconnecting = ''reconnecting''"
definition state_failed :: string where "state_failed = ''failed''"
definition authorization_code :: string where "authorization_code = ''control_authorization_required''"

record control_state =
  cs_state :: string
  cs_transport :: string
  cs_generation :: int
  cs_error_code :: string
  cs_error :: string
  cs_updated :: string

record resolved_target =
  rt_host :: string
  rt_transport :: string
  rt_timeout :: int
  rt_relay :: bool

definition no_target :: resolved_target where
  "no_target = \<lparr>rt_host = [], rt_transport = [], rt_timeout = 0, rt_relay = False\<rparr>"

text \<open>
  The manager. A session is a number; the sessions themselves and which of them are closed are kept
  outside.
\<close>

record manager =
  mg_sessions :: "string \<Rightarrow> nat option"
  mg_states :: "string \<Rightarrow> control_state option"
  mg_lan_failed :: "string \<Rightarrow> int option"
  mg_generation :: int

definition new_manager :: manager where
  "new_manager = \<lparr>mg_sessions = (\<lambda>_. None), mg_states = (\<lambda>_. None), mg_lan_failed = (\<lambda>_. None), mg_generation = 0\<rparr>"

definition idle_state :: control_state where
  "idle_state = \<lparr>cs_state = state_idle, cs_transport = [], cs_generation = 0, cs_error_code = [], cs_error = [], cs_updated = []\<rparr>"

definition control_state_of :: "string \<Rightarrow> manager \<Rightarrow> control_state" where
  "control_state_of host0 m =
     (let host = trim_space host0 in
      if host = [] then idle_state
      else (case mg_states m host of
          Some s \<Rightarrow> if cs_state s \<noteq> [] then s else idle_state\<lparr>cs_generation := mg_generation m\<rparr>
        | None \<Rightarrow> idle_state\<lparr>cs_generation := mg_generation m\<rparr>))"

definition has_active_session :: "(nat \<Rightarrow> bool) \<Rightarrow> string \<Rightarrow> manager \<Rightarrow> bool" where
  "has_active_session closed host0 m =
     (let host = trim_space host0 in
      host \<noteq> [] \<and> (case mg_sessions m host of None \<Rightarrow> False | Some s \<Rightarrow> \<not> closed s))"

text \<open>\<open>hosts\<close> lists the keys of the session table.\<close>

definition active_session_count :: "(nat \<Rightarrow> bool) \<Rightarrow> string list \<Rightarrow> manager \<Rightarrow> nat" where
  "active_session_count closed hosts m =
     length (filter (\<lambda>h. case mg_sessions m h of None \<Rightarrow> False | Some s \<Rightarrow> \<not> closed s) hosts)"

definition empty_state :: control_state where
  "empty_state = idle_state\<lparr>cs_state := []\<rparr>"

text \<open>
  \<open>setControlState\<close>; the second component is what \<open>StateChanged\<close> is told.
\<close>

definition set_control_state ::
  "string \<Rightarrow> string \<Rightarrow> string \<Rightarrow> string \<Rightarrow> go_error option \<Rightarrow> manager \<Rightarrow> manager \<times> (string \<times> control_state) option" where
  "set_control_state now host0 state0 transport err m =
     (let host = trim_space host0; state = (if state0 = [] then state_idle else state0) in
      if host = [] then (m, None)
      else (let next = \<lparr>cs_state = state, cs_transport = transport, cs_generation = 0,
                    cs_error_code = (case err of None \<Rightarrow> [] | Some e \<Rightarrow> action_error_code e),
                    cs_error = (case err of None \<Rightarrow> [] | Some e \<Rightarrow> error_message e), cs_updated = now\<rparr>;
                current = (case mg_states m host of None \<Rightarrow> empty_state | Some s \<Rightarrow> s);
                changed = (cs_state current \<noteq> cs_state next \<or> cs_transport current \<noteq> cs_transport next \<or>
                    cs_error current \<noteq> cs_error next \<or> cs_error_code current \<noteq> cs_error_code next);
                gen = (if changed then mg_generation m + 1 else mg_generation m);
                stored = next\<lparr>cs_generation := gen\<rparr> in
        (m\<lparr>mg_generation := gen, mg_states := (mg_states m)(host := Some stored)\<rparr>,
         if changed then Some (host, stored) else None)))"

text \<open>\<open>setAllControlStates\<close> walks a snapshot of the states, in any order.\<close>

fun set_all_states :: "string \<Rightarrow> (string \<times> control_state) list \<Rightarrow> string \<Rightarrow> go_error option \<Rightarrow> manager \<Rightarrow> manager" where
  "set_all_states now [] state err m = m"
| "set_all_states now ((host, current) # rest) state err m =
     set_all_states now rest state err (fst (set_control_state now host state (cs_transport current) err m))"

section \<open>Suppressing the local network\<close>

definition lan_failure_window :: int where "lan_failure_window = 30 * 1000000000"

definition lan_suppressed :: "int \<Rightarrow> string \<Rightarrow> manager \<Rightarrow> bool" where
  "lan_suppressed now host m = (case mg_lan_failed m (trim_space host) of None \<Rightarrow> False | Some until \<Rightarrow> now < until)"

definition mark_lan_failed :: "int \<Rightarrow> string \<Rightarrow> manager \<Rightarrow> manager" where
  "mark_lan_failed now host m =
     m\<lparr>mg_lan_failed := (mg_lan_failed m)(trim_space host := Some (now + lan_failure_window)), mg_generation := mg_generation m + 1\<rparr>"

definition clear_lan_failure :: "string \<Rightarrow> manager \<Rightarrow> manager" where
  "clear_lan_failure host m =
     (case mg_lan_failed m (trim_space host) of
        None \<Rightarrow> m
      | Some until \<Rightarrow> m\<lparr>mg_lan_failed := (mg_lan_failed m)(trim_space host := None), mg_generation := mg_generation m + 1\<rparr>)"

text \<open>What \<open>getSession\<close> learns of the local network from an opened connection.\<close>

definition note_transport :: "int \<Rightarrow> string \<Rightarrow> string \<Rightarrow> manager \<Rightarrow> manager" where
  "note_transport now host transport m =
     (if transport = ''relay'' then mark_lan_failed now host m
      else if transport = ''lan'' then clear_lan_failure host m
      else m)"

section \<open>Requests\<close>

definition retried_capabilities :: "string list" where
  "retried_capabilities = [''core.read'', ''workspace.files.read'', ''media.read'']"

definition retried_actions :: "string list" where
  "retried_actions =
     [''core.read.host_snapshot'', ''core.read.workbench'', ''core.read.session_view'', ''core.read.sessions'',
      ''core.read.workspaces'', ''core.read.workspace.connection'', ''core.read.events'',
      ''workspace.files.read'', ''media.read'']"

definition request_can_retry :: "string \<Rightarrow> string \<Rightarrow> bool" where
  "request_can_retry capability action \<longleftrightarrow> capability \<in> set retried_capabilities \<and> action \<in> set retried_actions"

definition max_duration :: "int \<Rightarrow> int \<Rightarrow> int" where
  "max_duration a b = (if a \<le> 0 \<or> b \<le> 0 then 0 else if a > b then a else b)"

definition round_trip_timeout :: "int \<Rightarrow> string \<Rightarrow> int" where
  "round_trip_timeout transport_timeout action =
     (if action = ''core.control.workspace.connect'' then max_duration transport_timeout (45 * 1000000000)
      else transport_timeout)"

text \<open>\<open>fmt.Errorf\<close> with \<open>%w\<close>: the wrapped error keeps its code for \<open>ErrorCode\<close>.\<close>

fun wrap_error :: "string \<Rightarrow> go_error \<Rightarrow> go_error" where
  "wrap_error prefix (ActionError st code msg) = ActionError st code (prefix @ msg)"
| "wrap_error prefix (OpaqueError msg) = OpaqueError (prefix @ msg)"

type_synonym control_answer = "go_any control_response"

definition needs_authorization :: "control_answer \<Rightarrow> bool" where
  "needs_authorization r = (case cr_error r of None \<Rightarrow> False | Some e \<Rightarrow> ce_code e = authorization_code)"

definition response_action_error :: "control_answer \<Rightarrow> string \<Rightarrow> go_error" where
  "response_action_error r action =
     (case cr_error r of
        Some e \<Rightarrow> ActionError (ce_status e) (ce_code e) (ce_message e)
      | None \<Rightarrow> ActionError 500 ''control_action_failed'' (''control action failed: '' @ action))"

text \<open>
  \<open>Request\<close> over its parameters once they are marshalled: \<open>attempt k\<close> is \<open>requestOnce\<close> with a fresh request id,
  \<open>drop\<close> is \<open>Invalidate\<close> with a reason.
\<close>

definition transport_request ::
  "(nat \<Rightarrow> 'w \<Rightarrow> (go_error + control_answer) \<times> 'w) \<Rightarrow> (string \<Rightarrow> 'w \<Rightarrow> 'w) \<Rightarrow> string \<Rightarrow> string \<Rightarrow> 'w \<Rightarrow>
   (go_error + control_answer) \<times> 'w" where
  "transport_request attempt invalidate capability action w =
     (case (case attempt 0 w of
         (Inl e, w1) \<Rightarrow> if request_can_retry capability action then attempt 1 (invalidate ''retry_read_after_error'' w1) else (Inl e, w1)
       | (Inr r, w1) \<Rightarrow> (Inr r, w1)) of
       (Inl e, w2) \<Rightarrow> (Inl (wrap_error ''remote control request failed: '' e), w2)
     | (Inr r, w2) \<Rightarrow> (Inr r, if needs_authorization r then invalidate authorization_code w2 else w2))"

section \<open>Frames\<close>

type_synonym frame = "go_any plain_frame"

record terminal_payload =
  tp_terminal :: string
  tp_workspace :: string
  tp_target :: string
  tp_status :: string
  tp_output_seq :: int
  tp_viewer :: string
  tp_lease :: string
  tp_heartbeat_seq :: int
  tp_rendered_seq :: int
  tp_data :: string
  tp_cols :: int
  tp_rows :: int
  tp_reason :: string
  tp_code :: string
  tp_can_input :: bool

text \<open>
  The JSON decoders: the stream id of a raw payload (empty if it does not decode), the payload of a terminal
  frame, the envelope of an event (stream id, sequence number and event), and the tabs of a terminal list.
\<close>

record remote_tab =
  tb_terminal :: string
  tb_shell :: string
  tb_cwd :: string
  tb_status :: string
  tb_output_seq :: int

record frame_codec =
  fc_stream :: "string \<Rightarrow> string"
  fc_terminal :: "string \<Rightarrow> terminal_payload option"
  fc_event :: "string \<Rightarrow> (string \<times> int \<times> string) option"
  fc_tabs :: "go_any \<Rightarrow> remote_tab list"

definition raw_stream_id :: "frame_codec \<Rightarrow> string \<Rightarrow> string" where
  "raw_stream_id J body = trim_space (fc_stream J body)"

definition plain_frame_stream_id :: "frame_codec \<Rightarrow> frame \<Rightarrow> string" where
  "plain_frame_stream_id J f =
     (let rest = (if pf_media f \<noteq> [] then raw_stream_id J (pf_media f)
                  else if pf_workspace_file f \<noteq> [] then raw_stream_id J (pf_workspace_file f)
                  else []) in
      if pf_event f \<noteq> [] then raw_stream_id J (pf_event f)
      else if pf_terminal f \<noteq> [] then
        (case fc_terminal J (pf_terminal f) of Some p \<Rightarrow> trim_space (tp_terminal p) | None \<Rightarrow> rest)
      else rest)"

text \<open>\<open>decodeEventFrame\<close> without a decoder of its own.\<close>

definition decode_event_frame :: "frame_codec \<Rightarrow> string \<Rightarrow> frame \<Rightarrow> (int \<times> string) option" where
  "decode_event_frame J sid f =
     (if pf_event f = [] then None
      else (case fc_event J (pf_event f) of
          None \<Rightarrow> None
        | Some (stream, seq, event) \<Rightarrow> if stream \<noteq> sid \<or> event = [] then None else Some (seq, event)))"

record terminal_frame =
  te_type :: string
  te_response :: "control_answer option"
  te_terminal :: "terminal_payload option"

definition to_terminal_frame :: "frame_codec \<Rightarrow> frame \<Rightarrow> terminal_frame" where
  "to_terminal_frame J f =
     \<lparr>te_type = pf_type f, te_response = pf_response f,
      te_terminal = (if pf_terminal f = [] then None else fc_terminal J (pf_terminal f))\<rparr>"

text \<open>\<open>acceptFrame\<close> of the viewer and the input lease of a terminal stream.\<close>

definition accept_frame :: "string \<Rightarrow> string \<Rightarrow> terminal_frame \<Rightarrow> bool" where
  "accept_frame viewer lease f =
     (case te_terminal f of
        None \<Rightarrow> True
      | Some p \<Rightarrow>
          te_type f \<noteq> ''terminal.error'' \<or> (blank (tp_viewer p) \<and> blank (tp_lease p)) \<or>
          (trim_space (tp_viewer p) = viewer \<and> trim_space (tp_lease p) = lease))"

section \<open>A session\<close>

definition stream_buffer_size :: nat where "stream_buffer_size = 128"
definition orphan_frame_limit :: nat where "orphan_frame_limit = 128"

record frame_chan =
  ch_buffer :: "frame list"
  ch_capacity :: nat
  ch_closed :: bool

record link =
  ln_host :: string
  ln_target :: resolved_target
  ln_closed :: bool
  ln_error :: "go_error option"
  ln_pending :: "string \<Rightarrow> nat option"
  ln_streams :: "string \<Rightarrow> nat list"
  ln_orphans :: "string \<Rightarrow> frame list"
  ln_chans :: "nat \<Rightarrow> frame_chan"
  ln_next :: nat

definition new_link :: "string \<Rightarrow> resolved_target \<Rightarrow> link" where
  "new_link host target =
     \<lparr>ln_host = host, ln_target = target, ln_closed = False, ln_error = None, ln_pending = (\<lambda>_. None),
      ln_streams = (\<lambda>_. []), ln_orphans = (\<lambda>_. []),
      ln_chans = (\<lambda>_. \<lparr>ch_buffer = [], ch_capacity = 0, ch_closed = False\<rparr>), ln_next = 0\<rparr>"

definition closed_error :: "link \<Rightarrow> go_error" where
  "closed_error s = (case ln_error s of Some e \<Rightarrow> e | None \<Rightarrow> OpaqueError ''remote control session closed'')"

definition new_chan :: "nat \<Rightarrow> frame list \<Rightarrow> link \<Rightarrow> nat \<times> link" where
  "new_chan capacity buffered s =
     (ln_next s, s\<lparr>ln_chans := (ln_chans s)(ln_next s := \<lparr>ch_buffer = buffered, ch_capacity = capacity, ch_closed = False\<rparr>),
        ln_next := ln_next s + 1\<rparr>)"

text \<open>
  \<open>safeFrameSend\<close> recovers from a send on a closed channel and drops the frame if the channel is full;
  \<open>safeCloseFrameChan\<close> recovers from a second close.
\<close>

definition safe_send :: "nat \<Rightarrow> frame \<Rightarrow> link \<Rightarrow> link" where
  "safe_send c f s =
     (let ch = ln_chans s c in
      if \<not> ch_closed ch \<and> length (ch_buffer ch) < ch_capacity ch
      then s\<lparr>ln_chans := (ln_chans s)(c := ch\<lparr>ch_buffer := ch_buffer ch @ [f]\<rparr>)\<rparr>
      else s)"

definition safe_close :: "nat \<Rightarrow> link \<Rightarrow> link" where
  "safe_close c s = s\<lparr>ln_chans := (ln_chans s)(c := (ln_chans s c)\<lparr>ch_closed := True\<rparr>)\<rparr>"

text \<open>The part of \<open>request\<close> that registers the channel for the response.\<close>

definition register_request :: "string \<Rightarrow> link \<Rightarrow> nat \<times> link" where
  "register_request id0 s =
     (case new_chan 1 [] s of (c, s1) \<Rightarrow> (c, s1\<lparr>ln_pending := (ln_pending s1)(id0 := Some c)\<rparr>))"

definition unregister_request :: "string \<Rightarrow> link \<Rightarrow> link" where
  "unregister_request id0 s = s\<lparr>ln_pending := (ln_pending s)(id0 := None)\<rparr>"

text \<open>
  \<open>registerStream\<close> sends the orphaned frames into the new channel with the lock held, which would block for
  ever if there were more than it has room for (\<open>None\<close>).
\<close>

definition register_stream :: "string \<Rightarrow> link \<Rightarrow> (nat \<times> link) option" where
  "register_stream sid s =
     (if length (ln_orphans s sid) > stream_buffer_size then None
      else (case new_chan stream_buffer_size (ln_orphans s sid) s of (c, s1) \<Rightarrow>
        Some (c, s1\<lparr>ln_orphans := (ln_orphans s1)(sid := []), ln_streams := (ln_streams s1)(sid := ln_streams s1 sid @ [c])\<rparr>)))"

text \<open>Unregistering removes the channel from its list with the lock held; the channel is closed after that.\<close>

definition unregister_stream :: "string \<Rightarrow> nat \<Rightarrow> link \<Rightarrow> link" where
  "unregister_stream sid c s = s\<lparr>ln_streams := (ln_streams s)(sid := filter (\<lambda>d. d \<noteq> c) (ln_streams s sid))\<rparr>"

text \<open>
  \<open>routeFrame\<close> looks up where a frame goes with the lock held and sends after that.
\<close>

datatype push = Push nat frame | CloseChan nat

definition route_frame :: "frame_codec \<Rightarrow> frame \<Rightarrow> link \<Rightarrow> push list \<times> link" where
  "route_frame J f s =
     (case pf_response f of
        Some r \<Rightarrow>
          (let rid = trim_space (cr_id r) in
           case ln_pending s rid of
             None \<Rightarrow> ([], s)
           | Some c \<Rightarrow> ([Push c f, CloseChan c], s\<lparr>ln_pending := (ln_pending s)(rid := None)\<rparr>))
      | None \<Rightarrow>
          (let sid = plain_frame_stream_id J f in
           if sid = [] then ([], s)
           else if ln_streams s sid = []
             then (let orphaned = ln_orphans s sid @ [f];
                       kept = (if length orphaned > orphan_frame_limit then drop (length orphaned - orphan_frame_limit) orphaned
                               else orphaned) in
               ([], s\<lparr>ln_orphans := (ln_orphans s)(sid := kept)\<rparr>))
           else (map (\<lambda>c. Push c f) (ln_streams s sid), s)))"

fun do_push :: "push \<Rightarrow> link \<Rightarrow> link" where
  "do_push (Push c f) s = safe_send c f s"
| "do_push (CloseChan c) s = safe_close c s"

text \<open>
  \<open>closeWithError\<close> runs once: it marks the session closed, then with the lock held closes the channels of all
  requests and streams and forgets the orphans.
\<close>

definition close_link :: "go_error option \<Rightarrow> link \<Rightarrow> link" where
  "close_link err s =
     s\<lparr>ln_closed := True,
       ln_error := Some (case err of None \<Rightarrow> OpaqueError ''remote control session closed'' | Some e \<Rightarrow> e)\<rparr>"

definition close_channels :: "link \<Rightarrow> link" where
  "close_channels s =
     s\<lparr>ln_chans := (\<lambda>c. if (\<exists>rid. ln_pending s rid = Some c) \<or> (\<exists>sid. c \<in> set (ln_streams s sid))
          then (ln_chans s c)\<lparr>ch_closed := True\<rparr> else ln_chans s c),
       ln_pending := (\<lambda>_. None), ln_streams := (\<lambda>_. []), ln_orphans := (\<lambda>_. [])\<rparr>"

text \<open>The answer of a request that received from its channel; an empty closed channel gives \<open>None\<close>.\<close>

definition request_answer :: "frame option \<Rightarrow> link \<Rightarrow> go_error + control_answer" where
  "request_answer received s =
     (case received of
        None \<Rightarrow> Inl (closed_error s)
      | Some f \<Rightarrow> (case pf_response f of
          None \<Rightarrow> Inl (OpaqueError ''remote did not return a response frame'')
        | Some r \<Rightarrow> Inr r))"


section \<open>Properties of the manager\<close>

lemma set_control_state_frame [frame]:
  "mg_sessions (fst (set_control_state now h st tr e m)) = mg_sessions m"
  "mg_lan_failed (fst (set_control_state now h st tr e m)) = mg_lan_failed m"
  by (simp_all add: set_control_state_def Let_def)

lemma control_state_stored:
  "trim_space h \<noteq> [] \<Longrightarrow> st \<noteq> [] \<Longrightarrow>
   control_state_of h (fst (set_control_state now h st tr e m)) =
     \<lparr>cs_state = st, cs_transport = tr, cs_generation = mg_generation (fst (set_control_state now h st tr e m)),
      cs_error_code = (case e of None \<Rightarrow> [] | Some x \<Rightarrow> action_error_code x),
      cs_error = (case e of None \<Rightarrow> [] | Some x \<Rightarrow> error_message x), cs_updated = now\<rparr>"
  by (simp add: set_control_state_def control_state_of_def Let_def)

lemma control_state_other:
  "trim_space h' \<noteq> trim_space h \<Longrightarrow>
   mg_states (fst (set_control_state now h st tr e m)) (trim_space h') = mg_states m (trim_space h')"
  by (simp add: set_control_state_def Let_def)

lemma generation_grows:
  "mg_generation m \<le> mg_generation (fst (set_control_state now h st tr e m))"
  by (simp add: set_control_state_def Let_def)

lemma generation_marks_change:
  "snd (set_control_state now h st tr e m) = Some (h', s) \<Longrightarrow>
   mg_generation (fst (set_control_state now h st tr e m)) = mg_generation m + 1 \<and> cs_generation s = mg_generation m + 1 \<and>
   h' = trim_space h \<and> mg_states (fst (set_control_state now h st tr e m)) h' = Some s"
  by (auto simp: set_control_state_def Let_def split: if_splits)

lemma quiet_same_state:
  "snd (set_control_state now h st tr e m) = None \<Longrightarrow>
   mg_generation (fst (set_control_state now h st tr e m)) = mg_generation m"
  by (auto simp: set_control_state_def Let_def split: if_splits)

text \<open>Every state of a reachable manager carries a generation the manager has reached.\<close>

definition generations_ok :: "manager \<Rightarrow> bool" where
  "generations_ok m \<longleftrightarrow> (\<forall>h s. mg_states m h = Some s \<longrightarrow> cs_generation s \<le> mg_generation m)"

lemma generations_new: "generations_ok new_manager"
  by (simp add: generations_ok_def new_manager_def)

lemma generations_set: "generations_ok m \<Longrightarrow> generations_ok (fst (set_control_state now h st tr e m))"
  by (fastforce simp: generations_ok_def set_control_state_def Let_def)

lemma generations_note: "generations_ok m \<Longrightarrow> generations_ok (note_transport now h t m)"
  by (fastforce simp: generations_ok_def note_transport_def mark_lan_failed_def clear_lan_failure_def split: option.splits)

lemma generations_all: "generations_ok m \<Longrightarrow> generations_ok (set_all_states now sts st e m)"
  by (induction now sts st e m rule: set_all_states.induct) (simp_all add: generations_set)

text \<open>
  A connection through the relay suppresses the local network for exactly thirty seconds; one over the local
  network lifts that at once.
\<close>

theorem relay_suppresses_lan:
  assumes "now \<le> t" "t < now + 30 * 1000000000"
  shows "lan_suppressed t h (note_transport now h ''relay'' m) \<and>
    \<not> lan_suppressed (now + 30 * 1000000000) h (note_transport now h ''relay'' m) \<and>
    \<not> lan_suppressed t h (note_transport t h ''lan'' (note_transport now h ''relay'' m))"
  using assms by (simp add: lan_suppressed_def note_transport_def mark_lan_failed_def clear_lan_failure_def lan_failure_window_def)

theorem relay_suppresses_lan_witness:
  "lan_suppressed 5 ''h'' (note_transport 0 ''h'' ''relay'' new_manager)"
  using relay_suppresses_lan[of 0 5 "''h''" new_manager] by simp

text \<open>
  A request that is not a read is sent at most once, whatever errors occur: only the reads of three capabilities
  are retried.
\<close>

theorem commands_sent_once:
  assumes "capability \<notin> set retried_capabilities"
  shows "snd (transport_request (\<lambda>k n. (answer k n, Suc n)) (\<lambda>_ n. n) capability action 0) = 1"
  using assms by (auto simp: transport_request_def request_can_retry_def split: sum.splits)

theorem commands_sent_once_witness:
  "snd (transport_request (\<lambda>k n. (Inl (OpaqueError ''timeout''), Suc n)) (\<lambda>_ n. n) ''core.control'' ''core.control.session_input'' 0)
    = (1::nat)"
  by (rule commands_sent_once) (simp add: retried_capabilities_def)

lemma at_most_two_attempts:
  "snd (transport_request (\<lambda>k n. (answer k n, Suc n)) (\<lambda>_ n. n) capability action 0) \<le> 2"
  by (auto simp: transport_request_def split: sum.splits)

lemma retried_actions_read:
  "list_all (\<lambda>a. required_capability a \<in> set retried_capabilities) retried_actions"
  by code_simp

section \<open>Event and terminal streams\<close>

text \<open>\<open>mapValue\<close> of a result; a value that is not an object gives the empty map.\<close>

definition result_field :: "control_answer \<Rightarrow> string \<Rightarrow> go_any" where
  "result_field r name = field (map_value (case cr_result r of None \<Rightarrow> AnyNil | Some v \<Rightarrow> v)) name"

text \<open>What is done besides the answer.\<close>

datatype stream_effect = Unregister | CloseTerminal string | InvalidateHost string

definition authorization_effects :: "control_answer \<Rightarrow> stream_effect list" where
  "authorization_effects r = (if needs_authorization r then [InvalidateHost authorization_code] else [])"

definition subscribe_events :: "go_error + control_answer \<Rightarrow> (go_error + string) \<times> stream_effect list" where
  "subscribe_events answer =
     (case answer of
        Inl e \<Rightarrow> (Inl (wrap_error ''remote event subscription failed: '' e), [])
      | Inr r \<Rightarrow>
          if \<not> cr_ok r then (Inl (response_action_error r ''core.subscribe.events''), authorization_effects r)
          else (let sid = string_value (result_field r ''stream_id'') in
            if sid = [] then (Inl (OpaqueError ''remote event subscription response missing stream_id''), []) else (Inr sid, [])))"

text \<open>\<open>remoteTerminalForWorkspace\<close> and \<open>remoteTerminalByID\<close>: the terminal id, shell and directory.\<close>

definition terminal_for_workspace :: "go_error + control_answer \<Rightarrow> (go_error + (string \<times> string \<times> string)) \<times> stream_effect list" where
  "terminal_for_workspace answer =
     (case answer of
        Inl e \<Rightarrow> (Inl (wrap_error ''remote terminal open failed: '' e), [])
      | Inr r \<Rightarrow>
          if \<not> cr_ok r then (Inl (response_action_error r ''terminal.open''), authorization_effects r)
          else (let tid = string_value (result_field r ''terminal_id'') in
            if tid = [] then (Inl (OpaqueError ''remote terminal response missing terminal_id''), [])
            else (Inr (tid, string_value (result_field r ''shell''), string_value (result_field r ''cwd'')), [])))"

definition terminal_by_id ::
  "frame_codec \<Rightarrow> string \<Rightarrow> go_error + control_answer \<Rightarrow> go_error + (string \<times> string \<times> string \<times> int)" where
  "terminal_by_id J terminal0 answer =
     (let terminal = trim_space terminal0 in
      if terminal = [] then Inl (OpaqueError ''terminal_id is required'')
      else (case answer of
          Inl e \<Rightarrow> Inl (wrap_error ''remote terminal list failed: '' e)
        | Inr r \<Rightarrow>
            if \<not> cr_ok r then Inl (response_action_error r ''terminal.list'')
            else (case List.find (\<lambda>t. tb_terminal t = terminal \<and> tb_status t = ''open'')
                  (fc_tabs J (case cr_result r of None \<Rightarrow> AnyNil | Some v \<Rightarrow> v)) of
                Some t \<Rightarrow> Inr (tb_terminal t, tb_shell t, tb_cwd t, tb_output_seq t)
              | None \<Rightarrow> Inl (ActionError 404 ''terminal_not_found'' ''terminal not found''))))"

text \<open>\<open>attachTerminal\<close> once the stream is registered: the viewer, its lease and the sequence number.\<close>

definition attach_failed :: "bool \<Rightarrow> string \<Rightarrow> stream_effect list" where
  "attach_failed created terminal = Unregister # (if created \<and> \<not> blank terminal then [CloseTerminal terminal] else [])"

definition attach_terminal ::
  "bool \<Rightarrow> string \<Rightarrow> int \<Rightarrow> go_error + control_answer \<Rightarrow> (go_error + (string \<times> string \<times> int)) \<times> stream_effect list" where
  "attach_terminal created terminal after_seq answer =
     (case answer of
        Inl e \<Rightarrow> (Inl (wrap_error ''remote terminal attach failed: '' e), attach_failed created terminal)
      | Inr r \<Rightarrow>
          if \<not> cr_ok r
            then (Inl (response_action_error r ''terminal.attach''), attach_failed created terminal @ authorization_effects r)
          else (let seq = number_value (result_field r ''output_seq'');
                    viewer = string_value (result_field r ''viewer_id''); lease = string_value (result_field r ''input_lease_id'') in
            if viewer = [] \<or> lease = []
              then (Inl (OpaqueError ''remote terminal attach response missing viewer lease''), attach_failed created terminal)
              else (Inr (viewer, lease, if seq > 0 then seq else after_seq), [])))"

text \<open>
  A failed attachment takes its stream back and closes the terminal exactly if it was opened for it.
\<close>

theorem attach_cleans_up:
  assumes "attach_terminal created terminal after_seq answer = (Inl e, effects)"
  shows "Unregister \<in> set effects \<and> (CloseTerminal terminal \<in> set effects \<longleftrightarrow> created \<and> \<not> blank terminal)"
  using assms by (auto simp: attach_terminal_def attach_failed_def authorization_effects_def Let_def split: sum.splits if_splits)

theorem attach_cleans_up_witness:
  "snd (attach_terminal True ''term_1'' 0 (Inl (OpaqueError ''EOF''))) = [Unregister, CloseTerminal ''term_1'']"
proof -
  have b: "\<not> blank ''term_1''" by code_simp
  have run: "attach_terminal True ''term_1'' 0 (Inl (OpaqueError ''EOF'')) =
      (Inl (OpaqueError ''remote terminal attach failed: EOF''), [Unregister, CloseTerminal ''term_1''])"
    by (simp add: attach_terminal_def attach_failed_def b)
  show ?thesis using attach_cleans_up[OF run] run by simp
qed

lemma attached_lease:
  "attach_terminal created terminal after_seq answer = (Inr (viewer, lease, seq), effects) \<Longrightarrow>
   viewer \<noteq> [] \<and> lease \<noteq> [] \<and> (0 \<le> after_seq \<longrightarrow> 0 \<le> seq) \<and> effects = []"
  by (auto simp: attach_terminal_def Let_def split: sum.splits if_splits)

text \<open>\<open>remoteTerminalResize\<close> sends nothing for a size that is not positive.\<close>

definition resize_sent :: "int \<Rightarrow> int \<Rightarrow> bool" where
  "resize_sent cols rows \<longleftrightarrow> cols > 0 \<and> rows > 0"

text \<open>\<open>writeTerminalFrame\<close> and \<open>writeTerminalRequest\<close> on the connection: a failed write closes the session.\<close>

definition write_terminal :: "go_error option \<Rightarrow> link \<Rightarrow> go_error option \<times> link" where
  "write_terminal failed s =
     (if ln_closed s then (Some (closed_error s), s)
      else (case failed of None \<Rightarrow> (None, s) | Some e \<Rightarrow> (Some e, close_link (Some e) s)))"
end
