(* ===== verification/ControllerStreams.thy ===== *)
theory ControllerStreams
  imports ControllerTransport "HOL-Library.Sublist"
begin

text \<open>
  One session of the connection manager under every interleaving: the reader (\<open>readLoop\<close> with \<open>routeFrame\<close>), the
  callers of \<open>request\<close>, the owners of event and terminal streams, and the goroutine that closes the session
  (\<open>closeWithError\<close>). A step is what one of them does between two points at which another may run: one
  critical section of \<open>s.mu\<close>, one send, one close or one receive.
\<close>

section \<open>Steps\<close>

text \<open>
  Besides the session: the pushes the reader has still to make for the frame it has routed, and, to state the
  properties, the frames routed, what was received from each channel, what each channel was made for, the
  channels that were full when a frame came, how many frames of its stream had come when a channel was made, and
  how far closing has got.
\<close>

record conn =
  cn_link :: link
  cn_route :: "push list"
  cn_removed :: "nat list"
  cn_torn :: bool
  cn_routed :: "frame list"
  cn_got :: "nat \<Rightarrow> frame list"
  cn_stream :: "nat \<Rightarrow> string option"
  cn_request :: "nat \<Rightarrow> string option"
  cn_lost :: "nat \<Rightarrow> bool"
  cn_from :: "nat \<Rightarrow> nat"

definition new_conn :: "string \<Rightarrow> resolved_target \<Rightarrow> conn" where
  "new_conn host target =
     \<lparr>cn_link = new_link host target, cn_route = [], cn_removed = [], cn_torn = False, cn_routed = [],
      cn_got = (\<lambda>_. []), cn_stream = (\<lambda>_. None), cn_request = (\<lambda>_. None), cn_lost = (\<lambda>_. False), cn_from = (\<lambda>_. 0)\<rparr>"

definition read_frame :: "frame_codec \<Rightarrow> frame \<Rightarrow> conn \<Rightarrow> conn" where
  "read_frame J f w =
     (case route_frame J f (cn_link w) of (ps, l) \<Rightarrow> w\<lparr>cn_link := l, cn_route := ps, cn_routed := cn_routed w @ [f]\<rparr>)"

fun overflows :: "push \<Rightarrow> link \<Rightarrow> nat \<Rightarrow> bool" where
  "overflows (Push c f) l d = (d = c \<and> \<not> ch_closed (ln_chans l c) \<and> ch_capacity (ln_chans l c) \<le> length (ch_buffer (ln_chans l c)))"
| "overflows (CloseChan c) l d = False"

definition push_one :: "push \<Rightarrow> push list \<Rightarrow> conn \<Rightarrow> conn" where
  "push_one p ps w =
     w\<lparr>cn_link := do_push p (cn_link w), cn_route := ps, cn_lost := (\<lambda>c. cn_lost w c \<or> overflows p (cn_link w) c)\<rparr>"

definition start_request :: "string \<Rightarrow> conn \<Rightarrow> conn" where
  "start_request rid w =
     (case register_request rid (cn_link w) of (c, l) \<Rightarrow> w\<lparr>cn_link := l, cn_request := (cn_request w)(c := Some rid)\<rparr>)"

definition drop_request :: "string \<Rightarrow> conn \<Rightarrow> conn" where
  "drop_request rid w = w\<lparr>cn_link := unregister_request rid (cn_link w)\<rparr>"

definition frame_for :: "frame_codec \<Rightarrow> string \<Rightarrow> frame \<Rightarrow> bool" where
  "frame_for J sid f \<longleftrightarrow> pf_response f = None \<and> plain_frame_stream_id J f = sid \<and> sid \<noteq> []"

definition frames_for :: "frame_codec \<Rightarrow> string \<Rightarrow> conn \<Rightarrow> frame list" where
  "frames_for J sid w = filter (frame_for J sid) (cn_routed w)"

definition open_stream :: "frame_codec \<Rightarrow> string \<Rightarrow> nat \<Rightarrow> link \<Rightarrow> conn \<Rightarrow> conn" where
  "open_stream J sid c l w =
     w\<lparr>cn_link := l, cn_stream := (cn_stream w)(c := Some sid), cn_from := (cn_from w)(c := length (frames_for J sid w))\<rparr>"

definition remove_stream :: "string \<Rightarrow> nat \<Rightarrow> conn \<Rightarrow> conn" where
  "remove_stream sid c w = w\<lparr>cn_link := unregister_stream sid c (cn_link w), cn_removed := c # cn_removed w\<rparr>"

definition close_stream :: "nat \<Rightarrow> conn \<Rightarrow> conn" where
  "close_stream c w = w\<lparr>cn_link := safe_close c (cn_link w)\<rparr>"

definition take_buffered :: "nat \<Rightarrow> frame \<Rightarrow> frame list \<Rightarrow> conn \<Rightarrow> conn" where
  "take_buffered c f fs w =
     w\<lparr>cn_link := (cn_link w)\<lparr>ln_chans := (ln_chans (cn_link w))(c := (ln_chans (cn_link w) c)\<lparr>ch_buffer := fs\<rparr>)\<rparr>,
       cn_got := (cn_got w)(c := cn_got w c @ [f])\<rparr>"

definition shut_conn :: "go_error option \<Rightarrow> conn \<Rightarrow> conn" where
  "shut_conn err w = w\<lparr>cn_link := close_link err (cn_link w)\<rparr>"

definition tear_conn :: "conn \<Rightarrow> conn" where
  "tear_conn w = w\<lparr>cn_link := close_channels (cn_link w), cn_torn := True\<rparr>"

inductive conn_step :: "frame_codec \<Rightarrow> conn \<Rightarrow> conn \<Rightarrow> bool" for J where
  read: "cn_route w = [] \<Longrightarrow> conn_step J w (read_frame J f w)"
| push: "cn_route w = p # ps \<Longrightarrow> conn_step J w (push_one p ps w)"
| request: "conn_step J w (start_request rid w)"
| give_up: "conn_step J w (drop_request rid w)"
| stream: "register_stream sid (cn_link w) = Some (c, l) \<Longrightarrow> conn_step J w (open_stream J sid c l w)"
| remove: "cn_stream w c = Some sid \<Longrightarrow> conn_step J w (remove_stream sid c w)"
| shut_stream: "c \<in> set (cn_removed w) \<Longrightarrow> conn_step J w (close_stream c w)"
| receive: "ch_buffer (ln_chans (cn_link w) c) = f # fs \<Longrightarrow> conn_step J w (take_buffered c f fs w)"
| shut: "\<not> ln_closed (cn_link w) \<Longrightarrow> conn_step J w (shut_conn err w)"
| tear: "ln_closed (cn_link w) \<Longrightarrow> \<not> cn_torn w \<Longrightarrow> conn_step J w (tear_conn w)"

inductive conn_reach :: "frame_codec \<Rightarrow> conn \<Rightarrow> bool" for J where
  start: "conn_reach J (new_conn host target)"
| step: "conn_reach J w \<Longrightarrow> conn_step J w w' \<Longrightarrow> conn_reach J w'"

section \<open>What a channel holds\<close>

fun pushes_to :: "nat \<Rightarrow> push list \<Rightarrow> frame list" where
  "pushes_to c [] = []"
| "pushes_to c (Push d f # ps) = (if d = c then f # pushes_to c ps else pushes_to c ps)"
| "pushes_to c (CloseChan d # ps) = pushes_to c ps"

definition buffered :: "nat \<Rightarrow> conn \<Rightarrow> frame list" where
  "buffered c w = ch_buffer (ln_chans (cn_link w) c)"

definition holds_frames :: "nat \<Rightarrow> conn \<Rightarrow> frame list" where
  "holds_frames c w = cn_got w c @ buffered c w @ pushes_to c (cn_route w)"

definition registered :: "string \<Rightarrow> nat \<Rightarrow> conn \<Rightarrow> bool" where
  "registered sid c w \<longleftrightarrow> c \<in> set (ln_streams (cn_link w) sid)"

definition chan_closed :: "nat \<Rightarrow> conn \<Rightarrow> bool" where
  "chan_closed c w \<longleftrightarrow> ch_closed (ln_chans (cn_link w) c)"

section \<open>The invariant\<close>

lemma pushes_append [simp]: "pushes_to c (ps @ qs) = pushes_to c ps @ pushes_to c qs"
  by (induction c ps rule: pushes_to.induct) auto

lemma pushes_broadcast: "distinct cs \<Longrightarrow> pushes_to c (map (\<lambda>d. Push d f) cs) = (if c \<in> set cs then [f] else [])"
  by (induction cs) auto

lemma pushes_none: "\<forall>f. Push c f \<notin> set ps \<Longrightarrow> pushes_to c ps = []"
  by (induction c ps rule: pushes_to.induct) auto

text \<open>Where channels may occur.\<close>

fun push_known :: "nat \<Rightarrow> (nat \<Rightarrow> string option) \<Rightarrow> push \<Rightarrow> bool" where
  "push_known n rq (Push c f) = (c < n)"
| "push_known n rq (CloseChan c) = (c < n \<and> rq c \<noteq> None)"

definition chans_ok :: "conn \<Rightarrow> bool" where
  "chans_ok w \<longleftrightarrow>
     (\<forall>sid c. registered sid c w \<longrightarrow> cn_stream w c = Some sid) \<and>
     (\<forall>rid c. ln_pending (cn_link w) rid = Some c \<longrightarrow> cn_request w c = Some rid) \<and>
     (\<forall>c sid. cn_stream w c = Some sid \<longrightarrow> c < ln_next (cn_link w) \<and> cn_request w c = None) \<and>
     (\<forall>c rid. cn_request w c = Some rid \<longrightarrow> c < ln_next (cn_link w)) \<and>
     (\<forall>c \<ge> ln_next (cn_link w). cn_got w c = [] \<and> buffered c w = []) \<and>
     (\<forall>sid. distinct (ln_streams (cn_link w) sid)) \<and>
     (\<forall>c\<in>set (cn_removed w). cn_stream w c \<noteq> None \<and> (\<forall>sid. \<not> registered sid c w)) \<and>
     (\<forall>p\<in>set (cn_route w). push_known (ln_next (cn_link w)) (cn_request w) p)"

definition orphans_ok :: "frame_codec \<Rightarrow> conn \<Rightarrow> bool" where
  "orphans_ok J w \<longleftrightarrow>
     (\<forall>sid. length (ln_orphans (cn_link w) sid) \<le> orphan_frame_limit \<and>
        suffix (ln_orphans (cn_link w) sid) (frames_for J sid w) \<and>
        (ln_streams (cn_link w) sid \<noteq> [] \<longrightarrow> ln_orphans (cn_link w) sid = []))"

definition stream_ok :: "frame_codec \<Rightarrow> nat \<Rightarrow> conn \<Rightarrow> bool" where
  "stream_ok J c w \<longleftrightarrow>
     (\<forall>sid. cn_stream w c = Some sid \<longrightarrow>
        subseq (holds_frames c w) (frames_for J sid w) \<and>
        (registered sid c w \<longrightarrow> \<not> chan_closed c w \<and> (\<not> cn_lost w c \<longrightarrow>
           suffix (holds_frames c w) (frames_for J sid w) \<and> length (frames_for J sid w) \<le> cn_from w c + length (holds_frames c w))))"

definition answers :: "string \<Rightarrow> frame \<Rightarrow> bool" where
  "answers rid f \<longleftrightarrow> (\<exists>r. pf_response f = Some r \<and> trim_space (cr_id r) = rid)"

definition unmentioned :: "nat \<Rightarrow> conn \<Rightarrow> bool" where
  "unmentioned c w \<longleftrightarrow> (\<forall>f. Push c f \<notin> set (cn_route w)) \<and> CloseChan c \<notin> set (cn_route w)"

definition had :: "nat \<Rightarrow> conn \<Rightarrow> frame list" where
  "had c w = cn_got w c @ buffered c w"

definition req_waiting :: "nat \<Rightarrow> conn \<Rightarrow> bool" where
  "req_waiting c w \<longleftrightarrow> had c w = [] \<and> unmentioned c w \<and> (chan_closed c w \<longrightarrow> ln_closed (cn_link w))"

definition req_pushing :: "string \<Rightarrow> nat \<Rightarrow> conn \<Rightarrow> bool" where
  "req_pushing rid c w \<longleftrightarrow> had c w = [] \<and> \<not> chan_closed c w \<and>
     (\<exists>f. cn_route w = [Push c f, CloseChan c] \<and> answers rid f \<and> f \<in> set (cn_routed w))"

definition req_answered :: "string \<Rightarrow> nat \<Rightarrow> conn \<Rightarrow> bool" where
  "req_answered rid c w \<longleftrightarrow> (\<forall>f. Push c f \<notin> set (cn_route w)) \<and>
     (\<exists>f. had c w = [f] \<and> answers rid f \<and> f \<in> set (cn_routed w))"

definition request_ok :: "nat \<Rightarrow> conn \<Rightarrow> bool" where
  "request_ok c w \<longleftrightarrow>
     (\<forall>rid. cn_request w c = Some rid \<longrightarrow>
        ch_capacity (ln_chans (cn_link w) c) = 1 \<and>
        (req_waiting c w \<or> (ln_pending (cn_link w) rid \<noteq> Some c \<and> (req_pushing rid c w \<or> req_answered rid c w))) \<and>
        (ln_pending (cn_link w) rid = Some c \<longrightarrow> \<not> chan_closed c w))"

definition conn_inv :: "frame_codec \<Rightarrow> conn \<Rightarrow> bool" where
  "conn_inv J w \<longleftrightarrow> chans_ok w \<and> orphans_ok J w \<and> (\<forall>c. stream_ok J c w) \<and> (\<forall>c. request_ok c w)"

lemmas conn_views = holds_frames_def had_def buffered_def registered_def chan_closed_def frames_for_def
lemmas request_views = request_ok_def req_waiting_def req_pushing_def req_answered_def unmentioned_def

lemma conn_inv_start: "conn_inv J (new_conn host target)"
  by (simp add: conn_inv_def chans_ok_def orphans_ok_def stream_ok_def request_ok_def conn_views new_conn_def new_link_def)

lemma conn_invI:
  "chans_ok w \<Longrightarrow> orphans_ok J w \<Longrightarrow> (\<And>c. stream_ok J c w) \<Longrightarrow> (\<And>c. request_ok c w) \<Longrightarrow> conn_inv J w"
  by (simp add: conn_inv_def)

lemma conn_invD:
  assumes "conn_inv J w"
  shows "chans_ok w" "orphans_ok J w" "stream_ok J c w" "request_ok c w"
  using assms by (simp_all add: conn_inv_def)

text \<open>A channel that a step does not touch keeps its part of the invariant.\<close>

lemma stream_ok_cong:
  assumes "stream_ok J c w" "cn_stream w' c = cn_stream w c" "holds_frames c w' = holds_frames c w"
    "cn_routed w' = cn_routed w" "\<And>sid. registered sid c w' \<Longrightarrow> registered sid c w"
    "\<And>sid. registered sid c w \<Longrightarrow> chan_closed c w' \<Longrightarrow> registered sid c w' \<Longrightarrow> chan_closed c w"
    "cn_lost w c \<Longrightarrow> cn_lost w' c" "cn_from w' c = cn_from w c"
  shows "stream_ok J c w'"
  using assms by (auto simp: stream_ok_def frames_for_def)

lemma request_ok_cong:
  assumes "request_ok c w" "cn_request w' c = cn_request w c" "had c w' = had c w" "cn_routed w' = cn_routed w"
    "cn_route w' = cn_route w" "ch_capacity (ln_chans (cn_link w') c) = ch_capacity (ln_chans (cn_link w) c)"
    "chan_closed c w' = chan_closed c w" "ln_closed (cn_link w) \<Longrightarrow> ln_closed (cn_link w')"
    "\<And>rid. ln_pending (cn_link w') rid = Some c \<Longrightarrow> ln_pending (cn_link w) rid = Some c"
  shows "request_ok c w'"
  using assms by (fastforce simp: request_views)

lemma inv_shut:
  assumes "conn_inv J w"
  shows "conn_inv J (shut_conn err w)"
proof (rule conn_invI)
  show "stream_ok J c (shut_conn err w)" for c
    by (rule stream_ok_cong[OF conn_invD(3)[OF assms]]) (simp_all add: conn_views shut_conn_def close_link_def)
  show "request_ok c (shut_conn err w)" for c
    by (rule request_ok_cong[OF conn_invD(4)[OF assms]]) (simp_all add: conn_views shut_conn_def close_link_def)
qed (use conn_invD(1,2)[OF assms] in \<open>simp_all add: chans_ok_def orphans_ok_def conn_views shut_conn_def close_link_def\<close>)

lemma inv_give_up:
  assumes "conn_inv J w"
  shows "conn_inv J (drop_request rid w)"
proof (rule conn_invI)
  show "stream_ok J c (drop_request rid w)" for c
    by (rule stream_ok_cong[OF conn_invD(3)[OF assms]]) (simp_all add: conn_views drop_request_def unregister_request_def)
  show "request_ok c (drop_request rid w)" for c
    by (rule request_ok_cong[OF conn_invD(4)[OF assms]])
      (simp_all add: conn_views drop_request_def unregister_request_def split: if_splits)
qed (use conn_invD(1,2)[OF assms] in \<open>simp_all add: chans_ok_def orphans_ok_def conn_views drop_request_def unregister_request_def\<close>)

lemma inv_tear:
  assumes "conn_inv J w" and closed: "ln_closed (cn_link w)"
  shows "conn_inv J (tear_conn w)"
proof (rule conn_invI)
  show "stream_ok J c (tear_conn w)" for c
    by (rule stream_ok_cong[OF conn_invD(3)[OF assms(1)]]) (simp_all add: conn_views tear_conn_def close_channels_def)
  show "request_ok c (tear_conn w)" for c
  proof (cases "cn_request w c")
    case None then show ?thesis by (simp add: request_ok_def tear_conn_def)
  next
    case (Some rid)
    have st: "\<not> (\<exists>sid. c \<in> set (ln_streams (cn_link w) sid))"
      using conn_invD(1)[OF assms(1)] Some by (force simp: chans_ok_def registered_def)
    have pn: "(\<exists>r. ln_pending (cn_link w) r = Some c) \<longleftrightarrow> ln_pending (cn_link w) rid = Some c"
      using conn_invD(1)[OF assms(1)] Some by (force simp: chans_ok_def)
    have ch: "ln_chans (cn_link (tear_conn w)) c =
        (if ln_pending (cn_link w) rid = Some c then (ln_chans (cn_link w) c)\<lparr>ch_closed := True\<rparr> else ln_chans (cn_link w) c)"
      using st pn by (simp add: tear_conn_def close_channels_def)
    have rest: "cn_request (tear_conn w) = cn_request w" "cn_got (tear_conn w) = cn_got w" "cn_route (tear_conn w) = cn_route w"
      "cn_routed (tear_conn w) = cn_routed w" "ln_closed (cn_link (tear_conn w)) = ln_closed (cn_link w)"
      "ln_pending (cn_link (tear_conn w)) = (\<lambda>_. None)"
      by (simp_all add: tear_conn_def close_channels_def)
    show ?thesis using conn_invD(4)[OF assms(1), of c] closed Some
      by (cases "ln_pending (cn_link w) rid = Some c") (simp_all add: request_views conn_views ch rest)
  qed
qed (use conn_invD(1,2)[OF assms(1)] in \<open>simp_all add: chans_ok_def orphans_ok_def conn_views tear_conn_def close_channels_def\<close>)

lemma inv_close_stream:
  assumes "conn_inv J w" "d \<in> set (cn_removed w)"
  shows "conn_inv J (close_stream d w)"
proof (rule conn_invI)
  have ok: "cn_stream w d \<noteq> None" "\<And>sid. \<not> registered sid d w" "cn_request w d = None"
    using conn_invD(1)[OF assms(1)] assms(2) by (auto simp: chans_ok_def)
  show "stream_ok J c (close_stream d w)" for c
    using ok(2) by (intro stream_ok_cong[OF conn_invD(3)[OF assms(1)]]) (auto simp: conn_views close_stream_def safe_close_def split: if_splits)
  show "request_ok c (close_stream d w)" for c
  proof (cases "c = d")
    case True then show ?thesis using ok(3) by (simp add: request_ok_def close_stream_def)
  next
    case False then show ?thesis
      by (intro request_ok_cong[OF conn_invD(4)[OF assms(1)]]) (auto simp: conn_views close_stream_def safe_close_def)
  qed
qed (use conn_invD(1,2)[OF assms(1)] in \<open>simp_all add: chans_ok_def orphans_ok_def conn_views close_stream_def safe_close_def\<close>)

lemma filter_nonempty: "filter p xs \<noteq> [] \<Longrightarrow> xs \<noteq> []"
  by auto

lemma inv_remove:
  assumes "conn_inv J w" "cn_stream w d = Some sid"
  shows "conn_inv J (remove_stream sid d w)"
proof (rule conn_invI)
  show "chans_ok (remove_stream sid d w)"
    using conn_invD(1)[OF assms(1)] assms(2)
    by (auto simp: chans_ok_def conn_views remove_stream_def unregister_stream_def)
  show "stream_ok J c (remove_stream sid d w)" for c
    by (rule stream_ok_cong[OF conn_invD(3)[OF assms(1)]]) (auto simp: conn_views remove_stream_def unregister_stream_def split: if_splits)
  show "request_ok c (remove_stream sid d w)" for c
    by (rule request_ok_cong[OF conn_invD(4)[OF assms(1)]]) (simp_all add: conn_views remove_stream_def unregister_stream_def)
  show "orphans_ok J (remove_stream sid d w)"
    using conn_invD(2)[OF assms(1)] by (auto simp: orphans_ok_def conn_views remove_stream_def unregister_stream_def dest: filter_nonempty)
qed

lemma inv_receive:
  assumes "conn_inv J w" "ch_buffer (ln_chans (cn_link w) d) = f # fs"
  shows "conn_inv J (take_buffered d f fs w)"
proof (rule conn_invI)
  have known: "d < ln_next (cn_link w) \<or> d \<ge> ln_next (cn_link w)" by linarith
  show "stream_ok J c (take_buffered d f fs w)" for c
    using assms(2) by (intro stream_ok_cong[OF conn_invD(3)[OF assms(1)]]) (auto simp: conn_views take_buffered_def split: if_splits)
  show "request_ok c (take_buffered d f fs w)" for c
    using assms(2) by (intro request_ok_cong[OF conn_invD(4)[OF assms(1)]]) (auto simp: conn_views take_buffered_def)
  show "chans_ok (take_buffered d f fs w)"
    using conn_invD(1)[OF assms(1)] assms(2) by (auto simp: chans_ok_def conn_views take_buffered_def)
qed (use conn_invD(2)[OF assms(1)] in \<open>simp_all add: orphans_ok_def conn_views take_buffered_def\<close>)

lemma chans_push_known: "chans_ok w \<Longrightarrow> ln_next (cn_link w) \<le> c \<Longrightarrow> unmentioned c w"
  by (fastforce simp: chans_ok_def unmentioned_def)

lemma chans_fresh:
  assumes "chans_ok w" "ln_next (cn_link w) \<le> c"
  shows "cn_stream w c = None" "cn_request w c = None" "cn_got w c = []" "\<not> registered sid c w"
    "ln_pending (cn_link w) rid \<noteq> Some c" "pushes_to c (cn_route w) = []"
proof -
  show none: "cn_stream w c = None" "cn_request w c = None" "cn_got w c = []"
    using assms by (fastforce simp: chans_ok_def)+
  show "\<not> registered sid c w" "ln_pending (cn_link w) rid \<noteq> Some c"
    using assms none by (fastforce simp: chans_ok_def)+
  show "pushes_to c (cn_route w) = []"
    using chans_push_known[OF assms] by (simp add: pushes_none unmentioned_def)
qed

lemma chans_okI:
  assumes "\<And>sid c. registered sid c w \<Longrightarrow> cn_stream w c = Some sid"
    "\<And>rid c. ln_pending (cn_link w) rid = Some c \<Longrightarrow> cn_request w c = Some rid"
    "\<And>c sid. cn_stream w c = Some sid \<Longrightarrow> c < ln_next (cn_link w) \<and> cn_request w c = None"
    "\<And>c rid. cn_request w c = Some rid \<Longrightarrow> c < ln_next (cn_link w)"
    "\<And>c. ln_next (cn_link w) \<le> c \<Longrightarrow> cn_got w c = [] \<and> buffered c w = []"
    "\<And>sid. distinct (ln_streams (cn_link w) sid)"
    "\<And>c. c \<in> set (cn_removed w) \<Longrightarrow> cn_stream w c \<noteq> None \<and> (\<forall>sid. \<not> registered sid c w)"
    "\<And>p. p \<in> set (cn_route w) \<Longrightarrow> push_known (ln_next (cn_link w)) (cn_request w) p"
  shows "chans_ok w"
  unfolding chans_ok_def
  by (intro conjI allI ballI; (rule impI)?; (drule assms | rule assms)?; (assumption | simp)?)

lemma chans_okD:
  assumes "chans_ok w"
  shows "registered sid c w \<Longrightarrow> cn_stream w c = Some sid"
    "ln_pending (cn_link w) rid = Some c \<Longrightarrow> cn_request w c = Some rid"
    "cn_stream w c = Some sid \<Longrightarrow> c < ln_next (cn_link w) \<and> cn_request w c = None"
    "cn_request w c = Some rid \<Longrightarrow> c < ln_next (cn_link w)"
    "ln_next (cn_link w) \<le> c \<Longrightarrow> cn_got w c = [] \<and> buffered c w = []"
    "distinct (ln_streams (cn_link w) sid)"
    "c \<in> set (cn_removed w) \<Longrightarrow> cn_stream w c \<noteq> None \<and> (\<forall>sid. \<not> registered sid c w)"
    "p \<in> set (cn_route w) \<Longrightarrow> push_known (ln_next (cn_link w)) (cn_request w) p"
  using assms unfolding chans_ok_def by auto

lemma push_known_mono: "push_known n rq p \<Longrightarrow> n \<le> n' \<Longrightarrow> (\<And>c. rq c \<noteq> None \<Longrightarrow> rq' c \<noteq> None) \<Longrightarrow> push_known n' rq' p"
  by (cases p) auto

lemma inv_request:
  assumes "conn_inv J w"
  shows "conn_inv J (start_request rid w)"
proof (rule conn_invI)
  note ok = conn_invD(1)[OF assms]
  define n where "n = ln_next (cn_link w)"
  have fresh: "cn_stream w n = None" "cn_request w n = None" "cn_got w n = []" "\<not> registered sid n w"
    "ln_pending (cn_link w) r \<noteq> Some n" "pushes_to n (cn_route w) = []" "unmentioned n w" for sid r
    using chans_fresh[OF ok] chans_push_known[OF ok] by (simp_all add: n_def)
  have w': "start_request rid w = w\<lparr>cn_link := (cn_link w)\<lparr>ln_chans := (ln_chans (cn_link w))(n := \<lparr>ch_buffer = [], ch_capacity = 1, ch_closed = False\<rparr>),
      ln_next := n + 1, ln_pending := (ln_pending (cn_link w))(rid := Some n)\<rparr>, cn_request := (cn_request w)(n := Some rid)\<rparr>"
    by (simp add: start_request_def register_request_def new_chan_def n_def)
  show "chans_ok (start_request rid w)"
  proof (rule chans_okI)
    show "push_known (ln_next (cn_link (start_request rid w))) (cn_request (start_request rid w)) p"
      if "p \<in> set (cn_route (start_request rid w))" for p
      using that by (intro push_known_mono[OF chans_okD(8)[OF ok]]) (auto simp: w' n_def)
  next
    fix s c assume "registered s c (start_request rid w)"
    then show "cn_stream (start_request rid w) c = Some s"
      using chans_okD(1)[OF ok] by (simp add: w' conn_views)
  next
    fix r c assume "ln_pending (cn_link (start_request rid w)) r = Some c"
    then show "cn_request (start_request rid w) c = Some r"
      using chans_okD(2)[OF ok] fresh by (auto simp: w' split: if_splits)
  next
    fix c s assume "cn_stream (start_request rid w) c = Some s"
    then show "c < ln_next (cn_link (start_request rid w)) \<and> cn_request (start_request rid w) c = None"
      using chans_okD(3)[OF ok, of c s] by (simp add: w' n_def)
  next
    fix c r assume "cn_request (start_request rid w) c = Some r"
    then show "c < ln_next (cn_link (start_request rid w))"
      using chans_okD(4)[OF ok, of c r] by (auto simp: w' n_def split: if_splits)
  next
    fix c assume "c \<in> set (cn_removed (start_request rid w))"
    then show "cn_stream (start_request rid w) c \<noteq> None \<and> (\<forall>sid. \<not> registered sid c (start_request rid w))"
      using chans_okD(7)[OF ok, of c] by (simp add: w' conn_views)
  qed (use chans_okD(5,6)[OF ok] in \<open>simp_all add: w' n_def conn_views\<close>)
  show "stream_ok J c (start_request rid w)" for c
    using fresh chans_okD(5)[OF ok, of n] by (intro stream_ok_cong[OF conn_invD(3)[OF assms]])
      (auto simp: w' n_def conn_views split: if_splits)
  show "request_ok c (start_request rid w)" for c
  proof (cases "c = n")
    case True then show ?thesis using fresh by (simp add: w' request_views conn_views)
  next
    case False then show ?thesis
      by (intro request_ok_cong[OF conn_invD(4)[OF assms]]) (auto simp: w' conn_views split: if_splits)
  qed
  show "orphans_ok J (start_request rid w)"
    using conn_invD(2)[OF assms] by (simp add: w' orphans_ok_def conn_views)
qed

lemma inv_stream:
  assumes "conn_inv J w" "register_stream sid (cn_link w) = Some (c, l)"
  shows "conn_inv J (open_stream J sid c l w)"
proof (rule conn_invI)
  note ok = conn_invD(1)[OF assms(1)] and orphans = conn_invD(2)[OF assms(1)]
  have fresh: "cn_stream w c = None" "cn_request w c = None" "cn_got w c = []" "\<not> registered s c w"
    "ln_pending (cn_link w) r \<noteq> Some c" "pushes_to c (cn_route w) = []" "unmentioned c w" and n: "ln_next (cn_link w) = c" for s r
    using assms(2) chans_fresh[OF ok] chans_push_known[OF ok]
    by (simp_all add: register_stream_def new_chan_def split: if_splits)
  have w': "open_stream J sid c l w = w\<lparr>cn_link := (cn_link w)\<lparr>ln_chans := (ln_chans (cn_link w))(c := \<lparr>ch_buffer = ln_orphans (cn_link w) sid, ch_capacity = stream_buffer_size, ch_closed = False\<rparr>),
      ln_next := c + 1, ln_orphans := (ln_orphans (cn_link w))(sid := []),
      ln_streams := (ln_streams (cn_link w))(sid := ln_streams (cn_link w) sid @ [c])\<rparr>, cn_stream := (cn_stream w)(c := Some sid), cn_from := (cn_from w)(c := length (frames_for J sid w))\<rparr>"
    using assms(2) by (auto simp: open_stream_def register_stream_def new_chan_def split: if_splits)
  show "chans_ok (open_stream J sid c l w)"
  proof (rule chans_okI)
    show "push_known (ln_next (cn_link (open_stream J sid c l w))) (cn_request (open_stream J sid c l w)) p"
      if "p \<in> set (cn_route (open_stream J sid c l w))" for p
      using that by (intro push_known_mono[OF chans_okD(8)[OF ok]]) (auto simp: w' n)
  next
    fix s d assume "registered s d (open_stream J sid c l w)"
    then show "cn_stream (open_stream J sid c l w) d = Some s"
      using chans_okD(1)[OF ok] fresh(4) by (auto simp: w' conn_views split: if_splits)
  next
    fix d s assume "cn_stream (open_stream J sid c l w) d = Some s"
    then show "d < ln_next (cn_link (open_stream J sid c l w)) \<and> cn_request (open_stream J sid c l w) d = None"
      using chans_okD(3)[OF ok, of d s] fresh(2) by (auto simp: w' n split: if_splits)
  next
    fix d r assume "cn_request (open_stream J sid c l w) d = Some r"
    then show "d < ln_next (cn_link (open_stream J sid c l w))"
      using chans_okD(4)[OF ok, of d r] by (auto simp: w' n)
  next
    fix s show "distinct (ln_streams (cn_link (open_stream J sid c l w)) s)"
      using chans_okD(6)[OF ok, of s] fresh(4)[of s] by (auto simp: w' registered_def)
  next
    fix d assume "d \<in> set (cn_removed (open_stream J sid c l w))"
    then have "d \<in> set (cn_removed w)" by (simp add: w')
    then show "cn_stream (open_stream J sid c l w) d \<noteq> None \<and> (\<forall>sid'. \<not> registered sid' d (open_stream J sid c l w))"
      using chans_okD(7)[OF ok, of d] fresh(1) by (auto simp: w' conn_views)
  qed (use chans_okD(2,5)[OF ok] in \<open>simp_all add: w' n conn_views\<close>)
  show "stream_ok J d (open_stream J sid c l w)" for d
  proof (cases "d = c")
    case True then show ?thesis using fresh orphans
      by (auto simp: w' stream_ok_def conn_views orphans_ok_def intro: suffix_imp_subseq)
  next
    case False then show ?thesis
      by (intro stream_ok_cong[OF conn_invD(3)[OF assms(1)]]) (auto simp: w' conn_views split: if_splits)
  qed
  show "request_ok d (open_stream J sid c l w)" for d
  proof (cases "d = c")
    case True then show ?thesis using fresh by (simp add: w' request_ok_def)
  next
    case False then show ?thesis
      by (intro request_ok_cong[OF conn_invD(4)[OF assms(1)]]) (auto simp: w' conn_views split: if_splits)
  qed
  show "orphans_ok J (open_stream J sid c l w)"
    using orphans by (auto simp: w' orphans_ok_def conn_views)
qed

lemma holds_had: "holds_frames c w = had c w @ pushes_to c (cn_route w)"
  by (simp add: holds_frames_def had_def)

lemma frames_for_add:
  "cn_routed w' = cn_routed w @ [f] \<Longrightarrow>
   frames_for J sid w' = frames_for J sid w @ (if frame_for J sid f then [f] else [])"
  by (simp add: frames_for_def)

lemma suffix_snoc: "suffix xs ys \<Longrightarrow> suffix (xs @ [x]) (ys @ [x])"
  by (auto simp: suffix_def)

lemma subseq_more: "subseq xs ys \<Longrightarrow> subseq xs (ys @ zs)"
  using subseq_order.order_trans[OF _ prefix_imp_subseq[OF prefixI[OF refl]]] .

lemma suffix_last: "suffix (drop k xs) xs"
  by (simp add: suffix_drop)

text \<open>A frame for nobody, and what it leaves alone.\<close>

lemma request_ok_routed:
  assumes "request_ok c w" "cn_request w' c = cn_request w c" "had c w' = had c w" "cn_routed w' = cn_routed w @ [f]"
    "cn_route w = []" "unmentioned c w'" "ch_capacity (ln_chans (cn_link w') c) = ch_capacity (ln_chans (cn_link w) c)"
    "chan_closed c w' = chan_closed c w" "ln_closed (cn_link w') = ln_closed (cn_link w)"
    "\<And>rid. ln_pending (cn_link w') rid = Some c \<Longrightarrow> ln_pending (cn_link w) rid = Some c"
  shows "request_ok c w'"
  using assms by (fastforce simp: request_views)

lemma stream_ok_routed:
  assumes "stream_ok J c w" "cn_stream w' c = cn_stream w c" "had c w' = had c w" "cn_routed w' = cn_routed w @ [f]"
    "cn_route w = []" "\<And>sid. registered sid c w' = registered sid c w" "chan_closed c w' = chan_closed c w"
    "cn_lost w' c = cn_lost w c" "cn_from w' c = cn_from w c"
    "\<And>sid. cn_stream w c = Some sid \<Longrightarrow>
       pushes_to c (cn_route w') = (if registered sid c w \<and> frame_for J sid f then [f] else [])"
  shows "stream_ok J c w'"
  unfolding stream_ok_def
proof (intro allI impI conjI)
  fix sid assume st: "cn_stream w' c = Some sid"
  have old: "subseq (had c w) (frames_for J sid w)"
    "registered sid c w \<Longrightarrow> \<not> chan_closed c w" "registered sid c w \<Longrightarrow> \<not> cn_lost w c \<Longrightarrow> suffix (had c w) (frames_for J sid w)"
    "registered sid c w \<Longrightarrow> \<not> cn_lost w c \<Longrightarrow> length (frames_for J sid w) \<le> cn_from w c + length (had c w)"
    using assms(1,2,5) st by (auto simp: stream_ok_def holds_had)
  have new: "holds_frames c w' = had c w @ (if registered sid c w \<and> frame_for J sid f then [f] else [])"
    using assms(2) assms(10)[of sid] assms(3) st by (simp add: holds_had)
  show "subseq (holds_frames c w') (frames_for J sid w')"
    using old(1) by (auto simp: new frames_for_add[OF assms(4)] subseq_more list_emb_append_mono)
  show "\<not> chan_closed c w'" if "registered sid c w'" using old(2) that assms(6,7) by simp
  show "suffix (holds_frames c w') (frames_for J sid w')" if "registered sid c w'" "\<not> cn_lost w' c"
    using old(3) that assms(6,8) by (auto simp: new frames_for_add[OF assms(4)] suffix_snoc)
  show "length (frames_for J sid w') \<le> cn_from w' c + length (holds_frames c w')" if "registered sid c w'" "\<not> cn_lost w' c"
    using old(4) that assms(6,8,9) by (auto simp: new frames_for_add[OF assms(4)])
qed

lemma inv_route:
  assumes "conn_inv J w" "cn_route w = []"
  shows "conn_inv J (read_frame J f w)"
proof -
  note ok = conn_invD(1)[OF assms(1)] and orphans = conn_invD(2)[OF assms(1)]
    and streams = conn_invD(3)[OF assms(1)] and requests = conn_invD(4)[OF assms(1)]
  obtain ps l where rf: "route_frame J f (cn_link w) = (ps, l)" by (metis surj_pair)
  have w': "read_frame J f w = w\<lparr>cn_link := l, cn_route := ps, cn_routed := cn_routed w @ [f]\<rparr>"
    by (simp add: read_frame_def rf)
  consider (none) "ps = []" "l = cn_link w" "\<And>sid. \<not> frame_for J sid f"
    | (answer) r c where "pf_response f = Some r" "ln_pending (cn_link w) (trim_space (cr_id r)) = Some c"
        "ps = [Push c f, CloseChan c]" "l = (cn_link w)\<lparr>ln_pending := (ln_pending (cn_link w))(trim_space (cr_id r) := None)\<rparr>"
        "\<And>sid. \<not> frame_for J sid f"
    | (orphan) sid kept where "\<And>s. frame_for J s f \<longleftrightarrow> s = sid" "ln_streams (cn_link w) sid = []" "ps = []"
        "l = (cn_link w)\<lparr>ln_orphans := (ln_orphans (cn_link w))(sid := kept)\<rparr>"
        "suffix kept (ln_orphans (cn_link w) sid @ [f])" "length kept \<le> orphan_frame_limit"
    | (deliver) sid where "\<And>s. frame_for J s f \<longleftrightarrow> s = sid" "ln_streams (cn_link w) sid \<noteq> []"
        "ps = map (\<lambda>c. Push c f) (ln_streams (cn_link w) sid)" "l = cn_link w"
  proof (cases "pf_response f")
    case None
    show ?thesis
    proof (cases "plain_frame_stream_id J f = []")
      case True then show ?thesis using none rf None by (auto simp: route_frame_def frame_for_def)
    next
      case False
      then have ff: "\<And>s. frame_for J s f \<longleftrightarrow> s = plain_frame_stream_id J f" using None by (auto simp: frame_for_def)
      show ?thesis
      proof (cases "ln_streams (cn_link w) (plain_frame_stream_id J f) = []")
        case True
        then show ?thesis using False None rf
          by (intro orphan[OF ff True]) (auto simp: route_frame_def Let_def suffix_last split: if_splits)
      next
        case False
        with \<open>plain_frame_stream_id J f \<noteq> []\<close> show ?thesis using None rf by (intro deliver[OF ff]) (auto simp: route_frame_def Let_def)
      qed
    qed
  next
    case (Some r)
    then have ff: "\<And>s. \<not> frame_for J s f" by (simp add: frame_for_def)
    show ?thesis
    proof (cases "ln_pending (cn_link w) (trim_space (cr_id r))")
      case None then show ?thesis using none[OF _ _ ff] rf Some by (simp add: route_frame_def Let_def)
    next
      case (Some c) then show ?thesis using answer[OF \<open>pf_response f = Some r\<close> Some _ _ ff] rf \<open>pf_response f = Some r\<close> by (simp add: route_frame_def Let_def)
    qed
  qed
  then show ?thesis
  proof cases
    case none
    show ?thesis
    proof (rule conn_invI)
      show "chans_ok (read_frame J f w)" using ok by (simp add: w' none chans_ok_def conn_views)
      show "orphans_ok J (read_frame J f w)" using orphans none(3) by (simp add: w' none(1,2) orphans_ok_def conn_views)
      show "stream_ok J c (read_frame J f w)" for c
        using none(3) by (intro stream_ok_routed[OF streams]) (auto simp add: w' none(1,2) conn_views assms(2))
      show "request_ok c (read_frame J f w)" for c
        by (rule request_ok_routed[OF requests]) (simp_all add: w' none(1,2) conn_views unmentioned_def assms(2))
    qed
  next
    case (orphan sid kept)
    show ?thesis
    proof (rule conn_invI)
      show "chans_ok (read_frame J f w)" using ok by (simp add: w' orphan chans_ok_def conn_views)
      have "suffix (ln_orphans (cn_link w) sid @ [f]) (frames_for J sid w @ [f])"
        using orphans by (intro suffix_snoc) (simp add: orphans_ok_def)
      then have "suffix kept (frames_for J sid w @ [f])" using orphan(5) by (rule suffix_order.trans[rotated])
      then show "orphans_ok J (read_frame J f w)"
        using orphans orphan(1,2,6) by (simp add: w' orphan(3,4) orphans_ok_def conn_views)
      show "stream_ok J c (read_frame J f w)" for c
        using orphan(1,2) chans_okD(1)[OF ok]
        by (intro stream_ok_routed[OF streams]) (auto simp add: w' orphan(3,4) conn_views assms(2))
      show "request_ok c (read_frame J f w)" for c
        by (rule request_ok_routed[OF requests]) (simp_all add: w' orphan(3,4) conn_views unmentioned_def assms(2))
    qed
  next
    case (deliver sid)
    have strm: "c \<in> set (ln_streams (cn_link w) sid) \<Longrightarrow> cn_stream w c = Some sid \<and> c < ln_next (cn_link w) \<and> cn_request w c = None" for c
      using chans_okD(1)[OF ok] chans_okD(3)[OF ok] by (auto simp: registered_def)
    show ?thesis
    proof (rule conn_invI)
      show "chans_ok (read_frame J f w)" using ok strm by (auto simp add: w' deliver(3,4) chans_ok_def conn_views)
      show "orphans_ok J (read_frame J f w)"
        using orphans deliver(1,2) by (auto simp add: w' deliver(3,4) orphans_ok_def conn_views)
      show "stream_ok J c (read_frame J f w)" for c
        using deliver(1) chans_okD(6)[OF ok] strm
        by (intro stream_ok_routed[OF streams]) (auto simp add: w' deliver(3,4) conn_views assms(2) pushes_broadcast)
      show "request_ok c (read_frame J f w)" for c
      proof (cases "cn_request w c")
        case None then show ?thesis by (simp add: request_ok_def w')
      next
        case (Some r) then show ?thesis using strm
          by (intro request_ok_routed[OF requests]) (auto simp add: w' deliver(3,4) conn_views unmentioned_def assms(2))
      qed
    qed
  next
    case (answer r c)
    have rq: "cn_request w c = Some (trim_space (cr_id r))" using chans_okD(2)[OF ok answer(2)] .
    show ?thesis
    proof (rule conn_invI)
      show "chans_ok (read_frame J f w)" using ok rq chans_okD(4)[OF ok rq] by (auto simp add: w' answer(3,4) chans_ok_def conn_views)
      show "orphans_ok J (read_frame J f w)" using orphans answer(5) by (simp add: w' answer(3,4) orphans_ok_def conn_views)
      show "stream_ok J d (read_frame J f w)" for d
        using answer(5) rq chans_okD(3)[OF ok, of d] by (intro stream_ok_routed[OF streams]) (auto simp add: w' answer(3,4) conn_views assms(2))
      show "request_ok d (read_frame J f w)" for d
      proof (cases "d = c")
        case True
        have "had c w = []" "\<not> chan_closed c w" "ch_capacity (ln_chans (cn_link w) c) = 1"
          using requests[of c] rq answer(2) by (auto simp: request_views)
        then show ?thesis using True rq answer(1)
          by (auto simp add: w' answer(3,4) request_ok_def req_pushing_def conn_views answers_def)
      next
        case False then show ?thesis
          by (intro request_ok_routed[OF requests]) (auto simp add: w' answer(3,4) conn_views unmentioned_def assms(2) split: if_splits)
      qed
    qed
  qed
qed

lemma inv_push:
  assumes "conn_inv J w" "cn_route w = p # ps"
  shows "conn_inv J (push_one p ps w)"
proof -
  note ok = conn_invD(1)[OF assms(1)] and orphans = conn_invD(2)[OF assms(1)]
    and streams = conn_invD(3)[OF assms(1)] and requests = conn_invD(4)[OF assms(1)]
  show ?thesis
  proof (cases p)
    case (CloseChan c)
    have rt: "cn_route w = CloseChan c # ps" using assms(2) CloseChan by simp
    obtain rid where rq: "cn_request w c = Some rid" using chans_okD(8)[OF ok, of "CloseChan c"] rt by auto
    have st: "cn_stream w c = None" using chans_okD(3)[OF ok, of c] rq by (cases "cn_stream w c") auto
    have ans: "req_answered rid c w" "ln_pending (cn_link w) rid \<noteq> Some c" "ch_capacity (ln_chans (cn_link w) c) = 1"
      using requests[of c] rq rt by (auto simp: request_views)
    have w': "push_one p ps w = w\<lparr>cn_link := safe_close c (cn_link w), cn_route := ps, cn_lost := cn_lost w\<rparr>"
      by (simp add: push_one_def CloseChan)
    show ?thesis
    proof (rule conn_invI)
      show "chans_ok (push_one p ps w)" using ok rt by (simp add: w' safe_close_def chans_ok_def conn_views)
      show "orphans_ok J (push_one p ps w)" using orphans by (simp add: w' safe_close_def orphans_ok_def conn_views)
      show "stream_ok J d (push_one p ps w)" for d
        using streams[of d] st rt by (auto simp add: w' safe_close_def stream_ok_def conn_views)
      show "request_ok d (push_one p ps w)" for d
      proof (cases "d = c")
        case True then show ?thesis using rq ans rt by (auto simp add: w' safe_close_def request_ok_def req_answered_def conn_views)
      next
        case False then show ?thesis using requests[of d] rt by (auto simp add: w' safe_close_def request_views conn_views)
      qed
    qed
  next
    case (Push c f)
    define sent where "sent \<longleftrightarrow> \<not> chan_closed c w \<and> length (buffered c w) < ch_capacity (ln_chans (cn_link w) c)"
    define w' where "w' = push_one p ps w"
    have w: "cn_link w' = safe_send c f (cn_link w)" "cn_route w' = ps" "cn_routed w' = cn_routed w" "cn_got w' = cn_got w"
      "cn_stream w' = cn_stream w" "cn_request w' = cn_request w" "cn_removed w' = cn_removed w" "cn_from w' = cn_from w"
      "cn_lost w' d \<longleftrightarrow> cn_lost w d \<or> (d = c \<and> \<not> sent \<and> \<not> chan_closed c w)" for d
      by (auto simp: w'_def push_one_def Push sent_def conn_views)
    have same: "ln_streams (cn_link w') = ln_streams (cn_link w)" "ln_pending (cn_link w') = ln_pending (cn_link w)"
      "ln_orphans (cn_link w') = ln_orphans (cn_link w)" "ln_next (cn_link w') = ln_next (cn_link w)" "ln_closed (cn_link w') = ln_closed (cn_link w)"
      "registered sid d w' = registered sid d w" "chan_closed d w' = chan_closed d w" "frames_for J sid w' = frames_for J sid w"
      "ch_capacity (ln_chans (cn_link w') d) = ch_capacity (ln_chans (cn_link w) d)" for sid d
      by (auto simp: w safe_send_def Let_def conn_views)
    have buf: "buffered d w' = (if d = c \<and> sent then buffered c w @ [f] else buffered d w)" for d
      by (auto simp: w(1) safe_send_def Let_def sent_def conn_views)
    have had: "had d w' = (if d = c \<and> sent then had c w @ [f] else had d w)" for d
      by (simp add: had_def buf w(4))
    have known: "c < ln_next (cn_link w)" using chans_okD(8)[OF ok, of p] assms(2) Push by simp
    have "conn_inv J w'"
    proof (rule conn_invI)
      show "chans_ok w'"
      proof (rule chans_okI)
        show "ln_next (cn_link w') \<le> d \<Longrightarrow> cn_got w' d = [] \<and> buffered d w' = []" for d
          using chans_okD(5)[OF ok, of d] known by (simp add: w(4) same buf)
      qed (use chans_okD[OF ok] assms(2) in \<open>simp_all add: w(2-7) same\<close>)
      show "orphans_ok J w'" using orphans by (simp add: orphans_ok_def same)
      show "stream_ok J d w'" for d
      proof (cases "d = c")
        case True
        show ?thesis
        proof (cases sent)
          case True then show ?thesis using streams[of d] assms(2) \<open>d = c\<close> Push
            by (simp add: stream_ok_def w(2-9) same holds_had had)
        next
          case False
          have "subseq (had c w @ pushes_to c ps) (had c w @ f # pushes_to c ps)"
            by (intro list_emb_append_mono subseq_order.order_refl list_emb_Cons)
          then show ?thesis using streams[of d] assms(2) \<open>d = c\<close> Push False subseq_order.order_trans
            by (fastforce simp: stream_ok_def w(2-9) same holds_had had)
        qed
      next
        case False then show ?thesis using streams[of d] assms(2) Push by (simp add: stream_ok_def w(2-9) same holds_had had)
      qed
      show "request_ok d w'" for d
      proof (cases "d = c")
        case True
        show ?thesis
        proof (cases "cn_request w c")
          case None then show ?thesis using True by (simp add: request_ok_def w(2-9))
        next
          case (Some rid)
          then have "req_pushing rid c w" "ln_pending (cn_link w) rid \<noteq> Some c" "ch_capacity (ln_chans (cn_link w) c) = 1"
            using requests[of c] assms(2) Push by (auto simp: request_views)
          then show ?thesis using True assms(2) Push Some
            by (auto simp: request_ok_def req_answered_def req_pushing_def w(2-9) same had sent_def) (auto simp: had_def)
        qed
      next
        case False then show ?thesis using requests[of d] assms(2) Push
          by (auto simp: request_views w(2-9) same had)
      qed
    qed
    then show ?thesis by (simp add: w'_def)
  qed
qed

lemma conn_step_inv: "conn_step J w w' \<Longrightarrow> conn_inv J w \<Longrightarrow> conn_inv J w'"
  by (induction rule: conn_step.induct)
    (simp_all add: inv_route inv_push inv_request inv_give_up inv_stream inv_remove inv_close_stream inv_receive inv_shut inv_tear)

lemma conn_reach_inv: "conn_reach J w \<Longrightarrow> conn_inv J w"
  by (induction rule: conn_reach.induct) (auto intro: conn_inv_start conn_step_inv)

section \<open>What consumers get\<close>

text \<open>
  What a stream received is a subsequence of the frames routed for it: nothing is invented, repeated or
  reordered.
\<close>

theorem stream_in_order:
  assumes "conn_reach J w" "cn_stream w c = Some sid"
  shows "subseq (cn_got w c) (frames_for J sid w)"
proof -
  have "subseq (holds_frames c w) (frames_for J sid w)"
    using conn_invD(3)[OF conn_reach_inv[OF assms(1)], of c] assms(2) by (simp add: stream_ok_def)
  moreover have "subseq (cn_got w c) (holds_frames c w)"
    by (simp add: holds_frames_def prefix_imp_subseq)
  ultimately show ?thesis by (rule subseq_order.order_trans[rotated])
qed

text \<open>
  C38: In every interleaving of a controller session, an event or terminal stream that was never full has received,
  buffered or about to be sent all frames routed for it since it was registered, preceded only by the latest
  earlier ones, in order and once.
\<close>

theorem stream_keeps_frames:
  assumes "conn_reach J w" "registered sid c w" "\<not> cn_lost w c"
  shows "suffix (cn_got w c @ buffered c w @ pushes_to c (cn_route w)) (frames_for J sid w) \<and>
    suffix (drop (cn_from w c) (frames_for J sid w)) (cn_got w c @ buffered c w @ pushes_to c (cn_route w))"
proof -
  note inv = conn_reach_inv[OF assms(1)]
  have "cn_stream w c = Some sid" using chans_okD(1)[OF conn_invD(1)[OF inv] assms(2)] .
  then have s: "suffix (holds_frames c w) (frames_for J sid w)"
    and l: "length (frames_for J sid w) \<le> cn_from w c + length (holds_frames c w)"
    using conn_invD(3)[OF inv, of c] assms(2,3) by (auto simp: stream_ok_def)
  have "suffix (drop (cn_from w c) (frames_for J sid w)) (holds_frames c w)"
    using s l by (intro suffix_length_suffix[OF suffix_drop s]) simp
  then show ?thesis using s by (simp add: holds_frames_def)
qed

text \<open>
  C39: In every interleaving a request receives at most one frame, and that is a response to its own request id.
\<close>

theorem request_answered_once:
  assumes "conn_reach J w" "cn_request w c = Some rid"
  shows "length (cn_got w c) \<le> 1 \<and> list_all (answers rid) (cn_got w c)"
proof -
  have "req_waiting c w \<or> req_pushing rid c w \<or> req_answered rid c w"
    using conn_invD(4)[OF conn_reach_inv[OF assms(1)], of c] assms(2) by (auto simp: request_ok_def)
  then have "length (had c w) \<le> 1 \<and> list_all (answers rid) (had c w)"
    by (auto simp: req_waiting_def req_pushing_def req_answered_def)
  then show ?thesis by (simp add: had_def)
qed

text \<open>
  A request finds its channel closed and empty only when the session is closed.
\<close>

theorem request_fails_only_closed:
  assumes "conn_reach J w" "cn_request w c = Some rid" "chan_closed c w" "cn_got w c = []" "buffered c w = []"
  shows "ln_closed (cn_link w)"
  using conn_invD(4)[OF conn_reach_inv[OF assms(1)], of c] assms(2-)
  by (auto simp: request_views conn_views)

text \<open>
  Registering a stream never blocks on the orphaned frames it sends into its channel with the lock held.
\<close>

theorem registering_never_blocks:
  assumes "conn_reach J w"
  shows "\<exists>c l. register_stream sid (cn_link w) = Some (c, l)"
  using conn_invD(2)[OF conn_reach_inv[OF assms]]
  by (auto simp: orphans_ok_def register_stream_def orphan_frame_limit_def stream_buffer_size_def new_chan_def not_less)

lemma tear_closes:
  "registered sid c w \<Longrightarrow> chan_closed c (tear_conn w)"
  "ln_pending (cn_link w) rid = Some c \<Longrightarrow> chan_closed c (tear_conn w)"
  by (auto simp: conn_views tear_conn_def close_channels_def)

text \<open>
  A stream made after the channels were closed is not closed by anything but its owner.
\<close>

lemma torn_kept: "conn_step J w w' \<Longrightarrow> cn_torn w \<Longrightarrow> cn_torn w'"
  by (induction rule: conn_step.induct)
    (simp_all add: read_frame_def push_one_def start_request_def register_request_def new_chan_def drop_request_def open_stream_def
      remove_stream_def close_stream_def take_buffered_def shut_conn_def tear_conn_def split: prod.splits)

lemma do_push_streams: "ln_streams (do_push p l) = ln_streams l"
  by (cases p) (simp_all add: safe_send_def safe_close_def Let_def)

lemma route_frame_streams: "ln_streams (snd (route_frame J f l)) = ln_streams l"
  by (auto simp: route_frame_def Let_def split: option.splits)

lemma registered_kept:
  assumes "conn_step J w w'" "cn_torn w" "registered sid c w" "c \<notin> set (cn_removed w')"
  shows "registered sid c w'"
  using assms
proof (induction rule: conn_step.induct)
  case (read w f)
  then show ?case using route_frame_streams[of J f "cn_link w"]
    by (simp add: registered_def read_frame_def split: prod.splits)
next
  case (stream sid' w d l)
  then show ?case by (auto simp: registered_def open_stream_def register_stream_def new_chan_def split: if_splits)
qed (auto simp: registered_def push_one_def do_push_streams start_request_def register_request_def new_chan_def drop_request_def
      unregister_request_def remove_stream_def unregister_stream_def close_stream_def safe_close_def take_buffered_def shut_conn_def
      close_link_def tear_conn_def)

theorem late_stream_stays_open:
  assumes "conn_reach J w" "cn_torn w" "registered sid c w" "conn_step J w w'" "c \<notin> set (cn_removed w')"
  shows "cn_torn w' \<and> registered sid c w' \<and> \<not> chan_closed c w'"
proof -
  have reg: "registered sid c w'" using registered_kept[OF assms(4,2,3,5)] .
  have inv: "conn_inv J w'" using conn_reach_inv[OF conn_reach.step[OF assms(1,4)]] .
  have "\<not> chan_closed c w'"
    using conn_invD(3)[OF inv, of c] chans_okD(1)[OF conn_invD(1)[OF inv] reg] reg by (simp add: stream_ok_def)
  then show ?thesis using reg torn_kept[OF assms(4,2)] by simp
qed

section \<open>A stream whose owner is slow\<close>

lemma opened_stream:
  "\<exists>c l. register_stream sid (cn_link (new_conn h t)) = Some (c, l) \<and> registered sid c (open_stream J sid c l (new_conn h t)) \<and>
     cn_route (open_stream J sid c l (new_conn h t)) = [] \<and> holds_frames c (open_stream J sid c l (new_conn h t)) = [] \<and>
     buffered c (open_stream J sid c l (new_conn h t)) = [] \<and> frames_for J sid (open_stream J sid c l (new_conn h t)) = [] \<and>
     ln_streams (cn_link (open_stream J sid c l (new_conn h t))) sid = [c] \<and>
     ch_capacity (ln_chans (cn_link (open_stream J sid c l (new_conn h t))) c) = 128"
  by (simp add: register_stream_def new_conn_def new_link_def new_chan_def open_stream_def conn_views stream_buffer_size_def)

text \<open>One frame for a stream with one channel: read, then pushed.\<close>

lemma frame_delivered:
  assumes "conn_reach J w" "cn_route w = []" "ln_streams (cn_link w) sid = [c]" "frame_for J sid f"
  defines "w1 \<equiv> push_one (Push c f) [] (read_frame J f w)"
  shows "conn_reach J w1" "cn_route w1 = []" "ln_streams (cn_link w1) sid = [c]" "frames_for J sid w1 = frames_for J sid w @ [f]"
    "cn_got w1 = cn_got w"
    "ch_capacity (ln_chans (cn_link w1) c) = ch_capacity (ln_chans (cn_link w) c)"
    "buffered c w1 = (if length (buffered c w) < ch_capacity (ln_chans (cn_link w) c) then buffered c w @ [f] else buffered c w)"
proof -
  have rf: "read_frame J f w = w\<lparr>cn_route := [Push c f], cn_routed := cn_routed w @ [f]\<rparr>"
    using assms(3,4) by (auto simp: read_frame_def route_frame_def Let_def frame_for_def split: prod.splits)
  have open0: "\<not> chan_closed c w"
    using conn_invD(1,3)[OF conn_reach_inv[OF assms(1)]] assms(3) chans_okD(1)[OF conn_invD(1)[OF conn_reach_inv[OF assms(1)]], of sid c]
    by (simp add: stream_ok_def registered_def)
  have w1: "w1 = w\<lparr>cn_link := safe_send c f (cn_link w), cn_route := [], cn_routed := cn_routed w @ [f],
      cn_lost := (\<lambda>d. cn_lost w d \<or> overflows (Push c f) (cn_link w) d)\<rparr>"
    by (simp add: w1_def push_one_def rf)
  show "conn_reach J w1"
    unfolding w1_def by (rule conn_reach.step[OF conn_reach.step[OF assms(1) conn_step.read[OF assms(2)]] conn_step.push]) (simp add: rf)
  show "buffered c w1 = (if length (buffered c w) < ch_capacity (ln_chans (cn_link w) c) then buffered c w @ [f] else buffered c w)"
    using open0 by (simp add: w1 buffered_def chan_closed_def safe_send_def Let_def)
  show "cn_route w1 = []" "ln_streams (cn_link w1) sid = [c]" "frames_for J sid w1 = frames_for J sid w @ [f]" "cn_got w1 = cn_got w"
    "ch_capacity (ln_chans (cn_link w1) c) = ch_capacity (ln_chans (cn_link w) c)"
    using assms(3,4) by (simp_all add: w1 frames_for_def safe_send_def Let_def)
qed

lemma frames_buffered:
  assumes "frame_for J sid f" "n \<le> 128"
  shows "\<exists>w c. conn_reach J w \<and> cn_route w = [] \<and> ln_streams (cn_link w) sid = [c] \<and> cn_got w c = [] \<and>
    ch_capacity (ln_chans (cn_link w) c) = 128 \<and> buffered c w = replicate n f \<and> frames_for J sid w = replicate n f"
  using assms(2)
proof (induction n)
  case 0
  obtain c l where o: "register_stream sid (cn_link (new_conn [] no_target)) = Some (c, l)"
    and v: "cn_route (open_stream J sid c l (new_conn [] no_target)) = []" "holds_frames c (open_stream J sid c l (new_conn [] no_target)) = []"
      "frames_for J sid (open_stream J sid c l (new_conn [] no_target)) = []"
      "ln_streams (cn_link (open_stream J sid c l (new_conn [] no_target))) sid = [c]"
      "ch_capacity (ln_chans (cn_link (open_stream J sid c l (new_conn [] no_target))) c) = 128"
    using opened_stream by blast
  have "conn_reach J (open_stream J sid c l (new_conn [] no_target))"
    by (rule conn_reach.step[OF conn_reach.start conn_step.stream[OF o]])
  then show ?case using v by (intro exI[of _ "open_stream J sid c l (new_conn [] no_target)"] exI[of _ c]) (simp add: holds_frames_def)
next
  case (Suc n)
  then obtain w c where w: "conn_reach J w" "cn_route w = []" "ln_streams (cn_link w) sid = [c]" "cn_got w c = []"
    "ch_capacity (ln_chans (cn_link w) c) = 128" "buffered c w = replicate n f" "frames_for J sid w = replicate n f" by auto
  note d = frame_delivered[OF w(1-3) assms(1)]
  show ?case using d w(4-7) Suc.prems
    by (intro exI[of _ "push_one (Push c f) [] (read_frame J f w)"] exI[of _ c]) (simp add: replicate_append_same)
qed

theorem slow_stream_loses_frames:
  assumes "frame_for J sid f" "frame_for J sid g"
  shows "\<exists>w c. conn_reach J w \<and> registered sid c w \<and> cn_route w = [] \<and>
    frames_for J sid w = replicate 128 f @ [g] \<and> cn_got w c @ buffered c w = replicate 128 f"
proof -
  obtain w c where w: "conn_reach J w" "cn_route w = []" "ln_streams (cn_link w) sid = [c]" "cn_got w c = []"
    "ch_capacity (ln_chans (cn_link w) c) = 128" "buffered c w = replicate 128 f" "frames_for J sid w = replicate 128 f"
    using frames_buffered[OF assms(1), of 128] by auto
  note d = frame_delivered[OF w(1-3) assms(2)]
  show ?thesis using d w(4-7) by (intro exI[of _ "push_one (Push c g) [] (read_frame J g w)"] exI[of _ c]) (simp add: registered_def)
qed

section \<open>Runs\<close>

definition demo_codec :: frame_codec where
  "demo_codec = \<lparr>fc_stream = (\<lambda>body. body), fc_terminal = (\<lambda>_. None), fc_event = (\<lambda>_. None), fc_tabs = (\<lambda>_. [])\<rparr>"

definition blank_frame :: frame where
  "blank_frame = \<lparr>pf_type = [], pf_request = None, pf_response = None, pf_event = [], pf_terminal = [], pf_media = [],
     pf_workspace_file = [], pf_reason = [], pf_code = []\<rparr>"

definition toy_event_frame :: "string \<Rightarrow> frame" where "toy_event_frame sid = blank_frame\<lparr>pf_type := ''event'', pf_event := sid\<rparr>"

definition answer_frame :: "string \<Rightarrow> frame" where
  "answer_frame rid = blank_frame\<lparr>pf_type := ''response'', pf_response := Some \<lparr>cr_id = rid, cr_ok = True, cr_result = None, cr_error = None\<rparr>\<rparr>"

definition demo_conn :: conn where "demo_conn = new_conn ''host'' no_target"

definition opened_demo :: conn where
  "opened_demo = (case register_stream ''s'' (cn_link demo_conn) of Some (c, l) \<Rightarrow> open_stream demo_codec ''s'' c l demo_conn | None \<Rightarrow> demo_conn)"

definition pushing_demo :: conn where "pushing_demo = read_frame demo_codec (toy_event_frame ''s'') opened_demo"
definition pushed_demo :: conn where "pushed_demo = push_one (Push 0 (toy_event_frame ''s'')) [] pushing_demo"
definition received_demo :: conn where "received_demo = take_buffered 0 (toy_event_frame ''s'') [] pushed_demo"

lemma trim_letters: "trim_space ''s'' = ''s''" "trim_space ''r'' = ''r''"
  by code_simp+

lemmas eval_streams = demo_conn_def opened_demo_def pushing_demo_def pushed_demo_def received_demo_def new_conn_def new_link_def
  register_stream_def new_chan_def open_stream_def read_frame_def route_frame_def push_one_def take_buffered_def safe_send_def
  toy_event_frame_def answer_frame_def blank_frame_def plain_frame_stream_id_def raw_stream_id_def demo_codec_def trim_letters
  stream_buffer_size_def frames_for_def frame_for_def Let_def

lemma demo_reach: "conn_reach demo_codec demo_conn"
  unfolding demo_conn_def by (rule conn_reach.start)

lemma opened_reach: "conn_reach demo_codec opened_demo"
proof -
  have "register_stream ''s'' (cn_link demo_conn) = Some (0, the (map_option snd (register_stream ''s'' (cn_link demo_conn))))"
    by (simp add: eval_streams)
  then have "conn_step demo_codec demo_conn (open_stream demo_codec ''s'' 0 (the (map_option snd (register_stream ''s'' (cn_link demo_conn)))) demo_conn)"
    by (rule conn_step.stream)
  moreover have "open_stream demo_codec ''s'' 0 (the (map_option snd (register_stream ''s'' (cn_link demo_conn)))) demo_conn = opened_demo"
    by (simp add: eval_streams)
  ultimately show ?thesis using conn_reach.step[OF demo_reach] by simp
qed

lemma pushed_reach: "conn_reach demo_codec pushed_demo"
proof -
  have "conn_reach demo_codec pushing_demo"
    unfolding pushing_demo_def by (rule conn_reach.step[OF opened_reach conn_step.read]) (simp add: eval_streams)
  then show ?thesis
    unfolding pushed_demo_def by (rule conn_reach.step[OF _ conn_step.push]) (simp add: eval_streams)
qed

lemma received_reach: "conn_reach demo_codec received_demo"
  unfolding received_demo_def by (rule conn_reach.step[OF pushed_reach conn_step.receive]) (simp add: eval_streams)

theorem stream_in_order_witness:
  "cn_got received_demo 0 = [toy_event_frame ''s''] \<and> subseq (cn_got received_demo 0) (frames_for demo_codec ''s'' received_demo)"
proof -
  have "cn_stream received_demo 0 = Some ''s''" "cn_got received_demo 0 = [toy_event_frame ''s'']" by (simp_all add: eval_streams)
  then show ?thesis using stream_in_order[OF received_reach, of 0 "''s''"] by simp
qed

theorem stream_keeps_frames_witness:
  "suffix (drop (cn_from received_demo 0) (frames_for demo_codec ''s'' received_demo))
     (cn_got received_demo 0 @ buffered 0 received_demo @ pushes_to 0 (cn_route received_demo)) \<and>
   frames_for demo_codec ''s'' received_demo = [toy_event_frame ''s''] \<and> cn_from received_demo 0 = 0"
proof -
  have "registered ''s'' 0 received_demo" "\<not> cn_lost received_demo 0" "frames_for demo_codec ''s'' received_demo = [toy_event_frame ''s'']"
    "cn_from received_demo 0 = 0"
    by (simp_all add: eval_streams registered_def)
  then show ?thesis using stream_keeps_frames[OF received_reach, of "''s''" 0] by blast
qed

definition asked_demo :: conn where "asked_demo = start_request ''r'' demo_conn"
definition routed_demo :: conn where "routed_demo = read_frame demo_codec (answer_frame ''r'') asked_demo"
definition answered_demo :: conn where "answered_demo = push_one (Push 0 (answer_frame ''r'')) [CloseChan 0] routed_demo"
definition taken_demo :: conn where "taken_demo = take_buffered 0 (answer_frame ''r'') [] answered_demo"
definition torn_demo :: conn where "torn_demo = tear_conn (shut_conn None asked_demo)"

lemmas eval_asked = asked_demo_def routed_demo_def answered_demo_def taken_demo_def start_request_def register_request_def
  torn_demo_def tear_conn_def shut_conn_def close_link_def close_channels_def

lemma asked_reach: "conn_reach demo_codec asked_demo"
  unfolding asked_demo_def by (rule conn_reach.step[OF demo_reach conn_step.request])

lemma taken_reach: "conn_reach demo_codec taken_demo"
proof -
  have "conn_reach demo_codec routed_demo"
    unfolding routed_demo_def by (rule conn_reach.step[OF asked_reach conn_step.read]) (simp add: eval_streams eval_asked)
  then have "conn_reach demo_codec answered_demo"
    unfolding answered_demo_def by (rule conn_reach.step[OF _ conn_step.push]) (simp add: eval_streams eval_asked)
  then show ?thesis
    unfolding taken_demo_def by (rule conn_reach.step[OF _ conn_step.receive]) (simp add: eval_streams eval_asked)
qed

lemma torn_reach: "conn_reach demo_codec torn_demo"
proof -
  have "conn_reach demo_codec (shut_conn None asked_demo)"
    by (rule conn_reach.step[OF asked_reach conn_step.shut]) (simp add: eval_streams eval_asked)
  then show ?thesis
    unfolding torn_demo_def by (rule conn_reach.step[OF _ conn_step.tear]) (simp_all add: eval_streams eval_asked)
qed

theorem request_answered_once_witness:
  "length (cn_got taken_demo 0) \<le> 1 \<and> list_all (answers ''r'') (cn_got taken_demo 0) \<and> cn_got taken_demo 0 = [answer_frame ''r'']"
proof -
  have "cn_request taken_demo 0 = Some ''r''" "cn_got taken_demo 0 = [answer_frame ''r'']" by (simp_all add: eval_streams eval_asked)
  then show ?thesis using request_answered_once[OF taken_reach, of 0 "''r''"] by simp
qed

theorem request_fails_only_closed_witness: "chan_closed 0 torn_demo \<and> ln_closed (cn_link torn_demo)"
proof -
  have c: "chan_closed 0 torn_demo" "cn_request torn_demo 0 = Some ''r''" "cn_got torn_demo 0 = []" "buffered 0 torn_demo = []"
    by (auto simp: chan_closed_def buffered_def eval_streams eval_asked)
  show ?thesis using request_fails_only_closed[OF torn_reach c(2,1,3,4)] c(1) by simp
qed

theorem registering_never_blocks_witness: "\<exists>c l. register_stream ''s'' (cn_link torn_demo) = Some (c, l)"
  by (rule registering_never_blocks[OF torn_reach])

text \<open>A subscription answered just before the session closes, and registered just after.\<close>

definition late_demo :: conn where
  "late_demo = (case register_stream ''s'' (cn_link torn_demo) of Some (c, l) \<Rightarrow> open_stream demo_codec ''s'' c l torn_demo | None \<Rightarrow> torn_demo)"

lemma late_reach: "conn_reach demo_codec late_demo"
proof -
  have "register_stream ''s'' (cn_link torn_demo) = Some (1, the (map_option snd (register_stream ''s'' (cn_link torn_demo))))"
    by (simp add: eval_streams eval_asked)
  then have "conn_step demo_codec torn_demo (open_stream demo_codec ''s'' 1 (the (map_option snd (register_stream ''s'' (cn_link torn_demo)))) torn_demo)"
    by (rule conn_step.stream)
  moreover have "open_stream demo_codec ''s'' 1 (the (map_option snd (register_stream ''s'' (cn_link torn_demo)))) torn_demo = late_demo"
    by (simp add: late_demo_def eval_streams eval_asked)
  ultimately show ?thesis using conn_reach.step[OF torn_reach] by simp
qed

theorem late_stream_stays_open_witness:
  "ln_closed (cn_link late_demo) \<and> registered ''s'' 1 late_demo \<and> \<not> chan_closed 1 (drop_request ''r'' late_demo)"
proof -
  have l: "cn_torn late_demo" "registered ''s'' 1 late_demo" "ln_closed (cn_link late_demo)" "1 \<notin> set (cn_removed (drop_request ''r'' late_demo))"
    by (simp_all add: late_demo_def eval_streams eval_asked registered_def drop_request_def)
  show ?thesis using late_stream_stays_open[OF late_reach l(1,2) conn_step.give_up l(4)] l(2,3) by simp
qed

theorem slow_stream_loses_frames_witness:
  "\<exists>w c. conn_reach demo_codec w \<and> registered ''s'' c w \<and> cn_route w = [] \<and>
    frames_for demo_codec ''s'' w = replicate 128 (toy_event_frame ''s'') @ [(toy_event_frame ''s'')\<lparr>pf_code := ''last''\<rparr>] \<and>
    cn_got w c @ buffered c w = replicate 128 (toy_event_frame ''s'')"
  by (rule slow_stream_loses_frames) (simp_all add: eval_streams)
end
