(* ===== verification/ControllerRoutes.thy ===== *)
theory ControllerRoutes
  imports ControllerTransport
begin

text \<open>
  Goroutines that need a session of one host at the same time: \<open>getSession\<close> of \<open>pkg/controllercore/managed_transport.go\<close>
  with \<open>Invalidate\<close>, \<open>closeWithError\<close> and the end of a \<open>readLoop\<close>, each split wherever it releases \<open>m.mu\<close>. The
  connection opened by \<open>OpenFrameConn\<close> is an argument of the step.
\<close>

section \<open>Steps\<close>

text \<open>
  Where a goroutine is: the next critical section, and what it does after it. \<open>Checking\<close> to \<open>OpenFailed\<close> are those
  of \<open>getSession\<close> (the flag of the first ones is \<open>forceRelayOnly\<close>); \<open>Closing\<close> and \<open>Unlisting\<close> those of
  \<open>closeWithError\<close>, \<open>Noting\<close> is \<open>setControlState\<close>, \<open>Learning\<close> and \<open>MarkingFailed\<close> are \<open>markLANFailed\<close> and
  \<open>clearLANFailure\<close>.
\<close>

datatype route_phase =
    Checking bool
  | Closing nat route_phase
  | Unlisting nat route_phase
  | Noting string string "go_error option" route_phase
  | Deleting bool
  | Suppressing bool
  | Opening bool
  | Learning string route_phase
  | MarkingFailed route_phase
  | Inserting nat resolved_target
  | Dropping nat nat
  | Returned nat
  | OpenFailed go_error
  | Invalidating string
  | Ended

fun finished :: "route_phase \<Rightarrow> bool" where
  "finished (Returned n) = True"
| "finished (OpenFailed e) = True"
| "finished _ = False"

text \<open>
  \<open>rw_open\<close> says of a session that its \<open>closed\<close> channel is not closed, \<open>rw_loop\<close> that its \<open>readLoop\<close> runs;
  \<open>rw_threads\<close> are the callers of \<open>getSession\<close>, \<open>rw_others\<close> the goroutines that invalidate or end a session.
\<close>

record route_world =
  rw_manager :: manager
  rw_target :: "nat \<Rightarrow> resolved_target"
  rw_open :: "nat \<Rightarrow> bool"
  rw_loop :: "nat \<Rightarrow> bool"
  rw_next :: nat
  rw_threads :: "route_phase list"
  rw_others :: "route_phase list"

definition new_routes :: route_world where
  "new_routes = \<lparr>rw_manager = new_manager, rw_target = (\<lambda>_. no_target), rw_open = (\<lambda>_. False), rw_loop = (\<lambda>_. False), rw_next = 0,
     rw_threads = [], rw_others = []\<rparr>"

text \<open>The session of the table that is not closed.\<close>

definition route_session :: "string \<Rightarrow> route_world \<Rightarrow> nat option" where
  "route_session h w = (case mg_sessions (rw_manager w) h of Some n \<Rightarrow> if rw_open w n then Some n else None | None \<Rightarrow> None)"

definition delete_route :: "string \<Rightarrow> manager \<Rightarrow> manager" where
  "delete_route h m = m\<lparr>mg_sessions := (mg_sessions m)(h := None)\<rparr>"

text \<open>\<open>removeSession\<close>: only the session itself leaves the table.\<close>

definition remove_session :: "string \<Rightarrow> nat \<Rightarrow> manager \<Rightarrow> manager" where
  "remove_session h n m = (if mg_sessions m h = Some n then delete_route h m else m)"

definition put_state :: "string \<Rightarrow> string \<Rightarrow> string \<Rightarrow> string \<Rightarrow> go_error option \<Rightarrow> manager \<Rightarrow> manager" where
  "put_state now h state transport err m = fst (set_control_state now h state transport err m)"

text \<open>\<open>closeWithError\<close> of a session, and what follows it.\<close>

definition close_session_with :: "nat \<Rightarrow> route_phase \<Rightarrow> route_phase" where
  "close_session_with n after = Closing n (Unlisting n after)"

text \<open>A session that may not be used because only the relay is allowed.\<close>

definition replace_session :: "nat \<Rightarrow> string \<Rightarrow> bool \<Rightarrow> route_phase" where
  "replace_session n transport force =
     close_session_with n (Noting state_reconnecting transport (Some (OpaqueError ''force_relay_only'')) (Deleting force))"

text \<open>The end of a \<open>readLoop\<close>.\<close>

definition session_fails :: "nat \<Rightarrow> go_error \<Rightarrow> route_world \<Rightarrow> route_phase" where
  "session_fails n e w = Noting state_failed (rt_transport (rw_target w n)) (Some e) (close_session_with n Ended)"

text \<open>The first critical section of \<open>Invalidate\<close>, for a host whose id is trimmed and not empty.\<close>

definition invalidate_host :: "string \<Rightarrow> string \<Rightarrow> route_world \<Rightarrow> route_phase \<times> route_world" where
  "invalidate_host h reason w =
     (let m = rw_manager w;
          transport = (case mg_sessions m h of Some n \<Rightarrow> rt_transport (rw_target w n)
            | None \<Rightarrow> (case mg_states m h of Some s \<Rightarrow> cs_transport s | None \<Rightarrow> []));
          note = Noting state_reconnecting transport (Some (OpaqueError reason)) Ended in
      ((case mg_sessions m h of Some n \<Rightarrow> close_session_with n note | None \<Rightarrow> note), w\<lparr>rw_manager := delete_route h m\<rparr>))"

text \<open>
  One critical section of a goroutine; \<open>clock\<close> is the time and \<open>now\<close> its text, \<open>answer\<close> what \<open>OpenFrameConn\<close> returns
  (the error comes with the target).
\<close>

fun get_session_step ::
  "int \<Rightarrow> string \<Rightarrow> string \<Rightarrow> (go_error \<times> resolved_target) + resolved_target \<Rightarrow> route_phase \<Rightarrow> route_world \<Rightarrow>
   route_phase \<times> route_world" where
  "get_session_step clock now h answer (Checking force) w =
     (case route_session h w of
        Some n \<Rightarrow>
          if force \<and> rt_transport (rw_target w n) \<noteq> ''relay''
            then (replace_session n (rt_transport (rw_target w n)) force, w\<lparr>rw_manager := delete_route h (rw_manager w)\<rparr>)
            else (Returned n, w)
      | None \<Rightarrow> (Deleting force, w))"
| "get_session_step clock now h answer (Closing n after) w = (after, w\<lparr>rw_open := (rw_open w)(n := False)\<rparr>)"
| "get_session_step clock now h answer (Unlisting n after) w = (after, w\<lparr>rw_manager := remove_session h n (rw_manager w)\<rparr>)"
| "get_session_step clock now h answer (Noting state transport err after) w =
     (after, w\<lparr>rw_manager := put_state now h state transport err (rw_manager w)\<rparr>)"
| "get_session_step clock now h answer (Deleting force) w =
     (Noting state_connecting [] None (Suppressing force), w\<lparr>rw_manager := delete_route h (rw_manager w)\<rparr>)"
| "get_session_step clock now h answer (Suppressing force) w = (Opening (force \<or> lan_suppressed clock h (rw_manager w)), w)"
| "get_session_step clock now h answer (Opening relay) w =
     (case answer of
        Inl (e, target) \<Rightarrow>
          (let failed = Noting state_failed (rt_transport target) (Some e) (OpenFailed e) in
           (if relay then failed else MarkingFailed failed, w))
      | Inr target \<Rightarrow>
          (Learning (rt_transport target) (Inserting (rw_next w) target),
           w\<lparr>rw_target := (rw_target w)(rw_next w := target), rw_open := (rw_open w)(rw_next w := True), rw_next := rw_next w + 1\<rparr>))"
| "get_session_step clock now h answer (Learning transport after) w =
     (after, w\<lparr>rw_manager := note_transport clock h transport (rw_manager w)\<rparr>)"
| "get_session_step clock now h answer (MarkingFailed after) w = (after, w\<lparr>rw_manager := mark_lan_failed clock h (rw_manager w)\<rparr>)"
| "get_session_step clock now h answer (Inserting n target) w =
     (case route_session h w of
        Some existing \<Rightarrow> (Dropping n existing, w)
      | None \<Rightarrow>
          (Noting state_live (rt_transport target) None (Returned n),
           w\<lparr>rw_manager := (rw_manager w)\<lparr>mg_sessions := (mg_sessions (rw_manager w))(h := Some n)\<rparr>, rw_loop := (rw_loop w)(n := True)\<rparr>))"
| "get_session_step clock now h answer (Dropping n existing) w = (Returned existing, w\<lparr>rw_open := (rw_open w)(n := False)\<rparr>)"
| "get_session_step clock now h answer (Invalidating reason) w = invalidate_host h reason w"
| "get_session_step clock now h answer (Returned n) w = (Returned n, w)"
| "get_session_step clock now h answer (OpenFailed e) w = (OpenFailed e, w)"
| "get_session_step clock now h answer Ended w = (Ended, w)"

text \<open>
  With \<open>serial\<close>, a goroutine calls \<open>getSession\<close> only when no other is in it. Invalidations and the ends of read loops
  come at any time and interleave freely; \<open>InvalidateAll\<close> and \<open>InvalidateLAN\<close> are, for one host, like \<open>Invalidate\<close>.
\<close>

inductive route_step :: "bool \<Rightarrow> string \<Rightarrow> route_world \<Rightarrow> route_world \<Rightarrow> bool" for serial h where
  call: "\<not> serial \<or> list_all finished (rw_threads w) \<Longrightarrow> route_step serial h w (w\<lparr>rw_threads := rw_threads w @ [Checking force]\<rparr>)"
| advance: "i < length (rw_threads w) \<Longrightarrow> get_session_step clock now h answer (rw_threads w ! i) w = (p, w1) \<Longrightarrow>
    route_step serial h w (w1\<lparr>rw_threads := (rw_threads w)[i := p]\<rparr>)"
| invalidate: "route_step serial h w (w\<lparr>rw_others := rw_others w @ [Invalidating reason]\<rparr>)"
| ends: "rw_loop w n \<Longrightarrow>
    route_step serial h w (w\<lparr>rw_loop := (rw_loop w)(n := False), rw_others := rw_others w @ [session_fails n e w]\<rparr>)"
| other: "i < length (rw_others w) \<Longrightarrow> get_session_step clock now h answer (rw_others w ! i) w = (p, w1) \<Longrightarrow>
    route_step serial h w (w1\<lparr>rw_others := (rw_others w)[i := p]\<rparr>)"

inductive route_reach :: "bool \<Rightarrow> string \<Rightarrow> route_world \<Rightarrow> bool" for serial h where
  start: "route_reach serial h new_routes"
| step: "route_reach serial h w \<Longrightarrow> route_step serial h w w' \<Longrightarrow> route_reach serial h w'"

section \<open>One caller at a time\<close>

lemma put_state_frame [simp]:
  "mg_sessions (put_state now h state transport err m) = mg_sessions m"
  by (simp add: put_state_def frame)

lemma note_frame [simp]: "mg_sessions (note_transport clock h transport m) = mg_sessions m"
  by (simp add: note_transport_def mark_lan_failed_def clear_lan_failure_def split: option.splits)

lemma mark_frame [simp]: "mg_sessions (mark_lan_failed clock h m) = mg_sessions m"
  by (simp add: mark_lan_failed_def)

lemma delete_frame [simp]: "mg_sessions (delete_route h m) = (mg_sessions m)(h := None)"
  by (simp add: delete_route_def)

lemma remove_frame [simp]: "mg_sessions (remove_session h n m) = (if mg_sessions m h = Some n then (mg_sessions m)(h := None) else mg_sessions m)"
  by (simp add: remove_session_def)

lemma route_session_cases:
  "route_session h w = Some n \<longleftrightarrow> mg_sessions (rw_manager w) h = Some n \<and> rw_open w n"
  "route_session h w = None \<longleftrightarrow> (\<forall>n. mg_sessions (rw_manager w) h = Some n \<longrightarrow> \<not> rw_open w n)"
  by (auto simp: route_session_def split: option.splits)

text \<open>A session is in the hands of a goroutine that has opened it and not yet put it into the table, or is about to close it.\<close>

fun holds :: "nat \<Rightarrow> route_phase \<Rightarrow> bool" where
  "holds k (Closing n after) = (k = n \<or> holds k after)"
| "holds k (Unlisting n after) = holds k after"
| "holds k (Noting state transport err after) = holds k after"
| "holds k (Learning transport after) = holds k after"
| "holds k (MarkingFailed after) = holds k after"
| "holds k (Inserting n target) = (k = n)"
| "holds k (Dropping n existing) = (k = n)"
| "holds k _ = False"

text \<open>What a goroutine knows: the sessions it works on exist, and one that it takes out of the table is closed by then.\<close>

fun knows :: "route_world \<Rightarrow> route_phase \<Rightarrow> bool" where
  "knows w (Closing n after) = (n < rw_next w \<and> knows (w\<lparr>rw_open := (rw_open w)(n := False)\<rparr>) after)"
| "knows w (Unlisting n after) = (n < rw_next w \<and> \<not> rw_open w n \<and> knows w after)"
| "knows w (Noting state transport err after) = knows w after"
| "knows w (Learning transport after) = knows w after"
| "knows w (MarkingFailed after) = knows w after"
| "knows w (Inserting n target) = (n < rw_next w)"
| "knows w _ = True"

text \<open>The phases of \<open>getSession\<close> in which the table has no open session, and those of the other goroutines.\<close>

fun exclusive :: "route_phase \<Rightarrow> bool" where
  "exclusive (Closing n after) = exclusive after"
| "exclusive (Unlisting n after) = exclusive after"
| "exclusive (Noting state transport err after) = exclusive after"
| "exclusive (Learning transport after) = exclusive after"
| "exclusive (MarkingFailed after) = exclusive after"
| "exclusive (Deleting force) = True"
| "exclusive (Suppressing force) = True"
| "exclusive (Opening relay) = True"
| "exclusive (Inserting n target) = True"
| "exclusive _ = False"

fun side :: "route_phase \<Rightarrow> bool" where
  "side (Closing n after) = side after"
| "side (Unlisting n after) = side after"
| "side (Noting state transport err after) = side after"
| "side (Invalidating reason) = True"
| "side Ended = True"
| "side _ = False"

definition table_closed :: "string \<Rightarrow> route_world \<Rightarrow> bool" where
  "table_closed h w \<longleftrightarrow> (\<forall>k. mg_sessions (rw_manager w) h = Some k \<longrightarrow> \<not> rw_open w k)"

definition known_sessions :: "string \<Rightarrow> route_world \<Rightarrow> bool" where
  "known_sessions h w \<longleftrightarrow> (\<forall>k. mg_sessions (rw_manager w) h = Some k \<longrightarrow> k < rw_next w) \<and> (\<forall>k. rw_loop w k \<longrightarrow> k < rw_next w)"

text \<open>Sessions are only opened under new numbers.\<close>

definition later_world :: "route_world \<Rightarrow> route_world \<Rightarrow> bool" where
  "later_world w w1 \<longleftrightarrow> rw_next w \<le> rw_next w1 \<and> (\<forall>k < rw_next w. rw_open w1 k \<longrightarrow> rw_open w k)"

lemma knows_later: "knows w p \<Longrightarrow> later_world w w1 \<Longrightarrow> knows w1 p"
proof (induction p arbitrary: w w1)
  case (Closing n after)
  have "later_world (w\<lparr>rw_open := (rw_open w)(n := False)\<rparr>) (w1\<lparr>rw_open := (rw_open w1)(n := False)\<rparr>)"
    using Closing.prems(2) by (simp add: later_world_def)
  then show ?case using Closing by (auto simp: later_world_def)
next
  case (Unlisting n after)
  then show ?case by (auto simp: later_world_def)
qed (auto simp: later_world_def)

lemma step_later: "get_session_step clock now h answer p w = (q, w1) \<Longrightarrow> later_world w w1"
  by (cases p) (auto simp: later_world_def invalidate_host_def Let_def split: option.splits sum.splits if_splits)

lemma knows_same: "rw_open w1 = rw_open w \<Longrightarrow> rw_next w1 = rw_next w \<Longrightarrow> knows w1 p = knows w p"
  using knows_later[of w p w1] knows_later[of w1 p w] by (auto simp: later_world_def)

lemma knows_frame [simp]:
  "knows (w\<lparr>rw_threads := ts\<rparr>) p = knows w p" "knows (w\<lparr>rw_others := ts\<rparr>) p = knows w p"
  "knows (w\<lparr>rw_loop := l\<rparr>) p = knows w p" "knows (w\<lparr>rw_manager := m\<rparr>) p = knows w p"
  by (rule knows_same; simp)+

lemma step_knows:
  assumes "knows w p" "known_sessions h w" "get_session_step clock now h answer p w = (q, w1)"
  shows "knows w1 q \<and> known_sessions h w1"
proof -
  have table: "n < rw_next w" if "mg_sessions (rw_manager w) h = Some n" for n
    using assms(2) that by (simp add: known_sessions_def)
  show ?thesis
  proof (cases p)
    case (Checking force)
    show ?thesis
    proof (cases "route_session h w")
      case None then show ?thesis using assms by (simp add: Checking) auto
    next
      case (Some n)
      then have "mg_sessions (rw_manager w) h = Some n" by (simp add: route_session_cases)
      then show ?thesis using assms table[of n] Some
        by (auto simp: Checking replace_session_def close_session_with_def known_sessions_def split: if_splits)
    qed
  next
    case (Opening relay)
    then show ?thesis using assms by (cases answer) (auto simp: known_sessions_def Let_def less_SucI split: if_splits)
  next
    case (Inserting n target)
    show ?thesis
    proof (cases "route_session h w")
      case None
      then show ?thesis using assms by (auto simp: Inserting known_sessions_def split: if_splits)
    next
      case (Some k) then show ?thesis using assms by (simp add: Inserting) auto
    qed
  next
    case (Invalidating reason)
    then show ?thesis using assms table
      by (auto simp: invalidate_host_def Let_def close_session_with_def known_sessions_def split: option.splits)
  qed (use assms in \<open>auto simp: known_sessions_def split: if_splits\<close>)
qed

text \<open>No step loses an open session: it is in the table or in somebody's hands (\<open>X\<close>: of another goroutine).\<close>

lemma step_holds:
  assumes "knows w p" "exclusive p \<Longrightarrow> table_closed h w" "get_session_step clock now h answer p w = (q, w1)"
    and "rw_open w1 k" and "rw_open w k \<Longrightarrow> mg_sessions (rw_manager w) h = Some k \<or> holds k p \<or> X"
  shows "mg_sessions (rw_manager w1) h = Some k \<or> holds k q \<or> X"
proof (cases p)
  case (Checking force)
  show ?thesis
  proof (cases "route_session h w")
    case None then show ?thesis using assms by (simp add: Checking) auto
  next
    case (Some n)
    then have "mg_sessions (rw_manager w) h = Some n" by (simp add: route_session_cases)
    then show ?thesis using assms(3-5) Some
      by (auto simp: Checking replace_session_def close_session_with_def split: if_splits)
  qed
next
  case (Unlisting n after)
  then show ?thesis using assms by (auto split: if_splits)
next
  case (Deleting force)
  then show ?thesis using assms by (auto simp: table_closed_def)
next
  case (Opening relay)
  then show ?thesis using assms by (cases answer) (auto simp: Let_def split: if_splits)
next
  case (Inserting n target)
  have closed: "table_closed h w" using assms(2) by (simp add: Inserting)
  then have "route_session h w = None" by (simp add: route_session_cases table_closed_def)
  then have "q = Noting state_live (rt_transport target) None (Returned n)"
    "mg_sessions (rw_manager w1) h = Some n" "rw_open w1 = rw_open w" using assms(3) by (auto simp: Inserting)
  then show ?thesis using assms(4,5) closed by (auto simp: Inserting table_closed_def)
next
  case (Invalidating reason)
  then show ?thesis using assms(3-5)
    by (auto simp: invalidate_host_def Let_def close_session_with_def split: option.splits if_splits)
qed (use assms in \<open>auto split: if_splits\<close>)

lemma step_exclusive:
  assumes "exclusive p \<Longrightarrow> table_closed h w" "get_session_step clock now h answer p w = (q, w1)" "known_sessions h w" "exclusive q"
  shows "table_closed h w1"
proof (cases p)
  case (Checking force)
  show ?thesis
  proof (cases "route_session h w")
    case None
    then have "table_closed h w" by (simp add: route_session_cases table_closed_def)
    then show ?thesis using assms(2) None by (simp add: Checking)
  next
    case (Some n)
    then show ?thesis using assms(2,4) by (auto simp: Checking table_closed_def split: if_splits)
  qed
next
  case (Opening relay)
  then show ?thesis using assms
    by (cases answer) (auto simp: Let_def table_closed_def known_sessions_def split: if_splits)
next
  case (Inserting n target)
  then show ?thesis using assms by (auto split: option.splits)
next
  case (Invalidating reason)
  then show ?thesis using assms by (auto simp: invalidate_host_def Let_def table_closed_def)
qed (use assms in \<open>auto simp: table_closed_def split: if_splits\<close>)

text \<open>The other goroutines only close sessions and take them out of the table.\<close>

lemma side_step:
  assumes "side p" "get_session_step clock now h answer p w = (q, w1)"
  shows "side q \<and> (mg_sessions (rw_manager w1) h = mg_sessions (rw_manager w) h \<or> mg_sessions (rw_manager w1) h = None) \<and>
    (\<forall>k. rw_open w1 k \<longrightarrow> rw_open w k)"
  using assms
  by (cases p) (auto simp: invalidate_host_def Let_def close_session_with_def split: option.splits if_splits)

lemma step_threads:
  "get_session_step clock now h answer p w = (q, w1) \<Longrightarrow> rw_threads w1 = rw_threads w \<and> rw_others w1 = rw_others w"
  by (cases p) (auto simp: invalidate_host_def Let_def split: option.splits sum.splits if_splits)

lemma finished_stays: "finished p \<Longrightarrow> get_session_step clock now h answer p w = (p, w)"
  by (cases p) simp_all

lemma finished_free: "finished p \<Longrightarrow> \<not> exclusive p"
  by (cases p) simp_all

lemma side_free: "side p \<Longrightarrow> \<not> exclusive p"
  by (induction p) simp_all

definition goroutines :: "route_world \<Rightarrow> route_phase list" where
  "goroutines w = rw_threads w @ rw_others w"

definition serial_ok :: "string \<Rightarrow> route_world \<Rightarrow> bool" where
  "serial_ok h w \<longleftrightarrow> list_all finished (butlast (rw_threads w)) \<and> list_all side (rw_others w) \<and> known_sessions h w \<and>
     (\<forall>p\<in>set (goroutines w). knows w p \<and> (exclusive p \<longrightarrow> table_closed h w)) \<and>
     (\<forall>k. rw_open w k \<longrightarrow> mg_sessions (rw_manager w) h = Some k \<or> (\<exists>p\<in>set (goroutines w). holds k p))"

text \<open>One goroutine \<open>p\<close> makes a step, the others being \<open>as\<close> and \<open>bs\<close>.\<close>

lemma goroutine_step:
  assumes ok: "known_sessions h w" "\<forall>p\<in>set (as @ p # bs). knows w p \<and> (exclusive p \<longrightarrow> table_closed h w)"
      "\<forall>k. rw_open w k \<longrightarrow> mg_sessions (rw_manager w) h = Some k \<or> (\<exists>p\<in>set (as @ p # bs). holds k p)"
    and step: "get_session_step clock now h answer p w = (q, w1)"
    and free: "side p \<or> (\<forall>r\<in>set (as @ bs). \<not> exclusive r)"
  shows "known_sessions h w1 \<and> (\<forall>p\<in>set (as @ q # bs). knows w1 p \<and> (exclusive p \<longrightarrow> table_closed h w1)) \<and>
    (\<forall>k. rw_open w1 k \<longrightarrow> mg_sessions (rw_manager w1) h = Some k \<or> (\<exists>p\<in>set (as @ q # bs). holds k p))"
proof -
  have p: "knows w p" "exclusive p \<Longrightarrow> table_closed h w" using ok(2) by auto
  note kn = step_knows[OF p(1) ok(1) step]
  have rest: "knows w1 r" if "r \<in> set (as @ bs)" for r
    using ok(2) that knows_later[OF _ step_later[OF step]] by auto
  have excl: "table_closed h w1" if "r \<in> set (as @ q # bs)" "exclusive r" for r
  proof (cases "r \<in> set (as @ bs)")
    case True
    then have "side p" "table_closed h w" using free that ok(2) by auto
    then show ?thesis using side_step[OF _ step] by (auto simp: table_closed_def)
  next
    case False
    then show ?thesis using step_exclusive[OF p(2) step ok(1)] that by auto
  qed
  have "mg_sessions (rw_manager w1) h = Some k \<or> (\<exists>p\<in>set (as @ q # bs). holds k p)" if "rw_open w1 k" for k
    using step_holds[OF p step that, of "\<exists>r\<in>set (as @ bs). holds k r"] ok(3) by auto
  then show ?thesis using kn rest excl by auto
qed

lemma known_new: "known_sessions h w \<Longrightarrow> rw_loop w n \<Longrightarrow> knows w (session_fails n e w)"
  by (auto simp: known_sessions_def session_fails_def close_session_with_def)

lemma world_frame [simp]:
  "known_sessions h (w\<lparr>rw_threads := ts\<rparr>) = known_sessions h w" "known_sessions h (w\<lparr>rw_others := ts\<rparr>) = known_sessions h w"
  "table_closed h (w\<lparr>rw_threads := ts\<rparr>) = table_closed h w" "table_closed h (w\<lparr>rw_others := ts\<rparr>) = table_closed h w"
  "table_closed h (w\<lparr>rw_loop := l\<rparr>) = table_closed h w"
  by (simp_all add: known_sessions_def table_closed_def)

lemma serial_step: "route_step True h w w' \<Longrightarrow> serial_ok h w \<Longrightarrow> serial_ok h w'"
proof (induction rule: route_step.induct)
  case (call w force)
  then have "list_all finished (rw_threads w)" by simp
  then show ?case using call(2) by (auto simp: serial_ok_def goroutines_def)
next
  case (invalidate w reason)
  then show ?case by (auto simp: serial_ok_def goroutines_def)
next
  case (ends w n e)
  moreover have "side (session_fails n e w) \<and> \<not> exclusive (session_fails n e w)"
    by (simp add: session_fails_def close_session_with_def)
  moreover have "knows w (session_fails n e w)" using known_new[of h w n e] ends by (simp add: serial_ok_def)
  ultimately show ?case by (auto simp: serial_ok_def goroutines_def known_sessions_def)
next
  case (advance i w clock now answer p w1)
  let ?as = "take i (rw_threads w)" and ?p = "rw_threads w ! i" and ?bs = "drop (Suc i) (rw_threads w) @ rw_others w"
  show ?case
  proof (cases "finished ?p")
    case True
    then show ?thesis using advance finished_stays[OF True] by auto
  next
    case False
    have split: "rw_threads w = ?as @ ?p # drop (Suc i) (rw_threads w)" by (rule id_take_nth_drop[OF advance(1)])
    have last: "drop (Suc i) (rw_threads w) = []"
    proof (rule ccontr)
      assume more: "drop (Suc i) (rw_threads w) \<noteq> []"
      then have "?p \<in> set (butlast (rw_threads w))" by (subst split) (simp add: butlast_append)
      then show False using advance(3) False by (auto simp: serial_ok_def list_all_iff)
    qed
    have fin: "list_all finished ?as" using advance(3) last
      by (subst (asm) serial_ok_def, subst (asm) split) (simp add: butlast_append)
    have free: "\<forall>r\<in>set (?as @ ?bs). \<not> exclusive r"
      using fin advance(3) finished_free side_free by (auto simp: last serial_ok_def list_all_iff)
    have all: "goroutines w = ?as @ ?p # ?bs"
      using arg_cong[OF split, of "\<lambda>ps. ps @ rw_others w"] by (simp only: goroutines_def append_assoc append_Cons)
    have "known_sessions h w1 \<and> (\<forall>p\<in>set (?as @ p # ?bs). knows w1 p \<and> (exclusive p \<longrightarrow> table_closed h w1)) \<and>
        (\<forall>k. rw_open w1 k \<longrightarrow> mg_sessions (rw_manager w1) h = Some k \<or> (\<exists>p\<in>set (?as @ p # ?bs). holds k p))"
      by (rule goroutine_step[OF _ _ _ advance(2)]) (use advance(3) free in \<open>simp_all add: serial_ok_def all\<close>)
    moreover have "(rw_threads w)[i := p] = ?as @ [p]" using upd_conv_take_nth_drop[OF advance(1)] last by simp
    moreover have "rw_others w1 = rw_others w" using step_threads[OF advance(2)] by simp
    ultimately show ?thesis using fin advance(3) by (simp add: serial_ok_def goroutines_def last)
  qed
next
  case (other i w clock now answer p w1)
  let ?as = "rw_threads w @ take i (rw_others w)" and ?p = "rw_others w ! i" and ?bs = "drop (Suc i) (rw_others w)"
  have split: "rw_others w = take i (rw_others w) @ ?p # ?bs" by (rule id_take_nth_drop[OF other(1)])
  have side: "side ?p" using other(1,3) by (simp add: serial_ok_def list_all_length)
  have all: "goroutines w = ?as @ ?p # ?bs" by (simp add: goroutines_def flip: split)
  have "known_sessions h w1 \<and> (\<forall>p\<in>set (?as @ p # ?bs). knows w1 p \<and> (exclusive p \<longrightarrow> table_closed h w1)) \<and>
      (\<forall>k. rw_open w1 k \<longrightarrow> mg_sessions (rw_manager w1) h = Some k \<or> (\<exists>p\<in>set (?as @ p # ?bs). holds k p))"
    by (rule goroutine_step[OF _ _ _ other(2)]) (use other(3) side in \<open>simp_all add: serial_ok_def all\<close>)
  moreover have "(rw_others w)[i := p] = take i (rw_others w) @ p # ?bs" by (rule upd_conv_take_nth_drop[OF other(1)])
  moreover have "list_all side ((rw_others w)[i := p])"
    using other(3) side_step[OF side other(2)] by (auto simp: serial_ok_def list_all_iff dest: set_update_subset_insert[THEN subsetD])
  moreover have "rw_threads w1 = rw_threads w" using step_threads[OF other(2)] by simp
  ultimately show ?case using other(3) by (simp add: serial_ok_def goroutines_def)
qed

lemma serial_reach: "route_reach True h w \<Longrightarrow> serial_ok h w"
  by (induction rule: route_reach.induct) (simp add: serial_ok_def goroutines_def new_routes_def known_sessions_def new_manager_def, rule serial_step)

text \<open>
  C40: If getSession is not entered concurrently for a host, a session of the host that is open stands in the table of
  sessions, or is in the hands of a goroutine that has just opened it or is about to close it, however invalidations
  and ends of read loops interleave with getSession. So no session is forgotten, and as soon as all goroutines have
  finished there is at most one.
\<close>

theorem open_sessions_in_table:
  assumes "route_reach True h w" "rw_open w n"
  shows "mg_sessions (rw_manager w) h = Some n \<or> (\<exists>p\<in>set (rw_threads w @ rw_others w). holds n p)"
  using serial_reach[OF assms(1)] assms(2) unfolding serial_ok_def goroutines_def by blast

section \<open>Two callers\<close>

definition relay_target_of :: "string \<Rightarrow> resolved_target" where
  "relay_target_of h = \<lparr>rt_host = h, rt_transport = ''relay'', rt_timeout = 0, rt_relay = True\<rparr>"

text \<open>One turn of goroutine \<open>i\<close>, its connection through the relay.\<close>

definition turn :: "nat \<Rightarrow> route_world \<Rightarrow> route_world" where
  "turn i w = (case get_session_step 0 ''now'' ''h'' (Inr (relay_target_of ''h'')) (rw_threads w ! i) w of
     (p, w1) \<Rightarrow> w1\<lparr>rw_threads := (rw_threads w)[i := p]\<rparr>)"

definition two_callers :: route_world where
  "two_callers = new_routes\<lparr>rw_threads := [Checking False, Checking False]\<rparr>"

lemma two_callers_reach: "route_reach False ''h'' two_callers"
proof -
  have "route_reach False ''h'' (new_routes\<lparr>rw_threads := rw_threads new_routes @ [Checking False]\<rparr>)"
    by (rule route_reach.step[OF route_reach.start route_step.call]) simp
  then have "route_reach False ''h'' (new_routes\<lparr>rw_threads := [Checking False]\<rparr>)" by (simp add: new_routes_def)
  then have "route_reach False ''h'' (new_routes\<lparr>rw_threads := [Checking False]\<rparr>
      \<lparr>rw_threads := rw_threads (new_routes\<lparr>rw_threads := [Checking False]\<rparr>) @ [Checking False]\<rparr>)"
    by (rule route_reach.step[OF _ route_step.call]) simp
  then show ?thesis by (simp add: two_callers_def new_routes_def)
qed

lemma turn_reach: "route_reach False ''h'' w \<Longrightarrow> i < length (rw_threads w) \<Longrightarrow> route_reach False ''h'' (turn i w)"
  unfolding turn_def
  by (cases "get_session_step 0 ''now'' ''h'' (Inr (relay_target_of ''h'')) (rw_threads w ! i) w")
    (auto intro: route_reach.step route_step.advance)

text \<open>
  Both find no session; the first opens one and puts it into the table, where the second, still about to delete,
  removes it before it opens its own.
\<close>

definition leak_run :: "nat list" where "leak_run = [0, 1] @ replicate 7 0 @ replicate 7 1"

lemma turns_reach:
  "route_reach False ''h'' w \<Longrightarrow> length (rw_threads w) = 2 \<Longrightarrow> list_all (\<lambda>i. i < 2) turns \<Longrightarrow> route_reach False ''h'' (fold turn turns w)"
proof (induction turns arbitrary: w)
  case (Cons i js)
  have "length (rw_threads (turn i w)) = 2" using Cons.prems(2) by (simp add: turn_def split: prod.splits)
  then show ?case using Cons turn_reach[of w i] by simp
qed simp

lemma trim_h: "trim_space ''h'' = ''h''"
  by code_simp

lemmas eval_routes = two_callers_def new_routes_def new_manager_def leak_run_def turn_def route_session_def delete_route_def
  put_state_def set_control_state_def note_transport_def mark_lan_failed_def relay_target_of_def trim_h Let_def
  lan_suppressed_def remove_session_def

theorem concurrent_open_leaks:
  "\<exists>w. route_reach False ''h'' w \<and> rw_threads w = [Returned 0, Returned 1] \<and> rw_others w = [] \<and> rw_open w 0 \<and> rw_open w 1 \<and>
     mg_sessions (rw_manager w) ''h'' = Some 1"
  by (rule exI[of _ "fold turn leak_run two_callers"], intro conjI, rule turns_reach[OF two_callers_reach])
    (simp_all add: eval_routes numeral_eq_Suc)

text \<open>When the read loop of the forgotten session ends later, it marks the host as failed although the other one is live.\<close>

theorem old_session_marks_failed:
  "\<exists>w. route_reach False ''h'' w \<and> rw_open w 1 \<and> mg_sessions (rw_manager w) ''h'' = Some 1 \<and>
     cs_state (control_state_of ''h'' (rw_manager w)) = state_failed"
proof -
  let ?w = "fold turn leak_run two_callers"
  have r: "route_reach False ''h'' ?w"
    by (rule turns_reach[OF two_callers_reach]) (simp_all add: two_callers_def leak_run_def list_all_iff)
  have loop: "rw_loop ?w 0" and others: "rw_others ?w = []" and live: "rw_open ?w 1" "mg_sessions (rw_manager ?w) ''h'' = Some 1"
    by (simp_all add: eval_routes numeral_eq_Suc)
  let ?e = "OpaqueError ''EOF''"
  let ?w1 = "?w\<lparr>rw_loop := (rw_loop ?w)(0 := False), rw_others := [session_fails 0 ?e ?w]\<rparr>"
  let ?w2 = "?w1\<lparr>rw_manager := put_state ''now'' ''h'' state_failed (rt_transport (rw_target ?w 0)) (Some ?e) (rw_manager ?w)\<rparr>"
  have "route_reach False ''h'' ?w1"
    using route_reach.step[OF r route_step.ends[OF loop, of _ _ ?e]] others by simp
  moreover have "route_step False ''h'' ?w1 (?w2\<lparr>rw_others := (rw_others ?w1)[0 := close_session_with 0 Ended]\<rparr>)"
    by (rule route_step.other[where clock = 0 and now = "''now''" and answer = "Inr no_target"]) (simp_all add: session_fails_def)
  ultimately have "route_reach False ''h'' (?w2\<lparr>rw_others := (rw_others ?w1)[0 := close_session_with 0 Ended]\<rparr>)"
    by (rule route_reach.step)
  moreover have "cs_state (control_state_of ''h'' (rw_manager ?w2)) = state_failed"
    by (simp add: put_state_def set_control_state_def control_state_of_def trim_h Let_def state_failed_def)
  ultimately show ?thesis using live by fastforce
qed

text \<open>One caller after the other.\<close>

definition one_caller :: route_world where
  "one_caller = new_routes\<lparr>rw_threads := [Checking False]\<rparr>"

lemma one_turn_reach:
  "route_reach True ''h'' w \<Longrightarrow> 0 < length (rw_threads w) \<Longrightarrow> route_reach True ''h'' (turn 0 w)"
  unfolding turn_def
  by (cases "get_session_step 0 ''now'' ''h'' (Inr (relay_target_of ''h'')) (rw_threads w ! 0) w")
    (auto intro: route_reach.step route_step.advance)

lemma one_caller_reach: "route_reach True ''h'' ((turn 0 ^^ n) one_caller) \<and> length (rw_threads ((turn 0 ^^ n) one_caller)) = 1"
proof (induction n)
  case 0
  have "route_reach True ''h'' (new_routes\<lparr>rw_threads := rw_threads new_routes @ [Checking False]\<rparr>)"
    by (rule route_reach.step[OF route_reach.start route_step.call]) (simp add: new_routes_def)
  then show ?case by (simp add: one_caller_def new_routes_def)
next
  case (Suc n)
  then show ?case using one_turn_reach[of "(turn 0 ^^ n) one_caller"] by (simp add: turn_def[of 0 "(turn 0 ^^ n) one_caller"] split: prod.splits)
qed

theorem open_sessions_in_table_witness:
  "rw_open ((turn 0 ^^ 7) one_caller) 0 \<and> mg_sessions (rw_manager ((turn 0 ^^ 7) one_caller)) ''h'' = Some 0"
proof -
  have o: "rw_open ((turn 0 ^^ 7) one_caller) 0"
    "\<not> (\<exists>p\<in>set (rw_threads ((turn 0 ^^ 7) one_caller) @ rw_others ((turn 0 ^^ 7) one_caller)). holds 0 p)"
    by (simp_all add: one_caller_def eval_routes numeral_eq_Suc)
  show ?thesis using open_sessions_in_table[OF conjunct1[OF one_caller_reach[of 7]] o(1)] o by blast
qed

section \<open>All hosts\<close>

text \<open>
  \<open>InvalidateAll\<close> and \<open>InvalidateLAN\<close> from beginning to end, when nothing comes in between: \<open>hosts\<close> are the keys of the session
  table and \<open>states\<close> a snapshot of the states, in the order of the map.
\<close>

definition close_route :: "string \<Rightarrow> nat \<Rightarrow> route_world \<Rightarrow> route_world" where
  "close_route h n w = w\<lparr>rw_open := (rw_open w)(n := False), rw_manager := remove_session h n (rw_manager w)\<rparr>"

definition sessions_of :: "string list \<Rightarrow> route_world \<Rightarrow> (string \<times> nat) list" where
  "sessions_of hosts w = concat (map (\<lambda>h. case mg_sessions (rw_manager w) h of None \<Rightarrow> [] | Some n \<Rightarrow> [(h, n)]) hosts)"

fun delete_all :: "(string \<times> nat) list \<Rightarrow> manager \<Rightarrow> manager" where
  "delete_all [] m = m"
| "delete_all ((h, n) # rest) m = delete_all rest (delete_route h m)"

fun close_all :: "(string \<times> nat) list \<Rightarrow> route_world \<Rightarrow> route_world" where
  "close_all [] w = w"
| "close_all ((h, n) # rest) w = close_all rest (close_route h n w)"

definition invalidate_all :: "string \<Rightarrow> string list \<Rightarrow> (string \<times> control_state) list \<Rightarrow> string \<Rightarrow> route_world \<Rightarrow> route_world" where
  "invalidate_all now hosts states reason w =
     (let victims = sessions_of hosts w; w1 = close_all victims (w\<lparr>rw_manager := delete_all victims (rw_manager w)\<rparr>) in
      w1\<lparr>rw_manager := set_all_states now states state_reconnecting (Some (OpaqueError reason)) (rw_manager w1)\<rparr>)"

fun close_and_note :: "string \<Rightarrow> string \<Rightarrow> (string \<times> nat) list \<Rightarrow> route_world \<Rightarrow> route_world" where
  "close_and_note now reason [] w = w"
| "close_and_note now reason ((h, n) # rest) w =
     (let w1 = close_route h n w in
      close_and_note now reason rest
        (w1\<lparr>rw_manager := put_state now h state_reconnecting (rt_transport (rw_target w n)) (Some (OpaqueError reason)) (rw_manager w1)\<rparr>))"

definition invalidate_lan :: "string \<Rightarrow> string list \<Rightarrow> string \<Rightarrow> route_world \<Rightarrow> route_world" where
  "invalidate_lan now hosts reason w =
     (let victims = filter (\<lambda>(h, n). rt_transport (rw_target w n) = ''lan'') (sessions_of hosts w) in
      close_and_note now reason victims (w\<lparr>rw_manager := delete_all victims (rw_manager w)\<rparr>))"

lemma close_all_closes: "rw_open (close_all vs w) n \<longleftrightarrow> rw_open w n \<and> n \<notin> snd ` set vs"
  by (induction vs w rule: close_all.induct) (auto simp: close_route_def)

lemma close_and_note_closes: "rw_open (close_and_note now reason vs w) n \<longleftrightarrow> rw_open w n \<and> n \<notin> snd ` set vs"
  by (induction now reason vs w rule: close_and_note.induct) (auto simp: close_route_def Let_def)

lemma sessions_of_set: "(h, n) \<in> set (sessions_of hosts w) \<longleftrightarrow> h \<in> set hosts \<and> mg_sessions (rw_manager w) h = Some n"
  by (auto simp: sessions_of_def split: option.splits)

lemma invalidate_all_closes:
  "h \<in> set hosts \<Longrightarrow> mg_sessions (rw_manager w) h = Some n \<Longrightarrow> \<not> rw_open (invalidate_all now hosts states reason w) n"
  using sessions_of_set[of h n hosts w] by (force simp: invalidate_all_def Let_def close_all_closes)

lemma invalidate_lan_spares:
  "rw_open w n \<Longrightarrow> rt_transport (rw_target w n) \<noteq> ''lan'' \<Longrightarrow> rw_open (invalidate_lan now hosts reason w) n"
  by (auto simp: invalidate_lan_def Let_def close_and_note_closes)
end
