(* ===== verification/ControllerRelay.thy ===== *)
theory ControllerRelay
  imports ControllerTransport RelayBroker HostCore
begin

text \<open>
  The controller's side of a connection: \<open>pkg/controllercore/client_transport.go\<close>. Reading from the relay works
  through a list of what \<open>ReadRelayEnvelope\<close> gives, one item a call; \<open>None\<close> is a read that still waits at the end
  of the list. The primitives, the JSON decoders and \<open>time.Parse\<close> are parameters.
\<close>

section \<open>Connections through the relay\<close>

record relay_target =
  ra_controller :: string
  ra_host :: string

text \<open>\<open>relayActiveConnections\<close> is a set of keys; connections without a full key are not in it.\<close>

definition relay_connection_key :: "relay_target \<Rightarrow> string \<Rightarrow> string" where
  "relay_connection_key t connection0 =
     (let controller = trim_space (ra_controller t); host = trim_space (ra_host t); connection = trim_space connection0 in
      if controller = [] \<or> host = [] \<or> connection = [] then []
      else controller @ ''|'' @ host @ ''|'' @ connection)"

definition register_relay_active :: "relay_target \<Rightarrow> string \<Rightarrow> string list \<Rightarrow> string list" where
  "register_relay_active t connection active =
     (let key = relay_connection_key t connection in if key = [] then active else List.insert key active)"

definition unregister_relay_active :: "relay_target \<Rightarrow> string \<Rightarrow> string list \<Rightarrow> string list" where
  "unregister_relay_active t connection active =
     (let key = relay_connection_key t connection in if key = [] then active else removeAll key active)"

definition relay_connection_active :: "relay_target \<Rightarrow> string \<Rightarrow> string list \<Rightarrow> bool" where
  "relay_connection_active t connection active =
     (let key = relay_connection_key t connection in key \<noteq> [] \<and> key \<in> set active)"

text \<open>\<open>opened\<close> is \<open>None\<close> for the zero time; \<open>parse\<close> reads an RFC 3339 time.\<close>

definition relay_envelope_is_stale ::
  "(string \<Rightarrow> int option) \<Rightarrow> relay_target \<Rightarrow> string list \<Rightarrow> int option \<Rightarrow> envelope \<Rightarrow> bool" where
  "relay_envelope_is_stale parse t active opened e =
     (if blank (env_connection e) \<or> relay_connection_active t (env_connection e) active then False
      else (case opened of
          None \<Rightarrow> False
        | Some since \<Rightarrow> (case parse (trim_space (env_created e)) of None \<Rightarrow> False | Some created \<Rightarrow> created < since)))"

definition relay_envelope_payload :: "envelope \<Rightarrow> nat \<Rightarrow> string option" where
  "relay_envelope_payload e limit =
     (case std_decode (env_payload e) of
        None \<Rightarrow> None
      | Some payload \<Rightarrow> if limit > 0 \<and> length payload > limit then None else Some payload)"

text \<open>
  What one round of a read loop meets: the context or the relay fails, or an envelope comes, with the outcome an
  acknowledgement of it would have and the active connections at that moment.
\<close>

datatype relay_item = RelayFails string | Arrives envelope "string option" "string list"

datatype relay_failure = RelayError string | ChannelError wire_error | ClosedByHost close_error | HostClosed string | NotAuthorized

record 'r relay_codec =
  rc_time :: "string \<Rightarrow> int option"
  rc_sealed :: "string \<Rightarrow> sealed_frame option"
  rc_plain :: "string \<Rightarrow> string + 'r plain_frame"
  rc_ack :: "string \<Rightarrow> hello_ack_frame option"

fun first_nonblank :: "string list \<Rightarrow> string" where
  "first_nonblank [] = []"
| "first_nonblank (v # vs) = (if \<not> blank v then trim_space v else first_nonblank vs)"

section \<open>Reading frames\<close>

datatype 'r relay_outcome = GotFrame "'r plain_frame" | GotFailure relay_failure | ReadPanic

definition host_closed :: "'r plain_frame \<Rightarrow> relay_failure" where
  "host_closed plain = HostClosed (first_nonblank [pf_reason plain, pf_code plain, ''relay control session closed''])"

definition frame_limit :: nat where "frame_limit = 64 * 1024 * 1024"

text \<open>
  \<open>relayRead\<close>: the outcome, the ids acknowledged (also when the acknowledgement failed), the items not read yet
  and the cipher.
\<close>

fun relay_read ::
  "crypto \<Rightarrow> 'r relay_codec \<Rightarrow> relay_target \<Rightarrow> string \<Rightarrow> int option \<Rightarrow> relay_item list \<Rightarrow> cipher \<Rightarrow>
   ('r relay_outcome \<times> string list \<times> relay_item list \<times> cipher) option" where
  "relay_read cx J t connection opened [] c = None"
| "relay_read cx J t connection opened (RelayFails e # items) c = Some (GotFailure (RelayError e), [], items, c)"
| "relay_read cx J t connection opened (Arrives e ack_error active # items) c =
     (let skip = relay_read cx J t connection opened items c;
          skip_acked = map_option (\<lambda>(r, acks, rest, c1). (r, env_id e # acks, rest, c1)) skip in
      if env_kind e \<noteq> kind_sealed_frame \<or> env_from e \<noteq> ra_host t then skip
      else if env_connection e \<noteq> connection then
        (if relay_envelope_is_stale (rc_time J) t active opened e then skip_acked else skip)
      else (case relay_envelope_payload e frame_limit of
          None \<Rightarrow> skip_acked
        | Some payload \<Rightarrow>
            (case rc_sealed J payload of
               None \<Rightarrow> skip_acked
             | Some sealed \<Rightarrow>
                 (case open_frame cx (rc_plain J) sealed c of
                    (Refused err, c1) \<Rightarrow> Some (GotFailure (ChannelError err), [env_id e], items, c1)
                  | (Panicked, c1) \<Rightarrow> Some (ReadPanic, [], items, c1)
                  | (Opened plain, c1) \<Rightarrow>
                      Some (case ack_error of Some err \<Rightarrow> GotFailure (RelayError err)
                        | None \<Rightarrow>
                            if pf_type plain = ''close'' then GotFailure (host_closed plain) else GotFrame plain,
                        [env_id e], items, c1)))))"

text \<open>\<open>readLoop\<close> on such a connection: frames until the first failure.\<close>

function relay_frames ::
  "crypto \<Rightarrow> 'r relay_codec \<Rightarrow> relay_target \<Rightarrow> string \<Rightarrow> int option \<Rightarrow> relay_item list \<Rightarrow> cipher \<Rightarrow> 'r plain_frame list" where
  "relay_frames cx J t connection opened items c =
     (case relay_read cx J t connection opened items c of
        Some (GotFrame plain, acks, rest, c1) \<Rightarrow> plain # relay_frames cx J t connection opened rest c1
      | _ \<Rightarrow> [])"
  by pat_completeness auto

lemma relay_read_shorter:
  "relay_read cx J t connection opened items c = Some (r, acks, rest, c1) \<Longrightarrow> length rest < length items"
  by (induction cx J t connection opened items c arbitrary: acks rule: relay_read.induct)
    (fastforce simp: Let_def split: if_splits option.splits opened.splits prod.splits)+

termination relay_frames
  by (relation "measure (\<lambda>(cx, J, t, connection, opened, items, c). length items)") (auto dest: relay_read_shorter)

declare relay_frames.simps [simp del]

section \<open>Writing frames\<close>

definition relay_write ::
  "crypto \<Rightarrow> ('r plain_frame \<Rightarrow> string + string) \<Rightarrow> (sealed_frame \<Rightarrow> string) \<Rightarrow> string + string \<Rightarrow> relay_target \<Rightarrow>
   string \<Rightarrow> 'r plain_frame \<Rightarrow> cipher \<Rightarrow> (wire_error + envelope) \<times> cipher" where
  "relay_write cx marshal json random t connection frame c =
     (case seal cx marshal random frame c of
        (Inl e, c1) \<Rightarrow> (Inl e, c1)
      | (Inr sealed, c1) \<Rightarrow>
          (Inr \<lparr>env_version = envelope_version, env_id = [], env_connection = connection, env_from = ra_controller t,
             env_to = ra_host t, env_kind = kind_sealed_frame, env_payload = std_encode (json sealed), env_created = []\<rparr>, c1))"

section \<open>Waiting for the answer of the host\<close>

definition hello_limit :: nat where "hello_limit = 16 * 1024"

text \<open>\<open>waitRelayHelloAck\<close>; envelopes to the controller itself are acknowledged under its own id.\<close>

fun wait_relay_hello_ack ::
  "crypto \<Rightarrow> 'r relay_codec \<Rightarrow> (string \<Rightarrow> lease_payload option) \<Rightarrow> int \<Rightarrow> relay_target \<Rightarrow> device_identity \<Rightarrow>
   membership_state \<Rightarrow> hello_frame \<Rightarrow> int option \<Rightarrow> relay_item list \<Rightarrow>
   ((relay_failure + hello_ack_frame) \<times> string list \<times> relay_item list) option" where
  "wait_relay_hello_ack cx J lease clock t host membership hello opened [] = None"
| "wait_relay_hello_ack cx J lease clock t host membership hello opened (RelayFails e # items) =
     Some (Inl (RelayError e), [], items)"
| "wait_relay_hello_ack cx J lease clock t host membership hello opened (Arrives e ack_error active # items) =
     (let skip = wait_relay_hello_ack cx J lease clock t host membership hello opened items;
          skip_acked = map_option (\<lambda>(r, acks, rest). (r, env_id e # acks, rest)) skip in
      if env_kind e = kind_sealed_frame \<and> env_from e = ra_host t \<and> relay_envelope_is_stale (rc_time J) t active opened e
        then skip_acked
      else if env_kind e \<noteq> kind_hello_ack \<or> env_from e \<noteq> ra_host t then skip
      else (case relay_envelope_payload e hello_limit of
          None \<Rightarrow> skip_acked
        | Some payload \<Rightarrow>
            (case parse_close_frame (rc_plain J) payload of
               Some closed \<Rightarrow>
                 Some (Inl (if cl_code closed = ''capability_denied'' then NotAuthorized else ClosedByHost closed), [env_id e], items)
             | None \<Rightarrow>
                 (case rc_ack J payload of
                    None \<Rightarrow> skip_acked
                  | Some reply \<Rightarrow>
                      if af_client_nonce reply \<noteq> [] \<and> af_client_nonce reply \<noteq> hf_client_nonce hello then skip_acked
                      else (case validate_controller_hello_ack cx lease clock host membership hello reply of
                          Some err \<Rightarrow> skip
                        | None \<Rightarrow>
                            Some (case ack_error of None \<Rightarrow> Inr reply | Some err \<Rightarrow> Inl (RelayError err), [env_id e], items))))))"

section \<open>Hosts a controller knows and finds\<close>

definition validate_known_host :: "known_host \<Rightarrow> device_identity \<Rightarrow> string option" where
  "validate_known_host expected0 info =
     (let expected = normalize_known_host expected0 in
      if kh_device expected = [] \<or> kh_public_key expected = [] \<or> kh_fingerprint expected = []
        then Some ''known Host identity is incomplete''
      else if di_device info \<noteq> kh_device expected then Some ''remote Host device mismatch''
      else if di_public_key info \<noteq> kh_public_key expected then Some ''remote Host public key mismatch''
      else if di_fingerprint info \<noteq> [] \<and> di_fingerprint info \<noteq> kh_fingerprint expected
        then Some ''remote Host public key fingerprint mismatch''
      else None)"

definition control_http_url :: "string \<Rightarrow> string \<Rightarrow> string" where
  "control_http_url host0 path =
     (let host = trim_right_slash (trim_space host0) in
      (if \<not> has_prefix host ''http://'' \<and> \<not> has_prefix host ''https://'' then ''http://'' @ host else host) @ path)"

definition control_ws_url :: "string \<Rightarrow> string \<Rightarrow> string" where
  "control_ws_url host path =
     (let url = trim_prefix (control_http_url host path) ''http://'' in
      if has_prefix url ''https://'' then ''wss://'' @ trim_prefix url ''https://'' else ''ws://'' @ url)"

record lan_candidate =
  lc_device :: string
  lc_fingerprint :: string
  lc_host :: string
  lc_port :: int
  lc_base_url :: string
  lc_addresses :: "string list"

record discovery_packet =
  dp_type :: string
  dp_version :: string
  dp_candidate :: "lan_candidate option"

text \<open>\<open>ip4\<close> is the text of \<open>net.ParseIP(...).To4()\<close>, if it is an address; \<open>join\<close> is \<open>net.JoinHostPort\<close>.\<close>

definition candidate_from_packet ::
  "(string \<Rightarrow> string option) \<Rightarrow> (string \<Rightarrow> int \<Rightarrow> string) \<Rightarrow> discovery_packet option \<Rightarrow> lan_candidate option" where
  "candidate_from_packet ip4 join packet =
     (case packet of
        None \<Rightarrow> None
      | Some p \<Rightarrow>
          (if dp_type p \<noteq> ''astralops.discovery.response'' \<or> dp_version p \<noteq> protocol_version then None
           else (case dp_candidate p of
               None \<Rightarrow> None
             | Some c \<Rightarrow>
                 if lc_device c = [] \<or> lc_fingerprint c = [] \<or> lc_host c = [] \<or> lc_port c \<le> 0 then None
                 else (case ip4 (lc_host c) of
                     None \<Rightarrow> None
                   | Some host \<Rightarrow>
                       Some (c\<lparr>lc_host := host, lc_addresses := (if lc_addresses c = [] then [host] else lc_addresses c),
                          lc_base_url := ''http://'' @ join host (lc_port c)\<rparr>)))))"

text \<open>The part of \<open>discoverLANHostsAt\<close> after the sockets: each candidate once, in the order they
  come; ports are positive here.\<close>

definition candidate_key :: "lan_candidate \<Rightarrow> string" where
  "candidate_key c = lc_device c @ ''|'' @ lc_host c @ ''|'' @ dec (nat (lc_port c))"

fun collect_candidates :: "lan_candidate list \<Rightarrow> lan_candidate option list \<Rightarrow> lan_candidate list" where
  "collect_candidates found [] = found"
| "collect_candidates found (None # packets) = collect_candidates found packets"
| "collect_candidates found (Some c # packets) =
     (if candidate_key c \<in> candidate_key ` set found then collect_candidates found packets
      else collect_candidates (found @ [c]) packets)"

definition discover_host :: "(lan_candidate \<Rightarrow> bool) \<Rightarrow> lan_candidate list \<Rightarrow> lan_candidate option" where
  "discover_host accept candidates = List.find accept candidates"

text \<open>\<open>ipv4Broadcast\<close> on the four bytes of an address and the bytes of a mask.\<close>

definition ipv4_broadcast :: "8 word list \<Rightarrow> 8 word list \<Rightarrow> 8 word list option" where
  "ipv4_broadcast ip mask0 =
     (if length ip \<noteq> 4 \<or> length mask0 < 4 then None
      else (let mask = drop (length mask0 - 4) mask0 in
        Some (map (\<lambda>(a, m). Bit_Operations.or a (Bit_Operations.not m)) (zip ip mask))))"

section \<open>What is read through an untrusted relay\<close>

text \<open>The sealed frames that items bring for a connection: the envelopes labelled with the host and the connection
  that decode, whoever sent them.\<close>

fun carried :: "'r relay_codec \<Rightarrow> relay_target \<Rightarrow> string \<Rightarrow> relay_item list \<Rightarrow> sealed_frame list" where
  "carried J t connection [] = []"
| "carried J t connection (RelayFails e # items) = carried J t connection items"
| "carried J t connection (Arrives e ack_error active # items) =
     (case (if env_kind e = kind_sealed_frame \<and> env_from e = ra_host t \<and> env_connection e = connection
            then (case relay_envelope_payload e frame_limit of None \<Rightarrow> None | Some payload \<Rightarrow> rc_sealed J payload) else None) of
        None \<Rightarrow> carried J t connection items
      | Some sealed \<Rightarrow> sealed # carried J t connection items)"

lemma relay_read_opened:
  "relay_read cx J t connection opened items c = Some (GotFrame plain, acks, rest, c1) \<Longrightarrow>
   (\<exists>sealed\<in>set (carried J t connection items). open_frame cx (rc_plain J) sealed c = (Opened plain, c1)) \<and>
   set (carried J t connection rest) \<subseteq> set (carried J t connection items)"
  by (induction cx J t connection opened items c arbitrary: acks rule: relay_read.induct)
    (fastforce simp: Let_def split: if_splits option.splits opened.splits prod.splits)+

lemma relay_frames_opened:
  "\<exists>ss. set ss \<subseteq> set (carried J t connection items) \<and>
     relay_frames cx J t connection opened items c = fst (open_all cx (rc_plain J) ss c)"
proof (induction cx J t connection opened items c rule: relay_frames.induct)
  case (1 cx J t connection opened items c)
  show ?case
  proof (cases "\<exists>plain acks rest c1. relay_read cx J t connection opened items c = Some (GotFrame plain, acks, rest, c1)")
    case False
    then have "relay_frames cx J t connection opened items c = []"
      by (subst relay_frames.simps) (auto split: option.splits relay_outcome.splits)
    then show ?thesis by (intro exI[of _ "[]"]) simp
  next
    case True
    then obtain plain acks rest c1 where r: "relay_read cx J t connection opened items c = Some (GotFrame plain, acks, rest, c1)"
      by blast
    obtain sealed where s: "sealed \<in> set (carried J t connection items)"
      "open_frame cx (rc_plain J) sealed c = (Opened plain, c1)" using relay_read_opened[OF r] by blast
    obtain ss where ss: "set ss \<subseteq> set (carried J t connection rest)"
      "relay_frames cx J t connection opened rest c1 = fst (open_all cx (rc_plain J) ss c1)"
      using 1[OF r refl refl refl refl] by blast
    then have "relay_frames cx J t connection opened items c = fst (open_all cx (rc_plain J) (sealed # ss) c)"
      by (subst relay_frames.simps) (simp add: r s case_prod_unfold)
    moreover have "set (sealed # ss) \<subseteq> set (carried J t connection items)" using s ss relay_read_opened[OF r] by auto
    ultimately show ?thesis by blast
  qed
qed

text \<open>
  C36: Whatever a relay delivers to a controller (forged, repeated, reordered, lost envelopes, envelopes of other
  devices and connections), the frames it reads are a prefix of those the host sealed with \<open>Seal\<close> for the connection,
  AES-GCM letting no forgery through among the frames that arrive.
\<close>

theorem relay_untrusted:
  assumes "ci_recv_seq c = 0" and "ci_send_seq h = 0"
    and "ci_connection c = ci_connection h" "ci_recv_direction c = ci_send_direction h"
    and "unforged cx c (sealed_calls cx marshal sent h) (carried J t connection items)"
    and "length (sent_bodies marshal sent) < 2 ^ 64"
  shows "\<exists>n. map Inr (relay_frames cx J t connection opened items c) = map (rc_plain J) (take n (sent_bodies marshal sent))"
proof -
  obtain ss where ss: "set ss \<subseteq> set (carried J t connection items)"
    "relay_frames cx J t connection opened items c = fst (open_all cx (rc_plain J) ss c)"
    using relay_frames_opened by blast
  then show ?thesis
    using open_all_prefix[OF unforged_subset[OF assms(5) ss(1)] assms(2-4,6), of 0 "rc_plain J"] assms(1) by simp
qed

text \<open>A relay that does not fail, and what is read of the frames it carries.\<close>

fun calm :: "relay_item \<Rightarrow> bool" where
  "calm (RelayFails e) = False"
| "calm (Arrives e ack_error active) = (ack_error = None)"

fun open_until :: "crypto \<Rightarrow> (string \<Rightarrow> string + 'r plain_frame) \<Rightarrow> sealed_frame list \<Rightarrow> cipher \<Rightarrow> 'r plain_frame list" where
  "open_until cx unmarshal [] c = []"
| "open_until cx unmarshal (s # ss) c =
     (case open_frame cx unmarshal s c of
        (Opened p, c1) \<Rightarrow> if pf_type p = ''close'' then [] else p # open_until cx unmarshal ss c1
      | _ \<Rightarrow> [])"

definition reading ::
  "crypto \<Rightarrow> 'r relay_codec \<Rightarrow> relay_target \<Rightarrow> string \<Rightarrow> int option \<Rightarrow> relay_item list \<Rightarrow> cipher \<Rightarrow>
   ('r relay_outcome \<times> relay_item list \<times> cipher) option" where
  "reading cx J t connection opened items c =
     map_option (\<lambda>(r, acks, rest, c1). (r, rest, c1)) (relay_read cx J t connection opened items c)"

definition is_frame :: "('r relay_outcome \<times> relay_item list \<times> cipher) option \<Rightarrow> bool" where
  "is_frame r \<longleftrightarrow> (\<exists>p rest c1. r = Some (GotFrame p, rest, c1))"

lemma relay_frames_reading:
  "relay_frames cx J t connection opened items c =
     (case reading cx J t connection opened items c of
        Some (GotFrame plain, rest, c1) \<Rightarrow> plain # relay_frames cx J t connection opened rest c1
      | _ \<Rightarrow> [])"
  by (subst relay_frames.simps) (auto simp: reading_def split: option.splits relay_outcome.splits)

lemma calm_read:
  assumes "list_all calm items"
  shows "(case carried J t connection items of
      [] \<Rightarrow> reading cx J t connection opened items c = None
    | s # ss \<Rightarrow> (case open_frame cx (rc_plain J) s c of
        (Opened p, c1) \<Rightarrow> (\<exists>rest. reading cx J t connection opened items c =
            Some (if pf_type p = ''close'' then GotFailure (host_closed p) else GotFrame p, rest, c1) \<and>
            list_all calm rest \<and> carried J t connection rest = ss)
      | (x, c1) \<Rightarrow> \<not> is_frame (reading cx J t connection opened items c)))"
  using assms
proof (induction items)
  case (Cons item items)
  then obtain e active where item: "item = Arrives e None active" by (cases item) auto
  let ?ours = "env_kind e = kind_sealed_frame \<and> env_from e = ra_host t \<and> env_connection e = connection \<and>
        (\<exists>payload s. relay_envelope_payload e frame_limit = Some payload \<and> rc_sealed J payload = Some s)"
  show ?case
  proof (cases ?ours)
    case True
    then obtain payload s where "relay_envelope_payload e frame_limit = Some payload" "rc_sealed J payload = Some s" by blast
    then show ?thesis using True Cons.prems
      by (cases "open_frame cx (rc_plain J) s c") (auto simp: item reading_def is_frame_def split: opened.splits)
  next
    case False
    have same: "carried J t connection (item # items) = carried J t connection items"
      using False by (cases "relay_envelope_payload e frame_limit") (auto simp: item split: option.splits)
    have skip: "reading cx J t connection opened (item # items) c = reading cx J t connection opened items c"
      using False unfolding reading_def
      by (cases "relay_envelope_payload e frame_limit")
        (auto simp: item Let_def option.map_comp comp_def case_prod_unfold split: option.splits)
    have "list_all calm items" using Cons.prems by simp
    then show ?thesis unfolding same skip by (rule Cons.IH)
  qed
qed (simp add: reading_def)

lemma calm_frames:
  "list_all calm items \<Longrightarrow> relay_frames cx J t connection opened items c = open_until cx (rc_plain J) (carried J t connection items) c"
proof (induction "carried J t connection items" arbitrary: items c)
  case Nil
  then show ?case using calm_read[OF Nil(2), where J = J and t = t and connection = connection and cx = cx and opened = opened and c = c] by (subst relay_frames_reading) simp
next
  case (Cons s ss)
  note read = calm_read[OF Cons(3), where J = J and t = t and connection = connection and cx = cx and opened = opened and c = c,
    folded Cons(2), simplified]
  show ?case
  proof (cases "open_frame cx (rc_plain J) s c")
    case (Pair r c1)
    show ?thesis
    proof (cases r)
      case (Opened p)
      then obtain rest where "reading cx J t connection opened items c =
          Some (if pf_type p = ''close'' then GotFailure (host_closed p) else GotFrame p, rest, c1)"
        "list_all calm rest" "carried J t connection rest = ss"
        using read Pair by auto
      then show ?thesis using Cons(1)[of rest c1] Opened Pair
        by (subst relay_frames_reading) (simp flip: Cons(2))
    qed (use read Pair in \<open>subst relay_frames_reading, auto simp: is_frame_def simp flip: Cons(2) split: option.splits relay_outcome.splits\<close>)+
  qed
qed

lemma open_until_all:
  "length (fst (open_all cx unmarshal ss c)) = length ss \<Longrightarrow> \<forall>p\<in>set (fst (open_all cx unmarshal ss c)). pf_type p \<noteq> ''close'' \<Longrightarrow>
   open_until cx unmarshal ss c = fst (open_all cx unmarshal ss c)"
proof (induction cx unmarshal ss c rule: open_all.induct)
  case (2 cx unmarshal s ss c)
  obtain r c1 where o: "open_frame cx unmarshal s c = (r, c1)" by fastforce
  show ?case
  proof (cases r)
    case (Refused e)
    then show ?thesis using 2(3) o open_all_length[of cx unmarshal ss c1] by simp
  qed (use 2 o in \<open>auto split: prod.splits\<close>)
qed simp

lemma open_until_first:
  "length (fst (open_all cx unmarshal ss c)) = length ss \<Longrightarrow> \<forall>p\<in>set (fst (open_all cx unmarshal ss c)). pf_type p \<noteq> ''close'' \<Longrightarrow>
   take (length ss) (open_until cx unmarshal (ss @ rest) c) = fst (open_all cx unmarshal ss c)"
proof (induction ss arbitrary: c)
  case (Cons s ss)
  obtain r c1 where o: "open_frame cx unmarshal s c = (r, c1)" by fastforce
  show ?case
  proof (cases r)
    case (Opened p)
    then show ?thesis using Cons.prems o Cons.IH[of c1] by (auto simp: case_prod_unfold)
  next
    case (Refused e)
    then show ?thesis using Cons.prems o open_all_length[of cx unmarshal ss c1] by simp
  next
    case Panicked
    then show ?thesis using Cons.prems o by simp
  qed
qed simp

text \<open>
  C37: As long as the envelopes labelled with the host and the connection that decode are those of the host, in order,
  the controller reads exactly the frames the host sealed, whatever else arrives in between: envelopes of other devices,
  connections and kinds, and payloads that do not decode. Nothing that arrives after the first \<open>k\<close> of them changes what is
  read of those, and if nothing more of that label arrives, nothing more is read. The relay does not fail, its acknowledgements
  work, and none of the \<open>k\<close> frames is a close frame.
\<close>

theorem relay_delivers:
  assumes "opens_own cx (ci_send_key h)" and "ci_recv_key c = ci_send_key h"
    and "ci_connection c = ci_connection h" "ci_recv_direction c = ci_send_direction h" "ci_recv_seq c = ci_send_seq h"
    and "unat (ci_send_seq h) + length (sent_bodies marshal items) < 2 ^ 64"
    and "\<And>f nonce. (f, Inr nonce) \<in> set items \<Longrightarrow> length nonce = nonce_size"
    and "\<And>body. body \<in> set (take k (sent_bodies marshal items)) \<Longrightarrow> \<exists>p. rc_plain J body = Inr p \<and> pf_type p \<noteq> ''close''"
    and "list_all calm arrivals"
    and "take k (carried J t connection arrivals) = take k (fst (send_all cx marshal items h))"
    and "k \<le> length (fst (send_all cx marshal items h))"
  shows "map Inr (take k (relay_frames cx J t connection opened arrivals c)) = map (rc_plain J) (take k (sent_bodies marshal items)) \<and>
    (length (carried J t connection arrivals) = k \<longrightarrow> length (relay_frames cx J t connection opened arrivals c) = k)"
proof -
  let ?ss = "take k (fst (send_all cx marshal items h))" and ?bodies = "take k (sent_bodies marshal items)"
  let ?ps = "fst (open_all cx (rc_plain J) ?ss c)" and ?read = "relay_frames cx J t connection opened arrivals c"
  let ?carried = "carried J t connection arrivals"
  have all: "map Inr ?ps = map (rc_plain J) ?bodies"
  proof (rule sealed_first_opened[OF assms(1-7)])
    show "\<exists>p. rc_plain J body = Inr p" if "body \<in> set ?bodies" for body
      using assms(8)[OF that] by blast
  qed
  have k: "length ?ss = k" using assms(11) by simp
  have len: "length ?ps = length ?ss"
    using arg_cong[OF all, of length] assms(11) by (simp add: send_all_length)
  have close: "\<forall>p\<in>set ?ps. pf_type p \<noteq> ''close''"
  proof
    fix p assume "p \<in> set ?ps"
    then have "Inr p \<in> set (map (rc_plain J) ?bodies)" by (simp flip: all)
    then obtain body where "body \<in> set ?bodies" "rc_plain J body = Inr p" by auto
    then show "pf_type p \<noteq> ''close''" using assms(8)[of body] by auto
  qed
  have read: "?read = open_until cx (rc_plain J) ?carried c"
    by (rule calm_frames[OF assms(9)])
  have split: "?carried = ?ss @ drop k ?carried" using assms(10) by (metis append_take_drop_id)
  have "take k ?read = ?ps"
    using open_until_first[OF len close, of "drop k ?carried"] by (simp only: read k flip: split)
  moreover have "length ?read = k" if "length ?carried = k"
  proof -
    have "?carried = ?ss" using that assms(10) by simp
    then have "?read = ?ps" using open_until_all[OF len close] read by simp
    then show ?thesis using len k by simp
  qed
  ultimately show ?thesis using all by simp
qed

section \<open>What is acknowledged\<close>

text \<open>An envelope that a read may acknowledge: of the host, and not of another active connection.\<close>

definition may_acknowledge :: "relay_target \<Rightarrow> string \<Rightarrow> relay_item \<Rightarrow> string \<Rightarrow> bool" where
  "may_acknowledge t connection item ident \<longleftrightarrow>
     (\<exists>e ack_error active. item = Arrives e ack_error active \<and> env_id e = ident \<and> env_kind e = kind_sealed_frame \<and> env_from e = ra_host t \<and>
       (env_connection e = connection \<or> \<not> relay_connection_active t (env_connection e) active))"

lemma may_acknowledge_now:
  "env_kind e = kind_sealed_frame \<Longrightarrow> env_from e = ra_host t \<Longrightarrow>
   env_connection e = connection \<or> relay_envelope_is_stale parse t active opened e \<Longrightarrow>
   may_acknowledge t connection (Arrives e ack_error active) (env_id e)"
  by (auto simp: may_acknowledge_def relay_envelope_is_stale_def split: if_splits)

lemma relay_read_acknowledged:
  "relay_read cx J t connection opened items c = Some (r, acks, rest, c1) \<Longrightarrow> a \<in> set acks \<Longrightarrow>
   \<exists>item\<in>set items. may_acknowledge t connection item a"
proof (induction cx J t connection opened items c arbitrary: acks rule: relay_read.induct)
  case (3 cx J t connection opened e ack_error active items c)
  let ?skip = "relay_read cx J t connection opened items c"
  have cases: "?skip = Some (r, acks, rest, c1) \<or>
      ((\<exists>acks'. acks = env_id e # acks' \<and> (acks' = [] \<or> ?skip = Some (r, acks', rest, c1))) \<or> acks = []) \<and>
      env_kind e = kind_sealed_frame \<and> env_from e = ra_host t \<and>
      (env_connection e = connection \<or> relay_envelope_is_stale (rc_time J) t active opened e)"
    using 3(2) by (auto simp: Let_def split: if_splits option.splits opened.splits prod.splits)
  note IH = 3(1)
  show ?case using cases
  proof
    assume "?skip = Some (r, acks, rest, c1)" then show ?thesis using IH 3(3) by (meson list.set_intros(2))
  next
    assume here: "((\<exists>acks'. acks = env_id e # acks' \<and> (acks' = [] \<or> ?skip = Some (r, acks', rest, c1))) \<or> acks = []) \<and>
      env_kind e = kind_sealed_frame \<and> env_from e = ra_host t \<and>
      (env_connection e = connection \<or> relay_envelope_is_stale (rc_time J) t active opened e)"
    then obtain acks' where acks: "acks = env_id e # acks'" "acks' = [] \<or> ?skip = Some (r, acks', rest, c1)" using 3(3) by auto
    have now: "may_acknowledge t connection (Arrives e ack_error active) (env_id e)"
      using here by (intro may_acknowledge_now) blast+
    show ?thesis
    proof (cases "a = env_id e")
      case True then show ?thesis using now by simp
    next
      case False
      then have "a \<in> set acks'" "?skip = Some (r, acks', rest, c1)" using acks 3(3) by auto
      then show ?thesis using IH by (meson list.set_intros(2))
    qed
  qed
qed simp_all

text \<open>
  A read acknowledges only envelopes of the host, and none of another connection that is active.
\<close>

theorem relay_acks_own:
  assumes "relay_read cx J t connection opened items c = Some (r, acks, rest, c1)" "a \<in> set acks"
  shows "\<exists>item\<in>set items. may_acknowledge t connection item a"
  using assms by (rule relay_read_acknowledged)

section \<open>Whom the controller talks to\<close>

lemma acknowledged_result:
  "Some (r, acks, rest) = map_option (\<lambda>(r, acks, rest). (r, a # acks, rest)) x \<longleftrightarrow>
     (\<exists>as. acks = a # as \<and> x = Some (r, as, rest))"
  by (cases x) auto

lemma hello_ack_valid:
  "wait_relay_hello_ack cx J lease clock t host membership hello opened items = Some (Inr reply, acks, rest) \<Longrightarrow>
   validate_controller_hello_ack cx lease clock host membership hello reply = None"
proof (induction items arbitrary: acks)
  case (Cons item items)
  show ?case
  proof (cases item)
    case (Arrives e ack_error active)
    have "validate_controller_hello_ack cx lease clock host membership hello reply = None \<or>
        (\<exists>acks'. Some (Inr reply, acks', rest) = wait_relay_hello_ack cx J lease clock t host membership hello opened items)"
      using Cons.prems[symmetric] by (auto simp: Arrives Let_def acknowledged_result split: if_splits option.splits)
    then show ?thesis using Cons.IH by metis
  qed (use Cons.prems in simp)
qed simp

text \<open>
  The answer a controller takes from the relay is signed by the key of the host over this very hello and comes
  with a valid host lease.
\<close>

theorem relay_hello_verified:
  assumes "wait_relay_hello_ack cx J lease clock t host membership hello opened items = Some (Inr reply, acks, rest)"
  shows "\<exists>key sig. wire_public_key (di_public_key host) = Inr key \<and> std_decode (af_signature reply) = Some sig \<and>
    cx_verify cx key (host_signature_payload hello reply) sig \<and> af_client_nonce reply = hf_client_nonce hello \<and>
    af_host reply = di_device host \<and>
    validate_membership_lease cx lease clock (first_lease (af_lease reply)) (ms_signing_key membership) (ms_account membership)
      (di_device host) (di_fingerprint host) \<lparr>mr_can_host = True, mr_can_control = False\<rparr> (Some clock) = None"
  using hello_ack_valid[OF assms]
  by (auto simp: validate_controller_hello_ack_def split: if_splits option.splits sum.splits)

section \<open>Discovery\<close>

lemma collected_distinct:
  "distinct (map candidate_key found) \<Longrightarrow> distinct (map candidate_key (collect_candidates found packets))"
  by (induction found packets rule: collect_candidates.induct) auto

lemma collected_from:
  "set (collect_candidates found packets) \<subseteq> set found \<union> {c. Some c \<in> set packets}"
  by (induction found packets rule: collect_candidates.induct) auto

lemma collected_all:
  "Some c \<in> set packets \<Longrightarrow> candidate_key c \<in> candidate_key ` set (collect_candidates found packets)"
proof -
  have keep: "set found \<subseteq> set (collect_candidates found packets)" for found packets
    by (induction found packets rule: collect_candidates.induct) auto
  show "Some c \<in> set packets \<Longrightarrow> ?thesis"
  proof (induction found packets rule: collect_candidates.induct)
    case (3 found d packets)
    show ?case
    proof (cases "c = d")
      case True
      show ?thesis
      proof (cases "candidate_key d \<in> candidate_key ` set found")
        case True then show ?thesis using \<open>c = d\<close> keep[of found packets] by auto
      next
        case False then show ?thesis using \<open>c = d\<close> keep[of "found @ [d]" packets] by auto
      qed
    next
      case False then show ?thesis using 3 by auto
    qed
  qed auto
qed

section \<open>A concrete relay\<close>

definition relay_demo :: relay_target where "relay_demo = \<lparr>ra_controller = ''phone'', ra_host = ''host''\<rparr>"

text \<open>The JSON of a sealed frame is taken to be its number here.\<close>

definition relay_toy_codec :: "unit relay_codec" where
  "relay_toy_codec =
     \<lparr>rc_time = (\<lambda>_. Some 5),
      rc_sealed = (\<lambda>s. if s = ''1'' then Some (fst (send_all toy_crypto toy_marshal toy_items toy_sender) ! 0)
        else if s = ''2'' then Some (fst (send_all toy_crypto toy_marshal toy_items toy_sender) ! 1)
        else if s = ''3'' then Some (hostile_frames ! 1) else None),
      rc_plain = toy_unmarshal, rc_ack = (\<lambda>_. None)\<rparr>"

definition relay_envelope :: "string \<Rightarrow> string \<Rightarrow> string \<Rightarrow> string \<Rightarrow> envelope" where
  "relay_envelope ident connection from payload =
     \<lparr>env_version = envelope_version, env_id = ident, env_connection = connection, env_from = from, env_to = ''phone'',
      env_kind = kind_sealed_frame, env_payload = std_encode payload, env_created = ''t''\<rparr>"

text \<open>Two frames of the host among a forgery of another device, an old connection and rubbish.\<close>

definition relay_traffic :: "relay_item list" where
  "relay_traffic =
     [Arrives (relay_envelope ''e1'' ''ctrl_1'' ''thief'' ''2'') None [],
      Arrives (relay_envelope ''e2'' ''ctrl_0'' ''host'' ''1'') None [],
      Arrives (relay_envelope ''e3'' ''ctrl_1'' ''host'' ''1'') None [],
      Arrives (relay_envelope ''e4'' ''ctrl_1'' ''host'' ''x'') None [],
      Arrives (relay_envelope ''e5'' ''ctrl_1'' ''host'' ''2'') None []]"

lemmas eval_relay = relay_traffic_def relay_envelope_def relay_demo_def relay_toy_codec_def relay_envelope_payload_def frame_limit_def

lemma relay_carried: "carried relay_toy_codec relay_demo ''ctrl_1'' relay_traffic = fst (send_all toy_crypto toy_marshal toy_items toy_sender)"
  by (simp add: eval_relay toy_send_all)

theorem relay_delivers_witness:
  "map Inr (take 2 (relay_frames toy_crypto relay_toy_codec relay_demo ''ctrl_1'' (Some 9) relay_traffic toy_receiver))
    = map toy_unmarshal [''one'', ''two'']"
proof -
  have bodies: "\<exists>p. rc_plain relay_toy_codec body = Inr p \<and> pf_type p \<noteq> ''close''" for body
    by (simp add: relay_toy_codec_def toy_unmarshal_def toy_frame_def)
  have calm: "list_all calm relay_traffic" by (simp add: relay_traffic_def)
  have nonces: "length nonce = nonce_size" if "(f, Inr nonce) \<in> set toy_items" for f nonce
    using that by (rule toy_nonces)
  have two: "2 \<le> length (fst (send_all toy_crypto toy_marshal toy_items toy_sender))" by (simp add: toy_send_all)
  from relay_delivers[where cx = toy_crypto and h = toy_sender and c = toy_receiver and marshal = toy_marshal and items = toy_items
      and J = relay_toy_codec and t = relay_demo and connection = "''ctrl_1''" and opened = "Some 9" and k = 2,
      OF toy_opens_own _ _ _ _ _ nonces bodies calm arg_cong[OF relay_carried, of "take 2"] two]
  show ?thesis by (simp add: toy_sender_def toy_receiver_def relay_toy_codec_def)
qed

text \<open>The relay of \<open>relay_traffic\<close> also repeats and changes frames of the host.\<close>

definition hostile_traffic :: "relay_item list" where
  "hostile_traffic =
     take 3 relay_traffic @ [Arrives (relay_envelope ''e3'' ''ctrl_1'' ''host'' ''1'') None [],
       Arrives (relay_envelope ''e6'' ''ctrl_1'' ''host'' ''3'') None []] @ drop 3 relay_traffic"

lemma relay_hostile_carried:
  "carried relay_toy_codec relay_demo ''ctrl_1'' hostile_traffic = [hostile_frames ! 0, hostile_frames ! 2, hostile_frames ! 1, hostile_frames ! 3]"
  by (simp add: hostile_traffic_def eval_relay hostile_frames_def Let_def)

theorem relay_untrusted_witness:
  "\<exists>n. map Inr (relay_frames toy_crypto relay_toy_codec relay_demo ''ctrl_1'' (Some 9) hostile_traffic toy_receiver)
    = map (rc_plain relay_toy_codec) (take n [''one'', ''two''])"
proof -
  have "set (carried relay_toy_codec relay_demo ''ctrl_1'' hostile_traffic) \<subseteq> set hostile_frames"
    by (simp add: relay_hostile_carried hostile_frames_def Let_def)
  from relay_untrusted[OF _ _ _ _ unforged_subset[OF toy_unforged this]] show ?thesis
    by (simp add: toy_receiver_def toy_sender_def)
qed

lemma trim_c0: "trim_space ''ctrl_0'' = ''ctrl_0''"
  by code_simp

theorem relay_acks_own_witness: "\<exists>item\<in>set [Arrives (relay_envelope ''e2'' ''ctrl_0'' ''host'' ''1'') None [], RelayFails ''EOF''].
    may_acknowledge relay_demo ''ctrl_1'' item ''e2''"
proof -
  have "relay_read toy_crypto relay_toy_codec relay_demo ''ctrl_1'' (Some 9)
      [Arrives (relay_envelope ''e2'' ''ctrl_0'' ''host'' ''1'') None [], RelayFails ''EOF''] toy_receiver
    = Some (GotFailure (RelayError ''EOF''), [''e2''], [], toy_receiver)"
    by (simp add: eval_relay relay_envelope_is_stale_def relay_connection_active_def relay_connection_key_def trim_c0 Let_def)
  from relay_acks_own[OF this, of "''e2''"] show ?thesis by simp
qed

definition demo_answer :: hello_ack_frame where
  "demo_answer =
     (let answer = \<lparr>af_type = ''hello_ack'', af_version = protocol_version, af_connection = ''ctrl_1'', af_host = di_device demo_host_identity,
        af_public_key = di_public_key demo_host_identity, af_ephemeral_key = [], af_client_nonce = hf_client_nonce demo_hello,
        af_server_nonce = [], af_signature = [], af_encryption = [], af_signature_algorithm = [], af_lease = ms_lease demo_membership\<rparr> in
      answer\<lparr>af_signature := std_encode (host_signature_payload demo_hello answer @ demo_bytes)\<rparr>)"

lemma demo_answer_valid:
  "validate_controller_hello_ack toy_crypto demo_lease_payload (50 * second) demo_host_identity demo_membership demo_hello demo_answer = None"
proof -
  have key: "decode_public_key (di_public_key demo_host_identity) = Some demo_bytes"
    by (simp add: demo_host_identity_def)
  then have wire: "wire_public_key (di_public_key demo_host_identity) = Inr demo_bytes"
    by (auto simp: wire_public_key_def decode_public_key_def split: option.splits if_splits)
  have lease: "validate_membership_lease toy_crypto demo_lease_payload (50 * second)
      (first_lease (ms_lease demo_membership)) (ms_signing_key demo_membership) (ms_account demo_membership)
      (di_device demo_host_identity) (di_fingerprint demo_host_identity)
      \<lparr>mr_can_host = True, mr_can_control = False\<rparr> (Some (50 * second)) = None"
    by (simp add: demo_membership_def first_lease_def demo_host_identity_def demo_lease_valid)
  have verify: "cx_verify toy_crypto demo_bytes m s \<longleftrightarrow> s = m @ demo_bytes" for m s
    by (simp add: toy_crypto_def)
  show ?thesis
    using wire lease
    by (simp add: validate_controller_hello_ack_def demo_answer_def Let_def host_signature_payload_def verify)
qed

definition hello_codec :: "unit relay_codec" where
  "hello_codec = \<lparr>rc_time = (\<lambda>_. None), rc_sealed = (\<lambda>_. None), rc_plain = (\<lambda>_. Inl ''json''), rc_ack = (\<lambda>_. Some demo_answer)\<rparr>"

lemma demo_hello_received:
  "wait_relay_hello_ack toy_crypto hello_codec demo_lease_payload (50 * second) relay_demo demo_host_identity demo_membership demo_hello None
     [Arrives ((relay_envelope ''e1'' [] ''host'' ''ack'')\<lparr>env_kind := kind_hello_ack\<rparr>) None []] = Some (Inr demo_answer, [''e1''], [])"
  using demo_answer_valid
  by (simp add: hello_codec_def relay_envelope_def relay_demo_def kind_hello_ack_def kind_sealed_frame_def relay_envelope_payload_def
      hello_limit_def parse_close_frame_def) (simp add: demo_answer_def Let_def)

theorem relay_hello_verified_witness:
  "\<exists>key sig. std_decode (af_signature demo_answer) = Some sig \<and> cx_verify toy_crypto key (host_signature_payload demo_hello demo_answer) sig"
  using relay_hello_verified[OF demo_hello_received] by blast
end
