(* ===== verification/ControllerHost.thy ===== *)
theory ControllerHost
  imports ControllerRelay
begin

text \<open>
  What a controller shows of a host: \<open>pkg/controllercore/controller.go\<close>. A \<open>HostSession\<close> is a record that the
  operations return updated; the transport below it is an argument: what \<open>ControlState\<close> reports as the transport,
  what a call answered, and which invalidations the operation asks of it (a list of reasons).
\<close>

section \<open>State\<close>

record terminal_view =
  tw_state :: string
  tw_can_input :: bool
  tw_output_seq :: int
  tw_error :: string
  tw_updated :: string

record host_view =
  hv_host :: string
  hv_state :: string
  hv_transport :: string
  hv_can_request :: bool
  hv_bench_state :: string
  hv_bench_version :: int
  hv_bench_error :: string
  hv_terminals :: "string \<Rightarrow> terminal_view option"
  hv_error :: string
  hv_updated :: string

definition new_host_view :: "string \<Rightarrow> string \<Rightarrow> host_view" where
  "new_host_view now host =
     \<lparr>hv_host = host, hv_state = state_idle, hv_transport = [], hv_can_request = False, hv_bench_state = ''loading'',
      hv_bench_version = 0, hv_bench_error = [], hv_terminals = (\<lambda>_. None), hv_error = [], hv_updated = now\<rparr>"

text \<open>\<open>OpenHostSession\<close> on the table of sessions.\<close>

definition open_host_session ::
  "string \<Rightarrow> string \<Rightarrow> (string \<Rightarrow> host_view option) \<Rightarrow> (string \<times> host_view) option \<times> (string \<Rightarrow> host_view option)" where
  "open_host_session now host0 sessions =
     (let host = trim_space host0 in
      if host = [] then (None, sessions)
      else (case sessions host of
          Some v \<Rightarrow> (Some (host, v), sessions)
        | None \<Rightarrow> (let v = new_host_view now host in (Some (host, v), sessions(host := Some v)))))"

definition error_text :: "go_error option \<Rightarrow> string" where
  "error_text e = (case e of None \<Rightarrow> [] | Some x \<Rightarrow> error_message x)"

text \<open>\<open>current\<close> is what the transport reports when no transport is given.\<close>

definition set_host_state :: "string \<Rightarrow> string \<Rightarrow> string \<Rightarrow> string \<Rightarrow> go_error option \<Rightarrow> host_view \<Rightarrow> host_view" where
  "set_host_state now current state0 transport err v =
     (let state1 = (if state0 = [] then hv_state v else state0); state = (if state1 = [] then state_idle else state1) in
      v\<lparr>hv_state := state, hv_transport := (if transport = [] then current else transport), hv_can_request := (state = state_live),
        hv_bench_state := (if hv_bench_state v = [] then ''loading'' else hv_bench_state v), hv_error := error_text err, hv_updated := now\<rparr>)"

definition set_connecting_if_not_live :: "string \<Rightarrow> string \<Rightarrow> host_view \<Rightarrow> host_view" where
  "set_connecting_if_not_live now current v =
     (if hv_state v = state_live then v else set_host_state now current state_connecting [] None v)"

definition known_states :: "string list" where
  "known_states = [state_idle, state_connecting, state_live, state_reconnecting, state_failed, ''needs_pairing'', ''revoked'']"

definition apply_control_state :: "string \<Rightarrow> string \<Rightarrow> control_state \<Rightarrow> host_view \<Rightarrow> host_view" where
  "apply_control_state now current s v =
     (let state = (if cs_state s = ''connected'' then state_live
                   else if cs_state s \<in> set known_states then cs_state s else state_idle);
          err = (if cs_error s \<noteq> [] \<or> cs_error_code s \<noteq> []
                 then Some (ActionError 0 (cs_error_code s) (first_nonblank [cs_error s, cs_error_code s])) else None) in
      set_host_state now current state (cs_transport s) err v)"

definition update_workbench_state :: "string \<Rightarrow> string \<Rightarrow> int \<Rightarrow> go_error option \<Rightarrow> host_view \<Rightarrow> host_view" where
  "update_workbench_state now state0 version err v =
     (let state1 = (if state0 = [] then hv_bench_state v else state0) in
      v\<lparr>hv_bench_state := (if state1 = [] then ''loading'' else state1),
        hv_bench_version := (if version > 0 then version else hv_bench_version v), hv_bench_error := error_text err, hv_updated := now\<rparr>)"

definition set_terminal_state :: "string \<Rightarrow> string \<Rightarrow> string \<Rightarrow> bool \<Rightarrow> int \<Rightarrow> go_error option \<Rightarrow> host_view \<Rightarrow> host_view" where
  "set_terminal_state now terminal0 state can_input seq err v =
     (let terminal = trim_space terminal0 in
      if terminal = [] then v
      else v\<lparr>hv_terminals := (hv_terminals v)(terminal := Some \<lparr>tw_state = state, tw_can_input = can_input, tw_output_seq = seq,
               tw_error = error_text err, tw_updated = now\<rparr>), hv_updated := now\<rparr>)"

definition snapshot_view :: "host_view \<Rightarrow> host_view" where
  "snapshot_view v =
     (let state = (if hv_state v = [] then state_idle else hv_state v) in
      v\<lparr>hv_bench_state := (if hv_bench_state v = [] then ''loading'' else hv_bench_state v), hv_state := state,
        hv_can_request := (state = state_live)\<rparr>)"

definition failure_state :: "go_error \<Rightarrow> string" where
  "failure_state e =
     (let code = action_error_code e; status = action_error_status e in
      if code = authorization_code then ''needs_pairing''
      else if code = ''known_host_revoked'' \<or> code = ''cloud_device_revoked'' then ''revoked''
      else if code = ''remote_host_unknown'' then state_failed
      else if 400 \<le> status \<and> status < 500 then state_failed
      else state_reconnecting)"

section \<open>Calls\<close>

text \<open>
  \<open>HostSession.Request\<close>: \<open>before\<close> and \<open>after\<close> are what the transport reports around the call that answered.
\<close>

definition host_request ::
  "string \<Rightarrow> string \<Rightarrow> string \<Rightarrow> string \<Rightarrow> go_error + control_answer \<Rightarrow> host_view \<Rightarrow> (go_error + control_answer) \<times> string list \<times> host_view" where
  "host_request now before after action answer v0 =
     (let v = set_connecting_if_not_live now before v0 in
      case answer of
        Inl e \<Rightarrow> (Inl e, [], set_host_state now after (failure_state e) [] (Some e) v)
      | Inr r \<Rightarrow>
          if needs_authorization r
            then (Inr r, [authorization_code], set_host_state now after ''needs_pairing'' [] (Some (response_action_error r action)) v)
            else (Inr r, [], set_host_state now after state_live [] None v))"

definition host_subscribe :: "string \<Rightarrow> string \<Rightarrow> string \<Rightarrow> go_error option \<Rightarrow> host_view \<Rightarrow> host_view" where
  "host_subscribe now before after failed v0 =
     (let v = set_connecting_if_not_live now before v0 in
      case failed of
        Some e \<Rightarrow> set_host_state now after state_reconnecting [] (Some e) v
      | None \<Rightarrow> set_host_state now after state_live [] None v)"

text \<open>A terminal stream: its terminal id, the sequence number it was attached at, and how it ended.\<close>

record host_stream =
  ht_id :: string
  ht_seq :: int
  ht_over :: bool

text \<open>\<open>OpenTerminal\<close> (with an empty id) and \<open>AttachTerminal\<close>; the answer gives the id and the sequence number.\<close>

definition host_attach ::
  "string \<Rightarrow> string \<Rightarrow> string \<Rightarrow> int \<Rightarrow> go_error + (string \<times> int) \<Rightarrow> host_view \<Rightarrow> (go_error + host_stream) \<times> host_view" where
  "host_attach now current terminal after_seq answer v0 =
     (let v = set_terminal_state now terminal ''attaching'' False after_seq None v0 in
      case answer of
        Inl e \<Rightarrow> (Inl e, set_terminal_state now terminal ''failed'' False after_seq (Some e) v)
      | Inr (t, seq) \<Rightarrow>
          (Inr \<lparr>ht_id = t, ht_seq = seq, ht_over = False\<rparr>,
           set_terminal_state now t ''live'' True seq None (set_host_state now current state_live [] None v)))"

section \<open>Terminal streams\<close>

definition viewer_not_live :: go_error where
  "viewer_not_live = ActionError 409 ''terminal_viewer_not_live'' ''terminal viewer is not live''"

definition require_live :: "host_stream \<Rightarrow> host_view \<Rightarrow> go_error option" where
  "require_live s v =
     (if hv_state v \<noteq> state_live \<or> (case hv_terminals v (ht_id s) of None \<Rightarrow> True | Some t \<Rightarrow> tw_state t \<noteq> ''live'')
      then Some viewer_not_live else None)"

definition mark_stream_failure :: "string \<Rightarrow> string \<Rightarrow> go_error \<Rightarrow> host_stream \<Rightarrow> host_view \<Rightarrow> string list \<times> host_view" where
  "mark_stream_failure now current e s v =
     ([''terminal_stream_error''],
      set_host_state now current state_reconnecting [] (Some e) (set_terminal_state now (ht_id s) ''resyncing'' False (ht_seq s) (Some e) v))"

text \<open>\<open>Input\<close>, \<open>Resize\<close> and \<open>AckHeartbeat\<close> with \<open>inner\<close> the call of the stream below.\<close>

definition drive_stream ::
  "string \<Rightarrow> string \<Rightarrow> ('w \<Rightarrow> go_error option \<times> 'w) \<Rightarrow> host_stream \<Rightarrow> host_view \<Rightarrow> 'w \<Rightarrow>
   go_error option \<times> string list \<times> host_view \<times> 'w" where
  "drive_stream now current inner s v w =
     (case require_live s v of
        Some e \<Rightarrow> (Some e, [], v, w)
      | None \<Rightarrow> (case inner w of
          (Some e, w1) \<Rightarrow> (case mark_stream_failure now current e s v of (reasons, v1) \<Rightarrow> (Some e, reasons, v1, w1))
        | (None, w1) \<Rightarrow> (None, [], v, w1)))"

text \<open>\<open>Close\<close> (final state closed) and \<open>Detach\<close> (final state paused).\<close>

definition end_stream ::
  "string \<Rightarrow> string \<Rightarrow> string \<Rightarrow> go_error option \<Rightarrow> host_stream \<Rightarrow> host_view \<Rightarrow> string list \<times> host_stream \<times> host_view" where
  "end_stream now current final failed s0 v =
     (let s = s0\<lparr>ht_over := True\<rparr> in
      case failed of
        Some e \<Rightarrow> (case mark_stream_failure now current e s v of (reasons, v1) \<Rightarrow> (reasons, s, v1))
      | None \<Rightarrow> ([], s, set_terminal_state now (ht_id s) final False (ht_seq s) None v))"

definition observe_frame :: "string \<Rightarrow> terminal_frame \<Rightarrow> host_stream \<Rightarrow> host_view \<Rightarrow> host_stream \<times> host_view" where
  "observe_frame now f s v =
     (case te_terminal f of
        None \<Rightarrow> (s, v)
      | Some p \<Rightarrow>
          (let t = ht_id s in
           if t = [] \<or> tp_terminal p \<noteq> t then (s, v)
           else if te_type f = ''terminal.closed''
             then (s\<lparr>ht_over := True\<rparr>, set_terminal_state now t ''closed'' False (tp_output_seq p) None v)
           else if te_type f = ''terminal.error''
             then (s, set_terminal_state now t ''failed'' False (tp_output_seq p)
                   (Some (ActionError 409 (first_nonblank [tp_code p, ''terminal_viewer_not_live'']) (first_nonblank [tp_reason p, ''terminal stream error'']))) v)
           else if te_type f = ''terminal.output'' \<or> te_type f = ''terminal.heartbeat''
             then (s, set_terminal_state now t ''live'' True (tp_output_seq p) None v)
           else (s, v)))"

text \<open>\<open>Frames\<close>: what is done with the frames the stream below gives, and when it ends.\<close>

definition stream_ended :: "string \<Rightarrow> string \<Rightarrow> host_stream \<Rightarrow> host_view \<Rightarrow> string list \<times> host_view" where
  "stream_ended now current s v =
     (if ht_over s then ([], v)
      else (let e = OpaqueError ''terminal output stream disconnected'' in
        ([''terminal_stream_closed''],
         set_host_state now current state_reconnecting [] (Some e) (set_terminal_state now (ht_id s) ''resyncing'' False (ht_seq s) (Some e) v))))"

fun observe_frames :: "string \<Rightarrow> terminal_frame list \<Rightarrow> host_stream \<Rightarrow> host_view \<Rightarrow> host_stream \<times> host_view" where
  "observe_frames now [] s v = (s, v)"
| "observe_frames now (f # fs) s v = (case observe_frame now f s v of (s1, v1) \<Rightarrow> observe_frames now fs s1 v1)"

definition forward_frames :: "string \<Rightarrow> string \<Rightarrow> terminal_frame list \<Rightarrow> host_stream \<Rightarrow> host_view \<Rightarrow> string list \<times> host_stream \<times> host_view" where
  "forward_frames now current fs s v =
     (case observe_frames now fs s v of (s1, v1) \<Rightarrow> (case stream_ended now current s1 v1 of (reasons, v2) \<Rightarrow> (reasons, s1, v2)))"

section \<open>Properties\<close>

definition view_ok :: "host_view \<Rightarrow> bool" where
  "view_ok v \<longleftrightarrow> hv_state v \<noteq> [] \<and> hv_bench_state v \<noteq> [] \<and> hv_can_request v = (hv_state v = state_live)"

lemma state_names:
  "state_idle \<noteq> []" "state_connecting \<noteq> []" "state_live \<noteq> []" "state_reconnecting \<noteq> []" "state_failed \<noteq> []"
  "state_idle \<noteq> state_live" "state_connecting \<noteq> state_live" "state_reconnecting \<noteq> state_live" "state_failed \<noteq> state_live"
  "''needs_pairing'' \<noteq> state_live" "''revoked'' \<noteq> state_live"
  by (simp_all add: state_idle_def state_connecting_def state_live_def state_reconnecting_def state_failed_def)

text \<open>The operations of a host session, with what they are given.\<close>

datatype view_op =
    ApplyControl string string control_state
  | UpdateHost string string string string "go_error option"
  | UpdateBench string string int "go_error option"
  | UpdateTerminal string string string bool int "go_error option"
  | DoRequest string string string string "go_error + control_answer"
  | DoSubscribe string string string "go_error option"
  | DoAttach string string string int "go_error + (string \<times> int)"
  | DoDrive string string "go_error option" host_stream
  | DoEnd string string string "go_error option" host_stream
  | DoForward string string "terminal_frame list" host_stream

fun view_step :: "view_op \<Rightarrow> host_view \<Rightarrow> host_view" where
  "view_step (ApplyControl now current s) v = apply_control_state now current s v"
| "view_step (UpdateHost now current state transport err) v = set_host_state now current state transport err v"
| "view_step (UpdateBench now state version err) v = update_workbench_state now state version err v"
| "view_step (UpdateTerminal now t state can_input seq err) v = set_terminal_state now t state can_input seq err v"
| "view_step (DoRequest now before after action answer) v = snd (snd (host_request now before after action answer v))"
| "view_step (DoSubscribe now before after failed) v = host_subscribe now before after failed v"
| "view_step (DoAttach now current t seq answer) v = snd (host_attach now current t seq answer v)"
| "view_step (DoDrive now current answer s) v = fst (snd (snd (drive_stream now current (\<lambda>w. (answer, w)) s v ())))"
| "view_step (DoEnd now current final failed s) v = snd (snd (end_stream now current final failed s v))"
| "view_step (DoForward now current fs s) v = snd (snd (forward_frames now current fs s v))"

lemma ok_set [simp]: "view_ok v \<Longrightarrow> view_ok (set_host_state now current state transport err v)"
  by (simp add: view_ok_def set_host_state_def Let_def state_names)

lemma ok_terminal [simp]: "view_ok v \<Longrightarrow> view_ok (set_terminal_state now t state can_input seq err v)"
  by (simp add: view_ok_def set_terminal_state_def Let_def)

lemma ok_bench [simp]: "view_ok v \<Longrightarrow> view_ok (update_workbench_state now state version err v)"
  by (simp add: view_ok_def update_workbench_state_def Let_def)

lemma ok_connecting [simp]: "view_ok v \<Longrightarrow> view_ok (set_connecting_if_not_live now current v)"
  by (auto simp: set_connecting_if_not_live_def)

lemma ok_failure [simp]: "view_ok v \<Longrightarrow> view_ok (snd (mark_stream_failure now current e s v))"
  by (auto simp: mark_stream_failure_def)

lemma ok_observe: "view_ok v \<Longrightarrow> view_ok (snd (observe_frames now fs s v))"
  by (induction now fs s v rule: observe_frames.induct)
    (simp_all add: observe_frame_def Let_def split: option.splits)

lemma ok_step: "view_ok v \<Longrightarrow> view_ok (view_step op v)"
proof (cases op)
  case (DoForward now current fs s)
  assume "view_ok v"
  then have "view_ok (snd (observe_frames now fs s v))" by (rule ok_observe)
  then show ?thesis by (auto simp: DoForward forward_frames_def stream_ended_def Let_def split: prod.splits)
qed (auto simp: apply_control_state_def host_request_def host_subscribe_def host_attach_def drive_stream_def end_stream_def Let_def
      mark_stream_failure_def split: sum.splits option.splits prod.splits)

text \<open>
  After any operations a host session says that it can request exactly when its state is live.
\<close>

theorem requests_only_when_live:
  "hv_can_request (snapshot_view (fold view_step ops (new_host_view now host)))
     \<longleftrightarrow> hv_state (fold view_step ops (new_host_view now host)) = state_live"
proof -
  have "view_ok (new_host_view now host)"
    by (simp add: view_ok_def new_host_view_def state_names)
  then have "view_ok (fold view_step ops (new_host_view now host))"
    by (induction ops rule: rev_induct) (simp_all add: ok_step)
  then show ?thesis by (simp add: view_ok_def snapshot_view_def Let_def)
qed

lemma snapshot_same: "view_ok v \<Longrightarrow> snapshot_view v = v"
  by (simp add: view_ok_def snapshot_view_def Let_def)

lemma failure_not_live: "failure_state e \<noteq> state_live"
  by (simp add: failure_state_def Let_def state_names)

text \<open>
  The outcome of a request is what is shown: an error its failure state, a missing authorization that pairing is
  needed, anything else live.
\<close>

theorem request_outcome_shown:
  "case host_request now before after action answer v of
     (Inl e, reasons, v1) \<Rightarrow> answer = Inl e \<and> reasons = [] \<and> hv_state v1 = failure_state e \<and> \<not> hv_can_request v1 \<and> hv_error v1 = error_message e
   | (Inr r, reasons, v1) \<Rightarrow> answer = Inr r \<and>
       (if needs_authorization r then reasons = [authorization_code] \<and> hv_state v1 = ''needs_pairing'' \<and> \<not> hv_can_request v1
        else reasons = [] \<and> hv_state v1 = state_live \<and> hv_can_request v1 \<and> hv_error v1 = [])"
  using failure_not_live
  by (auto simp: host_request_def Let_def set_host_state_def error_text_def state_names split: sum.splits)
    (auto simp: failure_state_def Let_def state_names split: if_splits)

text \<open>
  Input, resizing and acknowledgements reach the stream below only when host and terminal are live.
\<close>

theorem drive_needs_live:
  assumes "drive_stream now current inner s v w = (res, reasons, v1, w1)" "w1 \<noteq> w"
  shows "hv_state v = state_live \<and> (\<exists>t. hv_terminals v (ht_id s) = Some t \<and> tw_state t = ''live'')"
  using assms by (auto simp: drive_stream_def require_live_def split: option.splits if_splits prod.splits)

text \<open>
  A terminal stream that failed, reported an error or ended takes no input until a later frame or attachment.
\<close>

definition terminal_down :: "string \<Rightarrow> host_view \<Rightarrow> bool" where
  "terminal_down t v \<longleftrightarrow> (\<exists>x. hv_terminals v t = Some x \<and> tw_state x \<noteq> ''live'' \<and> \<not> tw_can_input x)"

lemma down_refuses: "terminal_down (ht_id s) v \<Longrightarrow> drive_stream now current inner s v w = (Some viewer_not_live, [], v, w)"
  by (auto simp: terminal_down_def drive_stream_def require_live_def)

lemma terminal_set:
  "trim_space t = t \<Longrightarrow> t \<noteq> [] \<Longrightarrow> state \<noteq> ''live'' \<Longrightarrow> terminal_down t (set_terminal_state now t state False seq err v)"
  by (simp add: terminal_down_def set_terminal_state_def)

lemma down_host [simp]: "terminal_down t (set_host_state now current state transport err v) = terminal_down t v"
  by (simp add: terminal_down_def set_host_state_def Let_def)

text \<open>
  A stream that was closed or detached refuses input, whether or not the call succeeded.
\<close>

theorem ended_stream_refuses:
  assumes "trim_space (ht_id s) = ht_id s" "ht_id s \<noteq> []" "final = ''closed'' \<or> final = ''paused''"
    and "end_stream now current final failed s v = (reasons, s1, v1)"
  shows "drive_stream now1 current1 inner s1 v1 w = (Some viewer_not_live, [], v1, w) \<and> (failed \<noteq> None \<longleftrightarrow> reasons \<noteq> [])"
proof -
  have "ht_id s1 = ht_id s" "terminal_down (ht_id s) v1" "failed \<noteq> None \<longleftrightarrow> reasons \<noteq> []"
    using assms by (auto simp: end_stream_def mark_stream_failure_def Let_def terminal_set split: option.splits)
  then show ?thesis using down_refuses[of s1 v1] by simp
qed

lemma failed_call_refuses_next:
  assumes "trim_space (ht_id s) = ht_id s" "ht_id s \<noteq> []" "require_live s v = None" "inner w = (Some e, w1)"
  shows "\<exists>v1. drive_stream now current inner s v w = (Some e, [''terminal_stream_error''], v1, w1) \<and> terminal_down (ht_id s) v1 \<and>
    hv_state v1 = state_reconnecting \<and> \<not> hv_can_request v1"
  using assms by (simp add: drive_stream_def mark_stream_failure_def terminal_set)
    (simp add: set_host_state_def Let_def state_names)

text \<open>
  Frames still buffered when the stream is detached are observed afterwards: the terminal is shown as live again and takes input.
\<close>

theorem buffered_frame_revives:
  assumes "trim_space (ht_id s) = ht_id s" "ht_id s \<noteq> []" "hv_state v = state_live"
    and "end_stream now current ''paused'' None s v = (reasons, s1, v1)"
    and "te_terminal f = Some p" "tp_terminal p = ht_id s" "te_type f = ''terminal.output''"
  shows "require_live s1 v1 = Some viewer_not_live \<and> require_live s1 (snd (snd (forward_frames now1 current1 [f] s1 v1))) = None"
proof -
  have s1: "s1 = s\<lparr>ht_over := True\<rparr>" "v1 = set_terminal_state now (ht_id s) ''paused'' False (ht_seq s) None v"
    using assms(4) by (simp_all add: end_stream_def Let_def)
  have "snd (snd (forward_frames now1 current1 [f] s1 v1)) = set_terminal_state now1 (ht_id s) ''live'' True (tp_output_seq p) None v1"
    using assms(2,5,6,7) by (simp add: s1(1) forward_frames_def observe_frame_def stream_ended_def Let_def)
  then show ?thesis using assms(1-3) by (simp add: s1 require_live_def set_terminal_state_def)
qed

section \<open>Concrete sessions\<close>

definition live_view :: host_view where
  "live_view = set_terminal_state ''t1'' ''t'' ''live'' True 1 None (set_host_state ''t0'' ''lan'' state_live [] None (new_host_view ''t0'' ''h''))"

definition view_stream :: host_stream where "view_stream = \<lparr>ht_id = ''t'', ht_seq = 1, ht_over = False\<rparr>"

lemma trim_t: "trim_space ''t'' = ''t''"
  by code_simp

lemma live_view_ok: "hv_state live_view = state_live" "require_live view_stream live_view = None"
  by (simp_all add: live_view_def view_stream_def require_live_def set_terminal_state_def set_host_state_def trim_t Let_def state_live_def)

theorem drive_needs_live_witness:
  "drive_stream ''t2'' ''lan'' (\<lambda>n. (None, Suc n)) view_stream live_view 0 = (None, [], live_view, 1) \<and> hv_state live_view = state_live"
proof -
  have run: "drive_stream ''t2'' ''lan'' (\<lambda>n. (None, Suc n)) view_stream live_view 0 = (None, [], live_view, 1)"
    by (simp add: drive_stream_def live_view_ok)
  show ?thesis using drive_needs_live[OF run] run by simp
qed

theorem ended_stream_refuses_witness:
  "fst (drive_stream ''t3'' ''lan'' (\<lambda>n. (None, Suc n)) (view_stream\<lparr>ht_over := True\<rparr>)
     (snd (snd (end_stream ''t2'' ''lan'' ''closed'' None view_stream live_view))) (0::nat)) = Some viewer_not_live"
proof -
  obtain reasons s1 v1 where e: "end_stream ''t2'' ''lan'' ''closed'' None view_stream live_view = (reasons, s1, v1)"
    by (metis surj_pair)
  then have "s1 = view_stream\<lparr>ht_over := True\<rparr>" by (auto simp: end_stream_def Let_def)
  then show ?thesis
    using ended_stream_refuses[OF _ _ _ e, of "''t3''" "''lan''" "\<lambda>n. (None, Suc n)" 0] e
    by (simp add: view_stream_def trim_t)
qed

definition output_frame :: terminal_frame where
  "output_frame = \<lparr>te_type = ''terminal.output'', te_response = None,
     te_terminal = Some \<lparr>tp_terminal = ''t'', tp_workspace = [], tp_target = [], tp_status = [], tp_output_seq = 2, tp_viewer = [], tp_lease = [],
       tp_heartbeat_seq = 0, tp_rendered_seq = 0, tp_data = ''x'', tp_cols = 0, tp_rows = 0, tp_reason = [], tp_code = [], tp_can_input = False\<rparr>\<rparr>"

theorem buffered_frame_revives_witness:
  "\<exists>v1. snd (snd (end_stream ''t2'' ''lan'' ''paused'' None view_stream live_view)) = v1 \<and>
    require_live (view_stream\<lparr>ht_over := True\<rparr>) v1 = Some viewer_not_live \<and>
    require_live (view_stream\<lparr>ht_over := True\<rparr>)
      (snd (snd (forward_frames ''t3'' ''lan'' [output_frame] (view_stream\<lparr>ht_over := True\<rparr>) v1))) = None"
proof -
  obtain reasons s1 v1 where e: "end_stream ''t2'' ''lan'' ''paused'' None view_stream live_view = (reasons, s1, v1)"
    by (metis surj_pair)
  then have s1: "s1 = view_stream\<lparr>ht_over := True\<rparr>" by (auto simp: end_stream_def Let_def)
  show ?thesis
    using buffered_frame_revives[OF _ _ live_view_ok(1) e, of output_frame _ "''t3''" "''lan''"] e
    by (simp add: s1) (simp add: view_stream_def trim_t output_frame_def)
qed
end
