(* ===== verification/SessionViews.thy ===== *)
theory SessionViews
  imports SessionService
begin

text \<open>
  What the daemon shows of a session: \<open>daemon/internal/projection/session_view.go\<close> (pending
  interaction, queued inputs, title, status and editable message of a list of events) and
  \<open>buildSessionView\<close> of \<open>daemon/session_view.go\<close>. The functions of \<open>session_view.go\<close> on replaced
  turns, statuses and resolved interactions are the text of those in
  \<open>core/sessions/helpers.go\<close>, so the definitions of \<open>SessionEvents\<close> stand for them.
  \<open>json.MarshalIndent\<close> is the argument \<open>pv\<close>; the Chinese labels are their UTF-8 bytes. The lemmas
  relate what is shown to what the session service accepts.
\<close>

section \<open>Titles\<close>

text \<open>\<open>strings.Fields\<close>; a space never starts inside the encoding of another code point.\<close>

fun word_of :: "string \<Rightarrow> string" where
  "word_of [] = []"
| "word_of (c # s) = (if trim_left (c # s) = c # s then c # word_of s else [])"

lemma word_of_pos: "trim_left s = s \<Longrightarrow> s \<noteq> [] \<Longrightarrow> word_of s \<noteq> []"
  by (cases s) auto

function words_of :: "string \<Rightarrow> string list" where
  "words_of s =
     (let t = trim_left s; w = word_of t in
      if t = [] then [] else w # words_of (drop (length w) t))"
  by pat_completeness auto

lemma words_of_shrinks:
  assumes "trim_left s \<noteq> []"
  shows "length (trim_left s) - length (word_of (trim_left s)) < length s"
proof -
  have "word_of (trim_left s) \<noteq> []"
    using assms word_of_pos trim_left_idem by blast
  moreover have "length (trim_left s) \<le> length s"
    by (simp add: trim_left_def strip_spaces_length)
  ultimately show ?thesis
    using assms by (cases "word_of (trim_left s)"; cases "trim_left s"; simp)
qed

termination words_of
  by (relation "measure length") (auto simp: words_of_shrinks)

declare words_of.simps [simp del]

definition normalize_title :: "string \<Rightarrow> string" where
  "normalize_title s = trim_space (join_with '' '' (words_of s))"

definition message_title :: "fields \<Rightarrow> string" where
  "message_title value =
     (let text0 = trim_space (string_value (field value ''text''));
          text1 = join_with '' '' (words_of text0); rs = runes text1
      in if text0 = [] then []
         else if length rs > 80 then concat (take 80 rs) @ ''...''
         else text1)"

fun first_title :: "fields \<Rightarrow> string list \<Rightarrow> string \<times> int" where
  "first_title value [] = ([], 0)"
| "first_title value (k # ks) =
     (if normalize_title (string_value (field value k)) \<noteq> []
      then (normalize_title (string_value (field value k)), 20)
      else first_title value ks)"

definition native_title :: "fields \<Rightarrow> string \<times> int" where
  "native_title value = first_title value [''title'', ''summary'', ''name'']"

text \<open>One event of the loop of \<open>ProjectedSessionTitle\<close>; \<open>best\<close> is a text and its rank.\<close>

definition title_step :: "event \<Rightarrow> string \<times> int \<Rightarrow> string \<times> int" where
  "title_step ev best =
     (let value = ev_normalized ev;
          cand = (if ev_kind ev = ''session.native'' \<or> ev_kind ev = ''session.updated'' then native_title value
                  else if ev_kind ev = ''message.user'' then (message_title value, 10)
                  else ([], 0))
      in if fst cand = [] then best
         else if fst best \<noteq> [] \<and> (snd best > snd cand \<or> (snd best = snd cand \<and> snd cand \<le> 10)) then best
         else cand)"

definition projected_title :: "string \<Rightarrow> event list \<Rightarrow> string" where
  "projected_title fallback events = fst (fold title_step events (normalize_title fallback, 0))"

section \<open>The pending interaction\<close>

record action_view =
  av_id :: string
  av_label :: string
  av_role :: string
  av_feedback :: bool

record detail_row =
  dr_key :: string
  dr_label :: string
  dr_value :: string
  dr_mono :: bool

record pending_view =
  pv_id :: string
  pv_kind :: string
  pv_title :: string
  pv_rows :: "detail_row list"
  pv_actions :: "action_view list"
  pv_form :: fields

text \<open>The event the backward loop of \<open>PendingInteraction\<close> stops at.\<close>

definition shown_request :: "event list \<Rightarrow> event option" where
  "shown_request events = find (pending_request events) (rev events)"

fun first_of_maps :: "fields list \<Rightarrow> string list \<Rightarrow> string" where
  "first_of_maps [] keys = []"
| "first_of_maps (m # ms) keys =
     (let t = first_string (map (field m) keys) in if t \<noteq> [] then t else first_of_maps ms keys)"

fun questions_of :: "go_any \<Rightarrow> go_any list" where
  "questions_of (AnyList qs) = qs"
| "questions_of _ = []"

definition ask_title :: "fields \<Rightarrow> fields \<Rightarrow> string" where
  "ask_title value params =
     (let server = string_value (field params ''serverName'');
          prompt = first_of_maps [params, value] [''message'', ''prompt'', ''question''];
          question = (case questions_of (field params ''questions'') of
              [] \<Rightarrow> []
            | q # qs \<Rightarrow> first_string [field (map_value q) ''question'', field (map_value q) ''header''])
      in if string_value (field value ''kind'') = elicitation_kind
                      then (if server \<noteq> [] then server @ utf8 [32, 232, 175, 183, 230, 177, 130, 232, 190, 147,
               229, 133, 165] else utf8 [77, 67, 80, 32, 232, 175, 183, 230, 177, 130, 232, 190, 147, 229, 133, 165])
         else if prompt \<noteq> [] then prompt
         else if question \<noteq> [] then question
                  else utf8 [65, 103, 101, 110, 116, 32, 233, 156, 128, 232, 166, 129, 228, 189, 160, 232, 161, 165,
             229, 133, 133, 228, 184, 128, 228, 184, 170, 231, 173, 148, 230, 161, 136])"

definition tool_title :: "string \<Rightarrow> string" where
  "tool_title tool =
          (if tool = ''Edit'' then utf8 [229, 133, 129, 232, 174, 184, 231, 188, 150, 232, 190, 145, 232, 191, 153,
         228, 184, 170, 230, 150, 135, 228, 187, 182, 239, 188, 159]
            else if tool \<noteq> [] then utf8 [229, 133, 129, 232, 174, 184, 32] @ tool @ utf8 [32, 230, 137, 167,
          232, 161, 140, 239, 188, 159]
            else utf8 [229, 133, 129, 232, 174, 184, 232, 191, 153, 230, 172, 161, 229, 183, 165, 229, 133, 183, 232,
          176, 131, 231, 148, 168, 239, 188, 159])"

definition interaction_title :: "string \<Rightarrow> fields \<Rightarrow> fields \<Rightarrow> string" where
  "interaction_title kind value params =
     (let raw = string_value (field value ''kind'');
          tool = first_string [field value ''tool_name'', field params ''tool_name'', field params ''toolName'', field params ''name'']
      in if kind = ''plan''
                      then (if string_value (field value ''source'') = ''claude'' then utf8 [231, 161, 174, 232, 174,
               164, 232, 191, 153, 228, 184, 170, 232, 174, 161, 229, 136, 146, 232, 141, 137, 230, 161, 136, 239,
               188, 159]
                                  else utf8 [230, 137, 185, 229, 135, 134, 232, 191, 153, 228, 184, 170, 232, 174,
                     161, 229, 136, 146, 229, 185, 182, 231, 187, 167, 231, 187, 173, 230, 137, 167, 232, 161, 140,
                     239, 188, 159])
         else if kind = ''ask'' then ask_title value params
                  else if raw = ''command'' then utf8 [229, 133, 129, 232, 174, 184, 232, 191, 144, 232, 161, 140,
             232, 191, 153, 230, 157, 161, 229, 145, 189, 228, 187, 164, 239, 188, 159]
                  else if raw = ''file_change'' then utf8 [229, 133, 129, 232, 174, 184, 229, 186, 148, 231, 148, 168,
             232, 191, 153, 228, 186, 155, 230, 150, 135, 228, 187, 182, 229, 143, 152, 230, 155, 180, 239, 188, 159]
                  else if raw = ''permissions'' then utf8 [229, 133, 129, 232, 174, 184, 232, 191, 153, 230, 172, 161,
             230, 157, 131, 233, 153, 144, 232, 175, 183, 230, 177, 130, 239, 188, 159]
         else if raw = ''permission'' then tool_title tool
         else utf8 [229, 133, 129, 232, 174, 184, 231, 187, 167, 231, 187, 173, 230, 137, 167, 232, 161, 140, 239, 188, 159])"

section \<open>Actions\<close>

definition act :: "string \<Rightarrow> string \<Rightarrow> string \<Rightarrow> action_view" where
  "act ident label role = \<lparr>av_id = ident, av_label = label, av_role = role, av_feedback = False\<rparr>"

definition decision_value :: "go_any \<Rightarrow> string" where
  "decision_value item =
     (if string_value item \<noteq> [] then string_value item
      else (case map_value item of [(k, v)] \<Rightarrow> k | _ \<Rightarrow> []))"

definition decision_label :: "string \<Rightarrow> string" where
  "decision_label d =
     (if d = ''accept'' then utf8 [229, 133, 129, 232, 174, 184, 228, 184, 128, 230, 172, 161]
            else if d = ''acceptForSession'' then utf8 [230, 156, 172, 32, 115, 101, 115, 115, 105, 111, 110, 32, 229,
          133, 129, 232, 174, 184]
            else if d = ''acceptWithExecpolicyAmendment'' then utf8 [229, 133, 129, 232, 174, 184, 229, 185, 182, 232,
          174, 176, 228, 189, 143, 229, 145, 189, 228, 187, 164]
            else if d = ''applyNetworkPolicyAmendment'' then utf8 [229, 186, 148, 231, 148, 168, 231, 189, 145, 231,
          187, 156, 232, 167, 132, 229, 136, 153]
      else if d = ''cancel'' then utf8 [229, 143, 150, 230, 182, 136, 230, 156, 172, 232, 189, 174]
      else if d = ''decline'' then utf8 [230, 139, 146, 231, 187, 157]
      else d)"

definition explicit_action :: "go_any \<Rightarrow> action_view option" where
  "explicit_action item =
     (let d = decision_value item in
      if d = [] then None
      else Some (act d (decision_label d)
        (if d = ''decline'' \<or> d = ''cancel'' then ''danger'' else if d = ''accept'' then ''primary'' else ''secondary'')))"

fun explicit_actions :: "go_any \<Rightarrow> action_view list" where
  "explicit_actions (AnyList items) = List.map_filter explicit_action items"
| "explicit_actions _ = []"

definition plan_actions :: "fields \<Rightarrow> action_view list" where
  "plan_actions value =
          [act ''accept'' (if string_value (field value ''source'') = ''claude'' then utf8 [230, 142, 165, 229, 143,
         151, 232, 174, 161, 229, 136, 146] else utf8 [230, 137, 185, 229, 135, 134, 229, 185, 182, 230, 137, 167,
         232, 161, 140]) ''primary'',
            (act ''decline'' (utf8 [229, 144, 166, 239, 188, 140, 232, 175, 183, 232, 176, 131, 230, 149, 180, 232,
          174, 161, 229, 136, 146]) ''secondary'')\<lparr>av_feedback := True\<rparr>,
      act ''cancel'' (utf8 [229, 143, 150, 230, 182, 136, 228, 187, 187, 229, 138, 161]) ''danger'']"

definition ask_actions :: "fields \<Rightarrow> action_view list" where
  "ask_actions value =
     (if string_value (field value ''kind'') = elicitation_kind
            then [act ''accept'' (utf8 [230, 143, 144, 228, 186, 164]) ''primary'', act ''decline'' (utf8 [230, 139,
          146, 231, 187, 157]) ''secondary'',
            act ''cancel'' (utf8 [229, 143, 150, 230, 182, 136, 232, 175, 183, 230, 177, 130]) ''danger'']
            else [act ''submit'' (utf8 [230, 143, 144, 228, 186, 164]) ''primary'', act ''skip'' (utf8 [232, 183, 179,
          232, 191, 135]) ''secondary'',
            act ''cancel'' (utf8 [229, 143, 150, 230, 182, 136, 228, 187, 187, 229, 138, 161]) ''danger''])"

definition approval_actions :: "string \<Rightarrow> action_view list" where
  "approval_actions raw =
     (if raw = ''permissions''
            then [act ''accept'' (utf8 [229, 133, 129, 232, 174, 184, 228, 184, 128, 230, 172, 161]) ''primary'', act
          ''acceptForSession'' (utf8 [230, 156, 172, 32, 115, 101, 115, 115, 105, 111, 110, 32, 229, 133, 129, 232,
          174, 184]) ''secondary'',
                        act ''decline'' (utf8 [230, 139, 146, 231, 187, 157]) ''danger'', act ''cancel'' (utf8 [229,
                143, 150, 230, 182, 136, 228, 187, 187, 229, 138, 161]) ''danger'']
            else [act ''accept'' (if raw = ''file_change'' then utf8 [229, 133, 129, 232, 174, 184, 229, 186, 148,
          231, 148, 168, 229, 143, 152, 230, 155, 180] else utf8 [229, 133, 129, 232, 174, 184, 230, 137, 167, 232,
          161, 140]) ''primary'']
                @ (if raw = ''file_change'' then [act ''acceptForSession'' (utf8 [230, 156, 172, 32, 115, 101, 115,
            115, 105, 111, 110, 32, 229, 133, 129, 232, 174, 184]) ''secondary''] else [])
        @ [act ''decline'' (utf8 [230, 139, 146, 231, 187, 157]) ''danger''])"

definition available_decisions :: "fields \<Rightarrow> go_any" where
  "available_decisions value = first_non_nil [field value ''available_decisions'', field value ''availableDecisions'']"

definition interaction_actions :: "string \<Rightarrow> fields \<Rightarrow> action_view list" where
  "interaction_actions kind value =
     (let explicit = explicit_actions (available_decisions value) in
      if kind = ''plan'' then plan_actions value
      else if kind = ''ask'' then ask_actions value
      else if explicit \<noteq> [] then explicit
      else approval_actions (string_value (field value ''kind'')))"

section \<open>Forms\<close>

definition question_option :: "nat \<Rightarrow> go_any \<Rightarrow> go_any option" where
  "question_option i item =
     (let plain = string_value item; m = map_value item;
          fallback = ''option_'' @ dec i;
          ident = (if plain \<noteq> [] then fallback else first_string [field m ''id'', AnyString fallback]);
          val = (if plain \<noteq> [] then plain
                 else first_string [field m ''value'', field m ''id'', field m ''label'', field m ''text'']);
          label = (if plain \<noteq> [] then plain
                   else first_string [field m ''label'', field m ''text'', field m ''value'', field m ''id'']);
          description = (if plain \<noteq> [] then [] else string_value (field m ''description''))
      in if val = [] then None
         else Some (AnyMap ([(''id'', AnyString ident), (''label'', AnyString label), (''value'', AnyString val)]
                @ (if description \<noteq> [] then [(''description'', AnyString description)] else []))))"

fun question_options_loop :: "nat \<Rightarrow> go_any list \<Rightarrow> go_any list" where
  "question_options_loop i [] = []"
| "question_options_loop i (item # items) =
     (case question_option i item of
        None \<Rightarrow> question_options_loop (Suc i) items
      | Some opt \<Rightarrow> opt # question_options_loop (Suc i) items)"

definition question_options :: "go_any \<Rightarrow> go_any list" where
  "question_options raw = question_options_loop 0 (questions_of raw)"

definition allows_custom_answer :: "fields \<Rightarrow> bool \<Rightarrow> bool" where
  "allows_custom_answer question otherwise =
     (if field question ''allow_custom'' \<noteq> AnyNil then bool_value (field question ''allow_custom'')
      else if field question ''allowCustom'' \<noteq> AnyNil then bool_value (field question ''allowCustom'')
      else if field question ''allowOther'' \<noteq> AnyNil then bool_value (field question ''allowOther'')
      else if field question ''isOther'' \<noteq> AnyNil then bool_value (field question ''isOther'')
      else otherwise)"

definition question_field :: "nat \<Rightarrow> go_any \<Rightarrow> go_any" where
  "question_field i raw =
     (let q = map_value raw; options = question_options (field q ''options'');
          description = string_value (field q ''description'')
      in AnyMap ([
        (''id'', AnyString (first_string [field q ''id'', AnyString (''question_'' @ dec i)])),
        (''label'', AnyString (first_string [field q ''question'', field q ''header'', field q ''label'', field q ''message'',
           AnyString (utf8 [233, 151, 174, 233, 162, 152, 32] @ dec (i + 1))])),
        (''type'', AnyString (if options \<noteq> [] then ''choice'' else ''text'')),
        (''options'', case field q ''options'' of AnyList _ \<Rightarrow> AnyList options | _ \<Rightarrow> AnyNil),
        (''multi_select'', AnyBool (bool_value (first_non_nil [field q ''multi_select'', field q ''multiSelect'']))),
        (''allow_custom'', AnyBool (allows_custom_answer q (options = []))),
        (''secret'', AnyBool (bool_value (field q ''isSecret'')))]
        @ (if description \<noteq> [] then [(''description'', AnyString description)] else [])))"

fun question_fields :: "nat \<Rightarrow> go_any list \<Rightarrow> go_any list" where
  "question_fields i [] = []"
| "question_fields i (q # qs) = question_field i q # question_fields (Suc i) qs"

definition elicitation_form :: "fields \<Rightarrow> fields" where
  "elicitation_form params =
     (let message = string_value (field params ''message''); url = string_value (field params ''url'');
          schema = first_non_nil [field params ''requestedSchema'', field params ''schema''];
          base = (''initial_content'', AnyString ''{}'') # (if message \<noteq> [] then [(''message'', AnyString message)] else [])
      in if url \<noteq> [] \<or> string_value (field params ''mode'') = ''url''
           then (''kind'', AnyString ''mcp_url'') # base @ [(''url'', AnyString url)]
         else (''kind'', AnyString ''mcp_json'') # base @ (if schema \<noteq> AnyNil then [(''schema'', schema)] else []))"

text \<open>No form is the empty map: \<open>buildPendingInteractionView\<close> sets only a form with entries.\<close>

definition interaction_form :: "string \<Rightarrow> fields \<Rightarrow> fields \<Rightarrow> fields" where
  "interaction_form kind value params =
     (let questions = questions_of (field params ''questions'') in
      if kind \<noteq> ''ask'' then []
      else if string_value (field value ''kind'') = elicitation_kind then elicitation_form params
      else if questions \<noteq> []
        then [(''kind'', AnyString ''questions''), (''fields'', AnyList (question_fields 0 questions))]
      else [(''kind'', AnyString ''text'')])"

section \<open>Details\<close>

definition text_row :: "string \<Rightarrow> string \<Rightarrow> string \<Rightarrow> bool \<Rightarrow> detail_row list" where
  "text_row key label txt fixed =
     (if txt = [] then [] else [\<lparr>dr_key = key, dr_label = label, dr_value = txt, dr_mono = fixed\<rparr>])"

definition value_row :: "(go_any \<Rightarrow> string) \<Rightarrow> string \<Rightarrow> string \<Rightarrow> go_any \<Rightarrow> bool \<Rightarrow> detail_row list" where
  "value_row pv key label v fixed =
     (if v = AnyNil then [] else [\<lparr>dr_key = key, dr_label = label, dr_value = pv v, dr_mono = fixed\<rparr>])"

definition changes_label :: string where
  "changes_label = utf8 [229, 143, 152, 230, 155, 180]"

definition detail_rows :: "(go_any \<Rightarrow> string) \<Rightarrow> string \<Rightarrow> fields \<Rightarrow> fields \<Rightarrow> detail_row list" where
  "detail_rows pv kind value params =
          (if kind = ''plan'' then value_row pv ''plan'' (utf8 [232, 174, 161, 229, 136, 146]) (first_non_nil [field
         value ''text'', field value ''plan'']) False else [])
     @ text_row ''tool'' (utf8 [229, 183, 165, 229, 133, 183]) (first_string [field value ''tool_name'', field value ''toolName'',
         field params ''tool_name'', field params ''toolName'', field params ''name'']) False
          @ text_row ''command'' (utf8 [229, 145, 189, 228, 187, 164]) (first_string [field value ''command'', field
         params ''command'']) True
     @ text_row ''cwd'' (utf8 [231, 155, 174, 229, 189, 149]) (first_string [field value ''cwd'', field params ''cwd'']) True
          @ text_row ''path'' (utf8 [232, 183, 175, 229, 190, 132]) (first_string [field value ''path'', field value
         ''file_path'', field value ''grant_root'',
         field value ''grantRoot'', field params ''path'', field params ''file_path'', field params ''grant_root'',
         field params ''grantRoot'']) True
          @ text_row ''reason'' (utf8 [229, 142, 159, 229, 155, 160]) (first_string [field value ''reason'', field
         params ''reason'']) False
          @ value_row pv ''permissions'' (utf8 [230, 157, 131, 233, 153, 144]) (first_non_nil [field value
         ''permissions'', field params ''permissions'',
         field value ''additional_permissions'', field params ''additionalPermissions'']) True
     @ value_row pv ''network'' (utf8 [231, 189, 145, 231, 187, 156]) (first_non_nil [field value ''network_approval_context'',
         field params ''networkApprovalContext'']) True
     @ value_row pv ''changes'' changes_label (first_non_nil [field value ''changes'', field params ''changes'']) True"

definition view_kind :: "event \<Rightarrow> string" where
  "view_kind ev =
     (if ev_kind ev = ''ask.requested'' then ''ask''
      else if text_field ev ''kind'' = ''plan'' then ''plan''
      else ''approval'')"

definition request_id :: "event \<Rightarrow> string" where
  "request_id ev = first_of (interaction_ids (ev_normalized ev))"

definition interaction_view :: "(go_any \<Rightarrow> string) \<Rightarrow> event \<Rightarrow> pending_view" where
  "interaction_view pv ev =
     (let value = ev_normalized ev; params = map_value (field value ''params''); kind = view_kind ev in
      \<lparr>pv_id = request_id ev, pv_kind = kind, pv_title = interaction_title kind value params,
       pv_rows = detail_rows pv kind value params, pv_actions = interaction_actions kind value,
       pv_form = interaction_form kind value params\<rparr>)"

definition shown_interaction :: "(go_any \<Rightarrow> string) \<Rightarrow> event list \<Rightarrow> pending_view option" where
  "shown_interaction pv events = map_option (interaction_view pv) (shown_request events)"

section \<open>Queued inputs\<close>

record queued_view =
  qv_id :: string
  qv_session :: string
  qv_text :: string

definition queue_end_kind :: "string \<Rightarrow> bool" where
  "queue_end_kind k \<longleftrightarrow> k \<in> set [''queue.dequeued'', ''queue.cancelled'', ''queue.failed'', ''queue.rejected'', ''queue.steered'']"

definition queued_text :: "event \<Rightarrow> string" where
  "queued_text ev = trim_space (text_field ev ''text'')"

definition enters_queue :: "event \<Rightarrow> bool" where
  "enters_queue ev \<longleftrightarrow> text_field ev ''queue_id'' \<noteq> [] \<and> ev_kind ev = ''queue.queued'' \<and>
     field (ev_normalized ev) ''internal'' \<noteq> AnyBool True \<and> queued_text ev \<noteq> []"

definition leaves_queue :: "event \<Rightarrow> bool" where
  "leaves_queue ev \<longleftrightarrow> text_field ev ''queue_id'' \<noteq> [] \<and> queue_end_kind (ev_kind ev)"

definition queued_view_of :: "event \<Rightarrow> queued_view" where
  "queued_view_of ev = \<lparr>qv_id = text_field ev ''queue_id'', qv_session = ev_session ev, qv_text = queued_text ev\<rparr>"

text \<open>The loop of \<open>QueuedInputs\<close> over its map and its order.\<close>

definition queue_scan :: "event \<Rightarrow> (string \<rightharpoonup> queued_view) \<times> string list \<Rightarrow> (string \<rightharpoonup> queued_view) \<times> string list" where
  "queue_scan ev st =
     (let ident = text_field ev ''queue_id'' in
      if enters_queue ev
        then ((fst st)(ident \<mapsto> queued_view_of ev), if fst st ident = None then snd st @ [ident] else snd st)
      else if leaves_queue ev then ((fst st)(ident := None), snd st)
      else st)"

definition queued_inputs :: "event list \<Rightarrow> queued_view list" where
  "queued_inputs events =
     (case fold queue_scan events (Map.empty, []) of (pending, order) \<Rightarrow> List.map_filter pending order)"

section \<open>The editable message and the view\<close>

record editable_view =
  edv_seq :: int
  edv_text :: string

fun shown_editable_loop :: "(int \<Rightarrow> bool) \<Rightarrow> event list \<Rightarrow> editable_view option" where
  "shown_editable_loop hidden [] = None"
| "shown_editable_loop hidden (ev # evs) =
     (if ev_kind ev \<noteq> ''message.user'' \<or> hidden (ev_seq ev) then shown_editable_loop hidden evs
      else if blank (text_field ev ''text'') then None
      else Some \<lparr>edv_seq = ev_seq ev, edv_text = text_field ev ''text''\<rparr>)"

definition shown_editable :: "string \<Rightarrow> event list \<Rightarrow> string \<Rightarrow> editable_view option" where
  "shown_editable agent events status =
     (if agent \<noteq> ''codex'' then None
      else if status \<noteq> ''idle'' \<and> status \<noteq> ''running'' \<and> status \<noteq> ''requires_action'' then None
      else shown_editable_loop (hidden_seq events) (rev events))"

record session_view =
  vw_session :: agent_session
  vw_title :: string
  vw_status :: string
  vw_pending :: "pending_view option"
  vw_queue :: "queued_view list"
  vw_editable :: "editable_view option"

text \<open>\<open>buildSessionView\<close> for a stored session, its stored title and its events.\<close>

definition build_session_view ::
  "(go_any \<Rightarrow> string) \<Rightarrow> agent_session \<Rightarrow> string \<Rightarrow> event list \<Rightarrow> session_view" where
  "build_session_view pv ss store_title events =
     (let pending = shown_interaction pv events;
          status = projected_status (as_status ss) events (pending \<noteq> None);
          title = projected_title (first_string [AnyString (as_title ss), AnyString store_title]) events
      in \<lparr>vw_session = ss\<lparr>as_status := status, as_title := title\<rparr>, vw_title = title, vw_status = status,
          vw_pending = pending, vw_queue = queued_inputs events,
          vw_editable = shown_editable (as_agent ss) events status\<rparr>)"

section \<open>What is shown is what the service accepts\<close>

lemma shown_request_iff: "shown_request events \<noteq> None \<longleftrightarrow> has_pending_interaction events"
  by (simp add: shown_request_def has_pending_interaction_def find_None_iff list_ex_iff Bex_def)

lemma shown_interaction_iff: "shown_interaction pv events \<noteq> None \<longleftrightarrow> has_pending_interaction events"
  using shown_request_iff [of events] by (simp add: shown_interaction_def)

lemma shown_requestD:
  "shown_request events = Some ev \<Longrightarrow> ev \<in> set events \<and> pending_request events ev"
  unfolding shown_request_def by (auto dest: find_SomeD)

lemma shown_status:
  "vw_status (build_session_view pv ss t events) =
     projected_status (as_status ss) events (has_pending_interaction events)"
  unfolding build_session_view_def Let_def by (simp only: shown_interaction_iff session_view.simps)

lemma shown_editable_seq: "map_option edv_seq (shown_editable_loop hidden events) = editable_loop hidden events"
  by (induction events) auto

lemma shown_editableD:
  assumes "shown_editable agent events status = Some m"
  shows "agent = ''codex''" "status \<in> {''idle'', ''running'', ''requires_action''}"
    "editable_message events = Some (edv_seq m)"
proof -
  have loop: "shown_editable_loop (hidden_seq events) (rev events) = Some m"
    using assms by (simp add: shown_editable_def split: if_splits)
  show "agent = ''codex''" "status \<in> {''idle'', ''running'', ''requires_action''}"
    using assms by (auto simp: shown_editable_def split: if_splits)
  show "editable_message events = Some (edv_seq m)"
    using shown_editable_seq [of "hidden_seq events" "rev events"] loop by (simp add: editable_message_def)
qed

lemma ensure_linked_cases: "ensure_linked ss = Inr ss \<or> (\<exists>code m. code \<noteq> ''editable_message_stale'' \<and> ensure_linked ss = Inl (ActionError 409 code m))"
  by (simp add: ensure_linked_def)

lemmas outcome_simps = simp_thms if_True if_False option.case fst_conv sum.inject sum.distinct go_error.inject

theorem shown_message_editable:
  assumes "en_session E (sv_env st) sid = Some ss"
    and "vw_editable (build_session_view pv ss title (en_query E (sv_env st) [] sid 0)) = Some m"
    and "ed_event_seq req = edv_seq m"
  shows "fst (edit_last_message E sid req st) \<noteq> Inl (ActionError 409 ''editable_message_stale'' text)"
proof -
  let ?events = "en_query E (sv_env st) [] sid 0"
  let ?status = "projected_status (as_status ss) ?events (has_pending_interaction ?events)"
  have shown: "shown_editable (as_agent ss) ?events ?status = Some m"
    using assms(2) shown_status [of pv ss title ?events] by (simp add: build_session_view_def Let_def)
  note facts = shown_editableD [OF shown]
  have msg: "editable_message ?events = Some (ed_event_seq req)"
    using facts(3) assms(3) by simp
  have status: "(?status \<noteq> ''idle'' \<and> ?status \<noteq> ''running'' \<and> ?status \<noteq> ''requires_action'') = False"
    using facts(2) by blast
  show ?thesis
  proof (cases "ensure_linked ss")
    case (Inl e)
    then show ?thesis
      using ensure_linked_cases [of ss] assms(1) by (auto simp: edit_last_message_def Let_def)
  next
    case (Inr ss1)
    then have "ss1 = ss"
      using ensure_linked_cases [of ss] by auto
    with Inr have linked: "ensure_linked ss = Inr ss"
      by simp
    show ?thesis
      unfolding edit_last_message_def Let_def assms(1) option.case linked sum.case facts(1) msg status if_False
      by (cases "trim_space (ed_input req) = []"; cases "en_workspace E (sv_env st) (as_workspace ss)";
          cases "en_agents E ''codex''"; simp only: outcome_simps split: option.split prod.split; simp)
  qed
qed

section \<open>The interaction shown is the one an answer finds\<close>

lemma response_names_id:
  "response_matches ev ident \<Longrightarrow> ident \<noteq> [] \<Longrightarrow>
     resolution_kind (ev_kind ev) \<and> ident \<in> set (interaction_ids (ev_normalized ev))"
  by (auto simp: response_matches_def resolution_kind_def interaction_ids_def text_field_def split: if_splits)

lemma request_id_in: "request_id ev \<noteq> [] \<Longrightarrow> request_id ev \<in> set (interaction_ids (ev_normalized ev))"
  by (auto simp: request_id_def first_of_def split: list.splits)

lemma resolved_names_id:
  "e \<in> set events \<Longrightarrow> resolution_kind (ev_kind e) \<Longrightarrow> i \<in> set (interaction_ids (ev_normalized e)) \<Longrightarrow>
     i \<in> set (resolved_interactions events)"
  by (auto simp: resolved_interactions_def)

lemma find_pending_unique:
  assumes "ev \<in> set events" "request_matches ev ident"
    and "\<And>e. e \<in> set events \<Longrightarrow> \<not> response_matches e ident"
    and "\<And>e. e \<in> set events \<Longrightarrow> request_matches e ident \<Longrightarrow> e = ev"
  shows "find_pending_loop hidden ident events = (if hidden (ev_seq ev) then Stale else FoundPending ev)"
  using assms
proof (induction events)
  case Nil
  then show ?case by simp
next
  case (Cons x xs)
  show ?case
  proof (cases "request_matches x ident")
    case True
    then have "x = ev" using Cons.prems(4) [of x] by simp
    then show ?thesis using True Cons.prems(3) [of x] by simp
  next
    case False
    then have "ev \<in> set xs" using Cons.prems(1,2) by auto
    note Cons.IH [OF this Cons.prems(2) Cons.prems(3) [OF list.set_intros(2)] Cons.prems(4) [OF list.set_intros(2)]]
    then show ?thesis using \<open>\<not> request_matches x ident\<close> Cons.prems(3) [of x] by simp
  qed
qed

definition names_interaction :: "event \<Rightarrow> string \<Rightarrow> bool" where
  "names_interaction e ident \<longleftrightarrow> request_matches e ident \<or> response_matches e ident"

lemma shown_unanswered:
  assumes "shown_request (filter (\<lambda>e. ev_session e = sid) events) = Some ev"
    and "\<And>e. e \<in> set events \<Longrightarrow> names_interaction e (request_id ev) \<Longrightarrow>
           ev_session e = sid \<and> (request_kind (ev_kind e) \<longrightarrow> e = ev)"
    and "e \<in> set events"
  shows "\<not> response_matches e (request_id ev)"
proof -
  let ?mine = "filter (\<lambda>e. ev_session e = sid) events" and ?ident = "request_id ev"
  have "pending_request ?mine ev"
    using shown_requestD [OF assms(1)] by auto
  then have "?ident \<noteq> []" "?ident \<notin> set (resolved_interactions ?mine)"
    using request_id_in [of ev] by (auto simp: pending_request_def request_id_def any_resolved_iff)
  then show ?thesis
    using assms(2) [OF assms(3)] assms(3) response_names_id [of e ?ident] resolved_names_id [of e ?mine ?ident]
    by (auto simp: names_interaction_def)
qed

lemma shown_lookup:
  assumes "shown_request (filter (\<lambda>e. ev_session e = sid) events) = Some ev"
    and "request_matches ev (request_id ev)"
    and "\<And>e. e \<in> set events \<Longrightarrow> names_interaction e (request_id ev) \<Longrightarrow>
           ev_session e = sid \<and> (request_kind (ev_kind e) \<longrightarrow> e = ev)"
  shows "find_pending events (request_id ev) = (if hidden_seq events (ev_seq ev) then Stale else FoundPending ev)"
proof -
  let ?ident = "request_id ev"
  have ev: "ev \<in> set events"
    using shown_requestD [OF assms(1)] by auto
  have unique: "e = ev" if "e \<in> set events" "request_matches e ?ident" for e
    using that assms(3) [OF that(1)] by (auto simp: names_interaction_def request_matches_def split: if_splits)
  show ?thesis
    unfolding find_pending_def
    by (rule find_pending_unique) (use ev assms(2) shown_unanswered [OF assms(1,3)] unique in auto)
qed

text \<open>Under which of its ids a request is found: not under the \<open>request_id\<close> of a Codex request alone.\<close>

definition unanswerable :: "event \<Rightarrow> bool" where
  "unanswerable ev \<longleftrightarrow>
     text_field ev ''approval_id'' = [] \<and> text_field ev ''ask_id'' = [] \<and> text_field ev ''source'' = ''codex''"

lemma shown_matches:
  "request_kind (ev_kind ev) \<Longrightarrow> request_id ev \<noteq> [] \<Longrightarrow> request_matches ev (request_id ev) \<longleftrightarrow> \<not> unanswerable ev"
  by (auto simp: request_matches_def request_id_def interaction_ids_def first_of_def text_field_def unanswerable_def)

lemma find_pending_none:
  "(\<And>e. e \<in> set events \<Longrightarrow> \<not> names_interaction e ident) \<Longrightarrow> find_pending_loop hidden ident events = NotFound"
  by (induction events) (auto simp: names_interaction_def)

text \<open>
  C18: The interaction the view of a session shows and an answer under its id, looked up among the events of all
  sessions, if no other request and no event of another session uses the id: the answer finds that very request,
  with two exceptions. A Codex request that carries no id but \<open>request_id\<close> is shown, but never found; and
  a request covered by the range of numbers of a replaced turn, of whatever session, is stale.
\<close>

theorem shown_interaction_found:
  assumes "shown_request (filter (\<lambda>e. ev_session e = sid) events) = Some ev"
    and "\<And>e. e \<in> set events \<Longrightarrow> names_interaction e (request_id ev) \<Longrightarrow>
           ev_session e = sid \<and> (request_kind (ev_kind e) \<longrightarrow> e = ev)"
  shows "find_pending events (request_id ev) =
    (if text_field ev ''approval_id'' = [] \<and> text_field ev ''ask_id'' = [] \<and> text_field ev ''source'' = ''codex''
     then NotFound
     else if hidden_seq events (ev_seq ev) then Stale else FoundPending ev)"
proof -
  let ?mine = "filter (\<lambda>e. ev_session e = sid) events" and ?ident = "request_id ev"
  have "pending_request ?mine ev"
    using shown_requestD [OF assms(1)] by auto
  then have ev: "request_kind (ev_kind ev)" "?ident \<noteq> []"
    by (simp_all add: pending_request_def request_id_def)
  show ?thesis
  proof (cases "unanswerable ev")
    case True
    have "\<not> names_interaction e ?ident" if "e \<in> set events" for e
      using that shown_unanswered [OF assms that] assms(2) [OF that] shown_matches [OF ev] True
      by (auto simp: names_interaction_def request_matches_def split: if_splits)
    then have "find_pending events ?ident = NotFound"
      unfolding find_pending_def by (intro find_pending_none) simp
    then show ?thesis using True by (simp add: unanswerable_def)
  next
    case False
    then show ?thesis
      using shown_lookup [OF assms(1) _ assms(2)] shown_matches [OF ev] by (auto simp: unanswerable_def)
  qed
qed

text \<open>
  The numbers of events are those of the store, not of a session: the range of a replaced turn covers requests
  that other sessions made meanwhile. Such a request is still shown, but every answer is refused as stale.
\<close>

theorem other_edit_blocks_answer:
  assumes "en_query E (sv_env st) [] [] 0 = events"
    and "shown_request (filter (\<lambda>e. ev_session e = sid) events) = Some ev"
    and "r \<in> set events" "replaced_range r = Some (a, b)" "a \<le> ev_seq ev" "ev_seq ev \<le> b"
    and "request_matches ev (request_id ev)"
    and "\<And>e. e \<in> set events \<Longrightarrow> names_interaction e (request_id ev) \<Longrightarrow>
           ev_session e = sid \<and> (request_kind (ev_kind e) \<longrightarrow> e = ev)"
  shows "shown_interaction pv (filter (\<lambda>e. ev_session e = sid) events) = Some (interaction_view pv ev)"
    and "respond_interaction E rid now (request_id ev) req st =
           (Inl (ActionError 409 ''interaction_stale'' ''interaction is no longer pending''), st)"
proof -
  show "shown_interaction pv (filter (\<lambda>e. ev_session e = sid) events) = Some (interaction_view pv ev)"
    using assms(2) by (simp add: shown_interaction_def)
  have "hidden_seq events (ev_seq ev)"
    using assms(3-6) by (auto simp: hidden_seq_def list_ex_iff intro!: bexI [of _ r])
  then have "find_pending events (request_id ev) = Stale"
    using shown_lookup [OF assms(2,7,8)] by simp
  then show "respond_interaction E rid now (request_id ev) req st =
           (Inl (ActionError 409 ''interaction_stale'' ''interaction is no longer pending''), st)"
    using assms(1) by (simp add: respond_interaction_def)
qed

section \<open>The title\<close>

definition native_text :: "event \<Rightarrow> string" where
  "native_text ev =
     (if ev_kind ev = ''session.native'' \<or> ev_kind ev = ''session.updated'' then fst (native_title (ev_normalized ev)) else [])"

definition user_text :: "event \<Rightarrow> string" where
  "user_text ev = (if ev_kind ev = ''message.user'' then message_title (ev_normalized ev) else [])"

lemma native_rank: "native_title value = (fst (native_title value), if fst (native_title value) = [] then 0 else 20)"
  by (simp add: native_title_def)

lemma title_step_cases:
  assumes "snd best \<le> 20"
  shows "title_step ev best =
     (if native_text ev \<noteq> [] then (native_text ev, 20)
      else if user_text ev \<noteq> [] then (if fst best \<noteq> [] \<and> snd best \<ge> 10 then best else (user_text ev, 10))
      else best)"
  using assms native_rank [of "ev_normalized ev"]
  by (cases "native_title (ev_normalized ev)") (auto simp: title_step_def native_text_def user_text_def Let_def split: if_splits)

definition title_so_far :: "string \<Rightarrow> event list \<Rightarrow> string \<times> int" where
  "title_so_far fallback events =
     (case find (\<lambda>ev. native_text ev \<noteq> []) (rev events) of
        Some ev \<Rightarrow> (native_text ev, 20)
      | None \<Rightarrow> (case find (\<lambda>ev. user_text ev \<noteq> []) events of
            Some ev \<Rightarrow> (user_text ev, 10)
          | None \<Rightarrow> (normalize_title fallback, 0)))"

lemma find_snoc: "find p (xs @ [x]) = (case find p xs of None \<Rightarrow> if p x then Some x else None | Some y \<Rightarrow> Some y)"
  by (induction xs) auto

lemma title_fold: "fold title_step events (normalize_title fallback, 0) = title_so_far fallback events"
proof (induction events rule: rev_induct)
  case Nil
  then show ?case by (simp add: title_so_far_def)
next
  case (snoc ev events)
  have native: "native_text e \<noteq> []" if "find (\<lambda>e. native_text e \<noteq> []) (rev events) = Some e" for e
    using find_SomeD [OF that] by simp
  have user: "user_text e \<noteq> []" if "find (\<lambda>e. user_text e \<noteq> []) events = Some e" for e
    using find_SomeD [OF that] by simp
  have low: "snd (title_so_far fallback events) \<le> 20"
    by (simp add: title_so_far_def split: option.split)
  show ?case
  proof (cases "find (\<lambda>e. native_text e \<noteq> []) (rev events)")
    case None
    then show ?thesis
      using user low by (auto simp: snoc title_step_cases title_so_far_def find_snoc split: option.splits)
  next
    case (Some e)
    then show ?thesis
      using native low by (auto simp: snoc title_step_cases title_so_far_def)
  qed
qed

text \<open>
  The title of a session is the last nonblank title its agent gave it; without one the first nonblank message of
  the user; without one the stored title.
\<close>

theorem title_chosen:
  "projected_title fallback events =
     (case find (\<lambda>ev. native_text ev \<noteq> []) (rev events) of
        Some ev \<Rightarrow> native_text ev
      | None \<Rightarrow> (case find (\<lambda>ev. user_text ev \<noteq> []) events of
            Some ev \<Rightarrow> user_text ev
          | None \<Rightarrow> normalize_title fallback))"
  by (simp add: projected_title_def title_fold title_so_far_def split: option.split)

section \<open>Offered decisions\<close>

lemma decision_loop_item:
  assumes "item \<in> set items" "decision_value item = d" "d \<noteq> []"
  shows "decision_loop d items \<in> set items \<and> decision_value (decision_loop d items) = d"
  using assms
proof (induction items)
  case Nil
  then show ?case by simp
next
  case (Cons x xs)
  show ?case
  proof (cases "string_value x = d")
    case True
    with Cons.prems show ?thesis by (cases x) (auto simp: decision_value_def)
  next
    case False
    show ?thesis
    proof (cases "decision_value x = d")
      case True
      with False Cons.prems obtain v where "map_value x = [(d, v)]"
        by (auto simp: decision_value_def split: if_splits list.splits)
      moreover from this have "x = AnyMap [(d, v)]" by (cases x) auto
      ultimately show ?thesis using False Cons.prems(3) by (simp add: decision_value_def)
    next
      case other: False
      with Cons have later: "decision_loop d xs \<in> set xs \<and> decision_value (decision_loop d xs) = d" by auto
      have "(case map_value x of [(k, v)] \<Rightarrow> if k = d then AnyMap [(k, v)] else decision_loop d xs
               | _ \<Rightarrow> decision_loop d xs) = decision_loop d xs"
        using other False Cons.prems(3) by (cases x) (auto simp: decision_value_def split: list.split if_splits)
      with False later show ?thesis by simp
    qed
  qed
qed

lemma explicit_actionD:
  assumes "a \<in> set (explicit_actions (AnyList items))"
  shows "\<exists>item \<in> set items. decision_value item = av_id a \<and> av_id a \<noteq> []"
  using assms by (auto simp: map_filter_def explicit_action_def Let_def act_def split: if_splits)

text \<open>
  Choosing one of the decisions an agent offered sends back to the agent exactly an item of its list of
  decisions, structured decisions with their contents.
\<close>

theorem offered_decision_roundtrip:
  assumes "ev_kind ev \<noteq> ''ask.requested''" "text_field ev ''kind'' \<noteq> ''plan''"
    and "available_decisions (ev_normalized ev) = AnyList items" "explicit_actions (AnyList items) \<noteq> []"
    and "a \<in> set (pv_actions (interaction_view pv ev))" "av_id a \<noteq> ''cancel''"
  shows "\<exists>d \<in> set items. decision_value d = av_id a \<and>
           client_action_response ev [(''action_id'', AnyString (av_id a))] = [(''decision'', d)]"
proof -
  have "a \<in> set (explicit_actions (AnyList items))"
    using assms by (auto simp: interaction_view_def interaction_actions_def view_kind_def Let_def
        simp del: explicit_actions.simps)
  then obtain item where "item \<in> set items" "decision_value item = av_id a" "av_id a \<noteq> []"
    using explicit_actionD by blast
  note found = decision_loop_item [OF this]
  have "client_action_response ev [(''action_id'', AnyString (av_id a))] =
      [(''decision'', client_decision_payload (available_decisions (ev_normalized ev)) (av_id a))]"
    using assms(1,6) \<open>av_id a \<noteq> []\<close>
    by (simp add: client_action_response_def Let_def field_def available_decisions_def)
  then show ?thesis
    using found assms(3) by (auto simp: client_decision_payload_def)
qed

section \<open>The queue shown\<close>

definition queue_ident :: "event \<Rightarrow> string" where
  "queue_ident ev = text_field ev ''queue_id''"

text \<open>Of the inputs that entered the queue those whose id did not leave it afterwards.\<close>

fun waiting_inputs :: "event list \<Rightarrow> event list" where
  "waiting_inputs [] = []"
| "waiting_inputs (ev # evs) =
     (if enters_queue ev \<and> \<not> list_ex (\<lambda>e. leaves_queue e \<and> queue_ident e = queue_ident ev) evs
      then ev # waiting_inputs evs else waiting_inputs evs)"

lemma enters_not_leaves: "enters_queue ev \<Longrightarrow> \<not> leaves_queue ev"
  by (auto simp: enters_queue_def leaves_queue_def queue_end_kind_def)

lemma waiting_snoc:
  "waiting_inputs (evs @ [e]) =
     (if leaves_queue e then filter (\<lambda>ev. queue_ident ev \<noteq> queue_ident e) (waiting_inputs evs)
      else if enters_queue e then waiting_inputs evs @ [e] else waiting_inputs evs)"
  using enters_not_leaves [of e] by (induction evs) auto

definition entering :: "event list \<Rightarrow> string list" where
  "entering events = map queue_ident (filter enters_queue events)"

definition queue_state_ok :: "event list \<Rightarrow> (string \<rightharpoonup> queued_view) \<times> string list \<Rightarrow> bool" where
  "queue_state_ok events st \<longleftrightarrow>
     snd st = entering events \<and>
     dom (fst st) \<subseteq> set (entering events) \<and>
     (\<forall>i v. fst st i = Some v \<longrightarrow> qv_id v = i) \<and>
     List.map_filter (fst st) (entering events) = map queued_view_of (waiting_inputs events)"

lemma map_filter_fresh: "i \<notin> set is \<Longrightarrow> List.map_filter (m(i := x)) is = List.map_filter m is"
  by (induction "is") (auto simp: List.map_filter_simps split: option.split)

lemma map_filter_drop:
  "(\<And>i v. m i = Some v \<Longrightarrow> qv_id v = i) \<Longrightarrow>
     List.map_filter (m(i := None)) order = filter (\<lambda>v. qv_id v \<noteq> i) (List.map_filter m order)"
  by (induction order) (auto simp: List.map_filter_simps split: option.split)

lemma map_filter_append: "List.map_filter f (xs @ ys) = List.map_filter f xs @ List.map_filter f ys"
  by (simp add: List.map_filter_def)

lemma filter_queued_views:
  "filter (\<lambda>v. qv_id v \<noteq> i) (map queued_view_of evs) = map queued_view_of (filter (\<lambda>ev. queue_ident ev \<noteq> i) evs)"
  by (simp add: filter_map comp_def queued_view_of_def queue_ident_def)

lemma queue_state_step:
  assumes ok: "queue_state_ok events st" and fresh: "distinct (entering (events @ [e]))"
  shows "queue_state_ok (events @ [e]) (queue_scan e st)"
proof (cases "enters_queue e")
  case True
  have new: "queue_ident e \<notin> set (entering events)"
    using fresh True by (simp add: entering_def)
  then have none: "fst st (queue_ident e) = None" "queue_ident e \<notin> set (snd st)"
    using ok new by (auto simp: queue_state_ok_def)
  have scan: "queue_scan e st = ((fst st)(queue_ident e \<mapsto> queued_view_of e), snd st @ [queue_ident e])"
    using True none by (simp add: queue_scan_def queue_ident_def Let_def)
  have "List.map_filter ((fst st)(queue_ident e \<mapsto> queued_view_of e)) (entering events @ [queue_ident e]) =
      List.map_filter (fst st) (entering events) @ [queued_view_of e]"
    using new by (simp add: map_filter_append map_filter_fresh List.map_filter_simps)
  then show ?thesis
    using ok True enters_not_leaves [OF True] unfolding scan queue_state_ok_def
    by (auto simp: waiting_snoc entering_def queued_view_of_def queue_ident_def)
next
  case False
  show ?thesis
  proof (cases "leaves_queue e")
    case True
    have scan: "queue_scan e st = ((fst st)(queue_ident e := None), snd st)"
      using True False by (simp add: queue_scan_def queue_ident_def Let_def)
    have ids: "\<And>i v. fst st i = Some v \<Longrightarrow> qv_id v = i"
      and shown: "List.map_filter (fst st) (entering events) = map queued_view_of (waiting_inputs events)"
      using ok by (simp_all add: queue_state_ok_def)
    have "List.map_filter ((fst st)(queue_ident e := None)) (entering events) = map queued_view_of (waiting_inputs (events @ [e]))"
      by (simp only: map_filter_drop [OF ids] shown filter_queued_views waiting_snoc True if_True)
    then show ?thesis
      using ok False unfolding scan queue_state_ok_def by (auto simp: entering_def)
  next
    case other: False
    with False ok show ?thesis
      by (simp add: queue_scan_def Let_def queue_state_ok_def waiting_snoc entering_def)
  qed
qed

lemma queue_state_fold:
  "distinct (entering events) \<Longrightarrow> queue_state_ok events (fold queue_scan events (Map.empty, []))"
proof (induction events rule: rev_induct)
  case Nil
  then show ?case by (simp add: queue_state_ok_def entering_def List.map_filter_simps)
next
  case (snoc e events)
  then have "queue_state_ok events (fold queue_scan events (Map.empty, []))"
    by (simp add: entering_def)
  from queue_state_step [OF this snoc.prems] show ?case by simp
qed

text \<open>
  C19: If no queue id is queued twice, the queued inputs shown are exactly the visible inputs that entered the queue
  and did not leave it (dequeued, cancelled, failed, rejected or steered), in the order they were queued.
\<close>

theorem queued_inputs_exact:
  assumes "distinct (entering events)"
  shows "queued_inputs events = map queued_view_of (waiting_inputs events)"
  using queue_state_fold [OF assms] by (simp add: queued_inputs_def queue_state_ok_def split_beta)

text \<open>An id queued again after it left is kept in the order a second time: the view then shows the input twice.\<close>

theorem requeued_shown_twice:
  assumes "enters_queue a" "leaves_queue b" "enters_queue c"
    and "queue_ident b = queue_ident a" "queue_ident c = queue_ident a"
  shows "queued_inputs [a, b, c] = [queued_view_of c, queued_view_of c]"
    and "waiting_inputs [a, b, c] = [c]"
  using assms enters_not_leaves [of a] enters_not_leaves [of c]
  by (auto simp: queued_inputs_def queue_scan_def Let_def List.map_filter_simps queue_ident_def
      enters_queue_def [of b] leaves_queue_def [of b] queue_end_kind_def)

section \<open>Examples\<close>

definition view_ev :: "int \<Rightarrow> string \<Rightarrow> string \<Rightarrow> fields \<Rightarrow> event" where
  "view_ev seq sid kind vals = \<lparr>ev_seq = seq, ev_ts = ''t'', ev_workspace = ''w'', ev_session = sid,
     ev_agent = ''codex'', ev_kind = kind, ev_normalized = vals, ev_raw = AnyNil\<rparr>"

definition asking_event :: event where
  "asking_event = view_ev 2 ''b'' ''approval.requested''
     [(''approval_id'', AnyString ''p''), (''kind'', AnyString ''command''), (''command'', AnyString ''ls''),
      (''available_decisions'', AnyList [AnyString ''accept'', AnyMap [(''amend'', AnyString ''ls'')]])]"

definition two_sessions :: "event list" where
  "two_sessions = [view_ev 1 ''a'' ''message.user'' [(''text'', AnyString ''x'')], asking_event,
     view_ev 3 ''a'' ''turn.completed'' []]"

definition edited_log :: "event list" where
  "edited_log = two_sessions @ [view_ev 4 ''a'' ''turn.replaced'' [(''start_seq'', AnyNumber 1), (''end_seq'', AnyNumber 3)]]"

lemmas view_eval = view_ev_def asking_event_def two_sessions_def edited_log_def text_field_def field_def

lemma asking_shown:
  "shown_request (filter (\<lambda>e. ev_session e = ''b'') two_sessions) = Some asking_event"
  "shown_request (filter (\<lambda>e. ev_session e = ''b'') edited_log) = Some asking_event"
  by (simp_all add: shown_request_def view_eval pending_request_def hidden_seq_def replaced_range_def request_kind_def
      is_ask_permission_echo_def interaction_ids_def first_of_def any_resolved_def resolved_interactions_def
      resolution_kind_def superseded_asks_def scan_turn_start_def scan_ask_def scan_turn_end_def turn_end_kind_def
      ask_scan_start_def)

lemma asking_id: "request_id asking_event = ''p''" "request_matches asking_event ''p''"
  by (simp_all add: request_id_def request_matches_def view_eval interaction_ids_def first_of_def request_kind_def)

lemma asking_named:
  "e \<in> set edited_log \<Longrightarrow> names_interaction e ''p'' \<Longrightarrow> e = asking_event"
  by (auto simp: names_interaction_def edited_log_def two_sessions_def view_ev_def request_matches_def
      response_matches_def request_kind_def)

lemma asking_named_short: "e \<in> set two_sessions \<Longrightarrow> names_interaction e ''p'' \<Longrightarrow> e = asking_event"
  by (rule asking_named) (simp_all add: edited_log_def)

theorem shown_interaction_found_witness:
  "find_pending two_sessions ''p'' = FoundPending asking_event"
proof -
  have named: "ev_session e = ''b'' \<and> (request_kind (ev_kind e) \<longrightarrow> e = asking_event)"
    if "e \<in> set two_sessions" "names_interaction e (request_id asking_event)" for e
    using asking_named_short [OF that(1)] that(2) by (auto simp: asking_id) (simp add: view_eval)
  have "\<not> hidden_seq two_sessions (ev_seq asking_event)" "\<not> unanswerable asking_event"
    by (simp_all add: hidden_seq_def replaced_range_def view_eval unanswerable_def)
  then show ?thesis
    using shown_interaction_found [OF asking_shown(1) named] by (auto simp: asking_id unanswerable_def)
qed

theorem other_edit_blocks_answer_witness:
  "fst (respond_interaction (demo_env\<lparr>en_query := \<lambda>s w sid after. edited_log\<rparr>) [] [] ''p'' []
     \<lparr>sv_queues = Map.empty, sv_env = ()\<rparr>) = Inl (ActionError 409 ''interaction_stale'' ''interaction is no longer pending'')"
proof -
  have named: "ev_session e = ''b'' \<and> (request_kind (ev_kind e) \<longrightarrow> e = asking_event)"
    if "e \<in> set edited_log" "names_interaction e (request_id asking_event)" for e
    using asking_named [OF that(1)] that(2) by (auto simp: asking_id) (simp add: view_eval)
  have query: "en_query (demo_env\<lparr>en_query := \<lambda>s w sid after. edited_log\<rparr>)
      (sv_env (\<lparr>sv_queues = Map.empty, sv_env = ()\<rparr> :: unit service)) [] [] 0 = edited_log"
    by simp
  have range: "replaced_range (last edited_log) = Some (1, 3)" "last edited_log \<in> set edited_log"
    "1 \<le> ev_seq asking_event" "ev_seq asking_event \<le> 3"
    by (simp_all add: replaced_range_def view_eval)
  show ?thesis
    using other_edit_blocks_answer(2) [OF query asking_shown(2) range(2,1,3,4) _ named, of "[]" "[]" "[]"]
    by (simp add: asking_id)
qed

theorem offered_decision_roundtrip_witness:
  "client_action_response asking_event [(''action_id'', AnyString ''amend'')] =
     [(''decision'', AnyMap [(''amend'', AnyString ''ls'')])]"
proof -
  have avail: "available_decisions (ev_normalized asking_event) =
      AnyList [AnyString ''accept'', AnyMap [(''amend'', AnyString ''ls'')]]"
    by (simp add: available_decisions_def view_eval)
  have acts: "explicit_actions (AnyList [AnyString ''accept'', AnyMap [(''amend'', AnyString ''ls'')]]) =
      [act ''accept'' (decision_label ''accept'') ''primary'', act ''amend'' (decision_label ''amend'') ''secondary'']"
    by (simp add: List.map_filter_simps explicit_action_def decision_value_def Let_def)
  have kind: "ev_kind asking_event \<noteq> ''ask.requested''" "text_field asking_event ''kind'' \<noteq> ''plan''"
    by (simp_all add: view_eval)
  have offered: "act ''amend'' (decision_label ''amend'') ''secondary'' \<in> set (pv_actions (interaction_view (\<lambda>v. []) asking_event))"
    using kind by (simp add: interaction_view_def interaction_actions_def avail acts view_kind_def Let_def
        del: explicit_actions.simps)
  have "\<exists>d \<in> set [AnyString ''accept'', AnyMap [(''amend'', AnyString ''ls'')]]. decision_value d = ''amend'' \<and>
      client_action_response asking_event [(''action_id'', AnyString ''amend'')] = [(''decision'', d)]"
    using offered_decision_roundtrip [OF kind avail _ offered] acts by (simp add: act_def)
  then show ?thesis
    by (simp add: decision_value_def)
qed

definition queue_log :: "event list" where
  "queue_log = [view_ev 1 ''a'' ''queue.queued'' [(''queue_id'', AnyString ''q''), (''text'', AnyString ''x'')],
     view_ev 2 ''a'' ''queue.queued'' [(''queue_id'', AnyString ''r''), (''text'', AnyString ''y'')],
     view_ev 3 ''a'' ''queue.dequeued'' [(''queue_id'', AnyString ''q'')]]"

theorem queued_inputs_exact_witness:
  "queued_inputs queue_log = [\<lparr>qv_id = ''r'', qv_session = ''a'', qv_text = ''y''\<rparr>]"
proof -
  have trims: "trim_space ''x'' = ''x''" "trim_space ''y'' = ''y''"
    by (simp_all add: str_eval)
  have "distinct (entering queue_log)"
    by (simp add: entering_def queue_log_def enters_queue_def view_ev_def text_field_def field_def queued_text_def
        queue_ident_def trims)
  from queued_inputs_exact [OF this] show ?thesis
    by (simp add: queue_log_def enters_queue_def leaves_queue_def queue_end_kind_def view_ev_def text_field_def
        field_def queued_text_def queue_ident_def queued_view_of_def trims)
qed

theorem requeued_shown_twice_witness:
  "length (queued_inputs [queue_log ! 0, queue_log ! 2, queue_log ! 0]) = 2"
proof -
  have "enters_queue (queue_log ! 0)" "leaves_queue (queue_log ! 2)" "queue_ident (queue_log ! 2) = queue_ident (queue_log ! 0)"
    by (simp_all add: queue_log_def enters_queue_def leaves_queue_def queue_end_kind_def view_ev_def text_field_def
        field_def queued_text_def queue_ident_def str_eval)
  from requeued_shown_twice(1) [OF this(1,2,1) this(3)] show ?thesis by simp
qed

end
