(* ===== verification/EventQuery.thy ===== *)
theory EventQuery
  imports SessionService "HOL-Library.AList"
begin

text \<open>
  What the daemon answers to a query of its events (\<open>daemon/projection_service.go\<close>, with
  \<open>sessionsForEventProjection\<close> of \<open>daemon/store.go\<close> and the snapshots of
  \<open>daemon/state_stores.go\<close>): the stored events, the overlays and the control state, the native
  transcripts of the sessions and the copied transcripts of forks, deduplicated, filtered and
  sorted by number. The session table, overlays, control state and native transcripts are read
  from the state \<open>'p\<close> of the store by the functions of \<open>event_sources\<close>. The critical sections
  of one query see one state.
\<close>

section \<open>Sorting\<close>

definition nul :: string where
  "nul = [CHR 0x00]"

definition nul_free :: "string \<Rightarrow> bool" where
  "nul_free s \<longleftrightarrow> CHR 0x00 \<notin> set s"

fun bytes_less :: "string \<Rightarrow> string \<Rightarrow> bool" where
  "bytes_less s [] \<longleftrightarrow> False"
| "bytes_less [] (d # t) \<longleftrightarrow> True"
| "bytes_less (c # s) (d # t) \<longleftrightarrow> of_char c < (of_char d :: nat) \<or> (c = d \<and> bytes_less s t)"

definition event_less :: "event \<Rightarrow> event \<Rightarrow> bool" where
  "event_less a b =
     (if ev_seq a = ev_seq b
      then (if ev_ts a \<noteq> [] \<and> ev_ts b \<noteq> [] \<and> ev_ts a \<noteq> ev_ts b then bytes_less (ev_ts a) (ev_ts b)
            else bytes_less (ev_kind a) (ev_kind b))
      else ev_seq a < ev_seq b)"

text \<open>The order \<open>projectForkTranscript\<close> sorts by.\<close>

definition source_less :: "event \<Rightarrow> event \<Rightarrow> bool" where
  "source_less a b = (if ev_seq a = ev_seq b then bytes_less (ev_ts a) (ev_ts b) else ev_seq a < ev_seq b)"

text \<open>
  \<open>sort.SliceStable\<close>, as a stable insertion sort: for an order that is a strict weak one every
  stable sort gives the same list. (\<open>event_less\<close> is one on events that all have a time stamp, or
  whose numbers differ; otherwise events of one number may come in another order than here.)
\<close>

fun insert_by :: "(event \<Rightarrow> event \<Rightarrow> bool) \<Rightarrow> event \<Rightarrow> event list \<Rightarrow> event list" where
  "insert_by lt ev [] = [ev]"
| "insert_by lt ev (e # es) = (if lt e ev then e # insert_by lt ev es else ev # e # es)"

definition stable_sort :: "(event \<Rightarrow> event \<Rightarrow> bool) \<Rightarrow> event list \<Rightarrow> event list" where
  "stable_sort lt events = foldr (insert_by lt) events []"

definition sort_events :: "event list \<Rightarrow> event list" where
  "sort_events events = stable_sort event_less events"

lemma set_insert_by [simp]: "set (insert_by lt ev es) = insert ev (set es)"
  by (induction es) auto

lemma set_stable_sort [simp]: "set (stable_sort lt es) = set es"
  by (induction es) (simp_all add: stable_sort_def)

lemma length_insert_by [simp]: "length (insert_by lt ev es) = Suc (length es)"
  by (induction es) auto

lemma length_stable_sort [simp]: "length (stable_sort lt es) = length es"
  by (induction es) (simp_all add: stable_sort_def)

lemma event_less_seq: "event_less a b \<Longrightarrow> ev_seq a \<le> ev_seq b" "\<not> event_less a b \<Longrightarrow> ev_seq b \<le> ev_seq a"
  by (auto simp: event_less_def split: if_splits)

lemma sorted_insert_event: "sorted (map ev_seq es) \<Longrightarrow> sorted (map ev_seq (insert_by event_less ev es))"
  by (induction es) (auto dest: event_less_seq order_trans)

lemma sorted_sort_events: "sorted (map ev_seq (sort_events es))"
  by (induction es) (simp_all add: sort_events_def stable_sort_def sorted_insert_event)

lemma set_sort_events [simp]: "set (sort_events es) = set es"
  by (simp add: sort_events_def)

lemma length_sort_events [simp]: "length (sort_events es) = length es"
  by (simp add: sort_events_def)

section \<open>The query\<close>

definition is_transcript_kind :: "string \<Rightarrow> bool" where
  "is_transcript_kind kind \<longleftrightarrow>
     has_prefix kind ''message.'' \<or> has_prefix kind ''tool.'' \<or> has_prefix kind ''reasoning.'' \<or>
     has_prefix kind ''plan.'' \<or> has_prefix kind ''hook.'' \<or> has_prefix kind ''memory.'' \<or>
     kind = ''turn.started'' \<or> turn_end_kind kind"

record 'p event_sources =
  qs_list :: "'p \<Rightarrow> string \<Rightarrow> agent_session list"
  qs_get :: "'p \<Rightarrow> string \<Rightarrow> agent_session option"
  qs_overlays :: "'p \<Rightarrow> (string \<times> event list) list"
  qs_control :: "'p \<Rightarrow> event list"
  qs_native :: "'p \<Rightarrow> agent_session \<Rightarrow> event list"

definition projection_sessions :: "'p event_sources \<Rightarrow> 'p \<Rightarrow> string \<Rightarrow> string \<Rightarrow> agent_session list" where
  "projection_sessions src p ws sid =
     (if sid \<noteq> []
      then (case qs_get src p sid of
              None \<Rightarrow> []
            | Some ss \<Rightarrow> if ws \<noteq> [] \<and> as_workspace ss \<noteq> ws then [] else [ss])
      else qs_list src p ws)"

definition overlay_events :: "'p event_sources \<Rightarrow> 'p \<Rightarrow> string \<Rightarrow> event list" where
  "overlay_events src p sid =
     (if sid \<noteq> [] then (case map_of (qs_overlays src p) sid of None \<Rightarrow> [] | Some evs \<Rightarrow> evs)
      else concat (map snd (qs_overlays src p)))"

text \<open>\<open>qs_native\<close> is what is read of the transcript of a session that has one.\<close>

definition has_native :: "agent_session \<Rightarrow> bool" where
  "has_native ss = (case as_native_ref ss of None \<Rightarrow> False | Some r \<Rightarrow> nr_local_path r \<noteq> [])"

definition native_events :: "'p event_sources \<Rightarrow> 'p \<Rightarrow> agent_session \<Rightarrow> event list" where
  "native_events src p ss = (if has_native ss then qs_native src p ss else [])"

definition projected_event_key :: "event \<Rightarrow> string" where
  "projected_event_key ev =
     (if ev_seq ev > 0 \<and> \<not> is_transcript_kind (ev_kind ev)
      then ''seq:'' @ ev_kind ev @ '':'' @ ev_session ev @ '':'' @ dec_int (ev_seq ev)
      else ev_workspace ev @ nul @ ev_session ev @ nul @ ev_kind ev @ nul
        @ first_string (map (field (ev_normalized ev)) [''id'', ''item_id'', ''message_id'', ''native_message_uuid'',
            ''turn_id'', ''approval_id'', ''ask_id'', ''queue_id'', ''text''])
        @ nul @ ev_ts ev)"

fun dedupe_loop :: "string set \<Rightarrow> event list \<Rightarrow> event list" where
  "dedupe_loop seen [] = []"
| "dedupe_loop seen (ev # evs) =
     (if projected_event_key ev \<in> seen then dedupe_loop seen evs
      else ev # dedupe_loop (insert (projected_event_key ev) seen) evs)"

definition dedupe_events :: "event list \<Rightarrow> event list" where
  "dedupe_events events = dedupe_loop {} events"

text \<open>\<open>cloneJSONValue\<close> is the identity on the values here.\<close>

definition fork_copy :: "agent_session \<Rightarrow> event \<Rightarrow> event" where
  "fork_copy ss ev =
     (let vals = AList.update ''source_seq'' (AnyNumber (ev_seq ev))
            (AList.update ''source_session_id'' (AnyString (ev_session ev))
              (AList.update ''fork_projection'' (AnyBool True) (ev_normalized ev)))
      in \<lparr>ev_seq = ev_seq ev, ev_ts = ev_ts ev, ev_workspace = as_workspace ss, ev_session = as_id ss,
          ev_agent = as_agent ss, ev_kind = ev_kind ev,
          ev_normalized = (if turn_end_kind (ev_kind ev)
            then AList.update ''suppress_notification'' (AnyBool True) vals else vals),
          ev_raw = AnyNil\<rparr>)"

text \<open>The loop up to the anchor; behind it only the end of the anchor's turn is copied.\<close>

fun fork_loop :: "agent_session \<Rightarrow> bool \<Rightarrow> event list \<Rightarrow> event list" where
  "fork_loop ss reached [] = []"
| "fork_loop ss reached (ev # evs) =
     (let later = ev_seq ev > as_fork_seq ss;
          reached' = (reached \<or> ev_seq ev = as_fork_seq ss)
      in if later \<and> (\<not> reached \<or> ev_kind ev = ''message.user'' \<or> ev_kind ev = ''turn.started'') then []
         else if later \<and> \<not> turn_end_kind (ev_kind ev) then fork_loop ss reached evs
         else if \<not> is_transcript_kind (ev_kind ev) then fork_loop ss reached' evs
         else fork_copy ss ev # fork_loop ss reached' evs)"

definition session_events :: "event list \<Rightarrow> string \<Rightarrow> event list" where
  "session_events events sid = (if sid = [] then [] else filter (\<lambda>ev. ev_session ev = sid) events)"

definition project_fork :: "'p event_sources \<Rightarrow> 'p event_store \<Rightarrow> agent_session \<Rightarrow> event list" where
  "project_fork src st ss =
     (if as_fork_session ss = [] \<or> as_fork_seq ss \<le> 0 then []
      else (case qs_get src (es_sessions st) (as_fork_session ss) of
              None \<Rightarrow> []
            | Some source \<Rightarrow> fork_loop ss False (stable_sort source_less (dedupe_events
                (native_events src (es_sessions st) source @ session_events (es_events st) (as_id source)
                 @ overlay_events src (es_sessions st) (as_id source))))))"

text \<open>A stored event is left out if a native transcript tells the same.\<close>

definition told_natively :: "agent_session list \<Rightarrow> event \<Rightarrow> bool" where
  "told_natively sessions ev \<longleftrightarrow>
     ev_session ev \<in> as_id ` set (filter has_native sessions) \<and> is_transcript_kind (ev_kind ev) \<and>
     \<not> bool_value (field (ev_normalized ev) ''fork_projection'')"

definition merged_events :: "'p event_sources \<Rightarrow> 'p event_store \<Rightarrow> string \<Rightarrow> string \<Rightarrow> event list" where
  "merged_events src st ws sid =
     (let sessions = projection_sessions src (es_sessions st) ws sid
      in filter (\<lambda>ev. \<not> told_natively sessions ev) (es_events st)
         @ overlay_events src (es_sessions st) sid @ qs_control src (es_sessions st)
         @ concat (map (\<lambda>ss. native_events src (es_sessions st) ss @ project_fork src st ss) sessions))"

definition query_window ::
  "'p event_sources \<Rightarrow> 'p event_store \<Rightarrow> string \<Rightarrow> string \<Rightarrow> int \<Rightarrow> int \<Rightarrow> int \<Rightarrow> event list" where
  "query_window src st ws sid after_seq before_seq limit =
     (let out = sort_events (filter_events (dedupe_events (merged_events src st ws sid)) ws sid after_seq before_seq)
      in if limit > 0 \<and> int (length out) > limit then drop (length out - nat limit) out else out)"

definition query_events :: "'p event_sources \<Rightarrow> 'p event_store \<Rightarrow> string \<Rightarrow> string \<Rightarrow> int \<Rightarrow> event list" where
  "query_events src st ws sid after_seq = query_window src st ws sid after_seq 0 0"

section \<open>What a query returns\<close>

lemma dedupe_subset: "set (dedupe_loop seen evs) \<subseteq> set evs"
  by (induction evs arbitrary: seen) auto

lemma dedupe_first:
  assumes "projected_event_key ev \<notin> seen" "\<And>e. e \<in> set pre \<Longrightarrow> projected_event_key e \<noteq> projected_event_key ev"
  shows "ev \<in> set (dedupe_loop seen (pre @ ev # post))"
  using assms
proof (induction pre arbitrary: seen)
  case (Cons a pre)
  have "projected_event_key ev \<noteq> projected_event_key a"
    using Cons.prems(2) [of a] by simp
  with Cons show ?case by (cases "projected_event_key a \<in> seen") auto
qed simp

lemma query_sorted: "sorted (map ev_seq (query_events src st ws sid n))"
  by (simp add: query_events_def query_window_def sorted_sort_events Let_def)

lemma query_subset: "set (query_window src st ws sid a b k) \<subseteq> set (merged_events src st ws sid)"
proof
  fix ev assume "ev \<in> set (query_window src st ws sid a b k)"
  then have "ev \<in> set (dedupe_events (merged_events src st ws sid))"
    by (auto simp: query_window_def filter_events_def Let_def split: if_splits dest: in_set_dropD)
  then show "ev \<in> set (merged_events src st ws sid)"
    using dedupe_subset [of "{}"] by (auto simp: dedupe_events_def)
qed

lemma query_passes: "0 \<le> ev_seq ev \<Longrightarrow> ev \<in> set (dedupe_events (merged_events src st [] [])) \<Longrightarrow>
    ev \<in> set (query_events src st [] [] 0)"
  by (simp add: query_events_def query_window_def filter_events_def Let_def)

text \<open>The number of an event that is not of a transcript can be read off its key.\<close>

lemma digit_byte: "k < 10 \<Longrightarrow> of_char (decimal_digit k) = 48 + k"
  by (simp add: decimal_digit_def)

lemma dec_bytes: "c \<in> set (dec n) \<Longrightarrow> 48 \<le> (of_char c :: nat) \<and> of_char c < (58 :: nat)"
proof (induction n rule: dec.induct)
  case (1 n)
  then show ?case
    using digit_byte [of n] digit_byte [of "n mod 10"] by (subst (asm) (2) dec.simps) (auto split: if_splits)
qed

lemma nul_free_dec [simp]: "nul_free (dec n)"
  using dec_bytes [of "CHR 0x00" n] by (auto simp: nul_free_def)

lemma dec_no_colon: "CHR '':'' \<notin> set (dec n)"
  using dec_bytes [of "CHR '':''" n] by auto

lemma last_part: "c \<notin> set t \<Longrightarrow> takeWhile (\<lambda>d. d \<noteq> c) (rev (s @ c # t)) = rev t"
  by (simp add: takeWhile_append takeWhile_eq_all_conv)

lemma key_number:
  assumes "projected_event_key e = projected_event_key ev" "0 < ev_seq ev" "\<not> is_transcript_kind (ev_kind ev)"
    and "nul_free (ev_kind ev)" "nul_free (ev_session ev)"
  shows "ev_seq e = ev_seq ev"
proof -
  let ?k = "\<lambda>x. (''seq:'' @ ev_kind x @ '':'' @ ev_session x) @ CHR '':'' # dec (nat (ev_seq x))"
  have key: "projected_event_key x = ?k x" if "0 < ev_seq x" "\<not> is_transcript_kind (ev_kind x)" for x
    using that by (simp add: projected_event_key_def dec_int_def)
  have free: "nul_free (projected_event_key ev)"
    using assms(2-5) nul_free_dec [of "nat (ev_seq ev)"] by (simp add: key nul_free_def)
  have "0 < ev_seq e \<and> \<not> is_transcript_kind (ev_kind e)"
  proof (rule ccontr)
    assume "\<not> ?thesis"
    then have "CHR 0x00 \<in> set (projected_event_key e)"
      by (auto simp: projected_event_key_def nul_def)
    then show False using free assms(1) by (simp add: nul_free_def)
  qed
  then have "?k e = ?k ev" using assms(1-3) key by simp
  then have "takeWhile (\<lambda>d. d \<noteq> CHR '':'') (rev (?k e)) = takeWhile (\<lambda>d. d \<noteq> CHR '':'') (rev (?k ev))"
    by (rule arg_cong)
  then have "dec (nat (ev_seq e)) = dec (nat (ev_seq ev))"
    by (simp only: last_part [OF dec_no_colon]) simp
  then show ?thesis using \<open>0 < ev_seq e \<and> _\<close> assms(2) by simp
qed

section \<open>Answering twice\<close>

text \<open>
  What the answers rely on: a recorded answer is in what a query of the whole log returns, and a
  query is in the order of the numbers.
\<close>

lemma pending_loop_stale:
  assumes "ans \<in> set evs" "response_matches ans ident" "sorted (map ev_seq (rev evs))"
    and "\<And>e. e \<in> set evs \<Longrightarrow> request_matches e ident \<Longrightarrow> ev_seq e < ev_seq ans"
  shows "find_pending_loop hidden ident evs = Stale"
  using assms by (induction evs) (fastforce simp: sorted_append)+

lemma pending_loop_newest:
  "\<not> response_matches e ident \<Longrightarrow> request_matches e ident \<Longrightarrow> \<not> hidden (ev_seq e) \<Longrightarrow>
     find_pending_loop hidden ident (e # evs) = FoundPending e"
  by simp

locale answer_log =
  fixes query :: "'s \<Rightarrow> event list"
    and recorded :: "event \<Rightarrow> 's \<Rightarrow> bool"
  assumes listed: "recorded ev s \<Longrightarrow> ev \<in> set (query s)"
    and ordered: "sorted (map ev_seq (query s))"
begin

lemma answered_stale:
  assumes "recorded ans s" "response_matches ans ident"
    and "\<And>e. e \<in> set (query s) \<Longrightarrow> request_matches e ident \<Longrightarrow> ev_seq e < ev_seq ans"
  shows "find_pending (query s) ident = Stale"
  unfolding find_pending_def
  using assms listed [OF assms(1)] ordered [of s] by (intro pending_loop_stale [of ans]) simp_all

lemma newest_found:
  assumes "e \<in> set (query s)" "request_matches e ident" "\<not> hidden_seq (query s) (ev_seq e)"
    and "\<And>e'. e' \<in> set (query s) \<Longrightarrow> e' = e \<or> ev_seq e' < ev_seq e"
  shows "find_pending (query s) ident = FoundPending e"
proof -
  obtain x xs where rev: "rev (query s) = x # xs"
    using assms(1) by (cases "rev (query s)") auto
  then have "query s = rev xs @ [x]" by (metis rev_rev_ident rev.simps(2))
  moreover from this have "ev_seq e \<le> ev_seq x"
    using assms(1) ordered [of s] by (auto simp: sorted_append)
  ultimately have "x = e" using assms(4) [of x] by auto
  moreover have "\<not> response_matches e ident"
    using assms(2) by (auto simp: request_matches_def response_matches_def request_kind_def split: if_splits)
  ultimately show ?thesis using rev assms(2,3) by (simp add: find_pending_def)
qed

end

text \<open>An answer in a log whose numbers increase.\<close>

definition numbered :: "'p event_store \<Rightarrow> bool" where
  "numbered st \<longleftrightarrow> sorted_wrt (<) (map ev_seq (es_events st))"

definition answer_kind :: "string \<Rightarrow> bool" where
  "answer_kind k \<longleftrightarrow> k = ''approval.responded'' \<or> k = ''ask.resolved''"

definition answer_in :: "event \<Rightarrow> 'p event_store \<Rightarrow> bool" where
  "answer_in ev st \<longleftrightarrow> numbered st \<and> ev \<in> set (es_events st) \<and> answer_kind (ev_kind ev) \<and> 0 < ev_seq ev \<and>
     nul_free (ev_session ev)"

lemma answer_kind_plain: "answer_kind k \<Longrightarrow> \<not> is_transcript_kind k \<and> nul_free k"
  by (auto simp: answer_kind_def is_transcript_kind_def has_prefix_def turn_end_kind_def nul_free_def)

lemma answer_listed:
  assumes "answer_in ev st"
  shows "ev \<in> set (query_events src st [] [] 0)"
proof -
  obtain pre post where log: "es_events st = pre @ ev # post"
    using assms by (auto simp: answer_in_def dest: split_list)
  let ?keep = "filter (\<lambda>e. \<not> told_natively (projection_sessions src (es_sessions st) [] []) e)"
  have plain: "\<not> is_transcript_kind (ev_kind ev)" "nul_free (ev_kind ev)"
    using assms answer_kind_plain by (auto simp: answer_in_def)
  then obtain rest where merged: "merged_events src st [] [] = ?keep pre @ ev # rest"
    using log by (simp add: merged_events_def told_natively_def Let_def)
  have "ev_seq e < ev_seq ev" if "e \<in> set pre" for e
    using assms log that by (auto simp: answer_in_def numbered_def sorted_wrt_append)
  then have "projected_event_key e \<noteq> projected_event_key ev" if "e \<in> set (?keep pre)" for e
    using that key_number [of e ev] plain assms by (fastforce simp: answer_in_def)
  then have "ev \<in> set (dedupe_events (merged_events src st [] []))"
    unfolding merged dedupe_events_def by (intro dedupe_first) auto
  then show ?thesis using assms by (intro query_passes) (auto simp: answer_in_def)
qed

interpretation daemon_log: answer_log "\<lambda>st. query_events src st [] [] 0" answer_in for src :: "'p event_sources"
  by standard (rule answer_listed, assumption, rule query_sorted)

text \<open>The log of \<open>EventLog\<close> as the daemon wires it: \<open>emit\<close> is \<open>Publish\<close> with the notification policy.\<close>

record 'p log_wiring =
  lw_touch :: "event \<Rightarrow> 'p \<Rightarrow> 'p"
  lw_project :: "event \<Rightarrow> 'p \<Rightarrow> 'p"
  lw_target :: "event \<Rightarrow> 'p event_store \<Rightarrow> string \<times> string"
  lw_history :: "event \<Rightarrow> string \<Rightarrow> 'p event_store \<Rightarrow> event list"
  lw_now :: string

definition log_publisher :: "'p log_wiring \<Rightarrow> 'p publisher" where
  "log_publisher lw = \<lparr>pb_touch = lw_touch lw, pb_project = lw_project lw,
     pb_notify = notification_policy (lw_target lw) (lw_history lw)\<rparr>"

definition log_emit :: "'p log_wiring \<Rightarrow> event \<Rightarrow> 'p event_store \<times> event_hub \<Rightarrow> 'p event_store \<times> event_hub" where
  "log_emit lw ev w = snd (publish (log_publisher lw) (lw_now lw) (None, None) (None, None) (\<lambda>c. True) ev w)"

lemma answer_no_intent: "ev_kind ev = ''approval.responded'' \<or> ev_kind ev = ''ask.resolved'' \<Longrightarrow> intent_text ev v es = None"
  by (elim disjE) (simp_all add: intent_text_def)

lemma answers_do_not_notify:
  "ev_kind ev \<in> {''approval.responded'', ''ask.resolved''} \<Longrightarrow> notification_policy target history ev st = None"
  by (simp add: notification_policy_def notification_event_def answer_no_intent case_prod_beta Let_def)

lemma append_no_errors: "append_event touch now None None ev st =
    ((ev\<lparr>ev_seq := es_next_seq st + 1, ev_ts := now\<rparr>, None),
     st\<lparr>es_next_seq := es_next_seq st + 1, es_events := es_events st @ [ev\<lparr>ev_seq := es_next_seq st + 1, ev_ts := now\<rparr>],
        es_sessions := touch (ev\<lparr>ev_seq := es_next_seq st + 1, ev_ts := now\<rparr>) (es_sessions st)\<rparr>)"
  by (simp add: append_event_def Let_def)

lemma log_emit_events:
  assumes "answer_kind (ev_kind ev)"
  shows "es_events (fst (log_emit lw ev w)) =
      es_events (fst w) @ [ev\<lparr>ev_seq := es_next_seq (fst w) + 1, ev_ts := lw_now lw\<rparr>] \<and>
    es_next_seq (fst (log_emit lw ev w)) = es_next_seq (fst w) + 1"
proof -
  have "notification_policy (lw_target lw) (lw_history lw) (ev\<lparr>ev_seq := n, ev_ts := ts\<rparr>) st = None" for n ts st
    using assms by (intro answers_do_not_notify) (auto simp: answer_kind_def)
  then show ?thesis
    by (simp add: log_emit_def publish_def append_no_errors log_publisher_def publish_saved_def Let_def)
qed

text \<open>The service on that log; the rest of its environment is arbitrary.\<close>

definition on_log :: "'p event_sources \<Rightarrow> 'p log_wiring \<Rightarrow> ('p event_store \<times> event_hub) session_env \<Rightarrow>
    ('p event_store \<times> event_hub) session_env" where
  "on_log src lw E = E\<lparr>en_query := (\<lambda>w. query_events src (fst w)), en_emit := log_emit lw\<rparr>"

abbreviation log_of :: "('p event_store \<times> event_hub) service \<Rightarrow> 'p event_store" where
  "log_of st \<equiv> fst (sv_env st)"

lemma answered_log:
  assumes "respond_interaction (on_log src lw E) rid now ident req st = (Inr r, st')"
  shows "\<exists>ans before. es_events (log_of st') = before @ [ans] \<and> ev_seq ans = es_next_seq (log_of st') \<and>
    answer_kind (ev_kind ans) \<and> response_matches ans ident"
proof -
  obtain origin req1 st1 where st': "st' = on_env (log_emit lw (responded_event ident origin req1)) st1"
    using respond_okD [OF assms] by (auto simp: on_log_def)
  have kind: "answer_kind (ev_kind (responded_event ident origin req1))"
    by (simp add: answer_kind_def responded_kind)
  show ?thesis
    using log_emit_events [OF kind, of lw "sv_env st1"] kind
    by (auto simp: st' on_env_def responded_matches)
qed

text \<open>
  C16: After a successful answer to an interaction, a second answer to the same id is refused as
  stale and changes nothing, in whatever state of the store the log has only grown since, if the
  numbers of the log are positive and increase, session ids have no NUL byte, and no request of
  that id which the query returns, from the log or from a native transcript, a fork, the overlays or
  the control state, has a number beyond the answer's. (The query merges native transcripts, which
  are numbered on their own: without the last condition an answered request can be found pending
  again, as shown after this.)
\<close>

theorem second_answer_refused:
  assumes "respond_interaction (on_log src lw E) rid now ident req st = (Inr r, st')"
    and "es_events (log_of later) = es_events (log_of st') @ further"
    and "sorted_wrt (<) (0 # map ev_seq (es_events (log_of later)))"
    and "list_all (\<lambda>ev. nul_free (ev_session ev)) (es_events (log_of later))"
    and "\<And>ev. ev \<in> set (query_events src (log_of later) [] [] 0) \<Longrightarrow> request_matches ev ident \<Longrightarrow>
      ev_seq ev < es_next_seq (log_of st')"
  shows "respond_interaction (on_log src lw E) rid' now' ident req' later =
    (Inl (ActionError 409 ''interaction_stale'' ''interaction is no longer pending''), later)"
proof -
  obtain ans before where ans: "es_events (log_of st') = before @ [ans]" "ev_seq ans = es_next_seq (log_of st')"
      "answer_kind (ev_kind ans)" "response_matches ans ident"
    using answered_log [OF assms(1)] by blast
  have "answer_in ans (log_of later)"
    using assms(2-4) ans by (auto simp: answer_in_def numbered_def sorted_wrt_append)
  then have "find_pending (query_events src (log_of later) [] [] 0) ident = Stale"
    using assms(5) ans by (intro daemon_log.answered_stale) auto
  then show ?thesis by (intro respond_stale) (simp add: on_log_def)
qed

text \<open>
  The other way round: whatever answers the log has, if the request with the greatest number that a query
  returns for the id stands behind every other event, as the copy of it in a long native transcript may,
  it is found pending, and the next answer is accepted.
\<close>

theorem native_copy_reopens:
  assumes "e \<in> set (query_events src st [] [] 0)" "request_matches e ident"
    and "\<not> hidden_seq (query_events src st [] [] 0) (ev_seq e)"
    and "\<And>e'. e' \<in> set (merged_events src st [] []) \<Longrightarrow> e' = e \<or> ev_seq e' < ev_seq e"
  shows "find_pending (query_events src st [] [] 0) ident = FoundPending e"
  using assms query_subset [of src st "[]" "[]" 0 0 0]
  by (intro daemon_log.newest_found) (auto simp: query_events_def)

section \<open>Witnesses\<close>

definition demo_wiring :: "unit log_wiring" where
  "demo_wiring = \<lparr>lw_touch = (\<lambda>ev p. p), lw_project = (\<lambda>ev p. p), lw_target = (\<lambda>ev st. ([], [])),
     lw_history = (\<lambda>ev sid st. []), lw_now = []\<rparr>"

text \<open>A session with a native transcript of one message, numbered from 1.\<close>

definition demo_native :: agent_session where
  "demo_native = demo_session\<lparr>as_native_ref := Some \<lparr>nr_agent = ''claude'', nr_local_path = ''t'', nr_remote_path = [],
     nr_session = [], nr_thread = [], nr_cwd = []\<rparr>\<rparr>"

definition demo_sources :: "unit event_sources" where
  "demo_sources = \<lparr>qs_list = (\<lambda>p ws. [demo_native]), qs_get = (\<lambda>p sid. Some demo_native), qs_overlays = (\<lambda>p. []),
     qs_control = (\<lambda>p. []), qs_native = (\<lambda>p ss. [demo_user])\<rparr>"

definition demo_question :: event where
  "demo_question = demo_ask\<lparr>ev_seq := 1, ev_agent := ''codex''\<rparr>"

definition demo_answering :: "(unit event_store \<times> event_hub) service" where
  "demo_answering = \<lparr>sv_queues = Map.empty,
     sv_env = (\<lparr>es_next_seq = 1, es_events = [demo_question], es_sessions = ()\<rparr>, new_event_hub)\<rparr>"

definition demo_answered :: "(unit event_store \<times> event_hub) service" where
  "demo_answered = on_env (log_emit demo_wiring (responded_event ''a'' demo_question [])) demo_answering"

lemma demo_question_fields [simp]:
  "ev_seq demo_question = 1" "ev_kind demo_question = ''ask.requested''" "ev_session demo_question = ''s''"
  "ev_workspace demo_question = ''w''" "ev_ts demo_question = []" "ev_agent demo_question = ''codex''"
  "ev_normalized demo_question = [(''ask_id'', AnyString ''a'')]"
  by (simp_all add: demo_question_def demo_ask_def demo_event_def)

lemma demo_user_fields [simp]:
  "ev_seq demo_user = 1" "ev_kind demo_user = ''message.user''" "ev_session demo_user = ''s''"
  "ev_workspace demo_user = ''w''" "ev_ts demo_user = []" "ev_normalized demo_user = [(''text'', AnyString ''hi'')]"
  by (simp_all add: demo_user_def demo_event_def)

lemma demo_merged: "merged_events demo_sources st [] [] =
    filter (\<lambda>ev. \<not> told_natively [demo_native] ev) (es_events st) @ [demo_user]"
  by (simp add: merged_events_def demo_sources_def projection_sessions_def overlay_events_def native_events_def
      project_fork_def has_native_def demo_native_def demo_session_def zero_session_def)

lemma demo_first_query: "query_events demo_sources (log_of demo_answering) [] [] 0 = [demo_question, demo_user]"
  by (simp add: query_events_def query_window_def demo_merged demo_answering_def told_natively_def is_transcript_kind_def
      has_prefix_def turn_end_kind_def dedupe_events_def projected_event_key_def nul_def filter_events_def
      sort_events_def stable_sort_def event_less_def field_def)

lemma demo_first_answer: "respond_interaction (on_log demo_sources demo_wiring demo_env) [] [] ''a'' [] demo_answering =
    (Inr [(''ok'', AnyBool True)], demo_answered)"
proof -
  have "find_pending [demo_question, demo_user] ''a'' = FoundPending demo_question"
    by (simp add: find_pending_def response_matches_def request_matches_def request_kind_def hidden_seq_def
        replaced_range_def text_field_def field_def)
  then show ?thesis
    by (simp add: respond_interaction_def on_log_def demo_first_query demo_answered_def interaction_live_def
        demo_env_def client_action_response_def process_response_def is_cancel_response_def decision_of_def
        is_plan_approval_def demo_runtime_def demo_call demo_simps)
qed

lemma demo_answered_log: "es_events (log_of demo_answered) =
    [demo_question, responded_event ''a'' demo_question []\<lparr>ev_seq := 2, ev_ts := []\<rparr>] \<and> es_next_seq (log_of demo_answered) = 2"
  using log_emit_events [of "responded_event ''a'' demo_question []" demo_wiring "sv_env demo_answering"]
  by (simp add: demo_answered_def on_env_def answer_kind_def responded_kind demo_answering_def demo_wiring_def)

theorem second_answer_refused_witness:
  "respond_interaction (on_log demo_sources demo_wiring demo_env) [] [] ''a'' [] demo_answering =
     (Inr [(''ok'', AnyBool True)], demo_answered) \<and>
   respond_interaction (on_log demo_sources demo_wiring demo_env) [] [] ''a'' [] demo_answered =
     (Inl (ActionError 409 ''interaction_stale'' ''interaction is no longer pending''), demo_answered)"
proof -
  have "ev_seq e < 2" if "e \<in> set (query_events demo_sources (log_of demo_answered) [] [] 0)" "request_matches e ''a''" for e
  proof -
    have "e \<in> set (merged_events demo_sources (log_of demo_answered) [] [])"
      using that(1) query_subset unfolding query_events_def by fast
    then have "e = demo_user \<or> e = demo_question \<or> e = responded_event ''a'' demo_question []\<lparr>ev_seq := 2, ev_ts := []\<rparr>"
      by (auto simp: demo_merged demo_answered_log split: if_splits)
    then show ?thesis using that(2) by (elim disjE) (simp_all add: request_matches_def request_kind_def responded_kind)
  qed
  then have "respond_interaction (on_log demo_sources demo_wiring demo_env) [] [] ''a'' [] demo_answered =
     (Inl (ActionError 409 ''interaction_stale'' ''interaction is no longer pending''), demo_answered)"
    by (intro second_answer_refused [OF demo_first_answer, where further = "[]"])
      (simp_all add: demo_answered_log responded_event_def nul_free_def Let_def)
  then show ?thesis using demo_first_answer by simp
qed

end
