(* ===== verification/SessionProjections.thy ===== *)
theory SessionProjections
  imports SessionViews EventQuery Paths "HOL-Library.Log_Nat"
begin

text \<open>
  The projections the daemon keeps of its event log (\<open>daemon/internal/projection/service.go\<close>): per
  session the latest context, whether it was compacted, the slash commands and a cached view,
  applied event by event and rebuilt by \<open>Replay\<close>. \<open>Apply\<close> holds the mutex of the service and is atomic;
  \<open>SessionView\<close> (for a non-empty session id) has two critical sections with the builder between them; \<open>Replay\<close>
  empties the service and applies the events one by one. The two numbers of a context are integers; their quotient is computed in
  float64, with round to nearest even, as the code does. \<open>slash\<close> is the option
  \<open>ClaudeSlashCommands\<close> (no commands if there is none).
\<close>

section \<open>Percentages in float64\<close>

text \<open>A positive float64 is \<open>m / 2^k\<close> with 53 bits of \<open>m\<close>; \<open>float_of n d\<close> rounds \<open>n / d\<close>.\<close>

definition round_even :: "int \<Rightarrow> int \<Rightarrow> int" where
  "round_even n d =
     (let q = n div d; r = n mod d in
      if 2 * r < d \<or> (2 * r = d \<and> even q) then q else q + 1)"

definition scaled :: "int \<Rightarrow> int \<Rightarrow> int \<Rightarrow> int \<times> int" where
  "scaled k n d = (if 0 \<le> k then (n * 2 ^ nat k, d) else (n, d * 2 ^ nat (- k)))"

definition float_of :: "int \<Rightarrow> int \<Rightarrow> int \<times> int" where
  "float_of n d =
     (let k0 = 53 + bitlen d - bitlen n;
          k = (case scaled k0 n d of (a, b) \<Rightarrow> if a \<ge> b * 2 ^ 53 then k0 - 1 else k0)
      in case scaled k n d of (a, b) \<Rightarrow> (round_even a b, k))"

text \<open>\<open>int((total / window) * 100)\<close> for positive numbers.\<close>

definition float_percent :: "int \<Rightarrow> int \<Rightarrow> int" where
  "float_percent n d =
     (case float_of n d of (m, k) \<Rightarrow>
        (case (if 0 \<le> k then float_of (100 * m) (2 ^ nat k) else float_of (100 * m * 2 ^ nat (- k)) 1) of
           (m2, k2) \<Rightarrow> if 0 \<le> k2 then m2 div 2 ^ nat k2 else m2 * 2 ^ nat (- k2)))"

definition context_used_percent :: "fields \<Rightarrow> int" where
  "context_used_percent value =
     (let n = number_value (first_non_nil [field value ''total_tokens'', field value ''totalTokens'']);
          d = number_value (first_non_nil [field value ''model_context_window'', field value ''modelContextWindow'',
                field value ''context_window'', field value ''contextWindow'']);
          percent = float_percent n d
      in if n \<le> 0 \<or> d \<le> 0 then 0 else if percent < 1 then 1 else if percent > 999 then 999 else percent)"

section \<open>Contexts\<close>

fun copy_context_fields :: "string list \<Rightarrow> fields \<Rightarrow> fields \<Rightarrow> fields" where
  "copy_context_fields [] source target = target"
| "copy_context_fields (k # ks) source target = copy_context_fields ks source
     (if field target k = AnyNil \<and> field source k \<noteq> AnyNil then AList.update k (field source k) target else target)"

definition refresh_percent :: "fields \<Rightarrow> fields" where
  "refresh_percent value =
     (if context_used_percent value > 0
      then AList.update ''used_percent'' (AnyNumber (context_used_percent value)) value else value)"

definition stays_invalid :: "fields \<Rightarrow> bool" where
  "stays_invalid value \<longleftrightarrow>
     string_value (field value ''scope'') = ''aggregate'' \<or> string_value (field value ''source'') = ''astralops''"

definition cumulative_fields :: "string list" where
  "cumulative_fields = [''model'', ''model_context_window'', ''model_usage'', ''cumulative_total_tokens'',
     ''cumulative_input_tokens'', ''cumulative_output_tokens'', ''cumulative_cached_input_tokens'',
     ''cumulative_cache_creation_input_tokens'']"

definition merge_context :: "fields \<Rightarrow> fields \<Rightarrow> bool \<Rightarrow> fields" where
  "merge_context existing latest compacted =
     (let scope = string_value (field latest ''scope'') in
      if latest = [] then existing
      else if compacted \<and> stays_invalid latest then existing
      else if existing = [] then latest
      else if scope = ''aggregate'' \<and> string_value (field existing ''scope'') = ''current''
        then refresh_percent (copy_context_fields cumulative_fields latest existing)
      else if scope = ''current''
        then refresh_percent (copy_context_fields cumulative_fields existing latest)
      else latest)"

section \<open>The service\<close>

record session_projection =
  sp_context :: fields
  sp_compacted :: bool
  sp_commands :: "string list"

text \<open>A session without an entry has the zero projection; \<open>'v\<close> is the type of cached views.\<close>

record 'v projections =
  pj_sessions :: "string \<Rightarrow> session_projection"
  pj_views :: "string \<rightharpoonup> string \<times> 'v"
  pj_applied :: "string set"

definition new_projections :: "'v projections" where
  "new_projections = \<lparr>pj_sessions = (\<lambda>s. \<lparr>sp_context = [], sp_compacted = False, sp_commands = []\<rparr>),
     pj_views = Map.empty, pj_applied = {}\<rparr>"

definition event_key :: "event \<Rightarrow> string" where
  "event_key ev =
     (if ev_seq ev \<le> 0 \<and> ev_ts ev = [] then []
      else ev_workspace ev @ nul @ ev_session ev @ nul @ ev_kind ev @ nul @ dec_int (ev_seq ev) @ nul @ ev_ts ev)"

definition project_event :: "(event \<Rightarrow> string list) \<Rightarrow> event \<Rightarrow> session_projection \<Rightarrow> session_projection" where
  "project_event slash ev p =
     (let value = ev_normalized ev in
      if ev_kind ev = ''control.context''
        then (if value = [] then p
              else p\<lparr>sp_context := merge_context (sp_context p) value (sp_compacted p),
                     sp_compacted := sp_compacted p \<and> stays_invalid value\<rparr>)
      else if ev_kind ev = ''memory.compacted'' then p\<lparr>sp_context := [], sp_compacted := True\<rparr>
      else if ev_kind ev = ''session.native''
        then (if slash ev \<noteq> [] then p\<lparr>sp_commands := slash ev\<rparr> else p)
      else p)"

definition apply_event :: "(event \<Rightarrow> string list) \<Rightarrow> event \<Rightarrow> 'v projections \<Rightarrow> 'v projections" where
  "apply_event slash ev pj =
     (if ev_session ev = [] then pj
      else if event_key ev \<noteq> [] \<and> event_key ev \<in> pj_applied pj then pj
      else pj\<lparr>pj_applied := (if event_key ev \<noteq> [] then insert (event_key ev) (pj_applied pj) else pj_applied pj),
              pj_views := (pj_views pj)(ev_session ev := None),
              pj_sessions := (pj_sessions pj)(ev_session ev := project_event slash ev (pj_sessions pj (ev_session ev)))\<rparr>)"

definition replay_projections :: "(event \<Rightarrow> string list) \<Rightarrow> event list \<Rightarrow> 'v projections \<Rightarrow> 'v projections" where
  "replay_projections slash events pj = fold (apply_event slash) (sort_events events) new_projections"

text \<open>The two critical sections of \<open>SessionView\<close>; the builder runs between them.\<close>

definition cached_view :: "string \<Rightarrow> string \<Rightarrow> 'v projections \<Rightarrow> 'v option" where
  "cached_view sid key pj =
     (case pj_views pj sid of Some (k, v) \<Rightarrow> if k = key then Some v else None | None \<Rightarrow> None)"

definition store_view :: "string \<Rightarrow> string \<Rightarrow> 'v \<Rightarrow> 'v projections \<Rightarrow> 'v projections" where
  "store_view sid key v pj = pj\<lparr>pj_views := (pj_views pj)(sid \<mapsto> (key, v))\<rparr>"

definition latest_context :: "string \<Rightarrow> 'v projections \<Rightarrow> fields" where
  "latest_context sid pj = (if sid = [] then [] else sp_context (pj_sessions pj sid))"

definition slash_commands :: "string \<Rightarrow> 'v projections \<Rightarrow> string list" where
  "slash_commands sid pj = (if sid = [] then [] else sp_commands (pj_sessions pj sid))"

lemma percent_rounds_down: "float_percent 29 100 = 28" "float_percent 30 100 = 30" "float_percent 3 2 = 150"
  by code_simp+

lemma percent_bounds: "0 \<le> context_used_percent value \<and> context_used_percent value \<le> 999"
  by (simp add: context_used_percent_def Let_def)

section \<open>Replay\<close>

text \<open>Replaying a log that is in the order of its numbers applies its events as they came.\<close>

lemma sort_events_sorted:
  assumes "sorted_wrt (<) (map ev_seq es)"
  shows "sort_events es = es"
proof -
  have "event_less e e' " if "ev_seq e < ev_seq e'" for e e'
    using that by (simp add: event_less_def)
  then have "\<not> event_less e' e" if "ev_seq e < ev_seq e'" for e e'
    using that event_less_seq(1) [of e' e] by auto
  then have "insert_by event_less e es' = e # es'" if "\<forall>x \<in> set es'. ev_seq e < ev_seq x" for e es'
    using that by (cases es') auto
  then show ?thesis
    using assms by (induction es) (auto simp: sort_events_def stable_sort_def)
qed

lemma replay_in_order:
  "sorted_wrt (<) (map ev_seq es) \<Longrightarrow> replay_projections slash es pj = fold (apply_event slash) es new_projections"
  by (simp add: replay_projections_def sort_events_sorted)

lemma apply_once:
  "event_key ev \<noteq> [] \<Longrightarrow> apply_event slash ev (apply_event slash ev pj) = apply_event slash ev pj"
  by (simp add: apply_event_def)

section \<open>Compaction\<close>

definition revives_context :: "event \<Rightarrow> bool" where
  "revives_context ev \<longleftrightarrow> ev_kind ev = ''control.context'' \<and> ev_normalized ev \<noteq> [] \<and> \<not> stays_invalid (ev_normalized ev)"

definition compacted_away :: "string \<Rightarrow> 'v projections \<Rightarrow> bool" where
  "compacted_away sid pj \<longleftrightarrow> sp_context (pj_sessions pj sid) = [] \<and> sp_compacted (pj_sessions pj sid)"

lemma compacted_apply:
  assumes "compacted_away sid pj" "ev_session ev = sid \<Longrightarrow> \<not> revives_context ev"
  shows "compacted_away sid (apply_event slash ev pj)"
  using assms by (auto simp: compacted_away_def apply_event_def project_event_def revives_context_def merge_context_def Let_def)

lemma compacted_fold:
  assumes "compacted_away sid pj" "\<And>e. e \<in> set later \<Longrightarrow> ev_session e = sid \<Longrightarrow> \<not> revives_context e"
  shows "compacted_away sid (fold (apply_event slash) later pj)"
  using assms by (induction later arbitrary: pj) (auto intro: compacted_apply)

lemma compaction_applied:
  assumes "ev_kind ev = ''memory.compacted''" "ev_session ev = sid" "sid \<noteq> []" "event_key ev \<notin> pj_applied pj"
  shows "compacted_away sid (apply_event slash ev pj)"
  using assms by (auto simp: apply_event_def project_event_def compacted_away_def)

lemma revived:
  assumes "compacted_away sid pj" "revives_context ev" "ev_session ev = sid" "sid \<noteq> []" "event_key ev \<notin> pj_applied pj"
  shows "latest_context sid (apply_event slash ev pj) = ev_normalized ev"
  using assms by (auto simp: latest_context_def apply_event_def project_event_def compacted_away_def revives_context_def
      merge_context_def Let_def)

text \<open>
  C21: Over any events applied after a compaction event of a session (both not applied before) the session has no context, until
  an event brings one that is neither an aggregate nor made by the daemon itself; then the context is exactly
  what that event carries. Late totals of the turn before the compaction neither revive the old
  numbers nor flow into the new ones, and the events of other sessions change nothing.
\<close>

theorem context_after_compaction:
  assumes "ev_kind ev = ''memory.compacted''" "ev_session ev = sid" "sid \<noteq> []" "event_key ev \<notin> pj_applied pj"
    and "\<And>e. e \<in> set later \<Longrightarrow> ev_session e = sid \<Longrightarrow> \<not> revives_context e"
    and "revives_context new" "ev_session new = sid"
    and "event_key new \<notin> pj_applied (fold (apply_event slash) (ev # later) pj)"
  shows "latest_context sid (fold (apply_event slash) (ev # later) pj) = [] \<and>
    latest_context sid (fold (apply_event slash) (ev # later @ [new]) pj) = ev_normalized new"
proof -
  have "compacted_away sid (fold (apply_event slash) (ev # later) pj)"
    using compacted_fold [OF compaction_applied [OF assms(1-4)] assms(5)] by simp
  then show ?thesis
    using revived [OF _ assms(6,7,3,8)] by (simp add: latest_context_def compacted_away_def)
qed

section \<open>Cached views under interleaving\<close>

text \<open>
  A call of \<open>buildSessionView\<close>: it reads the session and the number of the last event (the length of the
  log), which make the key, looks the key up, builds the view of the events it queries on a miss and stores it.
  Meanwhile events are appended to the log and applied, and \<open>Replay\<close> empties the service and applies
  events one by one. The transcript of an external agent is taken as unchanging.
\<close>

text \<open>\<open>sessionViewProjectionKey\<close>; \<open>fp\<close> is the fingerprint of a native transcript, \<open>stored\<close> the sessions.\<close>

definition session_key_parts ::
  "(string \<Rightarrow> string) \<Rightarrow> (string \<Rightarrow> agent_session option) \<Rightarrow> agent_session \<Rightarrow> nat \<Rightarrow> string list" where
  "session_key_parts fp stored ss n =
     [as_id ss, as_workspace ss, as_agent ss, as_status ss, as_title ss, as_updated ss, dec n]
      @ (case as_native_ref ss of None \<Rightarrow> []
         | Some r \<Rightarrow> [nr_agent r, nr_local_path r, nr_session r, nr_thread r, fp (nr_local_path r)])
      @ (if as_fork_session ss = [] then []
         else (case stored (as_fork_session ss) of None \<Rightarrow> []
           | Some source \<Rightarrow> (case as_native_ref source of None \<Rightarrow> []
               | Some r \<Rightarrow> [as_fork_session ss, fp (nr_local_path r)])))"

definition session_view_key ::
  "(string \<Rightarrow> string) \<Rightarrow> (string \<Rightarrow> agent_session option) \<Rightarrow> agent_session \<Rightarrow> nat \<Rightarrow> string" where
  "session_view_key fp stored ss n = join_with nul (session_key_parts fp stored ss n)"

datatype 'v view_call =
    Keyed agent_session nat
  | Missed agent_session nat
  | Built agent_session nat 'v
  | Served agent_session nat 'v

record 'v view_world =
  vd_log :: "event list"
  vd_cache :: "'v projections"
  vd_calls :: "'v view_call list"

definition view_start :: "event list \<Rightarrow> 'v view_world" where
  "view_start hist = \<lparr>vd_log = hist, vd_cache = new_projections, vd_calls = []\<rparr>"

inductive view_step ::
  "agent_session set \<Rightarrow> (agent_session \<Rightarrow> nat \<Rightarrow> string) \<Rightarrow> (agent_session \<Rightarrow> event list \<Rightarrow> 'v) \<Rightarrow>
     'v view_world \<Rightarrow> 'v view_world \<Rightarrow> bool"
  for S key build where
  appended: "view_step S key build w (w\<lparr>vd_log := vd_log w @ [ev]\<rparr>)"
| applied: "view_step S key build w (w\<lparr>vd_cache := apply_event slash ev (vd_cache w)\<rparr>)"
| reset: "view_step S key build w (w\<lparr>vd_cache := new_projections\<rparr>)"
| called: "ss \<in> S \<Longrightarrow> view_step S key build w (w\<lparr>vd_calls := vd_calls w @ [Keyed ss (length (vd_log w))]\<rparr>)"
| hit: "i < length (vd_calls w) \<Longrightarrow> vd_calls w ! i = Keyed ss n \<Longrightarrow>
    cached_view (as_id ss) (key ss n) (vd_cache w) = Some v \<Longrightarrow>
    view_step S key build w (w\<lparr>vd_calls := (vd_calls w)[i := Served ss n v]\<rparr>)"
| missed: "i < length (vd_calls w) \<Longrightarrow> vd_calls w ! i = Keyed ss n \<Longrightarrow>
    cached_view (as_id ss) (key ss n) (vd_cache w) = None \<Longrightarrow>
    view_step S key build w (w\<lparr>vd_calls := (vd_calls w)[i := Missed ss n]\<rparr>)"
| built: "i < length (vd_calls w) \<Longrightarrow> vd_calls w ! i = Missed ss n \<Longrightarrow>
    view_step S key build w (w\<lparr>vd_calls := (vd_calls w)[i := Built ss n (build ss (vd_log w))]\<rparr>)"
| stored: "i < length (vd_calls w) \<Longrightarrow> vd_calls w ! i = Built ss n v \<Longrightarrow>
    view_step S key build w (w\<lparr>vd_cache := store_view (as_id ss) (key ss n) v (vd_cache w),
      vd_calls := (vd_calls w)[i := Served ss n v]\<rparr>)"

inductive view_reach ::
  "agent_session set \<Rightarrow> (agent_session \<Rightarrow> nat \<Rightarrow> string) \<Rightarrow> (agent_session \<Rightarrow> event list \<Rightarrow> 'v) \<Rightarrow>
     'v view_world \<Rightarrow> bool"
  for S key build where
  start: "view_reach S key build (view_start hist)"
| step: "view_reach S key build w \<Longrightarrow> view_step S key build w w' \<Longrightarrow> view_reach S key build w'"

text \<open>A view of a record with the same key, over the events up to a moment at or after the \<open>n\<close>-th.\<close>

definition recent :: "agent_session set \<Rightarrow> (agent_session \<Rightarrow> nat \<Rightarrow> string) \<Rightarrow>
  (agent_session \<Rightarrow> event list \<Rightarrow> 'v) \<Rightarrow> event list \<Rightarrow> agent_session \<Rightarrow> nat \<Rightarrow> 'v \<Rightarrow> bool" where
  "recent S key build hist ss n v \<longleftrightarrow>
     (\<exists>ss' \<in> S. \<exists>m. key ss' n = key ss n \<and> n \<le> m \<and> m \<le> length hist \<and> v = build ss' (take m hist))"

definition call_ok :: "agent_session set \<Rightarrow>
  (agent_session \<Rightarrow> nat \<Rightarrow> string) \<Rightarrow> (agent_session \<Rightarrow> event list \<Rightarrow> 'v) \<Rightarrow> event list \<Rightarrow> 'v view_call \<Rightarrow> bool" where
  "call_ok S key build hist c = (case c of
      Keyed ss n \<Rightarrow> ss \<in> S \<and> n \<le> length hist
    | Missed ss n \<Rightarrow> ss \<in> S \<and> n \<le> length hist
    | Built ss n v \<Rightarrow> ss \<in> S \<and> recent S key build hist ss n v
    | Served ss n v \<Rightarrow> ss \<in> S \<and> recent S key build hist ss n v)"

definition cache_ok :: "agent_session set \<Rightarrow>
  (agent_session \<Rightarrow> nat \<Rightarrow> string) \<Rightarrow> (agent_session \<Rightarrow> event list \<Rightarrow> 'v) \<Rightarrow> event list \<Rightarrow> 'v projections \<Rightarrow> bool" where
  "cache_ok S key build hist pj \<longleftrightarrow>
     (\<forall>sid k v. pj_views pj sid = Some (k, v) \<longrightarrow> (\<exists>ss \<in> S. \<exists>n. k = key ss n \<and> recent S key build hist ss n v))"

definition views_ok :: "agent_session set \<Rightarrow>
  (agent_session \<Rightarrow> nat \<Rightarrow> string) \<Rightarrow> (agent_session \<Rightarrow> event list \<Rightarrow> 'v) \<Rightarrow> 'v view_world \<Rightarrow> bool" where
  "views_ok S key build w \<longleftrightarrow>
     (\<forall>c \<in> set (vd_calls w). call_ok S key build (vd_log w) c) \<and> cache_ok S key build (vd_log w) (vd_cache w)"

lemma recent_append: "recent S key build hist ss n v \<Longrightarrow> recent S key build (hist @ [ev]) ss n v"
  by (force simp: recent_def)

lemma call_ok_append: "call_ok S key build hist c \<Longrightarrow> call_ok S key build (hist @ [ev]) c"
  by (auto simp: call_ok_def recent_append split: view_call.splits)

lemma cache_ok_append: "cache_ok S key build hist pj \<Longrightarrow> cache_ok S key build (hist @ [ev]) pj"
  unfolding cache_ok_def by (blast intro: recent_append)

lemma cache_ok_fewer:
  "cache_ok S key build hist pj \<Longrightarrow> pj_views pj' \<subseteq>\<^sub>m pj_views pj \<Longrightarrow> cache_ok S key build hist pj'"
  unfolding cache_ok_def map_le_def by (metis domI)

lemma apply_views: "pj_views (apply_event slash ev pj) \<subseteq>\<^sub>m pj_views pj"
  by (auto simp: apply_event_def map_le_def)

lemma cache_ok_store:
  "cache_ok S key build hist pj \<Longrightarrow> ss \<in> S \<Longrightarrow> recent S key build hist ss n v \<Longrightarrow> cache_ok S key build hist (store_view sid (key ss n) v pj)"
  by (auto simp: cache_ok_def store_view_def)

lemma views_okI:
  "(\<And>c. c \<in> set (vd_calls w) \<Longrightarrow> call_ok S key build (vd_log w) c) \<Longrightarrow> cache_ok S key build (vd_log w) (vd_cache w) \<Longrightarrow>
     views_ok S key build w"
  by (simp add: views_ok_def)

lemma views_okD:
  "views_ok S key build w \<Longrightarrow> i < length (vd_calls w) \<Longrightarrow> call_ok S key build (vd_log w) (vd_calls w ! i)"
  "views_ok S key build w \<Longrightarrow> cache_ok S key build (vd_log w) (vd_cache w)"
  "views_ok S key build w \<Longrightarrow> c \<in> set (vd_calls w) \<Longrightarrow> call_ok S key build (vd_log w) c"
  by (simp_all add: views_ok_def)

lemma set_list_update: "c \<in> set (xs[i := x]) \<Longrightarrow> c = x \<or> c \<in> set xs"
  using set_update_subset_insert by fastforce

lemma view_step_ok:
  assumes keyed: "\<And>ss ss' n n'. ss \<in> S \<Longrightarrow> ss' \<in> S \<Longrightarrow> key ss n = key ss' n' \<Longrightarrow> n = n'"
    and "view_step S key build w w'" "views_ok S key build w"
  shows "views_ok S key build w'"
  using assms(2,3)
proof (cases rule: view_step.cases)
  case (appended ev)
  then show ?thesis
    using views_okD(2,3) [OF assms(3)] by (auto intro!: views_okI call_ok_append cache_ok_append)
next
  case (applied slash ev)
  then show ?thesis
    using views_okD(2,3) [OF assms(3)] cache_ok_fewer [OF _ apply_views] by (auto intro!: views_okI)
next
  case reset
  then show ?thesis
    using views_okD(3) [OF assms(3)] by (auto intro!: views_okI simp: cache_ok_def new_projections_def)
next
  case (called ss)
  then show ?thesis
    using views_okD(2,3) [OF assms(3)] by (auto intro!: views_okI simp: call_ok_def)
next
  case (hit i ss n v)
  have mine: "ss \<in> S"
    using views_okD(1) [OF assms(3) hit(2)] hit(3) by (simp add: call_ok_def)
  have "pj_views (vd_cache w) (as_id ss) = Some (key ss n, v)"
    using hit(4) by (auto simp: cached_view_def split: option.splits if_splits)
  then obtain ss' n' where "ss' \<in> S" "key ss n = key ss' n'" "recent S key build (vd_log w) ss' n' v"
    using views_okD(2) [OF assms(3)] unfolding cache_ok_def by blast
  then have "recent S key build (vd_log w) ss n v"
    using keyed [of ss ss' n n'] mine by (auto simp: recent_def)
  then show ?thesis
    using hit(1) mine views_okD(2,3) [OF assms(3)] by (auto intro!: views_okI dest!: set_list_update simp: call_ok_def)
next
  case (missed i ss n)
  then show ?thesis
    using views_okD(2,3) [OF assms(3)] views_okD(1) [OF assms(3) missed(2)]
    by (auto intro!: views_okI dest!: set_list_update simp: call_ok_def)
next
  case (built i ss n)
  then have "ss \<in> S" "recent S key build (vd_log w) ss n (build ss (vd_log w))"
    using views_okD(1) [OF assms(3) built(2)] by (auto simp: call_ok_def recent_def intro!: exI [of _ "length (vd_log w)"])
  then show ?thesis
    using built(1) views_okD(2,3) [OF assms(3)] by (auto intro!: views_okI dest!: set_list_update simp: call_ok_def)
next
  case (stored i ss n v)
  then have "ss \<in> S" "recent S key build (vd_log w) ss n v"
    using views_okD(1) [OF assms(3) stored(2)] by (simp_all add: call_ok_def)
  then show ?thesis
    using stored(1) views_okD(2,3) [OF assms(3)]
    by (auto intro!: views_okI cache_ok_store dest!: set_list_update simp: call_ok_def)
qed

lemma view_reach_ok:
  assumes "\<And>ss ss' n n'. ss \<in> S \<Longrightarrow> ss' \<in> S \<Longrightarrow> key ss n = key ss' n' \<Longrightarrow> n = n'"
  shows "view_reach S key build w \<Longrightarrow> views_ok S key build w"
proof (induction rule: view_reach.induct)
  case (start hist)
  then show ?case by (simp add: view_start_def views_ok_def cache_ok_def new_projections_def)
next
  case (step w w')
  show ?case by (rule view_step_ok [OF assms step.hyps(2) step.IH])
qed

text \<open>A session whose strings have no NUL byte, as the texts of JSON and paths of the system have none.\<close>

definition clean_session :: "(string \<Rightarrow> string) \<Rightarrow> agent_session \<Rightarrow> bool" where
  "clean_session fp ss \<longleftrightarrow> list_all nul_free
     ([as_id ss, as_workspace ss, as_agent ss, as_status ss, as_title ss, as_updated ss, as_fork_session ss]
      @ (case as_native_ref ss of None \<Rightarrow> []
         | Some r \<Rightarrow> [nr_agent r, nr_local_path r, nr_session r, nr_thread r, fp (nr_local_path r)]))"

lemma split_joined: "parts \<noteq> [] \<Longrightarrow> list_all nul_free parts \<Longrightarrow> split_on CHR 0x00 (join_with nul parts) = parts"
  unfolding nul_def by (rule split_join) (auto simp: nul_free_def list_all_iff)

lemma clean_parts:
  assumes "clean_session fp ss" "\<And>sid r. stored sid = Some r \<Longrightarrow> clean_session fp r"
  shows "list_all nul_free (session_key_parts fp stored ss n)"
  using assms(1) assms(2) [of "as_fork_session ss"]
  by (auto simp: session_key_parts_def clean_session_def nul_free_dec split: option.split)

lemma session_view_key_inj:
  assumes "clean_session fp ss" "clean_session fp ss'"
    and "\<And>sid r. stored sid = Some r \<Longrightarrow> clean_session fp r"
    and "session_view_key fp stored ss n = session_view_key fp stored ss' n'"
  shows "session_key_parts fp stored ss n = session_key_parts fp stored ss' n'"
proof -
  have "split_on CHR 0x00 (session_view_key fp stored s m) = session_key_parts fp stored s m"
    if "clean_session fp s" for s m
    using split_joined [OF _ clean_parts [of fp s stored m]] that assms(3)
    by (simp add: session_view_key_def session_key_parts_def)
  then show ?thesis
    using assms by metis
qed

text \<open>
  C20: Whatever happens between looking a view up, building it and storing it (events, other calls, a replay), a
  served view is never older than the request: it is a view over the events up to some moment not before the
  call, of a session record that agrees with the caller's in all parts of the key: id, workspace, agent,
  status, title, time of update, native reference and source of a fork. (In what the key leaves out it may be
  the record of another call. The strings of the records have no NUL byte, which separates the parts of the
  key; native transcripts and the records of fork sources are taken as unchanging.)
\<close>

theorem served_view_recent:
  assumes "\<And>ss. ss \<in> S \<Longrightarrow> clean_session fp ss" "\<And>sid ss. stored sid = Some ss \<Longrightarrow> clean_session fp ss"
    and "view_reach S (session_view_key fp stored) build w" "Served ss n v \<in> set (vd_calls w)"
  shows "\<exists>ss' m. session_key_parts fp stored ss' n = session_key_parts fp stored ss n \<and>
    n \<le> m \<and> m \<le> length (vd_log w) \<and> v = build ss' (take m (vd_log w))"
proof -
  have same: "session_key_parts fp stored s k = session_key_parts fp stored s' k'"
    if "s \<in> S" "s' \<in> S" "session_view_key fp stored s k = session_view_key fp stored s' k'" for s s' k k'
    using session_view_key_inj [OF assms(1) [OF that(1)] assms(1) [OF that(2)] _ that(3)] assms(2) by blast
  have "views_ok S (session_view_key fp stored) build w"
  proof (rule view_reach_ok [OF _ assms(3)])
    fix s s' k k' assume "s \<in> S" "s' \<in> S" "session_view_key fp stored s k = session_view_key fp stored s' k'"
    then show "k = k'" using same [of s s' k k'] by (simp add: session_key_parts_def)
  qed
  from views_okD(3) [OF this assms(4)] obtain ss' m where "ss \<in> S" "ss' \<in> S"
      "session_view_key fp stored ss' n = session_view_key fp stored ss n"
      "n \<le> m" "m \<le> length (vd_log w)" "v = build ss' (take m (vd_log w))"
    by (auto simp: call_ok_def recent_def)
  then show ?thesis
    using same [of ss' ss n n] by blast
qed

section \<open>Examples\<close>

definition demo_context :: "event list" where
  "demo_context = [view_ev 1 ''a'' ''control.context'' [(''scope'', AnyString ''current''), (''total_tokens'', AnyNumber 29),
       (''model_context_window'', AnyNumber 100)],
     view_ev 2 ''a'' ''memory.compacted'' [],
     view_ev 3 ''a'' ''control.context'' [(''scope'', AnyString ''aggregate''), (''cumulative_total_tokens'', AnyNumber 50)]]"

definition demo_fresh :: event where
  "demo_fresh = view_ev 4 ''a'' ''control.context'' [(''scope'', AnyString ''current''), (''total_tokens'', AnyNumber 5)]"

theorem context_after_compaction_witness:
  "latest_context ''a'' (fold (apply_event (\<lambda>ev. [])) (demo_context ! 1 # [demo_context ! 2]) (new_projections :: unit projections)) = [] \<and>
   latest_context ''a'' (fold (apply_event (\<lambda>ev. [])) (demo_context ! 1 # [demo_context ! 2] @ [demo_fresh]) (new_projections :: unit projections))
     = ev_normalized demo_fresh"
proof (rule context_after_compaction)
  show "\<not> revives_context e" if "e \<in> set [demo_context ! 2]" for e
    using that by (simp add: demo_context_def view_ev_def revives_context_def stays_invalid_def field_def)
  show "revives_context demo_fresh"
    by (simp add: demo_fresh_def view_ev_def revives_context_def stays_invalid_def field_def)
  have "dec 2 \<noteq> dec 4" "dec 3 \<noteq> dec 4" by simp_all
  then show "event_key demo_fresh \<notin> pj_applied (fold (apply_event (\<lambda>ev. [])) (demo_context ! 1 # [demo_context ! 2])
      (new_projections :: unit projections))"
    by (simp add: demo_fresh_def demo_context_def view_ev_def apply_event_def event_key_def new_projections_def dec_int_def
        del: dec_inj)
qed (simp_all add: demo_context_def demo_fresh_def view_ev_def new_projections_def)

definition seen :: "agent_session \<Rightarrow> event list \<Rightarrow> nat" where
  "seen ss evs = length (filter (\<lambda>ev. ev_session ev = as_id ss) evs)"

definition idle_session :: agent_session where
  "idle_session = demo_session\<lparr>as_status := ''idle''\<rparr>"

abbreviation demo_key :: "agent_session \<Rightarrow> nat \<Rightarrow> string" where
  "demo_key \<equiv> session_view_key (\<lambda>p. []) (\<lambda>sid. None)"

definition calls_now :: "nat view_call list \<Rightarrow> nat view_world" where
  "calls_now calls = (view_start demo_context)\<lparr>vd_calls := calls\<rparr>"

definition one_served :: "nat view_world" where
  "one_served = (calls_now [Served idle_session 3 0])\<lparr>vd_cache :=
     store_view (as_id idle_session) (demo_key idle_session 3) 0 new_projections\<rparr>"

lemma served_reach: "view_reach {idle_session} demo_key seen one_served"
proof -
  have start: "view_reach {idle_session} demo_key seen (calls_now [])"
    using view_reach.start [of _ _ _ demo_context] by (simp add: calls_now_def view_start_def)
  have "calls_now [Keyed idle_session 3] =
      (calls_now [])\<lparr>vd_calls := vd_calls (calls_now []) @ [Keyed idle_session (length (vd_log (calls_now [])))]\<rparr>"
    by (simp add: calls_now_def view_start_def demo_context_def)
  then have keyed: "view_reach {idle_session} demo_key seen (calls_now [Keyed idle_session 3])"
    using view_reach.step [OF start view_step.called [of idle_session]] by simp
  have missed: "view_reach {idle_session} demo_key seen (calls_now [Missed idle_session 3])"
    using view_reach.step [OF keyed view_step.missed [of 0 _ idle_session 3]]
    by (simp add: calls_now_def cached_view_def new_projections_def view_start_def)
  have "seen idle_session demo_context = 0"
    by (simp add: seen_def demo_context_def view_ev_def idle_session_def demo_session_def)
  then have built: "view_reach {idle_session} demo_key seen (calls_now [Built idle_session 3 0])"
    using view_reach.step [OF missed view_step.built [of 0 _ idle_session 3]] by (simp add: calls_now_def view_start_def)
  show ?thesis
    using view_reach.step [OF built view_step.stored [of 0 _ idle_session 3 0]]
    by (simp add: calls_now_def one_served_def view_start_def)
qed

lemma idle_clean: "clean_session (\<lambda>p. []) idle_session"
  by (simp add: clean_session_def idle_session_def demo_session_def zero_session_def nul_free_def)

theorem served_view_recent_witness:
  "\<exists>ss' m. session_key_parts (\<lambda>p. []) (\<lambda>sid. None) ss' 3 = session_key_parts (\<lambda>p. []) (\<lambda>sid. None) idle_session 3 \<and>
    3 \<le> m \<and> m \<le> length (vd_log one_served) \<and> 0 = seen ss' (take m (vd_log one_served))"
  by (rule served_view_recent [OF _ _ served_reach])
    (simp_all add: idle_clean one_served_def calls_now_def)

end
