(* ===== verification/RemoteProjection.thy ===== *)
theory RemoteProjection
  imports SessionViews Paths
begin

text \<open>
  What the host hides from remote controllers: \<open>daemon/internal/remotecontrol/projection.go\<close> (events,
  workspaces, connections, sessions and session views), on the payloads of
  \<open>pkg/protocol/events.go\<close>. A payload is its fields with the kind that names its Go type. A Go map is an
  association list read by \<open>map_of\<close>; \<open>cloneJSONValue\<close> copies JSON values unchanged. \<open>path/filepath\<close> is
  modelled for Unix in \<open>Paths\<close>.
\<close>

section \<open>Payloads\<close>

text \<open>The kinds of \<open>astralEventNormalizedRegistry\<close>, each with its own type of payload.\<close>

definition event_kinds :: "string list" where
  "event_kinds =
     [''approval.requested'', ''approval.resolved'', ''approval.responded'', ''ask.requested'',
     ''ask.resolved'', ''control.context'', ''control.error'', ''control.interrupt'', ''control.model'',
     ''control.notification'', ''control.pairing.approved'', ''control.pairing.denied'',
     ''control.pairing.requested'', ''control.rate_limit'', ''control.raw'', ''control.status'',
     ''control.steer'', ''control.terminal.attached'', ''control.terminal.closed'',
     ''control.terminal.detached'', ''control.terminal.opened'', ''control.trust.granted'',
     ''control.trust.revoked'', ''control.warning'', ''hook.completed'', ''hook.progress'', ''hook.started'',
     ''memory.compacted'', ''memory.compacting'', ''message.assistant'', ''message.delta'', ''message.media'',
     ''message.started'', ''message.user'', ''plan.delta'', ''plan.updated'', ''queue.cancelled'',
     ''queue.dequeued'', ''queue.failed'', ''queue.queued'', ''queue.steered'', ''reasoning.completed'',
     ''reasoning.delta'', ''reasoning.started'', ''session.deleted'', ''session.native'', ''session.started'',
     ''session.updated'', ''tool.completed'', ''tool.diff'', ''tool.output_delta'', ''tool.progress'',
     ''tool.started'', ''tool.todo'', ''turn.cancelled'', ''turn.completed'', ''turn.failed'',
     ''turn.replaced'', ''turn.started'', ''workspace.connection'', ''workspace.created'',
     ''workspace.removed'']"

record typed_event = event +
  te_type :: string

text \<open>
  \<open>EventNormalized\<close> on a map: the kind and the fields of the payload; an unknown kind becomes
  \<open>control.raw\<close> around the fields. \<open>quoted\<close> is the format \<open>%q\<close>.
\<close>

definition raw_fields :: "string \<Rightarrow> string \<Rightarrow> fields \<Rightarrow> fields" where
  "raw_fields kind err value =
     [(''source'', AnyString ''protocol''), (''original_kind'', AnyString kind), (''error'', AnyString err)]
     @ (if value = [] then [] else [(''normalized'', AnyMap value)])"

definition unknown_kind :: "(string \<Rightarrow> string) \<Rightarrow> string \<Rightarrow> string" where
  "unknown_kind quoted kind = ''unknown astral event kind '' @ quoted kind"

definition event_payload :: "(string \<Rightarrow> string) \<Rightarrow> string \<Rightarrow> fields \<Rightarrow> string \<times> fields" where
  "event_payload quoted kind value =
     (if kind \<in> set event_kinds then (kind, value)
      else (''control.raw'', raw_fields kind (unknown_kind quoted kind) value))"

text \<open>
  The JSON of an event carries its payload as any JSON value (\<^const>\<open>None\<close> if it has none), not its type.
  \<open>bad\<close> is the error of decoding a value that is no object, \<open>plain\<close> its text.
\<close>

record wire_event =
  we_event :: event
  we_normalized :: "go_any option"

definition marshal_event :: "typed_event \<Rightarrow> wire_event" where
  "marshal_event ev = \<lparr>we_event = event.truncate ev, we_normalized = Some (AnyMap (ev_normalized ev))\<rparr>"

definition decode_payload :: "(string \<Rightarrow> string) \<Rightarrow> string \<Rightarrow> string \<Rightarrow> go_any option \<Rightarrow> string + fields" where
  "decode_payload quoted bad kind body =
     (if kind \<notin> set event_kinds then Inl (unknown_kind quoted kind)
      else (case body of None \<Rightarrow> Inr [] | Some (AnyMap m) \<Rightarrow> Inr m | Some AnyNil \<Rightarrow> Inr [] | Some _ \<Rightarrow> Inl bad))"

definition raw_normalized :: "(go_any \<Rightarrow> string) \<Rightarrow> go_any option \<Rightarrow> fields" where
  "raw_normalized plain body =
     (case body of None \<Rightarrow> [] | Some (AnyMap m) \<Rightarrow> m | Some v \<Rightarrow> [(''raw'', AnyString (plain v))])"

definition unmarshal_event ::
  "(string \<Rightarrow> string) \<Rightarrow> string \<Rightarrow> (go_any \<Rightarrow> string) \<Rightarrow> wire_event \<Rightarrow> typed_event" where
  "unmarshal_event quoted bad plain w =
     (let ev = we_event w; kind = ev_kind ev in
      case decode_payload quoted bad kind (we_normalized w) of
        Inr m \<Rightarrow> event.extend (ev\<lparr>ev_normalized := m\<rparr>) \<lparr>te_type = kind\<rparr>
      | Inl err \<Rightarrow> event.extend
          (ev\<lparr>ev_kind := ''control.raw'', ev_normalized := raw_fields kind err (raw_normalized plain (we_normalized w))\<rparr>)
          \<lparr>te_type = ''control.raw''\<rparr>)"

section \<open>What is private\<close>

definition private_path_keys :: "string list" where
  "private_path_keys =
     [''path'', ''saved_path'', ''savedPath'', ''local_path'', ''localPath'', ''file_path'', ''filePath'']"

definition private_keys :: "string list" where
  "private_keys =
     [''path'', ''saved_path'', ''savedPath'', ''local_path'', ''localPath'', ''file_path'', ''filePath'',
     ''cwd'', ''local_cwd'', ''localCwd'', ''local_projection_root'', ''localProjectionRoot'',
     ''helper_path'', ''helperPath'', ''native_id'', ''nativeId'', ''native_session_id'', ''nativeSessionId'',
     ''native_thread_id'', ''nativeThreadId'', ''native_ref'', ''nativeRef'', ''forked_from_native_anchor'',
     ''forkedFromNativeAnchor'', ''raw'', ''raw_payload'', ''rawPayload'', ''ssh'', ''ssh_config'',
     ''sshConfig'']"

text \<open>The fields a remote controller may see of each kind of event.\<close>

definition projection_keys1 :: "(string \<times> string list) list" where
  "projection_keys1 =
     [(''approval.requested'', [''source'', ''approval_id'', ''request_id'', ''kind'', ''turn_id'',
        ''item_id'', ''command'', ''tool_name'', ''tool_input'', ''params'', ''reason'', ''changes'',
        ''diff'', ''decision'', ''available_decisions'', ''command_actions'', ''additional_permissions'',
        ''network_approval_context'', ''proposed_execpolicy_amendment'', ''proposed_network_amendments'',
        ''text'', ''plan'', ''question'', ''options'']),
     (''approval.resolved'', [''source'', ''approval_id'', ''request_id'', ''response'', ''decision'']),
     (''approval.responded'', [''source'', ''approval_id'', ''request_id'', ''response'', ''decision'']),
     (''ask.requested'', [''source'', ''ask_id'', ''request_id'', ''kind'', ''turn_id'', ''item_id'',
        ''question'', ''prompt'', ''text'', ''options'', ''fields'', ''multi_select'', ''multiSelect'',
        ''allow_custom'', ''allowCustom'', ''is_secret'', ''isSecret'', ''schema'', ''requested_schema'',
        ''requestedSchema'', ''url'', ''mode'']),
     (''ask.resolved'', [''source'', ''ask_id'', ''request_id'', ''response'', ''answers'']),
     (''control.context'', [''source'', ''scope'', ''model'', ''usage'', ''model_usage'', ''total_tokens'',
        ''cumulative_total_tokens'', ''cumulative_input_tokens'', ''cumulative_output_tokens'',
        ''cumulative_cached_input_tokens'', ''cumulative_cache_creation_input_tokens'', ''input_tokens'',
        ''output_tokens'', ''cached_input_tokens'', ''cache_creation_input_tokens'', ''model_context_window'',
        ''used_percent'']),
     (''control.error'', [''source'', ''message'', ''code'', ''status'', ''details'']),
     (''control.interrupt'', [''source'', ''status'', ''turn_id'']),
     (''control.model'', [''source'', ''method'', ''params'']),
     (''control.notification'', [''source'', ''visibility'', ''notification_id'', ''reason'', ''title'',
        ''body'', ''target'', ''source_event'']),
     (''control.pairing.approved'', [''request_id'', ''host_device_id'', ''controller_device_id'',
        ''status'']),
     (''control.pairing.denied'', [''request_id'', ''host_device_id'', ''controller_device_id'', ''status'']),
     (''control.pairing.requested'', [''request_id'', ''host_device_id'', ''controller_device_id'',
        ''controller_device_name'', ''controller_device_kind'', ''controller_public_key_fingerprint'',
        ''scope'', ''capabilities'', ''status'', ''source'', ''cloud_request_id'']),
     (''control.rate_limit'', [''source'', ''limits'']),
     (''control.raw'', [''source'', ''type'', ''subtype'', ''method'']),
     (''control.status'', [''source'', ''kind'', ''status'', ''permission_mode'', ''active_flags'', ''name'',
        ''message''])]"

definition projection_keys2 :: "(string \<times> string list) list" where
  "projection_keys2 =
     [(''control.steer'', [''source'', ''status'', ''turn_id'']),
     (''control.terminal.attached'', [''terminal_id'', ''viewer_id'', ''input_lease_id'', ''status'']),
     (''control.terminal.closed'', [''terminal_id'', ''status'']),
     (''control.terminal.detached'', [''terminal_id'', ''viewer_id'', ''released'', ''status'']),
     (''control.terminal.opened'', [''terminal_id'', ''status'']),
     (''control.trust.granted'', [''host_device_id'', ''controller_device_id'', ''scope'', ''capabilities'',
        ''pairing_request_id'']),
     (''control.trust.revoked'', [''host_device_id'', ''controller_device_id'', ''revoked_at'',
        ''released_terminal_writers'']),
     (''control.warning'', [''source'', ''kind'', ''name'', ''status'', ''message'', ''attempt'',
        ''max_retries'', ''retry_delay_ms'', ''error_status'', ''error'']),
     (''hook.completed'', [''source'', ''id'', ''name'', ''hook_event_name'', ''status'', ''stdout'',
        ''stderr'', ''output'', ''exit_code'', ''outcome'']),
     (''hook.progress'', [''source'', ''id'', ''name'', ''hook_event_name'', ''status'', ''stdout'',
        ''stderr'', ''output'', ''exit_code'', ''outcome'']),
     (''hook.started'', [''source'', ''id'', ''name'', ''hook_event_name'', ''status'', ''stdout'',
        ''stderr'', ''output'', ''exit_code'', ''outcome'']),
     (''memory.compacted'', [''source'', ''turn_id'', ''metadata'']),
     (''memory.compacting'', [''source'', ''status'', ''message'']),
     (''message.assistant'', [''source'', ''text'', ''item_id'', ''message_id'', ''native_message_uuid'',
        ''media'', ''attachments'', ''source_session_id'', ''source_seq'', ''fork_projection'',
        ''suppress_notification'']),
     (''message.delta'', [''source'', ''text'', ''item_id'', ''message_id'']),
     (''message.media'', [''source'', ''status'', ''item_id'', ''media_id'', ''mime_type'', ''kind'',
        ''name'', ''detail'', ''width'', ''height'', ''size''])]"

definition projection_keys3 :: "(string \<times> string list) list" where
  "projection_keys3 =
     [(''message.started'', [''source'', ''item_id'', ''message_id'']),
     (''message.user'', [''source'', ''text'', ''input'', ''attachments'', ''media'', ''source_session_id'',
        ''source_seq'', ''fork_projection'', ''suppress_notification'']),
     (''plan.delta'', [''source'', ''text'', ''item_id'']),
     (''plan.updated'', [''source'', ''turn_id'', ''item_id'', ''plan'', ''text'']),
     (''queue.cancelled'', [''queue_id'', ''reason'', ''text'', ''internal'']),
     (''queue.dequeued'', [''queue_id'', ''text'', ''internal'']),
     (''queue.failed'', [''queue_id'', ''reason'', ''message'', ''text'', ''internal'']),
     (''queue.queued'', [''queue_id'', ''session_id'', ''text'', ''internal'']),
     (''queue.steered'', [''queue_id'', ''text'', ''internal'']),
     (''reasoning.completed'', [''source'', ''item_id'', ''text'', ''status'']),
     (''reasoning.delta'', [''source'', ''item_id'', ''text'']),
     (''reasoning.started'', [''source'', ''item_id'', ''text'', ''status'']),
     (''session.deleted'', [''session_id'', ''reason'', ''message'']),
     (''session.native'', [''source'', ''type'', ''subtype'', ''status'', ''preview'', ''name'', ''title'',
        ''summary'', ''firstPrompt'', ''aiTitle'', ''customTitle'']),
     (''session.started'', [''id'', ''workspace_id'', ''agent'', ''title'', ''status'',
        ''forked_from_session_id'', ''forked_from_event_seq'', ''forked_from_title'', ''created_at'',
        ''updated_at''])]"

definition projection_keys4 :: "(string \<times> string list) list" where
  "projection_keys4 =
     [(''session.updated'', [''source'', ''type'', ''subtype'', ''title'', ''summary'', ''description'',
        ''recent_action'', ''summarizes_uuid'', ''thread_name'', ''name'']),
     (''tool.completed'', [''source'', ''id'', ''name'', ''item_id'', ''category'', ''status'', ''result'',
        ''text'', ''hidden'', ''visibility'']),
     (''tool.diff'', [''source'', ''turn_id'', ''item_id'', ''diff'', ''patch'']),
     (''tool.output_delta'', [''source'', ''id'', ''name'', ''item_id'', ''category'', ''text'']),
     (''tool.progress'', [''source'', ''id'', ''name'', ''parent_tool_use_id'', ''elapsed_time_seconds'',
        ''task_id'', ''category'', ''text'', ''status'']),
     (''tool.started'', [''source'', ''id'', ''name'', ''item_id'', ''category'', ''input'', ''params'',
        ''command'', ''effective_command'', ''remote_command'', ''native_command'', ''text'']),
     (''tool.todo'', [''source'', ''todos'', ''text'']),
     (''turn.cancelled'', [''source'', ''turn_id'', ''status'', ''reason'']),
     (''turn.completed'', [''source'', ''turn_id'', ''status'', ''duration_ms'']),
     (''turn.failed'', [''source'', ''turn_id'', ''status'', ''message'', ''reason'']),
     (''turn.replaced'', [''source'', ''replacement_session_id'', ''source_session_id'', ''from_seq'',
        ''to_seq'', ''start_seq'', ''end_seq'', ''status'']),
     (''turn.started'', [''source'', ''turn_id'', ''status'']),
     (''workspace.connection'', [''workspace_id'', ''target'', ''status'', ''endpoint'', ''port'',
        ''remote_cwd'', ''remote_user'', ''remote_host'', ''remote_os'', ''remote_arch'', ''remote_shell'',
        ''display_cwd'', ''capabilities'', ''message'', ''retry_attempt'', ''retry_max'', ''updated_at'']),
     (''workspace.created'', [''id'', ''name'', ''target'', ''agent'', ''created_at'', ''updated_at'']),
     (''workspace.removed'', [''workspace_id'', ''id'', ''reason''])]"

definition projection_keys :: "(string \<times> string list) list" where
  "projection_keys = projection_keys1 @ projection_keys2 @ projection_keys3 @ projection_keys4"

section \<open>Events\<close>

fun sanitize_value :: "go_any \<Rightarrow> go_any"
  and sanitize_fields :: "fields \<Rightarrow> fields"
  and sanitize_items :: "go_any list \<Rightarrow> go_any list" where
  "sanitize_value (AnyMap m) = AnyMap (sanitize_fields m)"
| "sanitize_value (AnyList items) = AnyList (sanitize_items items)"
| "sanitize_value v = v"
| "sanitize_fields [] = []"
| "sanitize_fields ((k, v) # m) =
     (if k \<in> set private_keys then sanitize_fields m else (k, sanitize_value v) # sanitize_fields m)"
| "sanitize_items [] = []"
| "sanitize_items (v # vs) = sanitize_value v # sanitize_items vs"

definition project_field :: "fields \<Rightarrow> string \<Rightarrow> (string \<times> go_any) option" where
  "project_field value k = map_option (\<lambda>v. (k, sanitize_value v)) (map_of value k)"

definition project_fields :: "string \<Rightarrow> fields \<Rightarrow> fields" where
  "project_fields kind value =
     (case map_of projection_keys kind of None \<Rightarrow> [] | Some allowed \<Rightarrow> List.map_filter (project_field value) allowed)"

definition drop_paths :: "fields \<Rightarrow> fields" where
  "drop_paths m = filter (\<lambda>f. fst f \<notin> set private_path_keys) m"

fun media_item :: "go_any \<Rightarrow> go_any" where
  "media_item (AnyMap m) = AnyMap (drop_paths m)"
| "media_item v = v"

fun media_references :: "go_any \<Rightarrow> go_any" where
  "media_references (AnyList items) = AnyList (map media_item items)"
| "media_references v = media_item v"

definition update_present :: "string \<Rightarrow> (go_any \<Rightarrow> go_any) \<Rightarrow> fields \<Rightarrow> fields" where
  "update_present k f m = map (\<lambda>(k', v). (k', if k' = k then f v else v)) m"

definition sanitize_normalized :: "string \<Rightarrow> fields \<Rightarrow> fields" where
  "sanitize_normalized kind value =
     (if value = [] then []
      else (let projected = project_fields kind value;
                media = (if has_prefix kind ''message.''
                  then update_present ''media'' media_references (update_present ''attachments'' media_references projected)
                  else projected)
            in if kind = ''message.media'' then drop_paths media else media))"

text \<open>\<open>ProjectNormalizedForRemote\<close>; \<open>None\<close> for a payload of no registered type.\<close>

definition project_payload :: "string \<Rightarrow> fields \<Rightarrow> (string \<times> fields) option" where
  "project_payload type value =
     (if type \<in> set event_kinds then Some (type, sanitize_normalized type value) else None)"

definition sanitize_event :: "typed_event \<Rightarrow> typed_event" where
  "sanitize_event ev0 =
     (let ev = ev0\<lparr>ev_raw := AnyNil\<rparr>; nothing = ev\<lparr>ev_normalized := [], te_type := ''control.raw''\<rparr> in
      if map_of projection_keys (ev_kind ev) = None then nothing
      else (case project_payload (te_type ev) (ev_normalized ev) of
          None \<Rightarrow> nothing
        | Some (t, value) \<Rightarrow> ev\<lparr>ev_normalized := value, te_type := t\<rparr>))"

definition sanitize_events :: "typed_event list \<Rightarrow> typed_event list" where
  "sanitize_events events = map sanitize_event events"

definition sanitize_event_normalized :: "(string \<Rightarrow> string) \<Rightarrow> string \<Rightarrow> fields \<Rightarrow> fields" where
  "sanitize_event_normalized quoted kind value =
     (case event_payload quoted (trim_space kind) value of
        (t, m) \<Rightarrow> (case project_payload t m of None \<Rightarrow> [] | Some (t', m') \<Rightarrow> m'))"

section \<open>Workspaces and sessions\<close>

definition sanitize_workspace :: "agent_workspace \<Rightarrow> agent_workspace" where
  "sanitize_workspace ws = ws\<lparr>aw_projection_root := [], aw_cwd := [], aw_ssh := None,
     aw_native_session := [], aw_native_thread := []\<rparr>"

definition sanitize_workspaces :: "agent_workspace list \<Rightarrow> agent_workspace list" where
  "sanitize_workspaces wss = map sanitize_workspace wss"

record workspace_connection =
  wc_workspace :: string
  wc_target :: string
  wc_status :: string
  wc_endpoint :: string
  wc_port :: int
  wc_remote_cwd :: string
  wc_remote_user :: string
  wc_remote_host :: string
  wc_remote_os :: string
  wc_remote_arch :: string
  wc_remote_shell :: string
  wc_display_cwd :: string
  wc_helper_path :: string
  wc_helper_status :: string
  wc_capabilities :: fields
  wc_message :: string
  wc_retry_attempt :: int
  wc_retry_max :: int
  wc_updated :: string
  wc_raw :: fields

definition sanitize_connection :: "workspace_connection \<Rightarrow> workspace_connection" where
  "sanitize_connection c = c\<lparr>wc_helper_path := [], wc_raw := []\<rparr>"

definition sanitize_session :: "agent_session \<Rightarrow> agent_session" where
  "sanitize_session ss = ss\<lparr>as_native_session := [], as_native_thread := [], as_native_ref := None, as_fork_anchor := []\<rparr>"

definition sanitize_sessions :: "agent_session list \<Rightarrow> agent_session list" where
  "sanitize_sessions sss = map sanitize_session sss"

section \<open>Paths in a pending interaction\<close>

definition local_decision_path :: "string \<Rightarrow> string \<Rightarrow> string" where
  "local_decision_path path root0 =
     (let root = path_clean (trim_space root0); target = path_clean path in
      if root = [] \<or> root = ''.'' then path
      else if \<not> is_abs path then path
      else if \<not> same_or_descendant root target then path
      else (case path_rel root target of
          Inl e \<Rightarrow> path
        | Inr rel \<Rightarrow> if rel = ''.'' then ''.'' else rel))"

definition remote_decision_path :: "string \<Rightarrow> string \<Rightarrow> string" where
  "remote_decision_path path0 root0 =
     (let root = remote_clean root0; path = remote_clean path0 in
      if root = [] \<or> path = [] \<or> \<not> is_abs (trim_space path) then path
      else (let rel = remote_rel root path in
        if path_escapes rel then path else if rel = ''.'' then ''.'' else rel))"

definition decision_path :: "string \<Rightarrow> agent_workspace \<Rightarrow> string" where
  "decision_path path0 ws =
     (let path = trim_space path0 in
      if path = [] then []
      else if aw_target ws = ''local'' then local_decision_path path (aw_cwd ws)
      else if aw_target ws = ''ssh''
        then (case aw_ssh ws of None \<Rightarrow> path | Some ssh \<Rightarrow> remote_decision_path path (sh_cwd ssh))
      else path)"

definition sanitize_row :: "agent_workspace \<Rightarrow> detail_row \<Rightarrow> detail_row" where
  "sanitize_row ws row =
     (if dr_key row = ''cwd'' \<or> dr_key row = ''path'' then row\<lparr>dr_value := decision_path (dr_value row) ws\<rparr> else row)"

definition sanitize_pending :: "agent_workspace \<Rightarrow> pending_view \<Rightarrow> pending_view" where
  "sanitize_pending ws p = p\<lparr>pv_rows := map (sanitize_row ws) (pv_rows p)\<rparr>"

definition sanitize_session_view :: "session_view \<Rightarrow> agent_workspace \<Rightarrow> session_view" where
  "sanitize_session_view view ws =
     view\<lparr>vw_session := sanitize_session (vw_session view), vw_pending := map_option (sanitize_pending ws) (vw_pending view)\<rparr>"

section \<open>Nothing private is left\<close>

text \<open>No map at any depth has a private key.\<close>

fun no_private_value :: "go_any \<Rightarrow> bool"
  and no_private_fields :: "fields \<Rightarrow> bool"
  and no_private_items :: "go_any list \<Rightarrow> bool" where
  "no_private_value (AnyMap m) \<longleftrightarrow> no_private_fields m"
| "no_private_value (AnyList items) \<longleftrightarrow> no_private_items items"
| "no_private_value v \<longleftrightarrow> True"
| "no_private_fields [] \<longleftrightarrow> True"
| "no_private_fields ((k, v) # m) \<longleftrightarrow> k \<notin> set private_keys \<and> no_private_value v \<and> no_private_fields m"
| "no_private_items [] \<longleftrightarrow> True"
| "no_private_items (v # vs) \<longleftrightarrow> no_private_value v \<and> no_private_items vs"

lemmas payload_induct = sanitize_value_sanitize_fields_sanitize_items.induct

lemma sanitize_no_private:
  "no_private_value (sanitize_value v)"
  "no_private_fields (sanitize_fields m)"
  "no_private_items (sanitize_items vs)"
  by (induction v and m and vs rule: payload_induct) auto

lemma sanitize_id:
  "no_private_value v \<Longrightarrow> sanitize_value v = v"
  "no_private_fields m \<Longrightarrow> sanitize_fields m = m"
  "no_private_items vs \<Longrightarrow> sanitize_items vs = vs"
  by (induction v and m and vs rule: payload_induct) auto

lemma no_private_fields_iff:
  "no_private_fields m \<longleftrightarrow> (\<forall>(k, v) \<in> set m. k \<notin> set private_keys \<and> no_private_value v)"
  by (induction m) auto

lemma no_private_items_iff: "no_private_items vs \<longleftrightarrow> (\<forall>v \<in> set vs. no_private_value v)"
  by (induction vs) auto

lemma path_keys_private: "k \<in> set private_path_keys \<Longrightarrow> k \<in> set private_keys"
  by (auto simp: private_path_keys_def private_keys_def)

lemma drop_paths_id: "no_private_fields m \<Longrightarrow> drop_paths m = m"
  unfolding drop_paths_def filter_id_conv no_private_fields_iff using path_keys_private by fastforce

lemma media_item_id: "no_private_value v \<Longrightarrow> media_item v = v"
  by (cases v) (simp_all add: drop_paths_id)

lemma media_references_id: "no_private_value v \<Longrightarrow> media_references v = v"
  by (cases v) (auto simp: no_private_items_iff drop_paths_id intro: map_idI media_item_id)

definition row_never_private :: "string \<times> string list \<Rightarrow> bool" where
  "row_never_private row \<longleftrightarrow> list_all (\<lambda>k. k \<notin> set private_keys) (snd row)"

lemma rows_never_private1: "list_all row_never_private projection_keys1"
  by code_simp

lemma rows_never_private2: "list_all row_never_private projection_keys2"
  by code_simp

lemma rows_never_private3: "list_all row_never_private projection_keys3"
  by code_simp

lemma rows_never_private4: "list_all row_never_private projection_keys4"
  by code_simp

lemma allowed_never_private: "list_all row_never_private projection_keys"
  by (simp add: projection_keys_def rows_never_private1 rows_never_private2 rows_never_private3 rows_never_private4)

text \<open>The table has a row for each registered kind, in the same order.\<close>

lemma kinds_of_table: "map fst projection_keys = event_kinds"
  by (simp add: projection_keys_def projection_keys1_def projection_keys2_def projection_keys3_def projection_keys4_def
      event_kinds_def)

lemma allowed_distinct: "list_all (\<lambda>(kind, allowed). distinct allowed) projection_keys"
  by code_simp

lemma allowedD:
  assumes "map_of projection_keys kind = Some allowed"
  shows "distinct allowed" "k \<in> set allowed \<Longrightarrow> k \<notin> set private_keys"
  using map_of_SomeD [OF assms] allowed_never_private allowed_distinct by (auto simp: list_all_iff row_never_private_def)

lemma known_kind_allowed: "kind \<in> set event_kinds \<Longrightarrow> \<exists>allowed. map_of projection_keys kind = Some allowed"
  using map_of_eq_None_iff [of projection_keys kind] kinds_of_table
  by (cases "map_of projection_keys kind") (auto simp flip: set_map)

lemma map_filter_fields: "set (List.map_filter (project_field value) ks) =
    {(k, sanitize_value v) | k v. k \<in> set ks \<and> map_of value k = Some v}"
  by (induction ks) (auto simp: List.map_filter_simps project_field_def split: option.split)

lemma project_fields_no_private: "no_private_fields (project_fields kind value)"
proof (cases "map_of projection_keys kind")
  case None
  then show ?thesis by (simp add: project_fields_def)
next
  case (Some allowed)
  show ?thesis
    using allowedD(2) [OF Some] sanitize_no_private(1)
    by (auto simp: project_fields_def Some no_private_fields_iff map_filter_fields)
qed

lemma update_present_id: "(\<And>v. (k, v) \<in> set m \<Longrightarrow> f v = v) \<Longrightarrow> update_present k f m = m"
  by (auto simp: update_present_def intro!: map_idI)

lemma media_update_id: "no_private_fields m \<Longrightarrow> update_present k media_references m = m"
  by (rule update_present_id) (auto simp: no_private_fields_iff intro: media_references_id)

text \<open>The extra treatment of messages changes nothing: their fields were sanitised already.\<close>

lemma sanitize_normalized_eq: "sanitize_normalized kind value = project_fields kind value"
proof (cases "value = []")
  case True
  have "List.map_filter (project_field []) ks = []" for ks
    by (induction ks) (simp_all add: List.map_filter_simps project_field_def)
  with True show ?thesis by (simp add: sanitize_normalized_def project_fields_def split: option.split)
next
  case False
  then show ?thesis
    by (simp add: sanitize_normalized_def Let_def media_update_id drop_paths_id project_fields_no_private)
qed

lemma project_fields_allowed:
  "map_of projection_keys kind = Some allowed \<Longrightarrow> fst ` set (project_fields kind value) \<subseteq> set allowed"
  by (auto simp: project_fields_def map_filter_fields)

lemma map_of_project:
  "distinct ks \<Longrightarrow> map_of (List.map_filter (project_field value) ks) k =
     (if k \<in> set ks then map_option sanitize_value (map_of value k) else None)"
  by (induction ks) (auto simp: List.map_filter_simps project_field_def split: option.split)

lemma raw_kind_known: "''control.raw'' \<in> set event_kinds"
  by (simp add: event_kinds_def)

lemma sanitize_event_cases:
  "(ev_normalized (sanitize_event ev) = [] \<and> te_type (sanitize_event ev) = ''control.raw'') \<or>
   (te_type ev \<in> set event_kinds \<and> te_type (sanitize_event ev) = te_type ev \<and>
    ev_normalized (sanitize_event ev) = project_fields (te_type ev) (ev_normalized ev))"
  by (simp add: sanitize_event_def Let_def project_payload_def sanitize_normalized_eq)

text \<open>
  C13: An event sent to a remote controller carries no raw payload of the agent, only fields the table allows for its
  type of payload, and at no depth of these fields a key of the private ones (paths, working directories,
  native ids, SSH settings).
\<close>

theorem remote_event_private:
  "ev_raw (sanitize_event ev) = AnyNil \<and>
   no_private_fields (ev_normalized (sanitize_event ev)) \<and>
   (\<exists>allowed. map_of projection_keys (te_type (sanitize_event ev)) = Some allowed \<and>
      fst ` set (ev_normalized (sanitize_event ev)) \<subseteq> set allowed)"
proof (intro conjI)
  show "ev_raw (sanitize_event ev) = AnyNil"
    by (simp add: sanitize_event_def Let_def project_payload_def)
  show "no_private_fields (ev_normalized (sanitize_event ev))"
    using sanitize_event_cases [of ev] project_fields_no_private by auto
  show "\<exists>allowed. map_of projection_keys (te_type (sanitize_event ev)) = Some allowed \<and>
      fst ` set (ev_normalized (sanitize_event ev)) \<subseteq> set allowed"
    using sanitize_event_cases [of ev] known_kind_allowed project_fields_allowed raw_kind_known
    by (metis empty_set empty_subsetI image_empty)
qed

lemma sanitized_field:
  assumes "map_of projection_keys (ev_kind ev) \<noteq> None" "te_type ev \<in> set event_kinds"
    and "map_of projection_keys (te_type ev) = Some allowed"
  shows "map_of (ev_normalized (sanitize_event ev)) k =
      (if k \<in> set allowed then map_option sanitize_value (map_of (ev_normalized ev) k) else None)"
proof -
  have out: "ev_normalized (sanitize_event ev) = List.map_filter (project_field (ev_normalized ev)) allowed"
    using assms by (auto simp: sanitize_event_def Let_def project_payload_def sanitize_normalized_eq project_fields_def)
  show ?thesis
    unfolding out by (rule map_of_project [OF allowedD(1) [OF assms(3)]])
qed

text \<open>
  Nothing else is lost: of an event with a known kind and type every allowed field arrives, with its value
  less the private keys in it; a value without private keys arrives unchanged.
\<close>

theorem remote_event_keeps:
  assumes "map_of projection_keys (ev_kind ev) \<noteq> None" "te_type ev \<in> set event_kinds"
    and "map_of projection_keys (te_type ev) = Some allowed"
  shows "map_of (ev_normalized (sanitize_event ev)) k =
      (if k \<in> set allowed then map_option sanitize_value (map_of (ev_normalized ev) k) else None)"
    and "map_of (ev_normalized ev) k = Some v \<Longrightarrow> k \<in> set allowed \<Longrightarrow> no_private_value v \<Longrightarrow>
      map_of (ev_normalized (sanitize_event ev)) k = Some v"
  using sanitized_field [OF assms, of k] by (simp_all add: sanitize_id(1))

lemma project_idem: "project_fields kind (project_fields kind value) = project_fields kind value"
proof (cases "map_of projection_keys kind")
  case None
  then show ?thesis by (simp add: project_fields_def)
next
  case (Some allowed)
  let ?out = "List.map_filter (project_field value) allowed"
  have "project_field ?out k = project_field value k" if "k \<in> set allowed" for k
    using that map_of_project [OF allowedD(1) [OF Some], of _ k] sanitize_id(1) [OF sanitize_no_private(1)]
    by (cases "map_of value k") (simp_all add: project_field_def)
  then have "List.map_filter (project_field ?out) allowed = ?out"
    by (simp add: List.map_filter_def cong: filter_cong)
  then show ?thesis by (simp add: project_fields_def Some)
qed

text \<open>A host that relays what it was sent projects it a second time.\<close>

lemma sanitize_event_idem: "sanitize_event (sanitize_event ev) = sanitize_event ev"
proof -
  have empty: "project_fields kind [] = []" for kind
    using sanitize_normalized_eq [of kind "[]"] by (simp add: sanitize_normalized_def)
  show ?thesis
    by (simp add: sanitize_event_def Let_def project_payload_def sanitize_normalized_eq project_idem empty raw_kind_known)
qed

section \<open>Events as JSON\<close>

text \<open>
  Events of a registered kind whose payload has that kind come back from their JSON; an event of another kind is
  read as \<open>control.raw\<close> that keeps its kind and payload.
\<close>

lemma event_json_roundtrip:
  assumes "ev_kind ev \<in> set event_kinds" "te_type ev = ev_kind ev"
  shows "unmarshal_event quoted bad plain (marshal_event ev) = ev"
  using assms by (cases ev) (simp add: unmarshal_event_def marshal_event_def decode_payload_def event.defs Let_def)

lemma unknown_event_kept:
  assumes "ev_kind ev \<notin> set event_kinds" "ev_normalized ev \<noteq> []"
  shows "field (ev_normalized (unmarshal_event quoted bad plain (marshal_event ev))) ''original_kind'' = AnyString (ev_kind ev)"
    and "field (ev_normalized (unmarshal_event quoted bad plain (marshal_event ev))) ''normalized'' = AnyMap (ev_normalized ev)"
  using assms by (simp_all add: unmarshal_event_def marshal_event_def decode_payload_def event.defs raw_fields_def
      raw_normalized_def field_def Let_def)

section \<open>Paths shown to a controller\<close>

lemma has_prefix_iff: "has_prefix s pre \<longleftrightarrow> (\<exists>t. s = pre @ t)"
  by (auto simp: has_prefix_def) (metis append_take_drop_id)

lemma normal_not_climbs:
  assumes "cs \<noteq> []" "list_all normal cs"
  shows "\<not> climbs (join_with ''/'' cs)"
proof
  assume "climbs (join_with ''/'' cs)"
  then have "hd (split_on CHR ''/'' (join_with ''/'' cs)) = ''..''"
  proof (unfold climbs_def, elim disjE)
    assume "has_prefix (join_with ''/'' cs) ''../''"
    then obtain t where "join_with ''/'' cs = ''..'' @ CHR ''/'' # t"
      by (auto simp: has_prefix_iff)
    then show ?thesis
      using split_on_append_sep [of "CHR ''/''" "''..''" t] by simp
  qed simp
  then show False
    using assms split_join_normal [OF assms] by (cases cs) (auto simp: normal_def)
qed

definition below :: "string \<Rightarrow> string \<Rightarrow> string" where
  "below root path =
     (if comps path = comps root then ''.'' else join_with ''/'' (drop (length (comps root)) (comps path)))"

lemma rel_below:
  assumes "is_abs root" "is_abs path" "prefix (comps root) (comps path)"
  shows "path_rel (path_clean root) (path_clean path) = Inr (below root path)"
proof -
  obtain cs where cs: "comps path = comps root @ cs"
    using assms(3) by (auto simp: prefix_def)
  have abs: "is_abs (path_clean root)" "is_abs (path_clean path)" "comps (path_clean root) = comps root"
    "comps (path_clean path) = comps path" "path_clean (path_clean root) = path_clean root"
    "path_clean (path_clean path) = path_clean path"
    using assms(1,2) by (simp_all add: is_abs_clean comps_clean path_clean_abs comps_normal)
  show ?thesis
  proof (cases "cs = []")
    case True
    then have "path_clean path = path_clean root"
      using cs assms(1,2) by (simp add: path_clean_abs)
    then show ?thesis using cs True by (simp add: path_rel_def below_def)
  next
    case False
    then have "path_clean path \<noteq> path_clean root"
      using cs abs(3,4) by (metis append_self_conv)
    moreover have "path_clean path \<noteq> ''.''"
      using abs(2) by (auto simp: is_abs_def)
    ultimately show ?thesis
      using abs cs False strip_common_prefix [of "comps root" cs] by (simp add: path_rel_def below_def)
  qed
qed

lemma below_inside:
  assumes "is_abs root" "is_abs path" "prefix (comps root) (comps path)"
  shows "same_or_descendant (path_clean root) (path_clean path)" "\<not> is_abs (below root path)"
    "below root path = ''.'' \<or> (\<exists>cs. cs \<noteq> [] \<and> list_all normal cs \<and> comps path = comps root @ cs \<and>
       below root path = join_with ''/'' cs)"
proof -
  obtain cs where cs: "comps path = comps root @ cs"
    using assms(3) by (auto simp: prefix_def)
  then have normal: "list_all normal cs"
    using comps_normal [OF assms(2)] by simp
  show "below root path = ''.'' \<or> (\<exists>cs. cs \<noteq> [] \<and> list_all normal cs \<and> comps path = comps root @ cs \<and>
       below root path = join_with ''/'' cs)"
    using cs normal by (auto simp: below_def)
  show "\<not> is_abs (below root path)"
    using cs normal join_normal_rel [of cs] by (auto simp: below_def is_abs_def)
  show "same_or_descendant (path_clean root) (path_clean path)"
    using rel_below [OF assms] cs normal normal_not_climbs [of cs]
    by (auto simp: same_or_descendant_def below_def climbs_def)
qed

lemma local_decision_exact:
  assumes "is_abs root" "trimmed root" "is_abs path"
  shows "local_decision_path path root = (if prefix (comps root) (comps path) then below root path else path)"
proof -
  have root: "path_clean root \<noteq> []" "path_clean root \<noteq> ''.''"
    using is_abs_clean [OF assms(1)] by (auto simp: is_abs_def)
  show ?thesis
  proof (cases "prefix (comps root) (comps path)")
    case True
    then show ?thesis
      using assms root below_inside(1) [OF assms(1,3) True] rel_below [OF assms(1,3) True]
      by (simp add: local_decision_path_def Let_def)
  next
    case False
    then have "\<not> same_or_descendant (path_clean root) (path_clean path)"
      using descendant_prefix [OF _ assms(1,3)] by blast
    with False root assms show ?thesis
      by (simp add: local_decision_path_def Let_def)
  qed
qed

lemma decision_path_opens:
  assumes "aw_target ws = ''local''" "is_abs (aw_cwd ws)" "trimmed (aw_cwd ws)"
    and "is_abs (trim_space path)" "prefix (comps (aw_cwd ws)) (comps (trim_space path))"
    and "trimmed (decision_path path ws)" "\<not> path_escapes (decision_path path ws)"
  shows "\<not> is_abs (decision_path path ws) \<and>
    (\<exists>rel. resolve_workspace_path (aw_cwd ws) (decision_path path ws) = Inr (path_clean (trim_space path), rel))"
proof (rule conjI)
  let ?root = "aw_cwd ws" and ?path = "trim_space path"
  have "?path \<noteq> []"
    using assms(4) by (auto simp: is_abs_def)
  then have shown: "decision_path path ws = below ?root ?path"
    using assms(1,5) local_decision_exact [OF assms(2,3,4)] by (simp add: decision_path_def Let_def)
  show "\<not> is_abs (decision_path path ws)"
    using below_inside(2) [OF assms(2,4,5)] shown by simp
  have resolved: "Inr (path_clean ?path, rel) = resolve_workspace_path ?root (below ?root ?path)"
    if "below ?root ?path = join_with ''/'' cs" "cs \<noteq> []" "list_all normal cs" "comps ?path = comps ?root @ cs"
      "rel = below ?root ?path" for cs rel
    using local_path_complete [OF assms(2) that(2,3)] assms(4,6,7) that shown by (simp add: path_clean_abs)
  show "\<exists>rel. resolve_workspace_path ?root (decision_path path ws) = Inr (path_clean ?path, rel)"
  proof (cases "below ?root ?path = ''.''")
    case True
    have "comps ?path = comps ?root"
    proof (rule ccontr)
      assume "comps ?path \<noteq> comps ?root"
      moreover obtain cs where "comps ?path = comps ?root @ cs"
        using assms(5) by (auto simp: prefix_def)
      ultimately show False
        using True comps_normal [OF assms(4)] join_not_dot [of cs] by (simp add: below_def)
    qed
    then have "path_clean ?path = path_clean ?root"
      using assms(2,4) by (simp add: path_clean_abs)
    moreover have "trim_space ''.'' = ''.''"
      by (simp add: str_eval)
    ultimately show ?thesis
      using True shown by (simp add: resolve_workspace_path_def Let_def)
  next
    case False
    then show ?thesis
      using below_inside(3) [OF assms(2,4,5)] resolved shown by metis
  qed
qed

lemma decision_path_relative:
  assumes "aw_target ws = ''local''" "is_abs (aw_cwd ws)" "trimmed (aw_cwd ws)"
    and "is_abs (trim_space path)" "prefix (comps (aw_cwd ws)) (comps (trim_space path))"
  shows "\<not> is_abs (decision_path path ws)"
proof -
  have "decision_path path ws = below (aw_cwd ws) (trim_space path)"
    using assms(1,4,5) local_decision_exact [OF assms(2,3,4)] by (auto simp: decision_path_def Let_def is_abs_def)
  then show ?thesis using below_inside(2) [OF assms(2,4,5)] by simp
qed

lemma relative_path_shown:
  assumes "aw_target ws = ''local''" "is_abs (aw_cwd ws)" "\<not> is_abs (trim_space path)"
  shows "decision_path path ws = trim_space path"
  using assms by (simp add: decision_path_def local_decision_path_def Let_def)

lemma outside_path_shown:
  assumes "aw_target ws = ''local''" "is_abs (aw_cwd ws)" "trimmed (aw_cwd ws)" "is_abs (trim_space path)"
    and "\<not> prefix (comps (aw_cwd ws)) (comps (trim_space path))"
  shows "decision_path path ws = trim_space path"
  using assms local_decision_exact [OF assms(2,3,4)] by (auto simp: decision_path_def Let_def is_abs_def)

text \<open>
  C17: What a controller is shown of the details of a pending interaction of a local workspace (whose directory
  is an absolute path without surrounding white space), row by row. A row \<open>cwd\<close> or \<open>path\<close> whose value is an
  absolute path of the workspace shows a relative path, and the workspace service, asked for that path,
  resolves it to exactly the file meant, unless the relative path begins or ends with white space (the
  service trims it) or begins with two dots and a backslash (the service refuses it). Relative paths and
  paths outside the workspace are shown as they are, trimmed; all other rows are shown unchanged, with
  whatever paths they contain.
\<close>

theorem decision_rows_open:
  assumes "aw_target ws = ''local''" "is_abs (aw_cwd ws)" "trimmed (aw_cwd ws)"
    and "i < length (pv_rows p)" "row = pv_rows p ! i" "shown = pv_rows (sanitize_pending ws p) ! i"
    and "path = trim_space (dr_value row)"
  shows "if dr_key row \<noteq> ''cwd'' \<and> dr_key row \<noteq> ''path'' then shown = row
    else if \<not> is_abs path \<or> \<not> prefix (comps (aw_cwd ws)) (comps path) then shown = row\<lparr>dr_value := path\<rparr>
    else shown = row\<lparr>dr_value := dr_value shown\<rparr> \<and> \<not> is_abs (dr_value shown) \<and>
      (trimmed (dr_value shown) \<and> \<not> path_escapes (dr_value shown) \<longrightarrow>
        (\<exists>rel. resolve_workspace_path (aw_cwd ws) (dr_value shown) = Inr (path_clean path, rel)))"
proof -
  have shown: "shown = sanitize_row ws row"
    using assms(4-6) by (simp add: sanitize_pending_def)
  consider "dr_key row \<noteq> ''cwd'' \<and> dr_key row \<noteq> ''path''"
    | "dr_key row = ''cwd'' \<or> dr_key row = ''path''" "\<not> is_abs path"
    | "dr_key row = ''cwd'' \<or> dr_key row = ''path''" "is_abs path" "\<not> prefix (comps (aw_cwd ws)) (comps path)"
    | "dr_key row = ''cwd'' \<or> dr_key row = ''path''" "is_abs path" "prefix (comps (aw_cwd ws)) (comps path)"
    by blast
  then show ?thesis
  proof cases
    case 1
    then show ?thesis by (simp add: shown sanitize_row_def)
  next
    case 2
    then show ?thesis using relative_path_shown [OF assms(1,2)] assms(7) by (auto simp: shown sanitize_row_def)
  next
    case 3
    then show ?thesis using outside_path_shown [OF assms(1-3)] assms(7) by (auto simp: shown sanitize_row_def)
  next
    case 4
    then have val: "shown = row\<lparr>dr_value := decision_path (dr_value row) ws\<rparr>"
      by (auto simp: shown sanitize_row_def)
    show ?thesis
      using 4 val assms(7) decision_path_relative [OF assms(1-3)] decision_path_opens [OF assms(1-3)] by auto
  qed
qed

text \<open>
  Only the rows \<open>cwd\<close> and \<open>path\<close> are rewritten. The row \<open>changes\<close> shows the changes as they are, paths and
  all, although the projection of the same event takes every path out of them.
\<close>

theorem changes_row_unsanitized:
  assumes "ev_kind ev = ''approval.requested''" "te_type ev = ''approval.requested''"
    and "map_of (ev_normalized ev) ''changes'' = Some v" "v \<noteq> AnyNil"
  shows "map_of (ev_normalized (sanitize_event ev)) ''changes'' = Some (sanitize_value v)"
    and "\<exists>row \<in> set (pv_rows (sanitize_pending ws (interaction_view pv (event.truncate ev)))).
           dr_key row = ''changes'' \<and> dr_value row = pv v"
proof -
  obtain allowed where allowed: "map_of projection_keys ''approval.requested'' = Some allowed" "''changes'' \<in> set allowed"
    by (simp add: projection_keys_def projection_keys1_def)
  have "''approval.requested'' \<in> set event_kinds"
    by (simp add: event_kinds_def)
  then show "map_of (ev_normalized (sanitize_event ev)) ''changes'' = Some (sanitize_value v)"
    using sanitized_field [of ev allowed "''changes''"] allowed assms(1-3) by simp
  let ?vals = "ev_normalized ev"
  have "first_non_nil [field ?vals ''changes'', w] = v" for w
    using assms(3,4) by (simp add: field_def)
  then have row: "\<lparr>dr_key = ''changes'', dr_label = changes_label, dr_value = pv v, dr_mono = True\<rparr>
      \<in> set (detail_rows pv kind ?vals params)" (is "?row \<in> _") for kind params
    unfolding detail_rows_def set_append using assms(4) by (intro UnI2) (simp add: value_row_def)
  have rows: "pv_rows (sanitize_pending ws (interaction_view pv (event.truncate ev))) =
      map (sanitize_row ws) (detail_rows pv (view_kind (event.truncate ev)) ?vals (map_value (field ?vals ''params'')))"
    by (simp add: sanitize_pending_def interaction_view_def Let_def event.defs)
  have kept: "sanitize_row ws ?row = ?row"
    by (simp add: sanitize_row_def)
  have "?row \<in> set (pv_rows (sanitize_pending ws (interaction_view pv (event.truncate ev))))"
    unfolding rows set_map by (rule image_eqI [where x = ?row], rule kept [symmetric], rule row)
  then show "\<exists>row \<in> set (pv_rows (sanitize_pending ws (interaction_view pv (event.truncate ev)))).
           dr_key row = ''changes'' \<and> dr_value row = pv v"
    by force
qed

section \<open>Examples\<close>

definition private_event :: typed_event where
  "private_event = event.extend \<lparr>ev_seq = 7, ev_ts = ''t'', ev_workspace = ''w'', ev_session = ''b'', ev_agent = ''codex'',
     ev_kind = ''approval.requested'',
     ev_normalized = [(''approval_id'', AnyString ''p''), (''cwd'', AnyString ''/home/u/w''),
       (''changes'', AnyList [AnyMap [(''path'', AnyString ''/home/u/w/a''), (''kind'', AnyString ''add'')]])],
     ev_raw = AnyString ''raw''\<rparr> \<lparr>te_type = ''approval.requested''\<rparr>"

lemmas private_eval = private_event_def event.defs

lemma approval_keys:
  "\<exists>allowed. map_of projection_keys ''approval.requested'' = Some allowed \<and> ''approval_id'' \<in> set allowed \<and>
     ''changes'' \<in> set allowed \<and> ''cwd'' \<notin> set allowed"
  "''approval.requested'' \<in> set event_kinds"
  by (simp_all add: projection_keys_def projection_keys1_def event_kinds_def)

theorem remote_event_keeps_witness:
  "map_of (ev_normalized (sanitize_event private_event)) ''approval_id'' = Some (AnyString ''p'')"
  "map_of (ev_normalized (sanitize_event private_event)) ''cwd'' = None"
  "map_of (ev_normalized (sanitize_event private_event)) ''changes'' = Some (AnyList [AnyMap [(''kind'', AnyString ''add'')]])"
proof -
  obtain allowed where allowed: "map_of projection_keys ''approval.requested'' = Some allowed"
      "''approval_id'' \<in> set allowed" "''changes'' \<in> set allowed" "''cwd'' \<notin> set allowed"
    using approval_keys(1) by blast
  have typed: "map_of projection_keys (ev_kind private_event) \<noteq> None" "te_type private_event \<in> set event_kinds"
    "map_of projection_keys (te_type private_event) = Some allowed"
    using allowed approval_keys(2) by (simp_all add: private_eval)
  show "map_of (ev_normalized (sanitize_event private_event)) ''approval_id'' = Some (AnyString ''p'')"
    using remote_event_keeps(2) [OF typed, of "''approval_id''"] allowed by (simp add: private_eval)
  show "map_of (ev_normalized (sanitize_event private_event)) ''cwd'' = None"
    using remote_event_keeps(1) [OF typed, of "''cwd''"] allowed by simp
  show "map_of (ev_normalized (sanitize_event private_event)) ''changes'' = Some (AnyList [AnyMap [(''kind'', AnyString ''add'')]])"
    using remote_event_keeps(1) [OF typed, of "''changes''"] allowed by (simp add: private_eval private_keys_def)
qed

definition home_workspace :: agent_workspace where
  "home_workspace = demo_workspace\<lparr>aw_cwd := ''/home/u/w''\<rparr>"

definition path_request :: pending_view where
  "path_request = \<lparr>pv_id = ''p'', pv_kind = ''approval'', pv_title = [],
     pv_rows = [\<lparr>dr_key = ''path'', dr_label = [], dr_value = ''/home/u/w/x/../a'', dr_mono = True\<rparr>],
     pv_actions = [], pv_form = []\<rparr>"

theorem decision_rows_open_witness:
  "dr_value (pv_rows (sanitize_pending home_workspace path_request) ! 0) = ''a'' \<and>
   (\<exists>rel. resolve_workspace_path ''/home/u/w'' ''a'' = Inr (''/home/u/w/a'', rel))"
proof -
  let ?row = "pv_rows path_request ! 0" and ?shown = "pv_rows (sanitize_pending home_workspace path_request) ! 0"
  have shown: "dr_value ?shown = ''a''"
    by (simp add: sanitize_pending_def sanitize_row_def path_request_def) code_simp
  have cwd: "aw_cwd home_workspace = ''/home/u/w''"
    by (simp add: home_workspace_def)
  have facts: "aw_target home_workspace = ''local''" "is_abs (aw_cwd home_workspace)" "trimmed (aw_cwd home_workspace)"
    "trim_space (dr_value ?row) = ''/home/u/w/x/../a''" "path_clean ''/home/u/w/x/../a'' = ''/home/u/w/a''"
    by code_simp+
  have inside: "is_abs (trim_space (dr_value ?row))" "prefix (comps (aw_cwd home_workspace)) (comps (trim_space (dr_value ?row)))"
    "trimmed ''a''" "\<not> path_escapes ''a''"
    unfolding facts(4) by code_simp+
  have row: "0 < length (pv_rows path_request)" "dr_key ?row = ''path''"
    by (simp_all add: path_request_def)
  show ?thesis
    using decision_rows_open [OF facts(1-3) row(1) refl refl refl] inside row(2) by (simp add: shown facts(4,5) cwd)
qed

theorem changes_row_unsanitized_witness:
  "\<exists>row \<in> set (pv_rows (sanitize_pending home_workspace (interaction_view (\<lambda>v. ''json'') (event.truncate private_event)))).
     dr_key row = ''changes'' \<and> dr_value row = ''json''"
  by (rule changes_row_unsanitized(2)
      [where v = "AnyList [AnyMap [(''path'', AnyString ''/home/u/w/a''), (''kind'', AnyString ''add'')]]"])
    (simp_all add: private_eval)

end
