(* ===== verification/Spec2Isabelle.thy ===== *)
theory Spec2Isabelle
  imports RelayWaiters Pairing HostCore SessionService Attachments TerminalStreams WorkspaceStreams
    ControllerStreams ControllerRoutes ControllerHost SessionProjections RemoteProjection
begin

text \<open>
  AstralOps lets a controller (a phone or another computer) drive coding agents, terminals and
  workspaces on a host. The host runs the daemon under \<open>src/daemon\<close>; controllers use
  \<open>src/pkg/controllercore\<close>; where no direct connection is possible both ends exchange sealed
  envelopes through the relay (\<open>src/relay\<close>, \<open>src/internal/relaybroker\<close>). This library models the
  parts that decide who may do what, what is delivered to whom and what is shown, and proves what
  makes them correct. Every definition is a translation of Go code; names follow the source.

  \<^bold>\<open>How the parts interact.\<close> A controller asks for trust with a pairing request (\<open>Pairing\<close>), which a
  person at the host approves; the approval writes a trust grant (\<open>HostTrust\<close>). To connect, the
  controller signs a hello that carries a membership lease; the host checks it against its grants
  (\<open>HostCore\<close>, \<open>ControlWire\<close>) and both derive a pair of ciphers. Frames travel over a WebSocket, or
  as envelopes of the relay (\<open>RelayBroker\<close>), to which both ends authenticate with bearer credentials
  (\<open>RelayAuth\<close>). Every opened request (\<open>ControlProtocol\<close>) passes the gate of \<open>HostCore\<close> before an
  action handler sees it: sessions (\<open>SessionService\<close>), workspaces (\<open>WorkspaceFiles\<close>), attachments
  (\<open>Attachments\<close>), terminals (\<open>Terminal\<close>). What happens is recorded as events, published and
  streamed (\<open>EventLog\<close>), from which the state of sessions is computed (\<open>SessionEvents\<close>), projected
  (\<open>SessionViews\<close>, \<open>SessionProjections\<close>), cleaned of what is private (\<open>RemoteProjection\<close>) and turned
  into notifications (\<open>Notifications\<close>). On the other side the connection manager of the controller
  (\<open>ControllerTransport\<close>) keeps a session per host and distributes its frames.

  \<^bold>\<open>Theories and sources.\<close>
  \<^item> \<open>Prelude\<close>, \<open>Base64\<close>: Go strings (byte lists), \<open>strings.TrimSpace\<close>, decimal numbers, maps of slices,
    \<open>encoding/base64\<close>; the collection \<open>str_eval\<close> evaluates them.
  \<^item> \<open>RelayAuth\<close> (\<open>internal/relayauth/credential.go\<close>): signing, verification, lifetimes on \<open>int64\<close> time.
  \<^item> \<open>Mailbox\<close>, \<open>RelayBroker\<close>, \<open>RelayWaiters\<close> (\<open>internal/relaybroker/server.go\<close>): \<open>Mailbox\<close> is the contract
    of a store-and-forward mailbox as a locale; \<open>RelayBroker\<close> has the server record with one function
    per method and interprets the contract on it; \<open>RelayWaiters\<close> runs the server with blocked
    long-poll requests and WebSocket clients as a transition system.
  \<^item> \<open>HostTrust\<close> (\<open>daemon/host_identity.go\<close>, \<open>known_hosts.go\<close>), \<open>Pairing\<close> (\<open>daemon/pairing_requests.go\<close>): the
    record \<open>host_store\<close>, one function per critical section, file writes that may fail.
  \<^item> \<open>ControlProtocol\<close> (\<open>pkg/protocol/control.go\<close>), \<open>ControlWire\<close> (\<open>pkg/controlwire\<close>,
    \<open>pkg/cloudmesh/membership.go\<close>), \<open>HostCore\<close> (\<open>pkg/hostcore/core.go\<close>, \<open>daemon/host_core_adapter.go\<close>,
    \<open>daemon/control_gateway.go\<close>), where what the gate needs of a trust store is the locale \<open>trust_store\<close>,
    interpreted on \<open>HostTrust\<close>.
  \<^item> \<open>EventLog\<close> (\<open>internal/eventlog\<close>, \<open>event_hub.go\<close>, \<open>event_subscription.go\<close>): publishing in two critical
    sections, hub and subscriptions, under interleaving.
  \<^item> \<open>SessionEvents\<close>, \<open>SessionService\<close> (\<open>daemon/internal/core/sessions\<close>): \<open>SessionEvents\<close> has the pure
    functions on events, \<open>SessionService\<close> the queues and operations, the queue as the locale
    \<open>turn_queue\<close> with its interpretation, and the interleavings of goroutines.
  \<^item> \<open>EventQuery\<close> (\<open>daemon/projection_service.go\<close>): what a query of the events returns, merged from the
    store, native transcripts, forks, overlays and control state; what answers to interactions need of
    it is the locale \<open>answer_log\<close>, interpreted on that query.
  \<^item> \<open>SessionViews\<close> (\<open>internal/projection/session_view.go\<close>, \<open>daemon/session_view.go\<close>),
    \<open>SessionProjections\<close> (\<open>internal/projection/service.go\<close>), \<open>RemoteProjection\<close>
    (\<open>internal/remotecontrol/projection.go\<close>, \<open>pkg/protocol/events.go\<close>), \<open>Notifications\<close>
    (\<open>daemon/notification_intents.go\<close>).
  \<^item> \<open>Paths\<close> (\<open>core/workspace/helpers.go\<close>), \<open>WorkspaceEdits\<close>, \<open>WorkspaceFiles\<close>, \<open>WorkspaceStreams\<close>
    (\<open>core/workspace/control.go\<close>).
  \<^item> \<open>Attachments\<close> (\<open>internal/media/attachments.go\<close>).
  \<^item> \<open>Terminal\<close>, \<open>TerminalStreams\<close> (\<open>core/terminal/manager.go\<close>, \<open>connection.go\<close>).
  \<^item> \<open>ControllerTransport\<close>, \<open>ControllerStreams\<close>, \<open>ControllerRoutes\<close> (\<open>controllercore/managed_transport.go\<close>,
    \<open>types.go\<close>), \<open>ControllerRelay\<close> (\<open>client_transport.go\<close>), \<open>ControllerHost\<close> (\<open>controller.go\<close>).

  \<^bold>\<open>How code is modelled.\<close> A struct is a record, an operation a function that returns the updated
  record, an error a value (\<open>Inl\<close> of a sum or an option). A method that holds a lock for its whole
  body is one function; one that locks several times is split, and where the splitting matters there
  is an inductive step relation whose steps are the critical sections, sends and receives of the
  goroutines: relay requests and clients (\<open>RelayWaiters\<close>), publishers and subscribers (\<open>EventLog\<close>), the
  session service (\<open>SessionService\<close>), one terminal with its reader and viewers (\<open>TerminalStreams\<close>), one
  controller session with its reader, requests and streams (\<open>ControllerStreams\<close>), callers of
  \<open>getSession\<close> (\<open>ControllerRoutes\<close>), and cached session views (\<open>SessionProjections\<close>). Invariants are proved
  by rule induction over reachable worlds. The outside world of the workspaces is the list of calls made so
  far with an arbitrary answer to each (\<open>WorkspaceFiles\<close>), that of a file stream a script of reads
  (\<open>WorkspaceStreams\<close>), that of a relay connection the list of envelopes it delivers (\<open>ControllerRelay\<close>).
  Machine integers are words or wrapped where overflow can happen (lifetimes, sequence numbers of frames,
  time limits of commands); the numbers of events are integers. JSON values are the type \<open>go_any\<close>.

  \<^bold>\<open>Parameters.\<close> Code that is not in the repository or only wraps the system is an argument: cryptographic
  primitives (a record of functions, with the laws a theorem needs as named hypotheses and a toy
  instance in the witness), JSON and time codecs, clocks, random bytes and ids, file and network outcomes, MIME
  tables, SSH, pseudo terminals, agent runtimes and the SQL store.

  \<^bold>\<open>Loops.\<close> Recursion follows the list or the string it consumes. The search for an existing ancestor of a
  path terminates because each parent is shorter, also on a file system that changes its answers;
  \<open>ancestor_search_ends\<close> bounds its calls. No model uses fuel. A file stream over a script ends after as many
  reads as bytes were announced (\<open>stream_terminates\<close>).

  \<^bold>\<open>What the lemmas show.\<close>
  \<^item> Trust: only a direct grant or the approval of a pending request makes a controller trusted; revocation
    takes effect even if the file cannot be written; a handler only sees requests of a trusted controller
    with the capability its table demands, as far as the two lookups of the gate see the same grant
    (\<open>regrant_between_lookups\<close>).
  \<^item> Channel: a hello is accepted only with a valid lease and signature; both ends derive matching ciphers;
    the frames opened are a prefix of those sealed, also over a relay that forges, drops and reorders, and all of
    them if it behaves. That the AEAD lets no forgery through is a hypothesis about the frames that arrive in a
    run (\<open>unforged\<close>), not about all ciphertexts.
  \<^item> Relay: credentials are sound and complete; queues are a mailbox per account and device; a waiting
    request is always woken; the registry of clients is consistent, its buffers are bounded.
  \<^item> Events and sessions: what a subscriber streams, what happens to queued turns under all interleavings,
    which turns are lost, which answers settle an interaction and when a second one is refused, which shown interaction
    the service finds, what a compaction does to the context of a session, that the cache serves no old
    view, what a remote controller may see and which of the paths shown it can open.
  \<^item> Workspaces: every path stays inside its root lexically, and in local workspaces also through links; a patch writes
    exactly the edited text of what it read; edits are exact; reads,
    listings and streams are bounded and complete; commands need a policy.
  \<^item> Terminals and attachments: the history and every viewer's stream are complete and in order; input needs
    a live lease; an upload holds exactly the chunks accepted; files of other sessions are out of reach.
  \<^item> Controllers: streams keep their frames in order, a request is answered at most once, an open
    session stands in the table or in the hands of a goroutine, a terminal is driven only while it is shown as live.
  Some theorems state where the code does less than it means to (races between critical sections, untrimmed
  ids, a time limit that wraps); they are proved of the model as the code is.

  \<^bold>\<open>Not modelled.\<close> The runtimes of the external agents and their transcripts (\<open>claude_*.go\<close>, \<open>codex_*.go\<close>,
  \<open>native_history.go\<close>, \<open>internal/runtimes\<close>), whose formats are those of other programs; SSH dialing
  and the helper it deploys (\<open>internal/ssh\<close>, \<open>proxy-agent\<close>); the SQL store beyond what the event log needs
  (\<open>store.go\<close>); HTTP and WebSocket handlers, cloud clients and mobile bindings, which decode requests, call the
  services above and encode answers; image previews (\<open>media.go\<close>); start-up, settings and logging. Their
  behaviour is I/O against systems whose code is not in the repository; what the models need of them is
  a parameter.
\<close>

end
